(* ===== verification/Sui_Prelude.thy ===== *)
theory Sui_Prelude
  imports Main "HOL-Library.Word" "HOL-Library.Sublist"
begin

text \<open>
  Shared vocabulary of the development.

  A Rust \<open>&str\<close> is the list of its UTF-8 bytes (type \<open>string\<close>), a \<open>DateTime<Utc>\<close> the integer
  number of nanoseconds since the Unix epoch, a \<open>Result<T, E>\<close> the sum \<open>'e + 'a\<close> with \<open>Inl\<close> the
  error.  An SQLite table is the list of its rows in rowid order, and the three helpers
  \<open>update_where\<close>, \<open>affected\<close> and \<open>delete_where\<close> are what \<open>UPDATE .. WHERE\<close>, the affected row count
  and \<open>DELETE .. WHERE\<close> do to such a list.
\<close>

section \<open>Names of the shared types\<close>

type_synonym instant = int
type_synonym uuid = string

section \<open>Collections of facts\<close>

named_theorems tables "what the table helpers do"
named_theorems results "case analysis on fallible computations"

section \<open>Time\<close>

definition nanos :: int where
  "nanos = 1000000000"

definition seconds :: "int \<Rightarrow> int" where
  "seconds n = n * nanos"

definition minutes :: "int \<Rightarrow> int" where
  "minutes n = seconds (n * 60)"

definition hours :: "int \<Rightarrow> int" where
  "hours n = seconds (n * 3600)"

definition timestamp :: "instant \<Rightarrow> int" where
  "timestamp t = t div nanos"

definition num_seconds :: "int \<Rightarrow> int" where
  "num_seconds d = (if 0 \<le> d then d div nanos else - ((- d) div nanos))"

lemma nanos_pos [simp]: "0 < nanos"
  by (simp add: nanos_def)

lemma timestamp_mono: "s \<le> t \<Longrightarrow> timestamp s \<le> timestamp t"
  by (simp add: timestamp_def zdiv_mono1)

lemma num_seconds_less_iff:
  assumes "0 < n"
  shows "num_seconds d < n \<longleftrightarrow> d < seconds n"
proof (cases "0 \<le> d")
  case True
  then show ?thesis
    by (auto simp: num_seconds_def seconds_def nanos_def)
next
  case False
  have "0 \<le> (- d) div nanos"
    using False by (simp add: pos_imp_zdiv_nonneg_iff)
  moreover have "0 < seconds n"
    using assms by (simp add: seconds_def)
  ultimately show ?thesis
    using False assms by (simp add: num_seconds_def)
qed

section \<open>Fallible computations\<close>

definition is_ok :: "'e + 'a \<Rightarrow> bool" where
  "is_ok r = (case r of Inl _ \<Rightarrow> False | Inr _ \<Rightarrow> True)"

lemma is_ok_simps [simp]: "is_ok (Inr x)" "\<not> is_ok (Inl e)"
  by (simp_all add: is_ok_def)

lemma is_ok_iff [results]: "is_ok r \<longleftrightarrow> (\<exists>x. r = Inr x)"
  by (cases r) auto

definition ok_or :: "'a option \<Rightarrow> 'e \<Rightarrow> 'e + 'a" where
  "ok_or x e = (case x of None \<Rightarrow> Inl e | Some v \<Rightarrow> Inr v)"

lemma ok_or_simps [simp]: "ok_or None e = Inl e" "ok_or (Some v) e = Inr v"
  by (simp_all add: ok_or_def)

lemma ok_or_Inr_iff [results]: "ok_or x e = Inr v \<longleftrightarrow> x = Some v"
  by (cases x) auto

section \<open>Tables\<close>

definition update_where :: "('r \<Rightarrow> bool) \<Rightarrow> ('r \<Rightarrow> 'r) \<Rightarrow> 'r list \<Rightarrow> 'r list" where
  "update_where p f rows = map (\<lambda>r. if p r then f r else r) rows"

definition affected :: "('r \<Rightarrow> bool) \<Rightarrow> 'r list \<Rightarrow> nat" where
  "affected p rows = length (filter p rows)"

definition delete_where :: "('r \<Rightarrow> bool) \<Rightarrow> 'r list \<Rightarrow> 'r list" where
  "delete_where p rows = filter (\<lambda>r. \<not> p r) rows"

lemma affected_0_iff [tables]: "affected p rows = 0 \<longleftrightarrow> (\<forall>r \<in> set rows. \<not> p r)"
  by (simp add: affected_def filter_empty_conv)

lemma affected_pos_iff [tables]: "0 < affected p rows \<longleftrightarrow> (\<exists>r \<in> set rows. p r)"
  using affected_0_iff [of p rows] by auto

lemma length_update_where [simp]: "length (update_where p f rows) = length rows"
  by (simp add: update_where_def)

lemma set_update_where [tables]:
  "set (update_where p f rows) = (\<lambda>r. if p r then f r else r) ` set rows"
  by (simp add: update_where_def)

lemma update_where_none: "affected p rows = 0 \<Longrightarrow> update_where p f rows = rows"
  by (simp add: update_where_def affected_0_iff map_idI)

lemma map_update_where:
  assumes "\<And>r. g (f r) = g r"
  shows "map g (update_where p f rows) = map g rows"
  using assms by (simp add: update_where_def)

lemma image_update_where:
  assumes "\<And>r. g (f r) = g r"
  shows "g ` set (update_where p f rows) = g ` set rows"
  by (metis assms list.set_map map_update_where)

lemma set_delete_where [tables]: "set (delete_where p rows) = {r \<in> set rows. \<not> p r}"
  by (auto simp: delete_where_def)

lemma list_ex_key [tables]: "list_ex (\<lambda>r. k r = v) rows \<longleftrightarrow> v \<in> k ` set rows"
  by (induction rows) auto

lemma find_Some_in: "List.find p xs = Some x \<Longrightarrow> x \<in> set xs \<and> p x"
  by (auto simp: find_Some_iff)

lemma find_distinct_key:
  assumes "distinct (map k xs)" "x \<in> set xs"
  shows "List.find (\<lambda>y. k y = k x) xs = Some x"
  using assms by (induction xs) auto

lemma find_keyed:
  assumes "distinct (map k xs)" "x \<in> set xs" "P x" "\<And>y. P y \<Longrightarrow> k y = k x"
  shows "List.find P xs = Some x"
  using assms(1,2)
proof (induction xs)
  case (Cons a xs)
  show ?case
  proof (cases "a = x")
    case False
    then have "k x \<in> k ` set xs" "x \<in> set xs"
      using Cons.prems by simp_all
    then have "\<not> P a"
      using Cons.prems(1) assms(4) [of a] by auto
    then show ?thesis
      using Cons \<open>x \<in> set xs\<close> by simp
  qed (simp add: assms(3))
qed simp

lemma distinct_key_eq:
  assumes "distinct (map k xs)" "x \<in> set xs" "y \<in> set xs" "k x = k y"
  shows "x = y"
  using assms by (simp add: distinct_map inj_on_def)

lemma filter_distinct_key:
  assumes "distinct (map k xs)" "x \<in> set xs"
  shows "filter (\<lambda>y. k y = k x \<and> P y) xs = (if P x then [x] else [])"
  using assms
proof (induction xs)
  case (Cons a xs)
  show ?case
  proof (cases "x = a")
    case True
    then have "filter (\<lambda>y. k y = k x \<and> P y) xs = []"
      using Cons.prems by (auto simp: filter_empty_conv image_iff)
    with True show ?thesis
      by simp
  next
    case False
    then have "k a \<noteq> k x"
      using Cons.prems by (auto simp: image_iff)
    with False show ?thesis
      using Cons by simp
  qed
qed simp

lemma find_append_new:
  assumes "k v \<notin> k ` set xs"
  shows "List.find (\<lambda>x. k x = k v) (xs @ [v]) = Some v"
  using assms by (induction xs) auto

section \<open>At most one element\<close>

definition at_most_one :: "('a \<Rightarrow> bool) \<Rightarrow> 'a list \<Rightarrow> bool" where
  "at_most_one P xs = (length (filter P xs) \<le> 1)"

lemma at_most_one_map:
  assumes "at_most_one P xs" "\<And>x. x \<in> set xs \<Longrightarrow> P (f x) \<Longrightarrow> P x"
  shows "at_most_one P (map f xs)"
proof -
  have "length (filter P (map f xs)) \<le> length (filter P xs)"
    using assms(2) by (induction xs) (auto intro: le_SucI)
  with assms(1) show ?thesis
    by (simp add: at_most_one_def)
qed

lemma at_most_one_filter: "at_most_one P xs \<Longrightarrow> at_most_one P (filter Q xs)"
proof -
  have "length (filter P (filter Q xs)) \<le> length (filter P xs)"
    by (induction xs) auto
  then show "at_most_one P xs \<Longrightarrow> at_most_one P (filter Q xs)"
    by (simp add: at_most_one_def)
qed

lemma at_most_one_snoc:
  "at_most_one P (xs @ [x]) \<longleftrightarrow> (if P x then \<forall>y \<in> set xs. \<not> P y else at_most_one P xs)"
  by (simp add: at_most_one_def filter_empty_conv)

lemma at_most_one_key:
  assumes "distinct (map k xs)" "\<And>x. x \<in> set xs \<Longrightarrow> P x \<Longrightarrow> k x = v"
  shows "at_most_one P xs"
  using assms
proof (induction xs)
  case (Cons a xs)
  show ?case
  proof (cases "P a")
    case True
    then have "filter P xs = []"
      using Cons.prems by (auto simp: filter_empty_conv image_iff)
    with True show ?thesis
      by (simp add: at_most_one_def)
  next
    case False
    then show ?thesis
      using Cons by (simp add: at_most_one_def)
  qed
qed (simp add: at_most_one_def)

lemma at_most_oneD:
  assumes "at_most_one P xs" "x \<in> set xs" "P x" "y \<in> set xs" "P y"
  shows "x = y"
proof -
  have "{x, y} \<subseteq> set (filter P xs)"
    using assms by simp
  then show ?thesis
    using assms(1) by (cases "filter P xs") (auto simp: at_most_one_def)
qed

lemma find_update_where:
  assumes "\<And>r. q (f r) = q r"
  shows "List.find q (update_where p f rows) =
    map_option (\<lambda>r. if p r then f r else r) (List.find q rows)"
  using assms by (induction rows) (auto simp: update_where_def)

lemma filter_update_other:
  assumes "\<And>r. k (f r) = k r"
  shows "filter (\<lambda>r. k r \<noteq> v) (update_where (\<lambda>r. k r = v \<and> P r) f rows) = filter (\<lambda>r. k r \<noteq> v) rows"
  using assms by (induction rows) (auto simp: update_where_def)

lemma all_update_where:
  assumes "\<And>r. p r \<Longrightarrow> Q (f r)" "\<And>r. r \<in> set rows \<Longrightarrow> \<not> p r \<Longrightarrow> Q r"
  shows "\<forall>r \<in> set (update_where p f rows). Q r"
  using assms by (auto simp: set_update_where)

text \<open>One row changing under a unique key removes at most one row from a selection.\<close>

lemma length_filter_update_one:
  assumes "distinct (map k rows)" "\<And>r. p r \<Longrightarrow> k r = v"
  shows "length (filter q rows) \<le> Suc (length (filter q (update_where p f rows)))"
  using assms
proof (induction rows)
  case (Cons a rows)
  show ?case
  proof (cases "p a")
    case True
    then have "update_where p f rows = rows"
      using Cons.prems by (intro update_where_none) (auto simp: affected_0_iff image_iff)
    then show ?thesis
      using True by (simp add: update_where_def)
  next
    case False
    then show ?thesis
      using Cons by (simp add: update_where_def)
  qed
qed (simp add: update_where_def)

lemma update_where_twice:
  assumes "\<And>r. p r \<Longrightarrow> p (f r)"
  shows "update_where p g (update_where p f rows) = update_where p (\<lambda>r. g (f r)) rows"
  using assms by (simp add: update_where_def)

lemma update_where_cong:
  assumes "\<And>r. r \<in> set rows \<Longrightarrow> p r \<Longrightarrow> f r = g r"
  shows "update_where p f rows = update_where p g rows"
  using assms by (simp add: update_where_def)

end
