(* ===== verification/Core_Errors.thy ===== *)
theory Core_Errors
  imports Sui_Prelude
begin

text \<open>
  The error types of the three crates: \<open>sui-id-store/src/errors.rs\<close>, \<open>sui-id-core/src/errors.rs\<close>
  and \<open>sui-id-shared/src/errors.rs\<close>.  A payload of a third-party error type (the SQLite or JSON
  error behind \<open>Db\<close>, \<open>Serde\<close> and \<open>CorruptJson\<close>) is kept as the text it displays.
\<close>

datatype recovery_refusal =
    ReasonRequired | ReasonTooLong | ReasonHasControlCharacters | TargetUnknown | TargetIsSelf
  | TargetIsAdmin | TargetNonLocal | TargetDisabled | TargetDeleted | Throttled

datatype store_error =
    Db string
  | Crypto
  | InvalidMasterKeyLength nat
  | StoreNotFound
  | StoreConflict
  | Integrity string
  | Serde string
  | CorruptJson string string
  | JoinError string
  | InvalidData string
  | StepUpRequired
  | RecoveryRefused recovery_refusal
  | StoreAlreadyInitialized
  | SchemaTooNew int int
  | SchemaVersionInvalid nat string
  | MigrationFailed int string
  | NotReadOnly string
  | PragmaRefused string
  | NonContentEffectRefused string string
  | ExplainRefused string
  | AttemptExpired
  | ClockRegression
  | AttemptProviderMismatch
  | AttemptBrowserBindingMismatch

datatype protocol_error =
    InvalidRequest | InvalidClient | InvalidGrant | UnauthorizedClient | UnsupportedGrantType
  | InvalidScope | UnsupportedResponseType | AccessDenied | ServerError | TemporarilyUnavailable

fun protocol_as_str :: "protocol_error \<Rightarrow> string" where
  "protocol_as_str InvalidRequest = ''invalid_request''"
| "protocol_as_str InvalidClient = ''invalid_client''"
| "protocol_as_str InvalidGrant = ''invalid_grant''"
| "protocol_as_str UnauthorizedClient = ''unauthorized_client''"
| "protocol_as_str UnsupportedGrantType = ''unsupported_grant_type''"
| "protocol_as_str InvalidScope = ''invalid_scope''"
| "protocol_as_str UnsupportedResponseType = ''unsupported_response_type''"
| "protocol_as_str AccessDenied = ''access_denied''"
| "protocol_as_str ServerError = ''server_error''"
| "protocol_as_str TemporarilyUnavailable = ''temporarily_unavailable''"

datatype core_error =
    InvalidCredentials
  | Unauthenticated
  | Forbidden
  | NotFound
  | Conflict string
  | BadRequest string
  | NotInitialized
  | AlreadyInitialized
  | Protocol protocol_error string
  | Store store_error
  | Password
  | Jwt
  | Internal
  | ConfigError string

datatype api_error_code =
    ApiUnauthorized | ApiForbidden | ApiBadRequest | ApiNotFound | ApiConflict | ApiInvalidState
  | ApiTooManyRequests | ApiProtocol | ApiInternal

fun http_status :: "api_error_code \<Rightarrow> nat" where
  "http_status ApiUnauthorized = 401"
| "http_status ApiForbidden = 403"
| "http_status ApiBadRequest = 400"
| "http_status ApiProtocol = 400"
| "http_status ApiNotFound = 404"
| "http_status ApiConflict = 409"
| "http_status ApiInvalidState = 409"
| "http_status ApiTooManyRequests = 429"
| "http_status ApiInternal = 500"

fun api_code :: "core_error \<Rightarrow> api_error_code" where
  "api_code InvalidCredentials = ApiUnauthorized"
| "api_code Unauthenticated = ApiUnauthorized"
| "api_code Forbidden = ApiForbidden"
| "api_code NotFound = ApiNotFound"
| "api_code (Conflict _) = ApiConflict"
| "api_code (BadRequest _) = ApiBadRequest"
| "api_code NotInitialized = ApiInvalidState"
| "api_code AlreadyInitialized = ApiInvalidState"
| "api_code (Protocol _ _) = ApiProtocol"
| "api_code (Store StoreNotFound) = ApiNotFound"
| "api_code (Store StoreConflict) = ApiConflict"
| "api_code (Store _) = ApiInternal"
| "api_code Password = ApiInternal"
| "api_code Jwt = ApiInternal"
| "api_code Internal = ApiInternal"
| "api_code (ConfigError _) = ApiInternal"

text \<open>The \<open>?\<close> operator on a store result inside a core function: \<open>#[from] StoreError\<close>.\<close>

definition lift_store :: "store_error + 'a \<Rightarrow> core_error + 'a" where
  "lift_store r = map_sum Store id r"

lemma lift_store_simps [simp]:
  "lift_store (Inr x) = Inr x" "lift_store (Inl e) = Inl (Store e)"
  by (simp_all add: lift_store_def)

lemma lift_store_Inr_iff [results]: "lift_store r = Inr x \<longleftrightarrow> r = Inr x"
  by (cases r) auto

lemma inj_protocol_as_str: "inj protocol_as_str"
  by (rule injI, rename_tac a b, case_tac a; case_tac b; simp)

end
