(* ===== verification/Rust_Str.thy ===== *)
theory Rust_Str
  imports Sui_Prelude
begin

text \<open>
  The part of Rust's \<open>str\<close> the program uses, on UTF-8 byte lists: characters, white space, lossy
  decoding, splitting and joining, decimal and hexadecimal digits.
\<close>

named_theorems rust_str "facts on byte strings"

section \<open>Bytes\<close>

definition byte :: "char \<Rightarrow> nat" where
  "byte c = of_char c"

definition of_byte :: "nat \<Rightarrow> char" where
  "of_byte n = char_of n"

lemma byte_less [simp]: "byte c < 256"
  by (simp add: byte_def)

lemma byte_div_16 [simp]: "byte c div 16 < 16"
  by (rule less_mult_imp_div_less) simp

lemma of_byte_byte [simp]: "of_byte (byte c) = c"
  by (simp add: byte_def of_byte_def)

lemma byte_of_byte: "n < 256 \<Longrightarrow> byte (of_byte n) = n"
  by (simp add: byte_def of_byte_def)

lemma byte_eq_iff: "byte a = byte b \<longleftrightarrow> a = b"
  by (simp add: byte_def)

section \<open>Characters of a string\<close>

definition is_cont :: "nat \<Rightarrow> bool" where
  "is_cont b = (0x80 \<le> b \<and> b \<le> 0xBF)"

text \<open>The byte at an index, 0 past the end (\<open>safe_get\<close> of the standard library's decoder).\<close>

definition byte_at :: "string \<Rightarrow> nat \<Rightarrow> nat" where
  "byte_at s i = (if i < length s then byte (s ! i) else 0)"

text \<open>The first chunk of a non-empty byte string: whether it is a well-formed character and its
  length; a malformed chunk is the maximal prefix that a decoder replaces as one unit.\<close>

definition utf8_step :: "string \<Rightarrow> bool \<times> nat" where
  "utf8_step s =
    (let a = byte_at s 0; b = byte_at s 1; c = byte_at s 2; d = byte_at s 3 in
     if a < 0x80 then (True, 1)
     else if 0xC2 \<le> a \<and> a \<le> 0xDF then (if is_cont b then (True, 2) else (False, 1))
     else if 0xE0 \<le> a \<and> a \<le> 0xEF then
       (if (a = 0xE0 \<and> 0xA0 \<le> b \<and> b \<le> 0xBF) \<or> (a = 0xED \<and> 0x80 \<le> b \<and> b \<le> 0x9F)
          \<or> (a \<noteq> 0xE0 \<and> a \<noteq> 0xED \<and> is_cont b)
        then (if is_cont c then (True, 3) else (False, 2))
        else (False, 1))
     else if 0xF0 \<le> a \<and> a \<le> 0xF4 then
       (if (a = 0xF0 \<and> 0x90 \<le> b \<and> b \<le> 0xBF) \<or> (a = 0xF4 \<and> 0x80 \<le> b \<and> b \<le> 0x8F)
          \<or> (a \<noteq> 0xF0 \<and> a \<noteq> 0xF4 \<and> is_cont b)
        then (if is_cont c then (if is_cont d then (True, 4) else (False, 3)) else (False, 2))
        else (False, 1))
     else (False, 1))"

lemma utf8_step_pos: "0 < snd (utf8_step s)"
  by (simp add: utf8_step_def Let_def)

function utf8_chunks :: "string \<Rightarrow> (bool \<times> string) list" where
  "utf8_chunks s =
    (if s = [] then []
     else (let (ok, n) = utf8_step s in (ok, take n s) # utf8_chunks (drop n s)))"
  by pat_completeness auto

termination
proof (relation "measure length", simp)
  fix s :: string and x ok n
  assume "s \<noteq> []" "x = utf8_step s" "(ok, n) = x"
  then show "(drop n s, s) \<in> measure length"
    using utf8_step_pos [of s] by (auto simp: prod_eq_iff)
qed

declare utf8_chunks.simps [simp del]

lemma utf8_chunks_Nil [simp]: "utf8_chunks [] = []"
  by (simp add: utf8_chunks.simps)

lemma utf8_chunks_ascii: "byte c < 0x80 \<Longrightarrow> utf8_chunks (c # s) = (True, [c]) # utf8_chunks s"
  by (subst utf8_chunks.simps) (simp add: utf8_step_def byte_at_def Let_def)

definition utf8_valid :: "string \<Rightarrow> bool" where
  "utf8_valid s = list_all fst (utf8_chunks s)"

definition utf8_chars :: "string \<Rightarrow> string list" where
  "utf8_chars s = map snd (utf8_chunks s)"

definition from_utf8_lossy :: "string \<Rightarrow> string" where
  "from_utf8_lossy s =
    concat (map (\<lambda>(ok, c). if ok then c else map of_byte [0xEF, 0xBF, 0xBD]) (utf8_chunks s))"

lemma concat_utf8_chunks: "concat (map snd (utf8_chunks s)) = s"
proof (induction s rule: utf8_chunks.induct)
  case (1 s)
  show ?case
  proof (cases "s = []")
    case False
    obtain ok n where step: "utf8_step s = (ok, n)"
      by fastforce
    then have "concat (map snd (utf8_chunks (drop n s))) = drop n s"
      using 1 False by simp
    then show ?thesis
      using False step by (subst utf8_chunks.simps) simp
  qed simp
qed

lemma concat_utf8_chars [simp]: "concat (utf8_chars s) = s"
  by (simp add: utf8_chars_def concat_utf8_chunks)

lemma from_utf8_lossy_valid: "utf8_valid s \<Longrightarrow> from_utf8_lossy s = s"
proof -
  assume "utf8_valid s"
  then have "map (\<lambda>(ok, c). if ok then c else map of_byte [0xEF, 0xBF, 0xBD]) (utf8_chunks s)
    = map snd (utf8_chunks s)"
    by (auto simp: utf8_valid_def list_all_iff)
  then show ?thesis
    by (simp only: from_utf8_lossy_def concat_utf8_chunks)
qed

text \<open>A well-formed character is one ASCII byte or a sequence of bytes that are all at least 0x80.\<close>

lemma utf8_step_ok_shape:
  assumes "utf8_step s = (True, n)" "s \<noteq> []"
  shows "n \<le> length s \<and> (take n s = [hd s] \<and> byte (hd s) < 128 \<or> (\<forall>c \<in> set (take n s). 128 \<le> byte c))"
proof -
  obtain a t where s: "s = a # t"
    using assms by (cases s) auto
  have cont: "is_cont (byte_at s i) \<Longrightarrow> i < length s" for i
    by (auto simp: byte_at_def is_cont_def split: if_splits)
  have big: "128 \<le> byte_at s i \<Longrightarrow> i < length s" for i
    by (auto simp: byte_at_def split: if_splits)
  have a0: "byte_at s 0 = byte a"
    by (simp add: s byte_at_def)
  have bytes: "\<forall>i < n. 128 \<le> byte_at s i" "n \<le> length s" if "\<not> byte a < 128"
  proof -
    have m: "n = 2 \<and> 128 \<le> byte_at s 1 \<or> n = 3 \<and> 128 \<le> byte_at s 1 \<and> 128 \<le> byte_at s 2
      \<or> n = 4 \<and> 128 \<le> byte_at s 1 \<and> 128 \<le> byte_at s 2 \<and> 128 \<le> byte_at s 3"
      using assms that
      by (auto simp: utf8_step_def Let_def a0 is_cont_def split: if_splits)
    moreover have "128 \<le> byte_at s 0"
      using that a0 by simp
    ultimately show "\<forall>i < n. 128 \<le> byte_at s i"
      by (auto simp: numeral_eq_Suc less_Suc_eq)
    show "n \<le> length s"
      using m big [of 1] big [of 2] big [of 3] by auto
  qed
  show ?thesis
  proof (cases "byte a < 128")
    case True
    then have "n = 1"
      using assms by (auto simp: utf8_step_def Let_def a0)
    with True s show ?thesis
      by auto
  next
    case False
    have "128 \<le> byte c" if mem: "c \<in> set (take n s)" for c
    proof -
      obtain i where i: "i < length (take n s)" "take n s ! i = c"
        using mem by (auto simp: in_set_conv_nth)
      then show ?thesis
        using bytes(1) [OF False] by (auto simp: byte_at_def)
    qed
    with bytes(2) [OF False] show ?thesis
      by blast
  qed
qed

lemma utf8_chunks_shape:
  "(True, c) \<in> set (utf8_chunks s) \<Longrightarrow> (\<exists>a. c = [a] \<and> byte a < 128) \<or> (\<forall>x \<in> set c. 128 \<le> byte x)"
proof (induction s rule: utf8_chunks.induct)
  case (1 s)
  show ?case
  proof (cases "s = []")
    case True
    with 1 show ?thesis by simp
  next
    case False
    obtain ok n where step: "utf8_step s = (ok, n)"
      by fastforce
    have "(True, c) = (ok, take n s) \<or> (True, c) \<in> set (utf8_chunks (drop n s))"
      using 1(2) False step by (subst (asm) utf8_chunks.simps) simp
    then show ?thesis
    proof
      assume "(True, c) = (ok, take n s)"
      then show ?thesis
        using utf8_step_ok_shape [of s n] step False by auto
    next
      assume "(True, c) \<in> set (utf8_chunks (drop n s))"
      then show ?thesis
        using 1(1) [OF False step [symmetric] refl] by blast
    qed
  qed
qed

lemma utf8_chars_shape:
  "utf8_valid s \<Longrightarrow> c \<in> set (utf8_chars s) \<Longrightarrow>
    (\<exists>a. c = [a] \<and> byte a < 128) \<or> (\<forall>x \<in> set c. 128 \<le> byte x)"
  using utf8_chunks_shape by (fastforce simp: utf8_valid_def utf8_chars_def list_all_iff)

section \<open>White space and control characters\<close>

text \<open>The scalar value of a well-formed character.\<close>

definition code_point :: "string \<Rightarrow> nat" where
  "code_point c =
    (let a = byte_at c 0; b = byte_at c 1 mod 64; d = byte_at c 2 mod 64; e = byte_at c 3 mod 64 in
     if length c = 1 then a
     else if length c = 2 then (a mod 32) * 64 + b
     else if length c = 3 then ((a mod 16) * 64 + b) * 64 + d
     else (((a mod 8) * 64 + b) * 64 + d) * 64 + e)"

text \<open>\<open>str::is_char_boundary\<close>: the start, the end, or a byte that is not a continuation byte.\<close>

definition is_char_boundary :: "string \<Rightarrow> nat \<Rightarrow> bool" where
  "is_char_boundary s i =
    (i = 0 \<or> i = length s \<or> (i < length s \<and> \<not> is_cont (byte (s ! i))))"

text \<open>The Unicode property \<open>White_Space\<close> (\<open>char::is_whitespace\<close>) and category \<open>Cc\<close> (\<open>char::is_control\<close>).\<close>

definition is_whitespace :: "string \<Rightarrow> bool" where
  "is_whitespace c =
    (let n = code_point c in
     (9 \<le> n \<and> n \<le> 13) \<or> n = 32 \<or> n = 0x85 \<or> n = 0xA0 \<or> n = 0x1680 \<or> (0x2000 \<le> n \<and> n \<le> 0x200A)
     \<or> n = 0x2028 \<or> n = 0x2029 \<or> n = 0x202F \<or> n = 0x205F \<or> n = 0x3000)"

definition is_control :: "string \<Rightarrow> bool" where
  "is_control c = (let n = code_point c in n < 32 \<or> (127 \<le> n \<and> n < 160))"

lemma utf8_chars_ascii: "byte c < 0x80 \<Longrightarrow> utf8_chars (c # s) = [c] # utf8_chars s" "utf8_chars [] = []"
  by (simp_all add: utf8_chars_def utf8_chunks_ascii)

lemma utf8_valid_ascii: "list_all (\<lambda>c. byte c < 0x80) s \<Longrightarrow> utf8_valid s"
  by (induction s) (simp_all add: utf8_valid_def utf8_chunks_ascii)

lemma is_whitespace_ascii: "is_whitespace [a] \<longleftrightarrow> (9 \<le> byte a \<and> byte a \<le> 13) \<or> byte a = 32 \<or> byte a = 0x85 \<or> byte a = 0xA0"
  using byte_less [of a]
  by (auto simp: is_whitespace_def code_point_def byte_at_def Let_def simp del: byte_less)

section \<open>Splitting and joining\<close>

fun split_on :: "'a \<Rightarrow> 'a list \<Rightarrow> 'a list list" where
  "split_on c [] = [[]]"
| "split_on c (x # xs) =
    (if x = c then [] # split_on c xs
     else (case split_on c xs of [] \<Rightarrow> [[x]] | w # ws \<Rightarrow> (x # w) # ws))"

fun split_once :: "'a \<Rightarrow> 'a list \<Rightarrow> ('a list \<times> 'a list) option" where
  "split_once c [] = None"
| "split_once c (x # xs) =
    (if x = c then Some ([], xs)
     else (case split_once c xs of None \<Rightarrow> None | Some (k, v) \<Rightarrow> Some (x # k, v)))"

fun join :: "'a list \<Rightarrow> 'a list list \<Rightarrow> 'a list" where
  "join sep [] = []"
| "join sep [x] = x"
| "join sep (x # y # ys) = x @ sep @ join sep (y # ys)"

fun split_by :: "('a \<Rightarrow> bool) \<Rightarrow> 'a list \<Rightarrow> 'a list list" where
  "split_by P [] = [[]]"
| "split_by P (x # xs) =
    (if P x then [] # split_by P xs
     else (case split_by P xs of w # ws \<Rightarrow> (x # w) # ws | [] \<Rightarrow> [[x]]))"

definition split_whitespace :: "string \<Rightarrow> string list" where
  "split_whitespace s = filter (\<lambda>w. w \<noteq> []) (map concat (split_by is_whitespace (utf8_chars s)))"

lemma split_on_not_Nil [simp]: "split_on c xs \<noteq> []"
  by (induction xs) (auto split: list.splits)

lemma split_on_free [rust_str]: "c \<notin> set xs \<Longrightarrow> split_on c xs = [xs]"
  by (induction xs) auto

lemma split_on_append [rust_str]:
  "c \<notin> set xs \<Longrightarrow> split_on c (xs @ c # ys) = xs # split_on c ys"
  by (induction xs) auto

lemma split_on_join [rust_str]:
  "xs \<noteq> [] \<Longrightarrow> \<forall>x \<in> set xs. c \<notin> set x \<Longrightarrow> split_on c (join [c] xs) = xs"
  by (induction xs rule: induct_list012) (auto simp: split_on_free split_on_append)

lemma join_split_on [rust_str]: "join [c] (split_on c xs) = xs"
proof (induction xs)
  case (Cons x xs)
  show ?case
  proof (cases "split_on c xs")
    case Nil
    then show ?thesis by simp
  next
    case (Cons w ws)
    with \<open>join [c] (split_on c xs) = xs\<close> show ?thesis
      by (cases ws) auto
  qed
qed simp

lemma split_on_parts_free: "w \<in> set (split_on c xs) \<Longrightarrow> c \<notin> set w"
proof (induction xs arbitrary: w)
  case (Cons x xs)
  show ?case
  proof (cases "split_on c xs")
    case Nil
    then show ?thesis by simp
  next
    case (Cons v vs)
    with Cons.IH Cons.prems show ?thesis
      by (auto split: if_splits)
  qed
qed simp

lemma split_once_append [rust_str]: "c \<notin> set k \<Longrightarrow> split_once c (k @ c # v) = Some (k, v)"
  by (induction k) auto

section \<open>Digits\<close>

definition hex_upper_digit :: "nat \<Rightarrow> char" where
  "hex_upper_digit n = of_byte (if n < 10 then 48 + n else 55 + n)"

definition hex_lower_digit :: "nat \<Rightarrow> char" where
  "hex_lower_digit n = of_byte (if n < 10 then 48 + n else 87 + n)"

text \<open>\<open>n.to_string()\<close> on an unsigned and on a signed integer.\<close>

fun dec :: "nat \<Rightarrow> string" where
  "dec n = (if n < 10 then [of_byte (48 + n)] else dec (n div 10) @ [of_byte (48 + n mod 10)])"

definition dec_int :: "int \<Rightarrow> string" where
  "dec_int i = (if i < 0 then CHR ''-'' # dec (nat (- i)) else dec (nat i))"

declare dec.simps [simp del]

text \<open>The number of decimal digits.\<close>

text \<open>\<open>str::parse\<close> at an unsigned type of \<open>w\<close> bits: decimal digits with an optional plus sign, below \<open>2 ^ w\<close>.\<close>

definition parse_unsigned :: "nat \<Rightarrow> string \<Rightarrow> nat option" where
  "parse_unsigned w t =
    (let ds = (case t of [] \<Rightarrow> [] | c # cs \<Rightarrow> if c = CHR ''+'' then cs else c # cs) in
     if ds = [] \<or> \<not> list_all (\<lambda>c. 48 \<le> byte c \<and> byte c \<le> 57) ds then None
     else let n = foldl (\<lambda>a c. 10 * a + (byte c - 48)) 0 ds in if n < 2 ^ w then Some n else None)"

lemma length_dec_bound: "0 < k \<Longrightarrow> n < 10 ^ k \<Longrightarrow> length (dec n) \<le> k"
proof (induction k arbitrary: n)
  case (Suc k)
  show ?case
  proof (cases "n < 10")
    case False
    then have "0 < k"
      using Suc.prems by (cases k) simp_all
    moreover have "n div 10 < 10 ^ k"
      using Suc.prems by (simp add: div_less_iff_less_mult mult.commute)
    ultimately have "length (dec (n div 10)) \<le> k"
      by (rule Suc.IH)
    with False show ?thesis
      by (subst dec.simps) simp
  qed (subst dec.simps, simp)
qed simp

lemma length_dec_int_bound:
  assumes "0 < k" "\<bar>i\<bar> < 10 ^ k"
  shows "length (dec_int i) \<le> Suc k"
proof -
  have "nat \<bar>i\<bar> < 10 ^ k"
    using assms(2) by (simp add: nat_less_iff)
  then have "length (dec (nat \<bar>i\<bar>)) \<le> k"
    using assms(1) by (intro length_dec_bound)
  then show ?thesis
    by (cases "i < 0") (simp_all add: dec_int_def)
qed

end
