(* ===== verification/Totp.thy ===== *)
theory Totp
  imports Rust_Str "HOL-Library.Word"
begin

text \<open>
  Time-based one-time passwords, \<open>sui-id-core/src/authn/totp.rs\<close>.  \<open>hmac\<close> is HMAC-SHA1 of the \<open>hmac\<close>
  and \<open>sha1\<close> crates; what the code relies on is the length of its digest, \<open>hmac_ok\<close>.
\<close>

unbundle bit_operations_syntax

section \<open>Codes\<close>

definition STEP_SECS :: int where
  "STEP_SECS = 30"

definition DIGITS :: nat where
  "DIGITS = 6"

definition to_be_bytes_u64 :: "64 word \<Rightarrow> string" where
  "to_be_bytes_u64 w = map (\<lambda>i. of_byte (unat (drop_bit (8 * i) w AND 0xFF))) (rev [0..<8])"

definition u32_of :: "char \<Rightarrow> 32 word" where
  "u32_of c = word_of_nat (byte c)"

definition code_for_step :: "(string \<Rightarrow> string \<Rightarrow> string) \<Rightarrow> string \<Rightarrow> int \<Rightarrow> 32 word" where
  "code_for_step hmac secret step =
    (let counter = to_be_bytes_u64 (word_of_int step);
         hash = hmac secret counter;
         offset = unat (u32_of (hash ! (length hash - 1)) AND 0x0F);
         bin = push_bit 24 (u32_of (hash ! offset) AND 0x7F) OR push_bit 16 (u32_of (hash ! (offset + 1)))
           OR push_bit 8 (u32_of (hash ! (offset + 2))) OR u32_of (hash ! (offset + 3))
     in bin mod 10 ^ DIGITS)"

fun totp_try :: "(string \<Rightarrow> string \<Rightarrow> string) \<Rightarrow> string \<Rightarrow> int \<Rightarrow> 32 word \<Rightarrow> int \<Rightarrow> int list \<Rightarrow> int option" where
  "totp_try hmac secret now_step supplied last_used_step [] = None"
| "totp_try hmac secret now_step supplied last_used_step (delta # rest) =
    (let step = now_step + delta in
     if step \<le> last_used_step then totp_try hmac secret now_step supplied last_used_step rest
     else if code_for_step hmac secret step = supplied then Some step
     else totp_try hmac secret now_step supplied last_used_step rest)"

definition totp_verify :: "(string \<Rightarrow> string \<Rightarrow> string) \<Rightarrow> string \<Rightarrow> int \<Rightarrow> 32 word \<Rightarrow> int \<Rightarrow> int option" where
  "totp_verify hmac secret unix_time supplied last_used_step =
    (if supplied \<ge> 10 ^ DIGITS then None
     else totp_try hmac secret (unix_time div STEP_SECS) supplied last_used_step [-1, 0, 1])"

section \<open>Base32\<close>

definition BASE32_ALPHABET :: string where
  "BASE32_ALPHABET = ''ABCDEFGHIJKLMNOPQRSTUVWXYZ234567''"

text \<open>The inner \<open>while bits >= 5\<close>.\<close>

fun drain :: "32 word \<Rightarrow> nat \<Rightarrow> string \<Rightarrow> nat \<times> string" where
  "drain buf bits out =
    (if bits \<ge> 5
     then drain buf (bits - 5) (out @ [BASE32_ALPHABET ! unat (drop_bit (bits - 5) buf AND 0x1F)])
     else (bits, out))"

declare drain.simps [simp del]

definition base32_byte :: "32 word \<times> nat \<times> string \<Rightarrow> char \<Rightarrow> 32 word \<times> nat \<times> string" where
  "base32_byte = (\<lambda>(buf, bits, out) b.
    let buf = push_bit 8 buf OR u32_of b;
        (bits, out) = drain buf (bits + 8) out
    in (buf, bits, out))"

definition base32_encode :: "string \<Rightarrow> string" where
  "base32_encode bytes =
    (let (buf, bits, out) = foldl base32_byte (0, 0, []) bytes in
     if bits > 0 then out @ [BASE32_ALPHABET ! unat (push_bit (5 - bits) buf AND 0x1F)] else out)"

definition otpauth_uri :: "string \<Rightarrow> string \<Rightarrow> string \<Rightarrow> string" where
  "otpauth_uri issuer account secret_bytes =
    ''otpauth://totp/'' @ issuer @ '':'' @ account @ ''?secret='' @ base32_encode secret_bytes @ ''&issuer='' @ issuer
    @ ''&algorithm=SHA1&digits=6&period=30''"

section \<open>Base32 is the reference encoding\<close>

text \<open>The reference: the bits of the input, most significant first, cut into groups of five, the last one
  filled with zeros.\<close>

definition byte_bits :: "char \<Rightarrow> bool list" where
  "byte_bits c = map (bit (byte c)) (rev [0..<8])"

fun groups5 :: "bool list \<Rightarrow> bool list list" where
  "groups5 [] = []"
| "groups5 (b # bs) = take 5 (b # bs @ replicate 4 False) # groups5 (drop 4 bs)"

definition group_value :: "bool list \<Rightarrow> nat" where
  "group_value g = foldl (\<lambda>n b. 2 * n + of_bool b) 0 g"

definition base32_reference :: "string \<Rightarrow> string" where
  "base32_reference bytes = map (\<lambda>g. BASE32_ALPHABET ! group_value g) (groups5 (concat (map byte_bits bytes)))"

text \<open>The low \<open>n\<close> bits of the buffer, most significant first.\<close>

definition pending :: "32 word \<Rightarrow> nat \<Rightarrow> bool list" where
  "pending buf n = map (bit buf) (rev [0..<n])"

lemma length_pending [simp]: "length (pending buf n) = n"
  by (simp add: pending_def)

lemma pending_0 [simp]: "pending buf 0 = []"
  by (simp add: pending_def)

lemma nth_pending: "i < n \<Longrightarrow> pending buf n ! i = bit buf (n - Suc i)"
  by (simp add: pending_def rev_nth)

lemma bit_byte: "bit (byte c) i \<Longrightarrow> i < 8"
proof -
  assume "bit (byte c) i"
  moreover have "take_bit 8 (byte c) = byte c"
    using byte_less [of c] by (intro take_bit_nat_eq_self) simp
  ultimately show ?thesis
    by (metis bit_take_bit_iff)
qed

lemma bit_u32_of: "bit (u32_of c) i \<longleftrightarrow> bit (byte c) i"
  using bit_byte [of c i] by (auto simp: u32_of_def bit_simps)

lemma pending_push:
  assumes "n + 8 \<le> 32"
  shows "pending (push_bit 8 buf OR u32_of c) (n + 8) = pending buf n @ byte_bits c"
proof (rule nth_equalityI)
  fix i
  assume i: "i < length (pending (push_bit 8 buf OR u32_of c) (n + 8))"
  show "pending (push_bit 8 buf OR u32_of c) (n + 8) ! i = (pending buf n @ byte_bits c) ! i"
  proof (cases "i < n")
    case True
    then have "\<not> bit (byte c) (n + 8 - Suc i)" "n + 8 - Suc i - 8 = n - Suc i"
      using bit_byte [of c "n + 8 - Suc i"] by auto
    moreover have "8 \<le> n + 8 - Suc i" "n + 8 - Suc i < 32"
      using True assms by simp_all
    ultimately show ?thesis
      using True by (simp add: nth_pending nth_append bit_push_bit_iff bit_or_iff bit_u32_of del: add_Suc_right)
  next
    case False
    then have "byte_bits c ! (i - n) = bit (byte c) (n + 8 - Suc i)"
      using i by (simp add: byte_bits_def rev_nth del: upt_Suc)
    then show ?thesis
      using False i assms by (auto simp: nth_pending nth_append bit_simps bit_u32_of)
  qed
qed (simp add: byte_bits_def)

lemma pending_split: "k \<le> n \<Longrightarrow> pending buf n = pending (drop_bit (n - k) buf) k @ pending buf (n - k)"
  by (rule nth_equalityI) (auto simp: nth_pending nth_append bit_simps not_less intro!: arg_cong [of _ _ "bit buf"])

lemma pending_fill: "n \<le> 5 \<Longrightarrow> pending (push_bit (5 - n) buf) 5 = pending buf n @ replicate (5 - n) False"
  by (rule nth_equalityI) (auto simp: nth_pending nth_append bit_simps not_less)

lemma mod_Suc_power: "(x::nat) mod 2 ^ Suc n = x mod 2 ^ n + of_bool (bit x n) * 2 ^ n"
proof -
  have "x mod 2 ^ Suc n = 2 ^ n * (x div 2 ^ n mod 2) + x mod 2 ^ n"
    using mod_mult2_eq [of x "2 ^ n" 2] by (simp add: mult.commute)
  then show ?thesis
    by (simp add: bit_iff_odd mod2_eq_if)
qed

lemma foldl_pending: "foldl (\<lambda>m b. 2 * m + of_bool b) a (pending buf n) = a * 2 ^ n + unat buf mod 2 ^ n"
proof (induction n arbitrary: a)
  case (Suc n)
  have "pending buf (Suc n) = bit buf n # pending buf n"
    by (simp add: pending_def)
  then show ?case
    using mod_Suc_power [of "unat buf" n] by (simp add: Suc.IH bit_unsigned_iff)
qed simp

lemma value_pending: "group_value (pending buf 5) = unat (buf AND 0x1F)"
proof -
  have "buf AND 0x1F = take_bit 5 buf"
    by (simp add: take_bit_eq_mask mask_eq_exp_minus_1)
  moreover have "unat (take_bit 5 buf) = unat buf mod 32"
    by (simp only: unsigned_take_bit_eq) (simp add: take_bit_eq_mod)
  ultimately show ?thesis
    using foldl_pending [of 0 buf 5] by (simp add: group_value_def)
qed

lemma groups5_append: "5 dvd length xs \<Longrightarrow> groups5 (xs @ ys) = groups5 xs @ groups5 ys"
proof (induction xs rule: groups5.induct)
  case (2 b bs)
  then have len: "4 \<le> length bs" "5 dvd length (drop 4 bs)"
    by (auto simp: dvd_def) presburger+
  then show ?case
    using 2 by (simp add: groups5.simps)
qed simp

lemma groups5_one: "length g = 5 \<Longrightarrow> groups5 g = [g]"
  by (cases g) auto

abbreviation enc5 :: "bool list \<Rightarrow> string" where
  "enc5 bs \<equiv> map (\<lambda>g. BASE32_ALPHABET ! group_value g) (groups5 bs)"

lemma drain_groups:
  "\<exists>g m. drain buf n out = (m, out @ enc5 g) \<and> m < 5 \<and> 5 dvd length g \<and> pending buf n = g @ pending buf m"
proof (induction buf n out rule: drain.induct)
  case (1 buf n out)
  show ?case
  proof (cases "5 \<le> n")
    case True
    let ?g = "pending (drop_bit (n - 5) buf) 5"
    obtain g m where g: "drain buf (n - 5) (out @ [BASE32_ALPHABET ! unat (drop_bit (n - 5) buf AND 0x1F)]) =
        (m, (out @ [BASE32_ALPHABET ! unat (drop_bit (n - 5) buf AND 0x1F)]) @ enc5 g)" "m < 5" "5 dvd length g"
        "pending buf (n - 5) = g @ pending buf m"
      using 1 [OF True] by blast
    have "drain buf n out = (m, out @ enc5 (?g @ g)) \<and> 5 dvd length (?g @ g) \<and> pending buf n = (?g @ g) @ pending buf m"
      using g pending_split [OF True, of buf] True
      by (subst drain.simps) (simp add: groups5_append groups5_one value_pending)
    then show ?thesis
      using g(2) by blast
  next
    case False
    then show ?thesis
      by (intro exI [of _ "[]"] exI [of _ n]) (simp add: drain.simps)
  qed
qed

lemma base32_fold:
  "foldl base32_byte (0, 0, []) bytes = (buf, n, out) \<Longrightarrow>
    n < 5 \<and> (\<exists>g. out = enc5 g \<and> 5 dvd length g \<and> concat (map byte_bits bytes) = g @ pending buf n)"
proof (induction bytes arbitrary: buf n out rule: rev_induct)
  case (snoc c bytes)
  obtain buf0 n0 out0 where before: "foldl base32_byte (0, 0, []) bytes = (buf0, n0, out0)"
    by (metis prod_cases3)
  with snoc.IH obtain g where g: "n0 < 5" "out0 = enc5 g" "5 dvd length g"
      "concat (map byte_bits bytes) = g @ pending buf0 n0"
    by blast
  let ?buf = "push_bit 8 buf0 OR u32_of c"
  obtain h m where h: "drain ?buf (n0 + 8) out0 = (m, out0 @ enc5 h)" "m < 5" "5 dvd length h"
      "pending ?buf (n0 + 8) = h @ pending ?buf m"
    using drain_groups by metis
  have new: "buf = ?buf" "n = m" "out = out0 @ enc5 h"
    using snoc.prems before h(1) by (simp_all add: base32_byte_def)
  have "concat (map byte_bits (bytes @ [c])) = (g @ h) @ pending ?buf m"
    using g(1,4) h(4) pending_push [of n0 buf0 c] by simp
  moreover have "out = enc5 (g @ h)" "5 dvd length (g @ h)"
    using g(2,3) h(3) by (simp_all add: new groups5_append)
  ultimately show ?case
    using h(2) new by blast
qed simp

lemma base32_encode_eq: "base32_encode bytes = base32_reference bytes"
proof -
  obtain buf n out where run: "foldl base32_byte (0, 0, []) bytes = (buf, n, out)"
    by (metis prod_cases3)
  then obtain g where g: "n < 5" "out = enc5 g" "5 dvd length g" "concat (map byte_bits bytes) = g @ pending buf n"
    using base32_fold by blast
  show ?thesis
  proof (cases "n = 0")
    case True
    then show ?thesis
      using g by (simp add: base32_encode_def run base32_reference_def)
  next
    case False
    have "groups5 xs = [xs @ replicate (5 - length xs) False]" if "xs \<noteq> []" "length xs \<le> 5" for xs :: "bool list"
      using that by (cases xs) (auto simp: min_def)
    then have "groups5 (pending buf n) = [pending (push_bit (5 - n) buf) 5]"
      using False g(1) pending_fill [of n buf] by (metis length_pending length_0_conv less_imp_le)
    then show ?thesis
      using g False by (simp add: base32_encode_def run base32_reference_def groups5_append value_pending)
  qed
qed

section \<open>Codes: bounds, reference and window\<close>

definition hmac_ok :: "(string \<Rightarrow> string \<Rightarrow> string) \<Rightarrow> bool" where
  "hmac_ok hmac = (\<forall>k m. length (hmac k m) = 20)"

text \<open>RFC 4226, section 5.3: the four bytes at the offset, as a number without its top bit, reduced to six
  digits.\<close>

definition hotp_reference :: "string \<Rightarrow> nat" where
  "hotp_reference hash =
    (let offset = byte (last hash) mod 16;
         number = foldl (\<lambda>n c. 256 * n + byte c) 0 (take 4 (drop offset hash))
     in number mod 2 ^ 31 mod 10 ^ 6)"

lemma unat_u32_of [simp]: "unat (u32_of c) = byte c"
  using byte_less [of c] by (simp add: u32_of_def unsigned_of_nat take_bit_eq_mod del: byte_less)

lemma less_no_bit: "(x::nat) < 2 ^ n \<Longrightarrow> bit x m \<Longrightarrow> m < n"
  by (metis bit_take_bit_iff take_bit_nat_eq_self)

lemma or_shifted:
  assumes "(y::nat) < 2 ^ n"
  shows "push_bit n x OR y = x * 2 ^ n + y"
proof -
  have "\<not> (bit (push_bit n x) m \<and> bit y m)" for m
    using less_no_bit [OF assms, of m] by (auto simp: bit_simps)
  then have "push_bit n x AND y = 0"
    by (simp add: bit_eq_iff bit_and_iff)
  then show ?thesis
    using disjunctive_add_eq_or [of "push_bit n x" y] by (simp add: push_bit_eq_mult)
qed

lemma or_bytes:
  assumes "b < 256" "c < 256" "d < (256::nat)"
  shows "push_bit 24 a OR push_bit 16 b OR push_bit 8 c OR d = ((a * 256 + b) * 256 + c) * 256 + d"
proof -
  have "push_bit 8 c OR d = c * 256 + d"
    using or_shifted [of d 8 c] assms by simp
  moreover have "push_bit 16 b OR (c * 256 + d) = (b * 256 + c) * 256 + d"
    using or_shifted [of "c * 256 + d" 16 b] assms by (simp add: algebra_simps)
  moreover have "push_bit 24 a OR ((b * 256 + c) * 256 + d) = ((a * 256 + b) * 256 + c) * 256 + d"
    using or_shifted [of "(b * 256 + c) * 256 + d" 24 a] assms by (simp add: algebra_simps)
  ultimately show ?thesis
    by (simp add: or.assoc)
qed

lemma unat_truncation:
  "unat (push_bit 24 (u32_of a AND 0x7F) OR push_bit 16 (u32_of b) OR push_bit 8 (u32_of c) OR u32_of d)
    = (((byte a mod 128) * 256 + byte b) * 256 + byte c) * 256 + byte d"
proof -
  have "u32_of a AND 0x7F = take_bit 7 (u32_of a)"
    by (simp add: take_bit_eq_mask mask_eq_exp_minus_1)
  then have top: "unat (u32_of a AND 0x7F) = byte a mod 128"
    by (simp only: unsigned_take_bit_eq) (simp add: take_bit_eq_mod)
  have push: "unat (push_bit k w) = push_bit k (unat w)" if "push_bit k (unat w) < 2 ^ 32" for k and w :: "32 word"
    using that by (simp only: unsigned_push_bit_eq) (simp add: take_bit_nat_eq_self)
  have "unat (push_bit 24 (u32_of a AND 0x7F)) = push_bit 24 (byte a mod 128)"
    "unat (push_bit 16 (u32_of b)) = push_bit 16 (byte b)" "unat (push_bit 8 (u32_of c)) = push_bit 8 (byte c)"
    using byte_less [of b] byte_less [of c] mod_less_divisor [of 128 "byte a"] top
    by (subst push; simp add: push_bit_eq_mult del: byte_less)+
  then show ?thesis
    by (simp add: unsigned_or_eq or_bytes)
qed

lemma mod_top_bit: "(((a mod 128) * 256 + b) * 256 + c) * 256 + d = (((a * 256 + b) * 256 + c) * 256 + d) mod 2 ^ 31"
  if "b < 256" "c < 256" "d < (256::nat)"
proof -
  have split: "((x * 256 + b) * 256 + c) * 256 + d = 2 ^ 31 * q + (((r * 256 + b) * 256 + c) * 256 + d)"
    if "x = q * 128 + r" for x q r :: nat
    by (simp add: that)
  have "((a * 256 + b) * 256 + c) * 256 + d = 2 ^ 31 * (a div 128) + ((((a mod 128) * 256 + b) * 256 + c) * 256 + d)"
    by (rule split) (simp only: div_mult_mod_eq)
  moreover have "(((a mod 128) * 256 + b) * 256 + c) * 256 + d < 2 ^ 31"
    using that mod_less_divisor [of 128 a] by simp
  ultimately show ?thesis
    by (metis mod_less mod_mult_self4)
qed

lemma code_for_step_reference:
  assumes "hmac_ok hmac"
  shows "unat (code_for_step hmac secret step) = hotp_reference (hmac secret (to_be_bytes_u64 (word_of_int step)))"
proof -
  define hash where "hash = hmac secret (to_be_bytes_u64 (word_of_int step))"
  have len: "length hash = 20"
    using assms by (simp add: hmac_ok_def hash_def)
  have "u32_of c AND 0x0F = take_bit 4 (u32_of c)" for c
    by (simp add: take_bit_eq_mask mask_eq_exp_minus_1)
  then have offset: "unat (u32_of c AND 0x0F) = byte c mod 16" for c
    by (simp only: unsigned_take_bit_eq) (simp add: take_bit_eq_mod)
  define i where "i = byte (hash ! 19) mod 16"
  have "i + 3 < length hash"
    using mod_less_divisor [of 16 "byte (hash ! 19)"] by (simp add: len i_def)
  then have bytes: "take 4 (drop i hash) = [hash ! i, hash ! (i + 1), hash ! (i + 2), hash ! (i + 3)]"
    by (simp add: take_Suc_conv_app_nth numeral_eq_Suc)
  have last: "last hash = hash ! 19"
    using len last_conv_nth [of hash] by fastforce
  have "hotp_reference hash =
      (((byte (hash ! i) * 256 + byte (hash ! (i + 1))) * 256 + byte (hash ! (i + 2))) * 256 + byte (hash ! (i + 3)))
        mod 2 ^ 31 mod 10 ^ 6"
    by (simp add: hotp_reference_def last flip: i_def) (simp add: bytes algebra_simps)
  moreover have "unat (w mod 10 ^ 6) = unat w mod 10 ^ 6" for w :: "32 word"
    by (simp add: unat_mod_distrib)
  moreover have "code_for_step hmac secret step = (push_bit 24 (u32_of (hash ! i) AND 0x7F) OR push_bit 16 (u32_of (hash ! (i + 1)))
      OR push_bit 8 (u32_of (hash ! (i + 2))) OR u32_of (hash ! (i + 3))) mod 10 ^ 6"
    unfolding code_for_step_def Let_def hash_def [symmetric] len offset i_def DIGITS_def by simp
  ultimately show ?thesis
    by (simp only: unat_truncation mod_top_bit [OF byte_less byte_less byte_less] hash_def)
qed

lemma totp_try_Some:
  "totp_try hmac secret now supplied last_step ds = Some step \<Longrightarrow>
    step - now \<in> set ds \<and> last_step < step \<and> code_for_step hmac secret step = supplied"
  by (induction ds) (auto simp: Let_def split: if_splits)

lemma totp_try_None:
  "totp_try hmac secret now supplied last_step ds = None \<longleftrightarrow>
    (\<forall>d \<in> set ds. last_step < now + d \<longrightarrow> code_for_step hmac secret (now + d) \<noteq> supplied)"
  by (induction ds) (auto simp: Let_def)

section \<open>Properties\<close>

text \<open>C31: Base32 agrees with RFC 4648: the shift-register encoder, a 32-bit buffer that is never masked,
  produces for every input the letters of its five-bit groups, most significant bit first, with the
  last group filled with zeros.\<close>

theorem base32_is_rfc4648: "base32_encode bytes = base32_reference bytes"
  by (rule base32_encode_eq)

text \<open>A one-time code is accepted exactly when it is the RFC 4226 code, six digits from the dynamically
  truncated HMAC, of a time step at most one away from the current one and later than the last step
  that was used; the accepted step is reported, so that it can be spent.\<close>

theorem totp_verify_window:
  assumes "hmac_ok hmac"
  shows "(\<forall>step. totp_verify hmac secret t supplied last_step = Some step \<longrightarrow>
      \<bar>step - t div 30\<bar> \<le> 1 \<and> last_step < step
      \<and> unat supplied = hotp_reference (hmac secret (to_be_bytes_u64 (word_of_int step))))
    \<and> (totp_verify hmac secret t supplied last_step = None \<longleftrightarrow>
      (\<forall>step. \<bar>step - t div 30\<bar> \<le> 1 \<and> last_step < step \<longrightarrow>
        unat supplied \<noteq> hotp_reference (hmac secret (to_be_bytes_u64 (word_of_int step)))))"
proof -
  have code: "code_for_step hmac secret step = supplied \<longleftrightarrow>
      unat supplied = hotp_reference (hmac secret (to_be_bytes_u64 (word_of_int step)))" for step
    using code_for_step_reference [OF assms, of secret step] by (metis unsigned_word_eqI)
  have large: "unat supplied \<noteq> hotp_reference h" if "supplied \<ge> 10 ^ DIGITS" for h
    using that by (auto simp: DIGITS_def word_le_nat_alt hotp_reference_def Let_def)
  have window: "(\<forall>d \<in> set [-1, 0, 1]. P (n + d)) \<longleftrightarrow> (\<forall>step. \<bar>step - n\<bar> \<le> 1 \<longrightarrow> P step)" for P and n :: int
  proof -
    have "\<bar>step - n\<bar> \<le> 1 \<longleftrightarrow> step = n + -1 \<or> step = n + 0 \<or> step = n + 1" for step
      by arith
    then show ?thesis
      by auto
  qed
  have found: "\<bar>step - t div 30\<bar> \<le> 1 \<and> last_step < step
      \<and> unat supplied = hotp_reference (hmac secret (to_be_bytes_u64 (word_of_int step)))"
    if "totp_verify hmac secret t supplied last_step = Some step" for step
    using that totp_try_Some [of hmac secret "t div 30" supplied last_step "[-1, 0, 1]" step]
    by (auto simp: totp_verify_def STEP_SECS_def code simp del: totp_try.simps split: if_splits)
  have rest: "totp_try hmac secret (t div 30) supplied last_step [-1, 0, 1] = None \<longleftrightarrow>
      (\<forall>step. \<bar>step - t div 30\<bar> \<le> 1 \<longrightarrow> last_step < step \<longrightarrow>
        unat supplied \<noteq> hotp_reference (hmac secret (to_be_bytes_u64 (word_of_int step))))"
    unfolding totp_try_None code [symmetric]
    by (rule window [of "\<lambda>step. last_step < step \<longrightarrow> code_for_step hmac secret step \<noteq> supplied"])
  have "totp_verify hmac secret t supplied last_step = None \<longleftrightarrow> (\<forall>step. \<bar>step - t div 30\<bar> \<le> 1 \<longrightarrow> last_step < step \<longrightarrow>
      unat supplied \<noteq> hotp_reference (hmac secret (to_be_bytes_u64 (word_of_int step))))"
  proof (cases "supplied \<ge> 10 ^ DIGITS")
    case True
    then show ?thesis
      using large [OF True] by (simp add: totp_verify_def)
  next
    case False
    then show ?thesis
      using rest by (simp only: totp_verify_def STEP_SECS_def if_False)
  qed
  with found show ?thesis
    by blast
qed

definition demo_hmac :: "string \<Rightarrow> string \<Rightarrow> string" where
  "demo_hmac k m = take 20 (m @ replicate 20 CHR ''a'')"

lemma demo_hmac_ok: "hmac_ok demo_hmac"
  by (auto simp: hmac_ok_def demo_hmac_def)

theorem totp_verify_window_witness:
  "totp_verify demo_hmac ''secret'' 59 0 (-1) = Some 0
    \<and> 0 = hotp_reference (demo_hmac ''secret'' (to_be_bytes_u64 (word_of_int 0)))"
proof -
  have "totp_verify demo_hmac ''secret'' 59 0 (-1) = Some 0"
    by code_simp
  then show ?thesis
    using totp_verify_window [OF demo_hmac_ok, of "''secret''" 59 0 "-1"] by auto
qed

end
