(* ===== verification/Audit_Note.thy ===== *)
theory Audit_Note
  imports Rust_Str
begin

text \<open>
  The attributes of an audit event and the note they are stored as
  (\<open>sui-id-store/src/registry.rs\<close>): the bounded attribute builder, the percent-encoding of values
  (RFC 105), the rendering of a note and its readers.
\<close>

section \<open>Bounded attribute sets\<close>

type_synonym attributes = "(string \<times> string) list"

datatype audit_build_error =
    AttributeTooLong string
  | TooManyAttributes
  | DuplicateAttribute string
  | MissingRequiredAttribute string

definition MAX_ATTRIBUTES :: nat where
  "MAX_ATTRIBUTES = 16"

definition MAX_ATTRIBUTE_VALUE_BYTES :: nat where
  "MAX_ATTRIBUTE_VALUE_BYTES = 512"

definition quoted :: "string \<Rightarrow> string" where
  "quoted s = [CHR 0x22] @ s @ [CHR 0x22]"

fun build_error_text :: "audit_build_error \<Rightarrow> string" where
  "build_error_text (AttributeTooLong n) =
    ''attribute '' @ quoted n @ '' exceeds the '' @ dec MAX_ATTRIBUTE_VALUE_BYTES @ ''-byte bound''"
| "build_error_text TooManyAttributes =
    ''event carries more than '' @ dec MAX_ATTRIBUTES @ '' attributes''"
| "build_error_text (DuplicateAttribute n) =
    ''attribute '' @ quoted n @ '' declared more than once''"
| "build_error_text (MissingRequiredAttribute n) =
    ''required attribute '' @ quoted n @ '' is missing''"

record attributes_builder =
  b_entries :: attributes
  b_error :: "audit_build_error option"

definition builder :: attributes_builder where
  "builder = \<lparr> b_entries = [], b_error = None \<rparr>"

definition attribute :: "attributes_builder \<Rightarrow> string \<Rightarrow> string \<Rightarrow> attributes_builder" where
  "attribute b name value =
    (if b_error b \<noteq> None then b
     else if list_ex (\<lambda>(k, _). k = name) (b_entries b) then b\<lparr>b_error := Some (DuplicateAttribute name)\<rparr>
     else if length (b_entries b) \<ge> MAX_ATTRIBUTES then b\<lparr>b_error := Some TooManyAttributes\<rparr>
     else if length value > MAX_ATTRIBUTE_VALUE_BYTES then b\<lparr>b_error := Some (AttributeTooLong name)\<rparr>
     else b\<lparr>b_entries := b_entries b @ [(name, value)]\<rparr>)"

definition build :: "attributes_builder \<Rightarrow> audit_build_error + attributes" where
  "build b = (case b_error b of Some e \<Rightarrow> Inl e | None \<Rightarrow> Inr (b_entries b))"

text \<open>A chain \<open>builder().attribute(..).attribute(..).build()\<close>.\<close>

definition build_attributes :: "attributes \<Rightarrow> audit_build_error + attributes" where
  "build_attributes kvs = build (foldl (\<lambda>b (k, v). attribute b k v) builder kvs)"

definition attributes_ok :: "attributes \<Rightarrow> bool" where
  "attributes_ok es =
    (distinct (map fst es) \<and> length es \<le> MAX_ATTRIBUTES
     \<and> (\<forall>(k, v) \<in> set es. length v \<le> MAX_ATTRIBUTE_VALUE_BYTES))"

lemma attribute_error_sticky:
  "b_error b \<noteq> None \<Longrightarrow> foldl (\<lambda>b (k, v). attribute b k v) b kvs = b"
  by (induction kvs) (auto simp: attribute_def)

lemma attribute_fold:
  assumes "b_error b = None" "attributes_ok (b_entries b)"
  shows "build (foldl (\<lambda>b (k, v). attribute b k v) b kvs) = Inr es \<longleftrightarrow>
    es = b_entries b @ kvs \<and> attributes_ok (b_entries b @ kvs)"
  using assms
proof (induction kvs arbitrary: b)
  case Nil
  then show ?case
    by (auto simp: build_def)
next
  case (Cons kv kvs)
  obtain k v where kv: "kv = (k, v)"
    by fastforce
  show ?case
  proof (cases "b_error (attribute b k v)")
    case None
    then have entries: "b_entries (attribute b k v) = b_entries b @ [(k, v)]"
      and ok: "attributes_ok (b_entries b @ [(k, v)])"
      using Cons.prems by (auto simp: attribute_def attributes_ok_def list_ex_iff split: if_splits)
    show ?thesis
      using Cons.IH [OF None] entries ok by (simp add: kv)
  next
    case (Some e)
    then have "k \<in> fst ` set (b_entries b) \<or> MAX_ATTRIBUTES \<le> length (b_entries b)
        \<or> MAX_ATTRIBUTE_VALUE_BYTES < length v"
      using Cons.prems(1) by (force simp: attribute_def list_ex_iff split: if_splits)
    then have "\<not> attributes_ok (b_entries b @ (k, v) # kvs)"
      by (elim disjE) (simp_all add: attributes_ok_def)
    moreover have "build (foldl (\<lambda>b (k, v). attribute b k v) b (kv # kvs)) = Inl e"
      using Some attribute_error_sticky [of "attribute b k v" kvs] by (simp add: kv build_def)
    ultimately show ?thesis
      by (simp add: kv)
  qed
qed

lemma build_attributes_eq: "build_attributes kvs = Inr es \<longleftrightarrow> es = kvs \<and> attributes_ok kvs"
  using attribute_fold [of builder kvs es]
  by (simp add: build_attributes_def builder_def attributes_ok_def MAX_ATTRIBUTES_def)

lemma build_attributes_ok: "attributes_ok kvs \<Longrightarrow> build_attributes kvs = Inr kvs"
  by (simp add: build_attributes_eq)

section \<open>The encoding of a value\<close>

definition percent_byte :: "char \<Rightarrow> string" where
  "percent_byte b = [CHR ''%'', hex_upper_digit (byte b div 16), hex_upper_digit (byte b mod 16)]"

definition must_encode :: "string \<Rightarrow> bool" where
  "must_encode c = (c = ''%'' \<or> c = ''='' \<or> is_whitespace c \<or> is_control c)"

definition encode_note_value :: "string \<Rightarrow> string" where
  "encode_note_value value =
    concat (map (\<lambda>c. if must_encode c then concat (map percent_byte c) else c) (utf8_chars value))"

definition hex_val :: "char \<Rightarrow> nat option" where
  "hex_val c =
    (let b = byte c in
     if 48 \<le> b \<and> b \<le> 57 then Some (b - 48)
     else if 65 \<le> b \<and> b \<le> 70 then Some (b - 65 + 10)
     else if 97 \<le> b \<and> b \<le> 102 then Some (b - 97 + 10)
     else None)"

text \<open>The loop of \<open>decode_note_value\<close> on the bytes from index \<open>i\<close> on.\<close>

fun decode_bytes :: "string \<Rightarrow> string" where
  "decode_bytes [] = []"
| "decode_bytes (b # h # l # rest) =
    (if b = CHR ''%'' then
       (case (hex_val h, hex_val l) of
          (Some x, Some y) \<Rightarrow> of_byte (x * 16 + y) # decode_bytes rest
        | _ \<Rightarrow> b # decode_bytes (h # l # rest))
     else b # decode_bytes (h # l # rest))"
| "decode_bytes (b # rest) = b # decode_bytes rest"

definition decode_note_value :: "string \<Rightarrow> string" where
  "decode_note_value encoded = from_utf8_lossy (decode_bytes encoded)"

section \<open>Notes\<close>

definition render_note :: "attributes \<Rightarrow> string option" where
  "render_note es =
    (if es = [] then None
     else Some (join '' '' (map (\<lambda>(k, v). k @ ''='' @ encode_note_value v) es)))"

definition parse_note :: "string \<Rightarrow> (string \<times> string) list" where
  "parse_note note =
    map (\<lambda>(k, v). (k, decode_note_value v)) (List.map_filter (split_once (CHR ''='')) (split_on (CHR '' '') note))"

definition note_field :: "string \<Rightarrow> string \<Rightarrow> string option" where
  "note_field note key = map_option snd (List.find (\<lambda>(k, v). k = key) (rev (parse_note note)))"

section \<open>Round trips\<close>

lemma hex_val_upper: "n < 16 \<Longrightarrow> hex_val (hex_upper_digit n) = Some n"
  by (auto simp: hex_val_def hex_upper_digit_def byte_of_byte Let_def)

lemma decode_percent [simp]: "decode_bytes (percent_byte b @ rest) = b # decode_bytes rest"
  by (simp add: percent_byte_def hex_val_upper)

lemma decode_percents [simp]: "decode_bytes (concat (map percent_byte c) @ rest) = c @ decode_bytes rest"
  by (induction c) auto

lemma decode_literal_byte: "b \<noteq> CHR ''%'' \<Longrightarrow> decode_bytes (b # rest) = b # decode_bytes rest"
  by (cases rest rule: decode_bytes.cases) auto

lemma decode_literal: "CHR ''%'' \<notin> set c \<Longrightarrow> decode_bytes (c @ rest) = c @ decode_bytes rest"
  by (induction c) (auto simp: decode_literal_byte)

lemma byte_ascii [simp]: "byte (CHR ''%'') = 37" "byte (CHR ''='') = 61" "byte (CHR '' '') = 32"
  by (simp_all add: byte_def)

text \<open>A character left as it is contains none of the three separators.\<close>

lemma unencoded_char:
  assumes "utf8_valid v" "c \<in> set (utf8_chars v)" "\<not> must_encode c" "b \<in> {CHR ''%'', CHR ''='', CHR '' ''}"
  shows "b \<notin> set c"
  using utf8_chars_shape [OF assms(1,2)]
proof
  assume "\<exists>a. c = [a] \<and> byte a < 128"
  then obtain a where c: "c = [a]" by blast
  show ?thesis
    using assms(3,4) by (auto simp: c must_encode_def is_whitespace_ascii)
next
  assume "\<forall>x \<in> set c. 128 \<le> byte x"
  then show ?thesis
    using assms(4) by (force dest: bspec)
qed

lemma decode_encoded_chars:
  assumes "\<And>c. c \<in> set cs \<Longrightarrow> \<not> must_encode c \<Longrightarrow> CHR ''%'' \<notin> set c"
  shows "decode_bytes (concat (map (\<lambda>c. if must_encode c then concat (map percent_byte c) else c) cs)) = concat cs"
  using assms by (induction cs) (auto simp: decode_literal)

lemma decode_encode: "utf8_valid v \<Longrightarrow> decode_note_value (encode_note_value v) = v"
  using unencoded_char
  by (simp add: decode_note_value_def encode_note_value_def decode_encoded_chars from_utf8_lossy_valid)

lemma hex_upper_digit_plain: "n < 16 \<Longrightarrow> hex_upper_digit n \<notin> {CHR ''%'', CHR ''='', CHR '' ''}"
proof
  assume "n < 16" "hex_upper_digit n \<in> {CHR ''%'', CHR ''='', CHR '' ''}"
  then have "byte (hex_upper_digit n) \<in> {37, 61, 32}"
    by auto
  then show False
    using \<open>n < 16\<close> by (auto simp: hex_upper_digit_def byte_of_byte split: if_splits)
qed

lemma percent_byte_free: "b \<in> {CHR ''='', CHR '' ''} \<Longrightarrow> b \<notin> set (percent_byte x)"
  using hex_upper_digit_plain [of "byte x div 16"] hex_upper_digit_plain [of "byte x mod 16"]
  by (auto simp: percent_byte_def)

lemma encode_free:
  assumes "utf8_valid v" "b \<in> {CHR ''='', CHR '' ''}"
  shows "b \<notin> set (encode_note_value v)"
  using assms unencoded_char [OF assms(1)] percent_byte_free [OF assms(2)]
  by (auto simp: encode_note_value_def split: if_splits)

definition key_ok :: "string \<Rightarrow> bool" where
  "key_ok k = (CHR '' '' \<notin> set k \<and> CHR ''='' \<notin> set k)"

lemma parse_render:
  assumes "es \<noteq> []" "\<forall>(k, v) \<in> set es. key_ok k \<and> utf8_valid v"
  shows "parse_note (the (render_note es)) = es"
proof -
  let ?pairs = "map (\<lambda>(k, v). k @ ''='' @ encode_note_value v) es"
  have "split_on (CHR '' '') (join [CHR '' ''] ?pairs) = ?pairs"
    using assms encode_free by (intro split_on_join) (auto simp: key_ok_def)
  moreover have "map (\<lambda>(k, v). (k, decode_note_value v)) (List.map_filter (split_once (CHR ''='')) ?pairs) = es"
    using assms(2)
    by (induction es) (auto simp: map_filter_simps key_ok_def split_once_append decode_encode)
  ultimately show ?thesis
    using assms(1) by (simp add: render_note_def parse_note_def)
qed

lemma find_is_map_of: "map_option snd (List.find (\<lambda>(k, v). k = key) xs) = map_of xs key"
  by (induction xs) auto

lemma find_rev_distinct:
  assumes "distinct (map fst es)"
  shows "map_option snd (List.find (\<lambda>(k, v). k = key) (rev es)) = map_of es key"
proof -
  have "map_of (rev es) key = map_of es key"
    using assms by (metis map_of_inject_set distinct_rev rev_map set_rev)
  then show ?thesis
    by (simp only: find_is_map_of)
qed

section \<open>Properties\<close>

text \<open>The attribute builder accepts exactly the bounded attribute sets: a chain of \<open>attribute\<close>
  calls builds if and only if no name repeats, there are at most 16 entries and no value exceeds
  512 bytes, and then it yields every pair of the chain in order; otherwise it is an error.\<close>

theorem build_attributes_iff:
  "build_attributes kvs = Inr es \<longleftrightarrow> es = kvs \<and> attributes_ok kvs"
  by (rule build_attributes_eq)

text \<open>C40: An audit note cannot be forged through a value.  Whatever well-formed text the values hold
  (spaces, \<open>=\<close> signs, percent signs, Unicode separators), parsing the rendered note returns exactly
  the recorded pairs, reading one field returns the recorded value, and no encoded value contains
  a space or an \<open>=\<close>.\<close>

theorem note_roundtrip:
  assumes "es \<noteq> []" "distinct (map fst es)" "\<forall>(k, v) \<in> set es. key_ok k \<and> utf8_valid v"
  shows "\<exists>note. render_note es = Some note \<and> parse_note note = es \<and>
    (\<forall>k. note_field note k = map_of es k) \<and>
    (\<forall>(k, v) \<in> set es. CHR ''='' \<notin> set (encode_note_value v) \<and> CHR '' '' \<notin> set (encode_note_value v))"
proof -
  obtain n where n: "render_note es = Some n"
    using assms(1) by (simp add: render_note_def)
  have "parse_note n = es"
    using parse_render [OF assms(1,3)] n by simp
  moreover have "\<forall>k. note_field n k = map_of es k"
    using find_rev_distinct [OF assms(2)] \<open>parse_note n = es\<close> by (simp add: note_field_def)
  moreover have "\<forall>(k, v) \<in> set es. CHR ''='' \<notin> set (encode_note_value v) \<and> CHR '' '' \<notin> set (encode_note_value v)"
    using assms(3) encode_free by fast
  ultimately show ?thesis
    using n by blast
qed

theorem note_roundtrip_witness:
  "\<exists>note. render_note [(''reason'', ''ok step_up=fresh''), (''step_up'', ''stale'')] = Some note \<and>
    note_field note ''step_up'' = Some ''stale'' \<and> note_field note ''reason'' = Some ''ok step_up=fresh''"
proof -
  have "\<forall>(k, v) \<in> set [(''reason'', ''ok step_up=fresh''), (''step_up'', ''stale'')]. key_ok k \<and> utf8_valid v"
    by code_simp
  then show ?thesis
    using note_roundtrip [of "[(''reason'', ''ok step_up=fresh''), (''step_up'', ''stale'')]"] by force
qed

end
