(* ===== verification/Audit_Chain.thy ===== *)
theory Audit_Chain
  imports Audit_Note Core_Errors
begin

text \<open>
  The tamper-evident audit log (\<open>sui-id-store/src/repos/audit.rs\<close>): canonical serialisation, the
  hash chain, appending, and the verifier that walks the newest rows.

  SHA-256 and chrono's RFC 3339 formatter are library code; they are the two fields of the record
  \<open>digest_env\<close>.  The table is kept in \<open>seq\<close> order together with SQLite's AUTOINCREMENT counter.
\<close>

section \<open>Rows and library functions\<close>

record digest_env =
  sha256 :: "string \<Rightarrow> string"
  to_rfc3339 :: "instant \<Rightarrow> string"

text \<open>The instants a \<open>DateTime<Utc>\<close> can hold: the years -262143 to 262142.\<close>

definition datetime_range :: "instant set" where
  "datetime_range = {seconds (-8334601228800) ..< seconds 8210266876800}"

text \<open>What the program relies on: a digest has 32 bytes, a formatted instant fewer than 256, and two
  different instants are formatted differently.\<close>

definition digest_env_ok :: "digest_env \<Rightarrow> bool" where
  "digest_env_ok cx =
    ((\<forall>x. length (sha256 cx x) = 32) \<and> inj_on (to_rfc3339 cx) datetime_range
     \<and> (\<forall>t. length (to_rfc3339 cx t) < 256))"

record audit_log_row =
  al_at :: instant
  al_actor :: "uuid option"
  al_action :: string
  al_target :: "string option"
  al_result :: string
  al_note :: "string option"

record audit_entry =
  seq :: int
  log_row :: audit_log_row
  prev_hash :: string
  hash :: string

record audit_log =
  entries :: "audit_entry list"
  autoinc :: int

section \<open>Hashing\<close>

fun be_bytes :: "nat \<Rightarrow> nat \<Rightarrow> string" where
  "be_bytes 0 n = []"
| "be_bytes (Suc k) n = be_bytes k (n div 256) @ [of_byte (n mod 256)]"

definition write_field :: "string \<Rightarrow> string" where
  "write_field field = be_bytes 8 (length field) @ field"

definition unwrap_or_default :: "string option \<Rightarrow> string" where
  "unwrap_or_default s = (case s of None \<Rightarrow> [] | Some x \<Rightarrow> x)"

definition canonical_bytes :: "digest_env \<Rightarrow> audit_log_row \<Rightarrow> string" where
  "canonical_bytes cx row =
    write_field (to_rfc3339 cx (al_at row)) @
    write_field (unwrap_or_default (al_actor row)) @
    write_field (al_action row) @
    write_field (unwrap_or_default (al_target row)) @
    write_field (al_result row) @
    write_field (unwrap_or_default (al_note row))"

definition hex_lower :: "string \<Rightarrow> string" where
  "hex_lower bytes = concat (map (\<lambda>b. [hex_lower_digit (byte b div 16), hex_lower_digit (byte b mod 16)]) bytes)"

definition hash_input :: "digest_env \<Rightarrow> string \<Rightarrow> audit_log_row \<Rightarrow> string" where
  "hash_input cx prev row = prev @ canonical_bytes cx row"

definition compute_hash :: "digest_env \<Rightarrow> string \<Rightarrow> audit_log_row \<Rightarrow> string" where
  "compute_hash cx prev row = hex_lower (sha256 cx (hash_input cx prev row))"

section \<open>Appending\<close>

definition latest_hash :: "audit_entry list \<Rightarrow> string" where
  "latest_hash es = (if es = [] then [] else hash (last es))"

definition append_within_tx :: "digest_env \<Rightarrow> audit_log_row \<Rightarrow> audit_log \<Rightarrow> audit_log" where
  "append_within_tx cx row log =
    (let prev = latest_hash (entries log);
         n = autoinc log + 1
     in \<lparr> entries = entries log @
            [\<lparr> seq = n, log_row = row, prev_hash = prev, hash = compute_hash cx prev row \<rparr>],
          autoinc = n \<rparr>)"

section \<open>Verifying\<close>

record chain_verify_report =
  checked :: nat
  broken_at_seq :: "int option"
  legacy_unhashed :: nat

text \<open>\<open>ORDER BY seq DESC LIMIT n\<close>, oldest first; a negative limit is no limit in SQLite.\<close>

definition window :: "int \<Rightarrow> audit_entry list \<Rightarrow> audit_entry list" where
  "window limit es = (if limit < 0 then es else drop (length es - nat limit) es)"

definition boundary :: "audit_entry list \<Rightarrow> audit_entry list \<Rightarrow> audit_entry option" where
  "boundary rows es =
    (case rows of [] \<Rightarrow> None
     | oldest # _ \<Rightarrow>
        (case filter (\<lambda>e. seq e < seq oldest) es of [] \<Rightarrow> None | older \<Rightarrow> Some (last older)))"

text \<open>The verifier's loop.  \<open>first\<close> is \<open>i == 0 && no_boundary\<close>.\<close>

fun verify_walk ::
  "digest_env \<Rightarrow> audit_entry list \<Rightarrow> bool \<Rightarrow> string \<Rightarrow> int option \<Rightarrow> bool \<Rightarrow> chain_verify_report
    \<Rightarrow> chain_verify_report" where
  "verify_walk cx [] first expected_prev expected_seq seen_hashed report = report"
| "verify_walk cx (e # es) first expected_prev expected_seq seen_hashed report =
    (if first \<and> seq e \<noteq> 1 then report\<lparr>broken_at_seq := Some (seq e)\<rparr>
     else if (case expected_seq of Some n \<Rightarrow> seq e \<noteq> n | None \<Rightarrow> False)
       then report\<lparr>broken_at_seq := Some (seq e)\<rparr>
     else if hash e = [] then
       (if seen_hashed then report\<lparr>broken_at_seq := Some (seq e)\<rparr>
        else verify_walk cx es False [] (Some (seq e + 1)) seen_hashed
          (report\<lparr>legacy_unhashed := legacy_unhashed report + 1\<rparr>))
     else
       (let report = report\<lparr>checked := checked report + 1\<rparr> in
        if prev_hash e \<noteq> expected_prev then report\<lparr>broken_at_seq := Some (seq e)\<rparr>
        else if compute_hash cx (prev_hash e) (log_row e) \<noteq> hash e
          then report\<lparr>broken_at_seq := Some (seq e)\<rparr>
        else verify_walk cx es False (hash e) (Some (seq e + 1)) True report))"

definition verify_chain_tail :: "digest_env \<Rightarrow> audit_log \<Rightarrow> int \<Rightarrow> chain_verify_report" where
  "verify_chain_tail cx log limit =
    (let rows = window limit (entries log);
         b = boundary rows (entries log)
     in verify_walk cx rows (b = None)
          (case b of None \<Rightarrow> [] | Some e \<Rightarrow> hash e)
          (map_option (\<lambda>e. seq e + 1) b)
          (case b of None \<Rightarrow> False | Some e \<Rightarrow> hash e \<noteq> [])
          \<lparr> checked = 0, broken_at_seq = None, legacy_unhashed = 0 \<rparr>)"

section \<open>The chain as a specification\<close>

text \<open>A run of rows that continues a chain whose newest row has sequence number \<open>n\<close> and hash \<open>h\<close>
  (\<open>n = 0\<close>, \<open>h = []\<close> for an empty table; \<open>h = []\<close> for a legacy row).\<close>

fun continues :: "digest_env \<Rightarrow> int \<Rightarrow> string \<Rightarrow> bool \<Rightarrow> audit_entry list \<Rightarrow> bool" where
  "continues cx n h hashed [] = True"
| "continues cx n h hashed (e # es) =
    (seq e = n + 1 \<and>
     (if hash e = [] then \<not> hashed \<and> continues cx (n + 1) [] hashed es
      else prev_hash e = h \<and> hash e = compute_hash cx h (log_row e) \<and> continues cx (n + 1) (hash e) True es))"

definition intact :: "digest_env \<Rightarrow> audit_log \<Rightarrow> bool" where
  "intact cx log = (continues cx 0 [] False (entries log) \<and> autoinc log = int (length (entries log)))"

section \<open>The verifier decides the specification\<close>

lemma verify_walk_iff:
  assumes "broken_at_seq rep = None" "first \<and> es_opt = None \<and> n = 0 \<or> \<not> first \<and> es_opt = Some (n + 1)"
  shows "broken_at_seq (verify_walk cx es first h es_opt hashed rep) = None \<longleftrightarrow> continues cx n h hashed es"
  using assms
proof (induction es arbitrary: first h es_opt hashed rep n)
  case (Cons e es)
  then show ?case
    by (auto simp: Let_def)
qed simp

lemma verify_walk_counts:
  assumes "continues cx n h hashed es" "first \<and> es_opt = None \<and> n = 0 \<or> \<not> first \<and> es_opt = Some (n + 1)"
  shows "verify_walk cx es first h es_opt hashed rep =
    rep\<lparr>checked := checked rep + length (filter (\<lambda>e. hash e \<noteq> []) es),
        legacy_unhashed := legacy_unhashed rep + length (filter (\<lambda>e. hash e = []) es)\<rparr>"
  using assms
proof (induction es arbitrary: first h es_opt hashed rep n)
  case (Cons e es)
  then show ?case
    by (auto simp: Let_def)
qed simp

text \<open>Splitting a chain: the newest row of the first part is what the second part continues.\<close>

definition tip_hash :: "string \<Rightarrow> audit_entry list \<Rightarrow> string" where
  "tip_hash h es = (if es = [] then h else hash (last es))"

lemma continues_append:
  "continues cx n h hashed (xs @ ys) \<longleftrightarrow>
    continues cx n h hashed xs \<and>
    continues cx (n + int (length xs)) (tip_hash h xs) (hashed \<or> (\<exists>e \<in> set xs. hash e \<noteq> [])) ys"
proof (induction xs arbitrary: n h hashed)
  case (Cons e xs)
  have "n + int (length (e # xs)) = n + 1 + int (length xs)"
    by simp
  moreover have "tip_hash h (e # xs) = tip_hash (hash e) xs"
    by (simp add: tip_hash_def)
  ultimately show ?case
    using Cons by (auto simp: ac_simps)
qed (simp add: tip_hash_def)

lemma continues_last_hashed:
  assumes "continues cx n h hashed xs" "hashed \<or> (\<exists>e \<in> set xs. hash e \<noteq> [])" "xs \<noteq> []"
  shows "hash (last xs) \<noteq> []"
  using assms by (induction xs arbitrary: n h hashed) (auto split: if_splits)

lemma continues_seq: "continues cx n h hashed xs \<Longrightarrow> i < length xs \<Longrightarrow> seq (xs ! i) = n + 1 + int i"
proof (induction xs arbitrary: n h hashed i)
  case (Cons e xs)
  show ?case
  proof (cases i)
    case (Suc j)
    obtain h' b where "continues cx (n + 1) h' b xs"
      using Cons.prems by (auto split: if_splits)
    then show ?thesis
      using Cons.IH [of "n + 1" h' b j] Cons.prems Suc by simp
  qed (use Cons.prems in simp)
qed simp

lemma boundary_of_chain:
  assumes "continues cx 0 [] False (xs @ ys)" "ys \<noteq> []"
  shows "boundary ys (xs @ ys) = (if xs = [] then None else Some (last xs))"
proof -
  have s: "seq ((xs @ ys) ! i) = 1 + int i" if "i < length (xs @ ys)" for i
    using continues_seq [OF assms(1) that] by simp
  obtain y ys' where ys: "ys = y # ys'"
    using assms(2) by (cases ys) auto
  have y: "seq y = 1 + int (length xs)"
    using s [of "length xs"] ys by simp
  have "seq e < seq y" if mem: "e \<in> set xs" for e
  proof -
    obtain i where "i < length xs" "e = xs ! i"
      using mem by (auto simp: in_set_conv_nth)
    then show ?thesis
      using s [of i] y by (simp add: nth_append)
  qed
  moreover have "\<not> seq e < seq y" if mem: "e \<in> set ys" for e
  proof -
    obtain i where "i < length ys" "e = ys ! i"
      using mem by (auto simp: in_set_conv_nth)
    then show ?thesis
      using s [of "length xs + i"] y by simp
  qed
  ultimately have "filter (\<lambda>e. seq e < seq y) (xs @ ys) = xs"
    by simp
  then show ?thesis
    by (cases xs) (auto simp: boundary_def ys)
qed

lemma verify_intact:
  assumes "continues cx 0 [] False (entries log)"
  shows "verify_chain_tail cx log limit =
    \<lparr> checked = length (filter (\<lambda>e. hash e \<noteq> []) (window limit (entries log))), broken_at_seq = None,
      legacy_unhashed = length (filter (\<lambda>e. hash e = []) (window limit (entries log))) \<rparr>"
proof -
  define ys where "ys = window limit (entries log)"
  obtain xs where es: "entries log = xs @ ys"
    by (metis append_Nil append_take_drop_id window_def ys_def)
  have win: "window limit (xs @ ys) = ys"
    by (metis es ys_def)
  let ?b = "boundary ys (xs @ ys)"
  have c: "continues cx 0 [] False xs"
    "continues cx (int (length xs)) (tip_hash [] xs) (\<exists>e \<in> set xs. hash e \<noteq> []) ys"
    using assms es by (simp_all add: continues_append)
  show ?thesis
  proof (cases "ys = [] \<or> xs = []")
    case True
    then have "?b = None"
      using boundary_of_chain [of cx xs ys] assms es by (cases ys) (auto simp: boundary_def)
    moreover have "continues cx 0 [] False ys"
      using True c by (auto simp: tip_hash_def)
    ultimately show ?thesis
      by (simp add: verify_chain_tail_def es win Let_def verify_walk_counts [where n = 0])
  next
    case False
    then have b: "?b = Some (last xs)"
      using boundary_of_chain [of cx xs ys] assms es by simp
    have "seq (last xs) = int (length xs)"
      using continues_seq [OF c(1), of "length xs - 1"] False by (simp add: last_conv_nth)
    moreover have "(\<exists>e \<in> set xs. hash e \<noteq> []) \<longleftrightarrow> hash (last xs) \<noteq> []"
      using continues_last_hashed [OF c(1)] False by (metis last_in_set)
    ultimately have "continues cx (seq (last xs)) (hash (last xs)) (hash (last xs) \<noteq> []) ys"
      using c(2) False by (simp add: tip_hash_def)
    then show ?thesis
      by (simp add: verify_chain_tail_def es win Let_def b verify_walk_counts)
  qed
qed

section \<open>Appending keeps the chain\<close>

lemma length_hex_lower: "length (hex_lower s) = 2 * length s"
  by (induction s) (simp_all add: hex_lower_def)

lemma hex_lower_not_Nil: "s \<noteq> [] \<Longrightarrow> hex_lower s \<noteq> []"
  by (cases s) (simp_all add: hex_lower_def)

lemma compute_hash_length: "digest_env_ok cx \<Longrightarrow> length (compute_hash cx prev row) = 64"
  by (simp add: compute_hash_def length_hex_lower digest_env_ok_def)

lemma compute_hash_not_Nil: "digest_env_ok cx \<Longrightarrow> compute_hash cx prev row \<noteq> []"
  using compute_hash_length [of cx prev row] by auto

lemma append_within_tx_intact:
  assumes "digest_env_ok cx" "intact cx log"
  shows "intact cx (append_within_tx cx row log)"
  using assms
  by (simp add: intact_def append_within_tx_def Let_def continues_append compute_hash_not_Nil
      tip_hash_def latest_hash_def)

section \<open>Tamper evidence\<close>

lemma length_be_bytes [simp]: "length (be_bytes k n) = k"
  by (induction k arbitrary: n) auto

lemma be_bytes_inj: "be_bytes k m = be_bytes k n \<Longrightarrow> m < 256 ^ k \<Longrightarrow> n < 256 ^ k \<Longrightarrow> m = n"
proof (induction k arbitrary: m n)
  case (Suc k)
  have "m div 256 = n div 256"
    using Suc by (auto intro!: Suc.IH simp: less_mult_imp_div_less mult.commute)
  moreover have "m mod 256 = n mod 256"
    using Suc.prems(1) by (metis be_bytes.simps(2) byte_of_byte last_snoc mod_less_divisor zero_less_numeral)
  ultimately show ?case
    by (metis div_mult_mod_eq)
qed simp

lemma be_bytes_first: "n < 256 ^ k \<Longrightarrow> hd (be_bytes (Suc k) n) = of_byte 0"
proof (induction k arbitrary: n)
  case (Suc k)
  then have "n div 256 < 256 ^ k"
    by (simp add: less_mult_imp_div_less mult.commute)
  then have "hd (be_bytes (Suc k) (n div 256)) = of_byte 0"
    by (rule Suc.IH)
  then show ?case
    by (metis be_bytes.simps(2) hd_append2 length_be_bytes list.size(3) nat.distinct(1))
qed simp

definition field_ok :: "string \<Rightarrow> bool" where
  "field_ok f = (length f < 2 ^ 64)"

lemma write_field_prefix_free:
  assumes "write_field f @ r = write_field g @ r'" "field_ok f" "field_ok g"
  shows "f = g \<and> r = r'"
proof -
  have "be_bytes 8 (length f) = be_bytes 8 (length g)" "f @ r = g @ r'"
    using assms(1) by (simp_all add: write_field_def)
  moreover from this have "length f = length g"
    using assms(2,3) by (intro be_bytes_inj [of 8]) (simp_all add: field_ok_def)
  ultimately show ?thesis
    by simp
qed

lemma write_field_append_iff:
  "field_ok f \<Longrightarrow> field_ok g \<Longrightarrow> write_field f @ r = write_field g @ r' \<longleftrightarrow> f = g \<and> r = r'"
  using write_field_prefix_free by blast

lemma write_field_eq_iff: "field_ok f \<Longrightarrow> field_ok g \<Longrightarrow> write_field f = write_field g \<longleftrightarrow> f = g"
  using write_field_prefix_free [of f "[]" g "[]"] by auto

text \<open>What the canonical serialisation records of a row: an absent optional field and an empty one
  are the same bytes.\<close>

definition content :: "audit_log_row \<Rightarrow> instant \<times> string \<times> string \<times> string \<times> string \<times> string" where
  "content r = (al_at r, unwrap_or_default (al_actor r), al_action r, unwrap_or_default (al_target r),
    al_result r, unwrap_or_default (al_note r))"

definition row_ok :: "audit_log_row \<Rightarrow> bool" where
  "row_ok r = (al_at r \<in> datetime_range \<and> field_ok (unwrap_or_default (al_actor r)) \<and> field_ok (al_action r)
    \<and> field_ok (unwrap_or_default (al_target r)) \<and> field_ok (al_result r) \<and> field_ok (unwrap_or_default (al_note r)))"

lemma rfc3339_field_ok: "digest_env_ok cx \<Longrightarrow> field_ok (to_rfc3339 cx t)"
  by (auto simp: digest_env_ok_def field_ok_def intro: less_trans)

lemma canonical_bytes_content:
  assumes "digest_env_ok cx" "row_ok r" "row_ok r'" "canonical_bytes cx r = canonical_bytes cx r'"
  shows "content r = content r'"
  using assms rfc3339_field_ok [OF assms(1)]
  by (simp add: canonical_bytes_def row_ok_def content_def write_field_append_iff write_field_eq_iff
      digest_env_ok_def) (meson inj_onD)

lemma hex_digit_big: "n < 16 \<Longrightarrow> 48 \<le> byte (hex_lower_digit n)"
  by (simp add: hex_lower_digit_def byte_of_byte)

lemma hex_lower_digit_inj: "m < 16 \<Longrightarrow> n < 16 \<Longrightarrow> hex_lower_digit m = hex_lower_digit n \<longleftrightarrow> m = n"
  by (auto simp: hex_lower_digit_def byte_eq_iff [symmetric] byte_of_byte split: if_splits)

lemma hex_lower_inj: "hex_lower s = hex_lower t \<Longrightarrow> s = t"
proof (induction s arbitrary: t)
  case Nil
  then show ?case
    by (cases t) (simp_all add: hex_lower_def)
next
  case (Cons a s)
  then obtain b t' where t: "t = b # t'"
    by (cases t) (auto simp: hex_lower_def)
  have "byte a div 16 = byte b div 16" "byte a mod 16 = byte b mod 16" "hex_lower s = hex_lower t'"
    using Cons.prems by (simp_all add: t hex_lower_def hex_lower_digit_inj)
  then show ?case
    using Cons.IH t by (metis byte_eq_iff div_mult_mod_eq)
qed

lemma hex_lower_first: "s \<noteq> [] \<Longrightarrow> 48 \<le> byte (hd (hex_lower s))"
  by (cases s) (simp_all add: hex_lower_def hex_digit_big)

lemma canonical_first: "digest_env_ok cx \<Longrightarrow> canonical_bytes cx r \<noteq> [] \<and> byte (hd (canonical_bytes cx r)) = 0"
proof -
  assume cx: "digest_env_ok cx"
  have "length (to_rfc3339 cx (al_at r)) < 256 ^ 7"
    using cx by (intro less_le_trans [of _ 256 "256 ^ 7"]) (simp_all add: digest_env_ok_def)
  then have "hd (be_bytes (Suc 7) (length (to_rfc3339 cx (al_at r)))) = of_byte 0"
    by (rule be_bytes_first)
  moreover have "Suc 7 = 8"
    by simp
  ultimately have "hd (be_bytes 8 (length (to_rfc3339 cx (al_at r)))) = of_byte 0"
    by metis
  moreover have "be_bytes 8 n \<noteq> []" for n
    by (metis length_be_bytes list.size(3) zero_neq_numeral)
  ultimately show ?thesis
    by (simp add: canonical_bytes_def write_field_def hd_append byte_of_byte)
qed

definition hash_inputs :: "digest_env \<Rightarrow> audit_entry list \<Rightarrow> string set" where
  "hash_inputs cx es = (\<lambda>e. hash_input cx (prev_hash e) (log_row e)) ` set es"

text \<open>A log without legacy rows.\<close>

definition hashed_chain :: "digest_env \<Rightarrow> audit_entry list \<Rightarrow> bool" where
  "hashed_chain cx es = (continues cx 0 [] True es \<and> (\<forall>e \<in> set es. row_ok (log_row e)))"

lemma hashed_chain_snoc:
  "hashed_chain cx (xs @ [e]) \<longleftrightarrow>
    hashed_chain cx xs \<and> row_ok (log_row e) \<and> seq e = int (length xs) + 1 \<and> hash e \<noteq> [] \<and>
    prev_hash e = tip_hash [] xs \<and> hash e = compute_hash cx (tip_hash [] xs) (log_row e)"
  by (auto simp: hashed_chain_def continues_append)

lemma hashed_chain_tip:
  assumes "digest_env_ok cx" "hashed_chain cx xs" "xs \<noteq> []"
  shows "length (tip_hash [] xs) = 64 \<and> 48 \<le> byte (hd (tip_hash [] xs))"
proof -
  obtain ys e where xs: "xs = ys @ [e]"
    using assms(3) by (cases xs rule: rev_cases) auto
  have "sha256 cx (hash_input cx (tip_hash [] ys) (log_row e)) \<noteq> []"
    using assms(1) unfolding digest_env_ok_def by (metis list.size(3) zero_neq_numeral)
  then have "hash e = compute_hash cx (tip_hash [] ys) (log_row e) \<and> 48 \<le> byte (hd (hash e))"
    using assms(2) by (simp add: xs hashed_chain_snoc compute_hash_def hex_lower_first)
  moreover have "tip_hash [] xs = hash e"
    by (simp add: xs tip_hash_def)
  ultimately show ?thesis
    using compute_hash_length [OF assms(1)] by metis
qed

text \<open>Equal hash inputs have equal predecessors and equal content.\<close>

lemma hash_input_parts:
  assumes "digest_env_ok cx" "hashed_chain cx xs" "hashed_chain cx ys" "row_ok r" "row_ok r'"
    and eq: "hash_input cx (tip_hash [] xs) r = hash_input cx (tip_hash [] ys) r'"
  shows "(xs = [] \<longleftrightarrow> ys = []) \<and> tip_hash [] xs = tip_hash [] ys \<and> content r = content r'"
proof -
  note c = canonical_first [OF assms(1)] and tip = hashed_chain_tip [OF assms(1)]
  have hd1: "xs \<noteq> [] \<Longrightarrow> 48 \<le> byte (hd (hash_input cx (tip_hash [] xs) r))"
    using tip [OF assms(2)] by (cases "tip_hash [] xs") (auto simp: hash_input_def)
  have hd2: "ys \<noteq> [] \<Longrightarrow> 48 \<le> byte (hd (hash_input cx (tip_hash [] ys) r'))"
    using tip [OF assms(3)] by (cases "tip_hash [] ys") (auto simp: hash_input_def)
  have z1: "xs = [] \<Longrightarrow> byte (hd (hash_input cx (tip_hash [] xs) r)) = 0"
    by (simp add: hash_input_def tip_hash_def c)
  have z2: "ys = [] \<Longrightarrow> byte (hd (hash_input cx (tip_hash [] ys) r')) = 0"
    by (simp add: hash_input_def tip_hash_def c)
  have iff: "xs = [] \<longleftrightarrow> ys = []"
    using hd1 hd2 z1 z2 eq by (metis not_numeral_le_zero)
  then have "length (tip_hash [] xs) = length (tip_hash [] ys)"
    using tip [OF assms(2)] tip [OF assms(3)] by (cases "xs = []") (auto simp: tip_hash_def)
  then have "tip_hash [] xs = tip_hash [] ys \<and> canonical_bytes cx r = canonical_bytes cx r'"
    using eq by (simp add: hash_input_def)
  with iff show ?thesis
    using canonical_bytes_content [OF assms(1,4,5)] by blast
qed

lemma chain_binding:
  assumes "digest_env_ok cx" "hashed_chain cx es" "hashed_chain cx es'" "es \<noteq> []" "es' \<noteq> []"
    and "hash (last es) = hash (last es')"
  shows "map (content \<circ> log_row) es = map (content \<circ> log_row) es' \<or>
    (\<exists>x \<in> hash_inputs cx es. \<exists>y \<in> hash_inputs cx es'. x \<noteq> y \<and> sha256 cx x = sha256 cx y)"
  using assms(2-)
proof (induction es arbitrary: es' rule: rev_induct)
  case (snoc e xs)
  obtain ys e' where es': "es' = ys @ [e']"
    using snoc.prems(4) by (cases es' rule: rev_cases) auto
  note c = snoc.prems(1) [unfolded hashed_chain_snoc] and c' = snoc.prems(2) [unfolded es' hashed_chain_snoc]
  let ?x = "hash_input cx (prev_hash e) (log_row e)" and ?y = "hash_input cx (prev_hash e') (log_row e')"
  have sha: "sha256 cx ?x = sha256 cx ?y"
    using snoc.prems(5) c c' by (auto simp: es' compute_hash_def dest: hex_lower_inj)
  show ?case
  proof (cases "?x = ?y")
    case False
    with sha show ?thesis
      by (auto simp: es' hash_inputs_def)
  next
    case True
    have parts: "(xs = [] \<longleftrightarrow> ys = []) \<and> tip_hash [] xs = tip_hash [] ys \<and> content (log_row e) = content (log_row e')"
      by (rule hash_input_parts [OF assms(1)]) (use c c' True in auto)
    show ?thesis
    proof (cases "xs = []")
      case True
      with parts show ?thesis
        by (simp add: es')
    next
      case False
      then have "map (content \<circ> log_row) xs = map (content \<circ> log_row) ys \<or>
          (\<exists>x \<in> hash_inputs cx xs. \<exists>y \<in> hash_inputs cx ys. x \<noteq> y \<and> sha256 cx x = sha256 cx y)"
        using c c' parts by (intro snoc.IH) (auto simp: tip_hash_def)
      then show ?thesis
        using parts by (auto simp only: es' hash_inputs_def map_append set_append image_Un) auto
    qed
  qed
qed simp

section \<open>Properties\<close>

text \<open>The verifier decides exactly the documented chain rules: it reports no break if and only if
  the rows of its window continue the row just before the window (contiguous \<open>seq\<close>, every
  \<open>prev_hash\<close> the hash of the row before, every hash the hash of its own row, no unhashed row after
  a hashed one), or, when nothing precedes the window, start a chain at \<open>seq\<close> 1.\<close>

theorem verify_chain_tail_iff:
  "broken_at_seq (verify_chain_tail cx log limit) = None \<longleftrightarrow>
    (let rows = window limit (entries log) in
     case boundary rows (entries log) of
       None \<Rightarrow> continues cx 0 [] False rows
     | Some b \<Rightarrow> continues cx (seq b) (hash b) (hash b \<noteq> []) rows)"
  by (auto simp: verify_chain_tail_def Let_def verify_walk_iff split: option.splits)

text \<open>Appending keeps the log intact, only adds one row at the end, and no intact log ever raises
  an alarm, whatever limit the verifier is called with.\<close>

theorem append_keeps_chain:
  assumes "digest_env_ok cx" "intact cx log"
  shows "intact cx (append_within_tx cx row log) \<and>
    (\<exists>e. entries (append_within_tx cx row log) = entries log @ [e] \<and> log_row e = row) \<and>
    broken_at_seq (verify_chain_tail cx (append_within_tx cx row log) limit) = None"
proof -
  have "intact cx (append_within_tx cx row log)"
    using append_within_tx_intact [OF assms] .
  then show ?thesis
    by (simp add: verify_intact intact_def) (simp add: append_within_tx_def Let_def)
qed

definition demo_env :: digest_env where
  "demo_env = \<lparr> sha256 = (\<lambda>x. take 32 (x @ replicate 32 (CHR ''0''))),
     to_rfc3339 = (\<lambda>t. be_bytes 16 (nat (t + 2 ^ 100))) \<rparr>"

lemma demo_env_ok: "digest_env_ok demo_env"
proof -
  have "nat (s + 2 ^ 100) = nat (t + 2 ^ 100) \<Longrightarrow> s = t"
    if "s \<in> datetime_range" "t \<in> datetime_range" for s t
    using that by (auto simp: datetime_range_def seconds_def nanos_def)
  moreover have "nat (t + 2 ^ 100) < 256 ^ 16" if "t \<in> datetime_range" for t
    using that by (auto simp: datetime_range_def seconds_def nanos_def nat_less_iff)
  ultimately have "inj_on (to_rfc3339 demo_env) datetime_range"
    by (auto simp: demo_env_def inj_on_def dest!: be_bytes_inj)
  then show ?thesis
    by (auto simp: digest_env_ok_def demo_env_def)
qed

definition demo_row :: "string \<Rightarrow> audit_log_row" where
  "demo_row action = \<lparr> al_at = 0, al_actor = None, al_action = action, al_target = Some ''u1'',
     al_result = ''ok'', al_note = None \<rparr>"

definition demo_log :: "string \<Rightarrow> audit_log" where
  "demo_log action = append_within_tx demo_env (demo_row action) \<lparr> entries = [], autoinc = 0 \<rparr>"

lemma intact_empty [simp]: "intact cx \<lparr> entries = [], autoinc = 0 \<rparr>"
  by (simp add: intact_def)

theorem append_keeps_chain_witness:
  "broken_at_seq (verify_chain_tail demo_env (append_within_tx demo_env (demo_row ''b'') (demo_log ''a'')) 1) = None"
  using append_keeps_chain [OF demo_env_ok append_within_tx_intact [OF demo_env_ok intact_empty]]
  by (simp add: demo_log_def)

text \<open>C18: Tamper evidence.  Take two logs without legacy rows that both follow the chain rules and end
  in the same hash.  Then they record the same content row by row, or the two logs themselves
  exhibit a SHA-256 collision between two of the byte strings that were hashed.\<close>

theorem chain_tamper_evident:
  assumes "digest_env_ok cx" "hashed_chain cx es" "hashed_chain cx es'" "es \<noteq> []" "es' \<noteq> []"
    and "hash (last es) = hash (last es')"
  shows "map (content \<circ> log_row) es = map (content \<circ> log_row) es' \<or>
    (\<exists>x \<in> hash_inputs cx es. \<exists>y \<in> hash_inputs cx es'. x \<noteq> y \<and> sha256 cx x = sha256 cx y)"
  by (rule chain_binding [OF assms])

lemma demo_hashed_chain: "length action < 2 ^ 64 \<Longrightarrow> hashed_chain demo_env (entries (demo_log action))"
  using append_within_tx_intact [OF demo_env_ok intact_empty, of "demo_row action"]
  by (simp add: demo_log_def hashed_chain_def intact_def append_within_tx_def Let_def latest_hash_def
      row_ok_def demo_row_def field_ok_def unwrap_or_default_def datetime_range_def seconds_def nanos_def
      compute_hash_not_Nil demo_env_ok)

theorem chain_tamper_evident_witness:
  "\<exists>x \<in> hash_inputs demo_env (entries (demo_log ''a'')). \<exists>y \<in> hash_inputs demo_env (entries (demo_log ''b'')).
    x \<noteq> y \<and> sha256 demo_env x = sha256 demo_env y"
proof -
  have "hash (last (entries (demo_log ''a''))) = hash (last (entries (demo_log ''b'')))"
    by (simp add: demo_log_def append_within_tx_def Let_def compute_hash_def hash_input_def
        canonical_bytes_def write_field_def demo_row_def demo_env_def latest_hash_def unwrap_or_default_def)
  moreover have "map (content \<circ> log_row) (entries (demo_log ''a'')) \<noteq> map (content \<circ> log_row) (entries (demo_log ''b''))"
    by (simp add: demo_log_def append_within_tx_def Let_def content_def demo_row_def)
  moreover have "entries (demo_log a) \<noteq> []" for a
    by (simp add: demo_log_def append_within_tx_def Let_def)
  ultimately show ?thesis
    using chain_tamper_evident [OF demo_env_ok demo_hashed_chain demo_hashed_chain, of "''a''" "''b''"]
    by simp
qed

end
