(* ===== verification/Auth_Method.thy ===== *)
theory Auth_Method
  imports Sui_Prelude
begin

text \<open>
  \<open>sui-id-shared/src/auth_method.rs\<close>: the authentication methods of a session and the \<open>acr\<close> and
  \<open>amr\<close> claims an ID token derives from them.
\<close>

datatype auth_method = Pwd | Totp | RecoveryCode | Webauthn | Fed

fun as_amr :: "auth_method \<Rightarrow> string" where
  "as_amr Pwd = ''pwd''"
| "as_amr Totp = ''otp''"
| "as_amr RecoveryCode = ''otp''"
| "as_amr Webauthn = ''hwk''"
| "as_amr Fed = ''fed''"

fun is_second_factor :: "auth_method \<Rightarrow> bool" where
  "is_second_factor Pwd = False"
| "is_second_factor Totp = True"
| "is_second_factor RecoveryCode = True"
| "is_second_factor Webauthn = True"
| "is_second_factor Fed = True"

definition is_phishing_resistant :: "auth_method \<Rightarrow> bool" where
  "is_phishing_resistant m = (m = Webauthn)"

definition is_federated :: "auth_method \<Rightarrow> bool" where
  "is_federated m = (m = Fed)"

definition acr_from_methods :: "auth_method list \<Rightarrow> string" where
  "acr_from_methods methods =
    (if list_ex is_phishing_resistant methods then ''3''
     else if list_ex is_second_factor methods then ''2''
     else ''1'')"

text \<open>The loop body of \<open>amr_from_methods\<close>: push the token unless it is already there.\<close>

definition push_new :: "string list \<Rightarrow> string \<Rightarrow> string list" where
  "push_new out v = (if v \<in> set out then out else out @ [v])"

definition amr_from_methods :: "auth_method list \<Rightarrow> string list" where
  "amr_from_methods methods =
    (let out = foldl (\<lambda>out m. push_new out (as_amr m)) [] methods in
     if length out \<ge> 2 \<and> ''mfa'' \<notin> set out then out @ [''mfa''] else out)"

lemma foldl_push_new:
  fixes out :: "string list"
  assumes "distinct out"
  shows "distinct (foldl (\<lambda>out m. push_new out (as_amr m)) out ms)
    \<and> set (foldl (\<lambda>out m. push_new out (as_amr m)) out ms) = set out \<union> as_amr ` set ms"
  using assms by (induction ms arbitrary: out) (auto simp: push_new_def)

lemma as_amr_not_mfa [simp]: "as_amr m \<noteq> ''mfa''"
  by (cases m) auto

lemma amr_tokens:
  fixes ms
  defines "out \<equiv> foldl (\<lambda>out m. push_new out (as_amr m)) [] ms"
  shows "distinct out" "set out = as_amr ` set ms" "length out = card (as_amr ` set ms)"
proof -
  show "distinct out" "set out = as_amr ` set ms"
    using foldl_push_new [of "[]" ms] by (simp_all add: out_def)
  then show "length out = card (as_amr ` set ms)"
    using distinct_card [of out] by simp
qed

lemma mfa_not_token: "''mfa'' \<notin> as_amr ` set ms"
  using as_amr_not_mfa by (metis imageE)

text \<open>Two distinct tokens need a method other than the password.\<close>

lemma second_factor_of_two_tokens:
  assumes "2 \<le> card (as_amr ` set ms)"
  shows "list_ex is_second_factor ms"
proof (rule ccontr)
  assume "\<not> list_ex is_second_factor ms"
  then have "set ms \<subseteq> {Pwd}"
    by (auto simp: list_ex_iff elim!: is_second_factor.elims(3))
  then have "as_amr ` set ms \<subseteq> {''pwd''}"
    by auto
  then have "card (as_amr ` set ms) \<le> 1"
    by (metis card.empty card_insert_disjoint card_mono empty_iff finite.emptyI finite.insertI One_nat_def)
  with assms show False
    by simp
qed

text \<open>The \<open>amr\<close> claim has no duplicate, consists of exactly the RFC 8176 tokens of the session's
  methods, and carries the umbrella token \<open>mfa\<close> (always last) exactly when two or more distinct
  factor tokens were used.\<close>

theorem amr_from_methods_spec:
  "distinct (amr_from_methods ms) \<and>
   set (amr_from_methods ms) - {''mfa''} = as_amr ` set ms \<and>
   (''mfa'' \<in> set (amr_from_methods ms) \<longleftrightarrow> 2 \<le> card (as_amr ` set ms)) \<and>
   (''mfa'' \<in> set (amr_from_methods ms) \<longleftrightarrow> amr_from_methods ms \<noteq> [] \<and> last (amr_from_methods ms) = ''mfa'')"
  using amr_tokens [of ms] mfa_not_token [of ms]
  by (auto simp: amr_from_methods_def Let_def dest: last_in_set)

text \<open>The \<open>acr\<close> claim is the level the methods earn: 3 exactly with a WebAuthn factor, 1 exactly
  when nothing but the password was used; a session whose \<open>amr\<close> claims \<open>mfa\<close> is never level 1.\<close>

theorem acr_from_methods_spec:
  "(acr_from_methods ms = ''3'' \<longleftrightarrow> Webauthn \<in> set ms) \<and>
   (acr_from_methods ms = ''1'' \<longleftrightarrow> set ms \<subseteq> {Pwd}) \<and>
   (acr_from_methods ms = ''2'' \<longleftrightarrow> Webauthn \<notin> set ms \<and> \<not> set ms \<subseteq> {Pwd}) \<and>
   \<not> (''mfa'' \<in> set (amr_from_methods ms) \<and> acr_from_methods ms = ''1'')"
proof -
  have web: "list_ex is_phishing_resistant ms \<longleftrightarrow> Webauthn \<in> set ms"
    by (auto simp: list_ex_iff is_phishing_resistant_def)
  have sf: "list_ex is_second_factor ms \<longleftrightarrow> \<not> set ms \<subseteq> {Pwd}"
    by (auto simp: list_ex_iff elim!: is_second_factor.elims)
  have "''mfa'' \<in> set (amr_from_methods ms) \<Longrightarrow> list_ex is_second_factor ms"
    using amr_tokens [of ms] mfa_not_token [of ms] second_factor_of_two_tokens [of ms]
    by (auto simp: amr_from_methods_def Let_def split: if_splits)
  with web sf show ?thesis
    by (auto simp: acr_from_methods_def)
qed

end
