(* ===== verification/Authz.thy ===== *)
theory Authz
  imports Sui_Prelude
begin

text \<open>
  The authorization core: \<open>Role\<close> of \<open>sui-id-store/src/models.rs\<close>, the decision table of
  \<open>sui-id-core/src/identity/authz.rs\<close> and the capability types of \<open>identity/actor.rs\<close>.
\<close>

section \<open>Roles\<close>

datatype role = Admin | Auditor | User

definition role_from_db_str :: "string \<Rightarrow> role option" where
  "role_from_db_str s =
    (if s = ''admin'' then Some Admin
     else if s = ''auditor'' then Some Auditor
     else if s = ''user'' then Some User
     else None)"

fun role_as_str :: "role \<Rightarrow> string" where
  "role_as_str Admin = ''admin''"
| "role_as_str Auditor = ''auditor''"
| "role_as_str User = ''user''"

definition can_read_admin :: "role \<Rightarrow> bool" where
  "can_read_admin r = (r = Admin \<or> r = Auditor)"

definition is_admin_role :: "role \<Rightarrow> bool" where
  "is_admin_role r = (r = Admin)"

lemma role_db_roundtrip [simp]: "role_from_db_str (role_as_str r) = Some r"
  by (cases r) (simp_all add: role_from_db_str_def)

section \<open>The decision table\<close>

datatype action =
    AdminReadUsers | AdminReadClients | AdminReadAudit | AdminReadDashboard | AdminReadSettings
  | AdminReadSigningKeys
  | AdminWriteUsers | AdminWriteClients | AdminWriteSettings | AdminRotateSigningKey
  | AdminRotateClientSecret | AdminResetUserMfa | AdminForceLogout
  | AdminChangeUserRole bool | AdminDisableUser bool | AdminDeleteUser bool
  | SelfReadSecurity | SelfWriteSecurity | SelfRevokeOwnSessions | SelfRevokeConsent

datatype decision = Permit | Deny

fun authorize :: "role \<Rightarrow> action \<Rightarrow> decision" where
  "authorize Admin AdminReadUsers = Permit"
| "authorize Admin AdminReadClients = Permit"
| "authorize Admin AdminReadAudit = Permit"
| "authorize Admin AdminReadDashboard = Permit"
| "authorize Admin AdminReadSettings = Permit"
| "authorize Admin AdminReadSigningKeys = Permit"
| "authorize Auditor AdminReadUsers = Permit"
| "authorize Auditor AdminReadClients = Permit"
| "authorize Auditor AdminReadAudit = Permit"
| "authorize Auditor AdminReadDashboard = Permit"
| "authorize Auditor AdminReadSettings = Permit"
| "authorize Auditor AdminReadSigningKeys = Permit"
| "authorize Admin AdminWriteUsers = Permit"
| "authorize Admin AdminWriteClients = Permit"
| "authorize Admin AdminWriteSettings = Permit"
| "authorize Admin AdminRotateSigningKey = Permit"
| "authorize Admin AdminRotateClientSecret = Permit"
| "authorize Admin AdminResetUserMfa = Permit"
| "authorize Admin AdminForceLogout = Permit"
| "authorize Admin (AdminChangeUserRole False) = Permit"
| "authorize Admin (AdminDisableUser False) = Permit"
| "authorize Admin (AdminDeleteUser False) = Permit"
| "authorize _ (AdminChangeUserRole True) = Deny"
| "authorize _ (AdminDisableUser True) = Deny"
| "authorize _ (AdminDeleteUser True) = Deny"
| "authorize _ (AdminChangeUserRole _) = Deny"
| "authorize _ (AdminDisableUser _) = Deny"
| "authorize _ (AdminDeleteUser _) = Deny"
| "authorize _ SelfReadSecurity = Permit"
| "authorize _ SelfWriteSecurity = Permit"
| "authorize _ SelfRevokeOwnSessions = Permit"
| "authorize _ SelfRevokeConsent = Permit"
| "authorize _ _ = Deny"

section \<open>Actors and capabilities\<close>

record actor =
  actor_user_id :: uuid
  actor_role :: role
  actor_session_id :: uuid

definition from_session :: "uuid \<Rightarrow> role \<Rightarrow> uuid \<Rightarrow> actor" where
  "from_session user_id r session_id =
    \<lparr> actor_user_id = user_id, actor_role = r, actor_session_id = session_id \<rparr>"

datatype admin_actor = AdminActor actor
datatype read_only_admin_actor = ReadOnlyAdminActor actor
datatype self_actor = SelfActor actor

definition into_admin :: "actor \<Rightarrow> actor + admin_actor" where
  "into_admin a =
    (if authorize (actor_role a) AdminWriteUsers = Permit then Inr (AdminActor a) else Inl a)"

definition into_read_admin :: "actor \<Rightarrow> actor + read_only_admin_actor" where
  "into_read_admin a =
    (if authorize (actor_role a) AdminReadUsers = Permit then Inr (ReadOnlyAdminActor a) else Inl a)"

definition into_self :: "actor \<Rightarrow> self_actor" where
  "into_self a = SelfActor a"

fun admin_authorize :: "admin_actor \<Rightarrow> action \<Rightarrow> decision" where
  "admin_authorize (AdminActor a) act = authorize (actor_role a) act"

fun as_read_only :: "admin_actor \<Rightarrow> read_only_admin_actor" where
  "as_read_only (AdminActor a) =
    ReadOnlyAdminActor (from_session (actor_user_id a) (actor_role a) (actor_session_id a))"

fun can_write :: "read_only_admin_actor \<Rightarrow> bool" where
  "can_write (ReadOnlyAdminActor a) = (actor_role a = Admin)"

fun self_user_id :: "self_actor \<Rightarrow> uuid" where
  "self_user_id (SelfActor a) = actor_user_id a"

section \<open>The table as a policy\<close>

text \<open>The four kinds of action the table's comments name.\<close>

fun reads_admin_surface :: "action \<Rightarrow> bool" where
  "reads_admin_surface AdminReadUsers = True"
| "reads_admin_surface AdminReadClients = True"
| "reads_admin_surface AdminReadAudit = True"
| "reads_admin_surface AdminReadDashboard = True"
| "reads_admin_surface AdminReadSettings = True"
| "reads_admin_surface AdminReadSigningKeys = True"
| "reads_admin_surface _ = False"

fun self_service :: "action \<Rightarrow> bool" where
  "self_service SelfReadSecurity = True"
| "self_service SelfWriteSecurity = True"
| "self_service SelfRevokeOwnSessions = True"
| "self_service SelfRevokeConsent = True"
| "self_service _ = False"

fun hits_last_admin :: "action \<Rightarrow> bool" where
  "hits_last_admin (AdminChangeUserRole b) = b"
| "hits_last_admin (AdminDisableUser b) = b"
| "hits_last_admin (AdminDeleteUser b) = b"
| "hits_last_admin _ = False"

text \<open>The 60-entry decision table is exactly this policy: everyone may do self-service, admins and
  auditors may read the admin surfaces, and a mutation is permitted only to an admin whose target
  is not the last admin.  Role monotonicity, read/write separation, last-admin protection and
  self-scope (P2 to P5 of the module) all follow from it.\<close>

theorem authorize_policy:
  "authorize r a = Permit \<longleftrightarrow>
    self_service a \<or>
    (reads_admin_surface a \<and> (r = Admin \<or> r = Auditor)) \<or>
    (\<not> self_service a \<and> \<not> reads_admin_surface a \<and> r = Admin \<and> \<not> hits_last_admin a)"
  by (cases "(r, a)" rule: authorize.cases) auto

lemma authorize_write_users_iff: "authorize r AdminWriteUsers = Permit \<longleftrightarrow> r = Admin"
  by (cases r) auto

lemma authorize_read_users_iff: "authorize r AdminReadUsers = Permit \<longleftrightarrow> r = Admin \<or> r = Auditor"
  by (cases r) auto

text \<open>C39: Capabilities cannot be forged or upgraded.  The conversions keep the session's own
  identity; a write capability comes from an admin session only and then permits every action that
  does not hit the last admin; a read capability comes from an admin or auditor session only and
  reports write access exactly for an admin; a failed conversion hands back the same actor.\<close>

theorem capability_soundness:
  "(into_admin a = Inr (AdminActor a) \<and> actor_role a = Admin \<and>
      (\<forall>act. admin_authorize (AdminActor a) act = Permit \<longleftrightarrow> \<not> hits_last_admin act) \<and>
      as_read_only (AdminActor a) = ReadOnlyAdminActor a \<and> can_write (as_read_only (AdminActor a))
    \<or> into_admin a = Inl a \<and> actor_role a \<noteq> Admin) \<and>
   (into_read_admin a = Inr (ReadOnlyAdminActor a) \<and> actor_role a \<in> {Admin, Auditor} \<and>
      can_write (ReadOnlyAdminActor a) = is_ok (into_admin a)
    \<or> into_read_admin a = Inl a \<and> actor_role a = User) \<and>
   self_user_id (into_self a) = actor_user_id a"
proof -
  have admin: "authorize Admin act = Permit \<longleftrightarrow> \<not> hits_last_admin act" for act
    by (cases "(Admin, act)" rule: authorize.cases) auto
  show ?thesis
    by (cases "actor_role a")
      (auto simp: into_admin_def into_read_admin_def into_self_def from_session_def admin)
qed

end
