(* ===== verification/Store_Model.thy ===== *)
theory Store_Model
  imports Audit_Chain Auth_Method Authz
begin

text \<open>
  The database: the row types of \<open>sui-id-store/src/models.rs\<close>, the tables the modelled operations
  touch, transactions (\<open>db.rs\<close>) and the Class-A runner that commits a state change together with
  its audit row (\<open>registry.rs\<close>).

  A column comparison of two instants is chronological: the stored text form orders the way the
  instants do for the four-digit years the program uses.  The \<open>role\<close> and \<open>issued_via\<close> columns are
  CHECK-constrained, so they hold the Rust enum directly; a JSON column holds the decoded list.
\<close>

section \<open>Rows\<close>

datatype user_source = Local | Ldap

record user_row =
  u_id :: uuid
  u_username :: string
  u_display_name :: "string option"
  u_email :: "string option"
  u_email_normalized :: "string option"
  u_email_verified_at :: "instant option"
  u_preferred_lang :: "string option"
  u_is_admin :: bool
  u_role :: role
  u_is_disabled :: bool
  u_is_deleted :: bool
  u_last_login_at :: "instant option"
  u_user_uuid :: uuid
  u_created_at :: instant
  u_updated_at :: instant
  u_failed_login_count :: int
  u_mfa_failure_count :: int
  u_locked_until :: "instant option"
  u_source :: user_source
  u_external_stable_id :: "string option"

record credential_row =
  cr_user_id :: uuid
  cr_password_hash :: string
  cr_updated_at :: instant

datatype consent_policy = ConsentNone | FirstTime | Always

datatype registration_source = RegAdmin | RegDynamic

datatype token_endpoint_auth_method =
  AuthNone | ClientSecretBasic | ClientSecretPost | Unknown string

record client_row =
  c_id :: uuid
  c_name :: string
  c_confidential :: bool
  c_secret_hash :: "string option"
  c_redirect_uris :: "string list"
  c_allowed_scopes :: string
  c_post_logout_redirect_uris :: "string list"
  c_is_disabled :: bool
  c_is_deleted :: bool
  c_consent_policy :: consent_policy
  c_registered_via :: registration_source
  c_logo_uri :: "string option"
  c_homepage_uri :: "string option"
  c_privacy_policy_uri :: "string option"
  c_tos_uri :: "string option"
  c_token_endpoint_auth_method :: "token_endpoint_auth_method option"
  c_grant_types :: "string list option"
  c_response_types :: "string list option"
  c_created_at :: instant
  c_updated_at :: instant

record authorization_code_row =
  ac_code_hash :: string
  ac_client_id :: uuid
  ac_user_id :: uuid
  ac_redirect_uri :: string
  ac_scope :: string
  ac_nonce :: "string option"
  ac_code_challenge :: string
  ac_code_challenge_method :: string
  ac_expires_at :: instant
  ac_consumed :: bool
  ac_created_at :: instant
  ac_auth_methods :: "auth_method list"

text \<open>\<open>s_step_up_failure_count\<close> and \<open>s_last_step_up_method\<close> are columns the Rust row type leaves out.\<close>

record session_row =
  s_id :: uuid
  s_user_id :: uuid
  s_expires_at :: instant
  s_created_at :: instant
  s_revoked_at :: "instant option"
  s_auth_methods :: "auth_method list"
  s_last_step_up_at :: "instant option"
  s_last_used_at :: "instant option"
  s_last_step_up_method :: "string option"
  s_step_up_failure_count :: int

text \<open>\<open>rt_token_enc\<close> and \<open>rt_token_hash\<close> are the sealed token and its lookup hash, columns that the
  Rust row type leaves out on purpose.\<close>

record refresh_token_row =
  rt_id :: string
  rt_token_enc :: string
  rt_token_hash :: "string option"
  rt_user_id :: uuid
  rt_client_id :: uuid
  rt_scope :: string
  rt_expires_at :: instant
  rt_revoked_at :: "instant option"
  rt_created_at :: instant
  rt_auth_methods :: "auth_method list"
  rt_family_id :: string

record user_totp_row =
  ut_user_id :: uuid
  ut_secret_enc :: string
  ut_enabled :: bool
  ut_recovery_codes_enc :: "string option"
  ut_last_used_step :: int
  ut_created_at :: instant
  ut_confirmed_at :: "instant option"

record login_pending_mfa_row =
  pm_id :: uuid
  pm_user_id :: uuid
  pm_expires_at :: instant
  pm_created_at :: instant

record user_webauthn_credential_row =
  wc_id :: uuid
  wc_user_id :: uuid
  wc_credential_id :: string
  wc_passkey_enc :: string
  wc_nickname :: string
  wc_created_at :: instant
  wc_last_used_at :: "instant option"

datatype webauthn_pending_kind = KindRegister | KindAuthenticate | KindStepUp

record webauthn_pending_row =
  wp_id :: uuid
  wp_kind :: webauthn_pending_kind
  wp_user_id :: "uuid option"
  wp_state_json :: string
  wp_expires_at :: instant
  wp_created_at :: instant

datatype reset_token_origin = OriginEmail | OriginWeb | OriginCli

record password_reset_token_row =
  prt_id :: uuid
  prt_user_id :: uuid
  prt_token_hash :: string
  prt_issued_at :: instant
  prt_expires_at :: instant
  prt_consumed_at :: "instant option"
  prt_requester_ip :: "string option"
  prt_issued_via :: reset_token_origin
  prt_issued_by :: "uuid option"
  prt_revoked_at :: "instant option"
  prt_provisioning :: bool

record revoked_access_token_row =
  rat_jti :: string
  rat_revoked_at :: instant
  rat_exp :: instant
  rat_revoked_by_user :: "uuid option"
  rat_revoked_by_client :: "uuid option"

datatype hibp_mode = HibpOff | HibpWarn | HibpBlock

record server_settings_row =
  ss_default_lang :: string
  ss_hibp_mode :: hibp_mode
  ss_idle_session_timeout_secs :: int
  ss_max_concurrent_sessions :: int
  ss_metrics_token_hash :: "string option"
  ss_created_at :: instant
  ss_updated_at :: instant

record signing_key_row =
  sk_id :: uuid
  sk_algorithm :: string
  sk_private_key_enc :: string
  sk_public_key :: string
  sk_is_active :: bool
  sk_created_at :: instant
  sk_rotated_at :: "instant option"

text \<open>\<open>uc_last_used_at\<close> is a column the Rust row type leaves out.\<close>

record user_consent_row =
  uc_user_id :: uuid
  uc_client_id :: uuid
  uc_granted_scopes :: string
  uc_granted_at :: instant
  uc_last_used_at :: "instant option"

text \<open>The initial access tokens of dynamic client registration, \<open>repos/client_registration_token.rs\<close>.\<close>

record registration_token_row =
  rg_id :: uuid
  rg_token_hash :: string
  rg_max_uses :: int
  rg_used_count :: int
  rg_expires_at :: "instant option"
  rg_revoked_at :: "instant option"
  rg_note :: "string option"
  rg_created_at :: instant
  rg_updated_at :: instant

text \<open>Upstream providers, the links of local users to them, and the three short-lived tables of a
  federated sign-in.  A SHA-256 column holds the digest bytes.\<close>

datatype provision_mode = LinkOnly | ProvisionOnFirstLogin

record federation_provider_row =
  fp_id :: uuid
  fp_slug :: string
  fp_display_name :: string
  fp_issuer :: string
  fp_client_id :: string
  fp_client_secret_enc :: "string option"
  fp_scopes :: string
  fp_provision_mode :: provision_mode
  fp_enabled :: bool
  fp_allowed_origins :: string
  fp_created_at :: instant
  fp_updated_at :: instant

record federation_link_row =
  fl_user_id :: uuid
  fl_provider_id :: uuid
  fl_upstream_sub :: string
  fl_upstream_email :: "string option"
  fl_linked_at :: instant
  fl_last_seen_at :: instant

datatype federation_login_attempt_status = FaPending | FaExchanging | FaCompleted | FaFailed

record federation_login_attempt_row =
  fa_id :: uuid
  fa_provider_id :: uuid
  fa_provider_config_version :: int
  fa_provider_activation_generation :: int
  fa_state_sha256 :: string
  fa_nonce_sha256 :: string
  fa_browser_binding_sha256 :: string
  fa_pkce_verifier_sealed :: string
  fa_exact_redirect_uri :: string
  fa_next_path :: "string option"
  fa_created_at :: instant
  fa_expires_at :: instant
  fa_status :: federation_login_attempt_status
  fa_claimed_at :: "instant option"

datatype federation_mfa_pending_status = FmPending | FmCompleted | FmExhausted | FmInvalidated

record federation_mfa_pending_row =
  fm_id :: uuid
  fm_provider_id :: uuid
  fm_provider_config_version :: int
  fm_provider_activation_generation :: int
  fm_user_id :: uuid
  fm_continuation_sealed :: "string option"
  fm_next_path :: "string option"
  fm_browser_binding_sha256 :: string
  fm_csrf_binding_sha256 :: string
  fm_failure_count :: int
  fm_status :: federation_mfa_pending_status
  fm_created_at :: instant
  fm_expires_at :: instant

record federation_webauthn_ceremony_row =
  fw_id :: uuid
  fw_pending_id :: uuid
  fw_provider_id :: uuid
  fw_provider_config_version :: int
  fw_provider_activation_generation :: int
  fw_user_id :: uuid
  fw_ceremony_state_sealed :: string
  fw_rp_id :: string
  fw_origin :: string
  fw_created_at :: instant
  fw_pending_expires_at :: instant
  fw_expires_at :: instant

text \<open>Mail: the outbox, the relay configuration and the confirmation of its changes.\<close>

datatype email_outbox_state = Queued | Sending | Sent | Failed

record email_outbox_row =
  eo_id :: uuid
  eo_state :: email_outbox_state
  eo_template :: string
  eo_recipient_enc :: string
  eo_payload_enc :: string
  eo_attempt_count :: int
  eo_next_attempt_at :: instant
  eo_last_error :: "string option"
  eo_locale :: "string option"
  eo_created_at :: instant
  eo_updated_at :: instant

datatype smtp_tls_mode = TlsImplicit | StartTls

record smtp_config_row =
  sc_enabled :: bool
  sc_host :: string
  sc_port :: nat
  sc_tls_mode :: smtp_tls_mode
  sc_username :: "string option"
  sc_password_enc :: "string option"
  sc_from_address :: string
  sc_from_name :: "string option"
  sc_base_url :: string
  sc_created_at :: instant
  sc_updated_at :: instant

record pending_settings_change_row =
  pc_id :: uuid
  pc_session_id :: uuid
  pc_actor_id :: uuid
  pc_intent :: string
  pc_payload_enc :: string
  pc_summary :: string
  pc_csrf_token :: string
  pc_expires_at :: instant
  pc_created_at :: instant

datatype forgot_password_state = FrPending | FrProcessing

record forgot_password_request_row =
  fr_id :: uuid
  fr_state :: forgot_password_state
  fr_email :: string
  fr_requester_ip :: "string option"
  fr_created_at :: instant
  fr_updated_at :: instant

section \<open>The store\<close>

record store =
  users :: "user_row list"
  credentials :: "credential_row list"
  clients :: "client_row list"
  auth_codes :: "authorization_code_row list"
  sessions :: "session_row list"
  refresh_tokens :: "refresh_token_row list"
  user_totps :: "user_totp_row list"
  login_pending_mfas :: "login_pending_mfa_row list"
  webauthn_credentials :: "user_webauthn_credential_row list"
  webauthn_pendings :: "webauthn_pending_row list"
  password_reset_tokens :: "password_reset_token_row list"
  revoked_access_tokens :: "revoked_access_token_row list"
  server_settings :: "server_settings_row option"
  signing_keys :: "signing_key_row list"
  user_consents :: "user_consent_row list"
  registration_tokens :: "registration_token_row list"
  federation_providers :: "federation_provider_row list"
  federation_links :: "federation_link_row list"
  federation_attempts :: "federation_login_attempt_row list"
  federation_mfa_pendings :: "federation_mfa_pending_row list"
  federation_ceremonies :: "federation_webauthn_ceremony_row list"
  email_outbox :: "email_outbox_row list"
  smtp_config :: "smtp_config_row option"
  pending_settings_changes :: "pending_settings_change_row list"
  forgot_password_requests :: "forgot_password_request_row list"
  sui_meta :: "string \<rightharpoonup> string"
  audit :: audit_log

definition empty_store :: store where
  "empty_store = \<lparr> users = [], credentials = [], clients = [], auth_codes = [], sessions = [],
     refresh_tokens = [], user_totps = [], login_pending_mfas = [], webauthn_credentials = [],
     webauthn_pendings = [], password_reset_tokens = [], revoked_access_tokens = [],
     server_settings = None, signing_keys = [], user_consents = [], registration_tokens = [], federation_providers = [],
     federation_links = [], federation_attempts = [], federation_mfa_pendings = [], federation_ceremonies = [],
     email_outbox = [], smtp_config = None, pending_settings_changes = [],
     forgot_password_requests = [], sui_meta = (\<lambda>_. None),
     audit = \<lparr> entries = [], autoinc = 0 \<rparr> \<rparr>"

section \<open>Work inside a transaction\<close>

type_synonym 'a tx = "store \<Rightarrow> store_error + 'a \<times> store"

definition tx_return :: "'a \<Rightarrow> 'a tx" where
  "tx_return a s = Inr (a, s)"

definition tx_fail :: "store_error \<Rightarrow> 'a tx" where
  "tx_fail e s = Inl e"

text \<open>Sequencing with \<open>?\<close>: the first error ends the computation.\<close>

definition tx_bind :: "'a tx \<Rightarrow> ('a \<Rightarrow> 'b tx) \<Rightarrow> 'b tx" where
  "tx_bind m f s = (case m s of Inl e \<Rightarrow> Inl e | Inr (a, s') \<Rightarrow> f a s')"

text \<open>A read, a write, and a write guarded by its affected-row count.\<close>

definition tx_get :: "(store \<Rightarrow> 'a) \<Rightarrow> 'a tx" where
  "tx_get f s = Inr (f s, s)"

definition tx_modify :: "(store \<Rightarrow> store) \<Rightarrow> unit tx" where
  "tx_modify f s = Inr ((), f s)"

definition tx_guard :: "bool \<Rightarrow> store_error \<Rightarrow> unit tx" where
  "tx_guard b e s = (if b then Inr ((), s) else Inl e)"

lemma tx_bind_Inr_iff [results]:
  "tx_bind m f s = Inr (b, s'') \<longleftrightarrow> (\<exists>a s'. m s = Inr (a, s') \<and> f a s' = Inr (b, s''))"
  by (auto simp: tx_bind_def split: sum.splits prod.splits)

lemma tx_simps [simp]:
  "tx_return a s = Inr (a, s)" "tx_fail e s = Inl e" "tx_get g s = Inr (g s, s)"
  "tx_modify h s = Inr ((), h s)"
  by (simp_all add: tx_return_def tx_fail_def tx_get_def tx_modify_def)

lemma tx_guard_Inr_iff [results, simp]: "tx_guard b e s = Inr (u, s') \<longleftrightarrow> b \<and> s' = s"
  by (auto simp: tx_guard_def)

lemma tx_bind_simps [simp]:
  "m s = Inr (a, s') \<Longrightarrow> tx_bind m f s = f a s'"
  "m s = Inl e \<Longrightarrow> tx_bind m f s = Inl e"
  by (simp_all add: tx_bind_def)

text \<open>\<open>Database::with_tx\<close>: commit on success, roll back on error.\<close>

definition with_tx :: "'a tx \<Rightarrow> store \<Rightarrow> (store_error + 'a) \<times> store" where
  "with_tx f s = (case f s of Inl e \<Rightarrow> (Inl e, s) | Inr (v, s') \<Rightarrow> (Inr v, s'))"

lemma with_tx_Inr_iff [results]: "with_tx f s = (Inr v, s') \<longleftrightarrow> f s = Inr (v, s')"
  by (auto simp: with_tx_def split: sum.splits prod.splits)

lemma with_tx_Inl_iff [results]: "with_tx f s = (Inl e, s') \<longleftrightarrow> f s = Inl e \<and> s' = s"
  by (auto simp: with_tx_def split: sum.splits prod.splits)

section \<open>Work that leaves a part of the store alone\<close>

named_theorems frame "closure rules for unchanged parts of the store"

definition keeps :: "(store \<Rightarrow> 'p) \<Rightarrow> 'a tx \<Rightarrow> bool" where
  "keeps part m = (\<forall>s a s'. m s = Inr (a, s') \<longrightarrow> part s' = part s)"

lemma keepsD: "keeps part m \<Longrightarrow> m s = Inr (a, s') \<Longrightarrow> part s' = part s"
  by (simp add: keeps_def)

lemma keeps_return [frame]: "keeps part (tx_return a)"
  by (simp add: keeps_def)

lemma keeps_fail [frame]: "keeps part (tx_fail e)"
  by (simp add: keeps_def)

lemma keeps_get [frame]: "keeps part (tx_get f)"
  by (simp add: keeps_def)

lemma keeps_guard [frame]: "keeps part (tx_guard b e)"
  by (simp add: keeps_def)

lemma keeps_modify [frame]: "(\<And>s. part (f s) = part s) \<Longrightarrow> keeps part (tx_modify f)"
  by (simp add: keeps_def)

lemma keeps_bind [frame]:
  "keeps part m \<Longrightarrow> (\<And>a. keeps part (f a)) \<Longrightarrow> keeps part (tx_bind m f)"
  by (fastforce simp: keeps_def results)

lemma keeps_if [frame]: "keeps part m \<Longrightarrow> keeps part n \<Longrightarrow> keeps part (if b then m else n)"
  by simp

lemma keeps_option [frame]:
  "keeps part m \<Longrightarrow> (\<And>x. keeps part (f x)) \<Longrightarrow> keeps part (case opt of None \<Rightarrow> m | Some x \<Rightarrow> f x)"
  by (cases opt) auto

section \<open>Events and the Class-A runner\<close>

datatype audit_result = AuditOk | AuditFailure

fun audit_result_as_str :: "audit_result \<Rightarrow> string" where
  "audit_result_as_str AuditOk = ''ok''"
| "audit_result_as_str AuditFailure = ''failure''"

text \<open>The name and the attribute specification (name, required) of an event descriptor; its kind and
  its actor and target requirements are documentation that the runner does not read.\<close>

record event_descriptor =
  ed_name :: string
  ed_attributes :: "(string \<times> bool) list"

record sealed_event =
  ev_descriptor :: event_descriptor
  ev_target :: "string option"
  ev_result :: audit_result
  ev_attributes :: "audit_build_error + attributes"

definition missing_required :: "event_descriptor \<Rightarrow> attributes \<Rightarrow> string option" where
  "missing_required d attrs =
    map_option fst (List.find (\<lambda>(name, required). required \<and> \<not> list_ex (\<lambda>(k, _). k = name) attrs) (ed_attributes d))"

definition checked_attributes :: "sealed_event \<Rightarrow> audit_build_error + attributes" where
  "checked_attributes ev =
    (case ev_attributes ev of Inl e \<Rightarrow> Inl e
     | Inr attrs \<Rightarrow>
        (case missing_required (ev_descriptor ev) attrs of
           Some name \<Rightarrow> Inl (MissingRequiredAttribute name)
         | None \<Rightarrow> Inr attrs))"

text \<open>An event whose descriptor requires nothing and whose attributes are within the bounds.\<close>

lemma checked_attributes_plain:
  assumes "ev_attributes ev = build_attributes kvs" "attributes_ok kvs"
    and "list_all (\<lambda>(name, required). required \<longrightarrow> name \<in> fst ` set kvs) (ed_attributes (ev_descriptor ev))"
  shows "checked_attributes ev = Inr kvs"
proof -
  have "list_ex (\<lambda>(k, _). k = name) kvs" if "name \<in> fst ` set kvs" for name
    using that by (auto simp: list_ex_iff)
  then have "\<not> (required \<and> \<not> list_ex (\<lambda>(k, _). k = name) kvs)"
    if "(name, required) \<in> set (ed_attributes (ev_descriptor ev))" for name required
    using that assms(3) by (fastforce simp: list_all_iff)
  then have "missing_required (ev_descriptor ev) kvs = None"
    by (auto simp: missing_required_def find_None_iff)
  then show ?thesis
    using assms(1,2) by (simp add: checked_attributes_def build_attributes_ok)
qed

definition build_audit_row ::
  "event_descriptor \<Rightarrow> uuid option \<Rightarrow> instant \<Rightarrow> string option \<Rightarrow> audit_result \<Rightarrow> attributes \<Rightarrow> audit_log_row" where
  "build_audit_row d actor now tgt res attrs =
    \<lparr> al_at = now, al_actor = actor, al_action = ed_name d, al_target = tgt,
      al_result = audit_result_as_str res, al_note = render_note attrs \<rparr>"

text \<open>\<open>now\<close> is the clock read of \<open>build_audit_row\<close>; \<open>actor\<close> is the command context's actor.\<close>

definition class_a_tx ::
  "digest_env \<Rightarrow> instant \<Rightarrow> uuid option \<Rightarrow> ('a \<times> sealed_event) tx \<Rightarrow> 'a tx" where
  "class_a_tx cx now actor build_cmd =
    tx_bind build_cmd (\<lambda>(value, ev).
      case checked_attributes ev of
        Inl err \<Rightarrow> tx_fail (Integrity (build_error_text err))
      | Inr attrs \<Rightarrow>
          tx_bind (tx_modify (\<lambda>s. s\<lparr>audit := append_within_tx cx
              (build_audit_row (ev_descriptor ev) actor now (ev_target ev) (ev_result ev) attrs) (audit s)\<rparr>))
            (\<lambda>_. tx_return value))"

definition class_a ::
  "digest_env \<Rightarrow> instant \<Rightarrow> uuid option \<Rightarrow> ('a \<times> sealed_event) tx \<Rightarrow> store \<Rightarrow> (store_error + 'a) \<times> store" where
  "class_a cx now actor build_cmd = with_tx (class_a_tx cx now actor build_cmd)"

text \<open>\<open>Database::protocol\<close> and \<open>Database::operational\<close>: a transaction without an audit row.\<close>

definition protocol_tx :: "'a tx \<Rightarrow> store \<Rightarrow> (store_error + 'a) \<times> store" where
  "protocol_tx build_cmd = with_tx build_cmd"

section \<open>The contract of an audited command\<close>

text \<open>A command either fails and leaves the whole store as it was, or succeeds and appends exactly
  one audit row.\<close>

locale audited_command =
  fixes cx :: digest_env
    and run :: "store \<Rightarrow> (store_error + 'a) \<times> store"
    and audit_rows :: "audit_log_row \<Rightarrow> bool"
  assumes rollback: "run s = (Inl e, s') \<Longrightarrow> s' = s"
    and appends: "run s = (Inr v, s') \<Longrightarrow> \<exists>row. audit_rows row \<and> audit s' = append_within_tx cx row (audit s)"
begin

lemma log_grows: "\<exists>es. entries (audit (snd (run s))) = entries (audit s) @ es \<and> length es \<le> 1"
proof (cases "run s")
  case (Pair r s')
  show ?thesis
  proof (cases r)
    case (Inl e)
    then have "s' = s"
      using rollback Pair by simp
    then show ?thesis
      using Pair by (intro exI [of _ "[]"]) simp
  next
    case (Inr v)
    then show ?thesis
      using appends Pair by (fastforce simp: append_within_tx_def Let_def)
  qed
qed

lemma log_length:
  "length (entries (audit (snd (run s)))) = length (entries (audit s)) + (if is_ok (fst (run s)) then 1 else 0)"
proof (cases "run s")
  case (Pair r s')
  show ?thesis
  proof (cases r)
    case (Inl e)
    then show ?thesis
      using rollback Pair by auto
  next
    case (Inr v)
    then show ?thesis
      using appends Pair by (fastforce simp: append_within_tx_def Let_def)
  qed
qed

lemma keeps_intact:
  assumes "digest_env_ok cx" "intact cx (audit s)"
  shows "intact cx (audit (snd (run s)))"
proof (cases "run s")
  case (Pair r s')
  then show ?thesis
    using rollback appends append_within_tx_intact assms by (cases r) fastforce+
qed

end

text \<open>A command body that does not touch the audit log itself makes an audited command.\<close>

locale command_body =
  fixes body :: "('a \<times> sealed_event) tx"
  assumes keeps_audit: "keeps audit body"
begin

lemma class_a_success:
  assumes "class_a cx now actor body s = (Inr v, s')"
  obtains ev t attrs where "body s = Inr ((v, ev), t)" "checked_attributes ev = Inr attrs"
    "s' = t\<lparr>audit := append_within_tx cx
      (build_audit_row (ev_descriptor ev) actor now (ev_target ev) (ev_result ev) attrs) (audit s)\<rparr>"
proof -
  have "class_a_tx cx now actor body s = Inr (v, s')"
    using assms by (simp add: class_a_def results)
  then obtain w ev t where body: "body s = Inr ((w, ev), t)"
    and rest: "(case checked_attributes ev of
        Inl err \<Rightarrow> tx_fail (Integrity (build_error_text err))
      | Inr attrs \<Rightarrow>
          tx_bind (tx_modify (\<lambda>s. s\<lparr>audit := append_within_tx cx
              (build_audit_row (ev_descriptor ev) actor now (ev_target ev) (ev_result ev) attrs) (audit s)\<rparr>))
            (\<lambda>_. tx_return w)) t = Inr (v, s')"
    by (auto simp: class_a_tx_def results)
  obtain attrs where attrs: "checked_attributes ev = Inr attrs"
    using rest by (cases "checked_attributes ev") auto
  have "w = v \<and> s' = t\<lparr>audit := append_within_tx cx
      (build_audit_row (ev_descriptor ev) actor now (ev_target ev) (ev_result ev) attrs) (audit s)\<rparr>"
    using rest keepsD [OF keeps_audit body] by (simp add: attrs)
  then show thesis
    using that body attrs by blast
qed

lemma class_a_commit:
  assumes "body s = Inr ((v, ev), t)" "checked_attributes ev = Inr attrs"
  shows "class_a cx now actor body s = (Inr v, t\<lparr>audit := append_within_tx cx
      (build_audit_row (ev_descriptor ev) actor now (ev_target ev) (ev_result ev) attrs) (audit s)\<rparr>)"
  using assms keepsD [OF keeps_audit assms(1)] by (simp add: class_a_def class_a_tx_def with_tx_def)

lemma class_a_abort:
  assumes "body s = Inl e"
  shows "class_a cx now actor body s = (Inl e, s)"
  using assms by (simp add: class_a_def class_a_tx_def with_tx_def)

lemma class_a_error:
  assumes "class_a cx now actor body s = (Inl e, s')"
  shows "s' = s \<and> (body s = Inl e \<or>
    (\<exists>v ev t err. body s = Inr ((v, ev), t) \<and> checked_attributes ev = Inl err \<and> e = Integrity (build_error_text err)))"
  using assms
  by (auto simp: class_a_def class_a_tx_def results tx_bind_def split: sum.splits prod.splits)

lemma class_a_store:
  assumes "class_a cx now actor body s = (r, s')"
  obtains (unchanged) "s' = s" | (committed) v t a where "body s = Inr (v, t)" "s' = t\<lparr>audit := a\<rparr>"
proof (cases r)
  case (Inl e)
  then show thesis
    using assms class_a_error unchanged by blast
next
  case (Inr v)
  then have "class_a cx now actor body s = (Inr v, s')"
    using assms by simp
  then show thesis
    using committed by (elim class_a_success)
qed

end

sublocale command_body \<subseteq> audited_command cx "class_a cx now actor body"
  "\<lambda>row. al_at row = now \<and> al_actor row = actor" for cx now actor
proof
  show "s' = s" if "class_a cx now actor body s = (Inl e, s')" for s e s'
    using class_a_error [OF that] by simp
  show "\<exists>row. (al_at row = now \<and> al_actor row = actor) \<and> audit s' = append_within_tx cx row (audit s)"
    if "class_a cx now actor body s = (Inr v, s')" for s v s'
    using that by (rule class_a_success) (force simp: build_audit_row_def)
qed

end
