(* ===== verification/Users.thy ===== *)
theory Users
  imports Store_Model
begin

text \<open>
  The user repository (\<open>sui-id-store/src/repos/users.rs\<close>): lookups, creation, the flags, roles, and
  the two failure counters with the lock they share.

  \<open>now\<close> is the clock value a function reads or is given.  \<open>lower\<close> is the Unicode lower-casing of
  \<open>str::to_lowercase\<close>, whose case tables are data of the standard library.
\<close>

section \<open>Lookups and single-row updates\<close>

definition by_user_id :: "uuid \<Rightarrow> user_row \<Rightarrow> bool" where
  "by_user_id uid u = (u_id u = uid)"

definition get_user :: "uuid \<Rightarrow> store \<Rightarrow> store_error + user_row" where
  "get_user uid s = ok_or (List.find (by_user_id uid) (users s)) StoreNotFound"

definition find_by_id_opt :: "uuid \<Rightarrow> store \<Rightarrow> user_row option" where
  "find_by_id_opt uid s = List.find (by_user_id uid) (users s)"

definition find_by_username :: "string \<Rightarrow> store \<Rightarrow> store_error + user_row" where
  "find_by_username username s = ok_or (List.find (\<lambda>u. u_username u = username) (users s)) StoreNotFound"

definition find_by_email_normalized :: "string \<Rightarrow> store \<Rightarrow> user_row option" where
  "find_by_email_normalized normalized s =
    List.find (\<lambda>u. u_email_normalized u = Some normalized) (users s)"

text \<open>\<open>UPDATE users SET .. WHERE id = ?\<close> with its affected-row count, and the same statement with
  \<open>NotFound\<close> on no row.\<close>

definition update_user :: "uuid \<Rightarrow> (user_row \<Rightarrow> user_row) \<Rightarrow> nat tx" where
  "update_user uid f s =
    Inr (affected (by_user_id uid) (users s), s\<lparr>users := update_where (by_user_id uid) f (users s)\<rparr>)"

definition update_existing_user :: "uuid \<Rightarrow> (user_row \<Rightarrow> user_row) \<Rightarrow> unit tx" where
  "update_existing_user uid f =
    tx_bind (update_user uid f) (\<lambda>n. if n = 0 then tx_fail StoreNotFound else tx_return ())"

definition read_user :: "uuid \<Rightarrow> user_row tx" where
  "read_user uid s = (case get_user uid s of Inl e \<Rightarrow> Inl e | Inr u \<Rightarrow> Inr (u, s))"

section \<open>Creation and profile\<close>

definition str_trim :: "string \<Rightarrow> string" where
  "str_trim s = concat (rev (dropWhile is_whitespace (rev (dropWhile is_whitespace (utf8_chars s)))))"

definition normalize_email :: "(string \<Rightarrow> string) \<Rightarrow> string \<Rightarrow> string" where
  "normalize_email lower input = lower (str_trim input)"

text \<open>The columns the statement does not list take their defaults.\<close>

definition inserted_user :: "(string \<Rightarrow> string) \<Rightarrow> user_row \<Rightarrow> user_row" where
  "inserted_user lower user =
    user\<lparr> u_email_normalized := map_option (normalize_email lower) (u_email user),
      u_email_verified_at := None, u_last_login_at := None, u_mfa_failure_count := 0,
      u_source := Local, u_external_stable_id := None \<rparr>"

definition users_clash :: "user_row \<Rightarrow> user_row \<Rightarrow> bool" where
  "users_clash a b =
    (u_id a = u_id b \<or> u_username a = u_username b \<or> u_user_uuid a = u_user_uuid b
     \<or> (u_email_normalized a \<noteq> None \<and> u_email_normalized a = u_email_normalized b))"

definition create_within_tx :: "(string \<Rightarrow> string) \<Rightarrow> user_row \<Rightarrow> unit tx" where
  "create_within_tx lower user s =
    (if list_ex (users_clash (inserted_user lower user)) (users s) then Inl StoreConflict
     else Inr ((), s\<lparr>users := users s @ [inserted_user lower user]\<rparr>))"

definition set_preferred_lang :: "uuid \<Rightarrow> string option \<Rightarrow> instant \<Rightarrow> unit tx" where
  "set_preferred_lang uid lang now =
    update_existing_user uid (\<lambda>u. u\<lparr> u_preferred_lang := lang, u_updated_at := now \<rparr>)"

text \<open>A clash with another row's normalised address is a constraint error of the database.\<close>

definition update_email :: "(string \<Rightarrow> string) \<Rightarrow> uuid \<Rightarrow> string option \<Rightarrow> instant \<Rightarrow> unit tx" where
  "update_email lower uid email now s =
    (let normalized = map_option (normalize_email lower) email in
     if (\<exists>u \<in> set (users s). u_id u = uid) \<and> normalized \<noteq> None
        \<and> list_ex (\<lambda>u. u_id u \<noteq> uid \<and> u_email_normalized u = normalized) (users s)
     then Inl (Db ''UNIQUE constraint failed: users.email_normalized'')
     else update_existing_user uid
       (\<lambda>u. u\<lparr> u_email := email, u_email_normalized := normalized, u_updated_at := now \<rparr>) s)"

section \<open>Flags and roles\<close>

definition set_disabled_within_tx :: "uuid \<Rightarrow> bool \<Rightarrow> instant \<Rightarrow> unit tx" where
  "set_disabled_within_tx uid disabled now =
    update_existing_user uid (\<lambda>u. u\<lparr> u_is_disabled := disabled, u_updated_at := now \<rparr>)"

definition soft_delete_within_tx :: "uuid \<Rightarrow> instant \<Rightarrow> unit tx" where
  "soft_delete_within_tx uid now =
    update_existing_user uid (\<lambda>u. u\<lparr> u_is_deleted := True, u_is_disabled := True, u_updated_at := now \<rparr>)"

definition user_active :: "user_row \<Rightarrow> bool" where
  "user_active u = (\<not> u_is_disabled u \<and> \<not> u_is_deleted u)"

definition is_active_within_tx :: "uuid \<Rightarrow> bool tx" where
  "is_active_within_tx uid = tx_bind (read_user uid) (\<lambda>u. tx_return (user_active u))"

definition is_active_local_within_tx :: "uuid \<Rightarrow> bool tx" where
  "is_active_local_within_tx uid =
    tx_bind (read_user uid) (\<lambda>u. tx_return (user_active u \<and> u_source u = Local))"

text \<open>\<open>datetime('now')\<close> has whole seconds.\<close>

definition set_role_within_tx :: "uuid \<Rightarrow> role \<Rightarrow> instant \<Rightarrow> unit tx" where
  "set_role_within_tx uid r now s =
    (let p = (\<lambda>u. u_id u = uid \<and> \<not> u_is_deleted u) in
     if affected p (users s) = 0 then Inl StoreNotFound
     else Inr ((), s\<lparr>users := update_where p
       (\<lambda>u. u\<lparr> u_role := r, u_is_admin := is_admin_role r, u_updated_at := seconds (timestamp now) \<rparr>) (users s)\<rparr>))"

definition get_role_within_tx :: "uuid \<Rightarrow> role tx" where
  "get_role_within_tx uid s =
    (case List.find (\<lambda>u. u_id u = uid \<and> \<not> u_is_deleted u) (users s) of
       None \<Rightarrow> Inl StoreNotFound
     | Some u \<Rightarrow> Inr (u_role u, s))"

definition count_admins_within_tx :: "nat tx" where
  "count_admins_within_tx =
    tx_get (\<lambda>s. affected (\<lambda>u. u_role u = Admin \<and> \<not> u_is_deleted u) (users s))"

section \<open>Failure counters and locks\<close>

definition MFA_FAILURE_LOCKOUT_THRESHOLD :: int where
  "MFA_FAILURE_LOCKOUT_THRESHOLD = 5"

definition record_login_failure_within_tx :: "uuid \<Rightarrow> instant option \<Rightarrow> instant \<Rightarrow> int tx" where
  "record_login_failure_within_tx uid lock_until now =
    tx_bind (read_user uid) (\<lambda>u.
      let new_count = u_failed_login_count u + 1 in
      tx_bind (update_user uid (\<lambda>u. u\<lparr> u_failed_login_count := new_count, u_locked_until := lock_until,
          u_updated_at := now \<rparr>)) (\<lambda>_. tx_return new_count))"

definition locked_at :: "instant \<Rightarrow> user_row \<Rightarrow> bool" where
  "locked_at now u = (case u_locked_until u of None \<Rightarrow> False | Some until \<Rightarrow> until > now)"

definition record_password_login_within_tx :: "uuid \<Rightarrow> instant \<Rightarrow> unit tx" where
  "record_password_login_within_tx uid now =
    tx_bind (read_user uid) (\<lambda>u.
      if u_is_disabled u \<or> u_is_deleted u \<or> locked_at now u then tx_fail StoreNotFound
      else tx_bind (update_user uid (\<lambda>u. u\<lparr> u_failed_login_count := 0, u_locked_until := None,
          u_updated_at := now, u_last_login_at := Some now \<rparr>)) (\<lambda>_. tx_return ()))"

definition record_second_factor_login_within_tx :: "uuid \<Rightarrow> instant \<Rightarrow> unit tx" where
  "record_second_factor_login_within_tx uid now =
    tx_bind (record_password_login_within_tx uid now) (\<lambda>_.
    tx_bind (update_user uid (\<lambda>u. u\<lparr> u_mfa_failure_count := 0 \<rparr>)) (\<lambda>_. tx_return ()))"

record password_lockout_cleared =
  password_failures :: int
  lock_lifted :: bool
  second_factor_lock_until :: "instant option"

definition cleared :: "password_lockout_cleared \<Rightarrow> bool" where
  "cleared c = (password_failures c > 0 \<or> lock_lifted c)"

definition cleared_attribute :: "password_lockout_cleared \<Rightarrow> int option" where
  "cleared_attribute c = (if cleared c then Some (password_failures c) else None)"

definition clear_password_lockout_within_tx :: "uuid \<Rightarrow> instant \<Rightarrow> password_lockout_cleared tx" where
  "clear_password_lockout_within_tx uid now =
    tx_bind (read_user uid) (\<lambda>u.
      let second_factor_may_hold_it = u_mfa_failure_count u \<ge> MFA_FAILURE_LOCKOUT_THRESHOLD;
          live = (if locked_at now u then u_locked_until u else None)
      in tx_bind
          (if second_factor_may_hold_it
           then update_user uid (\<lambda>u. u\<lparr> u_failed_login_count := 0, u_updated_at := now \<rparr>)
           else update_user uid (\<lambda>u. u\<lparr> u_failed_login_count := 0, u_locked_until := None, u_updated_at := now \<rparr>))
          (\<lambda>_. tx_return \<lparr> password_failures = u_failed_login_count u,
             lock_lifted = (\<not> second_factor_may_hold_it \<and> live \<noteq> None),
             second_factor_lock_until = (if second_factor_may_hold_it then live else None) \<rparr>))"

definition increment_mfa_failure_within_tx :: "uuid \<Rightarrow> int tx" where
  "increment_mfa_failure_within_tx uid =
    tx_bind (read_user uid) (\<lambda>u.
    tx_bind (update_user uid (\<lambda>u. u\<lparr> u_mfa_failure_count := u_mfa_failure_count u + 1 \<rparr>)) (\<lambda>_.
      tx_return (u_mfa_failure_count u + 1)))"

definition admin_unlock_within_tx :: "uuid \<Rightarrow> instant \<Rightarrow> unit tx" where
  "admin_unlock_within_tx uid now =
    update_existing_user uid (\<lambda>u. u\<lparr> u_failed_login_count := 0, u_mfa_failure_count := 0,
      u_locked_until := None, u_updated_at := now \<rparr>)"

section \<open>Facts about the user table\<close>

definition users_keyed :: "store \<Rightarrow> bool" where
  "users_keyed s = distinct (map u_id (users s))"

lemma by_user_id_upd [simp]:
  "by_user_id uid (u\<lparr>u_failed_login_count := a\<rparr>) = by_user_id uid u"
  "by_user_id uid (u\<lparr>u_locked_until := b\<rparr>) = by_user_id uid u"
  "by_user_id uid (u\<lparr>u_updated_at := c\<rparr>) = by_user_id uid u"
  "by_user_id uid (u\<lparr>u_mfa_failure_count := d\<rparr>) = by_user_id uid u"
  "by_user_id uid (u\<lparr>u_last_login_at := e\<rparr>) = by_user_id uid u"
  "by_user_id uid (u\<lparr>u_is_disabled := f\<rparr>) = by_user_id uid u"
  "by_user_id uid (u\<lparr>u_is_deleted := f\<rparr>) = by_user_id uid u"
  by (simp_all add: by_user_id_def)

lemma find_user_iff:
  assumes "users_keyed s"
  shows "List.find (by_user_id uid) (users s) = Some u \<longleftrightarrow> u \<in> set (users s) \<and> u_id u = uid"
  using assms find_distinct_key [of u_id "users s" u] find_Some_in [of "by_user_id uid" "users s" u]
  by (auto simp: users_keyed_def by_user_id_def [abs_def])

lemma read_user_Inr_iff [results]:
  "read_user uid s = Inr (u, s') \<longleftrightarrow> List.find (by_user_id uid) (users s) = Some u \<and> s' = s"
  by (auto simp: results read_user_def get_user_def split: option.splits sum.splits)

lemma read_user_simps [simp]:
  "List.find (by_user_id uid) (users s) = Some u \<Longrightarrow> read_user uid s = Inr (u, s)"
  "List.find (by_user_id uid) (users s) = None \<Longrightarrow> read_user uid s = Inl StoreNotFound"
  by (simp_all add: read_user_def get_user_def)

lemma update_user_Inr_iff [results]:
  "update_user uid f s = Inr (n, s') \<longleftrightarrow>
    n = affected (by_user_id uid) (users s) \<and> s' = s\<lparr>users := update_where (by_user_id uid) f (users s)\<rparr>"
  by (auto simp: update_user_def)

lemma update_existing_user_Inr_iff [results]:
  "update_existing_user uid f s = Inr (x, s') \<longleftrightarrow>
    (\<exists>u \<in> set (users s). u_id u = uid) \<and> s' = s\<lparr>users := update_where (by_user_id uid) f (users s)\<rparr>"
  by (auto simp: update_existing_user_def update_user_def affected_0_iff by_user_id_def)

lemma keeps_update_user [frame]:
  "(\<And>s us. part (s\<lparr>users := us\<rparr>) = part s) \<Longrightarrow> keeps part (update_user uid f)"
  by (simp add: keeps_def results)

lemma keeps_update_existing_user [frame]:
  "(\<And>s us. part (s\<lparr>users := us\<rparr>) = part s) \<Longrightarrow> keeps part (update_existing_user uid f)"
  by (simp add: keeps_def results)

lemma keeps_read_user [frame]: "keeps part (read_user uid)"
  by (simp add: keeps_def results)

lemma keeps_create [frame]:
  "(\<And>s us. part (s\<lparr>users := us\<rparr>) = part s) \<Longrightarrow> keeps part (create_within_tx lower u)"
  by (simp add: keeps_def create_within_tx_def)

lemma keeps_set_role [frame]:
  "(\<And>s us. part (s\<lparr>users := us\<rparr>) = part s) \<Longrightarrow> keeps part (set_role_within_tx uid r now)"
  by (simp add: keeps_def set_role_within_tx_def Let_def)

lemma keeps_get_role [frame]: "keeps part (get_role_within_tx uid)"
  by (simp add: keeps_def get_role_within_tx_def split: option.splits)

lemmas user_ops = set_disabled_within_tx_def soft_delete_within_tx_def is_active_within_tx_def
  is_active_local_within_tx_def record_login_failure_within_tx_def record_password_login_within_tx_def
  record_second_factor_login_within_tx_def clear_password_lockout_within_tx_def
  increment_mfa_failure_within_tx_def admin_unlock_within_tx_def count_admins_within_tx_def Let_def

text \<open>What a sign-in needs of the user row and does to it.\<close>

definition may_sign_in :: "instant \<Rightarrow> user_row \<Rightarrow> bool" where
  "may_sign_in now u = (user_active u \<and> \<not> locked_at now u)"

lemma record_password_login_Inr_iff:
  "record_password_login_within_tx uid now s = Inr (x, s') \<longleftrightarrow>
    (\<exists>u. List.find (by_user_id uid) (users s) = Some u \<and> may_sign_in now u) \<and>
    s' = s\<lparr>users := update_where (by_user_id uid) (\<lambda>u. u\<lparr> u_failed_login_count := 0, u_locked_until := None,
          u_updated_at := now, u_last_login_at := Some now \<rparr>) (users s)\<rparr>"
  by (auto simp: record_password_login_within_tx_def results may_sign_in_def user_active_def split: if_splits)

end
