(* ===== verification/Sessions.thy ===== *)
theory Sessions
  imports Users
begin

text \<open>
  The session repository (\<open>sui-id-store/src/repos/sessions.rs\<close>).  A session is active when it is
  neither revoked nor expired; \<open>ORDER BY created_at\<close> is a stable sort of the rows in rowid order.
\<close>

section \<open>Operations\<close>

definition by_session_id :: "uuid \<Rightarrow> session_row \<Rightarrow> bool" where
  "by_session_id sid r = (s_id r = sid)"

definition session_active :: "uuid \<Rightarrow> instant \<Rightarrow> session_row \<Rightarrow> bool" where
  "session_active uid now r = (s_user_id r = uid \<and> s_revoked_at r = None \<and> s_expires_at r > now)"

definition update_sessions :: "(session_row \<Rightarrow> bool) \<Rightarrow> (session_row \<Rightarrow> session_row) \<Rightarrow> nat tx" where
  "update_sessions p f s = Inr (affected p (sessions s), s\<lparr>sessions := update_where p f (sessions s)\<rparr>)"

definition session_insert_within_tx :: "session_row \<Rightarrow> unit tx" where
  "session_insert_within_tx r s =
    (if list_ex (\<lambda>q. s_id q = s_id r) (sessions s)
     then Inl (Db ''UNIQUE constraint failed: sessions.id'')
     else Inr ((), s\<lparr>sessions := sessions s @
       [r\<lparr> s_last_step_up_method := None, s_step_up_failure_count := 0 \<rparr>]\<rparr>))"

definition get_session :: "uuid \<Rightarrow> store \<Rightarrow> store_error + session_row" where
  "get_session sid s = ok_or (List.find (by_session_id sid) (sessions s)) StoreNotFound"

definition get_with_user_active :: "uuid \<Rightarrow> store \<Rightarrow> store_error + session_row \<times> bool" where
  "get_with_user_active sid s =
    (case List.find (by_session_id sid) (sessions s) of
       None \<Rightarrow> Inl StoreNotFound
     | Some r \<Rightarrow>
        (case List.find (by_user_id (s_user_id r)) (users s) of
           None \<Rightarrow> Inl StoreNotFound
         | Some u \<Rightarrow> Inr (r, user_active u)))"

definition session_revoke_within_tx :: "uuid \<Rightarrow> instant \<Rightarrow> nat tx" where
  "session_revoke_within_tx sid now =
    update_sessions (\<lambda>r. s_id r = sid \<and> s_revoked_at r = None) (\<lambda>r. r\<lparr>s_revoked_at := Some now\<rparr>)"

definition session_revoke_all_for_user_within_tx :: "uuid \<Rightarrow> instant \<Rightarrow> nat tx" where
  "session_revoke_all_for_user_within_tx uid now =
    update_sessions (\<lambda>r. s_user_id r = uid \<and> s_revoked_at r = None) (\<lambda>r. r\<lparr>s_revoked_at := Some now\<rparr>)"

definition session_revoke_all_for_user_except_within_tx :: "uuid \<Rightarrow> uuid \<Rightarrow> instant \<Rightarrow> nat tx" where
  "session_revoke_all_for_user_except_within_tx uid keep now =
    update_sessions (\<lambda>r. s_user_id r = uid \<and> s_id r \<noteq> keep \<and> s_revoked_at r = None)
      (\<lambda>r. r\<lparr>s_revoked_at := Some now\<rparr>)"

definition increment_step_up_failure_within_tx :: "uuid \<Rightarrow> uuid \<Rightarrow> int tx" where
  "increment_step_up_failure_within_tx sid uid =
    tx_bind (update_sessions (\<lambda>r. s_id r = sid \<and> s_user_id r = uid \<and> s_revoked_at r = None)
        (\<lambda>r. r\<lparr>s_step_up_failure_count := s_step_up_failure_count r + 1\<rparr>)) (\<lambda>n.
      if n = 0 then tx_fail StoreNotFound
      else tx_bind (tx_get (\<lambda>s. List.find (by_session_id sid) (sessions s))) (\<lambda>found.
        case found of
          None \<Rightarrow> tx_fail (Db ''Query returned no rows'')
        | Some r \<Rightarrow> tx_return (s_step_up_failure_count r)))"

definition session_purge_expired :: "instant \<Rightarrow> nat tx" where
  "session_purge_expired now s =
    Inr (affected (\<lambda>r. s_expires_at r < now) (sessions s),
      s\<lparr>sessions := delete_where (\<lambda>r. s_expires_at r < now) (sessions s)\<rparr>)"

definition list_active_for_user :: "uuid \<Rightarrow> instant \<Rightarrow> store \<Rightarrow> session_row list" where
  "list_active_for_user uid now s =
    sort_key (\<lambda>r. - s_created_at r) (filter (session_active uid now) (sessions s))"

definition set_step_up_method_within_tx :: "uuid \<Rightarrow> string \<Rightarrow> unit tx" where
  "set_step_up_method_within_tx sid meth =
    tx_bind (update_sessions (by_session_id sid) (\<lambda>r. r\<lparr>s_last_step_up_method := Some meth\<rparr>)) (\<lambda>_. tx_return ())"

definition session_live :: "uuid \<Rightarrow> uuid \<Rightarrow> instant \<Rightarrow> store \<Rightarrow> bool" where
  "session_live sid uid now s =
    (case get_with_user_active sid s of
       Inl _ \<Rightarrow> False
     | Inr (r, active) \<Rightarrow> s_user_id r = uid \<and> s_revoked_at r = None \<and> s_expires_at r > now \<and> active)"

definition require_live_session_within_tx :: "uuid \<Rightarrow> uuid \<Rightarrow> instant \<Rightarrow> unit tx" where
  "require_live_session_within_tx sid uid now s =
    (if session_live sid uid now s then Inr ((), s) else Inl StoreNotFound)"

definition record_step_up_within_tx :: "uuid \<Rightarrow> string \<Rightarrow> instant \<Rightarrow> unit tx" where
  "record_step_up_within_tx sid meth at =
    tx_bind (update_sessions (by_session_id sid) (\<lambda>r. r\<lparr> s_last_step_up_at := Some at,
        s_last_step_up_method := Some meth, s_step_up_failure_count := 0 \<rparr>)) (\<lambda>_. tx_return ())"

definition session_touch_last_used :: "uuid \<Rightarrow> instant \<Rightarrow> unit tx" where
  "session_touch_last_used sid at =
    tx_bind (update_sessions (by_session_id sid) (\<lambda>r. r\<lparr>s_last_used_at := Some at\<rparr>)) (\<lambda>_. tx_return ())"

definition count_active_for_user_within_tx :: "uuid \<Rightarrow> instant \<Rightarrow> int tx" where
  "count_active_for_user_within_tx uid now = tx_get (\<lambda>s. int (affected (session_active uid now) (sessions s)))"

text \<open>A negative \<open>LIMIT\<close> means no limit in SQLite; the caller only passes positive ones.\<close>

definition oldest_active_for_user_within_tx :: "uuid \<Rightarrow> instant \<Rightarrow> int \<Rightarrow> session_row list tx" where
  "oldest_active_for_user_within_tx uid now limit =
    tx_get (\<lambda>s. let rows = sort_key s_created_at (filter (session_active uid now) (sessions s))
                in if limit < 0 then rows else take (nat limit) rows)"

section \<open>Facts\<close>

definition sessions_keyed :: "store \<Rightarrow> bool" where
  "sessions_keyed s = distinct (map s_id (sessions s))"

lemma update_sessions_Inr_iff [results]:
  "update_sessions p f s = Inr (n, s') \<longleftrightarrow>
    n = affected p (sessions s) \<and> s' = s\<lparr>sessions := update_where p f (sessions s)\<rparr>"
  by (auto simp: update_sessions_def)

lemma keeps_update_sessions [frame]:
  "(\<And>s rs. part (s\<lparr>sessions := rs\<rparr>) = part s) \<Longrightarrow> keeps part (update_sessions p f)"
  by (simp add: keeps_def results)

lemma keeps_session_insert [frame]:
  "(\<And>s rs. part (s\<lparr>sessions := rs\<rparr>) = part s) \<Longrightarrow> keeps part (session_insert_within_tx r)"
  by (simp add: keeps_def session_insert_within_tx_def)

lemma keeps_require_live [frame]: "keeps part (require_live_session_within_tx sid uid now)"
  by (simp add: keeps_def require_live_session_within_tx_def)

lemma keeps_oldest [frame]: "keeps part (oldest_active_for_user_within_tx uid now limit)"
  unfolding oldest_active_for_user_within_tx_def by (rule keeps_get)

lemma keeps_count_active [frame]: "keeps part (count_active_for_user_within_tx uid now)"
  unfolding count_active_for_user_within_tx_def by (rule keeps_get)

lemma require_live_Inr_iff [results]:
  "require_live_session_within_tx sid uid now s = Inr (x, s') \<longleftrightarrow> session_live sid uid now s \<and> s' = s"
  by (auto simp: require_live_session_within_tx_def)

lemma session_liveD:
  assumes "session_live sid uid now s"
  obtains r u where "List.find (by_session_id sid) (sessions s) = Some r"
    "List.find (by_user_id uid) (users s) = Some u" "user_active u"
    "s_user_id r = uid" "s_revoked_at r = None" "s_expires_at r > now"
  using assms that
  by (auto simp: session_live_def get_with_user_active_def split: option.splits sum.splits)

lemmas session_ops = session_revoke_within_tx_def session_revoke_all_for_user_within_tx_def
  session_revoke_all_for_user_except_within_tx_def increment_step_up_failure_within_tx_def
  set_step_up_method_within_tx_def record_step_up_within_tx_def session_touch_last_used_def

text \<open>A step-up failure is counted on the one live row of the session.\<close>

lemma increment_step_up_Inr_iff:
  assumes "sessions_keyed s"
  shows "increment_step_up_failure_within_tx sid uid s = Inr (n, s') \<longleftrightarrow>
    (\<exists>r \<in> set (sessions s). s_id r = sid \<and> s_user_id r = uid \<and> s_revoked_at r = None
      \<and> n = s_step_up_failure_count r + 1
      \<and> s' = s\<lparr>sessions := update_where (\<lambda>q. s_id q = sid \<and> s_user_id q = uid \<and> s_revoked_at q = None)
           (\<lambda>q. q\<lparr>s_step_up_failure_count := s_step_up_failure_count q + 1\<rparr>) (sessions s)\<rparr>)"
    (is "?l = (\<exists>r \<in> _. ?P r)")
proof -
  let ?p = "\<lambda>q. s_id q = sid \<and> s_user_id q = uid \<and> s_revoked_at q = None"
  let ?f = "\<lambda>q. q\<lparr>s_step_up_failure_count := s_step_up_failure_count q + 1\<rparr>"
  have found: "List.find (by_session_id sid) (update_where ?p ?f (sessions s)) = Some (?f r)"
    if "r \<in> set (sessions s)" "?p r" for r
  proof -
    have "List.find (by_session_id sid) (sessions s) = Some r"
      using that assms find_distinct_key [of s_id "sessions s" r]
      by (simp add: sessions_keyed_def by_session_id_def [abs_def])
    then show ?thesis
      using that by (subst find_update_where) (simp_all add: by_session_id_def)
  qed
  show ?thesis
  proof
    assume l: ?l
    then obtain r where r: "r \<in> set (sessions s)" "?p r"
      by (auto simp: increment_step_up_failure_within_tx_def results affected_0_iff split: if_splits)
    then show "\<exists>r \<in> set (sessions s). ?P r"
      using l found [OF r]
      by (intro bexI [of _ r]) (auto simp: increment_step_up_failure_within_tx_def results split: if_splits)
  next
    assume "\<exists>r \<in> set (sessions s). ?P r"
    then obtain r where r: "r \<in> set (sessions s)" "?p r" and P: "?P r"
      by blast
    then have "affected ?p (sessions s) \<noteq> 0"
      by (auto simp: affected_0_iff)
    then show ?l
      using P found [OF r]
      by (simp add: increment_step_up_failure_within_tx_def tx_bind_def update_sessions_def)
  qed
qed

end
