(* ===== verification/Crypto.thy ===== *)
theory Crypto
  imports Audit_Chain
begin

text \<open>
  \<open>sui-id-store/src/crypto.rs\<close> and the digest newtypes of \<open>sui-id-shared/src/secrets.rs\<close>.  The AEAD
  itself (XChaCha20-Poly1305) is a library; its two operations take key, nonce and associated data
  and are fields of \<open>aead_env\<close>, together with the master key the database was opened with.
\<close>

record aead_env =
  master_key :: string
  xchacha_encrypt :: "string \<Rightarrow> string \<Rightarrow> string \<Rightarrow> string \<Rightarrow> string option"
  xchacha_decrypt :: "string \<Rightarrow> string \<Rightarrow> string \<Rightarrow> string \<Rightarrow> string option"

definition NONCE_LEN :: nat where
  "NONCE_LEN = 24"

text \<open>\<open>nonce\<close> is the 24 random bytes the function draws.\<close>

definition seal :: "aead_env \<Rightarrow> string \<Rightarrow> string \<Rightarrow> string \<Rightarrow> string \<Rightarrow> store_error + string" where
  "seal ae key nonce plaintext aad =
    (case xchacha_encrypt ae key nonce aad plaintext of
       None \<Rightarrow> Inl Crypto
     | Some ct \<Rightarrow> Inr (nonce @ ct))"

definition open_sealed :: "aead_env \<Rightarrow> string \<Rightarrow> string \<Rightarrow> string \<Rightarrow> store_error + string" where
  "open_sealed ae key sealed aad =
    (if length sealed < NONCE_LEN + 16 then Inl Crypto
     else (case xchacha_decrypt ae key (take NONCE_LEN sealed) aad (drop NONCE_LEN sealed) of
             None \<Rightarrow> Inl Crypto
           | Some p \<Rightarrow> Inr p))"

text \<open>The documented behaviour of the AEAD: what was encrypted decrypts under the same key, nonce and
  associated data, and a ciphertext carries a 16-byte tag.\<close>

definition aead_ok :: "aead_env \<Rightarrow> bool" where
  "aead_ok ae =
    (\<forall>key nonce aad m c. xchacha_encrypt ae key nonce aad m = Some c \<longrightarrow>
      xchacha_decrypt ae key nonce aad c = Some m \<and> length c = length m + 16)"

lemma open_seal:
  assumes "aead_ok ae" "length nonce = NONCE_LEN" "seal ae key nonce m aad = Inr c"
  shows "open_sealed ae key c aad = Inr m"
  using assms by (auto simp: seal_def open_sealed_def aead_ok_def split: option.splits)

definition refresh_token_hash :: "digest_env \<Rightarrow> string \<Rightarrow> string" where
  "refresh_token_hash cx token = sha256 cx token"

definition code_hash_of :: "digest_env \<Rightarrow> string \<Rightarrow> string" where
  "code_hash_of cx code = hex_lower (sha256 cx code)"

definition family_root_of :: "string \<Rightarrow> string" where
  "family_root_of token_id = token_id"

end
