(* ===== verification/Factors.thy ===== *)
theory Factors
  imports Users Crypto
begin

text \<open>
  The repositories around a user's credentials: password hashes (\<open>credentials.rs\<close>), TOTP enrolments
  (\<open>user_totp.rs\<close>), passkeys (\<open>user_webauthn_credentials.rs\<close>), the short-lived sign-in and ceremony
  rows (\<open>login_pending_mfa.rs\<close>, \<open>webauthn_pending.rs\<close>), recovery tokens
  (\<open>password_reset_tokens.rs\<close>) and the settings row (\<open>server_settings.rs\<close>).
\<close>

definition found_or :: "store_error \<Rightarrow> nat \<Rightarrow> store \<Rightarrow> store_error + unit \<times> store" where
  "found_or e n s' = (if n = 0 then Inl e else Inr ((), s'))"

lemma found_or_Inr_iff [results]: "found_or e n s' = Inr (x, t) \<longleftrightarrow> n \<noteq> 0 \<and> t = s'"
  by (auto simp: found_or_def)

section \<open>Password hashes\<close>

definition credential_get :: "uuid \<Rightarrow> store \<Rightarrow> store_error + credential_row" where
  "credential_get uid s = ok_or (List.find (\<lambda>c. cr_user_id c = uid) (credentials s)) StoreNotFound"

definition credential_upsert_within_tx :: "credential_row \<Rightarrow> unit tx" where
  "credential_upsert_within_tx cred s =
    Inr ((), s\<lparr>credentials :=
      (if list_ex (\<lambda>c. cr_user_id c = cr_user_id cred) (credentials s)
       then update_where (\<lambda>c. cr_user_id c = cr_user_id cred)
         (\<lambda>c. c\<lparr> cr_password_hash := cr_password_hash cred, cr_updated_at := cr_updated_at cred \<rparr>) (credentials s)
       else credentials s @ [cred])\<rparr>)"

text \<open>The credentials after an upsert.\<close>

definition upserted :: "credential_row \<Rightarrow> credential_row list \<Rightarrow> credential_row list" where
  "upserted cred creds =
    (if list_ex (\<lambda>c. cr_user_id c = cr_user_id cred) creds
     then update_where (\<lambda>c. cr_user_id c = cr_user_id cred) (\<lambda>_. cred) creds
     else creds @ [cred])"

lemma credential_upsert_eq:
  "credential_upsert_within_tx cred s = Inr ((), s\<lparr>credentials := upserted cred (credentials s)\<rparr>)"
proof -
  have "update_where (\<lambda>c. cr_user_id c = cr_user_id cred)
      (\<lambda>c. c\<lparr> cr_password_hash := cr_password_hash cred, cr_updated_at := cr_updated_at cred \<rparr>) creds
    = update_where (\<lambda>c. cr_user_id c = cr_user_id cred) (\<lambda>_. cred) creds" for creds
    by (rule update_where_cong) simp
  then show ?thesis
    by (simp add: credential_upsert_within_tx_def upserted_def)
qed

lemma upserted_only:
  assumes "c \<in> set (upserted cred creds)" "cr_user_id c = cr_user_id cred"
  shows "c = cred"
  using assms by (auto simp: upserted_def set_update_where list_ex_iff split: if_splits)

lemma upserted_in: "cred \<in> set (upserted cred creds)"
  by (auto simp: upserted_def set_update_where list_ex_iff)

section \<open>TOTP enrolments\<close>

definition TOTP_AAD :: string where
  "TOTP_AAD = ''sui-id/user_totp/v1''"

definition RECOVERY_AAD :: string where
  "RECOVERY_AAD = ''sui-id/user_totp/recovery/v1''"

definition totp_get :: "uuid \<Rightarrow> store \<Rightarrow> user_totp_row option" where
  "totp_get uid s = List.find (\<lambda>t. ut_user_id t = uid) (user_totps s)"

text \<open>\<open>INSERT OR REPLACE\<close> removes the old row and appends the new one.\<close>

definition totp_upsert_pending :: "aead_env \<Rightarrow> string \<Rightarrow> uuid \<Rightarrow> string \<Rightarrow> instant \<Rightarrow> unit tx" where
  "totp_upsert_pending ae nonce uid plaintext_secret now s =
    (case seal ae (master_key ae) nonce plaintext_secret TOTP_AAD of
       Inl e \<Rightarrow> Inl e
     | Inr enc \<Rightarrow> Inr ((), s\<lparr>user_totps := delete_where (\<lambda>t. ut_user_id t = uid) (user_totps s) @
         [\<lparr> ut_user_id = uid, ut_secret_enc = enc, ut_enabled = False, ut_recovery_codes_enc = None,
            ut_last_used_step = 0, ut_created_at = now, ut_confirmed_at = None \<rparr>]\<rparr>))"

definition decrypt_secret :: "aead_env \<Rightarrow> user_totp_row \<Rightarrow> store_error + string" where
  "decrypt_secret ae row = open_sealed ae (master_key ae) (ut_secret_enc row) TOTP_AAD"

definition decrypt_recovery_codes :: "aead_env \<Rightarrow> user_totp_row \<Rightarrow> store_error + string option" where
  "decrypt_recovery_codes ae row =
    (case ut_recovery_codes_enc row of
       None \<Rightarrow> Inr None
     | Some blob \<Rightarrow>
        (case open_sealed ae (master_key ae) blob RECOVERY_AAD of Inl e \<Rightarrow> Inl e | Inr p \<Rightarrow> Inr (Some p)))"

definition seal_recovery_codes :: "aead_env \<Rightarrow> string \<Rightarrow> string \<Rightarrow> store_error + string" where
  "seal_recovery_codes ae nonce json = seal ae (master_key ae) nonce json RECOVERY_AAD"

definition update_totp :: "(user_totp_row \<Rightarrow> bool) \<Rightarrow> (user_totp_row \<Rightarrow> user_totp_row) \<Rightarrow> unit tx" where
  "update_totp p f s =
    found_or StoreNotFound (affected p (user_totps s)) (s\<lparr>user_totps := update_where p f (user_totps s)\<rparr>)"

definition confirm_with_recovery_within_tx :: "uuid \<Rightarrow> string \<Rightarrow> int \<Rightarrow> instant \<Rightarrow> unit tx" where
  "confirm_with_recovery_within_tx uid sealed last_used_step now =
    update_totp (\<lambda>t. ut_user_id t = uid \<and> \<not> ut_enabled t)
      (\<lambda>t. t\<lparr> ut_enabled := True, ut_recovery_codes_enc := Some sealed, ut_confirmed_at := Some now,
        ut_last_used_step := last_used_step \<rparr>)"

definition set_recovery_codes_within_tx :: "uuid \<Rightarrow> string \<Rightarrow> unit tx" where
  "set_recovery_codes_within_tx uid sealed =
    update_totp (\<lambda>t. ut_user_id t = uid \<and> ut_enabled t) (\<lambda>t. t\<lparr> ut_recovery_codes_enc := Some sealed \<rparr>)"

definition advance_last_used_step_within_tx :: "uuid \<Rightarrow> int \<Rightarrow> unit tx" where
  "advance_last_used_step_within_tx uid step =
    update_totp (\<lambda>t. ut_user_id t = uid \<and> ut_enabled t \<and> ut_last_used_step t < step)
      (\<lambda>t. t\<lparr> ut_last_used_step := step \<rparr>)"

definition swap_recovery_codes_within_tx :: "uuid \<Rightarrow> string \<Rightarrow> string \<Rightarrow> unit tx" where
  "swap_recovery_codes_within_tx uid expected_sealed new_sealed =
    update_totp (\<lambda>t. ut_user_id t = uid \<and> ut_enabled t \<and> ut_recovery_codes_enc t = Some expected_sealed)
      (\<lambda>t. t\<lparr> ut_recovery_codes_enc := Some new_sealed \<rparr>)"

definition totp_delete_within_tx :: "uuid \<Rightarrow> bool tx" where
  "totp_delete_within_tx uid s =
    Inr (affected (\<lambda>t. ut_user_id t = uid) (user_totps s) > 0,
      s\<lparr>user_totps := delete_where (\<lambda>t. ut_user_id t = uid) (user_totps s)\<rparr>)"

section \<open>Passkeys\<close>

definition webauthn_list_for_user_within_tx :: "uuid \<Rightarrow> user_webauthn_credential_row list tx" where
  "webauthn_list_for_user_within_tx uid =
    tx_get (\<lambda>s. sort_key wc_created_at (filter (\<lambda>c. wc_user_id c = uid) (webauthn_credentials s)))"

definition webauthn_has_any :: "uuid \<Rightarrow> store \<Rightarrow> bool" where
  "webauthn_has_any uid s = (affected (\<lambda>c. wc_user_id c = uid) (webauthn_credentials s) > 0)"

definition webauthn_create_within_tx :: "user_webauthn_credential_row \<Rightarrow> unit tx" where
  "webauthn_create_within_tx row s =
    (if list_ex (\<lambda>c. wc_id c = wc_id row \<or> wc_credential_id c = wc_credential_id row) (webauthn_credentials s)
     then Inl StoreConflict
     else Inr ((), s\<lparr>webauthn_credentials := webauthn_credentials s @ [row]\<rparr>))"

definition swap_passkey_within_tx :: "uuid \<Rightarrow> string \<Rightarrow> string \<Rightarrow> instant \<Rightarrow> unit tx" where
  "swap_passkey_within_tx wid expected_sealed new_sealed now s =
    (let p = (\<lambda>c. wc_id c = wid \<and> wc_passkey_enc c = expected_sealed) in
     found_or StoreNotFound (affected p (webauthn_credentials s))
       (s\<lparr>webauthn_credentials := update_where p
          (\<lambda>c. c\<lparr> wc_passkey_enc := new_sealed, wc_last_used_at := Some now \<rparr>) (webauthn_credentials s)\<rparr>))"

definition webauthn_delete_within_tx :: "uuid \<Rightarrow> uuid \<Rightarrow> unit tx" where
  "webauthn_delete_within_tx wid uid s =
    (let p = (\<lambda>c. wc_id c = wid \<and> wc_user_id c = uid) in
     found_or StoreNotFound (affected p (webauthn_credentials s))
       (s\<lparr>webauthn_credentials := delete_where p (webauthn_credentials s)\<rparr>))"

definition has_mfa :: "uuid \<Rightarrow> store \<Rightarrow> bool" where
  "has_mfa uid s =
    (affected (\<lambda>t. ut_user_id t = uid \<and> ut_enabled t) (user_totps s)
     + affected (\<lambda>c. wc_user_id c = uid) (webauthn_credentials s) > 0)"

section \<open>Pending sign-ins and ceremonies\<close>

definition pending_mfa_insert :: "login_pending_mfa_row \<Rightarrow> unit tx" where
  "pending_mfa_insert row s =
    (if list_ex (\<lambda>r. pm_id r = pm_id row) (login_pending_mfas s)
     then Inl (Db ''UNIQUE constraint failed: login_pending_mfa.id'')
     else Inr ((), s\<lparr>login_pending_mfas := login_pending_mfas s @ [row]\<rparr>))"

definition pending_mfa_get :: "uuid \<Rightarrow> store \<Rightarrow> login_pending_mfa_row option" where
  "pending_mfa_get pid s = List.find (\<lambda>r. pm_id r = pid) (login_pending_mfas s)"

definition pending_live :: "uuid \<Rightarrow> uuid \<Rightarrow> instant \<Rightarrow> login_pending_mfa_row \<Rightarrow> bool" where
  "pending_live pid uid now r = (pm_id r = pid \<and> pm_user_id r = uid \<and> pm_expires_at r > now)"

definition pending_mfa_consume_within_tx :: "uuid \<Rightarrow> uuid \<Rightarrow> instant \<Rightarrow> unit tx" where
  "pending_mfa_consume_within_tx pid uid now s =
    found_or StoreNotFound (affected (pending_live pid uid now) (login_pending_mfas s))
      (s\<lparr>login_pending_mfas := delete_where (pending_live pid uid now) (login_pending_mfas s)\<rparr>)"

definition pending_mfa_delete_all_for_user_within_tx :: "uuid \<Rightarrow> nat tx" where
  "pending_mfa_delete_all_for_user_within_tx uid s =
    Inr (affected (\<lambda>r. pm_user_id r = uid) (login_pending_mfas s),
      s\<lparr>login_pending_mfas := delete_where (\<lambda>r. pm_user_id r = uid) (login_pending_mfas s)\<rparr>)"

definition pending_mfa_delete :: "uuid \<Rightarrow> unit tx" where
  "pending_mfa_delete pid s =
    found_or StoreNotFound (affected (\<lambda>r. pm_id r = pid) (login_pending_mfas s))
      (s\<lparr>login_pending_mfas := delete_where (\<lambda>r. pm_id r = pid) (login_pending_mfas s)\<rparr>)"

definition pending_mfa_purge_expired :: "instant \<Rightarrow> nat tx" where
  "pending_mfa_purge_expired now s =
    Inr (affected (\<lambda>r. pm_expires_at r < now) (login_pending_mfas s),
      s\<lparr>login_pending_mfas := delete_where (\<lambda>r. pm_expires_at r < now) (login_pending_mfas s)\<rparr>)"

definition ceremony_live :: "uuid \<Rightarrow> uuid \<Rightarrow> instant \<Rightarrow> webauthn_pending_row \<Rightarrow> bool" where
  "ceremony_live wid uid now r =
    (wp_id r = wid \<and> wp_user_id r = Some uid \<and> wp_kind r = KindStepUp \<and> wp_expires_at r > now)"

definition consume_step_up_within_tx :: "uuid \<Rightarrow> uuid \<Rightarrow> instant \<Rightarrow> unit tx" where
  "consume_step_up_within_tx wid uid now s =
    found_or StoreNotFound (affected (ceremony_live wid uid now) (webauthn_pendings s))
      (s\<lparr>webauthn_pendings := delete_where (ceremony_live wid uid now) (webauthn_pendings s)\<rparr>)"

section \<open>Recovery tokens\<close>

definition reset_insert_with_within_tx :: "password_reset_token_row \<Rightarrow> bool \<Rightarrow> unit tx" where
  "reset_insert_with_within_tx row provisioning s =
    (if list_ex (\<lambda>r. prt_id r = prt_id row \<or> prt_token_hash r = prt_token_hash row) (password_reset_tokens s)
     then Inl StoreConflict
     else Inr ((), s\<lparr>password_reset_tokens :=
       password_reset_tokens s @ [row\<lparr> prt_provisioning := provisioning \<rparr>]\<rparr>))"

definition reset_find_by_hash :: "string \<Rightarrow> store \<Rightarrow> password_reset_token_row option" where
  "reset_find_by_hash h s = List.find (\<lambda>r. prt_token_hash r = h) (password_reset_tokens s)"

definition reset_outstanding :: "instant \<Rightarrow> password_reset_token_row \<Rightarrow> bool" where
  "reset_outstanding now r = (prt_consumed_at r = None \<and> prt_revoked_at r = None \<and> prt_expires_at r > now)"

definition mark_consumed_within_tx :: "uuid \<Rightarrow> instant \<Rightarrow> unit tx" where
  "mark_consumed_within_tx rid consumed_at s =
    (let p = (\<lambda>r. prt_id r = rid \<and> reset_outstanding consumed_at r) in
     found_or StoreNotFound (affected p (password_reset_tokens s))
       (s\<lparr>password_reset_tokens :=
          update_where p (\<lambda>r. r\<lparr> prt_consumed_at := Some consumed_at \<rparr>) (password_reset_tokens s)\<rparr>))"

definition reset_delete_expired :: "instant \<Rightarrow> nat tx" where
  "reset_delete_expired before s =
    Inr (affected (\<lambda>r. prt_expires_at r < before) (password_reset_tokens s),
      s\<lparr>password_reset_tokens := delete_where (\<lambda>r. prt_expires_at r < before) (password_reset_tokens s)\<rparr>)"

definition revoke_outstanding_for_user_within_tx :: "uuid \<Rightarrow> uuid option \<Rightarrow> instant \<Rightarrow> nat tx" where
  "revoke_outstanding_for_user_within_tx uid except now s =
    (let p = (\<lambda>r. prt_user_id r = uid \<and> reset_outstanding now r \<and> (except = None \<or> Some (prt_id r) \<noteq> except)) in
     Inr (affected p (password_reset_tokens s),
       s\<lparr>password_reset_tokens := update_where p (\<lambda>r. r\<lparr> prt_revoked_at := Some now \<rparr>) (password_reset_tokens s)\<rparr>))"

definition count_issued_by_within_tx :: "uuid \<Rightarrow> instant \<Rightarrow> bool \<Rightarrow> int tx" where
  "count_issued_by_within_tx admin since provisioning =
    tx_get (\<lambda>s. int (affected (\<lambda>r. prt_issued_by r = Some admin \<and> prt_issued_via r = OriginWeb
      \<and> prt_issued_at r > since \<and> prt_provisioning r = provisioning) (password_reset_tokens s)))"

definition count_issued_via_cli_within_tx :: "instant \<Rightarrow> bool \<Rightarrow> int tx" where
  "count_issued_via_cli_within_tx since provisioning =
    tx_get (\<lambda>s. int (affected (\<lambda>r. prt_issued_via r = OriginCli
      \<and> prt_issued_at r > since \<and> prt_provisioning r = provisioning) (password_reset_tokens s)))"

definition origin_within_tx :: "uuid \<Rightarrow> reset_token_origin tx" where
  "origin_within_tx rid s =
    (case List.find (\<lambda>r. prt_id r = rid) (password_reset_tokens s) of
       None \<Rightarrow> Inl StoreNotFound
     | Some r \<Rightarrow> Inr (prt_issued_via r, s))"

section \<open>Settings\<close>

definition settings_get_within_tx :: "server_settings_row tx" where
  "settings_get_within_tx s =
    (case server_settings s of None \<Rightarrow> Inl StoreNotFound | Some row \<Rightarrow> Inr (row, s))"

section \<open>Frames\<close>

lemma keeps_credential_upsert [frame]:
  "(\<And>s x. part (s\<lparr>credentials := x\<rparr>) = part s) \<Longrightarrow> keeps part (credential_upsert_within_tx c)"
  by (simp add: keeps_def credential_upsert_within_tx_def)

lemma update_totp_Inr_iff [results]:
  "update_totp p f s = Inr (x, s') \<longleftrightarrow>
    (\<exists>t \<in> set (user_totps s). p t) \<and> s' = s\<lparr>user_totps := update_where p f (user_totps s)\<rparr>"
  by (auto simp: update_totp_def results affected_0_iff)

lemma keeps_update_totp [frame]:
  "(\<And>s x. part (s\<lparr>user_totps := x\<rparr>) = part s) \<Longrightarrow> keeps part (update_totp p f)"
  by (simp add: keeps_def results)

lemma keeps_totp_delete [frame]:
  "(\<And>s x. part (s\<lparr>user_totps := x\<rparr>) = part s) \<Longrightarrow> keeps part (totp_delete_within_tx uid)"
  by (simp add: keeps_def totp_delete_within_tx_def)

lemma keeps_webauthn_list [frame]: "keeps part (webauthn_list_for_user_within_tx uid)"
  unfolding webauthn_list_for_user_within_tx_def by (rule keeps_get)

lemma keeps_webauthn_delete [frame]:
  "(\<And>s x. part (s\<lparr>webauthn_credentials := x\<rparr>) = part s) \<Longrightarrow> keeps part (webauthn_delete_within_tx wid uid)"
  by (simp add: keeps_def webauthn_delete_within_tx_def Let_def results)

lemma pending_mfa_consume_Inr_iff [results]:
  "pending_mfa_consume_within_tx pid uid now s = Inr (x, s') \<longleftrightarrow>
    (\<exists>r \<in> set (login_pending_mfas s). pending_live pid uid now r) \<and>
    s' = s\<lparr>login_pending_mfas := delete_where (pending_live pid uid now) (login_pending_mfas s)\<rparr>"
  by (auto simp: pending_mfa_consume_within_tx_def results affected_0_iff)

lemma keeps_pending_mfa_consume [frame]:
  "(\<And>s x. part (s\<lparr>login_pending_mfas := x\<rparr>) = part s) \<Longrightarrow> keeps part (pending_mfa_consume_within_tx pid uid now)"
  by (simp add: keeps_def results)

lemma keeps_pending_mfa_delete_all [frame]:
  "(\<And>s x. part (s\<lparr>login_pending_mfas := x\<rparr>) = part s) \<Longrightarrow> keeps part (pending_mfa_delete_all_for_user_within_tx uid)"
  by (simp add: keeps_def pending_mfa_delete_all_for_user_within_tx_def)

lemma consume_step_up_Inr_iff [results]:
  "consume_step_up_within_tx wid uid now s = Inr (x, s') \<longleftrightarrow>
    (\<exists>r \<in> set (webauthn_pendings s). ceremony_live wid uid now r) \<and>
    s' = s\<lparr>webauthn_pendings := delete_where (ceremony_live wid uid now) (webauthn_pendings s)\<rparr>"
  by (auto simp: consume_step_up_within_tx_def results affected_0_iff)

lemma keeps_consume_step_up [frame]:
  "(\<And>s x. part (s\<lparr>webauthn_pendings := x\<rparr>) = part s) \<Longrightarrow> keeps part (consume_step_up_within_tx wid uid now)"
  by (simp add: keeps_def results)

lemma mark_consumed_Inr_iff [results]:
  "mark_consumed_within_tx rid at s = Inr (x, s') \<longleftrightarrow>
    (\<exists>r \<in> set (password_reset_tokens s). prt_id r = rid \<and> reset_outstanding at r) \<and>
    s' = s\<lparr>password_reset_tokens := update_where (\<lambda>r. prt_id r = rid \<and> reset_outstanding at r)
      (\<lambda>r. r\<lparr> prt_consumed_at := Some at \<rparr>) (password_reset_tokens s)\<rparr>"
  by (auto simp: mark_consumed_within_tx_def Let_def results affected_0_iff)

lemma keeps_mark_consumed [frame]:
  "(\<And>s x. part (s\<lparr>password_reset_tokens := x\<rparr>) = part s) \<Longrightarrow> keeps part (mark_consumed_within_tx rid at)"
  by (simp add: keeps_def results)

lemma keeps_revoke_outstanding [frame]:
  "(\<And>s x. part (s\<lparr>password_reset_tokens := x\<rparr>) = part s) \<Longrightarrow>
    keeps part (revoke_outstanding_for_user_within_tx uid except now)"
  by (simp add: keeps_def revoke_outstanding_for_user_within_tx_def Let_def)

lemma keeps_origin [frame]: "keeps part (origin_within_tx rid)"
  by (simp add: keeps_def origin_within_tx_def split: option.splits)

lemma keeps_settings_get [frame]: "keeps part settings_get_within_tx"
  by (simp add: keeps_def settings_get_within_tx_def split: option.splits)

end
