(* ===== verification/One_Shot.thy ===== *)
theory One_Shot
  imports Sui_Prelude
begin

text \<open>
  The contract shared by everything the provider hands out to be used once: an authorization code,
  a refresh token, a pending second-factor login.  \<open>uses\<close> is a history of the system as one
  resource sees it: attempts to spend it, in any number and interleaving, and any other step that
  does not issue it again.  \<open>n\<close> counts the successful attempts.
\<close>

inductive uses :: "('s \<Rightarrow> 's \<Rightarrow> bool) \<Rightarrow> ('c \<Rightarrow> 's \<Rightarrow> ('e + 'a) \<times> 's) \<Rightarrow> 's \<Rightarrow> nat \<Rightarrow> 's \<Rightarrow> bool"
  for step :: "'s \<Rightarrow> 's \<Rightarrow> bool" and spend :: "'c \<Rightarrow> 's \<Rightarrow> ('e + 'a) \<times> 's" where
  start: "uses step spend s 0 s"
| other: "uses step spend s n t \<Longrightarrow> step t t' \<Longrightarrow> uses step spend s n t'"
| success: "uses step spend s n t \<Longrightarrow> spend c t = (Inr a, t') \<Longrightarrow> uses step spend s (Suc n) t'"
| refused: "uses step spend s n t \<Longrightarrow> spend c t = (Inl e, t') \<Longrightarrow> uses step spend s n t'"

locale one_shot =
  fixes inv :: "'s \<Rightarrow> bool"
    and step :: "'k \<Rightarrow> 's \<Rightarrow> 's \<Rightarrow> bool"
    and spend :: "'k \<Rightarrow> 'c \<Rightarrow> 's \<Rightarrow> ('e + 'a) \<times> 's"
    and spent :: "'k \<Rightarrow> 's \<Rightarrow> bool"
  assumes spend_inv: "inv s \<Longrightarrow> spend k c s = (r, s') \<Longrightarrow> inv s'"
    and step_inv: "inv s \<Longrightarrow> step k s s' \<Longrightarrow> inv s'"
    and spent_after: "inv s \<Longrightarrow> spend k c s = (Inr a, s') \<Longrightarrow> spent k s'"
    and spent_refuses: "inv s \<Longrightarrow> spent k s \<Longrightarrow> \<exists>e s'. spend k c s = (Inl e, s') \<and> spent k s'"
    and spent_stays: "inv s \<Longrightarrow> spent k s \<Longrightarrow> step k s s' \<Longrightarrow> spent k s'"
begin

lemma spent_no_success: "inv s \<Longrightarrow> spent k s \<Longrightarrow> spend k c s \<noteq> (Inr a, s')"
  using spent_refuses [of s k c] by auto

lemma spent_keeps: "inv s \<Longrightarrow> spent k s \<Longrightarrow> spend k c s = (r, s') \<Longrightarrow> spent k s'"
  using spent_refuses [of s k c] by auto

lemma uses_spent: "uses (step k) (spend k) s n s' \<Longrightarrow> inv s \<Longrightarrow> inv s' \<and> (n = 0 \<or> n = 1 \<and> spent k s')"
proof (induction rule: uses.induct)
  case (success s n t c a t')
  then show ?case
    using spend_inv spent_after spent_no_success by (metis One_nat_def)
next
  case (refused s n t c e t')
  then show ?case
    using spend_inv spent_keeps by blast
next
  case (other s n t t')
  then show ?case
    using step_inv spent_stays by blast
qed simp

lemma at_most_once: "inv s \<Longrightarrow> uses (step k) (spend k) s n s' \<Longrightarrow> n \<le> 1"
  using uses_spent by fastforce

lemma spent_for_ever: "uses (step k) (spend k) s n s' \<Longrightarrow> inv s \<Longrightarrow> spent k s \<Longrightarrow> n = 0 \<and> inv s' \<and> spent k s'"
proof (induction rule: uses.induct)
  case (success s n t c a t')
  then show ?case
    using spent_no_success by blast
next
  case (refused s n t c e t')
  then show ?case
    using spend_inv spent_keeps by blast
next
  case (other s n t t')
  then show ?case
    using step_inv spent_stays by blast
qed simp

end

end
