(* ===== verification/Refresh_Tokens.thy ===== *)
theory Refresh_Tokens
  imports Store_Model Crypto One_Shot
begin

text \<open>
  Refresh tokens: the repository \<open>sui-id-store/src/repos/refresh_tokens.rs\<close> and the commands T04
  (rotation with reuse detection) and T09 (initial issuance) of \<open>commands.rs\<close>.
\<close>

section \<open>The repository\<close>

definition RT_AAD :: string where
  "RT_AAD = ''sui-id/refresh_token/v1''"

definition rt_active :: "refresh_token_row \<Rightarrow> bool" where
  "rt_active r = (rt_revoked_at r = None)"

definition rt_revoke :: "instant \<Rightarrow> refresh_token_row \<Rightarrow> refresh_token_row" where
  "rt_revoke now r = r\<lparr>rt_revoked_at := Some now\<rparr>"

text \<open>\<open>UPDATE refresh_tokens SET revoked_at = now WHERE p AND revoked_at IS NULL\<close>, with its row count.\<close>

definition revoke_rows_where :: "(refresh_token_row \<Rightarrow> bool) \<Rightarrow> instant \<Rightarrow> nat tx" where
  "revoke_rows_where p now s =
    Inr (affected (\<lambda>r. p r \<and> rt_active r) (refresh_tokens s),
      s\<lparr>refresh_tokens := update_where (\<lambda>r. p r \<and> rt_active r) (rt_revoke now) (refresh_tokens s)\<rparr>)"

definition rt_revoke_by_id :: "string \<Rightarrow> instant \<Rightarrow> unit tx" where
  "rt_revoke_by_id token_id now = tx_bind (revoke_rows_where (\<lambda>r. rt_id r = token_id) now) (\<lambda>_. tx_return ())"

definition rt_revoke_all_for_user_within_tx :: "uuid \<Rightarrow> instant \<Rightarrow> nat tx" where
  "rt_revoke_all_for_user_within_tx user_id now = revoke_rows_where (\<lambda>r. rt_user_id r = user_id) now"

definition rt_revoke_all_for_client_within_tx :: "uuid \<Rightarrow> instant \<Rightarrow> nat tx" where
  "rt_revoke_all_for_client_within_tx client_id now = revoke_rows_where (\<lambda>r. rt_client_id r = client_id) now"

definition revoke_family :: "string \<Rightarrow> instant \<Rightarrow> nat tx" where
  "revoke_family family_id now = revoke_rows_where (\<lambda>r. rt_family_id r = family_id) now"

definition rt_purge_expired :: "instant \<Rightarrow> nat tx" where
  "rt_purge_expired now s =
    Inr (affected (\<lambda>r. rt_expires_at r < now) (refresh_tokens s),
      s\<lparr>refresh_tokens := delete_where (\<lambda>r. rt_expires_at r < now) (refresh_tokens s)\<rparr>)"

text \<open>The scan of rows whose \<open>token_hash\<close> is NULL: the first row whose sealed token opens to the
  presented bytes.\<close>

definition decrypt_scan :: "aead_env \<Rightarrow> string \<Rightarrow> refresh_token_row list \<Rightarrow> refresh_token_row option" where
  "decrypt_scan ae token candidates =
    List.find (\<lambda>r. open_sealed ae (master_key ae) (rt_token_enc r) RT_AAD = Inr token) candidates"

definition find_active :: "digest_env \<Rightarrow> aead_env \<Rightarrow> string \<Rightarrow> instant \<Rightarrow> store \<Rightarrow> store_error + refresh_token_row" where
  "find_active cx ae token now s =
    (case List.find (\<lambda>r. rt_token_hash r = Some (refresh_token_hash cx token) \<and> rt_active r \<and> rt_expires_at r > now)
        (refresh_tokens s) of
       Some r \<Rightarrow> Inr r
     | None \<Rightarrow>
         ok_or (decrypt_scan ae token
           (filter (\<lambda>r. rt_token_hash r = None \<and> rt_active r \<and> rt_expires_at r > now) (refresh_tokens s)))
           StoreNotFound)"

definition find_any :: "digest_env \<Rightarrow> aead_env \<Rightarrow> string \<Rightarrow> store \<Rightarrow> store_error + refresh_token_row" where
  "find_any cx ae token s =
    (case List.find (\<lambda>r. rt_token_hash r = Some (refresh_token_hash cx token)) (refresh_tokens s) of
       Some r \<Rightarrow> Inr r
     | None \<Rightarrow>
         ok_or (decrypt_scan ae token (filter (\<lambda>r. rt_token_hash r = None) (refresh_tokens s))) StoreNotFound)"

datatype rotation_lookup =
    RotatedHere refresh_token_row
  | ReuseDetected refresh_token_row nat
  | Expired refresh_token_row
  | UnknownToken

definition begin_rotation_within_tx :: "string \<Rightarrow> uuid \<Rightarrow> instant \<Rightarrow> rotation_lookup tx" where
  "begin_rotation_within_tx token_hash expected_client now =
    tx_bind (tx_get (\<lambda>s. List.find (\<lambda>r. rt_token_hash r = Some token_hash) (refresh_tokens s))) (\<lambda>found.
      case found of
        None \<Rightarrow> tx_return UnknownToken
      | Some row \<Rightarrow>
          if rt_client_id row \<noteq> expected_client then tx_fail StoreConflict
          else if rt_expires_at row \<le> now \<and> rt_revoked_at row = None then tx_return (Expired row)
          else tx_bind (revoke_rows_where (\<lambda>r. rt_id r = rt_id row) now) (\<lambda>n.
            if n = 1 then tx_return (RotatedHere row)
            else tx_bind (revoke_rows_where (\<lambda>r. rt_family_id r = rt_family_id row) now) (\<lambda>family_revoked.
              tx_return (ReuseDetected row family_revoked))))"

text \<open>A row prepared outside the transaction: the token's hash and its sealed form are in the row.\<close>

record prepared_refresh_token =
  prep_row :: refresh_token_row
  prep_raw :: string

definition prepare_refresh_token ::
  "digest_env \<Rightarrow> aead_env \<Rightarrow> string \<Rightarrow> string \<Rightarrow> refresh_token_row \<Rightarrow> store_error + prepared_refresh_token" where
  "prepare_refresh_token cx ae raw nonce row =
    (case seal ae (master_key ae) nonce raw RT_AAD of
       Inl e \<Rightarrow> Inl e
     | Inr sealed \<Rightarrow>
         Inr \<lparr> prep_row = row\<lparr>rt_token_enc := sealed, rt_token_hash := Some (refresh_token_hash cx raw)\<rparr>,
               prep_raw = raw \<rparr>)"

text \<open>\<open>id\<close> is the primary key and \<open>token_hash\<close> has a unique index that ignores NULL.\<close>

definition insert_prepared_within_tx :: "prepared_refresh_token \<Rightarrow> unit tx" where
  "insert_prepared_within_tx prepared s =
    (let row = prep_row prepared in
     if list_ex (\<lambda>r. rt_id r = rt_id row) (refresh_tokens s)
       then Inl (Db ''UNIQUE constraint failed: refresh_tokens.id'')
     else if list_ex (\<lambda>r. rt_token_hash r = rt_token_hash row \<and> rt_token_hash r \<noteq> None) (refresh_tokens s)
       then Inl (Db ''UNIQUE constraint failed: refresh_tokens.token_hash'')
     else Inr ((), s\<lparr>refresh_tokens := refresh_tokens s @ [row]\<rparr>))"

section \<open>T04: rotation\<close>

definition T04_ROTATED :: event_descriptor where
  "T04_ROTATED = \<lparr> ed_name = ''auth.refresh.rotated'', ed_attributes = [(''family_id'', False)] \<rparr>"

definition T04_THEFT_DETECTED :: event_descriptor where
  "T04_THEFT_DETECTED = \<lparr> ed_name = ''auth.refresh.theft_detected'',
     ed_attributes = [(''family_id'', False), (''family_revoked_count'', False)] \<rparr>"

definition rotated_event :: "uuid \<Rightarrow> string \<Rightarrow> sealed_event" where
  "rotated_event user_id family_id =
    \<lparr> ev_descriptor = T04_ROTATED, ev_target = Some user_id, ev_result = AuditOk,
      ev_attributes = build_attributes [(''family_id'', family_id)] \<rparr>"

definition theft_detected_event :: "uuid \<Rightarrow> string \<Rightarrow> nat \<Rightarrow> sealed_event" where
  "theft_detected_event user_id family_id family_revoked =
    \<lparr> ev_descriptor = T04_THEFT_DETECTED, ev_target = Some user_id, ev_result = AuditOk,
      ev_attributes = build_attributes
        [(''family_id'', family_id), (''family_revoked_count'', dec family_revoked)] \<rparr>"

datatype t04_outcome = Rotated refresh_token_row string | TheftDetected nat

definition rotate_body :: "string \<Rightarrow> uuid \<Rightarrow> instant \<Rightarrow> prepared_refresh_token \<Rightarrow> (t04_outcome \<times> sealed_event) tx" where
  "rotate_body presented_hash expected_client now prepared =
    tx_bind (begin_rotation_within_tx presented_hash expected_client now) (\<lambda>rotation.
      case rotation of
        RotatedHere row \<Rightarrow>
          tx_bind (insert_prepared_within_tx prepared) (\<lambda>_.
            tx_return (Rotated (prep_row prepared) (prep_raw prepared),
              rotated_event (rt_user_id row) (rt_family_id row)))
      | ReuseDetected row family_revoked \<Rightarrow>
          tx_return (TheftDetected family_revoked,
            theft_detected_event (rt_user_id row) (rt_family_id row) family_revoked)
      | Expired _ \<Rightarrow> tx_fail StoreNotFound
      | UnknownToken \<Rightarrow> tx_fail StoreNotFound)"

text \<open>\<open>at\<close> is the clock read that stamps the audit row.\<close>

definition rotate_refresh_token ::
  "digest_env \<Rightarrow> instant \<Rightarrow> string \<Rightarrow> uuid \<Rightarrow> instant \<Rightarrow> prepared_refresh_token \<Rightarrow> store
    \<Rightarrow> (store_error + t04_outcome) \<times> store" where
  "rotate_refresh_token cx at presented_hash expected_client now prepared =
    class_a cx at None (rotate_body presented_hash expected_client now prepared)"

section \<open>T09: initial issuance\<close>

definition insert_initial_refresh_token :: "prepared_refresh_token \<Rightarrow> store \<Rightarrow> (store_error + unit) \<times> store" where
  "insert_initial_refresh_token prepared = protocol_tx (insert_prepared_within_tx prepared)"

section \<open>Backfill of missing hashes\<close>

definition backfill_row :: "digest_env \<Rightarrow> aead_env \<Rightarrow> refresh_token_row \<Rightarrow> nat \<times> store \<Rightarrow> nat \<times> store" where
  "backfill_row cx ae r = (\<lambda>(count, s).
    case open_sealed ae (master_key ae) (rt_token_enc r) RT_AAD of
      Inl _ \<Rightarrow> (count, s)
    | Inr plain \<Rightarrow>
        if \<not> utf8_valid plain then (count, s)
        else
          (let h = Some (refresh_token_hash cx plain);
               p = (\<lambda>q. rt_id q = rt_id r \<and> rt_token_hash q = None)
           in if list_ex p (refresh_tokens s) \<and> list_ex (\<lambda>q. rt_token_hash q = h) (refresh_tokens s) then (count, s)
              else (count + 1,
                s\<lparr>refresh_tokens := update_where p (\<lambda>q. q\<lparr>rt_token_hash := h\<rparr>) (refresh_tokens s)\<rparr>)))"

definition backfill_token_hashes :: "digest_env \<Rightarrow> aead_env \<Rightarrow> store \<Rightarrow> nat \<times> store" where
  "backfill_token_hashes cx ae s =
    fold (backfill_row cx ae) (filter (\<lambda>r. rt_token_hash r = None) (refresh_tokens s)) (0, s)"

section \<open>The token table's invariant\<close>

definition active_in :: "string \<Rightarrow> refresh_token_row list \<Rightarrow> refresh_token_row list" where
  "active_in f toks = filter (\<lambda>r. rt_family_id r = f \<and> rt_active r) toks"

text \<open>Ids are unique, non-NULL hashes are unique, and a family has at most one active token.\<close>

definition hashes_unique :: "refresh_token_row list \<Rightarrow> bool" where
  "hashes_unique toks = (\<forall>h. at_most_one (\<lambda>r. rt_token_hash r = Some h) toks)"

definition single_active :: "refresh_token_row list \<Rightarrow> bool" where
  "single_active toks = (\<forall>f. at_most_one (\<lambda>r. rt_family_id r = f \<and> rt_active r) toks)"

definition tokens_keyed :: "refresh_token_row list \<Rightarrow> bool" where
  "tokens_keyed toks = (distinct (map rt_id toks) \<and> hashes_unique toks)"

definition tokens_ok :: "refresh_token_row list \<Rightarrow> bool" where
  "tokens_ok toks = (tokens_keyed toks \<and> single_active toks)"

lemma rt_revoke_simps [simp]:
  "rt_id (rt_revoke now r) = rt_id r" "rt_token_hash (rt_revoke now r) = rt_token_hash r"
  "rt_family_id (rt_revoke now r) = rt_family_id r" "\<not> rt_active (rt_revoke now r)"
  "rt_user_id (rt_revoke now r) = rt_user_id r" "rt_client_id (rt_revoke now r) = rt_client_id r"
  "rt_expires_at (rt_revoke now r) = rt_expires_at r" "rt_revoked_at (rt_revoke now r) = Some now"
  by (simp_all add: rt_revoke_def rt_active_def)

lemma tokens_keyed_revoke: "tokens_keyed toks \<Longrightarrow> tokens_keyed (update_where p (rt_revoke now) toks)"
  unfolding tokens_keyed_def hashes_unique_def
  by (simp add: map_update_where) (auto simp: update_where_def intro!: at_most_one_map split: if_splits)

lemma single_active_revoke: "single_active toks \<Longrightarrow> single_active (update_where p (rt_revoke now) toks)"
  unfolding single_active_def
  by (auto simp: update_where_def intro!: at_most_one_map split: if_splits)

lemma tokens_keyed_delete: "tokens_keyed toks \<Longrightarrow> tokens_keyed (delete_where p toks)"
  by (simp add: tokens_keyed_def hashes_unique_def delete_where_def distinct_map_filter at_most_one_filter)

lemma single_active_delete: "single_active toks \<Longrightarrow> single_active (delete_where p toks)"
  by (simp add: single_active_def delete_where_def at_most_one_filter)

definition fresh_row :: "refresh_token_row \<Rightarrow> refresh_token_row list \<Rightarrow> bool" where
  "fresh_row row toks =
    (rt_id row \<notin> rt_id ` set toks \<and> (rt_token_hash row = None \<or> rt_token_hash row \<notin> rt_token_hash ` set toks))"

lemma fresh_row_revoke [simp]: "fresh_row row (update_where p (rt_revoke now) toks) = fresh_row row toks"
  by (simp add: fresh_row_def image_update_where)

lemma tokens_keyed_insert: "tokens_keyed toks \<Longrightarrow> fresh_row row toks \<Longrightarrow> tokens_keyed (toks @ [row])"
  by (auto simp: tokens_keyed_def hashes_unique_def at_most_one_snoc fresh_row_def) (metis image_eqI)

lemma single_active_insert:
  assumes "single_active toks" "active_in (rt_family_id row) toks = []"
  shows "single_active (toks @ [row])"
  using assms by (auto simp: single_active_def at_most_one_snoc active_in_def filter_empty_conv)

lemma insert_prepared_Inr_iff:
  "insert_prepared_within_tx prepared s = Inr (u, s') \<longleftrightarrow>
    fresh_row (prep_row prepared) (refresh_tokens s) \<and>
    s' = s\<lparr>refresh_tokens := refresh_tokens s @ [prep_row prepared]\<rparr>"
  by (auto simp: insert_prepared_within_tx_def Let_def list_ex_key list_ex_iff fresh_row_def) (metis image_eqI)+

text \<open>The two outcomes of the arbitration.\<close>

lemma begin_rotation_active:
  assumes "distinct (map rt_id (refresh_tokens s))"
    and "List.find (\<lambda>r. rt_token_hash r = Some h) (refresh_tokens s) = Some row"
    and "rt_client_id row = c" "rt_active row" "now < rt_expires_at row"
  shows "begin_rotation_within_tx h c now s = Inr (RotatedHere row,
    s\<lparr>refresh_tokens := update_where (\<lambda>r. rt_id r = rt_id row \<and> rt_active r) (rt_revoke now) (refresh_tokens s)\<rparr>)"
proof -
  have "row \<in> set (refresh_tokens s)"
    using assms(2) find_Some_in by fast
  then have "affected (\<lambda>r. rt_id r = rt_id row \<and> rt_active r) (refresh_tokens s) = 1"
    using assms(4) filter_distinct_key [OF assms(1), of row rt_active] by (simp add: affected_def)
  then show ?thesis
    using assms by (simp add: begin_rotation_within_tx_def revoke_rows_where_def)
qed

lemma begin_rotation_reuse:
  assumes "distinct (map rt_id (refresh_tokens s))"
    and "List.find (\<lambda>r. rt_token_hash r = Some h) (refresh_tokens s) = Some row"
    and "rt_client_id row = c" "\<not> rt_active row"
  shows "begin_rotation_within_tx h c now s = Inr (ReuseDetected row (length (active_in (rt_family_id row) (refresh_tokens s))),
    s\<lparr>refresh_tokens := update_where (\<lambda>r. rt_family_id r = rt_family_id row \<and> rt_active r) (rt_revoke now) (refresh_tokens s)\<rparr>)"
proof -
  have "row \<in> set (refresh_tokens s)"
    using assms(2) find_Some_in by fast
  then have "affected (\<lambda>r. rt_id r = rt_id row \<and> rt_active r) (refresh_tokens s) = 0"
    using assms(4) filter_distinct_key [OF assms(1), of row rt_active] by (simp add: affected_def)
  moreover from this have "update_where (\<lambda>r. rt_id r = rt_id row \<and> rt_active r) (rt_revoke now) (refresh_tokens s) = refresh_tokens s"
    by (rule update_where_none)
  ultimately show ?thesis
    using assms by (simp add: begin_rotation_within_tx_def revoke_rows_where_def affected_def active_in_def rt_active_def)
qed

lemma active_in_sweep [simp]:
  "active_in f (update_where (\<lambda>r. rt_family_id r = f \<and> rt_active r) (rt_revoke now) toks) = []"
  unfolding active_in_def filter_empty_conv set_update_where ball_simps(9)
proof
  fix r
  show "\<not> (rt_family_id (if rt_family_id r = f \<and> rt_active r then rt_revoke now r else r) = f \<and>
      rt_active (if rt_family_id r = f \<and> rt_active r then rt_revoke now r else r))"
    by (cases "rt_family_id r = f \<and> rt_active r") simp_all
qed

lemma active_in_winner:
  assumes "single_active toks" "row \<in> set toks" "rt_active row"
  shows "active_in (rt_family_id row) (update_where (\<lambda>r. rt_id r = rt_id row \<and> rt_active r) (rt_revoke now) toks) = []"
proof -
  have uniq: "r = row" if "r \<in> set toks" "rt_family_id r = rt_family_id row" "rt_active r" for r
  proof (rule at_most_oneD)
    show "at_most_one (\<lambda>r. rt_family_id r = rt_family_id row \<and> rt_active r) toks"
      using assms(1) by (simp add: single_active_def)
  qed (use that assms(2,3) in simp_all)
  show ?thesis
    unfolding active_in_def filter_empty_conv set_update_where
    by (auto dest: uniq)
qed

section \<open>Rotation as an audited command\<close>

lemma keeps_revoke_rows [frame]:
  "(\<And>s ts. part (s\<lparr>refresh_tokens := ts\<rparr>) = part s) \<Longrightarrow> keeps part (revoke_rows_where p now)"
  by (simp add: keeps_def revoke_rows_where_def)

lemma keeps_insert_prepared [frame]:
  "(\<And>s ts. part (s\<lparr>refresh_tokens := ts\<rparr>) = part s) \<Longrightarrow> keeps part (insert_prepared_within_tx p)"
  by (auto simp: keeps_def insert_prepared_Inr_iff)

lemma keeps_begin_rotation [frame]:
  "(\<And>s ts. part (s\<lparr>refresh_tokens := ts\<rparr>) = part s) \<Longrightarrow> keeps part (begin_rotation_within_tx h c now)"
  unfolding begin_rotation_within_tx_def by (intro frame)

lemma keeps_rotation_lookup [frame]:
  assumes "\<And>r. keeps part (f r)" "\<And>r n. keeps part (g r n)" "\<And>r. keeps part (e r)" "keeps part u"
  shows "keeps part (case l of RotatedHere r \<Rightarrow> f r | ReuseDetected r n \<Rightarrow> g r n | Expired r \<Rightarrow> e r | UnknownToken \<Rightarrow> u)"
  using assms by (cases l) auto

interpretation t04: command_body "rotate_body h c now prepared" for h c now prepared
  by unfold_locales (simp add: rotate_body_def frame)

lemma find_Some_keyed:
  assumes "tokens_keyed toks" "r \<in> set toks" "rt_token_hash r = Some h"
  shows "List.find (\<lambda>r. rt_token_hash r = Some h) toks = Some r"
proof -
  obtain q where q: "List.find (\<lambda>r. rt_token_hash r = Some h) toks = Some q"
    using assms(2,3) by (cases "List.find (\<lambda>r. rt_token_hash r = Some h) toks") (auto simp: find_None_iff)
  then have "q = r"
    using assms find_Some_in [OF q]
    by (intro at_most_oneD [of "\<lambda>r. rt_token_hash r = Some h" toks]) (auto simp: tokens_keyed_def hashes_unique_def)
  with q show ?thesis
    by simp
qed

text \<open>The table a successful command body leaves behind.\<close>

definition after_win :: "refresh_token_row \<Rightarrow> instant \<Rightarrow> refresh_token_row \<Rightarrow> refresh_token_row list \<Rightarrow> refresh_token_row list" where
  "after_win row now successor toks =
    update_where (\<lambda>r. rt_id r = rt_id row \<and> rt_active r) (rt_revoke now) toks @ [successor]"

definition after_theft :: "refresh_token_row \<Rightarrow> instant \<Rightarrow> refresh_token_row list \<Rightarrow> refresh_token_row list" where
  "after_theft row now toks =
    update_where (\<lambda>r. rt_family_id r = rt_family_id row \<and> rt_active r) (rt_revoke now) toks"

lemma rotate_body_cases:
  assumes "tokens_keyed (refresh_tokens s)" "rotate_body h c now p s = Inr ((out, ev), s')"
  obtains (win) row where
      "List.find (\<lambda>r. rt_token_hash r = Some h) (refresh_tokens s) = Some row" "rt_client_id row = c"
      "rt_active row" "now < rt_expires_at row"
      "out = Rotated (prep_row p) (prep_raw p)" "ev = rotated_event (rt_user_id row) (rt_family_id row)"
      "fresh_row (prep_row p) (refresh_tokens s)"
      "s' = s\<lparr>refresh_tokens := after_win row now (prep_row p) (refresh_tokens s)\<rparr>"
  | (theft) row where
      "List.find (\<lambda>r. rt_token_hash r = Some h) (refresh_tokens s) = Some row" "rt_client_id row = c"
      "\<not> rt_active row"
      "out = TheftDetected (length (active_in (rt_family_id row) (refresh_tokens s)))"
      "ev = theft_detected_event (rt_user_id row) (rt_family_id row) (length (active_in (rt_family_id row) (refresh_tokens s)))"
      "s' = s\<lparr>refresh_tokens := after_theft row now (refresh_tokens s)\<rparr>"
proof -
  have ids: "distinct (map rt_id (refresh_tokens s))"
    using assms(1) by (simp add: tokens_keyed_def)
  obtain row where row: "List.find (\<lambda>r. rt_token_hash r = Some h) (refresh_tokens s) = Some row"
    and client: "rt_client_id row = c" and live: "\<not> (rt_expires_at row \<le> now \<and> rt_active row)"
    using assms(2)
    by (auto simp: rotate_body_def begin_rotation_within_tx_def results rt_active_def split: option.splits if_splits)
  show thesis
  proof (cases "rt_active row")
    case True
    then have "begin_rotation_within_tx h c now s = Inr (RotatedHere row, s\<lparr>refresh_tokens :=
        update_where (\<lambda>r. rt_id r = rt_id row \<and> rt_active r) (rt_revoke now) (refresh_tokens s)\<rparr>)"
      using begin_rotation_active [OF ids row client] live by simp
    then show thesis
      using assms(2) live True row client
      by (intro win [OF row client])
        (auto simp: rotate_body_def results insert_prepared_Inr_iff after_win_def)
  next
    case False
    then have "begin_rotation_within_tx h c now s =
        Inr (ReuseDetected row (length (active_in (rt_family_id row) (refresh_tokens s))),
          s\<lparr>refresh_tokens := after_theft row now (refresh_tokens s)\<rparr>)"
      using begin_rotation_reuse [OF ids row client] by (simp add: after_theft_def)
    then show thesis
      using assms(2) by (intro theft [OF row client False]) (auto simp: rotate_body_def)
  qed
qed

section \<open>Histories of the token table\<close>

text \<open>What the two callers prepare: \<open>exchange_refresh\<close> a successor in the family of the presented
  token, \<open>issue_for\<close> the root of a new family.\<close>

definition successor_of :: "string \<Rightarrow> prepared_refresh_token \<Rightarrow> store \<Rightarrow> bool" where
  "successor_of h p s =
    (\<forall>r \<in> set (refresh_tokens s). rt_token_hash r = Some h \<longrightarrow> rt_family_id (prep_row p) = rt_family_id r)"

definition roots_family :: "prepared_refresh_token \<Rightarrow> store \<Rightarrow> bool" where
  "roots_family p s =
    (rt_family_id (prep_row p) = family_root_of (rt_id (prep_row p)) \<and>
     rt_id (prep_row p) \<notin> rt_family_id ` set (refresh_tokens s))"

inductive token_step :: "digest_env \<Rightarrow> aead_env \<Rightarrow> store \<Rightarrow> store \<Rightarrow> bool" for cx ae where
  rotate: "successor_of h p s \<Longrightarrow> rotate_refresh_token cx at h c now p s = (r, s') \<Longrightarrow> token_step cx ae s s'"
| issue: "roots_family p s \<Longrightarrow> insert_initial_refresh_token p s = (r, s') \<Longrightarrow> token_step cx ae s s'"
| revoke: "with_tx (revoke_rows_where q now) s = (r, s') \<Longrightarrow> token_step cx ae s s'"
| purge: "with_tx (rt_purge_expired now) s = (r, s') \<Longrightarrow> token_step cx ae s s'"
| backfill: "backfill_token_hashes cx ae s = (n, s') \<Longrightarrow> token_step cx ae s s'"

lemma single_active_hash:
  "single_active toks \<Longrightarrow> single_active (update_where p (\<lambda>q. q\<lparr>rt_token_hash := h\<rparr>) toks)"
  unfolding single_active_def
  by (auto simp: update_where_def rt_active_def intro!: at_most_one_map split: if_splits)

lemma tokens_keyed_hash:
  assumes "tokens_keyed toks" "h \<notin> rt_token_hash ` set toks"
  shows "tokens_keyed (update_where (\<lambda>q. rt_id q = i \<and> P q) (\<lambda>q. q\<lparr>rt_token_hash := h\<rparr>) toks)"
proof -
  let ?ts = "update_where (\<lambda>q. rt_id q = i \<and> P q) (\<lambda>q. q\<lparr>rt_token_hash := h\<rparr>) toks"
  have ids: "distinct (map rt_id ?ts)"
    using assms(1) by (simp add: tokens_keyed_def map_update_where)
  have "at_most_one (\<lambda>r. rt_token_hash r = Some x) ?ts" for x
  proof (cases "h = Some x")
    case True
    then have "rt_token_hash q \<noteq> Some x" if "q \<in> set toks" for q
      using assms(2) that by (metis image_eqI)
    then show ?thesis
      by (intro at_most_one_key [OF ids, of _ i]) (auto simp: set_update_where split: if_splits)
  next
    case False
    then show ?thesis
      using assms(1) unfolding update_where_def tokens_keyed_def hashes_unique_def
      by (auto intro!: at_most_one_map split: if_splits)
  qed
  with ids show ?thesis
    by (simp add: tokens_keyed_def hashes_unique_def)
qed

lemma backfill_row_ok:
  assumes "tokens_keyed (refresh_tokens s)" "backfill_row cx ae r (n, s) = (n', s')"
  shows "tokens_keyed (refresh_tokens s')" "single_active (refresh_tokens s) \<Longrightarrow> single_active (refresh_tokens s')"
proof -
  obtain h where s': "s' = s \<or> s' = s\<lparr>refresh_tokens := update_where (\<lambda>q. rt_id q = rt_id r \<and> rt_token_hash q = None)
      (\<lambda>q. q\<lparr>rt_token_hash := h\<rparr>) (refresh_tokens s)\<rparr> \<and> (h \<notin> rt_token_hash ` set (refresh_tokens s) \<or>
      \<not> list_ex (\<lambda>q. rt_id q = rt_id r \<and> rt_token_hash q = None) (refresh_tokens s))"
    using assms(2) by (auto simp: backfill_row_def Let_def list_ex_key split: sum.splits if_splits)
  have "update_where p f (refresh_tokens s) = refresh_tokens s" if "\<not> list_ex p (refresh_tokens s)" for p f
    using that by (intro update_where_none) (auto simp: affected_0_iff list_ex_iff)
  then show "tokens_keyed (refresh_tokens s')" "single_active (refresh_tokens s) \<Longrightarrow> single_active (refresh_tokens s')"
    using s' assms(1) tokens_keyed_hash single_active_hash by (auto simp del: Not_eq_iff)
qed

lemma backfill_ok:
  assumes "tokens_keyed (refresh_tokens s)"
  shows "tokens_keyed (refresh_tokens (snd (fold (backfill_row cx ae) rs (n, s)))) \<and>
    (single_active (refresh_tokens s) \<longrightarrow> single_active (refresh_tokens (snd (fold (backfill_row cx ae) rs (n, s)))))"
  using assms
proof (induction rs arbitrary: n s)
  case (Cons r rs)
  obtain n' s' where "backfill_row cx ae r (n, s) = (n', s')"
    by fastforce
  then show ?case
    using Cons.IH [of s' n'] Cons.prems backfill_row_ok [of s cx ae r n n' s'] by simp
qed simp

lemma rotate_keyed:
  assumes "tokens_keyed (refresh_tokens s)" "rotate_refresh_token cx at h c now p s = (r, s')"
  shows "tokens_keyed (refresh_tokens s')"
proof (cases r)
  case (Inl e)
  then show ?thesis
    using assms t04.class_a_error by (fastforce simp: rotate_refresh_token_def)
next
  case (Inr out)
  then obtain ev t attrs where body: "rotate_body h c now p s = Inr ((out, ev), t)"
    and s': "refresh_tokens s' = refresh_tokens t"
    using assms(2) by (auto simp: rotate_refresh_token_def elim!: t04.class_a_success)
  from assms(1) body show ?thesis
  proof (cases rule: rotate_body_cases)
    case (win row)
    then show ?thesis
      using assms(1) s' by (simp add: after_win_def tokens_keyed_insert tokens_keyed_revoke)
  next
    case (theft row)
    then show ?thesis
      using assms(1) s' by (simp add: after_theft_def tokens_keyed_revoke)
  qed
qed

lemma rotate_single_active:
  assumes "tokens_ok (refresh_tokens s)" "successor_of h p s" "rotate_refresh_token cx at h c now p s = (r, s')"
  shows "single_active (refresh_tokens s')"
proof (cases r)
  case (Inl e)
  then show ?thesis
    using assms t04.class_a_error by (fastforce simp: rotate_refresh_token_def tokens_ok_def)
next
  case (Inr out)
  then obtain ev t attrs where body: "rotate_body h c now p s = Inr ((out, ev), t)"
    and s': "refresh_tokens s' = refresh_tokens t"
    using assms(3) by (auto simp: rotate_refresh_token_def elim!: t04.class_a_success)
  have keyed: "tokens_keyed (refresh_tokens s)" and single: "single_active (refresh_tokens s)"
    using assms(1) by (simp_all add: tokens_ok_def)
  from keyed body show ?thesis
  proof (cases rule: rotate_body_cases)
    case (win row)
    have row: "row \<in> set (refresh_tokens s)" "rt_token_hash row = Some h"
      using find_Some_in [OF win(1)] by auto
    then have "rt_family_id (prep_row p) = rt_family_id row"
      using assms(2) by (simp add: successor_of_def)
    then show ?thesis
      using win s' active_in_winner [OF single row(1) win(3)] single
      by (simp add: after_win_def single_active_insert single_active_revoke)
  next
    case (theft row)
    then show ?thesis
      using single s' by (simp add: after_theft_def single_active_revoke)
  qed
qed

lemma token_step_ok:
  assumes "token_step cx ae s s'" "tokens_ok (refresh_tokens s)"
  shows "tokens_ok (refresh_tokens s')"
  using assms(1)
proof (cases rule: token_step.cases)
  case (rotate h p at c now r)
  then show ?thesis
    using assms(2) rotate_keyed rotate_single_active by (fastforce simp: tokens_ok_def)
next
  case (issue p r)
  have "s' = s \<or> fresh_row (prep_row p) (refresh_tokens s) \<and>
      s' = s\<lparr>refresh_tokens := refresh_tokens s @ [prep_row p]\<rparr>"
    using issue(2) by (cases r) (auto simp: insert_initial_refresh_token_def protocol_tx_def results insert_prepared_Inr_iff)
  moreover have "active_in (rt_family_id (prep_row p)) (refresh_tokens s) = []"
    using issue(1)
    by (auto simp: roots_family_def family_root_of_def active_in_def filter_empty_conv) (metis image_eqI)
  ultimately show ?thesis
    using assms(2) by (auto simp: tokens_ok_def tokens_keyed_insert single_active_insert)
next
  case (revoke q now r)
  then show ?thesis
    using assms(2)
    by (auto simp: with_tx_def revoke_rows_where_def tokens_ok_def tokens_keyed_revoke single_active_revoke)
next
  case (purge now r)
  then show ?thesis
    using assms(2)
    by (auto simp: with_tx_def rt_purge_expired_def tokens_ok_def tokens_keyed_delete single_active_delete)
next
  case (backfill n)
  then show ?thesis
    using assms(2) backfill_ok [of s cx ae "filter (\<lambda>r. rt_token_hash r = None) (refresh_tokens s)" 0]
    by (simp add: backfill_token_hashes_def tokens_ok_def)
qed

lemma token_steps_ok:
  "(token_step cx ae)\<^sup>*\<^sup>* s s' \<Longrightarrow> tokens_ok (refresh_tokens s) \<Longrightarrow> tokens_ok (refresh_tokens s')"
  by (induction rule: rtranclp_induct) (auto dest: token_step_ok)

section \<open>A refresh token is exchanged at most once\<close>

text \<open>Presenting the token with hash \<open>h\<close>: a success is a rotation; a detected reuse is a refusal.\<close>

definition present_token ::
  "digest_env \<Rightarrow> string \<Rightarrow> instant \<times> uuid \<times> instant \<times> prepared_refresh_token \<Rightarrow> store
    \<Rightarrow> (store_error option + string) \<times> store" where
  "present_token cx h = (\<lambda>(at, c, now, p) s.
    case rotate_refresh_token cx at h c now p s of
      (Inr (Rotated _ raw), s') \<Rightarrow> (Inr raw, s')
    | (Inr (TheftDetected _), s') \<Rightarrow> (Inl None, s')
    | (Inl e, s') \<Rightarrow> (Inl (Some e), s'))"

definition hash_spent :: "string \<Rightarrow> store \<Rightarrow> bool" where
  "hash_spent h s = (\<forall>r \<in> set (refresh_tokens s). rt_token_hash r = Some h \<longrightarrow> \<not> rt_active r)"

text \<open>A step gives the hash to a row that did not have it.\<close>

definition reissues :: "string \<Rightarrow> store \<Rightarrow> store \<Rightarrow> bool" where
  "reissues h s s' =
    (\<exists>r' \<in> set (refresh_tokens s'). rt_token_hash r' = Some h \<and>
      rt_id r' \<notin> rt_id ` {r \<in> set (refresh_tokens s). rt_token_hash r = Some h})"

definition other_token_step :: "digest_env \<Rightarrow> aead_env \<Rightarrow> string \<Rightarrow> store \<Rightarrow> store \<Rightarrow> bool" where
  "other_token_step cx ae h s s' = (token_step cx ae s s' \<and> \<not> reissues h s s')"

text \<open>No row gains activity and none appears.\<close>

definition shrunk :: "refresh_token_row list \<Rightarrow> refresh_token_row list \<Rightarrow> bool" where
  "shrunk toks toks' = (\<forall>r' \<in> set toks'. \<exists>r \<in> set toks. rt_id r = rt_id r' \<and> (rt_active r' \<longrightarrow> rt_active r))"

lemma shrunk_refl [simp]: "shrunk toks toks"
  by (auto simp: shrunk_def)

lemma shrunk_trans: "shrunk a b \<Longrightarrow> shrunk b c \<Longrightarrow> shrunk a c"
  by (fastforce simp: shrunk_def)

lemma shrunk_revoke: "shrunk toks (update_where p (rt_revoke now) toks)"
  unfolding shrunk_def set_update_where by fastforce

lemma shrunk_delete: "shrunk toks (delete_where p toks)"
  by (auto simp: shrunk_def set_delete_where)

lemma shrunk_hash: "shrunk toks (update_where p (\<lambda>q. q\<lparr>rt_token_hash := h\<rparr>) toks)"
  unfolding shrunk_def set_update_where by (force simp: rt_active_def)

lemma shrunk_backfill: "shrunk (refresh_tokens s) (refresh_tokens (snd (fold (backfill_row cx ae) rs (n, s))))"
proof (induction rs arbitrary: n s)
  case (Cons r rs)
  obtain n' s' where row: "backfill_row cx ae r (n, s) = (n', s')"
    by fastforce
  then have "shrunk (refresh_tokens s) (refresh_tokens s')"
    by (auto simp: backfill_row_def Let_def shrunk_hash split: sum.splits if_splits)
  then show ?case
    using Cons.IH [of s' n'] row shrunk_trans by simp
qed simp

lemma rotate_shrunk:
  assumes "tokens_keyed (refresh_tokens s)" "rotate_refresh_token cx at h c now p s = (r, s')"
  shows "shrunk (refresh_tokens s) (refresh_tokens s') \<or>
    (\<exists>ts. refresh_tokens s' = ts @ [prep_row p] \<and> fresh_row (prep_row p) (refresh_tokens s) \<and> shrunk (refresh_tokens s) ts)"
proof (cases r)
  case (Inl e)
  then show ?thesis
    using assms(2) t04.class_a_error by (fastforce simp: rotate_refresh_token_def)
next
  case (Inr out)
  then obtain ev t attrs where body: "rotate_body h c now p s = Inr ((out, ev), t)"
    and s': "refresh_tokens s' = refresh_tokens t"
    using assms(2) by (auto simp: rotate_refresh_token_def elim!: t04.class_a_success)
  from assms(1) body show ?thesis
    by (cases rule: rotate_body_cases) (auto simp: s' after_win_def after_theft_def shrunk_revoke)
qed

lemma token_step_shrunk:
  assumes "token_step cx ae s s'" "tokens_keyed (refresh_tokens s)"
  shows "shrunk (refresh_tokens s) (refresh_tokens s') \<or>
    (\<exists>ts row. refresh_tokens s' = ts @ [row] \<and> fresh_row row (refresh_tokens s) \<and> shrunk (refresh_tokens s) ts)"
  using assms(1)
proof (cases rule: token_step.cases)
  case (rotate h p at c now r)
  then show ?thesis
    using rotate_shrunk [OF assms(2)] by blast
next
  case (issue p r)
  then show ?thesis
    by (cases r) (auto simp: insert_initial_refresh_token_def protocol_tx_def results insert_prepared_Inr_iff)
next
  case (revoke q now r)
  then show ?thesis
    by (auto simp: with_tx_def revoke_rows_where_def shrunk_revoke)
next
  case (purge now r)
  then show ?thesis
    by (auto simp: with_tx_def rt_purge_expired_def shrunk_delete)
next
  case (backfill n)
  then show ?thesis
    using shrunk_backfill [of s cx ae "filter (\<lambda>r. rt_token_hash r = None) (refresh_tokens s)" 0]
    by (simp add: backfill_token_hashes_def)
qed

lemma token_step_keyed:
  assumes "token_step cx ae s s'" "tokens_keyed (refresh_tokens s)"
  shows "tokens_keyed (refresh_tokens s')"
  using assms(1)
proof (cases rule: token_step.cases)
  case (rotate h p at c now r)
  then show ?thesis
    using rotate_keyed [OF assms(2)] by blast
next
  case (issue p r)
  then show ?thesis
    using assms(2) by (cases r)
      (auto simp: insert_initial_refresh_token_def protocol_tx_def results insert_prepared_Inr_iff tokens_keyed_insert)
next
  case (revoke q now r)
  then show ?thesis
    using assms(2) by (auto simp: with_tx_def revoke_rows_where_def tokens_keyed_revoke)
next
  case (purge now r)
  then show ?thesis
    using assms(2) by (auto simp: with_tx_def rt_purge_expired_def tokens_keyed_delete)
next
  case (backfill n)
  then show ?thesis
    using assms(2) backfill_ok [of s cx ae "filter (\<lambda>r. rt_token_hash r = None) (refresh_tokens s)" 0]
    by (simp add: backfill_token_hashes_def)
qed

lemma hash_spent_stays:
  assumes "tokens_keyed (refresh_tokens s)" "hash_spent h s" "other_token_step cx ae h s s'"
  shows "hash_spent h s'"
proof -
  have ids: "distinct (map rt_id (refresh_tokens s))"
    using assms(1) by (simp add: tokens_keyed_def)
  have "\<not> rt_active r'" if mem: "r' \<in> set (refresh_tokens s')" "rt_token_hash r' = Some h" for r'
  proof -
    obtain r where r: "r \<in> set (refresh_tokens s)" "rt_token_hash r = Some h" "rt_id r = rt_id r'"
      using assms(3) mem by (auto simp: other_token_step_def reissues_def image_iff)
    have "rt_id r' \<in> rt_id ` set (refresh_tokens s)"
      using r by (metis image_eqI)
    moreover have "token_step cx ae s s'"
      using assms(3) by (simp add: other_token_step_def)
    ultimately obtain ts where "shrunk (refresh_tokens s) ts" "r' \<in> set ts"
      using token_step_shrunk [OF _ assms(1)] mem(1) by (fastforce simp: fresh_row_def)
    then obtain q where "q \<in> set (refresh_tokens s)" "rt_id q = rt_id r'" "rt_active r' \<longrightarrow> rt_active q"
      by (auto simp: shrunk_def)
    moreover have "q = r"
      using distinct_key_eq [OF ids] r calculation by metis
    ultimately show ?thesis
      using r assms(2) by (auto simp: hash_spent_def)
  qed
  then show ?thesis
    by (simp add: hash_spent_def)
qed

lemma present_token_success:
  assumes "tokens_keyed (refresh_tokens s)" "present_token cx h a s = (Inr raw, s')"
  shows "hash_spent h s'"
proof -
  obtain at c now p where a: "a = (at, c, now, p)"
    by (cases a) auto
  obtain row' where run: "rotate_refresh_token cx at h c now p s = (Inr (Rotated row' raw), s')"
    using assms(2) by (auto simp: a present_token_def split: prod.splits sum.splits t04_outcome.splits)
  then obtain ev t attrs where body: "rotate_body h c now p s = Inr ((Rotated row' raw, ev), t)"
    and s': "refresh_tokens s' = refresh_tokens t"
    by (auto simp: rotate_refresh_token_def elim!: t04.class_a_success)
  from assms(1) body show ?thesis
  proof (cases rule: rotate_body_cases)
    case (win row)
    have row: "row \<in> set (refresh_tokens s)" "rt_token_hash row = Some h"
      using find_Some_in [OF win(1)] by auto
    have "q = row" if "q \<in> set (refresh_tokens s)" "rt_token_hash q = Some h" for q
      using find_Some_keyed [OF assms(1) that] win(1) by simp
    moreover have "rt_token_hash (prep_row p) \<noteq> Some h"
      using win(7) row by (auto simp: fresh_row_def) (metis image_eqI)
    ultimately show ?thesis
      using win(8) by (auto simp: s' hash_spent_def after_win_def set_update_where split: if_splits)
  qed auto
qed

lemma present_token_spent:
  assumes "tokens_keyed (refresh_tokens s)" "hash_spent h s"
  shows "\<exists>e s'. present_token cx h a s = (Inl e, s') \<and> hash_spent h s'"
proof -
  obtain at c now p where a: "a = (at, c, now, p)"
    by (cases a) auto
  obtain r s' where run: "rotate_refresh_token cx at h c now p s = (r, s')"
    by fastforce
  show ?thesis
  proof (cases r)
    case (Inl e)
    then have "s' = s"
      using run t04.class_a_error by (fastforce simp: rotate_refresh_token_def)
    with Inl run assms(2) show ?thesis
      by (simp add: a present_token_def)
  next
    case (Inr out)
    then obtain ev t attrs where body: "rotate_body h c now p s = Inr ((out, ev), t)"
      and s': "refresh_tokens s' = refresh_tokens t"
      using run by (auto simp: rotate_refresh_token_def elim!: t04.class_a_success)
    from assms(1) body show ?thesis
    proof (cases rule: rotate_body_cases)
      case (win row)
      then show ?thesis
        using find_Some_in [OF win(1)] assms(2) by (auto simp: hash_spent_def)
    next
      case (theft row)
      have "hash_spent h s'"
        using assms(2) theft(6)
        by (auto simp: hash_spent_def s' after_theft_def set_update_where split: if_splits)
      then show ?thesis
        using run Inr theft(4) by (simp add: a present_token_def)
    qed
  qed
qed

lemma present_token_keyed:
  assumes "tokens_keyed (refresh_tokens s)" "present_token cx h a s = (r, s')"
  shows "tokens_keyed (refresh_tokens s')"
proof -
  obtain at c now p where a: "a = (at, c, now, p)"
    by (cases a) auto
  obtain q where "rotate_refresh_token cx at h c now p s = (q, s')"
    using assms(2) by (auto simp: a present_token_def split: prod.splits sum.splits t04_outcome.splits)
  then show ?thesis
    using rotate_keyed [OF assms(1)] by blast
qed

interpretation refresh_use: one_shot "\<lambda>s. tokens_keyed (refresh_tokens s)" "other_token_step cx ae" "present_token cx" hash_spent
  for cx ae
proof
  show "tokens_keyed (refresh_tokens s')"
    if "tokens_keyed (refresh_tokens s)" "other_token_step cx ae k s s'" for k s s'
    using token_step_keyed that by (auto simp: other_token_step_def)
qed (fact present_token_keyed present_token_success present_token_spent hash_spent_stays)+

section \<open>Outcomes\<close>

lemma checked_rotated_event:
  assumes "length f \<le> 512"
  shows "checked_attributes (rotated_event u f) = Inr [(''family_id'', f)]"
  using assms
  by (intro checked_attributes_plain)
    (simp_all add: rotated_event_def T04_ROTATED_def attributes_ok_def MAX_ATTRIBUTES_def MAX_ATTRIBUTE_VALUE_BYTES_def)

lemma checked_theft_event:
  assumes "length f \<le> 512" "n \<le> 1"
  shows "checked_attributes (theft_detected_event u f n) = Inr [(''family_id'', f), (''family_revoked_count'', dec n)]"
  using assms length_dec_bound [of 1 n]
  by (intro checked_attributes_plain)
    (simp_all add: theft_detected_event_def T04_THEFT_DETECTED_def attributes_ok_def MAX_ATTRIBUTES_def MAX_ATTRIBUTE_VALUE_BYTES_def)

lemma rotate_wins:
  assumes "tokens_keyed (refresh_tokens s)" "row \<in> set (refresh_tokens s)" "rt_token_hash row = Some h"
    and "rt_client_id row = c" "rt_active row" "now < rt_expires_at row" "length (rt_family_id row) \<le> 512"
    and "fresh_row (prep_row p) (refresh_tokens s)"
  shows "rotate_refresh_token cx at h c now p s =
    (Inr (Rotated (prep_row p) (prep_raw p)),
     s\<lparr>refresh_tokens := after_win row now (prep_row p) (refresh_tokens s),
       audit := append_within_tx cx (build_audit_row T04_ROTATED None at (Some (rt_user_id row)) AuditOk
         [(''family_id'', rt_family_id row)]) (audit s)\<rparr>)"
proof -
  have found: "List.find (\<lambda>r. rt_token_hash r = Some h) (refresh_tokens s) = Some row"
    using find_Some_keyed [OF assms(1-3)] .
  have "rotate_body h c now p s = Inr ((Rotated (prep_row p) (prep_raw p), rotated_event (rt_user_id row) (rt_family_id row)),
      s\<lparr>refresh_tokens := after_win row now (prep_row p) (refresh_tokens s)\<rparr>)"
    using begin_rotation_active [OF _ found assms(4-6)] assms(1,8)
      insert_prepared_Inr_iff [of p "s\<lparr>refresh_tokens := update_where (\<lambda>r. rt_id r = rt_id row \<and> rt_active r) (rt_revoke now) (refresh_tokens s)\<rparr>"]
    by (simp add: rotate_body_def after_win_def tokens_keyed_def)
  then show ?thesis
    using t04.class_a_commit [OF _ checked_rotated_event [OF assms(7)]]
    by (simp add: rotate_refresh_token_def rotated_event_def)
qed

lemma rotate_theft:
  assumes "tokens_ok (refresh_tokens s)" "row \<in> set (refresh_tokens s)" "rt_token_hash row = Some h"
    and "rt_client_id row = c" "\<not> rt_active row" "length (rt_family_id row) \<le> 512"
  shows "rotate_refresh_token cx at h c now p s =
    (Inr (TheftDetected (length (active_in (rt_family_id row) (refresh_tokens s)))),
     s\<lparr>refresh_tokens := after_theft row now (refresh_tokens s),
       audit := append_within_tx cx (build_audit_row T04_THEFT_DETECTED None at (Some (rt_user_id row)) AuditOk
         [(''family_id'', rt_family_id row),
          (''family_revoked_count'', dec (length (active_in (rt_family_id row) (refresh_tokens s))))]) (audit s)\<rparr>)"
proof -
  let ?n = "length (active_in (rt_family_id row) (refresh_tokens s))"
  have keyed: "tokens_keyed (refresh_tokens s)" and le: "?n \<le> 1"
    using assms(1) by (simp_all add: tokens_ok_def single_active_def at_most_one_def active_in_def)
  have found: "List.find (\<lambda>r. rt_token_hash r = Some h) (refresh_tokens s) = Some row"
    using find_Some_keyed [OF keyed assms(2,3)] .
  have "rotate_body h c now p s = Inr ((TheftDetected ?n, theft_detected_event (rt_user_id row) (rt_family_id row) ?n),
      s\<lparr>refresh_tokens := after_theft row now (refresh_tokens s)\<rparr>)"
    using begin_rotation_reuse [OF _ found assms(4,5)] keyed
    by (simp add: rotate_body_def after_theft_def tokens_keyed_def)
  then show ?thesis
    using t04.class_a_commit [OF _ checked_theft_event [OF assms(6) le]]
    by (simp add: rotate_refresh_token_def theft_detected_event_def)
qed

section \<open>Properties\<close>

definition demo_token :: refresh_token_row where
  "demo_token = \<lparr> rt_id = ''t1'', rt_token_enc = [], rt_token_hash = Some ''h1'', rt_user_id = ''u1'',
     rt_client_id = ''c1'', rt_scope = ''openid'', rt_expires_at = seconds 1000, rt_revoked_at = None,
     rt_created_at = 0, rt_auth_methods = [Pwd], rt_family_id = ''t1'' \<rparr>"

definition demo_successor :: prepared_refresh_token where
  "demo_successor = \<lparr> prep_row = demo_token\<lparr>rt_id := ''t2'', rt_token_hash := Some ''h2''\<rparr>, prep_raw = ''raw2'' \<rparr>"

definition demo_aead :: aead_env where
  "demo_aead = \<lparr> master_key = ''k'', xchacha_encrypt = (\<lambda>key nonce aad m. Some (m @ replicate 16 (CHR ''t''))),
     xchacha_decrypt = (\<lambda>key nonce aad c. Some (take (length c - 16) c)) \<rparr>"

lemma demo_aead_ok: "aead_ok demo_aead"
  by (simp add: aead_ok_def demo_aead_def)

definition demo_tokens :: "refresh_token_row list \<Rightarrow> store" where
  "demo_tokens toks = empty_store\<lparr>refresh_tokens := toks\<rparr>"

lemma refresh_tokens_demo [simp]: "refresh_tokens (demo_tokens toks) = toks"
  by (simp add: demo_tokens_def)

lemma demo_tokens_ok: "tokens_ok [demo_token]" "tokens_ok [rt_revoke 5 demo_token]"
  by (simp_all add: tokens_ok_def tokens_keyed_def hashes_unique_def single_active_def at_most_one_def)

lemma demo_fresh: "fresh_row (prep_row demo_successor) [demo_token]"
  by (simp add: fresh_row_def demo_successor_def demo_token_def)

lemma demo_rotation:
  "rotate_refresh_token demo_env 0 ''h1'' ''c1'' 0 demo_successor (demo_tokens [demo_token]) =
    (Inr (Rotated (prep_row demo_successor) ''raw2''),
     (demo_tokens [rt_revoke 0 demo_token, prep_row demo_successor])
       \<lparr>audit := append_within_tx demo_env (build_audit_row T04_ROTATED None 0 (Some ''u1'') AuditOk
         [(''family_id'', ''t1'')]) (audit (demo_tokens [demo_token]))\<rparr>)"
  using rotate_wins [of "demo_tokens [demo_token]" demo_token "''h1''" "''c1''" 0 demo_successor demo_env 0]
    demo_tokens_ok(1) demo_fresh
  by (simp add: tokens_ok_def demo_token_def rt_active_def seconds_def nanos_def after_win_def update_where_def
      demo_tokens_def demo_successor_def)

text \<open>C16: In every history of rotations, initial issuances, revocations, purges and backfills, the token
  table keeps unique ids and unique hashes, and a rotation family never has more than one active
  token.\<close>

theorem one_active_token_per_family:
  assumes "tokens_ok (refresh_tokens s)" "(token_step cx ae)\<^sup>*\<^sup>* s s'"
  shows "tokens_keyed (refresh_tokens s') \<and> (\<forall>f. length (active_in f (refresh_tokens s')) \<le> 1)"
  using token_steps_ok [OF assms(2,1)]
  by (simp add: tokens_ok_def single_active_def at_most_one_def active_in_def)

theorem one_active_token_per_family_witness:
  "length (active_in ''t1'' (refresh_tokens
     (snd (rotate_refresh_token demo_env 0 ''h1'' ''c1'' 0 demo_successor (demo_tokens [demo_token]))))) \<le> 1"
proof -
  have "successor_of ''h1'' demo_successor (demo_tokens [demo_token])"
    by (simp add: successor_of_def demo_successor_def)
  then have "(token_step demo_env ae)\<^sup>*\<^sup>* (demo_tokens [demo_token])
      (snd (rotate_refresh_token demo_env 0 ''h1'' ''c1'' 0 demo_successor (demo_tokens [demo_token])))" for ae
    by (intro r_into_rtranclp token_step.rotate [OF _ surjective_pairing])
  then show ?thesis
    using one_active_token_per_family [of "demo_tokens [demo_token]" demo_env] demo_tokens_ok(1) by simp
qed

text \<open>C6: However often and by whomever a refresh token is presented, in any interleaving with other
  work on the token table, at most one presentation succeeds (as long as nothing issues a new token
  with the same hash).\<close>

theorem refresh_token_exchanged_at_most_once:
  assumes "tokens_keyed (refresh_tokens s)" "uses (other_token_step cx ae h) (present_token cx h) s n s'"
  shows "n \<le> 1"
  using refresh_use.at_most_once [of s cx ae h n s'] assms by simp

theorem refresh_token_exchanged_at_most_once_witness:
  "\<exists>n s'. uses (other_token_step demo_env demo_aead ''h1'') (present_token demo_env ''h1'') (demo_tokens [demo_token]) n s'
    \<and> n = 1 \<and> n \<le> 1"
proof -
  let ?s' = "snd (rotate_refresh_token demo_env 0 ''h1'' ''c1'' 0 demo_successor (demo_tokens [demo_token]))"
  have "present_token demo_env ''h1'' (0, ''c1'', 0, demo_successor) (demo_tokens [demo_token]) = (Inr ''raw2'', ?s')"
    by (simp add: present_token_def demo_rotation)
  then have "uses (other_token_step demo_env demo_aead ''h1'') (present_token demo_env ''h1'') (demo_tokens [demo_token]) (Suc 0) ?s'"
    by (rule uses.success [OF uses.start])
  then show ?thesis
    using refresh_token_exchanged_at_most_once [of "demo_tokens [demo_token]" demo_env demo_aead "''h1''" "Suc 0" ?s']
      demo_tokens_ok(1) by (auto simp: tokens_ok_def)
qed

text \<open>C17: Replaying a refresh token that was already rotated or revoked is detected: the command
  succeeds with \<open>TheftDetected\<close> and the number of tokens of the family that were active until then,
  closes the whole family, touches no other family, and appends exactly one audit row, \<open>auth.refresh.theft_detected\<close>, about the token's user.\<close>

theorem reuse_closes_family:
  assumes "tokens_ok (refresh_tokens s)" "row \<in> set (refresh_tokens s)" "rt_token_hash row = Some h"
    and "rt_client_id row = c" "\<not> rt_active row" "length (rt_family_id row) \<le> 512"
    and "rotate_refresh_token cx at h c now p s = (r, s')"
  shows "r = Inr (TheftDetected (length (active_in (rt_family_id row) (refresh_tokens s)))) \<and>
    active_in (rt_family_id row) (refresh_tokens s') = [] \<and>
    (\<forall>f. f \<noteq> rt_family_id row \<longrightarrow> active_in f (refresh_tokens s') = active_in f (refresh_tokens s)) \<and>
    (\<exists>alr. audit s' = append_within_tx cx alr (audit s) \<and> al_action alr = ''auth.refresh.theft_detected''
       \<and> al_target alr = Some (rt_user_id row))"
proof -
  have "active_in f (after_theft row now (refresh_tokens s)) = active_in f (refresh_tokens s)"
    if "f \<noteq> rt_family_id row" for f
  proof -
    have "active_in f (map (\<lambda>r. if rt_family_id r = rt_family_id row \<and> rt_active r then rt_revoke now r else r) xs)
        = active_in f xs" for xs
      using that by (induction xs) (auto simp: active_in_def)
    then show ?thesis
      by (simp add: after_theft_def update_where_def)
  qed
  moreover have "active_in (rt_family_id row) (after_theft row now (refresh_tokens s)) = []"
    by (simp add: after_theft_def)
  ultimately show ?thesis
    using assms(7) rotate_theft [OF assms(1-6), of cx at now p]
    by (auto simp: build_audit_row_def T04_THEFT_DETECTED_def)
qed

theorem reuse_closes_family_witness:
  "\<exists>s'. rotate_refresh_token demo_env 0 ''h1'' ''c1'' 9 demo_successor
      (demo_tokens [rt_revoke 5 demo_token, prep_row demo_successor]) = (Inr (TheftDetected 1), s')
    \<and> active_in ''t1'' (refresh_tokens s') = []"
proof -
  let ?s = "demo_tokens [rt_revoke 5 demo_token, prep_row demo_successor]"
  obtain r s' where run: "rotate_refresh_token demo_env 0 ''h1'' ''c1'' 9 demo_successor ?s = (r, s')"
    by fastforce
  have ok: "tokens_ok (refresh_tokens ?s)"
    by (auto simp: tokens_ok_def tokens_keyed_def hashes_unique_def single_active_def at_most_one_def demo_successor_def
        demo_token_def rt_revoke_def rt_active_def)
  have row: "rt_revoke 5 demo_token \<in> set (refresh_tokens ?s)" "rt_token_hash (rt_revoke 5 demo_token) = Some ''h1''"
    "rt_client_id (rt_revoke 5 demo_token) = ''c1''" "\<not> rt_active (rt_revoke 5 demo_token)"
    "rt_family_id (rt_revoke 5 demo_token) = ''t1''"
    by (simp_all add: demo_token_def)
  have "length (active_in ''t1'' (refresh_tokens ?s)) = 1"
    by (simp add: active_in_def demo_successor_def demo_token_def rt_active_def)
  then show ?thesis
    using reuse_closes_family [OF ok row(1-4) _ run] run row(5) by simp
qed

text \<open>The honest client is served: presenting the active, unexpired token of the right client with
  a fresh successor always rotates, leaves exactly the successor active in the family, and records
  one \<open>auth.refresh.rotated\<close> row.\<close>

theorem active_token_rotates:
  assumes "tokens_ok (refresh_tokens s)" "row \<in> set (refresh_tokens s)" "rt_token_hash row = Some h"
    and "rt_client_id row = c" "rt_active row" "now < rt_expires_at row" "length (rt_family_id row) \<le> 512"
    and "fresh_row (prep_row p) (refresh_tokens s)" "rt_family_id (prep_row p) = rt_family_id row"
    and "rt_active (prep_row p)"
  shows "\<exists>s'. rotate_refresh_token cx at h c now p s = (Inr (Rotated (prep_row p) (prep_raw p)), s') \<and>
    active_in (rt_family_id row) (refresh_tokens s') = [prep_row p] \<and>
    (\<exists>alr. audit s' = append_within_tx cx alr (audit s) \<and> al_action alr = ''auth.refresh.rotated'')"
proof -
  have keyed: "tokens_keyed (refresh_tokens s)" and single: "single_active (refresh_tokens s)"
    using assms(1) by (simp_all add: tokens_ok_def)
  have "active_in (rt_family_id row) (after_win row now (prep_row p) (refresh_tokens s)) = [prep_row p]"
    using active_in_winner [OF single assms(2,5), of now] assms(9,10)
    by (simp add: after_win_def active_in_def)
  then show ?thesis
    using rotate_wins [OF keyed assms(2-8), of cx at] by (auto simp: build_audit_row_def T04_ROTATED_def)
qed

theorem active_token_rotates_witness:
  "\<exists>s'. rotate_refresh_token demo_env 0 ''h1'' ''c1'' 0 demo_successor (demo_tokens [demo_token]) =
     (Inr (Rotated (prep_row demo_successor) (prep_raw demo_successor)), s') \<and>
    active_in ''t1'' (refresh_tokens s') = [prep_row demo_successor]"
proof -
  have "rt_family_id demo_token = ''t1''" "rt_client_id demo_token = ''c1''" "rt_token_hash demo_token = Some ''h1''"
    "rt_active demo_token" "0 < rt_expires_at demo_token" "rt_family_id (prep_row demo_successor) = ''t1''"
    "rt_active (prep_row demo_successor)"
    by (simp_all add: demo_token_def demo_successor_def rt_active_def seconds_def)
  then show ?thesis
    using active_token_rotates [of "demo_tokens [demo_token]" demo_token "''h1''" "''c1''" 0 demo_successor demo_env 0]
      demo_tokens_ok(1) demo_fresh by auto
qed

text \<open>A token stored before hashes were introduced (NULL \<open>token_hash\<close>) is found by \<open>find_active\<close>,
  yet the rotation command looks it up by hash only: until the backfill has run, presenting it is
  always refused as unknown and nothing changes.\<close>

theorem unhashed_token_cannot_rotate:
  assumes "row \<in> set (refresh_tokens s)" "rt_token_hash row = None" "rt_active row" "now < rt_expires_at row"
    and "open_sealed ae (master_key ae) (rt_token_enc row) RT_AAD = Inr token"
    and "Some (refresh_token_hash cx token) \<notin> rt_token_hash ` set (refresh_tokens s)"
  shows "is_ok (find_active cx ae token now s) \<and>
    rotate_refresh_token cx at (refresh_token_hash cx token) c now p s = (Inl StoreNotFound, s)"
proof -
  have none: "List.find (\<lambda>r. rt_token_hash r = Some (refresh_token_hash cx token) \<and> Q r) (refresh_tokens s) = None" for Q
    using assms(6) by (auto simp: find_None_iff) (metis image_eqI)
  then have find: "List.find (\<lambda>r. rt_token_hash r = Some (refresh_token_hash cx token)) (refresh_tokens s) = None"
    using none [of "\<lambda>_. True"] by simp
  have "decrypt_scan ae token (filter (\<lambda>r. rt_token_hash r = None \<and> rt_active r \<and> rt_expires_at r > now) (refresh_tokens s)) \<noteq> None"
    using assms(1-5) by (auto simp: decrypt_scan_def find_None_iff)
  then have "is_ok (find_active cx ae token now s)"
    by (auto simp: find_active_def none)
  moreover have "rotate_body (refresh_token_hash cx token) c now p s = Inl StoreNotFound"
    by (simp add: rotate_body_def begin_rotation_within_tx_def find)
  ultimately show ?thesis
    using t04.class_a_abort by (simp add: rotate_refresh_token_def)
qed

definition demo_legacy_token :: refresh_token_row where
  "demo_legacy_token = demo_token\<lparr>rt_token_hash := None,
     rt_token_enc := replicate 24 (CHR ''n'') @ ''raw1'' @ replicate 16 (CHR ''t'')\<rparr>"

theorem unhashed_token_cannot_rotate_witness:
  "is_ok (find_active demo_env demo_aead ''raw1'' 0 (demo_tokens [demo_legacy_token])) \<and>
    rotate_refresh_token demo_env 0 (refresh_token_hash demo_env ''raw1'') ''c1'' 0 demo_successor
      (demo_tokens [demo_legacy_token]) = (Inl StoreNotFound, demo_tokens [demo_legacy_token])"
proof -
  have "open_sealed demo_aead (master_key demo_aead) (rt_token_enc demo_legacy_token) RT_AAD = Inr ''raw1''"
    using demo_aead_ok
    by (intro open_seal [of _ "replicate 24 (CHR ''n'')"]) (simp_all add: NONCE_LEN_def seal_def demo_aead_def demo_legacy_token_def)
  moreover have "rt_token_hash demo_legacy_token = None" "rt_active demo_legacy_token" "0 < rt_expires_at demo_legacy_token"
    by (simp_all add: demo_legacy_token_def demo_token_def rt_active_def seconds_def)
  ultimately show ?thesis
    using unhashed_token_cannot_rotate [of demo_legacy_token "demo_tokens [demo_legacy_token]" 0 demo_aead "''raw1''"
        demo_env 0 "''c1''" demo_successor] by simp
qed

end
