(* ===== verification/Auth_Codes.thy ===== *)
theory Auth_Codes
  imports Store_Model One_Shot
begin

text \<open>
  Authorization codes (\<open>sui-id-store/src/repos/auth_codes.rs\<close>): issuing, the guarded single-use
  consumption, invalidation for a user and the periodic purge.
\<close>

definition ac_insert :: "authorization_code_row \<Rightarrow> unit tx" where
  "ac_insert row s =
    (if list_ex (\<lambda>r. ac_code_hash r = ac_code_hash row) (auth_codes s)
     then Inl (Db ''UNIQUE constraint failed: auth_codes.code_hash'')
     else Inr ((), s\<lparr>auth_codes := auth_codes s @ [row]\<rparr>))"

definition code_live :: "string \<Rightarrow> instant \<Rightarrow> authorization_code_row \<Rightarrow> bool" where
  "code_live h now r = (ac_code_hash r = h \<and> \<not> ac_consumed r \<and> ac_expires_at r > now)"

definition consume_tx :: "string \<Rightarrow> instant \<Rightarrow> authorization_code_row tx" where
  "consume_tx code_hash now =
    tx_bind (tx_get (\<lambda>s. affected (code_live code_hash now) (auth_codes s))) (\<lambda>rows_affected.
    tx_bind (tx_modify (\<lambda>s. s\<lparr>auth_codes :=
        update_where (code_live code_hash now) (\<lambda>r. r\<lparr>ac_consumed := True\<rparr>) (auth_codes s)\<rparr>)) (\<lambda>_.
    if rows_affected = 0 then tx_fail StoreNotFound
    else tx_bind (tx_get (\<lambda>s. List.find (\<lambda>r. ac_code_hash r = code_hash) (auth_codes s))) (\<lambda>found.
      case found of None \<Rightarrow> tx_fail (Db ''Query returned no rows'') | Some row \<Rightarrow> tx_return row)))"

definition consume :: "string \<Rightarrow> instant \<Rightarrow> store \<Rightarrow> (store_error + authorization_code_row) \<times> store" where
  "consume code_hash now = with_tx (consume_tx code_hash now)"

definition ac_invalidate_all_for_user_within_tx :: "uuid \<Rightarrow> nat tx" where
  "ac_invalidate_all_for_user_within_tx user_id s =
    (let p = (\<lambda>r. ac_user_id r = user_id \<and> \<not> ac_consumed r) in
     Inr (affected p (auth_codes s),
       s\<lparr>auth_codes := update_where p (\<lambda>r. r\<lparr>ac_consumed := True\<rparr>) (auth_codes s)\<rparr>))"

definition ac_purge_expired :: "instant \<Rightarrow> nat tx" where
  "ac_purge_expired now s =
    Inr (affected (\<lambda>r. ac_expires_at r < now) (auth_codes s),
      s\<lparr>auth_codes := delete_where (\<lambda>r. ac_expires_at r < now) (auth_codes s)\<rparr>)"

section \<open>Consumption\<close>

definition codes_keyed :: "store \<Rightarrow> bool" where
  "codes_keyed s = distinct (map ac_code_hash (auth_codes s))"

lemma keeps_ac_invalidate [frame]:
  "(\<And>s cs. part (s\<lparr>auth_codes := cs\<rparr>) = part s) \<Longrightarrow> keeps part (ac_invalidate_all_for_user_within_tx u)"
  by (simp add: keeps_def ac_invalidate_all_for_user_within_tx_def Let_def)

text \<open>The complete behaviour of \<open>consume\<close> on a keyed table.\<close>

lemma consume_live:
  assumes "codes_keyed s" "row \<in> set (auth_codes s)" "code_live h now row"
  shows "consume h now s = (Inr (row\<lparr>ac_consumed := True\<rparr>),
    s\<lparr>auth_codes := update_where (code_live h now) (\<lambda>r. r\<lparr>ac_consumed := True\<rparr>) (auth_codes s)\<rparr>)"
proof -
  have n: "affected (code_live h now) (auth_codes s) \<noteq> 0"
    using assms(2,3) by (auto simp: affected_0_iff)
  have "List.find (\<lambda>r. ac_code_hash r = h) (auth_codes s) = Some row"
    using find_distinct_key [of ac_code_hash "auth_codes s" row] assms by (simp add: codes_keyed_def code_live_def)
  then have "List.find (\<lambda>r. ac_code_hash r = h)
      (update_where (code_live h now) (\<lambda>r. r\<lparr>ac_consumed := True\<rparr>) (auth_codes s)) = Some (row\<lparr>ac_consumed := True\<rparr>)"
    using assms(3) by (subst find_update_where) simp_all
  then show ?thesis
    using n by (simp add: consume_def consume_tx_def with_tx_def)
qed

lemma consume_dead:
  assumes "\<forall>row \<in> set (auth_codes s). \<not> code_live h now row"
  shows "consume h now s = (Inl StoreNotFound, s)"
  using assms by (simp add: consume_def consume_tx_def with_tx_def affected_0_iff)

section \<open>Single use\<close>

definition code_spent :: "string \<Rightarrow> store \<Rightarrow> bool" where
  "code_spent h s = (\<forall>r \<in> set (auth_codes s). ac_code_hash r = h \<longrightarrow> ac_consumed r)"

text \<open>Any other work on the table: a code is inserted, other codes are consumed, a user's codes are
  invalidated, expired codes are purged.\<close>

inductive code_step :: "string \<Rightarrow> store \<Rightarrow> store \<Rightarrow> bool" for h where
  insert: "ac_code_hash row \<noteq> h \<Longrightarrow> with_tx (ac_insert row) s = (r, s') \<Longrightarrow> code_step h s s'"
| consume_other: "h' \<noteq> h \<Longrightarrow> consume h' now s = (r, s') \<Longrightarrow> code_step h s s'"
| invalidate: "with_tx (ac_invalidate_all_for_user_within_tx u) s = (r, s') \<Longrightarrow> code_step h s s'"
| purge: "with_tx (ac_purge_expired now) s = (r, s') \<Longrightarrow> code_step h s s'"

definition spend_code :: "string \<Rightarrow> instant \<Rightarrow> store \<Rightarrow> (store_error + authorization_code_row) \<times> store" where
  "spend_code h now s = consume h now s"

lemma codes_keyed_consumed:
  "codes_keyed s \<Longrightarrow> codes_keyed (s\<lparr>auth_codes := update_where p (\<lambda>r. r\<lparr>ac_consumed := True\<rparr>) (auth_codes s)\<rparr>)"
  by (simp add: codes_keyed_def map_update_where)

lemma code_spent_consumed:
  "code_spent h s \<Longrightarrow> code_spent h (s\<lparr>auth_codes := update_where p (\<lambda>r. r\<lparr>ac_consumed := True\<rparr>) (auth_codes s)\<rparr>)"
  by (auto simp: code_spent_def set_update_where)

text \<open>The store after any call of \<open>consume\<close>.\<close>

lemma consume_store:
  assumes "consume h now s = (r, s')"
  shows "s' = s \<or> s' = s\<lparr>auth_codes := update_where (code_live h now) (\<lambda>r. r\<lparr>ac_consumed := True\<rparr>) (auth_codes s)\<rparr>"
  using assms
  by (auto simp: consume_def consume_tx_def with_tx_def split: sum.splits option.splits if_splits)

lemma spend_code_spent:
  assumes "codes_keyed s" "consume h now s = (Inr row, s')"
  shows "code_spent h s'"
proof -
  obtain q where q: "q \<in> set (auth_codes s)" "code_live h now q"
    using assms(2) consume_dead [of s h now] by auto
  have "r = q" if "r \<in> set (auth_codes s)" "ac_code_hash r = h" for r
    using distinct_key_eq [of ac_code_hash "auth_codes s" r q] assms(1) q that
    by (simp add: codes_keyed_def code_live_def)
  moreover have "s' = s\<lparr>auth_codes := update_where (code_live h now) (\<lambda>r. r\<lparr>ac_consumed := True\<rparr>) (auth_codes s)\<rparr>"
    using assms consume_live [OF assms(1) q] by simp
  ultimately show ?thesis
    using q by (auto simp: code_spent_def set_update_where)
qed

lemma code_step_keyed: "code_step h s s' \<Longrightarrow> codes_keyed s \<Longrightarrow> codes_keyed s'"
proof (induction rule: code_step.induct)
  case (insert row s r s')
  then show ?case
    by (cases r) (auto simp: results ac_insert_def codes_keyed_def list_ex_key split: if_splits)
next
  case (consume_other h' now s r s')
  then show ?case
    using consume_store codes_keyed_consumed by blast
next
  case (invalidate u s r s')
  then show ?case
    by (auto simp: with_tx_def ac_invalidate_all_for_user_within_tx_def Let_def codes_keyed_consumed)
next
  case (purge now s r s')
  then show ?case
    by (auto simp: with_tx_def ac_purge_expired_def codes_keyed_def delete_where_def distinct_map_filter)
qed

lemma code_step_spent: "code_step h s s' \<Longrightarrow> code_spent h s \<Longrightarrow> code_spent h s'"
proof (induction rule: code_step.induct)
  case (insert row s r s')
  then show ?case
    by (cases r) (auto simp: results ac_insert_def code_spent_def split: if_splits)
next
  case (consume_other h' now s r s')
  then show ?case
    using consume_store code_spent_consumed by blast
next
  case (invalidate u s r s')
  then show ?case
    by (auto simp: with_tx_def ac_invalidate_all_for_user_within_tx_def Let_def code_spent_consumed)
next
  case (purge now s r s')
  then show ?case
    by (auto simp: with_tx_def ac_purge_expired_def code_spent_def set_delete_where)
qed

interpretation code_use: one_shot codes_keyed code_step spend_code code_spent
proof
  show "codes_keyed s'" if "codes_keyed s" "spend_code k c s = (r, s')" for s k c r s'
    using that consume_store codes_keyed_consumed unfolding spend_code_def by blast
  show "code_spent k s'" if "codes_keyed s" "spend_code k c s = (Inr a, s')" for s k c a s'
    using that spend_code_spent unfolding spend_code_def by blast
  show "\<exists>e s'. spend_code k c s = (Inl e, s') \<and> code_spent k s'" if "codes_keyed s" "code_spent k s" for s k c
  proof -
    have "consume k c s = (Inl StoreNotFound, s)"
      using that(2) by (intro consume_dead) (auto simp: code_spent_def code_live_def)
    then show ?thesis
      using that(2) by (simp add: spend_code_def)
  qed
qed (auto dest: code_step_keyed code_step_spent)

section \<open>Properties\<close>

definition demo_code :: authorization_code_row where
  "demo_code = \<lparr> ac_code_hash = ''h'', ac_client_id = ''c1'', ac_user_id = ''u1'', ac_redirect_uri = ''https://rp/cb'',
     ac_scope = ''openid'', ac_nonce = None, ac_code_challenge = ''ch'', ac_code_challenge_method = ''S256'',
     ac_expires_at = 60, ac_consumed = False, ac_created_at = 0, ac_auth_methods = [Pwd] \<rparr>"

definition demo_codes :: store where
  "demo_codes = empty_store\<lparr>auth_codes := [demo_code]\<rparr>"

text \<open>An authorization code is consumed at most once, whatever the interleaving of attempts and of
  other work on the table, as long as no second code with the same hash is issued.\<close>

theorem auth_code_single_use:
  assumes "codes_keyed s" "uses (code_step h) (spend_code h) s n s'"
  shows "n \<le> 1"
  by (rule code_use.at_most_once [OF assms])

theorem auth_code_single_use_witness:
  "\<exists>s' n. uses (code_step ''h'') (spend_code ''h'') demo_codes n s' \<and> n = 1 \<and> n \<le> 1"
proof -
  have keyed: "codes_keyed demo_codes"
    by (simp add: codes_keyed_def demo_codes_def)
  have "consume ''h'' 5 demo_codes = (Inr (demo_code\<lparr>ac_consumed := True\<rparr>), snd (consume ''h'' 5 demo_codes))"
    using consume_live [OF keyed, of demo_code "''h''" 5] by (simp add: demo_codes_def code_live_def demo_code_def)
  then have "uses (code_step ''h'') (spend_code ''h'') demo_codes (Suc 0) (snd (consume ''h'' 5 demo_codes))"
    unfolding spend_code_def by (rule uses.success [OF uses.start])
  then show ?thesis
    using auth_code_single_use [OF keyed, of "''h''" "Suc 0"] by auto
qed

text \<open>\<open>consume\<close> decides exactly on the row: it succeeds if and only if the code exists, is not yet
  consumed and has not expired, returns that row, and marks only that row; every other case is the
  same \<open>NotFound\<close> and changes nothing, so a caller cannot tell an unknown code from a replayed or an
  expired one.\<close>

theorem consume_spec:
  assumes "codes_keyed s"
  shows "(case List.find (\<lambda>r. ac_code_hash r = h) (auth_codes s) of
      Some row \<Rightarrow>
        if \<not> ac_consumed row \<and> now < ac_expires_at row
        then consume h now s = (Inr (row\<lparr>ac_consumed := True\<rparr>),
               s\<lparr>auth_codes := map (\<lambda>r. if ac_code_hash r = h then r\<lparr>ac_consumed := True\<rparr> else r) (auth_codes s)\<rparr>)
        else consume h now s = (Inl StoreNotFound, s)
    | None \<Rightarrow> consume h now s = (Inl StoreNotFound, s))"
proof (cases "List.find (\<lambda>r. ac_code_hash r = h) (auth_codes s)")
  case None
  then have "\<forall>row \<in> set (auth_codes s). \<not> code_live h now row"
    by (auto simp: find_None_iff code_live_def)
  with None show ?thesis
    by (simp add: consume_dead)
next
  case (Some row)
  then have row: "row \<in> set (auth_codes s)" "ac_code_hash row = h"
    using find_Some_in by fast+
  have uniq: "r = row" if "r \<in> set (auth_codes s)" "ac_code_hash r = h" for r
    using distinct_key_eq [of ac_code_hash "auth_codes s" r row] assms row that by (simp add: codes_keyed_def)
  show ?thesis
  proof (cases "\<not> ac_consumed row \<and> now < ac_expires_at row")
    case True
    then have "code_live h now row"
      using row by (simp add: code_live_def)
    moreover have "update_where (code_live h now) (\<lambda>r. r\<lparr>ac_consumed := True\<rparr>) (auth_codes s)
      = map (\<lambda>r. if ac_code_hash r = h then r\<lparr>ac_consumed := True\<rparr> else r) (auth_codes s)"
      unfolding update_where_def using True uniq by (intro map_cong) (auto simp: code_live_def)
    ultimately show ?thesis
      using consume_live [OF assms row(1)] True Some by simp
  next
    case False
    have "\<not> code_live h now r" if "r \<in> set (auth_codes s)" for r
      using uniq [OF that] False by (auto simp: code_live_def)
    then show ?thesis
      using consume_dead [of s h now] Some False by auto
  qed
qed

theorem consume_spec_witness:
  "consume ''h'' 60 demo_codes = (Inl StoreNotFound, demo_codes)"
  using consume_spec [of demo_codes "''h''" 60] by (simp add: codes_keyed_def demo_codes_def demo_code_def)

end
