(* ===== verification/Accounts.thy ===== *)
theory Accounts
  imports Sessions Factors Refresh_Tokens Auth_Codes
begin

text \<open>
  The audited account commands of \<open>sui-id-store/src/commands.rs\<close>: step-up evidence of the acting
  session, U01 create, U02 disable, U03 enable, U04 delete, U05 role change, U07 second-factor reset,
  U08 unlock and U22 login failure.

  Each command is a body run by \<open>class_a\<close>.  \<open>at\<close> is the clock read that stamps the audit row, \<open>t\<close>
  (and \<open>t'\<close>) the clock read of a statement that takes its own, \<open>now\<close> the caller's instant.
\<close>

section \<open>Step-up evidence\<close>

definition STEP_UP_FRESHNESS_SECS :: int where
  "STEP_UP_FRESHNESS_SECS = 300"

definition STEP_UP_NOT_APPLICABLE :: string where
  "STEP_UP_NOT_APPLICABLE = ''not_applicable:system_principal''"

datatype session_step_up_evidence = Fresh string int | NotRequired

fun as_attribute :: "session_step_up_evidence \<Rightarrow> string" where
  "as_attribute (Fresh meth age) = ''fresh:'' @ meth @ '':'' @ dec_int age"
| "as_attribute NotRequired = ''not_required:no_second_factor''"

definition has_second_factor :: "uuid \<Rightarrow> store \<Rightarrow> bool" where
  "has_second_factor uid s =
    (list_ex (\<lambda>t. ut_user_id t = uid \<and> ut_enabled t) (user_totps s)
     \<or> list_ex (\<lambda>c. wc_user_id c = uid) (webauthn_credentials s))"

definition session_step_up_evidence_within_tx ::
  "uuid \<Rightarrow> uuid \<Rightarrow> instant \<Rightarrow> session_step_up_evidence tx" where
  "session_step_up_evidence_within_tx sid actor now s =
    (case require_live_session_within_tx sid actor now s of
       Inl e \<Rightarrow> Inl (if e = StoreNotFound then StepUpRequired else e)
     | Inr _ \<Rightarrow>
        if \<not> has_second_factor actor s then Inr (NotRequired, s)
        else
         (case List.find (by_session_id sid) (sessions s) of
            None \<Rightarrow> Inl (Db ''Query returned no rows'')
          | Some r \<Rightarrow>
             (case s_last_step_up_at r of
                None \<Rightarrow> Inl StepUpRequired
              | Some t \<Rightarrow>
                 if t \<le> now \<and> num_seconds (now - t) \<le> STEP_UP_FRESHNESS_SECS
                 then Inr (Fresh (case s_last_step_up_method r of None \<Rightarrow> ''unknown'' | Some m \<Rightarrow> m)
                        (num_seconds (now - t)), s)
                 else Inl StepUpRequired)))"

section \<open>Events\<close>

definition opt_attr :: "string \<Rightarrow> string option \<Rightarrow> attributes" where
  "opt_attr name v = (case v of None \<Rightarrow> [] | Some x \<Rightarrow> [(name, x)])"

definition ok_event :: "string \<Rightarrow> (string \<times> bool) list \<Rightarrow> uuid \<Rightarrow> attributes \<Rightarrow> sealed_event" where
  "ok_event name spec tgt kvs =
    \<lparr> ev_descriptor = \<lparr> ed_name = name, ed_attributes = spec \<rparr>, ev_target = Some tgt,
      ev_result = AuditOk, ev_attributes = build_attributes kvs \<rparr>"

text \<open>An event without a target.\<close>

definition untargeted_event :: "string \<Rightarrow> (string \<times> bool) list \<Rightarrow> attributes \<Rightarrow> sealed_event" where
  "untargeted_event name spec kvs =
    \<lparr> ev_descriptor = \<lparr> ed_name = name, ed_attributes = spec \<rparr>, ev_target = None,
      ev_result = AuditOk, ev_attributes = build_attributes kvs \<rparr>"

definition U22_failure_event :: "uuid \<Rightarrow> int \<Rightarrow> sealed_event" where
  "U22_failure_event uid count =
    ok_event ''auth.login.failure'' [(''count'', False)] uid [(''count'', dec_int count)]"

definition U22_lockout_event :: "uuid \<Rightarrow> int \<Rightarrow> int \<Rightarrow> sealed_event" where
  "U22_lockout_event uid count locked_for_secs =
    ok_event ''auth.lockout'' [(''count'', False), (''locked_for_secs'', False)] uid
      [(''count'', dec_int count), (''locked_for_secs'', dec_int locked_for_secs)]"

definition U01_event :: "uuid \<Rightarrow> sealed_event" where
  "U01_event uid = ok_event ''user.create'' [] uid []"

definition U02_event :: "uuid \<Rightarrow> string option \<Rightarrow> session_step_up_evidence \<Rightarrow> sealed_event" where
  "U02_event uid reason step_up =
    ok_event ''user.disable'' [(''reason'', False), (''step_up'', True)] uid
      (opt_attr ''reason'' reason @ [(''step_up'', as_attribute step_up)])"

definition U03_event :: "uuid \<Rightarrow> session_step_up_evidence \<Rightarrow> sealed_event" where
  "U03_event uid step_up =
    ok_event ''user.enable'' [(''step_up'', True)] uid [(''step_up'', as_attribute step_up)]"

definition U04_event :: "uuid \<Rightarrow> string option \<Rightarrow> session_step_up_evidence \<Rightarrow> sealed_event" where
  "U04_event uid reason step_up =
    ok_event ''user.delete'' [(''reason'', False), (''step_up'', True)] uid
      (opt_attr ''reason'' reason @ [(''step_up'', as_attribute step_up)])"

definition U05_event :: "uuid \<Rightarrow> role \<Rightarrow> role \<Rightarrow> sealed_event" where
  "U05_event uid old_role new_role =
    ok_event ''user.role_change'' [(''old_role'', False), (''new_role'', False)] uid
      [(''old_role'', role_as_str old_role), (''new_role'', role_as_str new_role)]"

definition U07_spec :: "(string \<times> bool) list" where
  "U07_spec = [(''totp'', False), (''passkeys'', False), (''reason'', False), (''via'', False), (''step_up'', True)]"

definition U07_removed :: "bool \<Rightarrow> nat \<Rightarrow> attributes" where
  "U07_removed totp passkeys =
    [(''totp'', if totp then ''removed'' else ''absent''), (''passkeys'', dec passkeys)]"

definition U07_reset_event :: "uuid \<Rightarrow> bool \<Rightarrow> nat \<Rightarrow> string option \<Rightarrow> session_step_up_evidence \<Rightarrow> sealed_event" where
  "U07_reset_event uid totp passkeys reason step_up =
    ok_event ''mfa.admin_reset'' U07_spec uid
      (U07_removed totp passkeys @ opt_attr ''reason'' reason @ [(''step_up'', as_attribute step_up)])"

definition U07_operator_event :: "uuid \<Rightarrow> bool \<Rightarrow> nat \<Rightarrow> string \<Rightarrow> sealed_event" where
  "U07_operator_event uid totp passkeys reason =
    ok_event ''mfa.admin_reset'' U07_spec uid
      (U07_removed totp passkeys @
       [(''reason'', reason), (''via'', ''cli''), (''step_up'', STEP_UP_NOT_APPLICABLE)])"

definition U08_event :: "uuid \<Rightarrow> sealed_event" where
  "U08_event uid = ok_event ''admin.user.unlock'' [] uid []"

section \<open>Command bodies\<close>

definition record_login_failure_body ::
  "uuid \<Rightarrow> (int \<Rightarrow> int option) \<Rightarrow> instant \<Rightarrow> instant \<Rightarrow> (int \<times> sealed_event) tx" where
  "record_login_failure_body uid lock_window_for_count t t' =
    tx_bind (record_login_failure_within_tx uid None t) (\<lambda>new_count.
      case lock_window_for_count new_count of
        Some w \<Rightarrow>
          tx_bind (update_user uid (\<lambda>u. u\<lparr> u_locked_until := Some (t' + w) \<rparr>)) (\<lambda>_.
            tx_return (new_count, U22_lockout_event uid new_count (num_seconds w)))
      | None \<Rightarrow> tx_return (new_count, U22_failure_event uid new_count))"

definition create_user_body :: "(string \<Rightarrow> string) \<Rightarrow> user_row \<Rightarrow> (unit \<times> sealed_event) tx" where
  "create_user_body lower user =
    tx_bind (create_within_tx lower user) (\<lambda>_. tx_return ((), U01_event (u_id user)))"

text \<open>The revocations that U02 and U04 share.\<close>

definition cut_access :: "uuid \<Rightarrow> instant \<Rightarrow> unit tx" where
  "cut_access tgt now =
    tx_bind (session_revoke_all_for_user_within_tx tgt now) (\<lambda>_.
    tx_bind (rt_revoke_all_for_user_within_tx tgt now) (\<lambda>_.
    tx_bind (ac_invalidate_all_for_user_within_tx tgt) (\<lambda>_.
    tx_bind (revoke_outstanding_for_user_within_tx tgt None now) (\<lambda>_.
      tx_return ()))))"

definition disable_user_body ::
  "uuid \<Rightarrow> uuid \<Rightarrow> uuid \<Rightarrow> string option \<Rightarrow> instant \<Rightarrow> instant \<Rightarrow> (unit \<times> sealed_event) tx" where
  "disable_user_body admin sid tgt reason t now =
    tx_bind (session_step_up_evidence_within_tx sid admin now) (\<lambda>step_up.
    tx_bind (set_disabled_within_tx tgt True t) (\<lambda>_.
    tx_bind (cut_access tgt now) (\<lambda>_.
      tx_return ((), U02_event tgt reason step_up))))"

definition enable_user_body :: "uuid \<Rightarrow> uuid \<Rightarrow> uuid \<Rightarrow> instant \<Rightarrow> instant \<Rightarrow> (unit \<times> sealed_event) tx" where
  "enable_user_body admin sid tgt t now =
    tx_bind (session_step_up_evidence_within_tx sid admin now) (\<lambda>step_up.
    tx_bind (set_disabled_within_tx tgt False t) (\<lambda>_.
      tx_return ((), U03_event tgt step_up)))"

definition delete_user_body ::
  "uuid \<Rightarrow> uuid \<Rightarrow> uuid \<Rightarrow> string option \<Rightarrow> instant \<Rightarrow> instant \<Rightarrow> (unit \<times> sealed_event) tx" where
  "delete_user_body admin sid tgt reason t now =
    tx_bind (session_step_up_evidence_within_tx sid admin now) (\<lambda>step_up.
    tx_bind (soft_delete_within_tx tgt t) (\<lambda>_.
    tx_bind (cut_access tgt now) (\<lambda>_.
      tx_return ((), U04_event tgt reason step_up))))"

definition change_user_role_body :: "uuid \<Rightarrow> role \<Rightarrow> instant \<Rightarrow> (unit \<times> sealed_event) tx" where
  "change_user_role_body tgt new_role t =
    tx_bind (get_role_within_tx tgt) (\<lambda>old_role.
    tx_bind
      (if is_admin_role old_role \<and> \<not> is_admin_role new_role
       then tx_bind count_admins_within_tx (\<lambda>admins. if admins \<le> 1 then tx_fail StoreConflict else tx_return ())
       else tx_return ()) (\<lambda>_.
    tx_bind (set_role_within_tx tgt new_role t) (\<lambda>_.
      tx_return ((), U05_event tgt old_role new_role))))"

fun delete_passkeys :: "uuid \<Rightarrow> user_webauthn_credential_row list \<Rightarrow> unit tx" where
  "delete_passkeys tgt [] = tx_return ()"
| "delete_passkeys tgt (c # cs) =
    tx_bind (webauthn_delete_within_tx (wc_id c) tgt) (\<lambda>_. delete_passkeys tgt cs)"

definition remove_mfa_within_tx :: "uuid \<Rightarrow> (bool \<times> nat) tx" where
  "remove_mfa_within_tx tgt =
    tx_bind (get_role_within_tx tgt) (\<lambda>_.
    tx_bind (totp_delete_within_tx tgt) (\<lambda>totp_removed.
    tx_bind (webauthn_list_for_user_within_tx tgt) (\<lambda>creds.
    tx_bind (delete_passkeys tgt creds) (\<lambda>_.
      tx_return (totp_removed, length creds)))))"

definition admin_reset_mfa_body ::
  "uuid \<Rightarrow> uuid \<Rightarrow> uuid \<Rightarrow> string option \<Rightarrow> instant \<Rightarrow> ((bool \<times> nat) \<times> sealed_event) tx" where
  "admin_reset_mfa_body admin sid tgt reason now =
    tx_bind (session_step_up_evidence_within_tx sid admin now) (\<lambda>step_up.
    tx_bind (remove_mfa_within_tx tgt) (\<lambda>(totp, passkeys).
      tx_return ((totp, passkeys), U07_reset_event tgt totp passkeys reason step_up)))"

definition operator_reset_mfa_body :: "uuid \<Rightarrow> string \<Rightarrow> ((bool \<times> nat) \<times> sealed_event) tx" where
  "operator_reset_mfa_body tgt reason =
    tx_bind (remove_mfa_within_tx tgt) (\<lambda>(totp, passkeys).
      tx_return ((totp, passkeys), U07_operator_event tgt totp passkeys reason))"

definition admin_unlock_user_body :: "uuid \<Rightarrow> instant \<Rightarrow> (unit \<times> sealed_event) tx" where
  "admin_unlock_user_body tgt t =
    tx_bind (admin_unlock_within_tx tgt t) (\<lambda>_. tx_return ((), U08_event tgt))"

section \<open>The commands\<close>

definition record_login_failure ::
  "digest_env \<Rightarrow> instant \<Rightarrow> uuid \<Rightarrow> (int \<Rightarrow> int option) \<Rightarrow> instant \<Rightarrow> instant \<Rightarrow> store
    \<Rightarrow> (store_error + int) \<times> store" where
  "record_login_failure cx at uid lock_window_for_count t t' =
    class_a cx at None (record_login_failure_body uid lock_window_for_count t t')"

definition create_user ::
  "digest_env \<Rightarrow> instant \<Rightarrow> (string \<Rightarrow> string) \<Rightarrow> uuid \<Rightarrow> user_row \<Rightarrow> store \<Rightarrow> (store_error + unit) \<times> store" where
  "create_user cx at lower admin user = class_a cx at (Some admin) (create_user_body lower user)"

definition disable_user ::
  "digest_env \<Rightarrow> instant \<Rightarrow> uuid \<Rightarrow> uuid \<Rightarrow> uuid \<Rightarrow> string option \<Rightarrow> instant \<Rightarrow> instant \<Rightarrow> store
    \<Rightarrow> (store_error + unit) \<times> store" where
  "disable_user cx at admin sid tgt reason t now =
    class_a cx at (Some admin) (disable_user_body admin sid tgt reason t now)"

definition enable_user ::
  "digest_env \<Rightarrow> instant \<Rightarrow> uuid \<Rightarrow> uuid \<Rightarrow> uuid \<Rightarrow> instant \<Rightarrow> instant \<Rightarrow> store
    \<Rightarrow> (store_error + unit) \<times> store" where
  "enable_user cx at admin sid tgt t now =
    class_a cx at (Some admin) (enable_user_body admin sid tgt t now)"

definition delete_user ::
  "digest_env \<Rightarrow> instant \<Rightarrow> uuid \<Rightarrow> uuid \<Rightarrow> uuid \<Rightarrow> string option \<Rightarrow> instant \<Rightarrow> instant \<Rightarrow> store
    \<Rightarrow> (store_error + unit) \<times> store" where
  "delete_user cx at admin sid tgt reason t now =
    class_a cx at (Some admin) (delete_user_body admin sid tgt reason t now)"

definition change_user_role ::
  "digest_env \<Rightarrow> instant \<Rightarrow> uuid \<Rightarrow> uuid \<Rightarrow> role \<Rightarrow> instant \<Rightarrow> store \<Rightarrow> (store_error + unit) \<times> store" where
  "change_user_role cx at admin tgt new_role t =
    class_a cx at (Some admin) (change_user_role_body tgt new_role t)"

definition admin_reset_mfa ::
  "digest_env \<Rightarrow> instant \<Rightarrow> uuid \<Rightarrow> uuid \<Rightarrow> uuid \<Rightarrow> string option \<Rightarrow> instant \<Rightarrow> store
    \<Rightarrow> (store_error + bool \<times> nat) \<times> store" where
  "admin_reset_mfa cx at admin sid tgt reason now =
    class_a cx at (Some admin) (admin_reset_mfa_body admin sid tgt reason now)"

definition operator_reset_mfa ::
  "digest_env \<Rightarrow> instant \<Rightarrow> uuid \<Rightarrow> string \<Rightarrow> store \<Rightarrow> (store_error + bool \<times> nat) \<times> store" where
  "operator_reset_mfa cx at tgt reason = class_a cx at None (operator_reset_mfa_body tgt reason)"

definition admin_unlock_user ::
  "digest_env \<Rightarrow> instant \<Rightarrow> uuid \<Rightarrow> instant \<Rightarrow> store \<Rightarrow> (store_error + unit) \<times> store" where
  "admin_unlock_user cx at tgt t = class_a cx at None (admin_unlock_user_body tgt t)"

section \<open>Every body leaves the audit log to the runner\<close>

lemma keeps_step_up [frame]: "keeps part (session_step_up_evidence_within_tx sid actor now)"
  by (auto simp: keeps_def session_step_up_evidence_within_tx_def split: sum.splits option.splits if_splits)

lemma keeps_cut_access [frame]: "keeps audit (cut_access tgt now)"
  unfolding cut_access_def session_ops rt_revoke_all_for_user_within_tx_def by (intro frame) simp_all

lemma keeps_delete_passkeys [frame]:
  assumes "\<And>s x. part (s\<lparr>webauthn_credentials := x\<rparr>) = part s"
  shows "keeps part (delete_passkeys tgt cs)"
  using assms by (induction cs) (auto intro!: frame)

lemma keeps_remove_mfa [frame]: "keeps audit (remove_mfa_within_tx tgt)"
  unfolding remove_mfa_within_tx_def by (intro frame) simp_all

interpretation u22: command_body "record_login_failure_body uid policy t t'" for uid policy t t'
  unfolding record_login_failure_body_def user_ops by unfold_locales (intro frame; simp)

interpretation u01: command_body "create_user_body lower user" for lower user
  unfolding create_user_body_def by unfold_locales (intro frame; simp)

interpretation u02: command_body "disable_user_body admin sid tgt reason t now" for admin sid tgt reason t now
  unfolding disable_user_body_def user_ops by unfold_locales (intro frame; simp)

interpretation u03: command_body "enable_user_body admin sid tgt t now" for admin sid tgt t now
  unfolding enable_user_body_def user_ops by unfold_locales (intro frame; simp)

interpretation u04: command_body "delete_user_body admin sid tgt reason t now" for admin sid tgt reason t now
  unfolding delete_user_body_def user_ops by unfold_locales (intro frame; simp)

interpretation u05: command_body "change_user_role_body tgt new_role t" for tgt new_role t
  unfolding change_user_role_body_def user_ops by unfold_locales (intro frame; simp)

interpretation u07: command_body "admin_reset_mfa_body admin sid tgt reason now" for admin sid tgt reason now
  unfolding admin_reset_mfa_body_def case_prod_unfold by unfold_locales (intro frame)

interpretation u07_cli: command_body "operator_reset_mfa_body tgt reason" for tgt reason
  unfolding operator_reset_mfa_body_def case_prod_unfold by unfold_locales (intro frame)

interpretation u08: command_body "admin_unlock_user_body tgt t" for tgt t
  unfolding admin_unlock_user_body_def user_ops by unfold_locales (intro frame; simp)

section \<open>Step-up\<close>

definition stepped_up :: "uuid \<Rightarrow> uuid \<Rightarrow> instant \<Rightarrow> store \<Rightarrow> bool" where
  "stepped_up sid actor now s =
    (session_live sid actor now s \<and>
     (\<not> has_second_factor actor s \<or>
      (\<exists>r t. List.find (by_session_id sid) (sessions s) = Some r \<and> s_last_step_up_at r = Some t
        \<and> t \<le> now \<and> now - t < seconds (STEP_UP_FRESHNESS_SECS + 1))))"

lemma fresh_window: "num_seconds d \<le> STEP_UP_FRESHNESS_SECS \<longleftrightarrow> d < seconds (STEP_UP_FRESHNESS_SECS + 1)"
  using num_seconds_less_iff [of "STEP_UP_FRESHNESS_SECS + 1" d]
  unfolding STEP_UP_FRESHNESS_SECS_def by linarith

lemma step_up_evidence_ok:
  assumes "session_step_up_evidence_within_tx sid actor now s = Inr (ev, s')"
  shows "stepped_up sid actor now s \<and> s' = s"
  using assms
  by (auto simp: session_step_up_evidence_within_tx_def stepped_up_def results fresh_window
      split: sum.splits if_splits option.splits)

lemma step_up_evidence_refused:
  assumes "\<not> stepped_up sid actor now s"
  shows "session_step_up_evidence_within_tx sid actor now s = Inl StepUpRequired"
proof (cases "session_live sid actor now s")
  case True
  then obtain r where "List.find (by_session_id sid) (sessions s) = Some r"
    by (elim session_liveD) blast
  then show ?thesis
    using True assms
    by (auto simp: session_step_up_evidence_within_tx_def require_live_session_within_tx_def stepped_up_def
        fresh_window split: option.splits)
next
  case False
  then show ?thesis
    by (simp add: session_step_up_evidence_within_tx_def require_live_session_within_tx_def)
qed

lemma step_up_bind_refused:
  assumes "\<not> stepped_up sid actor now s"
  shows "tx_bind (session_step_up_evidence_within_tx sid actor now) f s = Inl StepUpRequired"
  using step_up_evidence_refused [OF assms] by simp

section \<open>Cutting off access\<close>

definition access_cut :: "uuid \<Rightarrow> instant \<Rightarrow> store \<Rightarrow> bool" where
  "access_cut tgt now s =
    ((\<forall>r \<in> set (sessions s). s_user_id r = tgt \<longrightarrow> s_revoked_at r \<noteq> None) \<and>
     (\<forall>r \<in> set (refresh_tokens s). rt_user_id r = tgt \<longrightarrow> \<not> rt_active r) \<and>
     (\<forall>r \<in> set (auth_codes s). ac_user_id r = tgt \<longrightarrow> ac_consumed r) \<and>
     (\<forall>r \<in> set (password_reset_tokens s). prt_user_id r = tgt \<longrightarrow> \<not> reset_outstanding now r))"

definition rest_of :: "uuid \<Rightarrow> store \<Rightarrow> store" where
  "rest_of tgt s = s\<lparr> users := filter (\<lambda>u. u_id u \<noteq> tgt) (users s),
    sessions := filter (\<lambda>r. s_user_id r \<noteq> tgt) (sessions s),
    refresh_tokens := filter (\<lambda>r. rt_user_id r \<noteq> tgt) (refresh_tokens s),
    auth_codes := filter (\<lambda>r. ac_user_id r \<noteq> tgt) (auth_codes s),
    password_reset_tokens := filter (\<lambda>r. prt_user_id r \<noteq> tgt) (password_reset_tokens s),
    audit := \<lparr> entries = [], autoinc = 0 \<rparr> \<rparr>"

definition after_cut :: "uuid \<Rightarrow> instant \<Rightarrow> store \<Rightarrow> store" where
  "after_cut tgt now s = s\<lparr>
      sessions := update_where (\<lambda>r. s_user_id r = tgt \<and> s_revoked_at r = None) (\<lambda>r. r\<lparr>s_revoked_at := Some now\<rparr>) (sessions s),
      refresh_tokens := update_where (\<lambda>r. rt_user_id r = tgt \<and> rt_active r) (rt_revoke now) (refresh_tokens s),
      auth_codes := update_where (\<lambda>r. ac_user_id r = tgt \<and> \<not> ac_consumed r) (\<lambda>r. r\<lparr>ac_consumed := True\<rparr>) (auth_codes s),
      password_reset_tokens := update_where (\<lambda>r. prt_user_id r = tgt \<and> reset_outstanding now r)
        (\<lambda>r. r\<lparr>prt_revoked_at := Some now\<rparr>) (password_reset_tokens s) \<rparr>"

lemma cut_access_eq: "cut_access tgt now s = Inr ((), after_cut tgt now s)"
  by (simp add: cut_access_def session_ops rt_revoke_all_for_user_within_tx_def revoke_rows_where_def
      ac_invalidate_all_for_user_within_tx_def revoke_outstanding_for_user_within_tx_def update_sessions_def
      tx_bind_def after_cut_def Let_def)

lemma access_cut_after: "access_cut tgt now (after_cut tgt now s)"
  unfolding access_cut_def after_cut_def
  by (simp, intro conjI all_update_where) (auto simp: rt_active_def rt_revoke_def reset_outstanding_def)

lemma rest_of_after [simp]: "rest_of tgt (after_cut tgt now s) = rest_of tgt s"
  by (simp add: after_cut_def rest_of_def filter_update_other rt_revoke_def)

lemma users_after_cut [simp]: "users (after_cut tgt now s) = users s"
  by (simp add: after_cut_def)

lemma access_cut_audit [simp]: "access_cut tgt now (s\<lparr>audit := a\<rparr>) = access_cut tgt now s"
  by (simp add: access_cut_def)

lemma rest_of_audit [simp]: "rest_of tgt (s\<lparr>audit := a\<rparr>) = rest_of tgt s"
  by (simp add: rest_of_def)

lemma rest_of_users [simp]:
  assumes "\<And>u. u_id (f u) = u_id u"
  shows "rest_of tgt (s\<lparr>users := update_where (by_user_id tgt) f (users s)\<rparr>) = rest_of tgt s"
  using assms filter_update_other [of u_id f tgt "\<lambda>_. True" "users s"]
  by (simp add: rest_of_def by_user_id_def [abs_def])

text \<open>What U02 and U04 have in common: \<open>f\<close> is the change of the user row.\<close>

lemma deactivation_body:
  assumes "tx_bind (update_existing_user tgt f) (\<lambda>_. tx_bind (cut_access tgt now) (\<lambda>_. tx_return v)) s = Inr (w, s')"
    and "\<And>u. u_id (f u) = u_id u" "\<And>u. \<not> user_active (f u)"
  shows "access_cut tgt now s' \<and> rest_of tgt s' = rest_of tgt s \<and>
    (\<exists>u \<in> set (users s'). u_id u = tgt) \<and> (\<forall>u \<in> set (users s'). u_id u = tgt \<longrightarrow> \<not> user_active u)"
proof -
  let ?s1 = "s\<lparr>users := update_where (by_user_id tgt) f (users s)\<rparr>"
  have ex: "\<exists>u \<in> set (users s). u_id u = tgt" and s': "s' = after_cut tgt now ?s1"
    using assms(1) by (auto simp: results cut_access_eq)
  have "\<exists>u \<in> set (users s'). u_id u = tgt"
    using ex assms(2) by (auto simp: s' set_update_where by_user_id_def)
  moreover have "\<forall>u \<in> set (users s'). u_id u = tgt \<longrightarrow> \<not> user_active u"
    using assms(2,3) by (auto simp: s' set_update_where by_user_id_def)
  ultimately show ?thesis
    using assms(2) by (simp add: s' access_cut_after)
qed

lemma inactive_not_live:
  assumes "\<forall>u \<in> set (users s). u_id u = tgt \<longrightarrow> \<not> user_active u"
  shows "\<not> session_live sid tgt now s"
proof
  assume "session_live sid tgt now s"
  then obtain u where u: "List.find (by_user_id tgt) (users s) = Some u" "user_active u"
    by (rule session_liveD)
  then show False
    using assms find_Some_in [OF u(1)] by (simp add: by_user_id_def)
qed

lemma step_up_bindD:
  assumes "tx_bind (session_step_up_evidence_within_tx sid actor now) f s = Inr (v, s')"
  obtains ev where "f ev s = Inr (v, s')" "stepped_up sid actor now s"
proof -
  obtain ev t where "session_step_up_evidence_within_tx sid actor now s = Inr (ev, t)" "f ev t = Inr (v, s')"
    using assms by (auto simp: results)
  with step_up_evidence_ok show thesis
    using that by blast
qed

lemma disable_body_spec:
  assumes "disable_user_body admin sid tgt reason t now s = Inr (v, s')"
  shows "access_cut tgt now s' \<and> rest_of tgt s' = rest_of tgt s \<and>
    (\<exists>u \<in> set (users s'). u_id u = tgt) \<and> (\<forall>u \<in> set (users s'). u_id u = tgt \<longrightarrow> \<not> user_active u)"
  using assms unfolding disable_user_body_def set_disabled_within_tx_def
  by (elim step_up_bindD) (rule deactivation_body, assumption, simp_all add: user_active_def)

lemma delete_body_spec:
  assumes "delete_user_body admin sid tgt reason t now s = Inr (v, s')"
  shows "access_cut tgt now s' \<and> rest_of tgt s' = rest_of tgt s \<and>
    (\<exists>u \<in> set (users s'). u_id u = tgt) \<and> (\<forall>u \<in> set (users s'). u_id u = tgt \<longrightarrow> \<not> user_active u)"
  using assms unfolding delete_user_body_def soft_delete_within_tx_def
  by (elim step_up_bindD) (rule deactivation_body, assumption, simp_all add: user_active_def)

section \<open>Roles\<close>

definition admins :: "store \<Rightarrow> user_row list" where
  "admins s = filter (\<lambda>u. u_role u = Admin \<and> \<not> u_is_deleted u) (users s)"

lemma is_admin_role_iff: "is_admin_role r \<longleftrightarrow> r = Admin"
  by (cases r) (simp_all add: is_admin_role_def)

lemma change_role_body_spec:
  assumes "change_user_role_body tgt new_role t s = Inr (v, s')"
  obtains u where "List.find (\<lambda>u. u_id u = tgt \<and> \<not> u_is_deleted u) (users s) = Some u"
    "u_role u = Admin \<Longrightarrow> new_role \<noteq> Admin \<Longrightarrow> length (admins s) \<ge> 2"
    "users s' = update_where (\<lambda>u. u_id u = tgt \<and> \<not> u_is_deleted u)
       (\<lambda>u. u\<lparr> u_role := new_role, u_is_admin := is_admin_role new_role, u_updated_at := seconds (timestamp t) \<rparr>) (users s)"
  using assms that
  by (auto simp: change_user_role_body_def results get_role_within_tx_def set_role_within_tx_def Let_def
      count_admins_within_tx_def affected_def admins_def is_admin_role_iff split: option.splits if_splits)

lemma change_role_keeps_admin:
  assumes "users_keyed s" "admins s \<noteq> []" "change_user_role_body tgt new_role t s = Inr (v, s')"
  shows "admins s' \<noteq> []"
proof -
  let ?q = "\<lambda>u. u_role u = Admin \<and> \<not> u_is_deleted u"
  let ?p = "\<lambda>u. u_id u = tgt \<and> \<not> u_is_deleted u"
  let ?f = "\<lambda>u. u\<lparr> u_role := new_role, u_is_admin := is_admin_role new_role, u_updated_at := seconds (timestamp t) \<rparr>"
  obtain u where u: "List.find ?p (users s) = Some u"
    and two: "u_role u = Admin \<Longrightarrow> new_role \<noteq> Admin \<Longrightarrow> length (admins s) \<ge> 2"
    and users': "users s' = update_where ?p ?f (users s)"
    using assms(3) by (rule change_role_body_spec) blast
  have le: "length (admins s) \<le> Suc (length (admins s'))"
    using length_filter_update_one [of u_id "users s" ?p tgt ?q ?f] assms(1)
    by (simp add: admins_def users' users_keyed_def)
  show ?thesis
  proof (cases "u_role u = Admin \<and> new_role \<noteq> Admin")
    case True
    then show ?thesis
      using le two by auto
  next
    case False
    obtain a where a: "a \<in> set (users s)" "?q a"
      using assms(2) by (auto simp: admins_def filter_empty_conv)
    have "new_role = Admin" if "?p a"
      using distinct_key_eq [of u_id "users s" a u] find_Some_in [OF u] assms(1) a that False
      by (auto simp: users_keyed_def)
    then have "?q (if ?p a then ?f a else a)"
      using a by simp
    then have "\<exists>b \<in> set (users s'). ?q b"
      unfolding users' set_update_where using a(1) by blast
    then show ?thesis
      by (auto simp: admins_def filter_empty_conv)
  qed
qed

section \<open>Login failures\<close>

definition after_failure :: "(int \<Rightarrow> int option) \<Rightarrow> instant \<Rightarrow> instant \<Rightarrow> user_row \<Rightarrow> user_row" where
  "after_failure policy t t' u =
    u\<lparr> u_failed_login_count := u_failed_login_count u + 1,
      u_locked_until := map_option (\<lambda>w. t' + w) (policy (u_failed_login_count u + 1)),
      u_updated_at := t \<rparr>"

lemma login_failure_body_eq:
  assumes "users_keyed s" "u \<in> set (users s)"
  shows "\<exists>ev. record_login_failure_body (u_id u) policy t t' s =
      Inr ((u_failed_login_count u + 1, ev), s\<lparr>users := update_where (by_user_id (u_id u)) (after_failure policy t t') (users s)\<rparr>)
    \<and> ev = (case policy (u_failed_login_count u + 1) of
        Some w \<Rightarrow> U22_lockout_event (u_id u) (u_failed_login_count u + 1) (num_seconds w)
      | None \<Rightarrow> U22_failure_event (u_id u) (u_failed_login_count u + 1))"
proof -
  have found: "List.find (by_user_id (u_id u)) (users s) = Some u"
    using assms by (simp add: find_user_iff)
  have same: "r = u" if "r \<in> set (users s)" "by_user_id (u_id u) r" for r
    using distinct_key_eq [of u_id "users s" r u] assms that by (simp add: users_keyed_def by_user_id_def)
  have upd: "update_where (by_user_id (u_id u)) (\<lambda>r. r\<lparr> u_failed_login_count := u_failed_login_count u + 1,
        u_locked_until := map_option (\<lambda>w. t' + w) (policy (u_failed_login_count u + 1)), u_updated_at := t \<rparr>) (users s)
      = update_where (by_user_id (u_id u)) (after_failure policy t t') (users s)"
    by (rule update_where_cong) (use same in \<open>fastforce simp: after_failure_def\<close>)
  have twice: "update_where (by_user_id (u_id u)) (\<lambda>r. r\<lparr>u_locked_until := l\<rparr>) (update_where (by_user_id (u_id u))
        (\<lambda>r. r\<lparr> u_failed_login_count := c, u_locked_until := None, u_updated_at := t \<rparr>) (users s))
      = update_where (by_user_id (u_id u)) (\<lambda>r. r\<lparr> u_failed_login_count := c, u_locked_until := l, u_updated_at := t \<rparr>) (users s)"
    for l c
    by (subst update_where_twice, simp) (rule update_where_cong, rule user_row.equality, simp_all)
  show ?thesis
    using found upd
    by (cases "policy (u_failed_login_count u + 1)")
      (simp_all add: record_login_failure_body_def record_login_failure_within_tx_def tx_bind_def update_user_def
        Let_def twice)
qed

section \<open>Events are always well formed\<close>

lemma checked_ok_event:
  assumes "attributes_ok kvs" "list_all (\<lambda>(name, required). required \<longrightarrow> name \<in> fst ` set kvs) spec"
  shows "checked_attributes (ok_event name spec tgt kvs) = Inr kvs"
  using assms by (intro checked_attributes_plain) (simp_all add: ok_event_def)

lemmas attribute_bounds = attributes_ok_def MAX_ATTRIBUTES_def MAX_ATTRIBUTE_VALUE_BYTES_def

lemma checked_U22:
  assumes "\<bar>n\<bar> < 10 ^ 19" "\<bar>k\<bar> < 10 ^ 19"
  shows "checked_attributes (U22_failure_event uid n) = Inr [(''count'', dec_int n)]"
    and "checked_attributes (U22_lockout_event uid n k) = Inr [(''count'', dec_int n), (''locked_for_secs'', dec_int k)]"
  using length_dec_int_bound [of 19 n] length_dec_int_bound [of 19 k] assms
  unfolding U22_failure_event_def U22_lockout_event_def
  by (auto intro!: checked_ok_event simp: attribute_bounds)

section \<open>Properties\<close>

definition demo_user :: "string \<Rightarrow> role \<Rightarrow> user_row" where
  "demo_user name r = \<lparr> u_id = name, u_username = name, u_display_name = None, u_email = None,
     u_email_normalized = None, u_email_verified_at = None, u_preferred_lang = None,
     u_is_admin = is_admin_role r, u_role = r, u_is_disabled = False, u_is_deleted = False, u_last_login_at = None,
     u_user_uuid = name, u_created_at = 0, u_updated_at = 0, u_failed_login_count = 0, u_mfa_failure_count = 0,
     u_locked_until = None, u_source = Local, u_external_stable_id = None \<rparr>"

definition demo_session :: "string \<Rightarrow> string \<Rightarrow> session_row" where
  "demo_session sid uid = \<lparr> s_id = sid, s_user_id = uid, s_expires_at = seconds 1000, s_created_at = 0,
     s_revoked_at = None, s_auth_methods = [Pwd], s_last_step_up_at = None, s_last_used_at = None,
     s_last_step_up_method = None, s_step_up_failure_count = 0 \<rparr>"

definition demo_accounts :: store where
  "demo_accounts = empty_store\<lparr> users := [demo_user ''root'' Admin, demo_user ''u1'' User],
     sessions := [demo_session ''s1'' ''root'', demo_session ''s2'' ''u1''], refresh_tokens := [demo_token] \<rparr>"

lemmas demo_accounts_simps = demo_accounts_def demo_user_def demo_session_def empty_store_def

lemma demo_live: "session_live ''s1'' ''root'' 0 demo_accounts"
  by (simp add: session_live_def get_with_user_active_def demo_accounts_simps by_session_id_def by_user_id_def
      user_active_def seconds_def nanos_def)

lemma demo_keyed: "users_keyed demo_accounts"
  by (simp add: users_keyed_def demo_accounts_simps)

lemma demo_evidence: "session_step_up_evidence_within_tx ''s1'' ''root'' 0 demo_accounts = Inr (NotRequired, demo_accounts)"
  using demo_live
  by (simp add: session_step_up_evidence_within_tx_def require_live_session_within_tx_def has_second_factor_def
      demo_accounts_simps)

lemma demo_disable:
  "\<exists>s'. disable_user demo_env 0 ''root'' ''s1'' ''u1'' None 0 0 demo_accounts = (Inr (), s')"
proof -
  have upd: "\<exists>s1. update_existing_user ''u1'' f demo_accounts = Inr ((), s1)" for f
    by (simp add: results demo_accounts_simps)
  have "checked_attributes (U02_event ''u1'' None NotRequired) = Inr [(''step_up'', as_attribute NotRequired)]"
    unfolding U02_event_def by (simp add: opt_attr_def, intro checked_ok_event) (simp_all add: attribute_bounds)
  moreover obtain s1 where "disable_user_body ''root'' ''s1'' ''u1'' None 0 0 demo_accounts
      = Inr (((), U02_event ''u1'' None NotRequired), s1)"
    using demo_evidence upd [of "\<lambda>u. u\<lparr> u_is_disabled := True, u_updated_at := 0 \<rparr>"]
    by (auto simp: disable_user_body_def set_disabled_within_tx_def cut_access_eq)
  ultimately show ?thesis
    unfolding disable_user_def by (intro exI) (rule u02.class_a_commit)
qed

text \<open>Disabling or deleting a user takes effect at once and completely: the user is inactive, every
  session is revoked and none can be resumed at any later time, no refresh token is active, no
  authorization code can be redeemed, no recovery link is outstanding; nobody else's rows change, and
  exactly one audit row is appended.\<close>

theorem deactivation_cuts_access:
  assumes "disable_user cx at admin sid tgt reason t now s = (Inr (), s')
    \<or> delete_user cx at admin sid tgt reason t now s = (Inr (), s')"
  shows "access_cut tgt now s' \<and> (\<exists>u \<in> set (users s'). u_id u = tgt) \<and>
    (\<forall>sid' now'. \<not> session_live sid' tgt now' s') \<and> rest_of tgt s' = rest_of tgt s \<and>
    length (entries (audit s')) = Suc (length (entries (audit s)))"
proof -
  obtain v s1 a where "disable_user_body admin sid tgt reason t now s = Inr (v, s1)
      \<or> delete_user_body admin sid tgt reason t now s = Inr (v, s1)" and s': "s' = s1\<lparr>audit := a\<rparr>"
    using assms unfolding disable_user_def delete_user_def
    by (elim disjE u02.class_a_success u04.class_a_success) blast+
  then have "access_cut tgt now s1 \<and> rest_of tgt s1 = rest_of tgt s \<and>
      (\<exists>u \<in> set (users s1). u_id u = tgt) \<and> (\<forall>u \<in> set (users s1). u_id u = tgt \<longrightarrow> \<not> user_active u)"
    using disable_body_spec delete_body_spec by metis
  moreover have "length (entries (audit s')) = Suc (length (entries (audit s)))"
    using assms u02.log_length [of cx at "Some admin" admin sid tgt reason t now s]
      u04.log_length [of cx at "Some admin" admin sid tgt reason t now s]
    by (auto simp: disable_user_def delete_user_def)
  ultimately show ?thesis
    using inactive_not_live [of s' tgt] by (simp add: s')
qed

theorem deactivation_cuts_access_witness:
  "\<exists>s'. disable_user demo_env 0 ''root'' ''s1'' ''u1'' None 0 0 demo_accounts = (Inr (), s') \<and>
    access_cut ''u1'' 0 s' \<and> \<not> session_live ''s2'' ''u1'' 0 s'"
  using demo_disable deactivation_cuts_access by blast

text \<open>C30: The gated commands (disable, enable, delete, reset second factors) are refused with
  \<open>StepUpRequired\<close>, changing nothing, unless the acting session is live, belongs to the acting user,
  and either that user has no second factor or the session stepped up in the last 301 seconds (the
  age is truncated to whole seconds before it is compared with 300).\<close>

theorem gated_commands_need_step_up:
  assumes "\<not> stepped_up sid admin now s"
  shows "disable_user cx at admin sid tgt reason t now s = (Inl StepUpRequired, s) \<and>
    enable_user cx at admin sid tgt t now s = (Inl StepUpRequired, s) \<and>
    delete_user cx at admin sid tgt reason t now s = (Inl StepUpRequired, s) \<and>
    admin_reset_mfa cx at admin sid tgt reason now s = (Inl StepUpRequired, s)"
  unfolding disable_user_def enable_user_def delete_user_def admin_reset_mfa_def
  by (intro conjI u02.class_a_abort u03.class_a_abort u04.class_a_abort u07.class_a_abort)
    (simp_all add: disable_user_body_def enable_user_body_def delete_user_body_def admin_reset_mfa_body_def
      step_up_bind_refused assms)

theorem gated_commands_need_step_up_witness:
  "\<not> stepped_up ''s2'' ''root'' 0 demo_accounts \<and>
    disable_user demo_env 0 ''root'' ''s2'' ''u1'' None 0 0 demo_accounts = (Inl StepUpRequired, demo_accounts)"
proof -
  have "\<not> stepped_up ''s2'' ''root'' 0 demo_accounts"
    by (simp add: stepped_up_def session_live_def get_with_user_active_def demo_accounts_simps by_session_id_def
        by_user_id_def)
  then show ?thesis
    using gated_commands_need_step_up by blast
qed

text \<open>A role change never removes the last administrator: whatever it answers, an administrator
  that is not deleted remains, and demoting the only one is refused with a conflict.\<close>

theorem role_change_keeps_an_admin:
  assumes "users_keyed s" "admins s \<noteq> []"
  shows "admins (snd (change_user_role cx at actor tgt new_role t s)) \<noteq> [] \<and>
    (map u_id (admins s) = [tgt] \<longrightarrow> new_role \<noteq> Admin \<longrightarrow>
       change_user_role cx at actor tgt new_role t s = (Inl StoreConflict, s))"
proof
  show "admins (snd (change_user_role cx at actor tgt new_role t s)) \<noteq> []"
  proof (cases "change_user_role cx at actor tgt new_role t s")
    case (Pair r s')
    show ?thesis
    proof (cases r)
      case (Inl e)
      then show ?thesis
        using Pair u05.class_a_error assms(2) by (fastforce simp: change_user_role_def)
    next
      case (Inr v)
      then have "class_a cx at (Some actor) (change_user_role_body tgt new_role t) s = (Inr v, s')"
        using Pair by (simp add: change_user_role_def)
      then obtain w s1 a where "change_user_role_body tgt new_role t s = Inr (w, s1)" "s' = s1\<lparr>audit := a\<rparr>"
        by (rule u05.class_a_success)
      then show ?thesis
        using change_role_keeps_admin [OF assms] Pair by (simp add: admins_def)
    qed
  qed
  show "map u_id (admins s) = [tgt] \<longrightarrow> new_role \<noteq> Admin \<longrightarrow>
      change_user_role cx at actor tgt new_role t s = (Inl StoreConflict, s)"
  proof (intro impI)
    assume one: "map u_id (admins s) = [tgt]" "new_role \<noteq> Admin"
    then obtain a where a: "admins s = [a]" "u_id a = tgt"
      by auto
    then have "a \<in> set (admins s)"
      by simp
    then have mem: "a \<in> set (users s)" "u_role a = Admin" "\<not> u_is_deleted a"
      by (simp_all add: admins_def)
    have "List.find (\<lambda>u. u_id u = tgt \<and> \<not> u_is_deleted u) (users s) = Some a"
      using assms(1) mem a(2) by (intro find_keyed [of u_id]) (auto simp: users_keyed_def)
    then have "change_user_role_body tgt new_role t s = Inl StoreConflict"
      using one a mem
      by (simp add: change_user_role_body_def get_role_within_tx_def count_admins_within_tx_def is_admin_role_iff
          affected_def tx_bind_def admins_def)
    then show "change_user_role cx at actor tgt new_role t s = (Inl StoreConflict, s)"
      unfolding change_user_role_def by (rule u05.class_a_abort)
  qed
qed

theorem role_change_keeps_an_admin_witness:
  "change_user_role demo_env 0 ''root'' ''root'' User 0 demo_accounts = (Inl StoreConflict, demo_accounts)"
  using role_change_keeps_an_admin [of demo_accounts demo_env 0 "''root''" "''root''" User 0] demo_keyed
  by (simp add: admins_def demo_accounts_simps)

text \<open>A failed password attempt is always counted, in one transaction with its audit row: the counter
  goes up by one, and the lock is set from the lockout policy at the new count.  Where the policy gives
  no window the lock is cleared, so a lock that another failure path has set since the attempt began
  does not survive.\<close>

theorem login_failure_counts:
  assumes "users_keyed s" "u \<in> set (users s)" "\<bar>u_failed_login_count u + 1\<bar> < 10 ^ 19"
    and "\<And>w. policy (u_failed_login_count u + 1) = Some w \<Longrightarrow> \<bar>num_seconds w\<bar> < 10 ^ 19"
  shows "\<exists>row. record_login_failure cx at (u_id u) policy t t' s =
    (Inr (u_failed_login_count u + 1),
     s\<lparr> users := update_where (by_user_id (u_id u)) (after_failure policy t t') (users s),
        audit := append_within_tx cx row (audit s) \<rparr>)
    \<and> al_target row = Some (u_id u) \<and> al_action row =
       (if policy (u_failed_login_count u + 1) = None then ''auth.login.failure'' else ''auth.lockout'')"
proof (cases "policy (u_failed_login_count u + 1)")
  case None
  then show ?thesis
    using login_failure_body_eq [OF assms(1,2), of policy t t'] checked_U22(1) [OF assms(3), of 0 "u_id u"]
      u22.class_a_commit [of "u_id u" policy t t' s]
    by (auto simp: record_login_failure_def build_audit_row_def U22_failure_event_def ok_event_def)
next
  case (Some w)
  then show ?thesis
    using login_failure_body_eq [OF assms(1,2), of policy t t'] checked_U22(2) [OF assms(3) assms(4) [OF Some], of "u_id u"]
      u22.class_a_commit [of "u_id u" policy t t' s]
    by (auto simp: record_login_failure_def build_audit_row_def U22_lockout_event_def ok_event_def)
qed

theorem login_failure_counts_witness:
  "fst (record_login_failure demo_env 0 ''u1'' (\<lambda>_. None) 5 5
      (demo_accounts\<lparr>users := [(demo_user ''u1'' User)\<lparr>u_locked_until := Some (seconds 900)\<rparr>]\<rparr>)) = Inr 1 \<and>
   map u_locked_until (users (snd (record_login_failure demo_env 0 ''u1'' (\<lambda>_. None) 5 5
      (demo_accounts\<lparr>users := [(demo_user ''u1'' User)\<lparr>u_locked_until := Some (seconds 900)\<rparr>]\<rparr>)))) = [None]"
proof -
  let ?u = "(demo_user ''u1'' User)\<lparr>u_locked_until := Some (seconds 900)\<rparr>"
  obtain row where "record_login_failure demo_env 0 (u_id ?u) (\<lambda>_. None) 5 5 (demo_accounts\<lparr>users := [?u]\<rparr>) =
     (Inr (u_failed_login_count ?u + 1),
      demo_accounts\<lparr> users := update_where (by_user_id (u_id ?u)) (after_failure (\<lambda>_. None) 5 5) [?u],
        audit := append_within_tx demo_env row (audit demo_accounts) \<rparr>)"
    using login_failure_counts [of "demo_accounts\<lparr>users := [?u]\<rparr>" ?u "\<lambda>_. None" demo_env 0 5 5]
    by (auto simp: users_keyed_def demo_user_def)
  then show ?thesis
    by (simp add: demo_user_def update_where_def by_user_id_def after_failure_def)
qed

end
