(* ===== verification/Recovery.thy ===== *)
theory Recovery
  imports Accounts
begin

text \<open>
  Password changes and recovery links: the commands U09 (self-service change), U10 (completion of a
  reset link) and U37 (issuing a link, by an administrator or by the operator) of \<open>commands.rs\<close>.
  \<open>rfc3339_secs\<close> is chrono's RFC 3339 formatter with whole seconds.
\<close>

section \<open>U09: changing one's own password\<close>

definition U09_event :: "uuid \<Rightarrow> nat \<Rightarrow> nat \<Rightarrow> int option \<Rightarrow> sealed_event" where
  "U09_event uid sessions_revoked refresh_tokens_revoked lockout =
    ok_event ''auth.password.changed_self''
      [(''sessions_revoked'', False), (''refresh_tokens_revoked'', False), (''lockout_cleared'', False)] uid
      ([(''sessions_revoked'', dec sessions_revoked), (''refresh_tokens_revoked'', dec refresh_tokens_revoked)]
       @ opt_attr ''lockout_cleared'' (map_option dec_int lockout))"

definition sweep_others :: "uuid \<Rightarrow> uuid option \<Rightarrow> bool \<Rightarrow> instant \<Rightarrow> (nat \<times> nat) tx" where
  "sweep_others uid keep revoke_others now =
    (if revoke_others
     then tx_bind (case keep of
             Some sid \<Rightarrow> session_revoke_all_for_user_except_within_tx uid sid now
           | None \<Rightarrow> session_revoke_all_for_user_within_tx uid now) (\<lambda>ss.
          tx_bind (rt_revoke_all_for_user_within_tx uid now) (\<lambda>rs. tx_return (ss, rs)))
     else tx_return (0, 0))"

definition change_password_self_body ::
  "uuid \<Rightarrow> credential_row \<Rightarrow> uuid option \<Rightarrow> bool \<Rightarrow> instant \<Rightarrow> ((nat \<times> nat) \<times> sealed_event) tx" where
  "change_password_self_body uid credential keep revoke_others now =
    tx_bind (credential_upsert_within_tx credential) (\<lambda>_.
    tx_bind (clear_password_lockout_within_tx uid now) (\<lambda>lockout.
    tx_bind (revoke_outstanding_for_user_within_tx uid None now) (\<lambda>_.
    tx_bind (sweep_others uid keep revoke_others now) (\<lambda>(ss, rs).
      tx_return ((ss, rs), U09_event uid ss rs (cleared_attribute lockout))))))"

definition change_password_self ::
  "digest_env \<Rightarrow> instant \<Rightarrow> uuid \<Rightarrow> credential_row \<Rightarrow> uuid option \<Rightarrow> bool \<Rightarrow> instant \<Rightarrow> store
    \<Rightarrow> (store_error + nat \<times> nat) \<times> store" where
  "change_password_self cx at uid credential keep revoke_others now =
    class_a cx at (Some uid) (change_password_self_body uid credential keep revoke_others now)"

section \<open>U10: completing a reset link\<close>

fun origin_as_str :: "reset_token_origin \<Rightarrow> string" where
  "origin_as_str OriginEmail = ''email''"
| "origin_as_str OriginWeb = ''web''"
| "origin_as_str OriginCli = ''cli''"

definition U10_event :: "uuid \<Rightarrow> reset_token_origin \<Rightarrow> bool \<Rightarrow> int option \<Rightarrow> sealed_event" where
  "U10_event uid origin hibp_warned lockout =
    ok_event ''auth.password.reset_completed'' [(''origin'', False), (''hibp'', False), (''lockout_cleared'', False)] uid
      ([(''origin'', origin_as_str origin)] @ (if hibp_warned then [(''hibp'', ''warned'')] else [])
       @ opt_attr ''lockout_cleared'' (map_option dec_int lockout))"

definition consume_and_reset_password_body ::
  "uuid \<Rightarrow> uuid \<Rightarrow> credential_row \<Rightarrow> instant \<Rightarrow> bool \<Rightarrow> (password_lockout_cleared \<times> sealed_event) tx" where
  "consume_and_reset_password_body uid token_id credential consumed_at hibp_warned =
    tx_bind (mark_consumed_within_tx token_id consumed_at) (\<lambda>_.
    tx_bind (is_active_local_within_tx uid) (\<lambda>eligible.
    tx_bind (tx_guard eligible StoreNotFound) (\<lambda>_.
    tx_bind (origin_within_tx token_id) (\<lambda>origin.
    tx_bind (credential_upsert_within_tx credential) (\<lambda>_.
    tx_bind (clear_password_lockout_within_tx uid consumed_at) (\<lambda>lockout.
    tx_bind (session_revoke_all_for_user_within_tx uid consumed_at) (\<lambda>_.
    tx_bind (rt_revoke_all_for_user_within_tx uid consumed_at) (\<lambda>_.
    tx_bind (revoke_outstanding_for_user_within_tx uid (Some token_id) consumed_at) (\<lambda>_.
      tx_return (lockout, U10_event uid origin hibp_warned (cleared_attribute lockout)))))))))))"

definition consume_and_reset_password ::
  "digest_env \<Rightarrow> instant \<Rightarrow> uuid \<Rightarrow> uuid \<Rightarrow> credential_row \<Rightarrow> instant \<Rightarrow> bool \<Rightarrow> store
    \<Rightarrow> (store_error + password_lockout_cleared) \<times> store" where
  "consume_and_reset_password cx at uid token_id credential consumed_at hibp_warned =
    class_a cx at None (consume_and_reset_password_body uid token_id credential consumed_at hibp_warned)"

section \<open>U37: issuing a recovery link\<close>

definition RECOVERY_LINKS_PER_HOUR :: int where
  "RECOVERY_LINKS_PER_HOUR = 5"

definition PROVISIONING_LINKS_PER_HOUR :: int where
  "PROVISIONING_LINKS_PER_HOUR = 50"

definition RECOVERY_REASON_MAX_CHARS :: nat where
  "RECOVERY_REASON_MAX_CHARS = 200"

definition is_ascii_control :: "string \<Rightarrow> bool" where
  "is_ascii_control c = (code_point c < 32 \<or> code_point c = 127)"

definition validated_recovery_reason :: "string \<Rightarrow> store_error + string" where
  "validated_recovery_reason raw =
    (let reason = str_trim raw in
     if reason = [] then Inl (RecoveryRefused ReasonRequired)
     else if length (utf8_chars reason) > RECOVERY_REASON_MAX_CHARS \<or> length reason > MAX_ATTRIBUTE_VALUE_BYTES
       then Inl (RecoveryRefused ReasonTooLong)
     else if list_ex is_ascii_control (utf8_chars reason) then Inl (RecoveryRefused ReasonHasControlCharacters)
     else Inr reason)"

record recovery_target =
  rt_role :: role
  rt_source :: user_source
  rt_is_disabled :: bool
  rt_is_deleted :: bool
  never_activated :: bool
  has_any_token :: bool

definition recovery_target_within_tx :: "uuid \<Rightarrow> recovery_target tx" where
  "recovery_target_within_tx uid s =
    (case List.find (by_user_id uid) (users s) of
       None \<Rightarrow> Inl StoreNotFound
     | Some u \<Rightarrow> Inr (\<lparr> rt_role = u_role u, rt_source = u_source u, rt_is_disabled = u_is_disabled u,
         rt_is_deleted = u_is_deleted u,
         never_activated = (\<not> list_ex (\<lambda>c. cr_user_id c = uid) (credentials s) \<and> u_last_login_at u = None),
         has_any_token = list_ex (\<lambda>r. prt_user_id r = uid) (password_reset_tokens s) \<rparr>, s))"

definition target_refusal :: "uuid \<Rightarrow> uuid option \<Rightarrow> recovery_target \<Rightarrow> recovery_refusal option" where
  "target_refusal tgt admin_issuer t =
    (if admin_issuer = Some tgt then Some TargetIsSelf
     else if admin_issuer \<noteq> None \<and> is_admin_role (rt_role t) \<and> \<not> never_activated t then Some TargetIsAdmin
     else if rt_is_deleted t then Some TargetDeleted
     else if rt_is_disabled t then Some TargetDisabled
     else if rt_source t \<noteq> Local then Some TargetNonLocal
     else None)"

definition check_recovery_target :: "uuid \<Rightarrow> uuid option \<Rightarrow> recovery_target tx" where
  "check_recovery_target tgt admin_issuer s =
    (case recovery_target_within_tx tgt s of
       Inl e \<Rightarrow> Inl (if e = StoreNotFound then RecoveryRefused TargetUnknown else e)
     | Inr (t, s') \<Rightarrow>
         (case target_refusal tgt admin_issuer t of
            Some why \<Rightarrow> Inl (RecoveryRefused why)
          | None \<Rightarrow> Inr (t, s')))"

definition is_provisioning :: "recovery_target \<Rightarrow> bool" where
  "is_provisioning t = (rt_source t = Local \<and> \<not> is_admin_role (rt_role t) \<and> never_activated t \<and> \<not> has_any_token t)"

definition ceiling_for :: "recovery_target \<Rightarrow> int" where
  "ceiling_for t = (if is_provisioning t then PROVISIONING_LINKS_PER_HOUR else RECOVERY_LINKS_PER_HOUR)"

record recovery_link_grant =
  rl_token_id :: uuid
  rl_expires_at :: instant
  rl_invalidated :: nat

definition recovery_token_row ::
  "uuid \<Rightarrow> uuid \<Rightarrow> string \<Rightarrow> reset_token_origin \<Rightarrow> uuid option \<Rightarrow> instant \<Rightarrow> instant \<Rightarrow> password_reset_token_row" where
  "recovery_token_row token_id tgt h via issued_by expires_at now =
    \<lparr> prt_id = token_id, prt_user_id = tgt, prt_token_hash = h, prt_issued_at = now, prt_expires_at = expires_at,
      prt_consumed_at = None, prt_requester_ip = None, prt_issued_via = via, prt_issued_by = issued_by,
      prt_revoked_at = None, prt_provisioning = False \<rparr>"

text \<open>\<open>token_id\<close> is the random id the function draws.\<close>

definition revoke_and_insert_recovery_token ::
  "uuid \<Rightarrow> uuid \<Rightarrow> string \<Rightarrow> reset_token_origin \<Rightarrow> uuid option \<Rightarrow> bool \<Rightarrow> instant \<Rightarrow> instant \<Rightarrow> recovery_link_grant tx" where
  "revoke_and_insert_recovery_token token_id tgt h via issued_by provisioning expires_at now =
    tx_bind (revoke_outstanding_for_user_within_tx tgt None now) (\<lambda>invalidated.
    tx_bind (reset_insert_with_within_tx (recovery_token_row token_id tgt h via issued_by expires_at now) provisioning) (\<lambda>_.
      tx_return \<lparr> rl_token_id = token_id, rl_expires_at = expires_at, rl_invalidated = invalidated \<rparr>))"

definition U37_event ::
  "(instant \<Rightarrow> string) \<Rightarrow> string \<Rightarrow> string \<Rightarrow> uuid \<Rightarrow> string \<Rightarrow> instant \<Rightarrow> nat \<Rightarrow> bool \<Rightarrow> sealed_event" where
  "U37_event rfc3339_secs via step_up tgt reason expires_at invalidated provisioning =
    ok_event ''user.recovery_link.issued''
      [(''reason'', False), (''via'', False), (''expires_at'', False), (''invalidated'', False), (''provisioning'', False),
       (''step_up'', True)] tgt
      ([(''reason'', reason), (''via'', via), (''expires_at'', rfc3339_secs expires_at), (''invalidated'', dec invalidated)]
       @ (if provisioning then [(''provisioning'', ''1'')] else []) @ [(''step_up'', step_up)])"

fun is_fresh :: "session_step_up_evidence \<Rightarrow> bool" where
  "is_fresh NotRequired = False"
| "is_fresh _ = True"

definition tx_of :: "store_error + 'a \<Rightarrow> 'a tx" where
  "tx_of r = (case r of Inl e \<Rightarrow> tx_fail e | Inr v \<Rightarrow> tx_return v)"

definition issue_recovery_link_as_admin_body ::
  "(instant \<Rightarrow> string) \<Rightarrow> uuid \<Rightarrow> uuid \<Rightarrow> uuid \<Rightarrow> uuid \<Rightarrow> string \<Rightarrow> string \<Rightarrow> instant \<Rightarrow> instant
    \<Rightarrow> (recovery_link_grant \<times> sealed_event) tx" where
  "issue_recovery_link_as_admin_body rfc3339_secs token_id admin sid tgt h raw_reason expires_at now =
    tx_bind (tx_of (validated_recovery_reason raw_reason)) (\<lambda>reason.
    tx_bind (session_step_up_evidence_within_tx sid admin now) (\<lambda>step_up.
    tx_bind (tx_guard (is_fresh step_up) StepUpRequired) (\<lambda>_.
    tx_bind (check_recovery_target tgt (Some admin)) (\<lambda>t.
    tx_bind (count_issued_by_within_tx admin (now - hours 1) (is_provisioning t)) (\<lambda>issued.
    tx_bind (tx_guard (issued < ceiling_for t) (RecoveryRefused Throttled)) (\<lambda>_.
    tx_bind (revoke_and_insert_recovery_token token_id tgt h OriginWeb (Some admin) (is_provisioning t) expires_at now) (\<lambda>grant.
      tx_return (grant, U37_event rfc3339_secs ''web'' (as_attribute step_up) tgt reason expires_at
        (rl_invalidated grant) (is_provisioning t)))))))))"

definition issue_recovery_link_as_operator_body ::
  "(instant \<Rightarrow> string) \<Rightarrow> uuid \<Rightarrow> uuid \<Rightarrow> string \<Rightarrow> string \<Rightarrow> instant \<Rightarrow> instant
    \<Rightarrow> (recovery_link_grant \<times> sealed_event) tx" where
  "issue_recovery_link_as_operator_body rfc3339_secs token_id tgt h raw_reason expires_at now =
    tx_bind (tx_of (validated_recovery_reason raw_reason)) (\<lambda>reason.
    tx_bind (check_recovery_target tgt None) (\<lambda>t.
    tx_bind (count_issued_via_cli_within_tx (now - hours 1) (is_provisioning t)) (\<lambda>issued.
    tx_bind (tx_guard (issued < ceiling_for t) (RecoveryRefused Throttled)) (\<lambda>_.
    tx_bind (revoke_and_insert_recovery_token token_id tgt h OriginCli None (is_provisioning t) expires_at now) (\<lambda>grant.
      tx_return (grant, U37_event rfc3339_secs ''cli'' STEP_UP_NOT_APPLICABLE tgt reason expires_at
        (rl_invalidated grant) (is_provisioning t)))))))"

definition issue_recovery_link_as_admin ::
  "digest_env \<Rightarrow> (instant \<Rightarrow> string) \<Rightarrow> instant \<Rightarrow> uuid \<Rightarrow> uuid \<Rightarrow> uuid \<Rightarrow> uuid \<Rightarrow> string \<Rightarrow> string \<Rightarrow> instant \<Rightarrow> instant
    \<Rightarrow> store \<Rightarrow> (store_error + recovery_link_grant) \<times> store" where
  "issue_recovery_link_as_admin cx rfc3339_secs at token_id admin sid tgt h reason expires_at now =
    class_a cx at (Some admin)
      (issue_recovery_link_as_admin_body rfc3339_secs token_id admin sid tgt h reason expires_at now)"

definition issue_recovery_link_as_operator ::
  "digest_env \<Rightarrow> (instant \<Rightarrow> string) \<Rightarrow> instant \<Rightarrow> uuid \<Rightarrow> uuid \<Rightarrow> string \<Rightarrow> string \<Rightarrow> instant \<Rightarrow> instant
    \<Rightarrow> store \<Rightarrow> (store_error + recovery_link_grant) \<times> store" where
  "issue_recovery_link_as_operator cx rfc3339_secs at token_id tgt h reason expires_at now =
    class_a cx at None (issue_recovery_link_as_operator_body rfc3339_secs token_id tgt h reason expires_at now)"

section \<open>Every body leaves the audit log to the runner\<close>

lemma keeps_tx_of [frame]: "keeps part (tx_of r)"
  by (cases r) (auto simp: tx_of_def intro: frame)

lemma keeps_check_recovery_target [frame]: "keeps part (check_recovery_target tgt issuer)"
  by (auto simp: keeps_def check_recovery_target_def recovery_target_within_tx_def split: option.splits sum.splits prod.splits)

lemma keeps_reset_insert [frame]:
  "(\<And>s x. part (s\<lparr>password_reset_tokens := x\<rparr>) = part s) \<Longrightarrow> keeps part (reset_insert_with_within_tx row p)"
  by (auto simp: keeps_def reset_insert_with_within_tx_def split: if_splits)

lemma keeps_sweep_others [frame]: "keeps audit (sweep_others uid keep revoke_others now)"
  unfolding sweep_others_def session_ops rt_revoke_all_for_user_within_tx_def
  by (intro frame; simp)

interpretation u09: command_body "change_password_self_body uid credential keep revoke_others now"
  for uid credential keep revoke_others now
  unfolding change_password_self_body_def user_ops case_prod_unfold by unfold_locales (intro frame; simp)

interpretation u10: command_body "consume_and_reset_password_body uid token_id credential at warned"
  for uid token_id credential at warned
  unfolding consume_and_reset_password_body_def user_ops session_ops rt_revoke_all_for_user_within_tx_def
  by unfold_locales (intro frame; simp)

interpretation u37: command_body "issue_recovery_link_as_admin_body fmt token_id admin sid tgt h reason expires_at now"
  for fmt token_id admin sid tgt h reason expires_at now
  unfolding issue_recovery_link_as_admin_body_def revoke_and_insert_recovery_token_def count_issued_by_within_tx_def
  by unfold_locales (intro frame; simp)

interpretation u37_cli: command_body "issue_recovery_link_as_operator_body fmt token_id tgt h reason expires_at now"
  for fmt token_id tgt h reason expires_at now
  unfolding issue_recovery_link_as_operator_body_def revoke_and_insert_recovery_token_def count_issued_via_cli_within_tx_def
  by unfold_locales (intro frame; simp)

section \<open>What the commands do\<close>

definition reset_keyed :: "store \<Rightarrow> bool" where
  "reset_keyed s = distinct (map prt_id (password_reset_tokens s))"

definition reset_tokens_after :: "uuid \<Rightarrow> uuid \<Rightarrow> instant \<Rightarrow> password_reset_token_row list \<Rightarrow> password_reset_token_row list" where
  "reset_tokens_after uid token_id at toks =
    update_where (\<lambda>r. prt_user_id r = uid \<and> reset_outstanding at r \<and> prt_id r \<noteq> token_id)
      (\<lambda>r. r\<lparr> prt_revoked_at := Some at \<rparr>)
      (update_where (\<lambda>r. prt_id r = token_id \<and> reset_outstanding at r) (\<lambda>r. r\<lparr> prt_consumed_at := Some at \<rparr>) toks)"

lemma reset_body_Inr:
  assumes "consume_and_reset_password_body uid token_id credential at warned s = Inr (v, t)"
  shows "(\<exists>r \<in> set (password_reset_tokens s). prt_id r = token_id \<and> reset_outstanding at r)
    \<and> (\<exists>u. List.find (by_user_id uid) (users s) = Some u \<and> user_active u \<and> u_source u = Local)
    \<and> password_reset_tokens t = reset_tokens_after uid token_id at (password_reset_tokens s)
    \<and> sessions t = update_where (\<lambda>r. s_user_id r = uid \<and> s_revoked_at r = None) (\<lambda>r. r\<lparr>s_revoked_at := Some at\<rparr>) (sessions s)
    \<and> refresh_tokens t = update_where (\<lambda>r. rt_user_id r = uid \<and> rt_active r) (rt_revoke at) (refresh_tokens s)
    \<and> credentials t = upserted credential (credentials s)"
  using assms
  by (auto simp: consume_and_reset_password_body_def results is_active_local_within_tx_def read_user_def get_user_def
      origin_within_tx_def credential_upsert_eq clear_password_lockout_within_tx_def Let_def update_user_def
      session_revoke_all_for_user_within_tx_def rt_revoke_all_for_user_within_tx_def revoke_rows_where_def
      revoke_outstanding_for_user_within_tx_def reset_tokens_after_def set_delete_where
      split: option.splits sum.splits if_splits)

section \<open>A link is used once\<close>

text \<open>The table evolves: rows may be marked, removed or added, but no row named \<open>k\<close> is added and a
  consumed row named \<open>k\<close> stays consumed.\<close>

definition evolves :: "uuid \<Rightarrow> password_reset_token_row list \<Rightarrow> password_reset_token_row list \<Rightarrow> bool" where
  "evolves k ts ts' =
    ((distinct (map prt_id ts) \<longrightarrow> distinct (map prt_id ts')) \<and>
     ((\<forall>r \<in> set ts. prt_id r = k \<longrightarrow> prt_consumed_at r \<noteq> None) \<longrightarrow>
      (\<forall>r \<in> set ts'. prt_id r = k \<longrightarrow> prt_consumed_at r \<noteq> None)))"

lemma evolves_refl [simp]: "evolves k ts ts"
  by (simp add: evolves_def)

lemma evolves_trans: "evolves k a b \<Longrightarrow> evolves k b c \<Longrightarrow> evolves k a c"
  by (auto simp: evolves_def)

lemma evolves_update:
  assumes "\<And>r. prt_id (f r) = prt_id r" "\<And>r. prt_consumed_at r \<noteq> None \<Longrightarrow> prt_consumed_at (f r) \<noteq> None"
  shows "evolves k ts (update_where p f ts)"
proof -
  have "prt_consumed_at r' \<noteq> None" if before: "\<forall>r \<in> set ts. prt_id r = k \<longrightarrow> prt_consumed_at r \<noteq> None"
    and r': "r' \<in> set (update_where p f ts)" "prt_id r' = k" for r'
  proof -
    obtain r where r: "r \<in> set ts" "r' = r \<or> r' = f r"
      using r'(1) by (auto simp: set_update_where)
    then have "prt_id r = k"
      using r'(2) assms(1) by metis
    then show ?thesis
      using before r assms(2) by metis
  qed
  then show ?thesis
    unfolding evolves_def by (simp add: map_update_where assms(1))
qed

lemma evolves_append: "prt_id r \<noteq> k \<Longrightarrow> prt_id r \<notin> prt_id ` set ts \<Longrightarrow> evolves k ts (ts @ [r])"
  by (auto simp: evolves_def)

lemma evolves_delete: "evolves k ts (delete_where p ts)"
  by (auto simp: evolves_def delete_where_def distinct_map_filter)

lemma evolves_reset: "evolves k ts (reset_tokens_after uid tid at ts)"
  unfolding reset_tokens_after_def by (intro evolves_trans [OF evolves_update evolves_update]) simp_all

lemma evolves_revoked: "evolves k ts (update_where p (\<lambda>r. r\<lparr> prt_revoked_at := Some now \<rparr>) ts)"
  by (rule evolves_update) simp_all

lemma issue_evolves:
  assumes "revoke_and_insert_recovery_token tid tgt h via by p expires now s = Inr (g, t)" "tid \<noteq> k"
  shows "evolves k (password_reset_tokens s) (password_reset_tokens t)"
proof -
  let ?ts = "update_where (\<lambda>r. prt_user_id r = tgt \<and> reset_outstanding now r) (\<lambda>r. r\<lparr> prt_revoked_at := Some now \<rparr>)
    (password_reset_tokens s)"
  have t: "password_reset_tokens t = ?ts @ [(recovery_token_row tid tgt h via by expires now)\<lparr> prt_provisioning := p \<rparr>]"
    and new: "tid \<notin> prt_id ` set ?ts"
    using assms(1)
    by (auto simp: revoke_and_insert_recovery_token_def results revoke_outstanding_for_user_within_tx_def Let_def
        reset_insert_with_within_tx_def recovery_token_row_def list_ex_iff split: if_splits)
  show ?thesis
    unfolding t using assms(2) new
    by (intro evolves_trans [OF evolves_revoked evolves_append]) (simp_all add: recovery_token_row_def)
qed

lemma check_recovery_target_same: "check_recovery_target tgt issuer s = Inr (t, s') \<Longrightarrow> s' = s"
  by (auto simp: check_recovery_target_def recovery_target_within_tx_def split: option.splits sum.splits prod.splits if_splits)

lemma admin_issue_Inr:
  assumes "issue_recovery_link_as_admin_body fmt tid admin sid tgt h raw expires now s = Inr ((g, ev), t)"
  obtains reason evd tg where "validated_recovery_reason raw = Inr reason"
    "session_step_up_evidence_within_tx sid admin now s = Inr (evd, s)" "is_fresh evd"
    "check_recovery_target tgt (Some admin) s = Inr (tg, s)"
    "int (affected (\<lambda>r. prt_issued_by r = Some admin \<and> prt_issued_via r = OriginWeb
      \<and> prt_issued_at r > now - hours 1 \<and> prt_provisioning r = is_provisioning tg) (password_reset_tokens s)) < ceiling_for tg"
    "revoke_and_insert_recovery_token tid tgt h OriginWeb (Some admin) (is_provisioning tg) expires now s = Inr (g, t)"
proof -
  obtain reason evd s1 tg s2 where facts: "validated_recovery_reason raw = Inr reason"
      "session_step_up_evidence_within_tx sid admin now s = Inr (evd, s1)" "is_fresh evd"
      "check_recovery_target tgt (Some admin) s1 = Inr (tg, s2)"
      "int (affected (\<lambda>r. prt_issued_by r = Some admin \<and> prt_issued_via r = OriginWeb
        \<and> prt_issued_at r > now - hours 1 \<and> prt_provisioning r = is_provisioning tg) (password_reset_tokens s2)) < ceiling_for tg"
      "revoke_and_insert_recovery_token tid tgt h OriginWeb (Some admin) (is_provisioning tg) expires now s2 = Inr (g, t)"
    using assms
    by (auto simp: issue_recovery_link_as_admin_body_def results tx_of_def count_issued_by_within_tx_def split: sum.splits)
  moreover have "s1 = s" "s2 = s1"
    using facts step_up_evidence_ok check_recovery_target_same by blast+
  ultimately show ?thesis
    using that by simp
qed

lemma operator_issue_Inr:
  assumes "issue_recovery_link_as_operator_body fmt tid tgt h raw expires now s = Inr ((g, ev), t)"
  obtains tg where "revoke_and_insert_recovery_token tid tgt h OriginCli None (is_provisioning tg) expires now s = Inr (g, t)"
proof -
  obtain tg s2 where "check_recovery_target tgt None s = Inr (tg, s2)"
      "revoke_and_insert_recovery_token tid tgt h OriginCli None (is_provisioning tg) expires now s2 = Inr (g, t)"
    using assms
    by (auto simp: issue_recovery_link_as_operator_body_def results tx_of_def count_issued_via_cli_within_tx_def
        split: sum.splits)
  then show ?thesis
    using that check_recovery_target_same by blast
qed

text \<open>U09 touches the table only to revoke.\<close>

lemma change_password_evolves:
  assumes "change_password_self_body uid credential keep revoke_others now s = Inr (v, t)"
  shows "evolves k (password_reset_tokens s) (password_reset_tokens t)"
proof -
  have "keeps password_reset_tokens (sweep_others uid keep revoke_others now)"
    unfolding sweep_others_def session_ops rt_revoke_all_for_user_within_tx_def by (intro frame; simp)
  note same = keepsD [OF this]
  obtain s1 v' where "sweep_others uid keep revoke_others now s1 = Inr (v', t)"
    "password_reset_tokens s1 = update_where (\<lambda>r. prt_user_id r = uid \<and> reset_outstanding now r)
      (\<lambda>r. r\<lparr> prt_revoked_at := Some now \<rparr>) (password_reset_tokens s)"
    using assms
    by (auto simp: change_password_self_body_def results credential_upsert_eq clear_password_lockout_within_tx_def Let_def
        revoke_outstanding_for_user_within_tx_def split: if_splits)
  with same evolves_revoked show ?thesis
    by metis
qed

definition spend_link ::
  "digest_env \<Rightarrow> uuid \<Rightarrow> instant \<times> uuid \<times> credential_row \<times> instant \<times> bool \<Rightarrow> store
    \<Rightarrow> (store_error + password_lockout_cleared) \<times> store" where
  "spend_link cx token_id = (\<lambda>(at, uid, credential, consumed_at, warned).
    consume_and_reset_password cx at uid token_id credential consumed_at warned)"

inductive link_step :: "digest_env \<Rightarrow> uuid \<Rightarrow> store \<Rightarrow> store \<Rightarrow> bool" for cx k where
  other_link: "token_id \<noteq> k \<Longrightarrow> spend_link cx token_id c s = (r, s') \<Longrightarrow> link_step cx k s s'"
| admin_issue: "token_id \<noteq> k \<Longrightarrow>
    issue_recovery_link_as_admin cx fmt at token_id admin sid tgt h reason expires now s = (r, s') \<Longrightarrow> link_step cx k s s'"
| operator_issue: "token_id \<noteq> k \<Longrightarrow>
    issue_recovery_link_as_operator cx fmt at token_id tgt h reason expires now s = (r, s') \<Longrightarrow> link_step cx k s s'"
| change: "change_password_self cx at uid credential keep revoke_others now s = (r, s') \<Longrightarrow> link_step cx k s s'"
| revoke: "with_tx (revoke_outstanding_for_user_within_tx uid except now) s = (r, s') \<Longrightarrow> link_step cx k s s'"
| purge: "with_tx (reset_delete_expired before) s = (r, s') \<Longrightarrow> link_step cx k s s'"

definition link_spent :: "uuid \<Rightarrow> store \<Rightarrow> bool" where
  "link_spent k s = (\<forall>r \<in> set (password_reset_tokens s). prt_id r = k \<longrightarrow> prt_consumed_at r \<noteq> None)"

lemma spend_link_evolves:
  assumes "spend_link cx tid c s = (r, s')"
  shows "evolves k (password_reset_tokens s) (password_reset_tokens s')"
proof -
  obtain at uid credential t warned where "c = (at, uid, credential, t, warned)"
    by (cases c)
  then have "class_a cx at None (consume_and_reset_password_body uid tid credential t warned) s = (r, s')"
    using assms by (simp add: spend_link_def consume_and_reset_password_def)
  then show ?thesis
    by (rule u10.class_a_store) (auto dest: reset_body_Inr simp: evolves_reset)
qed

lemma link_step_evolves: "link_step cx k s s' \<Longrightarrow> evolves k (password_reset_tokens s) (password_reset_tokens s')"
proof (induction rule: link_step.induct)
  case (other_link token_id c s r s')
  then show ?case
    by (blast intro: spend_link_evolves)
next
  case (admin_issue token_id fmt at admin sid tgt h reason expires now s r s')
  then show ?case
    unfolding issue_recovery_link_as_admin_def
    by (elim u37.class_a_store) (auto elim!: admin_issue_Inr issue_evolves)
next
  case (operator_issue token_id fmt at tgt h reason expires now s r s')
  then show ?case
    unfolding issue_recovery_link_as_operator_def
    by (elim u37_cli.class_a_store) (auto elim!: operator_issue_Inr issue_evolves)
next
  case (change at uid credential keep revoke_others now s r s')
  then show ?case
    unfolding change_password_self_def
    by (elim u09.class_a_store) (auto dest: change_password_evolves)
qed (auto simp: with_tx_def revoke_outstanding_for_user_within_tx_def reset_delete_expired_def Let_def
    evolves_revoked evolves_delete)

lemma spend_link_spent:
  assumes "reset_keyed s" "spend_link cx k c s = (Inr v, s')"
  shows "link_spent k s'"
proof -
  obtain at uid credential t warned where "c = (at, uid, credential, t, warned)"
    by (cases c)
  then have "class_a cx at None (consume_and_reset_password_body uid k credential t warned) s = (Inr v, s')"
    using assms by (simp add: spend_link_def consume_and_reset_password_def)
  then obtain ev b a where "consume_and_reset_password_body uid k credential t warned s = Inr ((v, ev), b)"
    "s' = b\<lparr>audit := a\<rparr>"
    by (rule u10.class_a_success)
  note body = reset_body_Inr [OF this(1)] this(2)
  obtain q where q: "q \<in> set (password_reset_tokens s)" "prt_id q = k" "reset_outstanding t q"
    using body by blast
  have "r = q" if "r \<in> set (password_reset_tokens s)" "prt_id r = k" for r
    using distinct_key_eq [of prt_id "password_reset_tokens s" r q] assms(1) q that by (simp add: reset_keyed_def)
  then have "\<forall>r \<in> set (update_where (\<lambda>r. prt_id r = k \<and> reset_outstanding t r) (\<lambda>r. r\<lparr> prt_consumed_at := Some t \<rparr>)
      (password_reset_tokens s)). prt_id r = k \<longrightarrow> prt_consumed_at r \<noteq> None"
    using q(3) by (intro all_update_where) auto
  then show ?thesis
    using body evolves_revoked unfolding link_spent_def reset_tokens_after_def evolves_def by simp
qed

lemma spend_link_refused:
  assumes "link_spent k s"
  shows "spend_link cx k c s = (Inl StoreNotFound, s)"
proof -
  obtain at uid credential t warned where c: "c = (at, uid, credential, t, warned)"
    by (cases c)
  have "mark_consumed_within_tx k t s = Inl StoreNotFound"
    using assms
    by (auto simp: mark_consumed_within_tx_def link_spent_def affected_def filter_empty_conv reset_outstanding_def found_or_def Let_def
        split: if_splits)
  then have "consume_and_reset_password_body uid k credential t warned s = Inl StoreNotFound"
    by (simp add: consume_and_reset_password_body_def tx_bind_def)
  then show ?thesis
    unfolding c spend_link_def by (simp add: consume_and_reset_password_def u10.class_a_abort)
qed

lemma evolves_keyed:
  "evolves k (password_reset_tokens s) (password_reset_tokens s') \<Longrightarrow> reset_keyed s \<Longrightarrow> reset_keyed s'"
  by (simp add: evolves_def reset_keyed_def)

lemma evolves_spent:
  "evolves k (password_reset_tokens s) (password_reset_tokens s') \<Longrightarrow> link_spent k s \<Longrightarrow> link_spent k s'"
  by (simp add: evolves_def link_spent_def)

interpretation link_use: one_shot reset_keyed "link_step cx" "spend_link cx" link_spent for cx
proof unfold_locales
  show "\<exists>e s'. spend_link cx k c s = (Inl e, s') \<and> link_spent k s'" if "link_spent k s" for k c s
    using spend_link_refused [OF that] that by blast
qed (blast intro: evolves_keyed evolves_spent spend_link_evolves link_step_evolves spend_link_spent)+

section \<open>Properties\<close>

definition demo_link :: password_reset_token_row where
  "demo_link = recovery_token_row ''k1'' ''u1'' ''h'' OriginCli None (seconds 900) 0"

definition demo_linked :: store where
  "demo_linked = demo_accounts\<lparr> password_reset_tokens := [demo_link] \<rparr>"

lemma demo_linked_keyed: "reset_keyed demo_linked"
  by (simp add: reset_keyed_def demo_linked_def)

lemma demo_reset:
  "\<exists>v s'. consume_and_reset_password demo_env 0 ''u1'' ''k1'' \<lparr> cr_user_id = ''u1'', cr_password_hash = ''p'', cr_updated_at = 0 \<rparr>
    0 False demo_linked = (Inr v, s')"
proof -
  have "checked_attributes (U10_event ''u1'' OriginCli False None) = Inr [(''origin'', ''cli'')]"
    unfolding U10_event_def by (simp add: opt_attr_def, intro checked_ok_event) (simp_all add: attribute_bounds)
  moreover obtain v s1 where "consume_and_reset_password_body ''u1'' ''k1''
      \<lparr> cr_user_id = ''u1'', cr_password_hash = ''p'', cr_updated_at = 0 \<rparr> 0 False demo_linked
      = Inr ((v, U10_event ''u1'' OriginCli False None), s1)"
    by (simp add: results consume_and_reset_password_body_def mark_consumed_within_tx_def is_active_local_within_tx_def
        read_user_def get_user_def origin_within_tx_def credential_upsert_within_tx_def clear_password_lockout_within_tx_def
        session_revoke_all_for_user_within_tx_def rt_revoke_all_for_user_within_tx_def revoke_rows_where_def
        revoke_outstanding_for_user_within_tx_def demo_linked_def demo_link_def recovery_token_row_def demo_accounts_simps
        by_user_id_def user_active_def reset_outstanding_def found_or_def affected_def update_where_def Let_def
        seconds_def nanos_def cleared_attribute_def cleared_def locked_at_def MFA_FAILURE_LOCKOUT_THRESHOLD_def update_user_def)
  ultimately show ?thesis
    unfolding consume_and_reset_password_def by (intro exI) (rule u10.class_a_commit)
qed

text \<open>C19: Completing a reset link is final.  It happens only on an outstanding link and an active local
  account; the new credential replaces the old one, every session of the user is revoked, no refresh
  token stays active and no other link stays outstanding; and in every later history of the link
  table (further attempts, other resets, issues, password changes and purges, in any order) the same
  link never succeeds again.\<close>

theorem reset_completion_is_final:
  assumes "reset_keyed s" "cr_user_id cred = uid"
    and "consume_and_reset_password cx at uid k cred t warned s = (Inr v, s')"
  shows "(\<exists>r \<in> set (password_reset_tokens s). prt_id r = k \<and> reset_outstanding t r)
    \<and> (\<exists>u. List.find (by_user_id uid) (users s) = Some u \<and> user_active u \<and> u_source u = Local)
    \<and> {c \<in> set (credentials s'). cr_user_id c = uid} = {cred}
    \<and> (\<forall>r \<in> set (sessions s'). s_user_id r = uid \<longrightarrow> s_revoked_at r \<noteq> None)
    \<and> (\<forall>r \<in> set (refresh_tokens s'). rt_user_id r = uid \<longrightarrow> \<not> rt_active r)
    \<and> (\<forall>r \<in> set (password_reset_tokens s'). prt_user_id r = uid \<longrightarrow> \<not> reset_outstanding t r)
    \<and> (\<forall>n s''. uses (link_step cx k) (spend_link cx k) s' n s'' \<longrightarrow> n = 0)"
proof -
  have run: "spend_link cx k (at, uid, cred, t, warned) s = (Inr v, s')"
    using assms(3) by (simp add: spend_link_def)
  have spent: "link_spent k s'" and keyed: "reset_keyed s'"
    using run assms(1) spend_link_spent link_use.spend_inv by blast+
  obtain ev b a where "consume_and_reset_password_body uid k cred t warned s = Inr ((v, ev), b)" and s': "s' = b\<lparr>audit := a\<rparr>"
    using assms(3) unfolding consume_and_reset_password_def by (rule u10.class_a_success)
  note body = reset_body_Inr [OF this(1)]
  have "{c \<in> set (credentials s'). cr_user_id c = uid} = {cred}"
    using body upserted_only upserted_in assms(2) by (auto simp: s')
  moreover have "\<forall>r \<in> set (sessions s'). s_user_id r = uid \<longrightarrow> s_revoked_at r \<noteq> None"
    using body by (simp add: s', intro all_update_where) auto
  moreover have "\<forall>r \<in> set (refresh_tokens s'). rt_user_id r = uid \<longrightarrow> \<not> rt_active r"
    using body by (simp add: s', intro all_update_where) (auto simp: rt_active_def rt_revoke_def)
  moreover have "\<forall>r \<in> set (password_reset_tokens s'). prt_id r \<noteq> k \<longrightarrow> prt_user_id r = uid \<longrightarrow> \<not> reset_outstanding t r"
    using body unfolding s' reset_tokens_after_def by (simp, intro all_update_where) (auto simp: reset_outstanding_def)
  then have "\<forall>r \<in> set (password_reset_tokens s'). prt_user_id r = uid \<longrightarrow> \<not> reset_outstanding t r"
    using spent unfolding link_spent_def reset_outstanding_def by blast
  ultimately show ?thesis
    using body link_use.spent_for_ever [OF _ keyed spent] by blast
qed

theorem reset_completion_is_final_witness:
  "\<exists>v s'. consume_and_reset_password demo_env 0 ''u1'' ''k1'' \<lparr> cr_user_id = ''u1'', cr_password_hash = ''p'', cr_updated_at = 0 \<rparr>
     0 False demo_linked = (Inr v, s')
    \<and> (\<forall>n s''. uses (link_step demo_env ''k1'') (spend_link demo_env ''k1'') s' n s'' \<longrightarrow> n = 0)"
proof -
  obtain v s' where run: "consume_and_reset_password demo_env 0 ''u1'' ''k1''
      \<lparr> cr_user_id = ''u1'', cr_password_hash = ''p'', cr_updated_at = 0 \<rparr> 0 False demo_linked = (Inr v, s')"
    using demo_reset by blast
  then show ?thesis
    using reset_completion_is_final [OF demo_linked_keyed _ run] by auto
qed

text \<open>The links an administrator issued on the web in the last hour, provisioning links apart.\<close>

definition links_issued :: "uuid \<Rightarrow> instant \<Rightarrow> bool \<Rightarrow> store \<Rightarrow> int" where
  "links_issued admin now provisioning s =
    int (affected (\<lambda>r. prt_issued_by r = Some admin \<and> prt_issued_via r = OriginWeb \<and> prt_issued_at r > now - hours 1
      \<and> prt_provisioning r = provisioning) (password_reset_tokens s))"

definition outstanding_links :: "uuid \<Rightarrow> instant \<Rightarrow> store \<Rightarrow> password_reset_token_row list" where
  "outstanding_links tgt now s = filter (\<lambda>r. prt_user_id r = tgt \<and> reset_outstanding now r) (password_reset_tokens s)"

lemma filter_update_gone:
  assumes "\<And>r. p r \<Longrightarrow> \<not> p (f r)"
  shows "filter p (update_where p f rows) = []"
  using assms by (auto simp: filter_empty_conv set_update_where)

lemma affected_update_same:
  assumes "\<And>r. q (f r) = q r"
  shows "affected q (update_where p f rows) = affected q rows"
  using assms by (induction rows) (auto simp: update_where_def affected_def)

lemma issued_tables:
  assumes "revoke_and_insert_recovery_token tid tgt h via by p expires now s = Inr (g, t)"
  shows "password_reset_tokens t =
    update_where (\<lambda>r. prt_user_id r = tgt \<and> reset_outstanding now r) (\<lambda>r. r\<lparr> prt_revoked_at := Some now \<rparr>)
      (password_reset_tokens s) @ [(recovery_token_row tid tgt h via by expires now)\<lparr> prt_provisioning := p \<rparr>]
    \<and> rl_invalidated g = length (outstanding_links tgt now s)"
  using assms
  by (auto simp: revoke_and_insert_recovery_token_def results revoke_outstanding_for_user_within_tx_def Let_def
      reset_insert_with_within_tx_def recovery_token_row_def outstanding_links_def affected_def split: if_splits)

lemma outstanding_after_issue:
  assumes "revoke_and_insert_recovery_token tid tgt h via by p expires now s = Inr (g, t)"
  shows "outstanding_links tgt now t = (if now < expires
    then [(recovery_token_row tid tgt h via by expires now)\<lparr> prt_provisioning := p \<rparr>] else [])"
proof -
  have "filter (\<lambda>r. prt_user_id r = tgt \<and> reset_outstanding now r)
      (update_where (\<lambda>r. prt_user_id r = tgt \<and> reset_outstanding now r) (\<lambda>r. r\<lparr> prt_revoked_at := Some now \<rparr>) rows) = []" for rows
    by (rule filter_update_gone) (simp add: reset_outstanding_def)
  then show ?thesis
    using issued_tables [OF assms] unfolding outstanding_links_def
    by (simp add: recovery_token_row_def reset_outstanding_def)
qed

lemma links_issued_after:
  assumes "revoke_and_insert_recovery_token tid tgt h OriginWeb (Some admin) p expires now s = Inr (g, t)"
  shows "links_issued admin now p t = links_issued admin now p s + 1"
proof -
  have "affected (\<lambda>r. prt_issued_by r = Some admin \<and> prt_issued_via r = OriginWeb \<and> prt_issued_at r > now - hours 1
      \<and> prt_provisioning r = p) (update_where q (\<lambda>r. r\<lparr> prt_revoked_at := Some now \<rparr>) rows)
    = affected (\<lambda>r. prt_issued_by r = Some admin \<and> prt_issued_via r = OriginWeb \<and> prt_issued_at r > now - hours 1
      \<and> prt_provisioning r = p) rows" for q rows
    by (rule affected_update_same) simp
  moreover have "hours 1 > 0"
    by (simp add: hours_def seconds_def nanos_def)
  ultimately show ?thesis
    using issued_tables [OF assms] by (simp add: links_issued_def affected_def recovery_token_row_def)
qed

lemma check_recovery_target_ok:
  assumes "check_recovery_target tgt (Some admin) s = Inr (tg, s')"
  shows "tgt \<noteq> admin \<and> (\<exists>u. List.find (by_user_id tgt) (users s) = Some u \<and> user_active u \<and> u_source u = Local
    \<and> (is_admin_role (u_role u) \<longrightarrow> \<not> list_ex (\<lambda>c. cr_user_id c = tgt) (credentials s) \<and> u_last_login_at u = None))"
  using assms
  by (auto simp: check_recovery_target_def recovery_target_within_tx_def target_refusal_def user_active_def
      split: option.splits if_splits)

text \<open>C20: An administrator's recovery link is guarded and throttled.  If the command succeeds, the acting
  administrator has a second factor and stepped up on a live session within the freshness window; the
  target is somebody else, exists, is active and local, and is not an administrator who has a
  password or ever signed in; afterwards the administrator has issued at most 5 recovery links (50 for
  first-time provisioning) in the last hour, and the new link is the only outstanding one of the
  target.\<close>

theorem recovery_link_guarded:
  assumes "issue_recovery_link_as_admin cx fmt at tid admin sid tgt h reason expires now s = (Inr g, s')" "now < expires"
  shows "has_second_factor admin s \<and> stepped_up sid admin now s \<and> tgt \<noteq> admin
    \<and> (\<exists>u. List.find (by_user_id tgt) (users s) = Some u \<and> user_active u \<and> u_source u = Local
        \<and> (is_admin_role (u_role u) \<longrightarrow> \<not> list_ex (\<lambda>c. cr_user_id c = tgt) (credentials s) \<and> u_last_login_at u = None))
    \<and> (\<exists>p. map prt_id (outstanding_links tgt now s') = [tid] \<and> map prt_provisioning (outstanding_links tgt now s') = [p]
        \<and> links_issued admin now p s' \<le> (if p then 50 else 5))
    \<and> rl_invalidated g = length (outstanding_links tgt now s)"
proof -
  obtain ev b a where "issue_recovery_link_as_admin_body fmt tid admin sid tgt h reason expires now s = Inr ((g, ev), b)"
    and s': "s' = b\<lparr>audit := a\<rparr>"
    using assms(1) unfolding issue_recovery_link_as_admin_def by (rule u37.class_a_success)
  from this(1) obtain evd tg where ev: "session_step_up_evidence_within_tx sid admin now s = Inr (evd, s)" "is_fresh evd"
    and tg: "check_recovery_target tgt (Some admin) s = Inr (tg, s)"
    and under: "links_issued admin now (is_provisioning tg) s < ceiling_for tg"
    and ins: "revoke_and_insert_recovery_token tid tgt h OriginWeb (Some admin) (is_provisioning tg) expires now s = Inr (g, b)"
    unfolding links_issued_def by (rule admin_issue_Inr)
  have "has_second_factor admin s"
    using ev by (auto simp: session_step_up_evidence_within_tx_def split: sum.splits if_splits)
  moreover have "links_issued admin now p s' = links_issued admin now p b" "outstanding_links tgt now s' = outstanding_links tgt now b" for p
    by (simp_all add: s' links_issued_def outstanding_links_def)
  ultimately show ?thesis
    using step_up_evidence_ok [OF ev(1)] check_recovery_target_ok [OF tg] under links_issued_after [OF ins]
      outstanding_after_issue [OF ins] issued_tables [OF ins] assms(2)
    by (auto simp: ceiling_for_def PROVISIONING_LINKS_PER_HOUR_def RECOVERY_LINKS_PER_HOUR_def recovery_token_row_def)
qed

definition demo_guarded :: store where
  "demo_guarded = demo_accounts\<lparr>
     user_totps := [\<lparr> ut_user_id = ''root'', ut_secret_enc = ''x'', ut_enabled = True, ut_recovery_codes_enc = None,
       ut_last_used_step = 0, ut_created_at = 0, ut_confirmed_at = Some 0 \<rparr>],
     sessions := [(demo_session ''s1'' ''root'')\<lparr> s_last_step_up_at := Some 0 \<rparr>] \<rparr>"

lemma demo_guarded_evidence:
  "session_step_up_evidence_within_tx ''s1'' ''root'' 0 demo_guarded = Inr (Fresh ''unknown'' 0, demo_guarded)"
  by (simp add: session_step_up_evidence_within_tx_def require_live_session_within_tx_def session_live_def
      get_with_user_active_def has_second_factor_def demo_guarded_def demo_accounts_simps by_session_id_def by_user_id_def
      user_active_def seconds_def nanos_def num_seconds_def STEP_UP_FRESHNESS_SECS_def results)

lemma demo_reason: "validated_recovery_reason ''lost'' = Inr ''lost''"
  by (simp add: validated_recovery_reason_def str_trim_def utf8_chars_ascii utf8_valid_ascii is_whitespace_ascii byte_def
      RECOVERY_REASON_MAX_CHARS_def MAX_ATTRIBUTE_VALUE_BYTES_def is_ascii_control_def code_point_def byte_at_def)

lemma demo_issue:
  "\<exists>g s'. issue_recovery_link_as_admin demo_env (\<lambda>_. ''t'') 0 ''k2'' ''root'' ''s1'' ''u1'' ''h2'' ''lost'' 900 0 demo_guarded
    = (Inr g, s')"
proof -
  have "check_recovery_target ''u1'' (Some ''root'') demo_guarded = Inr (\<lparr> rt_role = User, rt_source = Local,
      rt_is_disabled = False, rt_is_deleted = False, never_activated = True, has_any_token = False \<rparr>, demo_guarded)"
    by (simp add: check_recovery_target_def recovery_target_within_tx_def target_refusal_def demo_guarded_def
        demo_accounts_simps by_user_id_def is_admin_role_def)
  then obtain g s1 where "issue_recovery_link_as_admin_body (\<lambda>_. ''t'') ''k2'' ''root'' ''s1'' ''u1'' ''h2'' ''lost'' 900 0 demo_guarded
      = Inr ((g, U37_event (\<lambda>_. ''t'') ''web'' (as_attribute (Fresh ''unknown'' 0)) ''u1'' ''lost'' 900 0 True), s1)"
    using demo_guarded_evidence demo_reason
    by (simp add: issue_recovery_link_as_admin_body_def tx_of_def results count_issued_by_within_tx_def affected_def
        ceiling_for_def is_provisioning_def is_admin_role_def PROVISIONING_LINKS_PER_HOUR_def
        revoke_and_insert_recovery_token_def revoke_outstanding_for_user_within_tx_def reset_insert_with_within_tx_def
        demo_guarded_def demo_accounts_simps update_where_def Let_def)
  moreover have "checked_attributes (U37_event (\<lambda>_. ''t'') ''web'' (as_attribute (Fresh ''unknown'' 0)) ''u1'' ''lost'' 900 0 True)
      = Inr [(''reason'', ''lost''), (''via'', ''web''), (''expires_at'', ''t''), (''invalidated'', dec 0), (''provisioning'', ''1''),
          (''step_up'', as_attribute (Fresh ''unknown'' 0))]"
    unfolding U37_event_def by (simp, intro checked_ok_event) (simp_all add: attribute_bounds dec.simps dec_int_def)
  ultimately show ?thesis
    unfolding issue_recovery_link_as_admin_def by (intro exI) (rule u37.class_a_commit)
qed

theorem recovery_link_guarded_witness:
  "\<exists>g s'. issue_recovery_link_as_admin demo_env (\<lambda>_. ''t'') 0 ''k2'' ''root'' ''s1'' ''u1'' ''h2'' ''lost'' 900 0 demo_guarded
    = (Inr g, s') \<and> map prt_id (outstanding_links ''u1'' 0 s') = [''k2'']"
  using demo_issue recovery_link_guarded [of demo_env "\<lambda>_. ''t''" 0 "''k2''" "''root''" "''s1''" "''u1''" "''h2''" "''lost''" 900 0]
  by fastforce

end
