(* ===== verification/Clients.thy ===== *)
theory Clients
  imports Accounts
begin

text \<open>
  OAuth clients: the repository \<open>sui-id-store/src/repos/clients.rs\<close> and the administrator's commands C01
  (create), C02, C03 and C10 (edit), C05, C21 and C06 (disable, enable, delete) and C07 (rotate the
  secret) of \<open>commands.rs\<close>.  The JSON columns hold lists of strings and are kept as such.
\<close>

section \<open>The repository\<close>

definition by_client_id :: "uuid \<Rightarrow> client_row \<Rightarrow> bool" where
  "by_client_id cid c = (c_id c = cid)"

definition get_client :: "uuid \<Rightarrow> store \<Rightarrow> store_error + client_row" where
  "get_client cid s = ok_or (List.find (by_client_id cid) (clients s)) StoreNotFound"

definition client_list :: "store \<Rightarrow> client_row list" where
  "client_list s = sort_key c_created_at (clients s)"

text \<open>The column \<open>registered_via\<close> is not in the statement and takes its default.\<close>

definition client_create_within_tx :: "client_row \<Rightarrow> unit tx" where
  "client_create_within_tx c s =
    (if list_ex (by_client_id (c_id c)) (clients s)
     then Inl (Db ''UNIQUE constraint failed: clients.id'')
     else Inr ((), s\<lparr>clients := clients s @ [c\<lparr>c_registered_via := RegAdmin\<rparr>]\<rparr>))"

text \<open>\<open>UPDATE clients SET ... WHERE id = cid\<close> with the check of the row count that the setters share.\<close>

definition update_existing_client :: "uuid \<Rightarrow> (client_row \<Rightarrow> client_row) \<Rightarrow> unit tx" where
  "update_existing_client cid f s =
    (if affected (by_client_id cid) (clients s) = 0 then Inl StoreNotFound
     else Inr ((), s\<lparr>clients := update_where (by_client_id cid) f (clients s)\<rparr>))"

definition update_basic_within_tx ::
  "uuid \<Rightarrow> string option \<Rightarrow> string list option \<Rightarrow> instant \<Rightarrow> unit tx" where
  "update_basic_within_tx cid name redirect_uris now s =
    (case List.find (by_client_id cid) (clients s) of
       None \<Rightarrow> Inl StoreNotFound
     | Some current \<Rightarrow>
         Inr ((), s\<lparr>clients := update_where (by_client_id cid)
           (\<lambda>c. c\<lparr> c_name := (case name of None \<Rightarrow> c_name current | Some n \<Rightarrow> n),
                  c_redirect_uris := (case redirect_uris of None \<Rightarrow> c_redirect_uris current | Some us \<Rightarrow> us),
                  c_updated_at := now \<rparr>) (clients s)\<rparr>))"

definition set_allowed_scopes_within_tx :: "uuid \<Rightarrow> string \<Rightarrow> instant \<Rightarrow> unit tx" where
  "set_allowed_scopes_within_tx cid scopes now =
    update_existing_client cid (\<lambda>c. c\<lparr> c_allowed_scopes := scopes, c_updated_at := now \<rparr>)"

definition set_post_logout_redirect_uris_within_tx :: "uuid \<Rightarrow> string list \<Rightarrow> instant \<Rightarrow> unit tx" where
  "set_post_logout_redirect_uris_within_tx cid uris now =
    update_existing_client cid (\<lambda>c. c\<lparr> c_post_logout_redirect_uris := uris, c_updated_at := now \<rparr>)"

definition client_set_disabled_within_tx :: "uuid \<Rightarrow> bool \<Rightarrow> instant \<Rightarrow> unit tx" where
  "client_set_disabled_within_tx cid disabled now =
    update_existing_client cid (\<lambda>c. c\<lparr> c_is_disabled := disabled, c_updated_at := now \<rparr>)"

definition client_soft_delete_within_tx :: "uuid \<Rightarrow> instant \<Rightarrow> unit tx" where
  "client_soft_delete_within_tx cid now =
    update_existing_client cid (\<lambda>c. c\<lparr> c_is_deleted := True, c_is_disabled := True, c_updated_at := now \<rparr>)"

definition set_dev_secret_hash_within_tx :: "uuid \<Rightarrow> string option \<Rightarrow> unit tx" where
  "set_dev_secret_hash_within_tx cid new_hash = update_existing_client cid (\<lambda>c. c\<lparr> c_secret_hash := new_hash \<rparr>)"

definition update_consent_policy_within_tx :: "uuid \<Rightarrow> consent_policy \<Rightarrow> instant \<Rightarrow> unit tx" where
  "update_consent_policy_within_tx cid policy now =
    update_existing_client cid (\<lambda>c. c\<lparr> c_consent_policy := policy, c_updated_at := now \<rparr>)"

definition set_secret_hash_within_tx :: "uuid \<Rightarrow> string option \<Rightarrow> instant \<Rightarrow> unit tx" where
  "set_secret_hash_within_tx cid h now =
    update_existing_client cid (\<lambda>c. c\<lparr> c_secret_hash := h, c_updated_at := now \<rparr>)"

definition set_registered_via_within_tx :: "uuid \<Rightarrow> registration_source \<Rightarrow> instant \<Rightarrow> unit tx" where
  "set_registered_via_within_tx cid via now =
    update_existing_client cid (\<lambda>c. c\<lparr> c_registered_via := via, c_updated_at := now \<rparr>)"

definition starts_with :: "string \<Rightarrow> string \<Rightarrow> bool" where
  "starts_with s pre = (take (length pre) s = pre)"

definition is_valid_app_uri :: "string \<Rightarrow> bool" where
  "is_valid_app_uri uri =
    (starts_with uri ''https://'' \<or> starts_with uri ''http://localhost'' \<or> starts_with uri ''http://127.0.0.1'')"

record app_identity_uris =
  ai_logo_uri :: "string option"
  ai_homepage_uri :: "string option"
  ai_privacy_policy_uri :: "string option"
  ai_tos_uri :: "string option"

definition get_app_identity_within_tx :: "uuid \<Rightarrow> app_identity_uris tx" where
  "get_app_identity_within_tx cid s =
    (case List.find (by_client_id cid) (clients s) of
       None \<Rightarrow> Inl StoreNotFound
     | Some c \<Rightarrow> Inr (\<lparr> ai_logo_uri = c_logo_uri c, ai_homepage_uri = c_homepage_uri c,
         ai_privacy_policy_uri = c_privacy_policy_uri c, ai_tos_uri = c_tos_uri c \<rparr>, s))"

definition app_identity_list :: "app_identity_uris \<Rightarrow> string list" where
  "app_identity_list a = concat (map (\<lambda>u. case u of None \<Rightarrow> [] | Some x \<Rightarrow> [x])
    [ai_logo_uri a, ai_homepage_uri a, ai_privacy_policy_uri a, ai_tos_uri a])"

definition update_app_identity_within_tx :: "uuid \<Rightarrow> app_identity_uris \<Rightarrow> instant \<Rightarrow> unit tx" where
  "update_app_identity_within_tx cid a now =
    (case List.find (\<lambda>u. \<not> is_valid_app_uri u) (app_identity_list a) of
       Some uri \<Rightarrow> tx_fail (InvalidData
         (''application-identity URI must be HTTPS (or http://localhost): '' @ uri))
     | None \<Rightarrow>
         update_existing_client cid (\<lambda>c. c\<lparr> c_logo_uri := ai_logo_uri a, c_homepage_uri := ai_homepage_uri a,
           c_privacy_policy_uri := ai_privacy_policy_uri a, c_tos_uri := ai_tos_uri a, c_updated_at := now \<rparr>))"

section \<open>Events\<close>

fun consent_policy_as_str :: "consent_policy \<Rightarrow> string" where
  "consent_policy_as_str ConsentNone = ''none''"
| "consent_policy_as_str FirstTime = ''first_time''"
| "consent_policy_as_str Always = ''always''"

definition bool_text :: "bool \<Rightarrow> string" where
  "bool_text b = (if b then ''true'' else ''false'')"

definition C01_event :: "uuid \<Rightarrow> sealed_event" where
  "C01_event cid = ok_event ''client.create'' [] cid []"

definition C02_event :: "uuid \<Rightarrow> sealed_event" where
  "C02_event cid = ok_event ''client.update'' [] cid []"

definition C03_event :: "uuid \<Rightarrow> nat \<Rightarrow> nat \<Rightarrow> consent_policy \<Rightarrow> sealed_event" where
  "C03_event cid scopes uris policy =
    ok_event ''client.update_form''
      [(''allowed_scopes_count'', True), (''post_logout_redirect_uris_count'', True), (''consent_policy'', True)] cid
      [(''allowed_scopes_count'', dec scopes), (''post_logout_redirect_uris_count'', dec uris),
       (''consent_policy'', consent_policy_as_str policy)]"

definition C05_event :: "uuid \<Rightarrow> string option \<Rightarrow> nat \<Rightarrow> sealed_event" where
  "C05_event cid reason revoked =
    ok_event ''client.disable'' [(''reason'', False), (''refresh_tokens_revoked'', True)] cid
      (opt_attr ''reason'' reason @ [(''refresh_tokens_revoked'', dec revoked)])"

definition C06_event :: "uuid \<Rightarrow> string option \<Rightarrow> nat \<Rightarrow> sealed_event" where
  "C06_event cid reason revoked =
    ok_event ''client.delete'' [(''reason'', False), (''refresh_tokens_revoked'', True)] cid
      (opt_attr ''reason'' reason @ [(''refresh_tokens_revoked'', dec revoked)])"

definition C07_event :: "uuid \<Rightarrow> string option \<Rightarrow> sealed_event" where
  "C07_event cid reason = ok_event ''client.rotate_secret'' [(''reason'', False)] cid (opt_attr ''reason'' reason)"

definition C10_event :: "uuid \<Rightarrow> bool \<Rightarrow> bool \<Rightarrow> bool \<Rightarrow> sealed_event" where
  "C10_event cid homepage privacy tos =
    ok_event ''client.app_identity_changed''
      [(''homepage_uri_changed'', True), (''privacy_policy_uri_changed'', True), (''tos_uri_changed'', True)] cid
      [(''homepage_uri_changed'', bool_text homepage), (''privacy_policy_uri_changed'', bool_text privacy),
       (''tos_uri_changed'', bool_text tos)]"

definition C21_event :: "uuid \<Rightarrow> sealed_event" where
  "C21_event cid = ok_event ''client.enable'' [] cid []"

section \<open>Commands\<close>

definition create_client_body :: "client_row \<Rightarrow> (unit \<times> sealed_event) tx" where
  "create_client_body row =
    tx_bind (client_create_within_tx row) (\<lambda>_. tx_return ((), C01_event (c_id row)))"

definition update_client_basic_body :: "uuid \<Rightarrow> string \<Rightarrow> string list \<Rightarrow> instant \<Rightarrow> (unit \<times> sealed_event) tx" where
  "update_client_basic_body tgt name redirect_uris now =
    tx_bind (update_basic_within_tx tgt (Some name) (Some redirect_uris) now) (\<lambda>_.
      tx_return ((), C02_event tgt))"

definition update_client_form_body ::
  "uuid \<Rightarrow> string \<Rightarrow> string list \<Rightarrow> consent_policy \<Rightarrow> instant \<Rightarrow> (unit \<times> sealed_event) tx" where
  "update_client_form_body tgt allowed_scopes uris policy now =
    tx_bind (set_allowed_scopes_within_tx tgt allowed_scopes now) (\<lambda>_.
    tx_bind (set_post_logout_redirect_uris_within_tx tgt uris now) (\<lambda>_.
    tx_bind (update_consent_policy_within_tx tgt policy now) (\<lambda>_.
      tx_return ((), C03_event tgt (length (split_whitespace allowed_scopes)) (length uris) policy))))"

definition disable_client_body :: "uuid \<Rightarrow> string option \<Rightarrow> instant \<Rightarrow> (unit \<times> sealed_event) tx" where
  "disable_client_body tgt reason now =
    tx_bind (client_set_disabled_within_tx tgt True now) (\<lambda>_.
    tx_bind (rt_revoke_all_for_client_within_tx tgt now) (\<lambda>revoked.
      tx_return ((), C05_event tgt reason revoked)))"

definition delete_client_body :: "uuid \<Rightarrow> string option \<Rightarrow> instant \<Rightarrow> (unit \<times> sealed_event) tx" where
  "delete_client_body tgt reason now =
    tx_bind (client_soft_delete_within_tx tgt now) (\<lambda>_.
    tx_bind (rt_revoke_all_for_client_within_tx tgt now) (\<lambda>revoked.
      tx_return ((), C06_event tgt reason revoked)))"

definition rotate_client_secret_body :: "uuid \<Rightarrow> string \<Rightarrow> string option \<Rightarrow> instant \<Rightarrow> (unit \<times> sealed_event) tx" where
  "rotate_client_secret_body tgt new_hash reason now =
    tx_bind (set_secret_hash_within_tx tgt (Some new_hash) now) (\<lambda>_. tx_return ((), C07_event tgt reason))"

definition update_client_app_identity_body ::
  "uuid \<Rightarrow> string option \<Rightarrow> string option \<Rightarrow> string option \<Rightarrow> instant \<Rightarrow> (unit \<times> sealed_event) tx" where
  "update_client_app_identity_body tgt homepage privacy tos now =
    tx_bind (get_app_identity_within_tx tgt) (\<lambda>existing.
    tx_bind (update_app_identity_within_tx tgt
        \<lparr> ai_logo_uri = ai_logo_uri existing, ai_homepage_uri = homepage,
          ai_privacy_policy_uri = privacy, ai_tos_uri = tos \<rparr> now) (\<lambda>_.
      tx_return ((), C10_event tgt (homepage \<noteq> ai_homepage_uri existing)
        (privacy \<noteq> ai_privacy_policy_uri existing) (tos \<noteq> ai_tos_uri existing))))"

definition enable_client_body :: "uuid \<Rightarrow> instant \<Rightarrow> (unit \<times> sealed_event) tx" where
  "enable_client_body tgt now =
    tx_bind (client_set_disabled_within_tx tgt False now) (\<lambda>_. tx_return ((), C21_event tgt))"

definition create_client :: "digest_env \<Rightarrow> instant \<Rightarrow> uuid \<Rightarrow> client_row \<Rightarrow> store \<Rightarrow> (store_error + unit) \<times> store" where
  "create_client cx at admin row = class_a cx at (Some admin) (create_client_body row)"

definition update_client_basic ::
  "digest_env \<Rightarrow> instant \<Rightarrow> uuid \<Rightarrow> uuid \<Rightarrow> string \<Rightarrow> string list \<Rightarrow> instant \<Rightarrow> store \<Rightarrow> (store_error + unit) \<times> store" where
  "update_client_basic cx at admin tgt name uris now =
    class_a cx at (Some admin) (update_client_basic_body tgt name uris now)"

definition update_client_form ::
  "digest_env \<Rightarrow> instant \<Rightarrow> uuid \<Rightarrow> uuid \<Rightarrow> string \<Rightarrow> string list \<Rightarrow> consent_policy \<Rightarrow> instant \<Rightarrow> store
    \<Rightarrow> (store_error + unit) \<times> store" where
  "update_client_form cx at admin tgt scopes uris policy now =
    class_a cx at (Some admin) (update_client_form_body tgt scopes uris policy now)"

definition disable_client ::
  "digest_env \<Rightarrow> instant \<Rightarrow> uuid \<Rightarrow> uuid \<Rightarrow> string option \<Rightarrow> instant \<Rightarrow> store \<Rightarrow> (store_error + unit) \<times> store" where
  "disable_client cx at admin tgt reason now = class_a cx at (Some admin) (disable_client_body tgt reason now)"

definition delete_client ::
  "digest_env \<Rightarrow> instant \<Rightarrow> uuid \<Rightarrow> uuid \<Rightarrow> string option \<Rightarrow> instant \<Rightarrow> store \<Rightarrow> (store_error + unit) \<times> store" where
  "delete_client cx at admin tgt reason now = class_a cx at (Some admin) (delete_client_body tgt reason now)"

definition enable_client ::
  "digest_env \<Rightarrow> instant \<Rightarrow> uuid \<Rightarrow> uuid \<Rightarrow> instant \<Rightarrow> store \<Rightarrow> (store_error + unit) \<times> store" where
  "enable_client cx at admin tgt now = class_a cx at (Some admin) (enable_client_body tgt now)"

definition rotate_client_secret ::
  "digest_env \<Rightarrow> instant \<Rightarrow> uuid \<Rightarrow> uuid \<Rightarrow> string \<Rightarrow> string option \<Rightarrow> instant \<Rightarrow> store \<Rightarrow> (store_error + unit) \<times> store" where
  "rotate_client_secret cx at admin tgt new_hash reason now =
    class_a cx at (Some admin) (rotate_client_secret_body tgt new_hash reason now)"

definition update_client_app_identity ::
  "digest_env \<Rightarrow> instant \<Rightarrow> uuid \<Rightarrow> uuid \<Rightarrow> string option \<Rightarrow> string option \<Rightarrow> string option \<Rightarrow> instant \<Rightarrow> store
    \<Rightarrow> (store_error + unit) \<times> store" where
  "update_client_app_identity cx at admin tgt homepage privacy tos now =
    class_a cx at (Some admin) (update_client_app_identity_body tgt homepage privacy tos now)"

section \<open>Frame and results\<close>

lemmas client_setters = set_allowed_scopes_within_tx_def set_post_logout_redirect_uris_within_tx_def
  client_set_disabled_within_tx_def client_soft_delete_within_tx_def set_dev_secret_hash_within_tx_def
  update_consent_policy_within_tx_def set_secret_hash_within_tx_def set_registered_via_within_tx_def

lemma keeps_update_existing_client [frame]:
  "(\<And>s x. part (s\<lparr>clients := x\<rparr>) = part s) \<Longrightarrow> keeps part (update_existing_client cid f)"
  by (auto simp: keeps_def update_existing_client_def split: if_splits)

lemma keeps_client_create [frame]:
  "(\<And>s x. part (s\<lparr>clients := x\<rparr>) = part s) \<Longrightarrow> keeps part (client_create_within_tx c)"
  by (auto simp: keeps_def client_create_within_tx_def split: if_splits)

lemma keeps_update_basic [frame]:
  "(\<And>s x. part (s\<lparr>clients := x\<rparr>) = part s) \<Longrightarrow> keeps part (update_basic_within_tx cid n us now)"
  by (auto simp: keeps_def update_basic_within_tx_def split: option.splits)

lemma keeps_get_app_identity [frame]: "keeps part (get_app_identity_within_tx cid)"
  by (auto simp: keeps_def get_app_identity_within_tx_def split: option.splits)

lemma update_existing_client_Inr_iff [results]:
  "update_existing_client cid f s = Inr (u, s') \<longleftrightarrow>
    (\<exists>c \<in> set (clients s). c_id c = cid) \<and> s' = s\<lparr>clients := update_where (by_client_id cid) f (clients s)\<rparr>"
  by (auto simp: update_existing_client_def affected_0_iff by_client_id_def)

interpretation c01: command_body "create_client_body row" for row
  unfolding create_client_body_def by unfold_locales (intro frame; simp)

interpretation c02: command_body "update_client_basic_body tgt name uris now" for tgt name uris now
  unfolding update_client_basic_body_def by unfold_locales (intro frame; simp)

interpretation c03: command_body "update_client_form_body tgt scopes uris policy now" for tgt scopes uris policy now
  unfolding update_client_form_body_def client_setters by unfold_locales (intro frame; simp)

interpretation c05: command_body "disable_client_body tgt reason now" for tgt reason now
  unfolding disable_client_body_def client_setters rt_revoke_all_for_client_within_tx_def
  by unfold_locales (intro frame; simp)

interpretation c06: command_body "delete_client_body tgt reason now" for tgt reason now
  unfolding delete_client_body_def client_setters rt_revoke_all_for_client_within_tx_def
  by unfold_locales (intro frame; simp)

interpretation c07: command_body "rotate_client_secret_body tgt h reason now" for tgt h reason now
  unfolding rotate_client_secret_body_def client_setters by unfold_locales (intro frame; simp)

interpretation c10: command_body "update_client_app_identity_body tgt homepage privacy tos now"
  for tgt homepage privacy tos now
  unfolding update_client_app_identity_body_def update_app_identity_within_tx_def
  by unfold_locales (intro frame; simp)

interpretation c21: command_body "enable_client_body tgt now" for tgt now
  unfolding enable_client_body_def client_setters by unfold_locales (intro frame; simp)

end
