(* ===== verification/Jwt.thy ===== *)
theory Jwt
  imports Core_Errors Rust_Str
begin

text \<open>
  Compact EdDSA tokens (\<open>sui-id-core/src/oidc/jwt.rs\<close>).  Base64url, Ed25519 and serde's JSON are
  crates: their functions are the fields of \<open>jwt_env\<close>, and the claim type's serialiser and
  deserialiser are arguments of \<open>jwt_sign\<close> and \<open>jwt_verify\<close>, which are generic in the claims.
\<close>

record jwt_env =
  b64_encode :: "string \<Rightarrow> string"
  b64_decode :: "string \<Rightarrow> string option"
  header_to_json :: "string \<Rightarrow> string \<Rightarrow> string \<Rightarrow> string option"
  header_from_json :: "string \<Rightarrow> (string \<times> string) option"
  ed_sign :: "string \<Rightarrow> string \<Rightarrow> string"
  ed_public :: "string \<Rightarrow> string"
  ed_point :: "string \<Rightarrow> bool"
  ed_verify :: "string \<Rightarrow> string \<Rightarrow> string \<Rightarrow> bool"

text \<open>What the module relies on: base64url decodes what it encoded and never emits a dot; the JSON of a
  header parses back to its \<open>alg\<close> and \<open>kid\<close>; a signature has 64 bytes and verifies under the public
  half of its key, which is a valid point of 32 bytes.\<close>

definition jwt_env_ok :: "jwt_env \<Rightarrow> bool" where
  "jwt_env_ok je =
    ((\<forall>b. b64_decode je (b64_encode je b) = Some b \<and> CHR ''.'' \<notin> set (b64_encode je b))
     \<and> (\<forall>alg typ kid j. header_to_json je alg typ kid = Some j \<longrightarrow> header_from_json je j = Some (alg, kid))
     \<and> (\<forall>sk m. length (ed_sign je sk m) = 64 \<and> ed_verify je (ed_public je sk) m (ed_sign je sk m))
     \<and> (\<forall>sk. length sk = 32 \<longrightarrow> length (ed_public je sk) = 32 \<and> ed_point je (ed_public je sk)))"

definition b64u_decode :: "jwt_env \<Rightarrow> string \<Rightarrow> core_error + string" where
  "b64u_decode je s = ok_or (b64_decode je s) Jwt"

definition jwt_sign :: "jwt_env \<Rightarrow> ('c \<Rightarrow> string option) \<Rightarrow> string \<Rightarrow> string \<Rightarrow> 'c \<Rightarrow> core_error + string" where
  "jwt_sign je to_json kid signing_key claims =
    (case header_to_json je ''EdDSA'' ''JWT'' kid of
       None \<Rightarrow> Inl Jwt
     | Some header_json \<Rightarrow>
    (case to_json claims of
       None \<Rightarrow> Inl Jwt
     | Some payload_json \<Rightarrow>
       (let signing_input = b64_encode je header_json @ ''.'' @ b64_encode je payload_json in
        Inr (signing_input @ ''.'' @ b64_encode je (ed_sign je signing_key signing_input)))))"

record 'c decoded =
  d_claims :: 'c
  d_kid :: string

definition jwt_verify ::
  "jwt_env \<Rightarrow> (string \<Rightarrow> 'c option) \<Rightarrow> string \<Rightarrow> (string \<Rightarrow> string option) \<Rightarrow> core_error + 'c decoded" where
  "jwt_verify je from_json token resolver =
    (case split_on CHR ''.'' token of
       [h, p, s] \<Rightarrow>
      (case b64u_decode je h of Inl e \<Rightarrow> Inl e | Inr header_bytes \<Rightarrow>
      (case header_from_json je header_bytes of None \<Rightarrow> Inl Jwt | Some (alg, kid) \<Rightarrow>
       if alg \<noteq> ''EdDSA'' then Inl Jwt
       else
      (case resolver kid of None \<Rightarrow> Inl Jwt | Some vk \<Rightarrow>
      (case b64u_decode je s of Inl e \<Rightarrow> Inl e | Inr sig_bytes \<Rightarrow>
       if length sig_bytes \<noteq> 64 then Inl Jwt
       else if \<not> ed_verify je vk (h @ ''.'' @ p) sig_bytes then Inl Jwt
       else
      (case b64u_decode je p of Inl e \<Rightarrow> Inl e | Inr payload \<Rightarrow>
      (case from_json payload of None \<Rightarrow> Inl Jwt | Some claims \<Rightarrow>
         Inr \<lparr> d_claims = claims, d_kid = kid \<rparr>))))))
     | _ \<Rightarrow> Inl Jwt)"

section \<open>What an accepted token is\<close>

text \<open>The token has exactly three segments, names EdDSA, and its signature over the first two verifies
  under the key the resolver gave for its \<open>kid\<close>.\<close>

definition signed_by :: "jwt_env \<Rightarrow> (string \<Rightarrow> string option) \<Rightarrow> string \<Rightarrow> string \<Rightarrow> string \<Rightarrow> bool" where
  "signed_by je resolver token kid payload =
    (\<exists>h p s vk hb sig. split_on CHR ''.'' token = [h, p, s]
      \<and> b64_decode je h = Some hb \<and> header_from_json je hb = Some (''EdDSA'', kid)
      \<and> resolver kid = Some vk
      \<and> b64_decode je s = Some sig \<and> length sig = 64 \<and> ed_verify je vk (h @ ''.'' @ p) sig
      \<and> b64_decode je p = Some payload)"

lemma jwt_verify_iff:
  "jwt_verify je from_json token resolver = Inr d \<longleftrightarrow>
    (\<exists>payload. signed_by je resolver token (d_kid d) payload \<and> from_json payload = Some (d_claims d))"
proof
  assume "jwt_verify je from_json token resolver = Inr d"
  then show "\<exists>payload. signed_by je resolver token (d_kid d) payload \<and> from_json payload = Some (d_claims d)"
    unfolding jwt_verify_def b64u_decode_def signed_by_def
    by (auto simp: ok_or_def split: list.splits sum.splits option.splits prod.splits if_splits)
qed (auto simp: signed_by_def jwt_verify_def b64u_decode_def ok_or_def)

lemma jwt_sign_verify:
  assumes ok: "jwt_env_ok je" and token: "jwt_sign je to_json kid sk claims = Inr token"
    and key: "resolver kid = Some (ed_public je sk)"
    and json: "\<And>j. to_json claims = Some j \<Longrightarrow> from_json j = Some claims"
  shows "jwt_verify je from_json token resolver = Inr \<lparr> d_claims = claims, d_kid = kid \<rparr>"
proof -
  obtain hj pj where j: "header_to_json je ''EdDSA'' ''JWT'' kid = Some hj" "to_json claims = Some pj"
    and t: "token = b64_encode je hj @ ''.'' @ b64_encode je pj @ ''.''
      @ b64_encode je (ed_sign je sk (b64_encode je hj @ ''.'' @ b64_encode je pj))"
    using token by (auto simp: jwt_sign_def Let_def split: option.splits)
  have b64: "b64_decode je (b64_encode je b) = Some b" "CHR ''.'' \<notin> set (b64_encode je b)" for b
    using ok unfolding jwt_env_ok_def by blast+
  have sig: "length (ed_sign je sk m) = 64" "ed_verify je (ed_public je sk) m (ed_sign je sk m)" for m
    using ok unfolding jwt_env_ok_def by blast+
  have "header_from_json je hj = Some (''EdDSA'', kid)"
    using ok j(1) unfolding jwt_env_ok_def by blast
  then have "signed_by je resolver token kid pj"
    by (simp add: signed_by_def t split_on_append split_on_free b64 sig key)
  then show ?thesis
    using json [OF j(2)] by (subst jwt_verify_iff) auto
qed

section \<open>A concrete environment\<close>

text \<open>Escaping instead of base64url, a comma-separated header, and a signature that is a checksum of
  key and message: enough to run the module and to show that the laws can hold together.\<close>

fun demo_encode :: "string \<Rightarrow> string" where
  "demo_encode [] = []"
| "demo_encode (c # cs) =
    (if c = CHR ''.'' then ''-d'' else if c = CHR ''-'' then ''--'' else [c]) @ demo_encode cs"

fun demo_decode :: "string \<Rightarrow> string option" where
  "demo_decode [] = Some []"
| "demo_decode [c] = (if c = CHR ''-'' then None else Some [c])"
| "demo_decode (c # d # cs) =
    (if c = CHR ''-'' then
       (if d = CHR ''d'' then map_option (Cons CHR ''.'') (demo_decode cs)
        else if d = CHR ''-'' then map_option (Cons CHR ''-'') (demo_decode cs) else None)
     else map_option (Cons c) (demo_decode (d # cs)))"

lemma demo_decode_plain: "c \<noteq> CHR ''-'' \<Longrightarrow> demo_decode (c # cs) = map_option (Cons c) (demo_decode cs)"
  by (cases cs) simp_all

lemma demo_decode_encode [simp]: "demo_decode (demo_encode s) = Some s"
  by (induction s) (simp_all add: demo_decode_plain)

lemma demo_encode_no_dot [simp]: "CHR ''.'' \<notin> set (demo_encode s)"
  by (induction s) auto

definition demo_signature :: "string \<Rightarrow> string \<Rightarrow> string" where
  "demo_signature key m = map (\<lambda>i. of_byte ((sum_list (map byte (key @ m)) + i) mod 256)) [0..<64]"

definition demo_jwt :: jwt_env where
  "demo_jwt = \<lparr> b64_encode = demo_encode, b64_decode = demo_decode,
     header_to_json = (\<lambda>alg typ kid. if CHR '','' \<in> set alg then None else Some (alg @ CHR '','' # kid)),
     header_from_json = split_once CHR '','',
     ed_sign = demo_signature, ed_public = (\<lambda>sk. sk), ed_point = (\<lambda>pk. True),
     ed_verify = (\<lambda>pk m sig. sig = demo_signature pk m) \<rparr>"

lemma demo_jwt_ok: "jwt_env_ok demo_jwt"
  by (auto simp: jwt_env_ok_def demo_jwt_def demo_signature_def split_once_append split: if_splits)

end
