(* ===== verification/Signing_Keys.thy ===== *)
theory Signing_Keys
  imports Accounts
begin

text \<open>
  Signing keys: the repository \<open>sui-id-store/src/repos/signing_keys.rs\<close> and the commands K01 (rotation)
  and K03 (deletion of a retired key) of \<open>commands.rs\<close>.  The table implements a key ring with one
  current key and a set of retired ones; the refinement is stated at the end.
\<close>

section \<open>The repository\<close>

definition SIGNING_KEY_AAD :: string where
  "SIGNING_KEY_AAD = ''sui-id/signing_key/v1''"

text \<open>\<open>ORDER BY created_at DESC\<close>.\<close>

definition newest_first :: "signing_key_row list \<Rightarrow> signing_key_row list" where
  "newest_first = sort_key (\<lambda>k. - sk_created_at k)"

definition active_key :: "store \<Rightarrow> store_error + signing_key_row" where
  "active_key s =
    (case newest_first (filter sk_is_active (signing_keys s)) of [] \<Rightarrow> Inl StoreNotFound | k # _ \<Rightarrow> Inr k)"

definition list_published :: "store \<Rightarrow> signing_key_row list" where
  "list_published s = newest_first (signing_keys s)"

definition list_active :: "store \<Rightarrow> signing_key_row list" where
  "list_active s = newest_first (filter sk_is_active (signing_keys s))"

definition has_active_within_tx :: "bool tx" where
  "has_active_within_tx = tx_get (\<lambda>s. list_ex sk_is_active (signing_keys s))"

definition seal_private_key :: "aead_env \<Rightarrow> string \<Rightarrow> string \<Rightarrow> store_error + string" where
  "seal_private_key ae nonce private_key_plain = seal ae (master_key ae) nonce private_key_plain SIGNING_KEY_AAD"

definition unseal_private :: "aead_env \<Rightarrow> signing_key_row \<Rightarrow> store_error + string" where
  "unseal_private ae row = open_sealed ae (master_key ae) (sk_private_key_enc row) SIGNING_KEY_AAD"

definition insert_sealed_on_conn ::
  "uuid \<Rightarrow> string \<Rightarrow> string \<Rightarrow> string \<Rightarrow> bool \<Rightarrow> instant \<Rightarrow> unit tx" where
  "insert_sealed_on_conn kid algorithm private_key_sealed public_key is_active now s =
    (if list_ex (\<lambda>k. sk_id k = kid) (signing_keys s)
     then Inl (Db ''UNIQUE constraint failed: signing_keys.id'')
     else Inr ((), s\<lparr>signing_keys := signing_keys s @
       [\<lparr> sk_id = kid, sk_algorithm = algorithm, sk_private_key_enc = private_key_sealed,
          sk_public_key = public_key, sk_is_active = is_active, sk_created_at = now, sk_rotated_at = None \<rparr>]\<rparr>))"

definition retire_active :: "instant \<Rightarrow> unit tx" where
  "retire_active now = tx_modify (\<lambda>s. s\<lparr>signing_keys :=
    update_where sk_is_active (\<lambda>k. k\<lparr> sk_is_active := False, sk_rotated_at := Some now \<rparr>) (signing_keys s)\<rparr>)"

definition rotate_atomic_within_tx :: "uuid \<Rightarrow> string \<Rightarrow> string \<Rightarrow> string \<Rightarrow> instant \<Rightarrow> instant tx" where
  "rotate_atomic_within_tx new_id algorithm private_key_sealed public_key now =
    tx_bind (retire_active now) (\<lambda>_.
    tx_bind (insert_sealed_on_conn new_id algorithm private_key_sealed public_key True now) (\<lambda>_.
      tx_return now))"

definition sk_delete_within_tx :: "uuid \<Rightarrow> unit tx" where
  "sk_delete_within_tx kid =
    tx_bind (tx_get (\<lambda>s. List.find (\<lambda>k. sk_id k = kid) (signing_keys s))) (\<lambda>row.
      case row of
        None \<Rightarrow> tx_fail StoreNotFound
      | Some k \<Rightarrow>
          if sk_is_active k then tx_fail StoreConflict
          else tx_modify (\<lambda>s. s\<lparr>signing_keys := delete_where (\<lambda>k. sk_id k = kid) (signing_keys s)\<rparr>))"

section \<open>K01 and K03\<close>

definition K01_event :: "uuid \<Rightarrow> string \<Rightarrow> string option \<Rightarrow> session_step_up_evidence \<Rightarrow> sealed_event" where
  "K01_event new_key algorithm reason step_up =
    ok_event ''signing_key.rotate'' [(''algorithm'', False), (''reason'', False), (''step_up'', True)] new_key
      ([(''algorithm'', algorithm)] @ opt_attr ''reason'' reason @ [(''step_up'', as_attribute step_up)])"

definition K03_event :: "uuid \<Rightarrow> string option \<Rightarrow> sealed_event" where
  "K03_event key_id reason =
    ok_event ''signing_key.delete'' [(''reason'', False)] key_id (opt_attr ''reason'' reason)"

definition rotate_signing_key_body ::
  "uuid \<Rightarrow> uuid \<Rightarrow> uuid \<Rightarrow> string \<Rightarrow> string \<Rightarrow> string \<Rightarrow> string option \<Rightarrow> instant \<Rightarrow> (unit \<times> sealed_event) tx" where
  "rotate_signing_key_body admin sid new_id algorithm private_key_sealed public_key reason now =
    tx_bind (session_step_up_evidence_within_tx sid admin now) (\<lambda>step_up.
    tx_bind (rotate_atomic_within_tx new_id algorithm private_key_sealed public_key now) (\<lambda>_.
      tx_return ((), K01_event new_id algorithm reason step_up)))"

definition rotate_signing_key ::
  "digest_env \<Rightarrow> instant \<Rightarrow> uuid \<Rightarrow> uuid \<Rightarrow> uuid \<Rightarrow> string \<Rightarrow> string \<Rightarrow> string \<Rightarrow> string option \<Rightarrow> instant
    \<Rightarrow> store \<Rightarrow> (store_error + unit) \<times> store" where
  "rotate_signing_key cx at admin sid new_id algorithm private_key_sealed public_key reason now =
    class_a cx at (Some admin)
      (rotate_signing_key_body admin sid new_id algorithm private_key_sealed public_key reason now)"

definition delete_signing_key_body :: "uuid \<Rightarrow> string option \<Rightarrow> (unit \<times> sealed_event) tx" where
  "delete_signing_key_body tgt reason =
    tx_bind (sk_delete_within_tx tgt) (\<lambda>_. tx_return ((), K03_event tgt reason))"

definition delete_signing_key ::
  "digest_env \<Rightarrow> instant \<Rightarrow> uuid \<Rightarrow> uuid \<Rightarrow> string option \<Rightarrow> store \<Rightarrow> (store_error + unit) \<times> store" where
  "delete_signing_key cx at admin tgt reason = class_a cx at (Some admin) (delete_signing_key_body tgt reason)"

lemma keeps_insert_sealed [frame]:
  "(\<And>s x. part (s\<lparr>signing_keys := x\<rparr>) = part s) \<Longrightarrow> keeps part (insert_sealed_on_conn kid alg enc pk act now)"
  by (auto simp: keeps_def insert_sealed_on_conn_def split: if_splits)

interpretation k01: command_body
  "rotate_signing_key_body admin sid new_id algorithm enc pk reason now" for admin sid new_id algorithm enc pk reason now
  unfolding rotate_signing_key_body_def rotate_atomic_within_tx_def retire_active_def
  by unfold_locales (intro frame; simp)

interpretation k03: command_body "delete_signing_key_body tgt reason" for tgt reason
  unfolding delete_signing_key_body_def sk_delete_within_tx_def by unfold_locales (intro frame; simp)

section \<open>The key ring\<close>

text \<open>The abstract key ring: key ids with their public halves, one of them current.\<close>

record key_ring =
  ring_current :: "(uuid \<times> string) option"
  ring_retired :: "(uuid \<times> string) set"

definition ring_keys :: "key_ring \<Rightarrow> (uuid \<times> string) set" where
  "ring_keys r = set_option (ring_current r) \<union> ring_retired r"

text \<open>Its two operations, with the requests they refuse: a rotation makes the new key current and retires the one
  before it, keeping every key; a deletion drops one retired key.\<close>

definition ring_rotate :: "uuid \<Rightarrow> string \<Rightarrow> key_ring \<Rightarrow> key_ring option" where
  "ring_rotate kid pk r =
    (if kid \<in> fst ` ring_keys r then None
     else Some \<lparr> ring_current = Some (kid, pk), ring_retired = ring_keys r \<rparr>)"

definition ring_delete :: "uuid \<Rightarrow> key_ring \<Rightarrow> key_ring option" where
  "ring_delete kid r =
    (if kid \<in> fst ` ring_retired r then Some (r\<lparr> ring_retired := {k \<in> ring_retired r. fst k \<noteq> kid} \<rparr>) else None)"

definition public_half :: "signing_key_row \<Rightarrow> uuid \<times> string" where
  "public_half k = (sk_id k, sk_public_key k)"

definition ring_of :: "store \<Rightarrow> key_ring" where
  "ring_of s = \<lparr> ring_current = map_option public_half (List.find sk_is_active (signing_keys s)),
     ring_retired = public_half ` {k \<in> set (signing_keys s). \<not> sk_is_active k} \<rparr>"

definition keys_ok :: "store \<Rightarrow> bool" where
  "keys_ok s = (distinct (map sk_id (signing_keys s)) \<and> at_most_one sk_is_active (signing_keys s))"

lemma filter_at_most_one:
  "at_most_one P xs \<Longrightarrow> filter P xs = (case List.find P xs of None \<Rightarrow> [] | Some x \<Rightarrow> [x])"
  by (induction xs) (auto simp: at_most_one_def filter_empty_conv find_None_iff split: option.splits)

lemma active_key_find:
  "keys_ok s \<Longrightarrow> active_key s = ok_or (List.find sk_is_active (signing_keys s)) StoreNotFound"
  by (auto simp: active_key_def keys_ok_def filter_at_most_one newest_first_def split: option.splits)

lemma ring_current_of: "ring_current (ring_of s) = map_option public_half (List.find sk_is_active (signing_keys s))"
  by (simp add: ring_of_def)

lemma ring_keys_of:
  assumes "keys_ok s"
  shows "ring_keys (ring_of s) = public_half ` set (signing_keys s)"
proof -
  have "filter sk_is_active (signing_keys s)
      = (case List.find sk_is_active (signing_keys s) of None \<Rightarrow> [] | Some x \<Rightarrow> [x])"
    using assms by (intro filter_at_most_one) (simp add: keys_ok_def)
  from arg_cong [OF this, of set]
  have "set_option (List.find sk_is_active (signing_keys s)) = {k \<in> set (signing_keys s). sk_is_active k}"
    by (cases "List.find sk_is_active (signing_keys s)") auto
  then show ?thesis
    by (auto simp: ring_keys_def ring_of_def option.set_map)
qed

definition rotated_in :: "uuid \<Rightarrow> string \<Rightarrow> string \<Rightarrow> string \<Rightarrow> instant \<Rightarrow> signing_key_row list \<Rightarrow> signing_key_row list" where
  "rotated_in kid algorithm enc pk now keys =
    update_where sk_is_active (\<lambda>k. k\<lparr> sk_is_active := False, sk_rotated_at := Some now \<rparr>) keys @
    [\<lparr> sk_id = kid, sk_algorithm = algorithm, sk_private_key_enc = enc,
       sk_public_key = pk, sk_is_active = True, sk_created_at = now, sk_rotated_at = None \<rparr>]"

lemma rotate_signing_key_bodyD:
  assumes "rotate_signing_key_body admin sid kid alg enc pk reason now s = Inr (v, t)"
  shows "t = s\<lparr>signing_keys := rotated_in kid alg enc pk now (signing_keys s)\<rparr> \<and> stepped_up sid admin now s
    \<and> kid \<notin> sk_id ` set (signing_keys s)"
proof -
  have ids: "sk_id ` set (update_where sk_is_active (\<lambda>k. k\<lparr> sk_is_active := False, sk_rotated_at := Some now \<rparr>)
      (signing_keys s)) = sk_id ` set (signing_keys s)"
    by (rule image_update_where) simp
  obtain ev where "tx_bind (rotate_atomic_within_tx kid alg enc pk now)
      (\<lambda>_. tx_return ((), K01_event kid alg reason ev)) s = Inr (v, t)" "stepped_up sid admin now s"
    using assms unfolding rotate_signing_key_body_def by (rule step_up_bindD)
  then show ?thesis
    using ids
    by (auto simp: rotate_atomic_within_tx_def retire_active_def insert_sealed_on_conn_def rotated_in_def
        results list_ex_key split: if_splits)
qed

lemma retired_not_active:
  "\<not> sk_is_active k"
  if "k \<in> set (update_where sk_is_active (\<lambda>k. k\<lparr> sk_is_active := False, sk_rotated_at := Some now \<rparr>) keys)"
  using that by (auto simp: set_update_where)

lemma find_appended: "(\<And>x. x \<in> set xs \<Longrightarrow> \<not> P x) \<Longrightarrow> List.find P (xs @ ys) = List.find P ys"
  by (induction xs) auto

lemma rotated_in_ring:
  assumes "keys_ok s" "kid \<notin> sk_id ` set (signing_keys s)"
    and "s' = s\<lparr>signing_keys := rotated_in kid alg enc pk now (signing_keys s)\<rparr>"
  shows "keys_ok s' \<and> ring_of s' = \<lparr> ring_current = Some (kid, pk), ring_retired = ring_keys (ring_of s) \<rparr>"
proof
  let ?retire = "\<lambda>k. k\<lparr> sk_is_active := False, sk_rotated_at := Some now \<rparr>"
  let ?old = "update_where sk_is_active ?retire (signing_keys s)"
  have none: "\<not> sk_is_active k" if "k \<in> set ?old" for k
    using that by (rule retired_not_active)
  have halves: "map public_half ?old = map public_half (signing_keys s)"
    by (rule map_update_where) (simp add: public_half_def)
  have ids: "map sk_id ?old = map sk_id (signing_keys s)"
    by (rule map_update_where) simp
  show "keys_ok s'"
    using assms none ids by (simp add: keys_ok_def rotated_in_def at_most_one_snoc image_set flip: set_map)
  have "public_half ` set ?old = ring_keys (ring_of s)"
    using halves by (simp add: ring_keys_of [OF assms(1)] flip: set_map)
  moreover have "{k \<in> set (signing_keys s'). \<not> sk_is_active k} = set ?old"
    using none by (auto simp: assms(3) rotated_in_def)
  ultimately have "ring_retired (ring_of s') = ring_keys (ring_of s)"
    by (simp add: ring_of_def)
  moreover have "ring_current (ring_of s') = Some (kid, pk)"
    by (simp add: ring_of_def assms(3) rotated_in_def find_appended none public_half_def)
  ultimately show "ring_of s' = \<lparr> ring_current = Some (kid, pk), ring_retired = ring_keys (ring_of s) \<rparr>"
    by simp
qed

lemma find_filter_implied: "(\<And>x. x \<in> set xs \<Longrightarrow> P x \<Longrightarrow> Q x) \<Longrightarrow> List.find P (filter Q xs) = List.find P xs"
  by (induction xs) auto

lemma image_filter_on: "f ` {x \<in> A. P x \<and> Q (f x)} = {y \<in> f ` {x \<in> A. P x}. Q y}"
  by blast

lemma delete_signing_key_body_iff:
  "delete_signing_key_body kid reason s = Inr (v, t) \<longleftrightarrow>
    (\<exists>k. List.find (\<lambda>k. sk_id k = kid) (signing_keys s) = Some k \<and> \<not> sk_is_active k) \<and> v = ((), K03_event kid reason)
    \<and> t = s\<lparr>signing_keys := delete_where (\<lambda>k. sk_id k = kid) (signing_keys s)\<rparr>"
  by (auto simp: delete_signing_key_body_def sk_delete_within_tx_def results split: option.splits if_splits)

lemma deleted_ring:
  assumes "keys_ok s" "delete_signing_key_body kid reason s = Inr (v, t)"
  shows "keys_ok t \<and> ring_delete kid (ring_of s) = Some (ring_of t)"
proof -
  obtain k where k: "List.find (\<lambda>k. sk_id k = kid) (signing_keys s) = Some k" "\<not> sk_is_active k"
    and t: "t = s\<lparr>signing_keys := delete_where (\<lambda>k. sk_id k = kid) (signing_keys s)\<rparr>"
    using assms(2) by (auto simp: delete_signing_key_body_iff)
  have k_in: "k \<in> set (signing_keys s)" "sk_id k = kid"
    using find_Some_in [OF k(1)] by auto
  have uniq: "x = k" if "x \<in> set (signing_keys s)" "sk_id x = kid" for x
    using distinct_key_eq [of sk_id "signing_keys s" x k] assms(1) that k_in by (simp add: keys_ok_def)
  have "keys_ok t"
    using assms(1) by (simp add: keys_ok_def t delete_where_def distinct_map_filter at_most_one_filter)
  moreover have "List.find sk_is_active (signing_keys t) = List.find sk_is_active (signing_keys s)"
  proof -
    have "List.find sk_is_active (filter (\<lambda>x. \<not> sk_id x = kid) (signing_keys s)) = List.find sk_is_active (signing_keys s)"
      using uniq k(2) by (intro find_filter_implied) blast
    then show ?thesis
      by (simp add: t delete_where_def)
  qed
  moreover have "public_half ` {x \<in> set (signing_keys t). \<not> sk_is_active x}
      = {q \<in> public_half ` {x \<in> set (signing_keys s). \<not> sk_is_active x}. fst q \<noteq> kid}"
  proof -
    have "{x \<in> set (signing_keys t). \<not> sk_is_active x}
        = {x \<in> set (signing_keys s). \<not> sk_is_active x \<and> fst (public_half x) \<noteq> kid}"
      by (rule Collect_cong) (simp add: t set_delete_where public_half_def conj_ac)
    then show ?thesis
      using image_filter_on [of public_half _ "\<lambda>x. \<not> sk_is_active x" "\<lambda>q. fst q \<noteq> kid"] by simp
  qed
  moreover have "kid \<in> fst ` ring_retired (ring_of s)"
    using k_in k(2) by (force simp: ring_of_def public_half_def)
  ultimately show ?thesis
    by (simp add: ring_of_def ring_delete_def)
qed

text \<open>The commands of the key table, whatever their outcome.\<close>

inductive key_step :: "digest_env \<Rightarrow> store \<Rightarrow> store \<Rightarrow> bool" for cx where
  k01: "rotate_signing_key cx at admin sid kid alg enc pk reason now s = (r, s') \<Longrightarrow> key_step cx s s'"
| k03: "delete_signing_key cx at admin kid reason s = (r, s') \<Longrightarrow> key_step cx s s'"

lemma ring_of_audit [simp]: "ring_of (s\<lparr>audit := a\<rparr>) = ring_of s" "keys_ok (s\<lparr>audit := a\<rparr>) = keys_ok s"
  by (simp_all add: ring_of_def keys_ok_def)

lemma rotate_command_ring:
  assumes "keys_ok s" "rotate_signing_key cx at admin sid kid alg enc pk reason now s = (r, s')"
  shows "keys_ok s' \<and> (if is_ok r then ring_rotate kid pk (ring_of s) = Some (ring_of s') else s' = s)"
proof (cases r)
  case (Inl e)
  then show ?thesis
    using assms k01.class_a_error unfolding rotate_signing_key_def by fastforce
next
  case (Inr v)
  then obtain ev t a where t: "rotate_signing_key_body admin sid kid alg enc pk reason now s = Inr ((v, ev), t)"
    and s': "s' = t\<lparr>audit := a\<rparr>"
    using assms(2) unfolding rotate_signing_key_def by (metis k01.class_a_success)
  have fresh: "kid \<notin> sk_id ` set (signing_keys s)"
    and "keys_ok t \<and> ring_of t = \<lparr> ring_current = Some (kid, pk), ring_retired = ring_keys (ring_of s) \<rparr>"
    using rotate_signing_key_bodyD [OF t] rotated_in_ring [OF assms(1)] by blast+
  moreover have "kid \<notin> fst ` ring_keys (ring_of s)"
    using fresh by (auto simp: ring_keys_of [OF assms(1)] public_half_def)
  ultimately show ?thesis
    by (simp add: s' Inr ring_rotate_def)
qed

lemma delete_command_ring:
  assumes "keys_ok s" "delete_signing_key cx at admin kid reason s = (r, s')"
  shows "keys_ok s' \<and> (if is_ok r then ring_delete kid (ring_of s) = Some (ring_of s') else s' = s)"
proof (cases r)
  case (Inl e)
  then show ?thesis
    using assms k03.class_a_error unfolding delete_signing_key_def by fastforce
next
  case (Inr v)
  then obtain ev t a where t: "delete_signing_key_body kid reason s = Inr ((v, ev), t)" and s': "s' = t\<lparr>audit := a\<rparr>"
    using assms(2) unfolding delete_signing_key_def by (metis k03.class_a_success)
  then show ?thesis
    using deleted_ring [OF assms(1) t] by (simp add: Inr)
qed

lemma key_steps_ok:
  assumes "rtranclp (key_step cx) s s'" "keys_ok s"
  shows "keys_ok s'"
  using assms
  by (induction rule: rtranclp_induct) (auto elim!: key_step.cases dest: rotate_command_ring delete_command_ring)

section \<open>Commands and ring operations\<close>

datatype key_command =
    RotateKey instant uuid uuid uuid string string string "string option" instant
  | DeleteKey instant uuid uuid "string option"

fun run_key_command :: "digest_env \<Rightarrow> key_command \<Rightarrow> store \<Rightarrow> (store_error + unit) \<times> store" where
  "run_key_command cx (RotateKey at admin sid kid alg enc pk reason now) s =
    rotate_signing_key cx at admin sid kid alg enc pk reason now s"
| "run_key_command cx (DeleteKey at admin kid reason) s = delete_signing_key cx at admin kid reason s"

fun run_key_commands :: "digest_env \<Rightarrow> key_command list \<Rightarrow> store \<Rightarrow> (store_error + unit) list \<times> store" where
  "run_key_commands cx [] s = ([], s)"
| "run_key_commands cx (c # cs) s =
    (case run_key_command cx c s of (r, s1) \<Rightarrow> case run_key_commands cx cs s1 of (rs, s2) \<Rightarrow> (r # rs, s2))"

text \<open>The ring operation of each command; replaying a log of commands with their results performs exactly the
  operations of the commands that succeeded, and is undefined if the ring refuses one of them.\<close>

fun ring_op :: "key_command \<Rightarrow> key_ring \<Rightarrow> key_ring option" where
  "ring_op (RotateKey at admin sid kid alg enc pk reason now) = ring_rotate kid pk"
| "ring_op (DeleteKey at admin kid reason) = ring_delete kid"

fun ring_replay :: "(key_command \<times> (store_error + unit)) list \<Rightarrow> key_ring \<Rightarrow> key_ring option" where
  "ring_replay [] r = Some r"
| "ring_replay ((c, result) # log) r =
    (if is_ok result then Option.bind (ring_op c r) (ring_replay log) else ring_replay log r)"

text \<open>What a command needs besides the ring: a stepped-up session for a rotation, and event attributes within their
  bounds.\<close>

fun authorised :: "key_command \<Rightarrow> store \<Rightarrow> bool" where
  "authorised (RotateKey at admin sid kid alg enc pk reason now) s =
    (\<exists>ev. session_step_up_evidence_within_tx sid admin now s = Inr (ev, s) \<and> is_ok (checked_attributes (K01_event kid alg reason ev)))"
| "authorised (DeleteKey at admin kid reason) s = is_ok (checked_attributes (K03_event kid reason))"

lemma command_ring:
  assumes "keys_ok s" "run_key_command cx c s = (r, s')"
  shows "keys_ok s' \<and> (if is_ok r then ring_op c (ring_of s) = Some (ring_of s') else s' = s)"
  using assms by (cases c) (auto dest: rotate_command_ring delete_command_ring)

lemma rotate_accepted:
  assumes "keys_ok s"
  shows "is_ok (fst (rotate_signing_key cx at admin sid kid alg enc pk reason now s)) \<longleftrightarrow>
    (\<exists>ev. session_step_up_evidence_within_tx sid admin now s = Inr (ev, s) \<and> is_ok (checked_attributes (K01_event kid alg reason ev)))
    \<and> ring_rotate kid pk (ring_of s) \<noteq> None" (is "?ran \<longleftrightarrow> ?may \<and> ?free")
proof
  assume ?ran
  then obtain v s' where run: "rotate_signing_key cx at admin sid kid alg enc pk reason now s = (Inr v, s')"
    by (cases "rotate_signing_key cx at admin sid kid alg enc pk reason now s") (auto simp: is_ok_iff)
  then obtain ev t attrs where body: "rotate_signing_key_body admin sid kid alg enc pk reason now s = Inr ((v, ev), t)"
    and attrs: "checked_attributes ev = Inr attrs"
    unfolding rotate_signing_key_def by (rule k01.class_a_success)
  then have ?may
    unfolding rotate_signing_key_body_def
    by (auto simp: results dest: step_up_evidence_ok)
  then show "?may \<and> ?free"
    using rotate_command_ring [OF assms run] by simp
next
  assume *: "?may \<and> ?free"
  then obtain ev attrs where ev: "session_step_up_evidence_within_tx sid admin now s = Inr (ev, s)"
    "checked_attributes (K01_event kid alg reason ev) = Inr attrs"
    by (auto simp: is_ok_iff)
  have "kid \<notin> sk_id ` set (signing_keys s)"
    using * by (auto simp: ring_rotate_def ring_keys_of [OF assms] public_half_def image_iff split: if_splits)
  then have "\<exists>t. rotate_signing_key_body admin sid kid alg enc pk reason now s = Inr (((), K01_event kid alg reason ev), t)"
    using ev(1)
    by (simp add: rotate_signing_key_body_def rotate_atomic_within_tx_def retire_active_def insert_sealed_on_conn_def
        list_ex_key image_update_where)
  then show ?ran
    using k01.class_a_commit [OF _ ev(2)] unfolding rotate_signing_key_def by fastforce
qed

lemma delete_accepted:
  assumes "keys_ok s"
  shows "is_ok (fst (delete_signing_key cx at admin kid reason s)) \<longleftrightarrow>
    is_ok (checked_attributes (K03_event kid reason)) \<and> ring_delete kid (ring_of s) \<noteq> None" (is "?ran \<longleftrightarrow> ?may \<and> ?old")
proof
  assume ?ran
  then obtain v s' where run: "delete_signing_key cx at admin kid reason s = (Inr v, s')"
    by (cases "delete_signing_key cx at admin kid reason s") (auto simp: is_ok_iff)
  then have ?may
    unfolding delete_signing_key_def by (rule k03.class_a_success) (auto simp: delete_signing_key_body_iff)
  then show "?may \<and> ?old"
    using delete_command_ring [OF assms run] by simp
next
  assume *: "?may \<and> ?old"
  then obtain attrs where attrs: "checked_attributes (K03_event kid reason) = Inr attrs"
    by (auto simp: is_ok_iff)
  obtain k where k: "k \<in> set (signing_keys s)" "sk_id k = kid" "\<not> sk_is_active k"
    using * by (auto simp: ring_delete_def ring_of_def public_half_def split: if_splits)
  then have "List.find (\<lambda>k. sk_id k = kid) (signing_keys s) = Some k"
    using assms find_distinct_key by (fastforce simp: keys_ok_def)
  then have "\<exists>t. delete_signing_key_body kid reason s = Inr (((), K03_event kid reason), t)"
    using k(3) by (simp add: delete_signing_key_body_iff)
  then show ?ran
    using k03.class_a_commit [OF _ attrs] unfolding delete_signing_key_def by fastforce
qed

lemma command_accepted:
  "keys_ok s \<Longrightarrow> is_ok (fst (run_key_command cx c s)) \<longleftrightarrow> authorised c s \<and> ring_op c (ring_of s) \<noteq> None"
  by (cases c) (simp_all add: rotate_accepted delete_accepted)

lemma commands_ring:
  "keys_ok s \<Longrightarrow> run_key_commands cx cs s = (rs, s') \<Longrightarrow>
    keys_ok s' \<and> length rs = length cs \<and> ring_replay (zip cs rs) (ring_of s) = Some (ring_of s')"
proof (induction cs arbitrary: s rs)
  case (Cons c cs)
  obtain r s1 rs' where head: "run_key_command cx c s = (r, s1)" and tail: "run_key_commands cx cs s1 = (rs', s')"
    and rs: "rs = r # rs'"
    using Cons.prems(2) by (auto split: prod.splits)
  show ?case
    using command_ring [OF Cons.prems(1) head] Cons.IH [OF _ tail] by (auto simp: rs split: if_splits)
qed simp

section \<open>Properties\<close>

lemma set_newest_first [simp]: "set (newest_first ks) = set ks"
  by (simp add: newest_first_def)

text \<open>C22: The signing-key table refines the key ring, command by command.  Start from a table with unique ids and at
  most one active key and run any list of rotations and deletions: replaying the commands that succeeded on the ring
  gives the ring of the final table, where a rotation makes its key current and retires the previous one without
  dropping any key, and a deletion drops its retired key and nothing else; a command that fails leaves the ring.  The key
  that signs is the current key, the published keys are exactly the keys of the ring, and the next command is
  accepted exactly when it is authorised and the ring allows it: a new id for a rotation, a retired key for a
  deletion.\<close>

theorem key_ring_refinement:
  assumes "keys_ok s" "run_key_commands cx cs s = (rs, s')"
  shows "keys_ok s' \<and> length rs = length cs \<and> ring_replay (zip cs rs) (ring_of s) = Some (ring_of s')
    \<and> (case active_key s' of
         Inr k \<Rightarrow> ring_current (ring_of s') = Some (public_half k)
       | Inl e \<Rightarrow> e = StoreNotFound \<and> ring_current (ring_of s') = None)
    \<and> public_half ` set (list_published s') = ring_keys (ring_of s')
    \<and> (\<forall>c. is_ok (fst (run_key_command cx c s')) \<longleftrightarrow> authorised c s' \<and> ring_op c (ring_of s') \<noteq> None)"
proof -
  have steps: "keys_ok s'" "length rs = length cs" "ring_replay (zip cs rs) (ring_of s) = Some (ring_of s')"
    using commands_ring [OF assms] by blast+
  then show ?thesis
    by (cases "List.find sk_is_active (signing_keys s')")
      (simp_all add: active_key_find ring_keys_of list_published_def ring_current_of command_accepted)
qed

lemma demo_no_keys: "signing_keys demo_accounts = []"
  by (simp add: demo_accounts_def empty_store_def)

lemma demo_key_rotation: "\<exists>s'. rotate_signing_key demo_env 0 ''root'' ''s1'' ''k1'' ''EdDSA'' ''e'' ''p'' None 0 demo_accounts = (Inr (), s')"
proof -
  have "checked_attributes (K01_event ''k1'' ''EdDSA'' None NotRequired)
      = Inr [(''algorithm'', ''EdDSA''), (''step_up'', as_attribute NotRequired)]"
    unfolding K01_event_def by (simp add: opt_attr_def, intro checked_ok_event) (simp_all add: attribute_bounds)
  moreover obtain t where "rotate_signing_key_body ''root'' ''s1'' ''k1'' ''EdDSA'' ''e'' ''p'' None 0 demo_accounts
      = Inr (((), K01_event ''k1'' ''EdDSA'' None NotRequired), t)"
    by (auto simp: rotate_signing_key_body_def demo_evidence rotate_atomic_within_tx_def retire_active_def
        insert_sealed_on_conn_def update_where_def demo_no_keys)
  ultimately show ?thesis
    unfolding rotate_signing_key_def by (intro exI) (rule k01.class_a_commit)
qed

theorem key_ring_refinement_witness:
  "\<exists>r2 r3 s'. run_key_commands demo_env [RotateKey 0 ''root'' ''s1'' ''k1'' ''EdDSA'' ''e'' ''p'' None 0,
      DeleteKey 0 ''root'' ''k1'' None, RotateKey 0 ''root'' ''s1'' ''k1'' ''EdDSA'' ''e'' ''q'' None 0] demo_accounts
      = ([Inr (), Inl r2, Inl r3], s')
    \<and> ring_of s' = \<lparr> ring_current = Some (''k1'', ''p''), ring_retired = {} \<rparr>"
proof -
  let ?c1 = "RotateKey 0 ''root'' ''s1'' ''k1'' ''EdDSA'' ''e'' ''p'' None 0"
  let ?c2 = "DeleteKey 0 ''root'' ''k1'' None"
  let ?c3 = "RotateKey 0 ''root'' ''s1'' ''k1'' ''EdDSA'' ''e'' ''q'' None 0"
  obtain s1 where one: "run_key_command demo_env ?c1 demo_accounts = (Inr (), s1)"
    using demo_key_rotation by auto
  have ok: "keys_ok demo_accounts"
    by (simp add: keys_ok_def demo_no_keys at_most_one_def)
  have one': "run_key_commands demo_env [?c1] demo_accounts = ([Inr ()], s1)"
    using one by simp
  note first = key_ring_refinement [OF ok one']
  have ring: "ring_of s1 = \<lparr> ring_current = Some (''k1'', ''p''), ring_retired = {} \<rparr>" and ok1: "keys_ok s1"
    using first by (simp_all add: ring_rotate_def ring_of_def ring_keys_def demo_no_keys)
  have accepted: "is_ok (fst (run_key_command demo_env c s1)) \<longleftrightarrow> authorised c s1 \<and> ring_op c (ring_of s1) \<noteq> None" for c
    using first by blast
  have stay: "\<exists>e. run_key_command demo_env c s1 = (Inl e, s1)" if "ring_op c (ring_of s1) = None" for c
    using command_ring [OF ok1, of demo_env c] accepted [of c] that
    by (cases "run_key_command demo_env c s1") (auto simp: is_ok_def split: sum.splits)
  obtain e2 e3 where "run_key_command demo_env ?c2 s1 = (Inl e2, s1)" "run_key_command demo_env ?c3 s1 = (Inl e3, s1)"
    using stay [of ?c2] stay [of ?c3] by (auto simp: ring ring_delete_def ring_rotate_def ring_keys_def)
  then show ?thesis
    using one ring by (intro exI conjI) simp_all
qed

end
