(* ===== verification/Oidc_Tokens.thy ===== *)
theory Oidc_Tokens
  imports Jwt Signing_Keys
begin

text \<open>
  Tokens and their claims (\<open>sui-id-core/src/oidc/tokens.rs\<close>): issuing the access and ID token, PKCE, and
  verification against the published keys.  The serialisation of the two claim types is serde's, the
  record \<open>claims_json\<close>.
\<close>

definition scope_has :: "string \<Rightarrow> string \<Rightarrow> bool" where
  "scope_has scope tok = list_ex (\<lambda>w. w = tok) (split_whitespace scope)"

section \<open>Claims\<close>

record access_token_claims =
  at_iss :: string
  at_sub :: string
  at_aud :: string
  at_iat :: int
  at_exp :: int
  at_scope :: string
  at_jti :: string

record id_token_claims =
  it_iss :: string
  it_sub :: string
  it_aud :: string
  it_iat :: int
  it_exp :: int
  it_nonce :: "string option"
  it_jti :: string
  it_acr :: "string option"
  it_amr :: "string list option"
  it_email :: "string option"
  it_email_verified :: "bool option"

record claims_json =
  access_to_json :: "access_token_claims \<Rightarrow> string option"
  access_from_json :: "string \<Rightarrow> access_token_claims option"
  id_to_json :: "id_token_claims \<Rightarrow> string option"
  id_from_json :: "string \<Rightarrow> id_token_claims option"

text \<open>serde reads back what it wrote.\<close>

definition claims_json_ok :: "claims_json \<Rightarrow> bool" where
  "claims_json_ok cj =
    ((\<forall>c j. access_to_json cj c = Some j \<longrightarrow> access_from_json cj j = Some c)
     \<and> (\<forall>c j. id_to_json cj c = Some j \<longrightarrow> id_from_json cj j = Some c))"

record token_lifetimes =
  access_secs :: int
  id_secs :: int
  refresh_secs :: int

definition default_lifetimes :: token_lifetimes where
  "default_lifetimes = \<lparr> access_secs = 15 * 60, id_secs = 15 * 60, refresh_secs = 14 * 24 * 60 * 60 \<rparr>"

record token_set =
  ts_access_token :: string
  ts_id_token :: "string option"
  ts_refresh_token :: string
  ts_access_expires_in :: int
  ts_user_id :: "uuid option"

section \<open>Issuing\<close>

definition access_claims ::
  "string \<Rightarrow> uuid \<Rightarrow> uuid \<Rightarrow> string \<Rightarrow> token_lifetimes \<Rightarrow> instant \<Rightarrow> string \<Rightarrow> access_token_claims" where
  "access_claims issuer user client scope lifetimes now jti =
    \<lparr> at_iss = issuer, at_sub = user, at_aud = client, at_iat = timestamp now,
      at_exp = timestamp now + access_secs lifetimes, at_scope = scope, at_jti = jti \<rparr>"

definition email_claims :: "string \<Rightarrow> (string \<times> bool) option \<Rightarrow> string option \<times> bool option" where
  "email_claims scope user_email =
    (if scope_has scope ''email''
     then (case user_email of Some (addr, verified) \<Rightarrow> (Some addr, Some verified) | None \<Rightarrow> (None, None))
     else (None, None))"

definition id_claims ::
  "string \<Rightarrow> uuid \<Rightarrow> uuid \<Rightarrow> string \<Rightarrow> string option \<Rightarrow> token_lifetimes \<Rightarrow> instant \<Rightarrow> string
    \<Rightarrow> auth_method list \<Rightarrow> (string \<times> bool) option \<Rightarrow> id_token_claims" where
  "id_claims issuer user client scope nonce lifetimes now jti auth_methods user_email =
    \<lparr> it_iss = issuer, it_sub = user, it_aud = client, it_iat = timestamp now,
      it_exp = timestamp now + id_secs lifetimes, it_nonce = nonce, it_jti = jti,
      it_acr = (if auth_methods = [] then None else Some (acr_from_methods auth_methods)),
      it_amr = (if auth_methods = [] then None else Some (amr_from_methods auth_methods)),
      it_email = fst (email_claims scope user_email),
      it_email_verified = snd (email_claims scope user_email) \<rparr>"

text \<open>\<open>now\<close> is the clock read; \<open>jti\<close>, \<open>jti'\<close> and \<open>raw\<close> are the random values of the access token, the ID
  token and the refresh token of the bundle.\<close>

definition issue_token_set ::
  "jwt_env \<Rightarrow> claims_json \<Rightarrow> instant \<Rightarrow> string \<Rightarrow> string \<Rightarrow> string \<Rightarrow> string \<Rightarrow> uuid \<Rightarrow> uuid \<Rightarrow> string
    \<Rightarrow> string option \<Rightarrow> bool \<Rightarrow> string \<Rightarrow> string \<Rightarrow> token_lifetimes \<Rightarrow> auth_method list
    \<Rightarrow> (string \<times> bool) option \<Rightarrow> core_error + token_set" where
  "issue_token_set je cj now jti jti' raw issuer user client scope nonce include_id_token kid signing_key
      lifetimes auth_methods user_email =
    (case jwt_sign je (access_to_json cj) kid signing_key
        (access_claims issuer user client scope lifetimes now jti) of
       Inl e \<Rightarrow> Inl e
     | Inr access_token \<Rightarrow>
    (case (if include_id_token
           then map_sum id Some (jwt_sign je (id_to_json cj) kid signing_key
             (id_claims issuer user client scope nonce lifetimes now jti' auth_methods user_email))
           else Inr None) of
       Inl e \<Rightarrow> Inl e
     | Inr id_token \<Rightarrow>
         Inr \<lparr> ts_access_token = access_token, ts_id_token = id_token, ts_refresh_token = raw,
               ts_access_expires_in = access_secs lifetimes, ts_user_id = Some user \<rparr>))"

section \<open>PKCE\<close>

text \<open>The challenge is encoded into a buffer of 64 bytes; an encoding that does not fit yields the empty
  string.\<close>

definition s256_challenge :: "digest_env \<Rightarrow> jwt_env \<Rightarrow> string \<Rightarrow> string" where
  "s256_challenge cx je verifier =
    (let e = b64_encode je (sha256 cx verifier) in if length e \<le> 64 then e else [])"

definition verify_pkce :: "digest_env \<Rightarrow> jwt_env \<Rightarrow> string \<Rightarrow> string \<Rightarrow> string \<Rightarrow> core_error + unit" where
  "verify_pkce cx je pkce_method verifier expected_challenge =
    (if pkce_method = ''S256''
     then
       (let computed = s256_challenge cx je verifier in
        if \<not> utf8_valid computed then Inl Internal
        else if computed = expected_challenge then Inr ()
        else Inl (Protocol InvalidGrant ''PKCE verification failed''))
     else Inl (Protocol InvalidGrant (''unsupported code_challenge_method: '' @ pkce_method)))"

lemma verify_pkce_Inr_iff [results]:
  "verify_pkce cx je m v ch = Inr u \<longleftrightarrow> m = ''S256'' \<and> ch = s256_challenge cx je v \<and> utf8_valid ch"
  by (auto simp: verify_pkce_def Let_def)

section \<open>Verification\<close>

record cached_signing_key =
  ck_kid :: string
  ck_algorithm :: string
  ck_public_key_bytes :: string

definition published_to_cached :: "signing_key_row list \<Rightarrow> cached_signing_key list" where
  "published_to_cached rows =
    map (\<lambda>k. \<lparr> ck_kid = sk_id k, ck_algorithm = sk_algorithm k, ck_public_key_bytes = sk_public_key k \<rparr>) rows"

definition resolve_kid :: "jwt_env \<Rightarrow> cached_signing_key list \<Rightarrow> string \<Rightarrow> string option" where
  "resolve_kid je keys kid =
    (case List.find (\<lambda>k. ck_kid k = kid) keys of
       None \<Rightarrow> None
     | Some entry \<Rightarrow>
         if length (ck_public_key_bytes entry) \<noteq> 32 then None
         else if ed_point je (ck_public_key_bytes entry) then Some (ck_public_key_bytes entry) else None)"

definition verify_from_snapshot ::
  "jwt_env \<Rightarrow> (string \<Rightarrow> 'c option) \<Rightarrow> cached_signing_key list \<Rightarrow> string \<Rightarrow> core_error + 'c decoded" where
  "verify_from_snapshot je from_json keys token = jwt_verify je from_json token (resolve_kid je keys)"

definition verify_access_token_cached ::
  "jwt_env \<Rightarrow> claims_json \<Rightarrow> cached_signing_key list \<Rightarrow> instant \<Rightarrow> string \<Rightarrow> core_error + access_token_claims" where
  "verify_access_token_cached je cj keys now token =
    (case verify_from_snapshot je (access_from_json cj) keys token of
       Inl e \<Rightarrow> Inl e
     | Inr d \<Rightarrow> if at_exp (d_claims d) < timestamp now then Inl Unauthenticated else Inr (d_claims d))"

definition verify_id_token_cached ::
  "jwt_env \<Rightarrow> claims_json \<Rightarrow> cached_signing_key list \<Rightarrow> instant \<Rightarrow> string \<Rightarrow> bool \<Rightarrow> core_error + id_token_claims" where
  "verify_id_token_cached je cj keys now token accept_expired =
    (case verify_from_snapshot je (id_from_json cj) keys token of
       Inl e \<Rightarrow> Inl e
     | Inr d \<Rightarrow> if \<not> accept_expired \<and> it_exp (d_claims d) < timestamp now then Inl Unauthenticated
                else Inr (d_claims d))"

definition verify_access_token ::
  "jwt_env \<Rightarrow> claims_json \<Rightarrow> instant \<Rightarrow> string \<Rightarrow> store \<Rightarrow> core_error + access_token_claims" where
  "verify_access_token je cj now token s =
    (case verify_from_snapshot je (access_from_json cj) (published_to_cached (list_published s)) token of
       Inl e \<Rightarrow> Inl e
     | Inr d \<Rightarrow> if at_exp (d_claims d) < timestamp now then Inl Unauthenticated else Inr (d_claims d))"

definition verify_id_token ::
  "jwt_env \<Rightarrow> claims_json \<Rightarrow> instant \<Rightarrow> string \<Rightarrow> bool \<Rightarrow> store \<Rightarrow> core_error + id_token_claims" where
  "verify_id_token je cj now token accept_expired s =
    (case verify_from_snapshot je (id_from_json cj) (published_to_cached (list_published s)) token of
       Inl e \<Rightarrow> Inl e
     | Inr d \<Rightarrow> if \<not> accept_expired \<and> it_exp (d_claims d) < timestamp now then Inl Unauthenticated
                else Inr (d_claims d))"

section \<open>Resolving published keys\<close>

lemma distinct_newest_first [simp]:
  "distinct (map sk_id (newest_first ks)) \<longleftrightarrow> distinct (map sk_id ks)"
  by (simp add: newest_first_def distinct_map)

lemma resolve_published:
  assumes "keys_ok s" "(kid, pk) \<in> ring_keys (ring_of s)" "length pk = 32" "ed_point je pk"
  shows "resolve_kid je (published_to_cached (list_published s)) kid = Some pk"
proof -
  obtain k where k: "k \<in> set (list_published s)" "sk_id k = kid" "sk_public_key k = pk"
    using assms(1,2) by (auto simp: ring_keys_of public_half_def list_published_def)
  have "distinct (map sk_id (list_published s))"
    using assms(1) by (simp add: keys_ok_def list_published_def)
  then have "distinct (map ck_kid (published_to_cached (list_published s)))"
    by (simp add: published_to_cached_def comp_def)
  then have "List.find (\<lambda>c. ck_kid c = kid) (published_to_cached (list_published s))
      = Some \<lparr> ck_kid = sk_id k, ck_algorithm = sk_algorithm k, ck_public_key_bytes = sk_public_key k \<rparr>"
    using k(1,2) find_distinct_key [of ck_kid "published_to_cached (list_published s)"
        "\<lparr> ck_kid = sk_id k, ck_algorithm = sk_algorithm k, ck_public_key_bytes = sk_public_key k \<rparr>"]
    by (auto simp: published_to_cached_def)
  then show ?thesis
    using k(3) assms(3,4) by (simp add: resolve_kid_def)
qed

end
