(* ===== verification/Authorize.thy ===== *)
theory Authorize
  imports Clients Oidc_Tokens "HOL-Library.Word"
begin

text \<open>
  The authorization endpoint (\<open>sui-id-core/src/oidc/authorize.rs\<close>): validation of the client, the
  redirect URI, PKCE and the scopes, and the issuing of an authorization code.  The \<open>url\<close> crate's parser
  and the formatting of a string by \<open>{:?}\<close> are the fields of \<open>web_env\<close>.
\<close>

section \<open>URLs\<close>

datatype url_host = HostDomain string | HostIpv4 "32 word" | HostIpv6 "128 word"

record url =
  url_scheme :: string
  url_username :: string
  url_password :: "string option"
  url_host :: "url_host option"
  url_port :: "16 word option"
  url_path :: string
  url_query :: "string option"
  url_fragment :: "string option"

record web_env =
  url_parse :: "string \<Rightarrow> url option"
  debug_str :: "string \<Rightarrow> string"

text \<open>\<open>Ipv4Addr::is_loopback\<close> and \<open>Ipv6Addr::is_loopback\<close>: 127.0.0.0/8 and ::1.\<close>

fun host_is_loopback :: "url_host \<Rightarrow> bool" where
  "host_is_loopback (HostIpv4 ip) = (drop_bit 24 ip = 127)"
| "host_is_loopback (HostIpv6 ip) = (ip = 1)"
| "host_is_loopback (HostDomain _) = False"

definition is_numeric_loopback_http :: "url \<Rightarrow> bool" where
  "is_numeric_loopback_http u =
    (url_scheme u = ''http'' \<and> (case url_host u of None \<Rightarrow> False | Some h \<Rightarrow> host_is_loopback h))"

definition is_numeric_loopback_http_str :: "web_env \<Rightarrow> string \<Rightarrow> bool" where
  "is_numeric_loopback_http_str we uri =
    (case url_parse we uri of None \<Rightarrow> False | Some u \<Rightarrow> is_numeric_loopback_http u)"

section \<open>Redirect URIs\<close>

definition is_redirect_uri_registered :: "string list \<Rightarrow> string \<Rightarrow> bool" where
  "is_redirect_uri_registered registered submitted = list_ex (\<lambda>u. u = submitted) registered"

definition redirect_uri_matches :: "web_env \<Rightarrow> client_row \<Rightarrow> string \<Rightarrow> bool" where
  "redirect_uri_matches we client submitted =
    (if is_redirect_uri_registered (c_redirect_uris client) submitted then True
     else if c_confidential client then False
     else (case url_parse we submitted of
         None \<Rightarrow> False
       | Some submitted_url \<Rightarrow>
           if \<not> is_numeric_loopback_http submitted_url then False
           else list_all (is_numeric_loopback_http_str we) (c_redirect_uris client)
             \<and> list_ex (\<lambda>registered.
                 case url_parse we registered of
                   None \<Rightarrow> False
                 | Some registered_url \<Rightarrow>
                     url_host registered_url = url_host submitted_url
                     \<and> url_path registered_url = url_path submitted_url
                     \<and> url_query registered_url = url_query submitted_url
                     \<and> url_fragment registered_url = url_fragment submitted_url)
               (c_redirect_uris client)))"

definition redirect_mismatch :: "client_row \<Rightarrow> string \<Rightarrow> core_error" where
  "redirect_mismatch client redirect_uri =
    Protocol InvalidRequest
      (''redirect_uri does not match any registered URI for this client. Submitted: '' @ quoted redirect_uri
       @ ''. Registered URIs: ['' @ join '', '' (map quoted (c_redirect_uris client))
       @ '']. The comparison is exact (port-flexible only for a PublicNativeLoopback client, RFC 8252) ''
       @ [CHR 0xE2, CHR 0x80, CHR 0x94]
       @ '' check for trailing slashes, http vs https, and other port numbers.'')"

section \<open>Validation\<close>

record authorize_params =
  ap_client_id :: uuid
  ap_redirect_uri :: string
  ap_response_type :: string
  ap_scope :: string
  ap_state :: "string option"
  ap_nonce :: "string option"
  ap_code_challenge :: string
  ap_code_challenge_method :: string

text \<open>The lookup and the checks on the client that both phases of the endpoint run.\<close>

definition authorize_client :: "web_env \<Rightarrow> uuid \<Rightarrow> string \<Rightarrow> store \<Rightarrow> core_error + client_row" where
  "authorize_client we client_id redirect_uri s =
    (case get_client client_id s of
       Inl e \<Rightarrow> Inl (if e = StoreNotFound then Protocol InvalidClient ''unknown client_id'' else Store e)
     | Inr client \<Rightarrow>
         if c_is_disabled client \<or> c_is_deleted client
         then Inl (Protocol UnauthorizedClient ''client is not allowed to use the authorization endpoint'')
         else if \<not> redirect_uri_matches we client redirect_uri then Inl (redirect_mismatch client redirect_uri)
         else Inr client)"

definition validate_client_and_redirect_uri :: "web_env \<Rightarrow> uuid \<Rightarrow> string \<Rightarrow> store \<Rightarrow> core_error + client_row" where
  "validate_client_and_redirect_uri we client_id redirect_uri s = authorize_client we client_id redirect_uri s"

definition scope_refused :: "web_env \<Rightarrow> string \<Rightarrow> string \<Rightarrow> string \<Rightarrow> core_error" where
  "scope_refused we tok client_name allowed_trimmed =
    Protocol InvalidScope
      (''scope '' @ debug_str we tok @ '' is not permitted for client '' @ debug_str we client_name
       @ '' (allowed: '' @ debug_str we allowed_trimmed @ ''). Go to Admin '' @ [CHR 0xE2, CHR 0x86, CHR 0x92]
       @ '' Clients '' @ [CHR 0xE2, CHR 0x86, CHR 0x92] @ '' edit this client and add '' @ debug_str we tok
       @ '' to the Allowed scopes field.'')"

definition enforce_scope_policy :: "web_env \<Rightarrow> string \<Rightarrow> string \<Rightarrow> string \<Rightarrow> core_error + unit" where
  "enforce_scope_policy we allowed requested client_name =
    (let allowed_trimmed = str_trim allowed in
     if allowed_trimmed = [] then Inr ()
     else (case List.find (\<lambda>tok. \<not> tok \<in> set (split_whitespace allowed_trimmed)) (split_whitespace requested) of
         Some tok \<Rightarrow> Inl (scope_refused we tok client_name allowed_trimmed)
       | None \<Rightarrow> Inr ()))"

definition begin_authorization :: "web_env \<Rightarrow> authorize_params \<Rightarrow> store \<Rightarrow> core_error + authorize_params" where
  "begin_authorization we params s =
    (if ap_response_type params \<noteq> ''code''
       then Inl (Protocol UnsupportedResponseType
         (''only response_type=code is supported, got '' @ ap_response_type params))
     else if ap_code_challenge params = []
       then Inl (Protocol InvalidRequest ''code_challenge is required (PKCE)'')
     else if ap_code_challenge_method params \<noteq> ''S256''
       then Inl (Protocol InvalidRequest ''code_challenge_method must be S256'')
     else (case authorize_client we (ap_client_id params) (ap_redirect_uri params) s of
         Inl e \<Rightarrow> Inl e
       | Inr client \<Rightarrow>
           (case enforce_scope_policy we (c_allowed_scopes client) (ap_scope params) (c_name client) of
              Inl e \<Rightarrow> Inl e
            | Inr _ \<Rightarrow> Inr params)))"

section \<open>Issuing the code\<close>

definition AUTH_CODE_LIFETIME_SECS :: int where
  "AUTH_CODE_LIFETIME_SECS = 60"

record authorization_response_redirect =
  ar_redirect_uri :: string
  ar_code :: string
  ar_state :: "string option"

definition issued_code ::
  "digest_env \<Rightarrow> instant \<Rightarrow> string \<Rightarrow> uuid \<Rightarrow> auth_method list \<Rightarrow> authorize_params \<Rightarrow> authorization_code_row" where
  "issued_code cx now code_plain user_id methods accepted =
    \<lparr> ac_code_hash = code_hash_of cx code_plain, ac_client_id = ap_client_id accepted, ac_user_id = user_id,
      ac_redirect_uri = ap_redirect_uri accepted, ac_scope = ap_scope accepted, ac_nonce = ap_nonce accepted,
      ac_code_challenge = ap_code_challenge accepted,
      ac_code_challenge_method = ap_code_challenge_method accepted,
      ac_expires_at = now + seconds AUTH_CODE_LIFETIME_SECS, ac_consumed = False, ac_created_at = now,
      ac_auth_methods = methods \<rparr>"

text \<open>\<open>now\<close> is the clock read and \<open>code_plain\<close> the random code.\<close>

definition complete_authorization ::
  "digest_env \<Rightarrow> instant \<Rightarrow> string \<Rightarrow> uuid \<Rightarrow> auth_method list \<Rightarrow> authorize_params \<Rightarrow> store
    \<Rightarrow> (core_error + authorization_response_redirect) \<times> store" where
  "complete_authorization cx now code_plain user_id methods accepted s =
    (case with_tx (ac_insert (issued_code cx now code_plain user_id methods accepted)) s of
       (Inl e, s') \<Rightarrow> (Inl (Store e), s')
     | (Inr _, s') \<Rightarrow>
         (Inr \<lparr> ar_redirect_uri = ap_redirect_uri accepted, ar_code = code_plain, ar_state = ap_state accepted \<rparr>, s'))"

section \<open>What the checks decide\<close>

lemma enforce_scope_policy_Inr_iff [results]:
  "enforce_scope_policy we allowed requested name = Inr u \<longleftrightarrow>
    str_trim allowed = [] \<or> set (split_whitespace requested) \<subseteq> set (split_whitespace (str_trim allowed))"
  by (auto simp: enforce_scope_policy_def Let_def find_None_iff dest!: find_Some_in split: option.splits if_splits)

lemma authorize_client_Inr_iff [results]:
  "authorize_client we cid uri s = Inr c \<longleftrightarrow>
    get_client cid s = Inr c \<and> \<not> c_is_disabled c \<and> \<not> c_is_deleted c \<and> redirect_uri_matches we c uri"
  by (auto simp: authorize_client_def split: sum.splits if_splits)

definition same_but_port_and_userinfo :: "url \<Rightarrow> url \<Rightarrow> bool" where
  "same_but_port_and_userinfo u v =
    (u\<lparr> url_port := url_port v, url_username := url_username v, url_password := url_password v \<rparr> = v)"

definition loopback_uri :: "web_env \<Rightarrow> string \<Rightarrow> url \<Rightarrow> bool" where
  "loopback_uri we uri u = (url_parse we uri = Some u \<and> is_numeric_loopback_http u)"

lemma same_but_iff:
  "same_but_port_and_userinfo u v \<longleftrightarrow>
    url_scheme v = url_scheme u \<and> url_host v = url_host u \<and> url_path v = url_path u \<and> url_query v = url_query u
    \<and> url_fragment v = url_fragment u"
  unfolding same_but_port_and_userinfo_def by (cases u; cases v) auto

lemma loopback_scheme: "loopback_uri we uri u \<Longrightarrow> url_scheme u = ''http''"
  by (simp add: loopback_uri_def is_numeric_loopback_http_def)

lemma loopback_str: "is_numeric_loopback_http_str we uri \<longleftrightarrow> (\<exists>u. loopback_uri we uri u)"
  by (simp add: is_numeric_loopback_http_str_def loopback_uri_def split: option.splits)

section \<open>Properties\<close>

text \<open>C34: A redirect URI is accepted exactly when it is one of the client's registered strings or, for a
  public client all of whose registered URIs are numeric loopback \<open>http\<close> addresses, when it parses to
  such an address that differs from a registered one at most in port and user information.  A
  confidential client and a client with any other registered URI get byte equality and nothing else.\<close>

theorem redirect_uri_matches_iff:
  "redirect_uri_matches we c uri \<longleftrightarrow>
    uri \<in> set (c_redirect_uris c) \<or>
    (\<not> c_confidential c \<and>
     (\<exists>u. loopback_uri we uri u \<and> (\<forall>r \<in> set (c_redirect_uris c). \<exists>v. loopback_uri we r v) \<and>
       (\<exists>r \<in> set (c_redirect_uris c). \<exists>v. loopback_uri we r v \<and> same_but_port_and_userinfo u v)))"
proof -
  have exact: "is_redirect_uri_registered (c_redirect_uris c) uri \<longleftrightarrow> uri \<in> set (c_redirect_uris c)"
    by (auto simp: is_redirect_uri_registered_def list_ex_iff)
  have flexible: "(case url_parse we r of None \<Rightarrow> False | Some v \<Rightarrow> url_host v = url_host u \<and> url_path v = url_path u
      \<and> url_query v = url_query u \<and> url_fragment v = url_fragment u) \<longleftrightarrow>
      (\<exists>v. loopback_uri we r v \<and> same_but_port_and_userinfo u v)"
    if "loopback_uri we uri u" "is_numeric_loopback_http_str we r" for u r
    using that
    by (auto simp: loopback_str same_but_iff loopback_uri_def is_numeric_loopback_http_def)
  show ?thesis
  proof (cases "url_parse we uri")
    case None
    then show ?thesis
      by (simp add: redirect_uri_matches_def exact loopback_uri_def)
  next
    case (Some u)
    then show ?thesis
      using flexible [of u]
      by (auto simp: redirect_uri_matches_def exact list_all_iff list_ex_iff loopback_str)
        (auto simp: loopback_uri_def loopback_str)
  qed
qed

text \<open>A registered callback of a native application, and the same callback with another port and a user
  name.\<close>

definition demo_url :: "string \<Rightarrow> 16 word option \<Rightarrow> url" where
  "demo_url name port = \<lparr> url_scheme = ''http'', url_username = name, url_password = None,
     url_host = Some (HostIpv4 0x7F000001), url_port = port, url_path = ''/cb'', url_query = None, url_fragment = None \<rparr>"

definition demo_web :: web_env where
  "demo_web = \<lparr> url_parse = (\<lambda>s. if s = ''http://127.0.0.1/cb'' then Some (demo_url [] None)
       else if s = ''http://x@127.0.0.1:5000/cb'' then Some (demo_url ''x'' (Some 5000)) else None),
     debug_str = quoted \<rparr>"

definition demo_client :: "bool \<Rightarrow> string list \<Rightarrow> client_row" where
  "demo_client confidential uris = \<lparr> c_id = ''c1'', c_name = ''app'', c_confidential = confidential,
     c_secret_hash = (if confidential then Some ''s$pw'' else None), c_redirect_uris = uris,
     c_allowed_scopes = ''openid email'', c_post_logout_redirect_uris = [], c_is_disabled = False,
     c_is_deleted = False, c_consent_policy = ConsentNone, c_registered_via = RegAdmin, c_logo_uri = None,
     c_homepage_uri = None, c_privacy_policy_uri = None, c_tos_uri = None, c_token_endpoint_auth_method = None,
     c_grant_types = None, c_response_types = None, c_created_at = 0, c_updated_at = 0 \<rparr>"

lemma demo_loopback:
  "loopback_uri demo_web ''http://127.0.0.1/cb'' (demo_url [] None)"
  "loopback_uri demo_web ''http://x@127.0.0.1:5000/cb'' (demo_url ''x'' (Some 5000))"
  by (simp_all add: loopback_uri_def demo_web_def demo_url_def is_numeric_loopback_http_def)

theorem redirect_uri_matches_iff_witness:
  "redirect_uri_matches demo_web (demo_client False [''http://127.0.0.1/cb'']) ''http://x@127.0.0.1:5000/cb''"
proof -
  have "same_but_port_and_userinfo (demo_url ''x'' (Some 5000)) (demo_url [] None)"
    by (simp add: same_but_iff demo_url_def)
  moreover have "set (c_redirect_uris (demo_client False [''http://127.0.0.1/cb''])) = {''http://127.0.0.1/cb''}"
    "\<not> c_confidential (demo_client False [''http://127.0.0.1/cb''])"
    by (simp_all add: demo_client_def)
  moreover have "\<exists>u. loopback_uri demo_web ''http://x@127.0.0.1:5000/cb'' u \<and> (\<exists>v. loopback_uri demo_web ''http://127.0.0.1/cb'' v)
      \<and> (\<exists>v. loopback_uri demo_web ''http://127.0.0.1/cb'' v \<and> same_but_port_and_userinfo u v)"
    using demo_loopback calculation(1) by blast
  ultimately show ?thesis
    by (simp add: redirect_uri_matches_iff)
qed

text \<open>\<open>begin_authorization\<close> accepts a request exactly when it asks for a code, carries an S256
  challenge, names a client that exists, is neither disabled nor deleted and has registered the
  redirect URI, and asks for no scope beyond the client's policy (an empty policy allows any).  Every
  refusal of the two phases happens before anything is stored.\<close>

theorem begin_authorization_iff:
  "begin_authorization we params s = Inr accepted \<longleftrightarrow>
    accepted = params \<and> ap_response_type params = ''code'' \<and> ap_code_challenge params \<noteq> []
    \<and> ap_code_challenge_method params = ''S256''
    \<and> (\<exists>c. validate_client_and_redirect_uri we (ap_client_id params) (ap_redirect_uri params) s = Inr c
        \<and> get_client (ap_client_id params) s = Inr c \<and> \<not> c_is_disabled c \<and> \<not> c_is_deleted c
        \<and> redirect_uri_matches we c (ap_redirect_uri params)
        \<and> (str_trim (c_allowed_scopes c) = [] \<or>
           set (split_whitespace (ap_scope params)) \<subseteq> set (split_whitespace (str_trim (c_allowed_scopes c)))))"
proof -
  have "(\<exists>c. authorize_client we (ap_client_id params) (ap_redirect_uri params) s = Inr c
      \<and> enforce_scope_policy we (c_allowed_scopes c) (ap_scope params) (c_name c) = Inr ()
      \<and> accepted = params \<and> ap_response_type params = ''code'' \<and> ap_code_challenge params \<noteq> []
      \<and> ap_code_challenge_method params = ''S256'')
    \<longleftrightarrow> begin_authorization we params s = Inr accepted"
    by (auto simp: begin_authorization_def split: sum.splits if_splits)
  then show ?thesis
    by (auto simp: results validate_client_and_redirect_uri_def)
qed

end
