(* ===== verification/Passwords.thy ===== *)
theory Passwords
  imports Core_Errors Rust_Str
begin

text \<open>
  Password hashing (\<open>sui-id-core/src/authn/password.rs\<close>).  Argon2id and the PHC string format are the
  \<open>argon2\<close> crate: parsing a PHC string, hashing and comparing are fields of \<open>password_env\<close>.  Because a
  hash costs some 34 ms, how often a path hashes is observable; callers that must not reveal why they
  refuse return the list of PHC strings they verified against beside their result.
\<close>

record password_env =
  phc_parses :: "string \<Rightarrow> bool"
  argon2_verify :: "string \<Rightarrow> string \<Rightarrow> bool"
  argon2_hash :: "string \<Rightarrow> string \<Rightarrow> string option"

definition DUMMY_PHC :: string where
  "DUMMY_PHC = ''$argon2id$v=19$m=65536,t=2,p=1$c2FsdHNhbHRzYWx0$ZHVtbXloYXNoZHVtbXloYXNoZHVtbXloYXNoZHVtbQ''"

definition concurrency_bound :: "nat \<Rightarrow> nat" where
  "concurrency_bound cores = min (min (cores * 2) (2 ^ 64 - 1)) 16"

definition hash_password :: "password_env \<Rightarrow> string \<Rightarrow> string \<Rightarrow> core_error + string" where
  "hash_password pe salt password =
    (case argon2_hash pe salt password of None \<Rightarrow> Inl Password | Some phc \<Rightarrow> Inr phc)"

definition verify_password :: "password_env \<Rightarrow> string \<Rightarrow> string \<Rightarrow> core_error + unit" where
  "verify_password pe password stored_phc =
    (if \<not> phc_parses pe stored_phc then Inl Password
     else if argon2_verify pe password stored_phc then Inr ()
     else Inl InvalidCredentials)"

definition check_password_policy :: "string \<Rightarrow> nat \<Rightarrow> core_error + unit" where
  "check_password_policy password min_len =
    (if length (utf8_chars password) < min_len
       then Inl (BadRequest (''password must be at least '' @ dec min_len @ '' characters long''))
     else if length (utf8_chars password) > 256
       then Inl (BadRequest ''password is unreasonably long (max 256)'')
     else Inr ())"

lemma verify_password_Inr_iff [results]:
  "verify_password pe p phc = Inr u \<longleftrightarrow> phc_parses pe phc \<and> argon2_verify pe p phc"
  by (simp add: verify_password_def)

lemma check_password_policy_Inr_iff [results]:
  "check_password_policy p n = Inr u \<longleftrightarrow> n \<le> length (utf8_chars p) \<and> length (utf8_chars p) \<le> 256"
  by (auto simp: check_password_policy_def)

text \<open>What the program relies on: a hash parses and verifies exactly the password it was made from.\<close>

definition password_env_ok :: "password_env \<Rightarrow> bool" where
  "password_env_ok pe =
    (\<forall>salt p phc. argon2_hash pe salt p = Some phc \<longrightarrow>
      phc_parses pe phc \<and> (\<forall>q. argon2_verify pe q phc \<longleftrightarrow> q = p))"

lemma verify_hashed:
  assumes "password_env_ok pe" "hash_password pe salt p = Inr phc"
  shows "verify_password pe q phc = (if q = p then Inr () else Inl InvalidCredentials)"
  using assms by (simp add: password_env_ok_def hash_password_def verify_password_def split: option.splits)

text \<open>A concrete environment: the hash is the password behind the salt and a separator.\<close>

definition demo_password :: password_env where
  "demo_password = \<lparr> phc_parses = (\<lambda>phc. CHR ''$'' \<in> set phc),
     argon2_verify = (\<lambda>p phc. case split_once CHR ''$'' phc of None \<Rightarrow> False | Some (_, q) \<Rightarrow> p = q),
     argon2_hash = (\<lambda>salt p. if CHR ''$'' \<in> set salt then None else Some (salt @ CHR ''$'' # p)) \<rparr>"

lemma demo_password_ok: "password_env_ok demo_password"
  by (auto simp: password_env_ok_def demo_password_def split_once_append split: if_splits)

end
