(* ===== verification/Flows.thy ===== *)
theory Flows
  imports Store_Model
begin

text \<open>
  Flows that call the database more than once.  An \<open>async\<close> function of the core is a \<open>flow\<close>: it has
  finished, or it waits for its next database call, which is one transaction (or one read) and yields the rest of
  the flow.  Between two calls of one flow any other flow may make its own.  \<open>solo\<close> runs a flow without
  disturbance; a \<open>pool\<close> is a history of any number of overlapping flows, and the locale
  \<open>shared_invariant\<close> is what the flows of a pool need to promise so that an invariant of the store
  survives and their answers can be relied on.
\<close>

section \<open>Flows\<close>

datatype 'a flow = Finished 'a | Await "store \<Rightarrow> 'a flow \<times> store"

primrec and_then :: "'a flow \<Rightarrow> ('a \<Rightarrow> 'b flow) \<Rightarrow> 'b flow" where
  "and_then (Finished x) k = k x"
| "and_then (Await f) k = Await (\<lambda>s. map_prod (\<lambda>g. and_then g k) id (f s))"

text \<open>The \<open>?\<close> operator: an error ends the flow.\<close>

definition or_return :: "('e + 'a) flow \<Rightarrow> ('a \<Rightarrow> ('e + 'b) flow) \<Rightarrow> ('e + 'b) flow" where
  "or_return f k = and_then f (\<lambda>r. case r of Inl e \<Rightarrow> Finished (Inl e) | Inr x \<Rightarrow> k x)"

definition await_tx :: "(store \<Rightarrow> 'a \<times> store) \<Rightarrow> 'a flow" where
  "await_tx f = Await (\<lambda>s. apfst Finished (f s))"

definition await_read :: "(store \<Rightarrow> 'a) \<Rightarrow> 'a flow" where
  "await_read f = await_tx (\<lambda>s. (f s, s))"

section \<open>One flow alone\<close>

primrec solo :: "'a flow \<Rightarrow> store \<Rightarrow> 'a \<times> store" where
  "solo (Finished x) = (\<lambda>s. (x, s))"
| "solo (Await f) = (\<lambda>s. case map_prod solo id (f s) of (k, s') \<Rightarrow> k s')"

text \<open>The first calls of a flow, and what is left of it.\<close>

fun advance :: "nat \<Rightarrow> 'a flow \<Rightarrow> store \<Rightarrow> 'a flow \<times> store" where
  "advance (Suc n) (Await f) s = (case f s of (g, s') \<Rightarrow> advance n g s')"
| "advance _ f s = (f, s)"

lemma solo_Await: "solo (Await f) s = (case f s of (g, s') \<Rightarrow> solo g s')"
  by (simp add: map_prod_def split: prod.splits)

lemma and_then_assoc: "and_then (and_then f k) h = and_then f (\<lambda>x. and_then (k x) h)"
proof (induction f)
  case (Await f)
  have "and_then (and_then (fst (f s)) k) h = and_then (fst (f s)) (\<lambda>x. and_then (k x) h)" for s
    by (rule Await [OF rangeI [of f s]]) (simp add: fsts.simps)
  then show ?case
    by (simp add: map_prod_def split_beta)
qed simp

lemma solo_and_then [simp]: "solo (and_then f k) s = (case solo f s of (x, s') \<Rightarrow> solo (k x) s')"
proof (induction f arbitrary: s)
  case (Await f)
  obtain g s' where "f s = (g, s')"
    by fastforce
  then show ?case
    using Await [of "(g, s')" g s'] rangeI [of f s] by (simp add: solo_Await del: solo.simps(2))
qed simp

lemma solo_or_return [simp]:
  "solo (or_return f k) s = (case solo f s of (Inl e, s') \<Rightarrow> (Inl e, s') | (Inr x, s') \<Rightarrow> solo (k x) s')"
  by (auto simp: or_return_def split: prod.splits sum.splits)

lemma solo_await [simp]: "solo (await_tx f) s = f s" "solo (await_read g) s = (g s, s)"
  by (simp_all add: await_read_def await_tx_def apfst_def map_prod_def split: prod.splits)

lemma solo_advance: "advance n f s = (g, t) \<Longrightarrow> solo g t = solo f s"
  by (induction n f s rule: advance.induct) (auto simp: map_prod_def split: prod.splits)

lemma advance_finished [simp]: "advance n (Finished x) s = (Finished x, s)"
  by (cases n) auto

lemma advance_await [simp]:
  "advance (Suc n) (and_then (await_tx f) k) s = (case f s of (x, s') \<Rightarrow> advance n (k x) s')"
  "advance (Suc n) (and_then (await_read g) k) s = advance n (k (g s)) s"
  by (simp_all add: await_read_def await_tx_def apfst_def split: prod.splits)

section \<open>Overlapping flows\<close>

text \<open>Requests arrive at any time and each makes its calls whenever it likes; \<open>others\<close> is what the rest of the
  server may do in between.  A flow that has finished stays in the list with its answer.\<close>

inductive pool :: "(store \<Rightarrow> store \<Rightarrow> bool) \<Rightarrow> 'a flow set \<Rightarrow> store \<Rightarrow> 'a flow list \<Rightarrow> store \<Rightarrow> bool"
  for others arrivals s where
  pool_begin: "pool others arrivals s [] s"
| pool_arrive: "pool others arrivals s fs t \<Longrightarrow> f \<in> arrivals \<Longrightarrow> pool others arrivals s (fs @ [f]) t"
| pool_call: "pool others arrivals s fs t \<Longrightarrow> i < length fs \<Longrightarrow> fs ! i = Await f \<Longrightarrow> f t = (g, t') \<Longrightarrow>
    pool others arrivals s (fs[i := g]) t'"
| pool_other: "pool others arrivals s fs t \<Longrightarrow> others t t' \<Longrightarrow> pool others arrivals s fs t'"

text \<open>A request that meets no disturbance is a special case.\<close>

lemma pool_finish: "pool others arrivals s (fs @ [f]) t \<Longrightarrow> solo f t = (x, t') \<Longrightarrow> pool others arrivals s (fs @ [Finished x]) t'"
proof (induction f arbitrary: t)
  case (Await f)
  obtain g u where g: "f t = (g, u)"
    by fastforce
  have "pool others arrivals s ((fs @ [Await f])[length fs := g]) u"
    using pool_call [OF Await.prems(1), of "length fs" f g u] by (simp add: g)
  moreover have "solo g u = (x, t')"
    using Await.prems(2) by (simp add: g)
  ultimately show ?case
    using Await.IH [OF rangeI [of f t]] by (simp add: g)
qed simp

lemma pool_solo:
  "pool others arrivals s fs t \<Longrightarrow> f \<in> arrivals \<Longrightarrow> solo f t = (x, t') \<Longrightarrow> pool others arrivals s (fs @ [Finished x]) t'"
  by (rule pool_finish [OF pool_arrive])

text \<open>Every call of the flow keeps the invariant, whatever store that satisfies it the call meets, and the answer is
  as wanted.\<close>

inductive keeps_to :: "(store \<Rightarrow> bool) \<Rightarrow> ('a \<Rightarrow> bool) \<Rightarrow> 'a flow \<Rightarrow> bool" for good wanted where
  finished: "wanted x \<Longrightarrow> keeps_to good wanted (Finished x)"
| awaits: "(\<And>s. good s \<Longrightarrow> good (snd (f s)) \<and> keeps_to good wanted (fst (f s))) \<Longrightarrow> keeps_to good wanted (Await f)"

inductive_simps keeps_to_simps [simp]:
  "keeps_to good wanted (Finished x)" "keeps_to good wanted (Await f)"

lemma keeps_to_and_then:
  assumes "keeps_to good between f" "\<And>x. between x \<Longrightarrow> keeps_to good wanted (k x)"
  shows "keeps_to good wanted (and_then f k)"
  using assms by (induction rule: keeps_to.induct) auto

lemma keeps_to_or_return:
  assumes "keeps_to good (\<lambda>r. \<forall>x. r = Inr x \<longrightarrow> between x) f" "\<And>x. between x \<Longrightarrow> keeps_to good wanted (k x)"
    and "\<And>e. wanted (Inl e)"
  shows "keeps_to good wanted (or_return f k)"
  unfolding or_return_def by (rule keeps_to_and_then [OF assms(1)]) (auto simp: assms(2,3) split: sum.splits)

lemma keeps_to_tx: "(\<And>s x s'. good s \<Longrightarrow> f s = (x, s') \<Longrightarrow> good s' \<and> wanted x) \<Longrightarrow> keeps_to good wanted (await_tx f)"
  by (auto simp: await_tx_def apfst_def map_prod_def split: prod.splits)

lemma keeps_to_read: "(\<And>s. good s \<Longrightarrow> wanted (f s)) \<Longrightarrow> keeps_to good wanted (await_read f)"
  unfolding await_read_def by (rule keeps_to_tx) auto

section \<open>The contract of the flows of a pool\<close>

locale shared_invariant =
  fixes good :: "store \<Rightarrow> bool"
    and others :: "store \<Rightarrow> store \<Rightarrow> bool"
    and arrivals :: "'a flow set"
    and wanted :: "'a \<Rightarrow> bool"
  assumes others_keep: "good s \<Longrightarrow> others s s' \<Longrightarrow> good s'"
    and arrivals_keep: "f \<in> arrivals \<Longrightarrow> keeps_to good wanted f"
begin

lemma pool_keeps:
  assumes "pool others arrivals s fs t" "good s"
  shows "good t \<and> list_all (keeps_to good wanted) fs"
  using assms
proof (induction rule: pool.induct)
  case (pool_call fs t i f g t')
  then have "keeps_to good wanted (Await f)"
    by (metis list_all_length)
  then show ?case
    using pool_call by (auto simp: list_all_iff dest!: set_update_subset_insert [THEN subsetD] dest: spec [of _ t])
qed (auto simp: arrivals_keep dest: others_keep)

lemma pool_answers:
  assumes "pool others arrivals s fs t" "good s" "Finished x \<in> set fs"
  shows "wanted x"
  using pool_keeps [OF assms(1,2)] assms(3) by (auto simp: list_all_iff)

end

end
