(* ===== verification/Token_Endpoint.thy ===== *)
theory Token_Endpoint
  imports Authorize Passwords Flows
begin

text \<open>
  The token endpoint (\<open>sui-id-core/src/oidc/authorize.rs\<close>): client authentication with its uniform cost,
  the exchange of an authorization code through the four steps of its pipeline, and the exchange of a
  refresh token.  An exchange is a \<open>flow\<close> with one step per database call; \<open>exchange_code\<close>, \<open>exchange_refresh\<close> and
  their parts are these flows without disturbance, over one store.  Clock reads and random values of one exchange are the fields of \<open>exchange_draws\<close>; the
  libraries are bundled in \<open>oidc_env\<close>.
\<close>

section \<open>Requests and environment\<close>

datatype credential_channel = Basic | Body | Both

record code_exchange_request =
  cr_code :: string
  cr_redirect_uri :: string
  cr_client_id :: uuid
  cr_client_secret :: "string option"
  cr_client_secret_channel :: credential_channel
  cr_code_verifier :: string

record refresh_exchange_request =
  rr_refresh_token :: string
  rr_client_id :: uuid
  rr_client_secret :: "string option"
  rr_client_secret_channel :: credential_channel

record issuance_context =
  ic_issuer :: string
  ic_lifetimes :: token_lifetimes

record oidc_env =
  oe_digest :: digest_env
  oe_aead :: aead_env
  oe_jwt :: jwt_env
  oe_claims :: claims_json
  oe_web :: web_env
  oe_password :: password_env

record exchange_draws =
  xd_consume_at :: instant
  xd_denied_at :: instant
  xd_claims_at :: instant
  xd_row_at :: instant
  xd_audit_at :: instant
  xd_jti :: string
  xd_id_jti :: string
  xd_unused_raw :: string
  xd_token_id :: string
  xd_raw :: string
  xd_nonce :: string

section \<open>Client authentication\<close>

definition invalid_client :: "string \<Rightarrow> core_error" where
  "invalid_client description = Protocol InvalidClient description"

text \<open>A result with the PHC strings that were verified against on the way to it.\<close>

type_synonym 'a costed = "(core_error + 'a) \<times> string list"

definition dummy_reject :: "string option \<Rightarrow> string \<Rightarrow> 'a costed" where
  "dummy_reject provided description = (Inl (invalid_client description), [DUMMY_PHC])"

definition pre_auth_reject :: "string option \<Rightarrow> 'a costed" where
  "pre_auth_reject secret = dummy_reject secret ''client authentication failed''"

text \<open>The match on \<open>token_endpoint_auth_method\<close>: the description of the refusal, if there is one.\<close>

definition channel_refusal :: "token_endpoint_auth_method option \<Rightarrow> credential_channel \<Rightarrow> string option" where
  "channel_refusal auth_method channel =
    (case auth_method of
       None \<Rightarrow> None
     | Some (Unknown raw) \<Rightarrow>
         Some (''client's registered token_endpoint_auth_method ('' @ quoted raw @ '') is not recognised by this build'')
     | Some AuthNone \<Rightarrow>
         Some (''client's registered token_endpoint_auth_method is '' @ quoted ''none''
           @ '', which does not accept a client_secret on any channel'')
     | Some ClientSecretBasic \<Rightarrow>
         if channel \<noteq> Basic
         then Some (''client's registered token_endpoint_auth_method is client_secret_basic; the secret must be ''
           @ ''presented via the Authorization: Basic header'')
         else None
     | Some ClientSecretPost \<Rightarrow>
         if channel \<noteq> Body
         then Some (''client's registered token_endpoint_auth_method is client_secret_post; the secret must be ''
           @ ''presented in the request body, not the Authorization header'')
         else None)"

definition authenticate_client ::
  "password_env \<Rightarrow> client_row \<Rightarrow> string option \<Rightarrow> credential_channel \<Rightarrow> unit costed" where
  "authenticate_client pe client secret channel =
    (if \<not> c_confidential client
     then (if secret \<noteq> None
           then dummy_reject secret (''client is registered with token_endpoint_auth_method '' @ quoted ''none''
             @ '' and must not present a client_secret'')
           else (Inr (), []))
     else (case c_secret_hash client of
         None \<Rightarrow> dummy_reject secret ''client is confidential but has no stored secret''
       | Some stored \<Rightarrow>
           (case secret of
              None \<Rightarrow> dummy_reject None ''client_secret is required''
            | Some provided \<Rightarrow>
                (case channel_refusal (c_token_endpoint_auth_method client) channel of
                   Some description \<Rightarrow> dummy_reject (Some provided) description
                 | None \<Rightarrow>
                     (case verify_password pe provided stored of
                        Inl _ \<Rightarrow> (Inl (invalid_client ''client authentication failed''), [stored])
                      | Inr _ \<Rightarrow> (Inr (), [stored]))))))"

text \<open>The opening of both exchanges: look the client up, refuse it when it is unusable, authenticate it.\<close>

definition authenticate_request ::
  "password_env \<Rightarrow> uuid \<Rightarrow> string option \<Rightarrow> credential_channel \<Rightarrow> store \<Rightarrow> client_row costed" where
  "authenticate_request pe client_id secret channel s =
    (case get_client client_id s of
       Inl StoreNotFound \<Rightarrow> pre_auth_reject secret
     | Inl e \<Rightarrow> (Inl (Store e), [])
     | Inr client \<Rightarrow>
         if c_is_disabled client \<or> c_is_deleted client then pre_auth_reject secret
         else (case authenticate_client pe client secret channel of
             (Inl e, hs) \<Rightarrow> (Inl e, hs)
           | (Inr _, hs) \<Rightarrow> (Inr client, hs)))"

section \<open>Issuing\<close>

definition issue_jwt_pair ::
  "oidc_env \<Rightarrow> exchange_draws \<Rightarrow> issuance_context \<Rightarrow> uuid \<Rightarrow> uuid \<Rightarrow> string \<Rightarrow> string option
    \<Rightarrow> auth_method list \<Rightarrow> (string \<times> bool) option \<Rightarrow> store \<Rightarrow> core_error + string \<times> string option \<times> int" where
  "issue_jwt_pair oe dr ctx user_id client_id scope nonce methods user_email s =
    (case active_key s of
       Inl e \<Rightarrow> Inl (if e = StoreNotFound then Internal else Store e)
     | Inr key_row \<Rightarrow>
    (case unseal_private (oe_aead oe) key_row of
       Inl e \<Rightarrow> Inl (Store e)
     | Inr private_bytes \<Rightarrow>
       if length private_bytes \<noteq> 32 then Inl Internal
       else
    (case issue_token_set (oe_jwt oe) (oe_claims oe) (xd_claims_at dr) (xd_jti dr) (xd_id_jti dr) (xd_unused_raw dr)
        (ic_issuer ctx) user_id client_id scope nonce (scope_has scope ''openid'') (sk_id key_row) private_bytes
        (ic_lifetimes ctx) methods user_email of
       Inl e \<Rightarrow> Inl e
     | Inr t \<Rightarrow> Inr (ts_access_token t, ts_id_token t, ts_access_expires_in t))))"

definition new_refresh_row ::
  "exchange_draws \<Rightarrow> issuance_context \<Rightarrow> uuid \<Rightarrow> uuid \<Rightarrow> string \<Rightarrow> auth_method list \<Rightarrow> string \<Rightarrow> refresh_token_row" where
  "new_refresh_row dr ctx user_id client_id scope methods family =
    \<lparr> rt_id = xd_token_id dr, rt_token_enc = [], rt_token_hash = None, rt_user_id = user_id,
      rt_client_id = client_id, rt_scope = scope,
      rt_expires_at = xd_row_at dr + seconds (refresh_secs (ic_lifetimes ctx)), rt_revoked_at = None,
      rt_created_at = xd_row_at dr, rt_auth_methods = methods, rt_family_id = family \<rparr>"

definition issue_jwt_pair_flow ::
  "oidc_env \<Rightarrow> exchange_draws \<Rightarrow> issuance_context \<Rightarrow> uuid \<Rightarrow> uuid \<Rightarrow> string \<Rightarrow> string option
    \<Rightarrow> auth_method list \<Rightarrow> (string \<times> bool) option \<Rightarrow> (core_error + string \<times> string option \<times> int) flow" where
  "issue_jwt_pair_flow oe dr ctx user_id client_id scope nonce methods user_email =
    await_read (issue_jwt_pair oe dr ctx user_id client_id scope nonce methods user_email)"

definition issue_for_flow ::
  "oidc_env \<Rightarrow> exchange_draws \<Rightarrow> issuance_context \<Rightarrow> uuid \<Rightarrow> uuid \<Rightarrow> string \<Rightarrow> string option
    \<Rightarrow> auth_method list \<Rightarrow> (string \<times> bool) option \<Rightarrow> (core_error + token_set) flow" where
  "issue_for_flow oe dr ctx user_id client_id scope nonce methods user_email =
    or_return (issue_jwt_pair_flow oe dr ctx user_id client_id scope nonce methods user_email)
      (\<lambda>(access_token, id_token, access_expires_in).
    or_return (Finished (map_sum Store id (prepare_refresh_token (oe_digest oe) (oe_aead oe) (xd_raw dr) (xd_nonce dr)
        (new_refresh_row dr ctx user_id client_id scope methods (family_root_of (xd_token_id dr))))))
      (\<lambda>prepared.
    or_return (await_tx (\<lambda>s. apfst (map_sum Store id) (insert_initial_refresh_token prepared s))) (\<lambda>_.
    Finished (Inr \<lparr> ts_access_token = access_token, ts_id_token = id_token, ts_refresh_token = prep_raw prepared,
      ts_access_expires_in = access_expires_in, ts_user_id = Some user_id \<rparr>))))"

section \<open>The code grant\<close>

definition bind_code :: "code_exchange_request \<Rightarrow> authorization_code_row \<Rightarrow> core_error + authorization_code_row" where
  "bind_code req row =
    (if ac_client_id row \<noteq> cr_client_id req
       then Inl (Protocol InvalidGrant ''code was issued to a different client'')
     else if ac_redirect_uri row \<noteq> cr_redirect_uri req
       then Inl (Protocol InvalidGrant ''redirect_uri does not match the original'')
     else Inr row)"

definition verify_pkce_step ::
  "oidc_env \<Rightarrow> code_exchange_request \<Rightarrow> authorization_code_row \<Rightarrow> core_error + authorization_code_row" where
  "verify_pkce_step oe req row =
    (case verify_pkce (oe_digest oe) (oe_jwt oe) (ac_code_challenge_method row) (cr_code_verifier req)
        (ac_code_challenge row) of
       Inl e \<Rightarrow> Inl e
     | Inr _ \<Rightarrow> Inr row)"

record issuable_grant =
  ig_row :: authorization_code_row
  ig_user_id :: uuid
  ig_email :: "(string \<times> bool) option"

definition user_email_pair :: "user_row \<Rightarrow> (string \<times> bool) option" where
  "user_email_pair u = map_option (\<lambda>addr. (addr, u_email_verified_at u \<noteq> None)) (u_email u)"

definition user_revoked_row :: "instant \<Rightarrow> uuid \<Rightarrow> uuid \<Rightarrow> audit_log_row" where
  "user_revoked_row at user_id client_id =
    \<lparr> al_at = at, al_actor = Some user_id, al_action = ''oauth2.exchange_code.user_revoked'',
      al_target = Some client_id, al_result = ''denied'',
      al_note = Some ''user disabled or deleted during auth-code exchange window'' \<rparr>"

definition resolve_user_flow ::
  "oidc_env \<Rightarrow> exchange_draws \<Rightarrow> uuid \<Rightarrow> authorization_code_row \<Rightarrow> (core_error + issuable_grant) flow" where
  "resolve_user_flow oe dr client_id row =
    or_return (await_read (\<lambda>s. map_sum
        (\<lambda>e. if e = StoreNotFound then Protocol InvalidGrant ''user not found'' else Store e) id (get_user (ac_user_id row) s)))
      (\<lambda>user.
    if u_is_disabled user \<or> u_is_deleted user
    then and_then (await_tx (\<lambda>s. ((), s\<lparr>audit := append_within_tx (oe_digest oe)
        (user_revoked_row (xd_denied_at dr) (ac_user_id row) client_id) (audit s)\<rparr>))) (\<lambda>_.
      Finished (Inl (Protocol InvalidGrant ''user account is not active'')))
    else Finished (Inr \<lparr> ig_row = row, ig_user_id = u_id user, ig_email = user_email_pair user \<rparr>))"

text \<open>The steps after client authentication, from the consumption of the code on.\<close>

definition redeem_code_flow ::
  "oidc_env \<Rightarrow> exchange_draws \<Rightarrow> issuance_context \<Rightarrow> code_exchange_request \<Rightarrow> (core_error + token_set) flow" where
  "redeem_code_flow oe dr ctx req =
    or_return (await_tx (\<lambda>s. apfst (map_sum (\<lambda>e. if e = StoreNotFound
        then Protocol InvalidGrant ''code is unknown, expired, or already used'' else Store e) id)
        (consume (code_hash_of (oe_digest oe) (cr_code req)) (xd_consume_at dr) s))) (\<lambda>consumed.
    or_return (Finished (bind_code req consumed)) (\<lambda>bound.
    or_return (Finished (verify_pkce_step oe req bound)) (\<lambda>pkce_verified.
    or_return (resolve_user_flow oe dr (cr_client_id req) pkce_verified) (\<lambda>issuable.
    issue_for_flow oe dr ctx (ig_user_id issuable) (cr_client_id req) (ac_scope (ig_row issuable))
      (ac_nonce (ig_row issuable)) (ac_auth_methods (ig_row issuable)) (ig_email issuable)))))"

definition exchange_code_flow ::
  "oidc_env \<Rightarrow> exchange_draws \<Rightarrow> issuance_context \<Rightarrow> code_exchange_request \<Rightarrow> (core_error + token_set) flow" where
  "exchange_code_flow oe dr ctx req =
    or_return (await_read (\<lambda>s. fst (authenticate_request (oe_password oe) (cr_client_id req) (cr_client_secret req)
        (cr_client_secret_channel req) s))) (\<lambda>client.
    redeem_code_flow oe dr ctx req)"

section \<open>The refresh grant\<close>

definition invalid_grant :: core_error where
  "invalid_grant = Protocol InvalidGrant ''refresh token is unknown or revoked''"

definition debug_list :: "web_env \<Rightarrow> string list \<Rightarrow> string" where
  "debug_list we xs = ''['' @ join '', '' (map (debug_str we) xs) @ '']''"

definition refresh_grant_allowed :: "client_row \<Rightarrow> bool" where
  "refresh_grant_allowed client =
    (case c_grant_types client of None \<Rightarrow> True | Some grants \<Rightarrow> list_ex (\<lambda>g. g = ''refresh_token'') grants)"

definition grant_refused :: "web_env \<Rightarrow> client_row \<Rightarrow> core_error" where
  "grant_refused we client =
    Protocol UnauthorizedClient (''client '' @ debug_str we (c_name client)
      @ '' is not registered for the refresh_token grant (registered grant_types: ''
      @ debug_list we (case c_grant_types client of None \<Rightarrow> [] | Some grants \<Rightarrow> grants) @ '')'')"

definition email_for_token :: "string \<Rightarrow> uuid \<Rightarrow> store \<Rightarrow> (string \<times> bool) option" where
  "email_for_token scope user_id s =
    (if scope_has scope ''email''
     then (case get_user user_id s of
         Inl _ \<Rightarrow> None
       | Inr u \<Rightarrow> if \<not> u_is_disabled u \<and> \<not> u_is_deleted u then user_email_pair u else None)
     else None)"

text \<open>The preliminary lookup makes a second read when no row has the hash of the token.\<close>

definition find_any_flow :: "oidc_env \<Rightarrow> string \<Rightarrow> (store_error + refresh_token_row) flow" where
  "find_any_flow oe token =
    and_then (await_read (\<lambda>s. List.find (\<lambda>r. rt_token_hash r = Some (refresh_token_hash (oe_digest oe) token))
        (refresh_tokens s))) (\<lambda>fast.
    case fast of
      Some row \<Rightarrow> Finished (Inr row)
    | None \<Rightarrow> and_then (await_read (\<lambda>s. filter (\<lambda>r. rt_token_hash r = None) (refresh_tokens s))) (\<lambda>candidates.
        Finished (ok_or (decrypt_scan (oe_aead oe) token candidates) StoreNotFound)))"

definition email_flow :: "string \<Rightarrow> uuid \<Rightarrow> (string \<times> bool) option flow" where
  "email_flow scope user_id =
    (if scope_has scope ''email'' then await_read (email_for_token scope user_id) else Finished None)"

text \<open>The last steps: prepare the successor, rotate, answer.\<close>

definition rotate_and_answer_flow ::
  "oidc_env \<Rightarrow> exchange_draws \<Rightarrow> issuance_context \<Rightarrow> refresh_exchange_request \<Rightarrow> refresh_token_row
    \<Rightarrow> string \<times> string option \<times> int \<Rightarrow> (core_error + token_set) flow" where
  "rotate_and_answer_flow oe dr ctx req preliminary = (\<lambda>(access_token, id_token, access_expires_in).
    or_return (Finished (map_sum Store id (prepare_refresh_token (oe_digest oe) (oe_aead oe) (xd_raw dr) (xd_nonce dr)
        (new_refresh_row dr ctx (rt_user_id preliminary) (rt_client_id preliminary) (rt_scope preliminary)
          (rt_auth_methods preliminary) (rt_family_id preliminary))))) (\<lambda>prepared.
    or_return (await_tx (\<lambda>s. apfst (map_sum
        (\<lambda>e. if e = StoreConflict \<or> e = StoreNotFound then invalid_grant else Store e) id)
        (rotate_refresh_token (oe_digest oe) (xd_audit_at dr) (refresh_token_hash (oe_digest oe) (rr_refresh_token req))
          (rr_client_id req) (xd_row_at dr) prepared s))) (\<lambda>outcome.
    case outcome of
      TheftDetected _ \<Rightarrow> Finished (Inl invalid_grant)
    | Rotated _ raw_token \<Rightarrow>
        Finished (Inr \<lparr> ts_access_token = access_token, ts_id_token = id_token, ts_refresh_token = raw_token,
          ts_access_expires_in = access_expires_in, ts_user_id = Some (rt_user_id preliminary) \<rparr>))))"

definition exchange_refresh_flow ::
  "oidc_env \<Rightarrow> exchange_draws \<Rightarrow> issuance_context \<Rightarrow> refresh_exchange_request \<Rightarrow> (core_error + token_set) flow" where
  "exchange_refresh_flow oe dr ctx req =
    or_return (await_read (\<lambda>s. fst (authenticate_request (oe_password oe) (rr_client_id req) (rr_client_secret req)
        (rr_client_secret_channel req) s))) (\<lambda>client.
    and_then (find_any_flow oe (rr_refresh_token req)) (\<lambda>found.
    case found of
      Inl e \<Rightarrow> Finished (Inl (if e = StoreNotFound then invalid_grant else Store e))
    | Inr preliminary \<Rightarrow>
        if rt_client_id preliminary \<noteq> rr_client_id req then Finished (Inl invalid_grant)
        else if \<not> refresh_grant_allowed client then Finished (Inl (grant_refused (oe_web oe) client))
        else
    or_return (Finished (enforce_scope_policy (oe_web oe) (c_allowed_scopes client) (rt_scope preliminary) (c_name client)))
      (\<lambda>_.
    and_then (email_flow (rt_scope preliminary) (rt_user_id preliminary)) (\<lambda>email.
    or_return (issue_jwt_pair_flow oe dr ctx (rt_user_id preliminary) (rt_client_id preliminary) (rt_scope preliminary)
        None (rt_auth_methods preliminary) email) (\<lambda>jwts.
    rotate_and_answer_flow oe dr ctx req preliminary jwts)))))"

section \<open>The flows undisturbed\<close>

text \<open>Each flow when no other connection writes between its calls.\<close>

definition issue_for ::
  "oidc_env \<Rightarrow> exchange_draws \<Rightarrow> issuance_context \<Rightarrow> uuid \<Rightarrow> uuid \<Rightarrow> string \<Rightarrow> string option
    \<Rightarrow> auth_method list \<Rightarrow> (string \<times> bool) option \<Rightarrow> store \<Rightarrow> (core_error + token_set) \<times> store" where
  "issue_for oe dr ctx user_id client_id scope nonce methods user_email =
    solo (issue_for_flow oe dr ctx user_id client_id scope nonce methods user_email)"

definition resolve_user ::
  "oidc_env \<Rightarrow> exchange_draws \<Rightarrow> uuid \<Rightarrow> authorization_code_row \<Rightarrow> store \<Rightarrow> (core_error + issuable_grant) \<times> store" where
  "resolve_user oe dr client_id row = solo (resolve_user_flow oe dr client_id row)"

definition redeem_code ::
  "oidc_env \<Rightarrow> exchange_draws \<Rightarrow> issuance_context \<Rightarrow> code_exchange_request \<Rightarrow> store
    \<Rightarrow> (core_error + token_set) \<times> store" where
  "redeem_code oe dr ctx req = solo (redeem_code_flow oe dr ctx req)"

definition exchange_code ::
  "oidc_env \<Rightarrow> exchange_draws \<Rightarrow> issuance_context \<Rightarrow> code_exchange_request \<Rightarrow> store
    \<Rightarrow> (core_error + token_set) \<times> store" where
  "exchange_code oe dr ctx req = solo (exchange_code_flow oe dr ctx req)"

definition rotate_and_answer ::
  "oidc_env \<Rightarrow> exchange_draws \<Rightarrow> issuance_context \<Rightarrow> refresh_exchange_request \<Rightarrow> refresh_token_row
    \<Rightarrow> string \<times> string option \<times> int \<Rightarrow> store \<Rightarrow> (core_error + token_set) \<times> store" where
  "rotate_and_answer oe dr ctx req preliminary jwts = solo (rotate_and_answer_flow oe dr ctx req preliminary jwts)"

definition exchange_refresh ::
  "oidc_env \<Rightarrow> exchange_draws \<Rightarrow> issuance_context \<Rightarrow> refresh_exchange_request \<Rightarrow> store
    \<Rightarrow> (core_error + token_set) \<times> store" where
  "exchange_refresh oe dr ctx req = solo (exchange_refresh_flow oe dr ctx req)"

text \<open>Their equations over one store.\<close>

lemma issue_for_eq:
  "issue_for oe dr ctx user_id client_id scope nonce methods user_email s =
    (case issue_jwt_pair oe dr ctx user_id client_id scope nonce methods user_email s of
       Inl e \<Rightarrow> (Inl e, s)
     | Inr (access_token, id_token, access_expires_in) \<Rightarrow>
    (case prepare_refresh_token (oe_digest oe) (oe_aead oe) (xd_raw dr) (xd_nonce dr)
        (new_refresh_row dr ctx user_id client_id scope methods (family_root_of (xd_token_id dr))) of
       Inl e \<Rightarrow> (Inl (Store e), s)
     | Inr prepared \<Rightarrow>
    (case insert_initial_refresh_token prepared s of
       (Inl e, s') \<Rightarrow> (Inl (Store e), s')
     | (Inr _, s') \<Rightarrow>
         (Inr \<lparr> ts_access_token = access_token, ts_id_token = id_token, ts_refresh_token = prep_raw prepared,
                ts_access_expires_in = access_expires_in, ts_user_id = Some user_id \<rparr>, s'))))"
  by (simp add: issue_for_def issue_for_flow_def issue_jwt_pair_flow_def apfst_def map_prod_def split: prod.splits sum.splits option.splits t04_outcome.splits)

lemma resolve_user_eq:
  "resolve_user oe dr client_id row s =
    (case get_user (ac_user_id row) s of
       Inl e \<Rightarrow> (Inl (if e = StoreNotFound then Protocol InvalidGrant ''user not found'' else Store e), s)
     | Inr user \<Rightarrow>
         if u_is_disabled user \<or> u_is_deleted user
         then (Inl (Protocol InvalidGrant ''user account is not active''),
               s\<lparr>audit := append_within_tx (oe_digest oe) (user_revoked_row (xd_denied_at dr) (ac_user_id row) client_id)
                 (audit s)\<rparr>)
         else (Inr \<lparr> ig_row = row, ig_user_id = u_id user, ig_email = user_email_pair user \<rparr>, s))"
  by (simp add: resolve_user_def resolve_user_flow_def apfst_def map_prod_def split: prod.splits sum.splits option.splits t04_outcome.splits)

lemma redeem_code_eq:
  "redeem_code oe dr ctx req s =
    (case consume (code_hash_of (oe_digest oe) (cr_code req)) (xd_consume_at dr) s of
       (Inl e, s1) \<Rightarrow>
         (Inl (if e = StoreNotFound then Protocol InvalidGrant ''code is unknown, expired, or already used'' else Store e), s1)
     | (Inr consumed, s1) \<Rightarrow>
    (case bind_code req consumed of
       Inl e \<Rightarrow> (Inl e, s1)
     | Inr bound \<Rightarrow>
    (case verify_pkce_step oe req bound of
       Inl e \<Rightarrow> (Inl e, s1)
     | Inr pkce_verified \<Rightarrow>
    (case resolve_user oe dr (cr_client_id req) pkce_verified s1 of
       (Inl e, s2) \<Rightarrow> (Inl e, s2)
     | (Inr issuable, s2) \<Rightarrow>
         issue_for oe dr ctx (ig_user_id issuable) (cr_client_id req) (ac_scope (ig_row issuable))
           (ac_nonce (ig_row issuable)) (ac_auth_methods (ig_row issuable)) (ig_email issuable) s2))))"
  by (simp add: redeem_code_def redeem_code_flow_def resolve_user_def issue_for_def apfst_def map_prod_def split: prod.splits sum.splits option.splits t04_outcome.splits)

lemma exchange_code_eq:
  "exchange_code oe dr ctx req s =
    (case fst (authenticate_request (oe_password oe) (cr_client_id req) (cr_client_secret req)
        (cr_client_secret_channel req) s) of
       Inl e \<Rightarrow> (Inl e, s)
     | Inr client \<Rightarrow> redeem_code oe dr ctx req s)"
  by (simp add: exchange_code_def exchange_code_flow_def redeem_code_def apfst_def map_prod_def split: prod.splits sum.splits option.splits t04_outcome.splits)

lemma rotate_and_answer_eq:
  "rotate_and_answer oe dr ctx req preliminary (access_token, id_token, access_expires_in) s =
    (case prepare_refresh_token (oe_digest oe) (oe_aead oe) (xd_raw dr) (xd_nonce dr)
        (new_refresh_row dr ctx (rt_user_id preliminary) (rt_client_id preliminary) (rt_scope preliminary)
          (rt_auth_methods preliminary) (rt_family_id preliminary)) of
      Inl e \<Rightarrow> (Inl (Store e), s)
    | Inr prepared \<Rightarrow>
        (case rotate_refresh_token (oe_digest oe) (xd_audit_at dr)
            (refresh_token_hash (oe_digest oe) (rr_refresh_token req)) (rr_client_id req) (xd_row_at dr) prepared s of
           (Inl e, s') \<Rightarrow> (Inl (if e = StoreConflict \<or> e = StoreNotFound then invalid_grant else Store e), s')
         | (Inr (TheftDetected _), s') \<Rightarrow> (Inl invalid_grant, s')
         | (Inr (Rotated _ raw_token), s') \<Rightarrow>
             (Inr \<lparr> ts_access_token = access_token, ts_id_token = id_token, ts_refresh_token = raw_token,
                    ts_access_expires_in = access_expires_in, ts_user_id = Some (rt_user_id preliminary) \<rparr>, s')))"
  by (simp add: rotate_and_answer_def rotate_and_answer_flow_def apfst_def map_prod_def split: prod.splits sum.splits option.splits t04_outcome.splits)

lemma solo_find_any_flow [simp]: "solo (find_any_flow oe token) s = (find_any (oe_digest oe) (oe_aead oe) token s, s)"
  by (simp add: find_any_flow_def find_any_def split: option.splits)

lemma solo_email_flow [simp]: "solo (email_flow scope uid) s = (email_for_token scope uid s, s)"
  by (simp add: email_flow_def email_for_token_def)

lemma exchange_refresh_eq:
  "exchange_refresh oe dr ctx req s =
    (case fst (authenticate_request (oe_password oe) (rr_client_id req) (rr_client_secret req)
        (rr_client_secret_channel req) s) of
       Inl e \<Rightarrow> (Inl e, s)
     | Inr client \<Rightarrow>
    (case find_any (oe_digest oe) (oe_aead oe) (rr_refresh_token req) s of
       Inl e \<Rightarrow> (Inl (if e = StoreNotFound then invalid_grant else Store e), s)
     | Inr preliminary \<Rightarrow>
       if rt_client_id preliminary \<noteq> rr_client_id req then (Inl invalid_grant, s)
       else if \<not> refresh_grant_allowed client then (Inl (grant_refused (oe_web oe) client), s)
       else
    (case enforce_scope_policy (oe_web oe) (c_allowed_scopes client) (rt_scope preliminary) (c_name client) of
       Inl e \<Rightarrow> (Inl e, s)
     | Inr _ \<Rightarrow>
    (case issue_jwt_pair oe dr ctx (rt_user_id preliminary) (rt_client_id preliminary) (rt_scope preliminary) None
        (rt_auth_methods preliminary) (email_for_token (rt_scope preliminary) (rt_user_id preliminary) s) s of
       Inl e \<Rightarrow> (Inl e, s)
     | Inr jwts \<Rightarrow> rotate_and_answer oe dr ctx req preliminary jwts s))))"
  by (simp add: exchange_refresh_def exchange_refresh_flow_def rotate_and_answer_def issue_jwt_pair_flow_def apfst_def map_prod_def split: prod.splits sum.splits option.splits t04_outcome.splits)

section \<open>Client authentication: results and cost\<close>

definition secret_accepted :: "password_env \<Rightarrow> client_row \<Rightarrow> string option \<Rightarrow> credential_channel \<Rightarrow> bool" where
  "secret_accepted pe client secret channel =
    (if c_confidential client
     then \<exists>stored provided. c_secret_hash client = Some stored \<and> secret = Some provided
       \<and> channel_refusal (c_token_endpoint_auth_method client) channel = None
       \<and> verify_password pe provided stored = Inr ()
     else secret = None)"

lemma authenticate_client_Inr_iff [results]:
  "fst (authenticate_client pe client secret channel) = Inr u \<longleftrightarrow> secret_accepted pe client secret channel"
  by (auto simp: authenticate_client_def secret_accepted_def dummy_reject_def split: option.splits sum.splits)

lemma authenticate_client_cost:
  "authenticate_client pe client secret channel = (Inl e, hs) \<Longrightarrow>
    length hs = 1 \<and> set hs \<subseteq> {DUMMY_PHC} \<union> set_option (c_secret_hash client) \<and> (\<exists>d. e = invalid_client d)"
  by (auto simp: authenticate_client_def dummy_reject_def split: option.splits sum.splits if_splits)

lemma get_client_error: "get_client cid s = Inl e \<Longrightarrow> e = StoreNotFound"
  by (cases "List.find (by_client_id cid) (clients s)") (auto simp: get_client_def)

lemma authenticate_request_Inr_iff [results]:
  "fst (authenticate_request pe cid secret channel s) = Inr c \<longleftrightarrow>
    get_client cid s = Inr c \<and> \<not> c_is_disabled c \<and> \<not> c_is_deleted c \<and> secret_accepted pe c secret channel"
  using authenticate_client_Inr_iff [of pe c secret channel "()"]
  by (auto simp: authenticate_request_def pre_auth_reject_def dummy_reject_def
      split: sum.splits prod.splits if_splits store_error.splits)

lemma authenticate_request_cost:
  "authenticate_request pe cid secret channel s = (Inl e, hs) \<Longrightarrow> length hs = 1 \<and> (\<exists>d. e = Protocol InvalidClient d)"
  by (auto simp: authenticate_request_def pre_auth_reject_def dummy_reject_def invalid_client_def
      dest!: get_client_error authenticate_client_cost
      split: sum.splits prod.splits if_splits store_error.splits)

lemma unusable_client_rejected:
  assumes "\<And>c. get_client cid s = Inr c \<Longrightarrow> c_is_disabled c \<or> c_is_deleted c"
  shows "authenticate_request pe cid secret channel s
    = (Inl (Protocol InvalidClient ''client authentication failed''), [DUMMY_PHC])"
  using assms
  by (cases "get_client cid s")
    (auto simp: authenticate_request_def pre_auth_reject_def dummy_reject_def invalid_client_def dest: get_client_error)

section \<open>Properties: client authentication\<close>

text \<open>C35: Whatever the reason a client is refused at the token endpoint, the refusal costs exactly one
  password verification and is an \<open>invalid_client\<close>; an unknown, a disabled and a deleted client get the
  very answer of a client that exists and presented a wrong secret.\<close>

theorem client_rejections_look_alike:
  assumes "authenticate_request pe cid secret channel s = (Inl e, hs)"
  shows "length hs = 1 \<and> (\<exists>d. e = Protocol InvalidClient d) \<and>
    ((\<forall>c. get_client cid s = Inr c \<longrightarrow> c_is_disabled c \<or> c_is_deleted c) \<longrightarrow>
      e = Protocol InvalidClient ''client authentication failed'') \<and>
    (\<forall>c stored provided. get_client cid s = Inr c \<and> \<not> c_is_disabled c \<and> \<not> c_is_deleted c
        \<and> c_confidential c \<and> c_secret_hash c = Some stored \<and> secret = Some provided
        \<and> channel_refusal (c_token_endpoint_auth_method c) channel = None \<longrightarrow>
      e = Protocol InvalidClient ''client authentication failed'')"
proof (intro conjI)
  show "length hs = 1" "\<exists>d. e = Protocol InvalidClient d"
    using authenticate_request_cost [OF assms] by blast+
  show "(\<forall>c. get_client cid s = Inr c \<longrightarrow> c_is_disabled c \<or> c_is_deleted c) \<longrightarrow>
      e = Protocol InvalidClient ''client authentication failed''"
    using unusable_client_rejected [of cid s pe secret channel] assms by auto
  show "\<forall>c stored provided. get_client cid s = Inr c \<and> \<not> c_is_disabled c \<and> \<not> c_is_deleted c
        \<and> c_confidential c \<and> c_secret_hash c = Some stored \<and> secret = Some provided
        \<and> channel_refusal (c_token_endpoint_auth_method c) channel = None \<longrightarrow>
      e = Protocol InvalidClient ''client authentication failed''"
    using assms
    by (auto simp: authenticate_request_def authenticate_client_def invalid_client_def split: sum.splits)
qed

definition demo_clients :: store where
  "demo_clients = empty_store\<lparr> clients := [demo_client True [''https://rp/cb'']] \<rparr>"

lemma demo_client_found: "get_client ''c1'' demo_clients = Inr (demo_client True [''https://rp/cb''])"
  by (simp add: get_client_def demo_clients_def by_client_id_def demo_client_def)

theorem client_rejections_look_alike_witness:
  "\<exists>hs hs'. authenticate_request demo_password ''c1'' (Some ''guess'') Basic demo_clients
      = (Inl (Protocol InvalidClient ''client authentication failed''), hs)
    \<and> authenticate_request demo_password ''c2'' (Some ''guess'') Basic demo_clients
      = (Inl (Protocol InvalidClient ''client authentication failed''), hs')
    \<and> length hs = 1 \<and> length hs' = 1"
proof -
  have wrong: "authenticate_request demo_password ''c1'' (Some ''guess'') Basic demo_clients
      = (Inl (Protocol InvalidClient ''client authentication failed''), [''s$pw''])"
    by (simp add: authenticate_request_def demo_client_found)
      (simp add: demo_client_def authenticate_client_def channel_refusal_def verify_password_def demo_password_def
        invalid_client_def)
  have unknown: "authenticate_request demo_password ''c2'' (Some ''guess'') Basic demo_clients
      = (Inl (Protocol InvalidClient ''client authentication failed''), [DUMMY_PHC])"
    by (intro unusable_client_rejected) (simp add: get_client_def demo_clients_def by_client_id_def demo_client_def)
  show ?thesis
    using wrong unknown conjunct1 [OF client_rejections_look_alike [OF wrong]]
      conjunct1 [OF client_rejections_look_alike [OF unknown]]
    by (intro exI conjI)
qed

end
