(* ===== verification/Token_Grants.thy ===== *)
theory Token_Grants
  imports Token_Endpoint
begin

text \<open>
  What the two grants of the token endpoint guarantee: tokens come out of a code only when every check
  of the pipeline passed, a code is burnt by the first attempt that reaches it, and a refresh token is
  rotated within its family; the JWTs verify against the published keys.  The exchanges here run undisturbed;
  overlapping ones are the subject of \<open>Token_Traffic\<close>.
\<close>

section \<open>Consuming and issuing\<close>

definition after_consume :: "string \<Rightarrow> instant \<Rightarrow> store \<Rightarrow> store" where
  "after_consume h now s =
    s\<lparr>auth_codes := update_where (code_live h now) (\<lambda>r. r\<lparr>ac_consumed := True\<rparr>) (auth_codes s)\<rparr>"

lemma after_consume_simps [simp]:
  "users (after_consume h now s) = users s" "refresh_tokens (after_consume h now s) = refresh_tokens s"
  "signing_keys (after_consume h now s) = signing_keys s" "clients (after_consume h now s) = clients s"
  "audit (after_consume h now s) = audit s"
  by (simp_all add: after_consume_def)

lemma consume_cases:
  assumes "codes_keyed s"
  obtains (live) row where "row \<in> set (auth_codes s)" "code_live h now row"
      "consume h now s = (Inr (row\<lparr>ac_consumed := True\<rparr>), after_consume h now s)"
  | (dead) "\<And>row. row \<in> set (auth_codes s) \<Longrightarrow> \<not> code_live h now row"
      "consume h now s = (Inl StoreNotFound, s)"
  using consume_live [OF assms] consume_dead [of s h now] unfolding after_consume_def by blast

lemma issue_jwt_pair_Inr:
  assumes "issue_jwt_pair oe dr ctx uid cid scope nonce methods email s = Inr (access, idt, expires)"
  obtains k sk t where "active_key s = Inr k" "unseal_private (oe_aead oe) k = Inr sk" "length sk = 32"
    "issue_token_set (oe_jwt oe) (oe_claims oe) (xd_claims_at dr) (xd_jti dr) (xd_id_jti dr) (xd_unused_raw dr)
        (ic_issuer ctx) uid cid scope nonce (scope_has scope ''openid'') (sk_id k) sk (ic_lifetimes ctx) methods email
      = Inr t"
    "access = ts_access_token t" "idt = ts_id_token t" "expires = ts_access_expires_in t"
  using assms by (auto simp: issue_jwt_pair_def split: sum.splits if_splits)

definition issued_refresh_row :: "oidc_env \<Rightarrow> exchange_draws \<Rightarrow> refresh_token_row \<Rightarrow> refresh_token_row \<Rightarrow> bool" where
  "issued_refresh_row oe dr base r =
    (\<exists>enc. r = base\<lparr> rt_token_enc := enc, rt_token_hash := Some (refresh_token_hash (oe_digest oe) (xd_raw dr)) \<rparr>
      \<and> seal (oe_aead oe) (master_key (oe_aead oe)) (xd_nonce dr) (xd_raw dr) RT_AAD = Inr enc)"

lemma prepare_refresh_token_Inr:
  "prepare_refresh_token (oe_digest oe) (oe_aead oe) (xd_raw dr) (xd_nonce dr) base = Inr p \<longleftrightarrow>
    issued_refresh_row oe dr base (prep_row p) \<and> prep_raw p = xd_raw dr"
proof -
  have "p = \<lparr> prep_row = prep_row p, prep_raw = prep_raw p \<rparr>" for p :: prepared_refresh_token
    by simp
  then show ?thesis
    by (auto simp: prepare_refresh_token_def issued_refresh_row_def split: sum.splits)
qed

lemma issue_for_Inr:
  assumes "issue_for oe dr ctx uid cid scope nonce methods email s = (Inr ts, s')"
  obtains r where "issued_refresh_row oe dr (new_refresh_row dr ctx uid cid scope methods (xd_token_id dr)) r"
    "s' = s\<lparr>refresh_tokens := refresh_tokens s @ [r]\<rparr>"
    "ts_refresh_token ts = xd_raw dr" "ts_user_id ts = Some uid"
    "issue_jwt_pair oe dr ctx uid cid scope nonce methods email s
      = Inr (ts_access_token ts, ts_id_token ts, ts_access_expires_in ts)"
proof -
  obtain a i e p u where pair: "issue_jwt_pair oe dr ctx uid cid scope nonce methods email s = Inr (a, i, e)"
    and prep: "prepare_refresh_token (oe_digest oe) (oe_aead oe) (xd_raw dr) (xd_nonce dr)
      (new_refresh_row dr ctx uid cid scope methods (family_root_of (xd_token_id dr))) = Inr p"
    and ins: "insert_initial_refresh_token p s = (Inr u, s')"
    and ts: "ts = \<lparr> ts_access_token = a, ts_id_token = i, ts_refresh_token = prep_raw p,
      ts_access_expires_in = e, ts_user_id = Some uid \<rparr>"
    using assms by (auto simp: issue_for_eq split: sum.splits prod.splits)
  have row: "issued_refresh_row oe dr (new_refresh_row dr ctx uid cid scope methods (xd_token_id dr)) (prep_row p)"
    and raw: "prep_raw p = xd_raw dr"
    using prep by (simp_all add: prepare_refresh_token_Inr family_root_of_def)
  have "s' = s\<lparr>refresh_tokens := refresh_tokens s @ [prep_row p]\<rparr>"
    using ins by (auto simp: insert_initial_refresh_token_def protocol_tx_def results insert_prepared_within_tx_def
        Let_def split: if_splits)
  then show ?thesis
    by (rule that [OF row]) (simp_all add: ts raw pair)
qed

lemma issue_for_Inl: "issue_for oe dr ctx uid cid scope nonce methods email s = (Inl e, s') \<Longrightarrow> s' = s"
  by (auto simp: issue_for_eq insert_initial_refresh_token_def protocol_tx_def results split: sum.splits prod.splits)

section \<open>The code pipeline\<close>

text \<open>The request redeems a code: it is live, bound to this client and redirect URI, and the verifier
  hashes to the challenge.\<close>

definition redeems :: "oidc_env \<Rightarrow> instant \<Rightarrow> code_exchange_request \<Rightarrow> authorization_code_row \<Rightarrow> bool" where
  "redeems oe now req row =
    (code_live (code_hash_of (oe_digest oe) (cr_code req)) now row
     \<and> ac_client_id row = cr_client_id req \<and> ac_redirect_uri row = cr_redirect_uri req
     \<and> verify_pkce (oe_digest oe) (oe_jwt oe) (ac_code_challenge_method row) (cr_code_verifier req)
         (ac_code_challenge row) = Inr ())"

lemma get_user_after_consume [simp]: "get_user uid (after_consume h now s) = get_user uid s"
  by (simp add: get_user_def)

lemma resolve_user_Inr:
  assumes "resolve_user oe dr cid row s = (Inr g, s')"
  obtains u where "get_user (ac_user_id row) s = Inr u" "user_active u" "u_id u = ac_user_id row" "s' = s"
    "g = \<lparr> ig_row = row, ig_user_id = u_id u, ig_email = user_email_pair u \<rparr>"
proof -
  obtain u where u: "get_user (ac_user_id row) s = Inr u" "user_active u" "s' = s"
    "g = \<lparr> ig_row = row, ig_user_id = u_id u, ig_email = user_email_pair u \<rparr>"
    using assms by (auto simp: resolve_user_eq user_active_def split: sum.splits if_splits)
  moreover have "u_id u = ac_user_id row"
    using u(1) by (auto simp: get_user_def results by_user_id_def dest!: find_Some_in)
  ultimately show ?thesis
    using that by blast
qed

lemma redeem_code_Inr:
  assumes "codes_keyed s" "redeem_code oe dr ctx req s = (Inr ts, s')"
  obtains row u r where "row \<in> set (auth_codes s)" "redeems oe (xd_consume_at dr) req row"
    "get_user (ac_user_id row) s = Inr u" "user_active u" "u_id u = ac_user_id row"
    "issue_for oe dr ctx (u_id u) (cr_client_id req) (ac_scope row) (ac_nonce row) (ac_auth_methods row)
      (user_email_pair u) (after_consume (code_hash_of (oe_digest oe) (cr_code req)) (xd_consume_at dr) s) = (Inr ts, s')"
proof (rule consume_cases [OF assms(1), of "code_hash_of (oe_digest oe) (cr_code req)" "xd_consume_at dr"])
  fix row
  let ?t = "after_consume (code_hash_of (oe_digest oe) (cr_code req)) (xd_consume_at dr) s"
  assume row: "row \<in> set (auth_codes s)" "code_live (code_hash_of (oe_digest oe) (cr_code req)) (xd_consume_at dr) row"
    and c: "consume (code_hash_of (oe_digest oe) (cr_code req)) (xd_consume_at dr) s
      = (Inr (row\<lparr>ac_consumed := True\<rparr>), ?t)"
  have bound: "ac_client_id row = cr_client_id req" "ac_redirect_uri row = cr_redirect_uri req"
    and pkce: "verify_pkce (oe_digest oe) (oe_jwt oe) (ac_code_challenge_method row) (cr_code_verifier req)
         (ac_code_challenge row) = Inr ()"
    and rest: "(case resolve_user oe dr (cr_client_id req) (row\<lparr>ac_consumed := True\<rparr>) ?t of
       (Inl e, s2) \<Rightarrow> (Inl e, s2)
     | (Inr issuable, s2) \<Rightarrow>
         issue_for oe dr ctx (ig_user_id issuable) (cr_client_id req) (ac_scope (ig_row issuable))
           (ac_nonce (ig_row issuable)) (ac_auth_methods (ig_row issuable)) (ig_email issuable) s2) = (Inr ts, s')"
    using assms(2) by (auto simp: redeem_code_eq c bind_code_def verify_pkce_step_def split: if_splits sum.splits)
  obtain g s2 where g: "resolve_user oe dr (cr_client_id req) (row\<lparr>ac_consumed := True\<rparr>) ?t = (Inr g, s2)"
    and issue: "issue_for oe dr ctx (ig_user_id g) (cr_client_id req) (ac_scope (ig_row g))
           (ac_nonce (ig_row g)) (ac_auth_methods (ig_row g)) (ig_email g) s2 = (Inr ts, s')"
    using rest by (auto split: sum.splits prod.splits)
  show ?thesis
    using g
  proof (rule resolve_user_Inr)
    fix u
    assume u: "get_user (ac_user_id (row\<lparr>ac_consumed := True\<rparr>)) ?t = Inr u" "user_active u"
      "u_id u = ac_user_id (row\<lparr>ac_consumed := True\<rparr>)" "s2 = ?t"
      "g = \<lparr> ig_row = row\<lparr>ac_consumed := True\<rparr>, ig_user_id = u_id u, ig_email = user_email_pair u \<rparr>"
    have "redeems oe (xd_consume_at dr) req row"
      by (simp add: redeems_def row(2) bound pkce)
    then show ?thesis
      using that [OF row(1), of u] u issue by simp
  qed
next
  assume "consume (code_hash_of (oe_digest oe) (cr_code req)) (xd_consume_at dr) s = (Inl StoreNotFound, s)"
  then show ?thesis
    using assms(2) by (simp add: redeem_code_eq)
qed

text \<open>Whatever happens after the consumption, the table of codes is the one the consumption left.\<close>

lemma issue_for_codes:
  assumes "issue_for oe dr ctx uid cid scope nonce methods email s = (r, s')"
  shows "auth_codes s' = auth_codes s"
proof (cases r)
  case (Inl e)
  then show ?thesis
    using issue_for_Inl assms by metis
next
  case (Inr ts)
  then show ?thesis
    using assms issue_for_Inr [of oe dr ctx uid cid scope nonce methods email s ts s'] by force
qed

lemma resolve_user_codes: "resolve_user oe dr cid row s = (r, s') \<Longrightarrow> auth_codes s' = auth_codes s"
  by (auto simp: resolve_user_eq split: sum.splits if_splits)

lemma redeem_code_codes:
  assumes "codes_keyed s" "redeem_code oe dr ctx req s = (r, s')"
  shows "auth_codes s' = auth_codes (after_consume (code_hash_of (oe_digest oe) (cr_code req)) (xd_consume_at dr) s)"
proof (rule consume_cases [OF assms(1), of "code_hash_of (oe_digest oe) (cr_code req)" "xd_consume_at dr"])
  fix row
  assume "consume (code_hash_of (oe_digest oe) (cr_code req)) (xd_consume_at dr) s = (Inr (row\<lparr>ac_consumed := True\<rparr>),
    after_consume (code_hash_of (oe_digest oe) (cr_code req)) (xd_consume_at dr) s)"
  then show ?thesis
    using assms(2) by (auto simp: redeem_code_eq split: sum.splits prod.splits dest!: issue_for_codes resolve_user_codes)
next
  assume "\<And>row. row \<in> set (auth_codes s) \<Longrightarrow> \<not> code_live (code_hash_of (oe_digest oe) (cr_code req)) (xd_consume_at dr) row"
    and "consume (code_hash_of (oe_digest oe) (cr_code req)) (xd_consume_at dr) s = (Inl StoreNotFound, s)"
  then show ?thesis
    using assms(2) by (auto simp: redeem_code_eq after_consume_def affected_0_iff update_where_none)
qed

lemma after_consume_dead:
  assumes "row \<in> set (auth_codes (after_consume h now s))" "now \<le> now'"
  shows "\<not> code_live h now' row"
proof -
  have "(\<exists>q. row = q\<lparr>ac_consumed := True\<rparr>) \<or> \<not> code_live h now row"
    using assms(1) unfolding after_consume_def update_where_def by (simp add: image_iff) blast
  moreover have "code_live h now row" if "code_live h now' row"
    using that assms(2) by (simp add: code_live_def)
  ultimately show ?thesis
    by (auto simp: code_live_def)
qed

lemma consume_after_consume:
  assumes "auth_codes s' = auth_codes (after_consume h now s)" "now \<le> now'"
  shows "consume h now' s' = (Inl StoreNotFound, s')"
  by (rule consume_dead) (simp add: assms after_consume_dead [OF _ assms(2)])

text \<open>The converse: a request that redeems a code of an active user goes all the way to the issuing.\<close>

lemma redeem_code_issues:
  assumes "codes_keyed s" "row \<in> set (auth_codes s)" "redeems oe (xd_consume_at dr) req row"
    and "get_user (ac_user_id row) s = Inr u" "user_active u"
  shows "redeem_code oe dr ctx req s = issue_for oe dr ctx (u_id u) (cr_client_id req) (ac_scope row) (ac_nonce row)
    (ac_auth_methods row) (user_email_pair u)
    (after_consume (code_hash_of (oe_digest oe) (cr_code req)) (xd_consume_at dr) s)"
proof -
  have "consume (code_hash_of (oe_digest oe) (cr_code req)) (xd_consume_at dr) s = (Inr (row\<lparr>ac_consumed := True\<rparr>),
      after_consume (code_hash_of (oe_digest oe) (cr_code req)) (xd_consume_at dr) s)"
    using assms(3) unfolding after_consume_def by (intro consume_live [OF assms(1,2)]) (simp add: redeems_def)
  then show ?thesis
    using assms(3-5)
    by (simp add: redeem_code_eq redeems_def bind_code_def verify_pkce_step_def resolve_user_eq user_active_def)
qed

lemma issue_for_ok:
  assumes "issue_jwt_pair oe dr ctx uid cid scope nonce methods email s = Inr (a, i, x)"
    and "seal (oe_aead oe) (master_key (oe_aead oe)) (xd_nonce dr) (xd_raw dr) RT_AAD = Inr enc"
    and "xd_token_id dr \<notin> rt_id ` set (refresh_tokens s)"
    and "Some (refresh_token_hash (oe_digest oe) (xd_raw dr)) \<notin> rt_token_hash ` set (refresh_tokens s)"
  shows "\<exists>s'. issue_for oe dr ctx uid cid scope nonce methods email s =
    (Inr \<lparr> ts_access_token = a, ts_id_token = i, ts_refresh_token = xd_raw dr, ts_access_expires_in = x,
           ts_user_id = Some uid \<rparr>, s')"
proof -
  have "\<not> list_ex (\<lambda>r. rt_id r = xd_token_id dr) (refresh_tokens s)"
    "\<not> list_ex (\<lambda>r. rt_token_hash r = Some (refresh_token_hash (oe_digest oe) (xd_raw dr)) \<and> (\<exists>y. rt_token_hash r = Some y))
      (refresh_tokens s)"
    using assms(3,4) by (auto simp: list_ex_iff image_iff)
  then show ?thesis
    using assms(1,2)
    by (simp add: issue_for_eq prepare_refresh_token_def insert_initial_refresh_token_def protocol_tx_def with_tx_def
        insert_prepared_within_tx_def new_refresh_row_def family_root_of_def list_ex_iff)
qed

lemma issue_jwt_pair_keys:
  "signing_keys s' = signing_keys s \<Longrightarrow> issue_jwt_pair oe dr ctx uid cid scope nonce methods email s'
    = issue_jwt_pair oe dr ctx uid cid scope nonce methods email s"
  by (simp add: issue_jwt_pair_def active_key_def)

section \<open>A concrete issuer\<close>

definition demo_access :: access_token_claims where
  "demo_access = access_claims ''iss'' ''u1'' ''c1'' ''openid'' default_lifetimes 0 ''j''"

definition demo_id :: id_token_claims where
  "demo_id = id_claims ''iss'' ''u1'' ''c1'' ''openid'' None default_lifetimes 0 ''i'' [Pwd] None"

definition demo_claims :: claims_json where
  "demo_claims = \<lparr> access_to_json = (\<lambda>c. if c = demo_access then Some ''a'' else None),
     access_from_json = (\<lambda>j. if j = ''a'' then Some demo_access else None),
     id_to_json = (\<lambda>c. if c = demo_id then Some ''i'' else None),
     id_from_json = (\<lambda>j. if j = ''i'' then Some demo_id else None) \<rparr>"

lemma demo_claims_ok: "claims_json_ok demo_claims"
  by (simp add: claims_json_ok_def demo_claims_def)

definition demo_oidc :: oidc_env where
  "demo_oidc = \<lparr> oe_digest = demo_env, oe_aead = demo_aead, oe_jwt = demo_jwt, oe_claims = demo_claims,
     oe_web = demo_web, oe_password = demo_password \<rparr>"

definition demo_ctx :: issuance_context where
  "demo_ctx = \<lparr> ic_issuer = ''iss'', ic_lifetimes = default_lifetimes \<rparr>"

definition demo_draws :: exchange_draws where
  "demo_draws = \<lparr> xd_consume_at = 5, xd_denied_at = 0, xd_claims_at = 0, xd_row_at = 0, xd_audit_at = 0,
     xd_jti = ''j'', xd_id_jti = ''i'', xd_unused_raw = ''x'', xd_token_id = ''t2'', xd_raw = ''raw2'',
     xd_nonce = replicate 24 CHR ''n'' \<rparr>"

definition demo_secret_key :: string where
  "demo_secret_key = replicate 32 CHR ''k''"

definition demo_key :: signing_key_row where
  "demo_key = \<lparr> sk_id = ''k1'', sk_algorithm = ''EdDSA'',
     sk_private_key_enc = replicate 24 CHR ''n'' @ demo_secret_key @ replicate 16 CHR ''t'',
     sk_public_key = demo_secret_key, sk_is_active = True, sk_created_at = 0, sk_rotated_at = None \<rparr>"

definition demo_issuer :: store where
  "demo_issuer = empty_store\<lparr> users := [demo_user ''u1'' User], clients := [demo_client True [''https://rp/cb'']],
     signing_keys := [demo_key], refresh_tokens := [demo_token] \<rparr>"

lemmas demo_issuer_parts = demo_issuer_def empty_store_def

lemma demo_oidc_simps [simp]:
  "oe_digest demo_oidc = demo_env" "oe_aead demo_oidc = demo_aead" "oe_jwt demo_oidc = demo_jwt"
  "oe_claims demo_oidc = demo_claims" "oe_web demo_oidc = demo_web" "oe_password demo_oidc = demo_password"
  by (simp_all add: demo_oidc_def)

lemma demo_active: "active_key demo_issuer = Inr demo_key"
  by (simp add: active_key_def demo_issuer_parts newest_first_def demo_key_def)

lemma demo_unseal: "unseal_private demo_aead demo_key = Inr demo_secret_key"
  by (simp add: unseal_private_def open_sealed_def demo_aead_def demo_key_def demo_secret_key_def NONCE_LEN_def)

lemma demo_openid: "scope_has ''openid'' ''openid''" "\<not> scope_has ''openid'' ''email''"
  by (simp_all add: scope_has_def split_whitespace_def utf8_chars_ascii is_whitespace_ascii byte_def)

lemma demo_jwts: "\<exists>a i x. issue_jwt_pair demo_oidc demo_draws demo_ctx ''u1'' ''c1'' ''openid'' None [Pwd] None demo_issuer
    = Inr (a, i, x)"
proof -
  have "access_to_json demo_claims (access_claims ''iss'' ''u1'' ''c1'' ''openid'' default_lifetimes 0 ''j'') = Some ''a''"
    "id_to_json demo_claims (id_claims ''iss'' ''u1'' ''c1'' ''openid'' None default_lifetimes 0 ''i'' [Pwd] None) = Some ''i''"
    by (simp_all add: demo_claims_def demo_access_def demo_id_def)
  moreover have "\<exists>h. header_to_json demo_jwt ''EdDSA'' ''JWT'' kid = Some h" for kid
    by (simp add: demo_jwt_def)
  ultimately show ?thesis
    by (simp add: issue_jwt_pair_def demo_active demo_unseal demo_secret_key_def issue_token_set_def jwt_sign_def
        demo_draws_def demo_ctx_def demo_openid split: option.splits)
qed

definition demo_accepted :: authorize_params where
  "demo_accepted = \<lparr> ap_client_id = ''c1'', ap_redirect_uri = ''https://rp/cb'', ap_response_type = ''code'',
     ap_scope = ''openid'', ap_state = None, ap_nonce = None,
     ap_code_challenge = s256_challenge demo_env demo_jwt ''v'', ap_code_challenge_method = ''S256'' \<rparr>"

definition demo_request :: "string \<Rightarrow> code_exchange_request" where
  "demo_request verifier = \<lparr> cr_code = ''code'', cr_redirect_uri = ''https://rp/cb'', cr_client_id = ''c1'',
     cr_client_secret = Some ''pw'', cr_client_secret_channel = Basic, cr_code_verifier = verifier \<rparr>"

definition demo_issued :: authorization_code_row where
  "demo_issued = issued_code demo_env 0 ''code'' ''u1'' [Pwd] demo_accepted"

definition demo_coded :: store where
  "demo_coded = demo_issuer\<lparr> auth_codes := [demo_issued] \<rparr>"

lemma demo_encode_plain: "CHR ''.'' \<notin> set s \<Longrightarrow> CHR ''-'' \<notin> set s \<Longrightarrow> demo_encode s = s"
  by (induction s) auto

lemma demo_challenge: "s256_challenge demo_env demo_jwt ''v'' = CHR ''v'' # replicate 31 CHR ''0''"
  by (simp add: s256_challenge_def demo_env_def demo_jwt_def Let_def take_Cons' demo_encode_plain)

lemma demo_challenge_valid: "utf8_valid (s256_challenge demo_env demo_jwt ''v'')"
  by (rule utf8_valid_ascii) (simp add: demo_challenge byte_def list_all_iff)

lemma demo_authorization:
  "complete_authorization demo_env 0 ''code'' ''u1'' [Pwd] demo_accepted demo_issuer
    = (Inr \<lparr> ar_redirect_uri = ''https://rp/cb'', ar_code = ''code'', ar_state = None \<rparr>, demo_coded)"
  by (simp add: complete_authorization_def with_tx_def ac_insert_def demo_issuer_parts demo_coded_def demo_issued_def
      demo_accepted_def)

lemma demo_authenticated:
  assumes "clients s = clients demo_issuer"
  shows "fst (authenticate_request demo_password ''c1'' (Some ''pw'') Basic s) = Inr (demo_client True [''https://rp/cb''])"
  using assms
  by (simp add: authenticate_request_Inr_iff get_client_def demo_issuer_parts by_client_id_def)
    (simp add: demo_client_def secret_accepted_def channel_refusal_def verify_password_def demo_password_def)

lemma demo_user_found: "users s = users demo_issuer \<Longrightarrow> get_user ''u1'' s = Inr (demo_user ''u1'' User)"
  "user_active (demo_user ''u1'' User)" "user_email_pair (demo_user ''u1'' User) = None" "u_id (demo_user ''u1'' User) = ''u1''"
  by (simp_all add: get_user_def demo_issuer_parts by_user_id_def demo_user_def user_active_def user_email_pair_def)

lemma demo_codes_keyed: "codes_keyed demo_issuer" "codes_keyed demo_coded"
  by (simp_all add: codes_keyed_def demo_coded_def demo_issuer_parts)

lemma demo_seal: "seal demo_aead (master_key demo_aead) (xd_nonce demo_draws) (xd_raw demo_draws) RT_AAD
    = Inr (replicate 24 CHR ''n'' @ ''raw2'' @ replicate 16 CHR ''t'')"
  by (simp add: seal_def demo_aead_def demo_draws_def)

lemma demo_fresh_draws:
  "xd_token_id demo_draws \<notin> rt_id ` set (refresh_tokens demo_issuer)"
  "Some (refresh_token_hash demo_env (xd_raw demo_draws)) \<notin> rt_token_hash ` set (refresh_tokens demo_issuer)"
  by (simp_all add: demo_draws_def demo_issuer_parts demo_token_def refresh_token_hash_def demo_env_def take_Cons')

lemma demo_redeems: "redeems demo_oidc 5 (demo_request ''v'') demo_issued"
proof -
  have "verify_pkce demo_env demo_jwt ''S256'' ''v'' (s256_challenge demo_env demo_jwt ''v'') = Inr ()"
    by (simp add: verify_pkce_Inr_iff demo_challenge_valid)
  then show ?thesis
    by (simp add: redeems_def demo_issued_def issued_code_def demo_accepted_def demo_request_def code_live_def
        AUTH_CODE_LIFETIME_SECS_def seconds_def nanos_def)
qed

lemma demo_exchange_at:
  assumes "codes_keyed s" "demo_issued \<in> set (auth_codes s)" "get_user ''u1'' s = Inr (demo_user ''u1'' User)"
    and "clients s = clients demo_issuer" "signing_keys s = signing_keys demo_issuer"
    and "''t2'' \<notin> rt_id ` set (refresh_tokens s)"
    and "Some (refresh_token_hash demo_env ''raw2'') \<notin> rt_token_hash ` set (refresh_tokens s)"
  obtains ts s' r where "exchange_code demo_oidc demo_draws demo_ctx (demo_request ''v'') s = (Inr ts, s')"
    "ts_user_id ts = Some ''u1''" "ts_refresh_token ts = ''raw2''" "refresh_tokens s' = refresh_tokens s @ [r]"
    "issued_refresh_row demo_oidc demo_draws (new_refresh_row demo_draws demo_ctx ''u1'' ''c1'' ''openid'' [Pwd] ''t2'') r"
proof -
  let ?t = "after_consume (code_hash_of demo_env ''code'') 5 s"
  obtain a i x where "issue_jwt_pair demo_oidc demo_draws demo_ctx ''u1'' ''c1'' ''openid'' None [Pwd] None ?t = Inr (a, i, x)"
    using demo_jwts issue_jwt_pair_keys [of ?t demo_issuer] assms(5) by (metis after_consume_simps(3))
  then obtain ts s' where issue: "issue_for demo_oidc demo_draws demo_ctx ''u1'' ''c1'' ''openid'' None [Pwd] None ?t = (Inr ts, s')"
    using issue_for_ok [of demo_oidc demo_draws demo_ctx "''u1''" "''c1''" "''openid''" None "[Pwd]" None ?t a i x]
      demo_seal assms(6,7) by (auto simp: demo_draws_def)
  have "redeem_code demo_oidc demo_draws demo_ctx (demo_request ''v'') s
      = issue_for demo_oidc demo_draws demo_ctx ''u1'' ''c1'' ''openid'' None [Pwd] None ?t"
    using redeem_code_issues [OF assms(1,2), of demo_oidc demo_draws "demo_request ''v''" "demo_user ''u1'' User" demo_ctx]
      demo_redeems demo_user_found(2-4) assms(3)
    by (simp add: demo_draws_def demo_issued_def issued_code_def demo_accepted_def demo_request_def)
  then have "exchange_code demo_oidc demo_draws demo_ctx (demo_request ''v'') s = (Inr ts, s')"
    using demo_authenticated [OF assms(4)] issue by (simp add: exchange_code_eq demo_request_def)
  then show thesis
    using issue by (elim issue_for_Inr) (auto intro!: that simp: demo_draws_def)
qed

lemma demo_exchange: "\<exists>ts s'. exchange_code demo_oidc demo_draws demo_ctx (demo_request ''v'') demo_coded = (Inr ts, s')"
proof -
  have "get_user ''u1'' demo_coded = Inr (demo_user ''u1'' User)"
    by (rule demo_user_found(1)) (simp add: demo_coded_def)
  then show ?thesis
    using demo_fresh_draws
    by (elim demo_exchange_at [OF demo_codes_keyed(2), rotated]) (auto simp: demo_coded_def demo_draws_def)
qed

definition demo_refresh_request :: refresh_exchange_request where
  "demo_refresh_request = \<lparr> rr_refresh_token = ''raw1'', rr_client_id = ''c1'', rr_client_secret = Some ''pw'',
     rr_client_secret_channel = Basic \<rparr>"

definition demo_presented :: refresh_token_row where
  "demo_presented = demo_token\<lparr>rt_token_hash := Some (refresh_token_hash demo_env ''raw1'')\<rparr>"

definition demo_refreshable :: store where
  "demo_refreshable = demo_issuer\<lparr>refresh_tokens := [demo_presented]\<rparr>"

lemma demo_hash_ne: "refresh_token_hash demo_env ''raw1'' \<noteq> refresh_token_hash demo_env ''raw2''"
  by (simp add: refresh_token_hash_def demo_env_def take_Cons')

lemma demo_presented_keyed: "tokens_keyed (refresh_tokens demo_refreshable)"
  by (simp add: demo_refreshable_def tokens_keyed_def hashes_unique_def at_most_one_def)

lemma demo_scope: "enforce_scope_policy demo_web (c_allowed_scopes (demo_client True uris)) ''openid'' name = Inr ()"
  by (simp add: enforce_scope_policy_Inr_iff demo_client_def str_trim_def split_whitespace_def utf8_chars_ascii
      is_whitespace_ascii byte_def)

text \<open>A refresh token of the demonstration user is exchanged, under draws with another identifier and token.\<close>

definition demo_draws_of :: "string \<Rightarrow> string \<Rightarrow> exchange_draws" where
  "demo_draws_of tid raw = demo_draws\<lparr> xd_token_id := tid, xd_raw := raw \<rparr>"

lemma demo_refresh_at:
  assumes "tokens_keyed (refresh_tokens s)" "row \<in> set (refresh_tokens s)"
    and "rt_token_hash row = Some (refresh_token_hash demo_env raw)" "rt_active row" "0 < rt_expires_at row"
    and row: "rt_user_id row = ''u1''" "rt_client_id row = ''c1''" "rt_scope row = ''openid''" "rt_auth_methods row = [Pwd]"
      "length (rt_family_id row) \<le> 512"
    and "clients s = clients demo_issuer" "signing_keys s = signing_keys demo_issuer"
    and fresh: "tid \<notin> rt_id ` set (refresh_tokens s)"
      "Some (refresh_token_hash demo_env raw') \<notin> rt_token_hash ` set (refresh_tokens s)"
  shows "\<exists>ts s'. exchange_refresh demo_oidc (demo_draws_of tid raw') demo_ctx (demo_refresh_request\<lparr>rr_refresh_token := raw\<rparr>) s
    = (Inr ts, s') \<and> ts_user_id ts = Some ''u1''"
proof -
  let ?dr = "demo_draws_of tid raw'"
  have pre: "find_any demo_env demo_aead raw s = Inr row"
    using find_Some_keyed [OF assms(1-3)] by (simp add: find_any_def)
  have "xd_claims_at ?dr = xd_claims_at demo_draws" "xd_jti ?dr = xd_jti demo_draws" "xd_id_jti ?dr = xd_id_jti demo_draws"
    "xd_unused_raw ?dr = xd_unused_raw demo_draws"
    by (simp_all add: demo_draws_of_def)
  then have "issue_jwt_pair demo_oidc ?dr demo_ctx ''u1'' ''c1'' ''openid'' None [Pwd] None s
      = issue_jwt_pair demo_oidc demo_draws demo_ctx ''u1'' ''c1'' ''openid'' None [Pwd] None demo_issuer"
    unfolding issue_jwt_pair_keys [OF assms(12)] by (simp only: issue_jwt_pair_def)
  then obtain a i x where "issue_jwt_pair demo_oidc ?dr demo_ctx ''u1'' ''c1'' ''openid'' None [Pwd] None s = Inr (a, i, x)"
    using demo_jwts by metis
  moreover have "email_for_token ''openid'' ''u1'' s = None"
    by (simp add: email_for_token_def demo_openid)
  moreover obtain p where p: "prepare_refresh_token demo_env demo_aead (xd_raw ?dr) (xd_nonce ?dr)
      (new_refresh_row ?dr demo_ctx ''u1'' ''c1'' ''openid'' [Pwd] (rt_family_id row)) = Inr p"
    by (simp add: prepare_refresh_token_def seal_def demo_aead_def demo_draws_of_def demo_draws_def)
  moreover have "rt_id (prep_row p) = tid" "rt_token_hash (prep_row p) = Some (refresh_token_hash demo_env raw')"
    using p prepare_refresh_token_Inr [of demo_oidc ?dr]
    by (auto simp: issued_refresh_row_def new_refresh_row_def demo_draws_of_def)
  then have "fresh_row (prep_row p) (refresh_tokens s)"
    using fresh by (simp add: fresh_row_def)
  then have "\<exists>s'. rotate_refresh_token demo_env 0 (refresh_token_hash demo_env raw) ''c1'' 0 p s
      = (Inr (Rotated (prep_row p) (prep_raw p)), s')"
    using rotate_wins [OF assms(1-3) row(2) assms(4,5) row(5)] by blast
  ultimately show ?thesis
    using demo_authenticated [OF assms(11)] demo_scope [of "[''https://rp/cb'']"] pre row
    by (auto simp: exchange_refresh_eq demo_refresh_request_def refresh_grant_allowed_def rotate_and_answer_eq
        demo_draws_of_def demo_draws_def demo_client_def)
qed

lemma demo_refresh: "\<exists>ts s'. exchange_refresh demo_oidc demo_draws demo_ctx demo_refresh_request demo_refreshable = (Inr ts, s')"
proof -
  have "demo_draws_of ''t2'' ''raw2'' = demo_draws" "demo_refresh_request\<lparr>rr_refresh_token := ''raw1''\<rparr> = demo_refresh_request"
    by (simp_all add: demo_draws_of_def demo_draws_def demo_refresh_request_def)
  then show ?thesis
    using demo_refresh_at [OF demo_presented_keyed, of demo_presented "''raw1''" "''t2''" "''raw2''"] demo_hash_ne
    by (auto simp: demo_refreshable_def demo_presented_def demo_token_def rt_active_def seconds_def nanos_def)
qed

section \<open>Properties: the code grant\<close>

text \<open>C2: An authorization code buys tokens only when every check passed: the client exists, is enabled and
  authenticated; the code is unconsumed, unexpired, issued to this client for this redirect URI, and
  the verifier matches its S256 challenge; the user exists and is active.  The exchange then marks
  exactly that code and adds exactly one refresh token, which roots its own family, belongs to the
  user and client of the code and carries its scope; nothing else in the store changes.\<close>

theorem exchange_code_sound:
  assumes "codes_keyed s" "exchange_code oe dr ctx req s = (Inr ts, s')"
  shows "\<exists>c row u r.
    get_client (cr_client_id req) s = Inr c \<and> \<not> c_is_disabled c \<and> \<not> c_is_deleted c
    \<and> secret_accepted (oe_password oe) c (cr_client_secret req) (cr_client_secret_channel req)
    \<and> row \<in> set (auth_codes s) \<and> ac_code_hash row = code_hash_of (oe_digest oe) (cr_code req)
    \<and> \<not> ac_consumed row \<and> xd_consume_at dr < ac_expires_at row
    \<and> ac_client_id row = cr_client_id req \<and> ac_redirect_uri row = cr_redirect_uri req
    \<and> ac_code_challenge_method row = ''S256''
    \<and> ac_code_challenge row = s256_challenge (oe_digest oe) (oe_jwt oe) (cr_code_verifier req)
    \<and> get_user (ac_user_id row) s = Inr u \<and> user_active u \<and> ts_user_id ts = Some (ac_user_id row)
    \<and> rt_user_id r = ac_user_id row \<and> rt_client_id r = cr_client_id req \<and> rt_scope r = ac_scope row
    \<and> rt_family_id r = rt_id r \<and> rt_revoked_at r = None
    \<and> rt_token_hash r = Some (refresh_token_hash (oe_digest oe) (ts_refresh_token ts))
    \<and> s' = s\<lparr> auth_codes := update_where (\<lambda>q. q = row) (\<lambda>q. q\<lparr>ac_consumed := True\<rparr>) (auth_codes s),
             refresh_tokens := refresh_tokens s @ [r] \<rparr>"
proof -
  obtain c where c: "fst (authenticate_request (oe_password oe) (cr_client_id req) (cr_client_secret req)
        (cr_client_secret_channel req) s) = Inr c" and redeem: "redeem_code oe dr ctx req s = (Inr ts, s')"
    using assms(2) by (auto simp: exchange_code_eq split: sum.splits)
  obtain row u where row: "row \<in> set (auth_codes s)" "redeems oe (xd_consume_at dr) req row"
    and u: "get_user (ac_user_id row) s = Inr u" "user_active u" "u_id u = ac_user_id row"
    and issue: "issue_for oe dr ctx (u_id u) (cr_client_id req) (ac_scope row) (ac_nonce row) (ac_auth_methods row)
      (user_email_pair u) (after_consume (code_hash_of (oe_digest oe) (cr_code req)) (xd_consume_at dr) s) = (Inr ts, s')"
    using redeem_code_Inr [OF assms(1) redeem] by metis
  obtain r where r: "issued_refresh_row oe dr (new_refresh_row dr ctx (u_id u) (cr_client_id req) (ac_scope row)
      (ac_auth_methods row) (xd_token_id dr)) r"
    and s': "s' = (after_consume (code_hash_of (oe_digest oe) (cr_code req)) (xd_consume_at dr) s)
      \<lparr>refresh_tokens := refresh_tokens s @ [r]\<rparr>"
    and ts: "ts_refresh_token ts = xd_raw dr" "ts_user_id ts = Some (u_id u)"
    using issue_for_Inr [OF issue] by (metis after_consume_simps(2))
  have uniq: "code_live (code_hash_of (oe_digest oe) (cr_code req)) (xd_consume_at dr) q \<longleftrightarrow> q = row"
    if "q \<in> set (auth_codes s)" for q
    using distinct_key_eq [of ac_code_hash "auth_codes s" q row] assms(1) row that
    by (auto simp: codes_keyed_def redeems_def code_live_def)
  have "update_where (code_live (code_hash_of (oe_digest oe) (cr_code req)) (xd_consume_at dr))
      (\<lambda>q. q\<lparr>ac_consumed := True\<rparr>) (auth_codes s) = update_where (\<lambda>q. q = row) (\<lambda>q. q\<lparr>ac_consumed := True\<rparr>) (auth_codes s)"
    unfolding update_where_def by (rule map_cong) (simp_all add: uniq)
  then have "s' = s\<lparr> auth_codes := update_where (\<lambda>q. q = row) (\<lambda>q. q\<lparr>ac_consumed := True\<rparr>) (auth_codes s),
             refresh_tokens := refresh_tokens s @ [r] \<rparr>"
    by (simp add: s' after_consume_def)
  moreover have "rt_user_id r = u_id u" "rt_client_id r = cr_client_id req" "rt_scope r = ac_scope row"
    "rt_family_id r = rt_id r" "rt_revoked_at r = None"
    "rt_token_hash r = Some (refresh_token_hash (oe_digest oe) (xd_raw dr))"
    using r by (auto simp: issued_refresh_row_def new_refresh_row_def)
  ultimately show ?thesis
    using c row u ts by (auto simp: results redeems_def code_live_def)
qed

theorem exchange_code_sound_witness:
  "\<exists>ts s' row. exchange_code demo_oidc demo_draws demo_ctx (demo_request ''v'') demo_coded = (Inr ts, s')
    \<and> row \<in> set (auth_codes demo_coded) \<and> ts_user_id ts = Some (ac_user_id row)"
proof -
  obtain ts s' where "exchange_code demo_oidc demo_draws demo_ctx (demo_request ''v'') demo_coded = (Inr ts, s')"
    using demo_exchange by blast
  then show ?thesis
    using exchange_code_sound [OF demo_codes_keyed(2)] by blast
qed

text \<open>C5: A code that has been presented by an authenticated client is burnt, whatever the outcome of that
  attempt: no later exchange of the same code, with any verifier, redirect URI or client, yields
  tokens or changes the store.\<close>

theorem exchange_burns_code:
  assumes "codes_keyed s"
    and "fst (authenticate_request (oe_password oe) (cr_client_id req) (cr_client_secret req)
      (cr_client_secret_channel req) s) = Inr c"
    and "exchange_code oe dr ctx req s = (r, s')"
    and "cr_code req' = cr_code req" "xd_consume_at dr \<le> xd_consume_at dr'"
  shows "\<exists>e. exchange_code oe dr' ctx' req' s' = (Inl e, s')"
proof -
  have "redeem_code oe dr ctx req s = (r, s')"
    using assms(2,3) by (simp add: exchange_code_eq)
  then have "consume (code_hash_of (oe_digest oe) (cr_code req')) (xd_consume_at dr') s' = (Inl StoreNotFound, s')"
    using consume_after_consume [OF redeem_code_codes [OF assms(1)]] assms(4,5) by metis
  then show ?thesis
    by (simp add: exchange_code_eq redeem_code_eq split: sum.splits)
qed

theorem exchange_burns_code_witness:
  "\<exists>r s' e. exchange_code demo_oidc demo_draws demo_ctx (demo_request ''wrong'') demo_coded = (r, s')
    \<and> exchange_code demo_oidc demo_draws demo_ctx (demo_request ''v'') s' = (Inl e, s')"
proof -
  obtain r s' where first: "exchange_code demo_oidc demo_draws demo_ctx (demo_request ''wrong'') demo_coded = (r, s')"
    by fastforce
  have "fst (authenticate_request demo_password ''c1'' (Some ''pw'') Basic demo_coded) = Inr (demo_client True [''https://rp/cb''])"
    by (rule demo_authenticated) (simp add: demo_coded_def)
  then show ?thesis
    using exchange_burns_code [OF demo_codes_keyed(2) _ first, of _ "demo_request ''v''" demo_draws demo_ctx] first
    by (simp add: demo_request_def)
qed

text \<open>C23: The code flow completes: a code issued for an accepted request is exchanged for tokens by the
  client it was issued to, within its lifetime of sixty seconds, when it presents the verifier of the
  challenge and the user is still active; the random values are fresh and the signing key is usable.\<close>

theorem code_flow_completes:
  assumes "codes_keyed s"
    and issued: "complete_authorization (oe_digest oe) now code uid methods accepted s = (Inr resp, s1)"
    and pkce: "ap_code_challenge_method accepted = ''S256''"
      "ap_code_challenge accepted = s256_challenge (oe_digest oe) (oe_jwt oe) (cr_code_verifier req)"
      "utf8_valid (ap_code_challenge accepted)"
    and req: "cr_code req = ar_code resp" "cr_redirect_uri req = ar_redirect_uri resp"
      "cr_client_id req = ap_client_id accepted"
    and client: "fst (authenticate_request (oe_password oe) (cr_client_id req) (cr_client_secret req)
      (cr_client_secret_channel req) s) = Inr c"
    and user: "get_user uid s = Inr u" "user_active u"
    and time: "xd_consume_at dr < now + seconds AUTH_CODE_LIFETIME_SECS"
    and jwts: "issue_jwt_pair oe dr ctx uid (ap_client_id accepted) (ap_scope accepted) (ap_nonce accepted) methods
      (user_email_pair u) s = Inr (a, i, x)"
    and fresh: "seal (oe_aead oe) (master_key (oe_aead oe)) (xd_nonce dr) (xd_raw dr) RT_AAD = Inr enc"
      "xd_token_id dr \<notin> rt_id ` set (refresh_tokens s)"
      "Some (refresh_token_hash (oe_digest oe) (xd_raw dr)) \<notin> rt_token_hash ` set (refresh_tokens s)"
  shows "\<exists>s2. exchange_code oe dr ctx req s1 =
    (Inr \<lparr> ts_access_token = a, ts_id_token = i, ts_refresh_token = xd_raw dr, ts_access_expires_in = x,
           ts_user_id = Some uid \<rparr>, s2)"
proof -
  let ?row = "issued_code (oe_digest oe) now code uid methods accepted"
  have s1: "s1 = s\<lparr>auth_codes := auth_codes s @ [?row]\<rparr>"
    and new: "ac_code_hash ?row \<notin> ac_code_hash ` set (auth_codes s)"
    and resp: "ar_code resp = code" "ar_redirect_uri resp = ap_redirect_uri accepted"
    using issued by (auto simp: complete_authorization_def results ac_insert_def list_ex_key
        split: prod.splits sum.splits if_splits)
  have keyed: "codes_keyed s1"
    using assms(1) new by (simp add: codes_keyed_def s1)
  have same: "get_user uid s1 = get_user uid s" "u_id u = uid"
    "authenticate_request pe cid secret ch s1 = authenticate_request pe cid secret ch s" for pe cid secret ch
    using user(1) by (auto simp: s1 get_user_def get_client_def authenticate_request_def results by_user_id_def
        dest!: find_Some_in)
  have row: "ac_client_id ?row = cr_client_id req" "ac_user_id ?row = uid" "ac_scope ?row = ap_scope accepted"
    "ac_nonce ?row = ap_nonce accepted" "ac_auth_methods ?row = methods"
    using req by (simp_all add: issued_code_def)
  have "verify_pkce (oe_digest oe) (oe_jwt oe) ''S256'' (cr_code_verifier req) (ap_code_challenge accepted) = Inr ()"
    using pkce by (simp add: verify_pkce_Inr_iff)
  then have "redeems oe (xd_consume_at dr) req ?row"
    using req resp time pkce(1) by (simp add: redeems_def issued_code_def code_live_def)
  then have "redeem_code oe dr ctx req s1 = issue_for oe dr ctx uid (cr_client_id req) (ap_scope accepted) (ap_nonce accepted)
      methods (user_email_pair u)
      (after_consume (code_hash_of (oe_digest oe) (cr_code req)) (xd_consume_at dr) s1)" (is "_ = issue_for _ _ _ _ _ _ _ _ _ ?t")
    using redeem_code_issues [OF keyed, of ?row oe dr req u ctx] user same row by (simp add: s1)
  moreover have "issue_jwt_pair oe dr ctx uid (cr_client_id req) (ap_scope accepted) (ap_nonce accepted) methods
      (user_email_pair u) ?t = Inr (a, i, x)"
    using jwts req(3) issue_jwt_pair_keys [of ?t s] by (simp add: s1)
  ultimately show ?thesis
    using issue_for_ok [OF _ fresh(1)] fresh(2,3) client same(3) by (simp add: exchange_code_eq s1)
qed

theorem code_flow_completes_witness:
  "\<exists>ts s2. exchange_code demo_oidc demo_draws demo_ctx (demo_request ''v'') demo_coded = (Inr ts, s2)
    \<and> ts_user_id ts = Some ''u1''"
proof -
  obtain a i x where "issue_jwt_pair demo_oidc demo_draws demo_ctx ''u1'' ''c1'' ''openid'' None [Pwd] None demo_issuer
      = Inr (a, i, x)"
    using demo_jwts by blast
  then have jwts: "issue_jwt_pair demo_oidc demo_draws demo_ctx ''u1'' (ap_client_id demo_accepted) (ap_scope demo_accepted)
      (ap_nonce demo_accepted) [Pwd] (user_email_pair (demo_user ''u1'' User)) demo_issuer = Inr (a, i, x)"
    by (simp add: demo_accepted_def demo_user_found)
  have auth: "complete_authorization (oe_digest demo_oidc) 0 ''code'' ''u1'' [Pwd] demo_accepted demo_issuer
      = (Inr \<lparr> ar_redirect_uri = ''https://rp/cb'', ar_code = ''code'', ar_state = None \<rparr>, demo_coded)"
    using demo_authorization by simp
  have client: "fst (authenticate_request (oe_password demo_oidc) (cr_client_id (demo_request ''v''))
      (cr_client_secret (demo_request ''v'')) (cr_client_secret_channel (demo_request ''v'')) demo_issuer)
      = Inr (demo_client True [''https://rp/cb''])"
    using demo_authenticated [of demo_issuer] by (simp add: demo_request_def)
  have "\<exists>s2. exchange_code demo_oidc demo_draws demo_ctx (demo_request ''v'') demo_coded =
    (Inr \<lparr> ts_access_token = a, ts_id_token = i, ts_refresh_token = xd_raw demo_draws, ts_access_expires_in = x,
           ts_user_id = Some ''u1'' \<rparr>, s2)"
    by (rule code_flow_completes [OF demo_codes_keyed(1) auth _ _ _ _ _ _ client demo_user_found(1,2) _ jwts])
      (use demo_challenge_valid demo_seal demo_fresh_draws in
        \<open>simp_all add: demo_request_def demo_accepted_def demo_draws_def AUTH_CODE_LIFETIME_SECS_def seconds_def nanos_def\<close>)
  then show ?thesis
    by auto
qed

section \<open>The refresh grant\<close>

lemma rotated_success:
  assumes "tokens_keyed (refresh_tokens s)" "rotate_refresh_token cx at h c now p s = (Inr (Rotated x raw), s')"
  obtains row a where "List.find (\<lambda>r. rt_token_hash r = Some h) (refresh_tokens s) = Some row" "rt_client_id row = c"
    "rt_active row" "now < rt_expires_at row" "raw = prep_raw p"
    "s' = s\<lparr>refresh_tokens := after_win row now (prep_row p) (refresh_tokens s), audit := a\<rparr>"
    "length (entries a) = Suc (length (entries (audit s)))"
  using assms(2) unfolding rotate_refresh_token_def
proof (rule t04.class_a_success)
  fix ev t attrs
  assume body: "rotate_body h c now p s = Inr ((Rotated x raw, ev), t)"
    and s': "s' = t\<lparr>audit := append_within_tx cx (build_audit_row (ev_descriptor ev) None at (ev_target ev)
      (ev_result ev) attrs) (audit s)\<rparr>"
  from body show thesis
    by (rule rotate_body_cases [OF assms(1)])
      (auto simp: s' append_within_tx_def Let_def intro!: that)
qed

lemma rotate_and_answer_Inr:
  assumes "tokens_keyed (refresh_tokens s)"
    and "rotate_and_answer oe dr ctx req row0 (acc, idt, x) s = (Inr ts, s')"
  obtains row r a where
    "List.find (\<lambda>r. rt_token_hash r = Some (refresh_token_hash (oe_digest oe) (rr_refresh_token req))) (refresh_tokens s) = Some row"
    "rt_client_id row = rr_client_id req" "rt_active row" "xd_row_at dr < rt_expires_at row"
    "issued_refresh_row oe dr (new_refresh_row dr ctx (rt_user_id row0) (rt_client_id row0) (rt_scope row0)
      (rt_auth_methods row0) (rt_family_id row0)) r"
    "s' = s\<lparr>refresh_tokens := after_win row (xd_row_at dr) r (refresh_tokens s), audit := a\<rparr>"
    "length (entries a) = Suc (length (entries (audit s)))"
    "ts = \<lparr> ts_access_token = acc, ts_id_token = idt, ts_refresh_token = xd_raw dr, ts_access_expires_in = x,
       ts_user_id = Some (rt_user_id row0) \<rparr>"
proof -
  obtain p raw y where p: "prepare_refresh_token (oe_digest oe) (oe_aead oe) (xd_raw dr) (xd_nonce dr)
      (new_refresh_row dr ctx (rt_user_id row0) (rt_client_id row0) (rt_scope row0) (rt_auth_methods row0)
        (rt_family_id row0)) = Inr p"
    and rot: "rotate_refresh_token (oe_digest oe) (xd_audit_at dr)
      (refresh_token_hash (oe_digest oe) (rr_refresh_token req)) (rr_client_id req) (xd_row_at dr) p s
      = (Inr (Rotated y raw), s')"
    and ts: "ts = \<lparr> ts_access_token = acc, ts_id_token = idt, ts_refresh_token = raw, ts_access_expires_in = x,
       ts_user_id = Some (rt_user_id row0) \<rparr>"
    using assms(2) by (auto simp: rotate_and_answer_eq split: sum.splits prod.splits t04_outcome.splits)
  show ?thesis
    using assms(1) rot
    by (rule rotated_success) (use p ts in \<open>auto simp: prepare_refresh_token_Inr intro!: that\<close>)
qed

section \<open>Properties: the refresh grant and the tokens\<close>

text \<open>C3: A refresh token buys tokens only for an enabled and authenticated client that may use the
  grant, owns the token and is still allowed its scope, and only while the token is active and
  unexpired.  The presented token is then revoked and replaced by exactly one successor in its family,
  with its user, client, scope and authentication methods; one audit row records it and nothing else
  changes.\<close>

theorem exchange_refresh_sound:
  assumes "tokens_keyed (refresh_tokens s)" "exchange_refresh oe dr ctx req s = (Inr ts, s')"
  shows "\<exists>c row r a.
    get_client (rr_client_id req) s = Inr c \<and> \<not> c_is_disabled c \<and> \<not> c_is_deleted c
    \<and> secret_accepted (oe_password oe) c (rr_client_secret req) (rr_client_secret_channel req)
    \<and> refresh_grant_allowed c
    \<and> (str_trim (c_allowed_scopes c) = [] \<or>
       set (split_whitespace (rt_scope row)) \<subseteq> set (split_whitespace (str_trim (c_allowed_scopes c))))
    \<and> row \<in> set (refresh_tokens s)
    \<and> rt_token_hash row = Some (refresh_token_hash (oe_digest oe) (rr_refresh_token req))
    \<and> rt_active row \<and> xd_row_at dr < rt_expires_at row \<and> rt_client_id row = rr_client_id req
    \<and> ts_user_id ts = Some (rt_user_id row)
    \<and> rt_family_id r = rt_family_id row \<and> rt_user_id r = rt_user_id row \<and> rt_client_id r = rr_client_id req
    \<and> rt_scope r = rt_scope row \<and> rt_auth_methods r = rt_auth_methods row \<and> rt_active r
    \<and> rt_token_hash r = Some (refresh_token_hash (oe_digest oe) (ts_refresh_token ts))
    \<and> s' = s\<lparr> refresh_tokens := update_where (\<lambda>q. rt_id q = rt_id row \<and> rt_active q) (rt_revoke (xd_row_at dr))
               (refresh_tokens s) @ [r], audit := a \<rparr>
    \<and> length (entries a) = Suc (length (entries (audit s)))"
proof -
  obtain c pre acc idt x where c: "fst (authenticate_request (oe_password oe) (rr_client_id req) (rr_client_secret req)
        (rr_client_secret_channel req) s) = Inr c"
    and pre: "find_any (oe_digest oe) (oe_aead oe) (rr_refresh_token req) s = Inr pre"
    and ok: "refresh_grant_allowed c"
      "enforce_scope_policy (oe_web oe) (c_allowed_scopes c) (rt_scope pre) (c_name c) = Inr ()"
    and rot: "rotate_and_answer oe dr ctx req pre (acc, idt, x) s = (Inr ts, s')"
    using assms(2) by (auto simp: exchange_refresh_eq split: sum.splits if_splits)
  obtain row r a where row:
      "List.find (\<lambda>r. rt_token_hash r = Some (refresh_token_hash (oe_digest oe) (rr_refresh_token req))) (refresh_tokens s) = Some row"
      "rt_client_id row = rr_client_id req" "rt_active row" "xd_row_at dr < rt_expires_at row"
    and r: "issued_refresh_row oe dr (new_refresh_row dr ctx (rt_user_id pre) (rt_client_id pre) (rt_scope pre)
      (rt_auth_methods pre) (rt_family_id pre)) r"
    and s': "s' = s\<lparr>refresh_tokens := after_win row (xd_row_at dr) r (refresh_tokens s), audit := a\<rparr>"
      "length (entries a) = Suc (length (entries (audit s)))"
    and ts: "ts = \<lparr> ts_access_token = acc, ts_id_token = idt, ts_refresh_token = xd_raw dr, ts_access_expires_in = x,
       ts_user_id = Some (rt_user_id pre) \<rparr>"
    using assms(1) rot by (rule rotate_and_answer_Inr)
  have "pre = row"
    using pre row(1) by (simp add: find_any_def)
  then show ?thesis
    using find_Some_in [OF row(1)] row(2-4) c ok r s' ts
    by (intro exI [of _ c] exI [of _ row] exI [of _ r] exI [of _ a])
      (auto simp: results after_win_def issued_refresh_row_def new_refresh_row_def rt_active_def)
qed

theorem exchange_refresh_sound_witness:
  "\<exists>ts s' row. exchange_refresh demo_oidc demo_draws demo_ctx demo_refresh_request demo_refreshable = (Inr ts, s')
    \<and> row \<in> set (refresh_tokens demo_refreshable) \<and> ts_user_id ts = Some (rt_user_id row)"
proof -
  obtain ts s' where "exchange_refresh demo_oidc demo_draws demo_ctx demo_refresh_request demo_refreshable = (Inr ts, s')"
    using demo_refresh by blast
  then show ?thesis
    using exchange_refresh_sound [OF demo_presented_keyed] by blast
qed

lemma issue_token_set_Inr:
  assumes "issue_token_set je cj now jti jti' raw issuer uid cid scope nonce include_id kid sk lts methods email = Inr t"
  shows "jwt_sign je (access_to_json cj) kid sk (access_claims issuer uid cid scope lts now jti) = Inr (ts_access_token t)
    \<and> (if include_id
       then \<exists>tok. ts_id_token t = Some tok \<and> jwt_sign je (id_to_json cj) kid sk
         (id_claims issuer uid cid scope nonce lts now jti' methods email) = Inr tok
       else ts_id_token t = None)"
proof -
  obtain tok where access: "jwt_sign je (access_to_json cj) kid sk (access_claims issuer uid cid scope lts now jti) = Inr tok"
    using assms by (auto simp: issue_token_set_def split: sum.splits)
  show ?thesis
    using assms access
    by (cases "jwt_sign je (id_to_json cj) kid sk (id_claims issuer uid cid scope nonce lts now jti' methods email)")
      (auto simp: issue_token_set_def split: if_splits)
qed

lemma signed_token_verifies:
  assumes "jwt_env_ok je" "keys_ok s" "(kid, ed_public je sk) \<in> ring_keys (ring_of s)" "length sk = 32"
    and "jwt_sign je to_json kid sk claims = Inr token" "\<And>j. to_json claims = Some j \<Longrightarrow> from_json j = Some claims"
  shows "verify_from_snapshot je from_json (published_to_cached (list_published s)) token
    = Inr \<lparr> d_claims = claims, d_kid = kid \<rparr>"
proof -
  have "length (ed_public je sk) = 32" "ed_point je (ed_public je sk)"
    using assms(1,4) unfolding jwt_env_ok_def by blast+
  then have "resolve_kid je (published_to_cached (list_published s)) kid = Some (ed_public je sk)"
    by (rule resolve_published [OF assms(2,3)])
  then show ?thesis
    unfolding verify_from_snapshot_def by (rule jwt_sign_verify [OF assms(1,5) _ assms(6)])
qed

text \<open>C24: Tokens round-trip through signing and verification: the access token and the ID token that the
  endpoint issues are accepted with exactly the claims that were issued, until they expire, against
  the keys published then or later, through any number of key rotations, as long as the signing key
  has not been deleted.  The ID token is issued exactly when the scope has \<open>openid\<close>.\<close>

theorem issued_tokens_verify:
  assumes "jwt_env_ok (oe_jwt oe)" "claims_json_ok (oe_claims oe)" "keys_ok s"
    and pair: "issue_jwt_pair oe dr ctx uid cid scope nonce methods email s = Inr (access, idt, expires_in)"
    and key: "active_key s = Inr k" "unseal_private (oe_aead oe) k = Inr sk" "sk_public_key k = ed_public (oe_jwt oe) sk"
    and later: "rtranclp (key_step cx) s s'" "public_half k \<in> ring_keys (ring_of s')"
  shows "verify_access_token (oe_jwt oe) (oe_claims oe) now access s' =
      (if timestamp (xd_claims_at dr) + access_secs (ic_lifetimes ctx) < timestamp now then Inl Unauthenticated
       else Inr (access_claims (ic_issuer ctx) uid cid scope (ic_lifetimes ctx) (xd_claims_at dr) (xd_jti dr)))
    \<and> (if scope_has scope ''openid''
       then \<exists>tok. idt = Some tok \<and> verify_id_token (oe_jwt oe) (oe_claims oe) now tok True s' =
         Inr (id_claims (ic_issuer ctx) uid cid scope nonce (ic_lifetimes ctx) (xd_claims_at dr) (xd_id_jti dr) methods email)
       else idt = None)"
proof -
  let ?a = "access_claims (ic_issuer ctx) uid cid scope (ic_lifetimes ctx) (xd_claims_at dr) (xd_jti dr)"
  let ?i = "id_claims (ic_issuer ctx) uid cid scope nonce (ic_lifetimes ctx) (xd_claims_at dr) (xd_id_jti dr) methods email"
  have ok: "keys_ok s'" and ring: "(sk_id k, ed_public (oe_jwt oe) sk) \<in> ring_keys (ring_of s')"
    using key_steps_ok [OF later(1) assms(3)] later(2) key(3) by (auto simp: public_half_def)
  obtain t where len: "length sk = 32" and t: "issue_token_set (oe_jwt oe) (oe_claims oe) (xd_claims_at dr) (xd_jti dr)
      (xd_id_jti dr) (xd_unused_raw dr) (ic_issuer ctx) uid cid scope nonce (scope_has scope ''openid'') (sk_id k) sk
      (ic_lifetimes ctx) methods email = Inr t"
    and out: "access = ts_access_token t" "idt = ts_id_token t"
    using pair key(1,2) by (auto elim!: issue_jwt_pair_Inr)
  have json: "\<And>j. access_to_json (oe_claims oe) ?a = Some j \<Longrightarrow> access_from_json (oe_claims oe) j = Some ?a"
    "\<And>j. id_to_json (oe_claims oe) ?i = Some j \<Longrightarrow> id_from_json (oe_claims oe) j = Some ?i"
    using assms(2) unfolding claims_json_ok_def by blast+
  note signed = issue_token_set_Inr [OF t]
  have "verify_from_snapshot (oe_jwt oe) (access_from_json (oe_claims oe)) (published_to_cached (list_published s')) access
      = Inr \<lparr> d_claims = ?a, d_kid = sk_id k \<rparr>"
    using signed by (intro signed_token_verifies [OF assms(1) ok ring len _ json(1)]) (simp_all add: out)
  moreover have "verify_id_token (oe_jwt oe) (oe_claims oe) now tok True s' = Inr ?i"
    if "jwt_sign (oe_jwt oe) (id_to_json (oe_claims oe)) (sk_id k) sk ?i = Inr tok" for tok
    by (simp add: verify_id_token_def signed_token_verifies [OF assms(1) ok ring len that, OF json(2)])
  ultimately show ?thesis
    using signed out by (auto simp: verify_access_token_def access_claims_def)
qed

theorem issued_tokens_verify_witness:
  "\<exists>a i x. issue_jwt_pair demo_oidc demo_draws demo_ctx ''u1'' ''c1'' ''openid'' None [Pwd] None demo_issuer = Inr (a, i, x)
    \<and> verify_access_token demo_jwt demo_claims (seconds 900) a demo_issuer = Inr demo_access
    \<and> verify_access_token demo_jwt demo_claims (seconds 901) a demo_issuer = Inl Unauthenticated"
proof -
  obtain a i x where pair: "issue_jwt_pair demo_oidc demo_draws demo_ctx ''u1'' ''c1'' ''openid'' None [Pwd] None demo_issuer
      = Inr (a, i, x)"
    using demo_jwts by blast
  have env: "jwt_env_ok (oe_jwt demo_oidc)" "claims_json_ok (oe_claims demo_oidc)"
    "unseal_private (oe_aead demo_oidc) demo_key = Inr demo_secret_key"
    "sk_public_key demo_key = ed_public (oe_jwt demo_oidc) demo_secret_key"
    by (simp_all add: demo_jwt_ok demo_claims_ok demo_unseal) (simp add: demo_key_def demo_jwt_def)
  have ok: "keys_ok demo_issuer"
    by (simp add: keys_ok_def demo_issuer_parts at_most_one_def)
  have "public_half demo_key \<in> ring_keys (ring_of demo_issuer)"
    unfolding ring_keys_of [OF ok] by (simp add: demo_issuer_parts)
  note verify = issued_tokens_verify [OF env(1,2) ok pair demo_active env(3,4) rtranclp.rtrancl_refl this]
  have "timestamp (seconds n) = n" for n
    by (simp add: timestamp_def seconds_def nanos_def)
  then show ?thesis
    using pair verify [of "seconds 900"] verify [of "seconds 901"]
    by (simp add: demo_access_def demo_draws_def demo_ctx_def default_lifetimes_def timestamp_def)
qed

end
