(* ===== verification/Token_Traffic.thy ===== *)
theory Token_Traffic
  imports Recovery Token_Grants
begin

text \<open>
  The token endpoint under load: any number of exchanges overlap, each waiting between its database calls while
  others commit theirs.  The lemmas say what such traffic can do for a user whose access was cut: an exchange that
  begins afterwards yields nothing, while a code exchange that has already checked the account still goes through.
\<close>

section \<open>A user who is shut out\<close>

text \<open>The hashes under which the refresh tokens of the user are stored.\<close>

definition hashes_of :: "uuid \<Rightarrow> store \<Rightarrow> string set" where
  "hashes_of tgt s = {h. \<exists>r \<in> set (refresh_tokens s). rt_user_id r = tgt \<and> rt_token_hash r = Some h}"

definition all_hashed :: "uuid \<Rightarrow> store \<Rightarrow> bool" where
  "all_hashed tgt s = (\<forall>r \<in> set (refresh_tokens s). rt_user_id r = tgt \<longrightarrow> rt_token_hash r \<noteq> None)"

text \<open>No account row of the user is active, and no refresh token is active that is the user's or is found under one of
  the user's old hashes \<open>H\<close>.\<close>

definition shut_row :: "uuid \<Rightarrow> string set \<Rightarrow> refresh_token_row \<Rightarrow> bool" where
  "shut_row tgt H r =
    ((rt_user_id r = tgt \<longrightarrow> rt_token_hash r \<in> Some ` H) \<and> (rt_token_hash r \<in> Some ` H \<longrightarrow> \<not> rt_active r))"

definition shut_out :: "uuid \<Rightarrow> string set \<Rightarrow> store \<Rightarrow> bool" where
  "shut_out tgt H s =
    (tokens_keyed (refresh_tokens s) \<and> (\<forall>u \<in> set (users s). u_id u = tgt \<longrightarrow> \<not> user_active u)
     \<and> (\<forall>r \<in> set (refresh_tokens s). shut_row tgt H r))"

text \<open>What the rest of the server may do between two calls: anything, as long as the account stays inactive and the
  table of refresh tokens gets no new row and no row becomes active; rows may be revoked, sealed again or deleted.\<close>

definition fewer_tokens :: "refresh_token_row list \<Rightarrow> refresh_token_row list \<Rightarrow> bool" where
  "fewer_tokens toks toks' =
    (\<forall>q \<in> set toks'. \<exists>r \<in> set toks. rt_user_id q = rt_user_id r \<and> rt_token_hash q = rt_token_hash r
      \<and> (rt_active q \<longrightarrow> rt_active r))"

definition elsewhere :: "uuid \<Rightarrow> store \<Rightarrow> store \<Rightarrow> bool" where
  "elsewhere tgt s s' =
    ((\<forall>u \<in> set (users s'). u_id u = tgt \<longrightarrow> \<not> user_active u)
     \<and> tokens_keyed (refresh_tokens s') \<and> fewer_tokens (refresh_tokens s) (refresh_tokens s'))"

text \<open>The requests that arrive: exchanges of codes and of refresh tokens, by anybody, whose random token does not
  repeat an old one of the user.\<close>

definition token_requests :: "oidc_env \<Rightarrow> string set \<Rightarrow> (core_error + token_set) flow set" where
  "token_requests oe H =
    {exchange_code_flow oe dr ctx req | dr ctx req. refresh_token_hash (oe_digest oe) (xd_raw dr) \<notin> H} \<union>
    {exchange_refresh_flow oe dr ctx req | dr ctx req. refresh_token_hash (oe_digest oe) (xd_raw dr) \<notin> H}"

lemma token_requests_intros:
  "refresh_token_hash (oe_digest oe) (xd_raw dr) \<notin> H \<Longrightarrow> exchange_code_flow oe dr ctx req \<in> token_requests oe H"
  "refresh_token_hash (oe_digest oe) (xd_raw dr) \<notin> H \<Longrightarrow> exchange_refresh_flow oe dr ctx rreq \<in> token_requests oe H"
  unfolding token_requests_def by blast+

definition nothing_for :: "uuid \<Rightarrow> core_error + token_set \<Rightarrow> bool" where
  "nothing_for tgt r = (\<forall>ts. r = Inr ts \<longrightarrow> ts_user_id ts \<noteq> Some tgt)"

lemma nothing_for_simps [simp]:
  "nothing_for tgt (Inl e)" "nothing_for tgt (Inr ts) \<longleftrightarrow> ts_user_id ts \<noteq> Some tgt"
  by (simp_all add: nothing_for_def)

section \<open>Single calls\<close>

lemma fewer_tokens_revoke: "fewer_tokens toks (update_where p (rt_revoke now) toks)"
  unfolding fewer_tokens_def set_update_where by fastforce

lemma fewer_tokens_delete: "fewer_tokens toks (delete_where p toks)"
  by (auto simp: fewer_tokens_def set_delete_where)

lemma fewer_tokens_refl [simp]: "fewer_tokens toks toks"
  by (auto simp: fewer_tokens_def)

lemma fewer_tokens_shut: "fewer_tokens toks toks' \<Longrightarrow> \<forall>r \<in> set toks. shut_row tgt H r \<Longrightarrow> \<forall>q \<in> set toks'. shut_row tgt H q"
  unfolding fewer_tokens_def shut_row_def by metis

lemma shut_out_elsewhere: "shut_out tgt H s \<Longrightarrow> elsewhere tgt s s' \<Longrightarrow> shut_out tgt H s'"
  unfolding shut_out_def elsewhere_def using fewer_tokens_shut by blast

text \<open>Issuing authorization codes, revoking and purging refresh tokens are work of that kind.\<close>

lemma elsewhere_authorize:
  assumes "shut_out tgt H s" "complete_authorization cx now code uid methods accepted s = (r, s')"
  shows "elsewhere tgt s s'"
proof -
  obtain r' where "with_tx (ac_insert (issued_code cx now code uid methods accepted)) s = (r', s')"
    using assms(2) by (auto simp: complete_authorization_def split: sum.splits prod.splits)
  then have "users s' = users s" "refresh_tokens s' = refresh_tokens s"
    by (cases r'; auto simp: results ac_insert_def split: if_splits)+
  then show ?thesis
    using assms(1) by (simp add: elsewhere_def shut_out_def)
qed

lemma elsewhere_revoke:
  "shut_out tgt H s \<Longrightarrow> with_tx (revoke_rows_where p now) s = (r, s') \<Longrightarrow> elsewhere tgt s s'"
  by (auto simp: with_tx_def revoke_rows_where_def elsewhere_def shut_out_def tokens_keyed_revoke fewer_tokens_revoke)

lemma elsewhere_purge:
  "shut_out tgt H s \<Longrightarrow> with_tx (rt_purge_expired now) s = (r, s') \<Longrightarrow> elsewhere tgt s s'"
  by (auto simp: with_tx_def rt_purge_expired_def elsewhere_def shut_out_def tokens_keyed_delete fewer_tokens_delete)

lemma shut_out_insert:
  "shut_out tgt H s \<Longrightarrow> shut_row tgt H row \<Longrightarrow> fresh_row row (refresh_tokens s) \<Longrightarrow>
    shut_out tgt H (s\<lparr>refresh_tokens := refresh_tokens s @ [row]\<rparr>)"
  by (auto simp: shut_out_def tokens_keyed_insert)

lemma issued_row_shut:
  fixes oe :: oidc_env
  assumes "prepare_refresh_token (oe_digest oe) (oe_aead oe) (xd_raw dr) (xd_nonce dr)
      (new_refresh_row dr ctx uid cid scope methods family) = Inr p"
    and "refresh_token_hash (oe_digest oe) (xd_raw dr) \<notin> H" "uid \<noteq> tgt"
  shows "shut_row tgt H (prep_row p)"
  using assms by (auto simp: prepare_refresh_token_Inr issued_refresh_row_def new_refresh_row_def shut_row_def)

lemma consume_shut: "shut_out tgt H s \<Longrightarrow> consume h now s = (r, s') \<Longrightarrow> shut_out tgt H s'"
  by (auto simp: consume_def consume_tx_def results shut_out_def with_tx_def split: sum.splits prod.splits if_splits option.splits)

text \<open>The arbitration either leaves the table with no more tokens than before, or found an active row under the hash.\<close>

lemma rotate_call:
  assumes "tokens_keyed (refresh_tokens s)" "rotate_refresh_token cx at h c now p s = (r, s')"
  obtains (lost) "users s' = users s" "tokens_keyed (refresh_tokens s')" "fewer_tokens (refresh_tokens s) (refresh_tokens s')"
      "\<And>x raw. r \<noteq> Inr (Rotated x raw)"
  | (won) row toks where "row \<in> set (refresh_tokens s)" "rt_token_hash row = Some h" "rt_active row" "users s' = users s"
      "refresh_tokens s' = toks @ [prep_row p]" "tokens_keyed (refresh_tokens s')" "fewer_tokens (refresh_tokens s) toks"
proof (cases r)
  case (Inl e)
  then show thesis
    using assms t04.class_a_error by (intro lost) (fastforce simp: rotate_refresh_token_def)+
next
  case (Inr out)
  then obtain ev t a where body: "rotate_body h c now p s = Inr ((out, ev), t)" and s': "s' = t\<lparr>audit := a\<rparr>"
    using assms(2) by (auto simp: rotate_refresh_token_def elim!: t04.class_a_success)
  from assms(1) body show thesis
  proof (cases rule: rotate_body_cases)
    case (win row)
    then show thesis
      using find_Some_in [OF win(1)] tokens_keyed_revoke [OF assms(1)]
      by (intro won) (auto simp: s' after_win_def tokens_keyed_insert fewer_tokens_revoke)
  next
    case (theft row)
    then show thesis
      using tokens_keyed_revoke [OF assms(1)] by (intro lost) (auto simp: Inr s' after_theft_def fewer_tokens_revoke)
  qed
qed

section \<open>The flows of the endpoint\<close>

lemma issue_for_keeps:
  assumes "refresh_token_hash (oe_digest oe) (xd_raw dr) \<notin> H" "uid \<noteq> tgt"
  shows "keeps_to (shut_out tgt H) (nothing_for tgt) (issue_for_flow oe dr ctx uid cid scope nonce methods email)"
  unfolding issue_for_flow_def issue_jwt_pair_flow_def
proof (rule keeps_to_or_return [where between = "\<lambda>_. True"], goal_cases)
  case (2 jwts)
  obtain acc idt x where jwts: "jwts = (acc, idt, x)"
    by (cases jwts)
  show ?case
    unfolding jwts prod.case
  proof (rule keeps_to_or_return [where between = "\<lambda>p. shut_row tgt H (prep_row p)"], goal_cases)
    case 1
    then show ?case
      using issued_row_shut [OF _ assms] by (auto simp: map_sum_def split: sum.splits)
  next
    case (2 p)
    then show ?case
      using assms(2)
      by (intro keeps_to_or_return [where between = "\<lambda>_. True" and f = "await_tx _"] keeps_to_tx)
        (auto simp: insert_initial_refresh_token_def protocol_tx_def with_tx_def insert_prepared_Inr_iff apfst_def
          intro: shut_out_insert split: sum.splits prod.splits)
  qed simp
qed (simp_all add: keeps_to_read)

lemma resolve_user_keeps:
  "keeps_to (shut_out tgt H) (\<lambda>r. \<forall>g. r = Inr g \<longrightarrow> ig_user_id g \<noteq> tgt) (resolve_user_flow oe dr cid row)"
  unfolding resolve_user_flow_def
proof (rule keeps_to_or_return [where between = "\<lambda>u. user_active u \<longrightarrow> u_id u \<noteq> tgt"], goal_cases)
  case 1
  have "user_active u \<longrightarrow> u_id u \<noteq> tgt" if "shut_out tgt H s" "get_user uid s = Inr u" for s uid u
    using that by (auto simp: shut_out_def get_user_def results dest!: find_Some_in)
  then show ?case
    by (intro keeps_to_read) (auto simp: map_sum_def split: sum.splits)
next
  case (2 u)
  then show ?case
    by (auto simp: user_active_def shut_out_def intro!: keeps_to_and_then [where between = "\<lambda>_. True"] keeps_to_tx)
qed simp

lemma redeem_code_keeps:
  assumes "refresh_token_hash (oe_digest oe) (xd_raw dr) \<notin> H"
  shows "keeps_to (shut_out tgt H) (nothing_for tgt) (redeem_code_flow oe dr ctx req)"
  unfolding redeem_code_flow_def
proof (rule keeps_to_or_return [where between = "\<lambda>_. True"], goal_cases)
  case 1
  then show ?case
    by (intro keeps_to_tx) (auto simp: apfst_def map_prod_def split: prod.splits dest: consume_shut)
next
  case (2 consumed)
  have "keeps_to (shut_out tgt H) (nothing_for tgt) (or_return (resolve_user_flow oe dr (cr_client_id req) row) (\<lambda>issuable.
      issue_for_flow oe dr ctx (ig_user_id issuable) (cr_client_id req) (ac_scope (ig_row issuable))
        (ac_nonce (ig_row issuable)) (ac_auth_methods (ig_row issuable)) (ig_email issuable)))" for row
    by (rule keeps_to_or_return [OF resolve_user_keeps]) (simp_all add: issue_for_keeps [OF assms])
  then show ?case
    by (auto simp: or_return_def split: sum.splits)
qed simp

lemma exchange_code_keeps:
  assumes "refresh_token_hash (oe_digest oe) (xd_raw dr) \<notin> H"
  shows "keeps_to (shut_out tgt H) (nothing_for tgt) (exchange_code_flow oe dr ctx req)"
  unfolding exchange_code_flow_def
  by (rule keeps_to_or_return [where between = "\<lambda>_. True"]) (simp_all add: keeps_to_read redeem_code_keeps [OF assms])

lemma find_any_keeps:
  "keeps_to (shut_out tgt H) (\<lambda>r. \<forall>pre. r = Inr pre \<longrightarrow> rt_user_id pre = tgt \<longrightarrow> refresh_token_hash (oe_digest oe) token \<in> H)
    (find_any_flow oe token)"
  unfolding find_any_flow_def
proof (rule keeps_to_and_then [where between =
    "\<lambda>r. \<forall>pre. r = Some pre \<longrightarrow> rt_user_id pre = tgt \<longrightarrow> refresh_token_hash (oe_digest oe) token \<in> H"], goal_cases)
  case 1
  then show ?case
    by (intro keeps_to_read) (auto simp: shut_out_def shut_row_def dest!: find_Some_in)
next
  case (2 fast)
  have "keeps_to (shut_out tgt H) (\<lambda>rs. \<forall>r \<in> set rs. rt_user_id r \<noteq> tgt)
      (await_read (\<lambda>s. filter (\<lambda>r. rt_token_hash r = None) (refresh_tokens s)))"
    by (intro keeps_to_read) (auto simp: shut_out_def shut_row_def)
  then show ?case
    using 2 by (auto simp: decrypt_scan_def ok_or_def split: option.splits dest!: find_Some_in elim!: keeps_to_and_then)
qed

lemma rotate_and_answer_keeps:
  assumes "refresh_token_hash (oe_digest oe) (xd_raw dr) \<notin> H"
    and "rt_user_id pre = tgt \<longrightarrow> refresh_token_hash (oe_digest oe) (rr_refresh_token req) \<in> H"
  shows "keeps_to (shut_out tgt H) (nothing_for tgt) (rotate_and_answer_flow oe dr ctx req pre (acc, idt, x))"
  unfolding rotate_and_answer_flow_def prod.case
proof (rule keeps_to_or_return [where between = "\<lambda>p. rt_user_id pre \<noteq> tgt \<longrightarrow> shut_row tgt H (prep_row p)"], goal_cases)
  case 1
  then show ?case
    using issued_row_shut [OF _ assms(1)] by (auto simp: map_sum_def split: sum.splits)
next
  case (2 p)
  have call: "shut_out tgt H s' \<and> (\<forall>y raw. r = Inr (Rotated y raw) \<longrightarrow> rt_user_id pre \<noteq> tgt)"
    if s: "shut_out tgt H s" and run: "rotate_refresh_token (oe_digest oe) (xd_audit_at dr)
      (refresh_token_hash (oe_digest oe) (rr_refresh_token req)) (rr_client_id req) (xd_row_at dr) p s = (r, s')" for s r s'
  proof -
    have "tokens_keyed (refresh_tokens s)"
      using s by (simp add: shut_out_def)
    from this run show ?thesis
    proof (cases rule: rotate_call)
      case lost
      then show ?thesis
        using s fewer_tokens_shut [OF lost(3)] by (auto simp: shut_out_def)
    next
      case (won row toks)
      have "rt_user_id pre \<noteq> tgt"
        using won(1-3) s assms(2) by (auto simp: shut_out_def shut_row_def)
      then show ?thesis
        using won 2 s fewer_tokens_shut [OF won(7)] by (auto simp: shut_out_def)
    qed
  qed
  show ?case
  proof (rule keeps_to_or_return [where between = "\<lambda>out. \<forall>y raw. out = Rotated y raw \<longrightarrow> rt_user_id pre \<noteq> tgt"], goal_cases)
    case 1
    show ?case
    proof (rule keeps_to_tx, goal_cases)
      case (1 s x s')
      then obtain r where r: "rotate_refresh_token (oe_digest oe) (xd_audit_at dr)
          (refresh_token_hash (oe_digest oe) (rr_refresh_token req)) (rr_client_id req) (xd_row_at dr) p s = (r, s')"
        "\<And>out. x = Inr out \<Longrightarrow> r = Inr out"
        by (fastforce simp: apfst_def map_prod_def map_sum_def split: prod.splits sum.splits)
      then show ?case
        using call [OF 1(1) r(1)] by auto
    qed
  qed (auto split: t04_outcome.splits)
qed simp

lemma exchange_refresh_keeps:
  assumes "refresh_token_hash (oe_digest oe) (xd_raw dr) \<notin> H"
  shows "keeps_to (shut_out tgt H) (nothing_for tgt) (exchange_refresh_flow oe dr ctx req)"
  unfolding exchange_refresh_flow_def
proof (rule keeps_to_or_return [where between = "\<lambda>_. True"], goal_cases)
  case (2 client)
  show ?case
  proof (rule keeps_to_and_then [OF find_any_keeps], goal_cases)
    case (1 found)
    have rest: "keeps_to (shut_out tgt H) (nothing_for tgt)
        (and_then (email_flow (rt_scope pre) (rt_user_id pre)) (\<lambda>email. or_return (issue_jwt_pair_flow oe dr ctx (rt_user_id pre)
          (rt_client_id pre) (rt_scope pre) None (rt_auth_methods pre) email) (rotate_and_answer_flow oe dr ctx req pre)))"
      if "found = Inr pre" for pre
    proof (rule keeps_to_and_then [where between = "\<lambda>_. True"])
      show "keeps_to (shut_out tgt H) (\<lambda>_. True) (email_flow (rt_scope pre) (rt_user_id pre))"
        by (simp add: email_flow_def keeps_to_read)
      show "keeps_to (shut_out tgt H) (nothing_for tgt) (or_return (issue_jwt_pair_flow oe dr ctx (rt_user_id pre)
          (rt_client_id pre) (rt_scope pre) None (rt_auth_methods pre) email) (rotate_and_answer_flow oe dr ctx req pre))" for email
        unfolding issue_jwt_pair_flow_def
        using 1 that
        by (intro keeps_to_or_return [where between = "\<lambda>_. True"] keeps_to_read)
          (auto simp: split_paired_all intro: rotate_and_answer_keeps [OF assms])
    qed
    then show ?case
      by (auto simp: or_return_def split: sum.splits)
  qed
qed (simp_all add: keeps_to_read)

interpretation deactivated: shared_invariant "shut_out tgt H" "elsewhere tgt" "token_requests oe H" "nothing_for tgt"
  for tgt H oe
  by unfold_locales
    (auto simp: token_requests_def intro: shut_out_elsewhere exchange_code_keeps exchange_refresh_keeps)

section \<open>Cutting access\<close>

text \<open>Disabling and deleting change the users and cut the access, and nothing else.\<close>

lemma update_existing_user_users: "update_existing_user uid f s = Inr (u, s') \<Longrightarrow> \<exists>us. s' = s\<lparr>users := us\<rparr>"
  by (auto simp: update_existing_user_def results Let_def split: if_splits)

lemma after_cut_users: "after_cut tgt now (s\<lparr>users := us\<rparr>) = (after_cut tgt now s)\<lparr>users := us\<rparr>"
  by (simp add: after_cut_def)

lemma deactivation_effect:
  assumes "disable_user_body admin sid tgt reason t now s = Inr (v, s')
      \<or> delete_user_body admin sid tgt reason t now s = Inr (v, s')"
  obtains us where "s' = (after_cut tgt now s)\<lparr>users := us\<rparr>"
  using assms
  by (auto simp: disable_user_body_def delete_user_body_def set_disabled_within_tx_def soft_delete_within_tx_def results
      cut_access_eq after_cut_users dest!: step_up_evidence_ok update_existing_user_users)

lemma deactivation_success:
  assumes "disable_user cx at admin sid tgt reason t now s = (Inr (), s')
      \<or> delete_user cx at admin sid tgt reason t now s = (Inr (), s')"
  obtains us a where "s' = (after_cut tgt now s)\<lparr>users := us, audit := a\<rparr>" "\<forall>u \<in> set us. u_id u = tgt \<longrightarrow> \<not> user_active u"
proof -
  obtain v s1 a where body: "disable_user_body admin sid tgt reason t now s = Inr (v, s1)
      \<or> delete_user_body admin sid tgt reason t now s = Inr (v, s1)" and s': "s' = s1\<lparr>audit := a\<rparr>"
    using assms unfolding disable_user_def delete_user_def
    by (elim disjE u02.class_a_success u04.class_a_success) blast+
  obtain us where s1: "s1 = (after_cut tgt now s)\<lparr>users := us\<rparr>"
    using body by (rule deactivation_effect)
  have "\<forall>u \<in> set (users s1). u_id u = tgt \<longrightarrow> \<not> user_active u"
    using body disable_body_spec delete_body_spec by metis
  then show thesis
    by (intro that [where us = us and a = a]) (simp_all add: s' s1)
qed

lemma shut_out_after_cut:
  assumes "tokens_keyed (refresh_tokens s)" "all_hashed tgt s" "\<forall>u \<in> set us. u_id u = tgt \<longrightarrow> \<not> user_active u"
  shows "shut_out tgt (hashes_of tgt s) ((after_cut tgt now s)\<lparr>users := us, audit := a\<rparr>)"
proof -
  have owner: "rt_user_id q = tgt"
    if q: "q \<in> set (refresh_tokens s)" "rt_token_hash q = Some h" "h \<in> hashes_of tgt s" for q h
  proof -
    obtain r where r: "r \<in> set (refresh_tokens s)" "rt_user_id r = tgt" "rt_token_hash r = Some h"
      using q(3) by (auto simp: hashes_of_def)
    have "at_most_one (\<lambda>q. rt_token_hash q = Some h) (refresh_tokens s)"
      using assms(1) by (simp add: tokens_keyed_def hashes_unique_def)
    then have "q = r"
      by (rule at_most_oneD) (use q r in simp_all)
    then show ?thesis
      by (simp add: r)
  qed
  have "shut_row tgt (hashes_of tgt s) q"
    if q: "q \<in> set (update_where (\<lambda>r. rt_user_id r = tgt \<and> rt_active r) (rt_revoke now) (refresh_tokens s))" for q
  proof -
    obtain r where r: "r \<in> set (refresh_tokens s)" "rt_user_id q = rt_user_id r" "rt_token_hash q = rt_token_hash r"
      "rt_active q \<longrightarrow> rt_user_id r \<noteq> tgt"
      using q unfolding set_update_where by (auto split: if_splits)
    have "rt_token_hash r \<in> Some ` hashes_of tgt s" if "rt_user_id r = tgt"
      using assms(2) r(1) that by (cases "rt_token_hash r") (auto simp: all_hashed_def hashes_of_def)
    then show ?thesis
      using owner [OF r(1)] r(2-4) by (auto simp: shut_row_def)
  qed
  then show ?thesis
    using assms(1,3) tokens_keyed_revoke [OF assms(1)] by (auto simp: shut_out_def after_cut_def)
qed

section \<open>An exchange that has checked the account\<close>

text \<open>After three calls (client, code, user) all that is left of a code exchange is the issuing.\<close>

lemma advance_checked:
  assumes "codes_keyed s" "exchange_code oe dr ctx req s = (Inr ts, s0)"
  obtains row :: authorization_code_row and u where "ts_user_id ts = Some (u_id u)"
    "advance 3 (exchange_code_flow oe dr ctx req) s = (issue_for_flow oe dr ctx (u_id u) (cr_client_id req) (ac_scope row)
       (ac_nonce row) (ac_auth_methods row) (user_email_pair u),
      after_consume (code_hash_of (oe_digest oe) (cr_code req)) (xd_consume_at dr) s)"
    "issue_for oe dr ctx (u_id u) (cr_client_id req) (ac_scope row) (ac_nonce row) (ac_auth_methods row)
      (user_email_pair u) (after_consume (code_hash_of (oe_digest oe) (cr_code req)) (xd_consume_at dr) s) = (Inr ts, s0)"
proof -
  obtain c where c: "fst (authenticate_request (oe_password oe) (cr_client_id req) (cr_client_secret req)
        (cr_client_secret_channel req) s) = Inr c" and redeem: "redeem_code oe dr ctx req s = (Inr ts, s0)"
    using assms(2) by (auto simp: exchange_code_eq split: sum.splits)
  obtain row u where row: "row \<in> set (auth_codes s)" "redeems oe (xd_consume_at dr) req row"
    and u: "get_user (ac_user_id row) s = Inr u" "user_active u"
    and issue: "issue_for oe dr ctx (u_id u) (cr_client_id req) (ac_scope row) (ac_nonce row) (ac_auth_methods row)
      (user_email_pair u) (after_consume (code_hash_of (oe_digest oe) (cr_code req)) (xd_consume_at dr) s) = (Inr ts, s0)"
    using redeem_code_Inr [OF assms(1) redeem] by metis
  have "consume (code_hash_of (oe_digest oe) (cr_code req)) (xd_consume_at dr) s = (Inr (row\<lparr>ac_consumed := True\<rparr>),
      after_consume (code_hash_of (oe_digest oe) (cr_code req)) (xd_consume_at dr) s)"
    using row(2) unfolding after_consume_def by (intro consume_live [OF assms(1) row(1)]) (simp add: redeems_def)
  then have "advance 3 (exchange_code_flow oe dr ctx req) s = (issue_for_flow oe dr ctx (u_id u) (cr_client_id req) (ac_scope row)
       (ac_nonce row) (ac_auth_methods row) (user_email_pair u),
      after_consume (code_hash_of (oe_digest oe) (cr_code req)) (xd_consume_at dr) s)"
    using c u row(2)
    by (simp add: exchange_code_flow_def redeem_code_flow_def resolve_user_flow_def or_return_def numeral_3_eq_3
        and_then_assoc bind_code_def verify_pkce_step_def redeems_def user_active_def)
  then show thesis
    using that issue issue_for_Inr [OF issue] by metis
qed

lemma insert_initial_fresh: "insert_initial_refresh_token p s = (Inr u, s') \<Longrightarrow> fresh_row (prep_row p) (refresh_tokens s)"
  by (simp add: insert_initial_refresh_token_def protocol_tx_def results insert_prepared_Inr_iff)

lemma insert_fresh:
  "fresh_row (prep_row p) (refresh_tokens s) \<Longrightarrow>
    insert_initial_refresh_token p s = (Inr (), s\<lparr>refresh_tokens := refresh_tokens s @ [prep_row p]\<rparr>)"
  by (simp add: insert_initial_refresh_token_def protocol_tx_def with_tx_Inr_iff insert_prepared_Inr_iff)

lemma issued_refresh_row_unique: "issued_refresh_row oe dr base r \<Longrightarrow> issued_refresh_row oe dr base q \<Longrightarrow> q = r"
  by (auto simp: issued_refresh_row_def)

lemma issue_for_elsewhere:
  assumes "issue_for oe dr ctx uid cid scope nonce methods email s = (Inr ts, s0)"
    and "signing_keys s' = signing_keys s" "\<And>row. fresh_row row (refresh_tokens s') = fresh_row row (refresh_tokens s)"
  shows "\<exists>r. issued_refresh_row oe dr (new_refresh_row dr ctx uid cid scope methods (xd_token_id dr)) r
    \<and> issue_for oe dr ctx uid cid scope nonce methods email s' = (Inr ts, s'\<lparr>refresh_tokens := refresh_tokens s' @ [r]\<rparr>)
    \<and> ts_refresh_token ts = xd_raw dr"
proof -
  have same: "\<exists>s1. issue_for oe dr ctx uid cid scope nonce methods email s' = (Inr ts, s1)"
    using assms(1) issue_jwt_pair_keys [OF assms(2), of oe dr ctx uid cid scope nonce methods email]
    by (auto simp: issue_for_eq insert_fresh assms(3) split: sum.splits prod.splits
        dest!: insert_initial_fresh)
  then show ?thesis
    by (metis issue_for_Inr)
qed

end
