(* ===== verification/Settings.thy ===== *)
theory Settings
  imports Clients
begin

text \<open>
  Server settings (\<open>repos/server_settings.rs\<close>, the commands S01 to S05) and the tokens and commands of
  dynamic client registration (\<open>repos/client_registration_token.rs\<close>, the commands C08, C14, C15 and
  C22).  The settings table holds one row.
\<close>

section \<open>Server settings\<close>

definition settings_get :: "store \<Rightarrow> store_error + server_settings_row" where
  "settings_get s = ok_or (server_settings s) StoreNotFound"

text \<open>An \<open>UPDATE\<close> of the row, with the check of the row count that the setters share.\<close>

definition update_settings :: "(server_settings_row \<Rightarrow> server_settings_row) \<Rightarrow> unit tx" where
  "update_settings f s =
    (case server_settings s of
       None \<Rightarrow> Inl StoreNotFound
     | Some row \<Rightarrow> Inr ((), s\<lparr>server_settings := Some (f row)\<rparr>))"

definition update_default_lang_within_tx :: "string \<Rightarrow> instant \<Rightarrow> string tx" where
  "update_default_lang_within_tx lang now =
    tx_bind settings_get_within_tx (\<lambda>row.
    tx_bind (update_settings (\<lambda>r. r\<lparr> ss_default_lang := lang, ss_updated_at := now \<rparr>)) (\<lambda>_.
      tx_return (ss_default_lang row)))"

definition update_hibp_mode_within_tx :: "hibp_mode \<Rightarrow> instant \<Rightarrow> hibp_mode tx" where
  "update_hibp_mode_within_tx mode now =
    tx_bind settings_get_within_tx (\<lambda>row.
    tx_bind (update_settings (\<lambda>r. r\<lparr> ss_hibp_mode := mode, ss_updated_at := now \<rparr>)) (\<lambda>_.
      tx_return (ss_hibp_mode row)))"

definition update_idle_session_timeout_within_tx :: "int \<Rightarrow> instant \<Rightarrow> int tx" where
  "update_idle_session_timeout_within_tx secs now =
    tx_bind settings_get_within_tx (\<lambda>row.
    tx_bind (update_settings (\<lambda>r. r\<lparr> ss_idle_session_timeout_secs := secs, ss_updated_at := now \<rparr>)) (\<lambda>_.
      tx_return (ss_idle_session_timeout_secs row)))"

definition update_max_concurrent_sessions_within_tx :: "int \<Rightarrow> instant \<Rightarrow> int tx" where
  "update_max_concurrent_sessions_within_tx cap now =
    tx_bind settings_get_within_tx (\<lambda>row.
    tx_bind (update_settings (\<lambda>r. r\<lparr> ss_max_concurrent_sessions := cap, ss_updated_at := now \<rparr>)) (\<lambda>_.
      tx_return (ss_max_concurrent_sessions row)))"

definition update_metrics_token_hash_within_tx :: "string option \<Rightarrow> instant \<Rightarrow> unit tx" where
  "update_metrics_token_hash_within_tx h now =
    update_settings (\<lambda>r. r\<lparr> ss_metrics_token_hash := h, ss_updated_at := now \<rparr>)"

fun hibp_as_str :: "hibp_mode \<Rightarrow> string" where
  "hibp_as_str HibpOff = ''off''"
| "hibp_as_str HibpWarn = ''warn''"
| "hibp_as_str HibpBlock = ''block''"

definition hibp_parse :: "string \<Rightarrow> hibp_mode option" where
  "hibp_parse t =
    (if t = ''off'' then Some HibpOff else if t = ''warn'' then Some HibpWarn
     else if t = ''block'' then Some HibpBlock else None)"

text \<open>The events of S01 to S04 differ in the name and the rendering of the two values.\<close>

definition change_event :: "string \<Rightarrow> string \<Rightarrow> string \<Rightarrow> sealed_event" where
  "change_event name old new =
    untargeted_event name [(''old'', True), (''new'', True)] [(''old'', old), (''new'', new)]"

definition change_default_lang_body :: "string \<Rightarrow> instant \<Rightarrow> ((string \<times> string) \<times> sealed_event) tx" where
  "change_default_lang_body lang now =
    tx_bind (update_default_lang_within_tx lang now) (\<lambda>old.
      tx_return ((old, lang), change_event ''settings.default_language.changed'' old lang))"

definition change_hibp_mode_body :: "hibp_mode \<Rightarrow> instant \<Rightarrow> ((hibp_mode \<times> hibp_mode) \<times> sealed_event) tx" where
  "change_hibp_mode_body mode now =
    tx_bind (update_hibp_mode_within_tx mode now) (\<lambda>old.
      tx_return ((old, mode), change_event ''settings.hibp_mode.changed'' (hibp_as_str old) (hibp_as_str mode)))"

definition change_idle_session_timeout_body :: "int \<Rightarrow> instant \<Rightarrow> ((int \<times> int) \<times> sealed_event) tx" where
  "change_idle_session_timeout_body secs now =
    tx_bind (update_idle_session_timeout_within_tx secs now) (\<lambda>old.
      tx_return ((old, secs), change_event ''settings.idle_timeout.changed'' (dec_int old) (dec_int secs)))"

definition change_max_concurrent_sessions_body :: "int \<Rightarrow> instant \<Rightarrow> ((int \<times> int) \<times> sealed_event) tx" where
  "change_max_concurrent_sessions_body cap now =
    tx_bind (update_max_concurrent_sessions_within_tx cap now) (\<lambda>old.
      tx_return ((old, cap), change_event ''settings.max_sessions.changed'' (dec_int old) (dec_int cap)))"

definition rotate_metrics_token_body :: "string option \<Rightarrow> instant \<Rightarrow> (unit \<times> sealed_event) tx" where
  "rotate_metrics_token_body h now =
    tx_bind (update_metrics_token_hash_within_tx h now) (\<lambda>_.
      tx_return ((), untargeted_event ''settings.metrics_token.rotated'' [] []))"

definition change_default_lang ::
  "digest_env \<Rightarrow> instant \<Rightarrow> uuid \<Rightarrow> string \<Rightarrow> instant \<Rightarrow> store \<Rightarrow> (store_error + string \<times> string) \<times> store" where
  "change_default_lang cx at admin lang now = class_a cx at (Some admin) (change_default_lang_body lang now)"

definition change_hibp_mode ::
  "digest_env \<Rightarrow> instant \<Rightarrow> uuid \<Rightarrow> hibp_mode \<Rightarrow> instant \<Rightarrow> store \<Rightarrow> (store_error + hibp_mode \<times> hibp_mode) \<times> store" where
  "change_hibp_mode cx at admin mode now = class_a cx at (Some admin) (change_hibp_mode_body mode now)"

definition change_idle_session_timeout ::
  "digest_env \<Rightarrow> instant \<Rightarrow> uuid \<Rightarrow> int \<Rightarrow> instant \<Rightarrow> store \<Rightarrow> (store_error + int \<times> int) \<times> store" where
  "change_idle_session_timeout cx at admin secs now =
    class_a cx at (Some admin) (change_idle_session_timeout_body secs now)"

definition change_max_concurrent_sessions ::
  "digest_env \<Rightarrow> instant \<Rightarrow> uuid \<Rightarrow> int \<Rightarrow> instant \<Rightarrow> store \<Rightarrow> (store_error + int \<times> int) \<times> store" where
  "change_max_concurrent_sessions cx at admin cap now =
    class_a cx at (Some admin) (change_max_concurrent_sessions_body cap now)"

definition rotate_metrics_token ::
  "digest_env \<Rightarrow> instant \<Rightarrow> string option \<Rightarrow> instant \<Rightarrow> store \<Rightarrow> (store_error + unit) \<times> store" where
  "rotate_metrics_token cx at h now = class_a cx at None (rotate_metrics_token_body h now)"

section \<open>Registration tokens\<close>

definition registration_create_within_tx :: "registration_token_row \<Rightarrow> unit tx" where
  "registration_create_within_tx row s =
    (if list_ex (\<lambda>r. rg_id r = rg_id row) (registration_tokens s)
       then Inl (Db ''UNIQUE constraint failed: client_registration_token.id'')
     else if list_ex (\<lambda>r. rg_token_hash r = rg_token_hash row) (registration_tokens s)
       then Inl (Db ''UNIQUE constraint failed: client_registration_token.token_hash'')
     else Inr ((), s\<lparr>registration_tokens := registration_tokens s @ [row]\<rparr>))"

definition registration_list :: "store \<Rightarrow> registration_token_row list" where
  "registration_list s = rev (sort_key rg_created_at (rev (registration_tokens s)))"

definition registration_get :: "uuid \<Rightarrow> store \<Rightarrow> store_error + registration_token_row" where
  "registration_get rid s = ok_or (List.find (\<lambda>r. rg_id r = rid) (registration_tokens s)) StoreNotFound"

definition registration_find_by_hash :: "string \<Rightarrow> store \<Rightarrow> registration_token_row option" where
  "registration_find_by_hash h s = List.find (\<lambda>r. rg_token_hash r = h) (registration_tokens s)"

definition registration_usable :: "instant \<Rightarrow> registration_token_row \<Rightarrow> bool" where
  "registration_usable now row =
    (\<not> rg_revoked_at row \<noteq> None \<and> \<not> (case rg_expires_at row of None \<Rightarrow> False | Some ex \<Rightarrow> now > ex)
     \<and> \<not> (rg_max_uses row > 0 \<and> rg_used_count row \<ge> rg_max_uses row))"

definition registration_consume_within_tx :: "string \<Rightarrow> instant \<Rightarrow> bool tx" where
  "registration_consume_within_tx token_hash now s =
    (case List.find (\<lambda>r. rg_token_hash r = token_hash) (registration_tokens s) of
       None \<Rightarrow> Inr (False, s)
     | Some row \<Rightarrow>
        if \<not> registration_usable now row then Inr (False, s)
        else Inr (True, s\<lparr>registration_tokens := update_where (\<lambda>r. rg_id r = rg_id row)
          (\<lambda>r. r\<lparr> rg_used_count := rg_used_count r + 1, rg_updated_at := now \<rparr>) (registration_tokens s)\<rparr>))"

definition registration_revoke_within_tx :: "uuid \<Rightarrow> instant \<Rightarrow> unit tx" where
  "registration_revoke_within_tx rid now s =
    found_or StoreNotFound (affected (\<lambda>r. rg_id r = rid) (registration_tokens s))
      (s\<lparr>registration_tokens := update_where (\<lambda>r. rg_id r = rid)
        (\<lambda>r. r\<lparr> rg_revoked_at := Some now, rg_updated_at := now \<rparr>) (registration_tokens s)\<rparr>)"

section \<open>C08, C14, C15 and C22\<close>

definition C08_event :: "uuid \<Rightarrow> sealed_event" where
  "C08_event cid = ok_event ''client.dev_secret_set'' [] cid []"

definition C14_event :: "uuid \<Rightarrow> sealed_event" where
  "C14_event rid = ok_event ''client.registration_token.created'' [] rid []"

definition C15_event :: "uuid \<Rightarrow> string \<Rightarrow> sealed_event" where
  "C15_event cid client_name =
    ok_event ''client.dynamic_register'' [(''client_name'', False)] cid [(''client_name'', client_name)]"

definition C22_event :: "uuid \<Rightarrow> sealed_event" where
  "C22_event rid = ok_event ''client.registration_token.revoked'' [] rid []"

definition set_dev_client_secret_body :: "uuid \<Rightarrow> string \<Rightarrow> (unit \<times> sealed_event) tx" where
  "set_dev_client_secret_body tgt new_hash =
    tx_bind (set_dev_secret_hash_within_tx tgt (Some new_hash)) (\<lambda>_. tx_return ((), C08_event tgt))"

definition issue_registration_token_body :: "registration_token_row \<Rightarrow> (unit \<times> sealed_event) tx" where
  "issue_registration_token_body row =
    tx_bind (registration_create_within_tx row) (\<lambda>_. tx_return ((), C14_event (rg_id row)))"

definition register_client_dynamically_body :: "string \<Rightarrow> client_row \<Rightarrow> instant \<Rightarrow> (unit \<times> sealed_event) tx" where
  "register_client_dynamically_body token_hash row now =
    tx_bind (registration_consume_within_tx token_hash now) (\<lambda>consumed.
    tx_bind (tx_guard consumed StoreNotFound) (\<lambda>_.
    tx_bind (client_create_within_tx row) (\<lambda>_.
    tx_bind (set_registered_via_within_tx (c_id row) (c_registered_via row) now) (\<lambda>_.
      tx_return ((), C15_event (c_id row) (c_name row))))))"

definition revoke_registration_token_body :: "uuid \<Rightarrow> instant \<Rightarrow> (unit \<times> sealed_event) tx" where
  "revoke_registration_token_body tgt now =
    tx_bind (registration_revoke_within_tx tgt now) (\<lambda>_. tx_return ((), C22_event tgt))"

definition set_dev_client_secret ::
  "digest_env \<Rightarrow> instant \<Rightarrow> uuid \<Rightarrow> uuid \<Rightarrow> string \<Rightarrow> store \<Rightarrow> (store_error + unit) \<times> store" where
  "set_dev_client_secret cx at admin tgt new_hash = class_a cx at (Some admin) (set_dev_client_secret_body tgt new_hash)"

definition issue_registration_token ::
  "digest_env \<Rightarrow> instant \<Rightarrow> registration_token_row \<Rightarrow> store \<Rightarrow> (store_error + unit) \<times> store" where
  "issue_registration_token cx at row = class_a cx at None (issue_registration_token_body row)"

definition register_client_dynamically ::
  "digest_env \<Rightarrow> instant \<Rightarrow> string \<Rightarrow> client_row \<Rightarrow> instant \<Rightarrow> store \<Rightarrow> (store_error + unit) \<times> store" where
  "register_client_dynamically cx at token_hash row now =
    class_a cx at None (register_client_dynamically_body token_hash row now)"

definition revoke_registration_token ::
  "digest_env \<Rightarrow> instant \<Rightarrow> uuid \<Rightarrow> instant \<Rightarrow> store \<Rightarrow> (store_error + unit) \<times> store" where
  "revoke_registration_token cx at tgt now = class_a cx at None (revoke_registration_token_body tgt now)"

section \<open>Every body leaves the audit log to the runner\<close>

lemma keeps_update_settings [frame]:
  "(\<And>s x. part (s\<lparr>server_settings := x\<rparr>) = part s) \<Longrightarrow> keeps part (update_settings f)"
  by (auto simp: keeps_def update_settings_def split: option.splits)

lemma keeps_registration [frame]:
  "(\<And>s x. part (s\<lparr>registration_tokens := x\<rparr>) = part s) \<Longrightarrow> keeps part (registration_create_within_tx row)"
  "(\<And>s x. part (s\<lparr>registration_tokens := x\<rparr>) = part s) \<Longrightarrow> keeps part (registration_consume_within_tx h now)"
  "(\<And>s x. part (s\<lparr>registration_tokens := x\<rparr>) = part s) \<Longrightarrow> keeps part (registration_revoke_within_tx rid now)"
  by (auto simp: keeps_def registration_create_within_tx_def registration_consume_within_tx_def
      registration_revoke_within_tx_def results split: option.splits if_splits)

lemmas settings_setters = update_default_lang_within_tx_def update_hibp_mode_within_tx_def
  update_idle_session_timeout_within_tx_def update_max_concurrent_sessions_within_tx_def
  update_metrics_token_hash_within_tx_def

interpretation s01: command_body "change_default_lang_body lang now" for lang now
  unfolding change_default_lang_body_def settings_setters by unfold_locales (intro frame; simp)

interpretation s02: command_body "change_hibp_mode_body mode now" for mode now
  unfolding change_hibp_mode_body_def settings_setters by unfold_locales (intro frame; simp)

interpretation s03: command_body "change_idle_session_timeout_body secs now" for secs now
  unfolding change_idle_session_timeout_body_def settings_setters by unfold_locales (intro frame; simp)

interpretation s04: command_body "change_max_concurrent_sessions_body cap now" for cap now
  unfolding change_max_concurrent_sessions_body_def settings_setters by unfold_locales (intro frame; simp)

interpretation s05: command_body "rotate_metrics_token_body h now" for h now
  unfolding rotate_metrics_token_body_def settings_setters by unfold_locales (intro frame; simp)

interpretation c08: command_body "set_dev_client_secret_body tgt h" for tgt h
  unfolding set_dev_client_secret_body_def client_setters by unfold_locales (intro frame; simp)

interpretation c14: command_body "issue_registration_token_body row" for row
  unfolding issue_registration_token_body_def by unfold_locales (intro frame; simp)

interpretation c15: command_body "register_client_dynamically_body h row now" for h row now
  unfolding register_client_dynamically_body_def client_setters by unfold_locales (intro frame; simp)

interpretation c22: command_body "revoke_registration_token_body tgt now" for tgt now
  unfolding revoke_registration_token_body_def by unfold_locales (intro frame; simp)

end
