(* ===== verification/Self_Service.thy ===== *)
theory Self_Service
  imports Recovery Oidc_Tokens
begin

text \<open>
  What a signed-in user does to the own account: the second factors (U12 to U17), the sessions (U18 and
  U19) and the consents (U20 and U21) of \<open>commands.rs\<close>, and the repository \<open>repos/user_consent.rs\<close>.
\<close>

section \<open>Second factors\<close>

datatype added_factor = AddedTotp | AddedRecoveryCodes | AddedWebauthn

fun added_as_str :: "added_factor \<Rightarrow> string" where
  "added_as_str AddedTotp = ''totp''"
| "added_as_str AddedRecoveryCodes = ''recovery_codes''"
| "added_as_str AddedWebauthn = ''webauthn''"

datatype removed_factor = RemovedTotp | RemovedWebauthn

fun removed_as_str :: "removed_factor \<Rightarrow> string" where
  "removed_as_str RemovedTotp = ''totp''"
| "removed_as_str RemovedWebauthn = ''webauthn''"

definition factor_added_event :: "uuid \<Rightarrow> added_factor \<Rightarrow> sealed_event" where
  "factor_added_event uid meth =
    ok_event ''auth.mfa.factor_added'' [(''method'', False)] uid [(''method'', added_as_str meth)]"

definition factor_removed_event :: "uuid \<Rightarrow> removed_factor \<Rightarrow> sealed_event" where
  "factor_removed_event uid meth =
    ok_event ''auth.mfa.factor_removed'' [(''method'', False)] uid [(''method'', removed_as_str meth)]"

definition U17_event :: "uuid \<Rightarrow> sealed_event" where
  "U17_event uid =
    ok_event ''auth.mfa.factor_renamed'' [(''method'', False)] uid [(''method'', removed_as_str RemovedWebauthn)]"

definition update_nickname_within_tx :: "uuid \<Rightarrow> uuid \<Rightarrow> string \<Rightarrow> unit tx" where
  "update_nickname_within_tx credential_id uid new_nickname s =
    (let p = (\<lambda>c. wc_id c = credential_id \<and> wc_user_id c = uid) in
     found_or StoreNotFound (affected p (webauthn_credentials s))
       (s\<lparr>webauthn_credentials := update_where p (\<lambda>c. c\<lparr> wc_nickname := new_nickname \<rparr>) (webauthn_credentials s)\<rparr>))"

definition confirm_totp_enrollment_body :: "uuid \<Rightarrow> string \<Rightarrow> int \<Rightarrow> instant \<Rightarrow> (unit \<times> sealed_event) tx" where
  "confirm_totp_enrollment_body uid sealed last_used_step now =
    tx_bind (confirm_with_recovery_within_tx uid sealed last_used_step now) (\<lambda>_.
      tx_return ((), factor_added_event uid AddedTotp))"

definition regenerate_recovery_codes_body :: "uuid \<Rightarrow> string \<Rightarrow> (unit \<times> sealed_event) tx" where
  "regenerate_recovery_codes_body uid sealed =
    tx_bind (set_recovery_codes_within_tx uid sealed) (\<lambda>_. tx_return ((), factor_added_event uid AddedRecoveryCodes))"

definition register_passkey_body :: "user_webauthn_credential_row \<Rightarrow> (unit \<times> sealed_event) tx" where
  "register_passkey_body row =
    tx_bind (webauthn_create_within_tx row) (\<lambda>_. tx_return ((), factor_added_event (wc_user_id row) AddedWebauthn))"

definition disable_totp_body :: "uuid \<Rightarrow> (unit \<times> sealed_event) tx" where
  "disable_totp_body uid =
    tx_bind (totp_delete_within_tx uid) (\<lambda>removed.
    tx_bind (tx_guard removed StoreNotFound) (\<lambda>_. tx_return ((), factor_removed_event uid RemovedTotp)))"

definition delete_passkey_body :: "uuid \<Rightarrow> uuid \<Rightarrow> (unit \<times> sealed_event) tx" where
  "delete_passkey_body uid credential_id =
    tx_bind (webauthn_delete_within_tx credential_id uid) (\<lambda>_. tx_return ((), factor_removed_event uid RemovedWebauthn))"

definition rename_passkey_body :: "uuid \<Rightarrow> uuid \<Rightarrow> string \<Rightarrow> (unit \<times> sealed_event) tx" where
  "rename_passkey_body uid credential_id new_nickname =
    tx_bind (update_nickname_within_tx credential_id uid new_nickname) (\<lambda>_. tx_return ((), U17_event uid))"

definition confirm_totp_enrollment ::
  "digest_env \<Rightarrow> instant \<Rightarrow> uuid \<Rightarrow> string \<Rightarrow> int \<Rightarrow> instant \<Rightarrow> store \<Rightarrow> (store_error + unit) \<times> store" where
  "confirm_totp_enrollment cx at uid sealed last_used_step now =
    class_a cx at (Some uid) (confirm_totp_enrollment_body uid sealed last_used_step now)"

definition regenerate_recovery_codes :: "digest_env \<Rightarrow> instant \<Rightarrow> uuid \<Rightarrow> string \<Rightarrow> store \<Rightarrow> (store_error + unit) \<times> store" where
  "regenerate_recovery_codes cx at uid sealed = class_a cx at (Some uid) (regenerate_recovery_codes_body uid sealed)"

definition register_passkey ::
  "digest_env \<Rightarrow> instant \<Rightarrow> user_webauthn_credential_row \<Rightarrow> store \<Rightarrow> (store_error + unit) \<times> store" where
  "register_passkey cx at row = class_a cx at (Some (wc_user_id row)) (register_passkey_body row)"

definition disable_totp :: "digest_env \<Rightarrow> instant \<Rightarrow> uuid \<Rightarrow> store \<Rightarrow> (store_error + unit) \<times> store" where
  "disable_totp cx at uid = class_a cx at (Some uid) (disable_totp_body uid)"

definition delete_passkey :: "digest_env \<Rightarrow> instant \<Rightarrow> uuid \<Rightarrow> uuid \<Rightarrow> store \<Rightarrow> (store_error + unit) \<times> store" where
  "delete_passkey cx at uid credential_id = class_a cx at (Some uid) (delete_passkey_body uid credential_id)"

definition rename_passkey :: "digest_env \<Rightarrow> instant \<Rightarrow> uuid \<Rightarrow> uuid \<Rightarrow> string \<Rightarrow> store \<Rightarrow> (store_error + unit) \<times> store" where
  "rename_passkey cx at uid credential_id new_nickname =
    class_a cx at (Some uid) (rename_passkey_body uid credential_id new_nickname)"

section \<open>Sessions\<close>

datatype session_revoke_trigger = IdleTimeout | SelfSignout | SelfService

fun session_trigger_as_str :: "session_revoke_trigger \<Rightarrow> string" where
  "session_trigger_as_str IdleTimeout = ''idle_timeout''"
| "session_trigger_as_str SelfSignout = ''self_signout''"
| "session_trigger_as_str SelfService = ''self_service''"

definition U18_event :: "uuid \<Rightarrow> session_revoke_trigger \<Rightarrow> sealed_event" where
  "U18_event uid trig =
    ok_event ''auth.session.revoked'' [(''trigger'', True)] uid [(''trigger'', session_trigger_as_str trig)]"

definition revoke_session_body :: "uuid \<Rightarrow> uuid \<Rightarrow> session_revoke_trigger \<Rightarrow> instant \<Rightarrow> (unit \<times> sealed_event) tx" where
  "revoke_session_body uid sid trig now =
    tx_bind (session_revoke_within_tx sid now) (\<lambda>_. tx_return ((), U18_event uid trig))"

definition revoke_session ::
  "digest_env \<Rightarrow> instant \<Rightarrow> uuid \<Rightarrow> uuid \<Rightarrow> uuid \<Rightarrow> session_revoke_trigger \<Rightarrow> instant \<Rightarrow> store
    \<Rightarrow> (store_error + unit) \<times> store" where
  "revoke_session cx at actor uid sid trig now = class_a cx at (Some actor) (revoke_session_body uid sid trig now)"

definition revoke_session_idle_timeout ::
  "digest_env \<Rightarrow> instant \<Rightarrow> uuid \<Rightarrow> uuid \<Rightarrow> instant \<Rightarrow> store \<Rightarrow> (store_error + unit) \<times> store" where
  "revoke_session_idle_timeout cx at uid sid now = class_a cx at None (revoke_session_body uid sid IdleTimeout now)"

datatype sessions_revoke_trigger = RpInitiatedLogout | OwnOtherSessions

fun sessions_trigger_as_str :: "sessions_revoke_trigger \<Rightarrow> string" where
  "sessions_trigger_as_str RpInitiatedLogout = ''rp_initiated_logout''"
| "sessions_trigger_as_str OwnOtherSessions = ''self_service''"

datatype sessions_identified_by = BySession | ByIdTokenHint

fun identified_as_str :: "sessions_identified_by \<Rightarrow> string" where
  "identified_as_str BySession = ''session''"
| "identified_as_str ByIdTokenHint = ''id_token_hint''"

definition U19_event :: "uuid \<Rightarrow> sessions_revoke_trigger \<Rightarrow> nat \<Rightarrow> sessions_identified_by \<Rightarrow> sealed_event" where
  "U19_event uid trig cnt identified_by =
    ok_event ''auth.sessions.revoked'' [(''trigger'', True), (''count'', True), (''identified_by'', True)] uid
      [(''trigger'', sessions_trigger_as_str trig), (''count'', dec cnt), (''identified_by'', identified_as_str identified_by)]"

definition revoke_all_sessions_body ::
  "uuid \<Rightarrow> sessions_revoke_trigger \<Rightarrow> sessions_identified_by \<Rightarrow> instant \<Rightarrow> (nat \<times> sealed_event) tx" where
  "revoke_all_sessions_body uid trig identified_by now =
    tx_bind (session_revoke_all_for_user_within_tx uid now) (\<lambda>cnt.
      tx_return (cnt, U19_event uid trig cnt identified_by))"

definition revoke_all_sessions_for_user_as_user ::
  "digest_env \<Rightarrow> instant \<Rightarrow> uuid \<Rightarrow> sessions_revoke_trigger \<Rightarrow> instant \<Rightarrow> store \<Rightarrow> (store_error + nat) \<times> store" where
  "revoke_all_sessions_for_user_as_user cx at uid trig now =
    class_a cx at (Some uid) (revoke_all_sessions_body uid trig BySession now)"

definition revoke_all_sessions_for_user_unattributed ::
  "digest_env \<Rightarrow> instant \<Rightarrow> uuid \<Rightarrow> sessions_revoke_trigger \<Rightarrow> instant \<Rightarrow> store \<Rightarrow> (store_error + nat) \<times> store" where
  "revoke_all_sessions_for_user_unattributed cx at uid trig now =
    class_a cx at None (revoke_all_sessions_body uid trig ByIdTokenHint now)"

definition revoke_other_sessions_body ::
  "uuid \<Rightarrow> uuid \<Rightarrow> sessions_revoke_trigger \<Rightarrow> instant \<Rightarrow> (nat \<times> sealed_event) tx" where
  "revoke_other_sessions_body uid keep trig now =
    tx_bind (session_revoke_all_for_user_except_within_tx uid keep now) (\<lambda>cnt.
      tx_return (cnt, U19_event uid trig cnt BySession))"

definition revoke_other_sessions_for_user ::
  "digest_env \<Rightarrow> instant \<Rightarrow> uuid \<Rightarrow> uuid \<Rightarrow> sessions_revoke_trigger \<Rightarrow> instant \<Rightarrow> store \<Rightarrow> (store_error + nat) \<times> store" where
  "revoke_other_sessions_for_user cx at uid keep trig now =
    class_a cx at (Some uid) (revoke_other_sessions_body uid keep trig now)"

section \<open>Consents\<close>

definition consent_of :: "uuid \<Rightarrow> uuid \<Rightarrow> user_consent_row \<Rightarrow> bool" where
  "consent_of uid cid r = (uc_user_id r = uid \<and> uc_client_id r = cid)"

definition consent_get :: "uuid \<Rightarrow> uuid \<Rightarrow> store \<Rightarrow> user_consent_row option" where
  "consent_get uid cid s = List.find (consent_of uid cid) (user_consents s)"

definition revoke_with_tokens_within_tx :: "uuid \<Rightarrow> uuid \<Rightarrow> unit tx" where
  "revoke_with_tokens_within_tx uid cid s =
    (let s' = s\<lparr>refresh_tokens := delete_where (\<lambda>r. rt_user_id r = uid \<and> rt_client_id r = cid) (refresh_tokens s)\<rparr> in
     found_or StoreNotFound (affected (consent_of uid cid) (user_consents s))
       (s'\<lparr>user_consents := delete_where (consent_of uid cid) (user_consents s)\<rparr>))"

definition consent_touch_last_used :: "uuid \<Rightarrow> uuid \<Rightarrow> instant \<Rightarrow> unit tx" where
  "consent_touch_last_used uid cid now =
    tx_modify (\<lambda>s. s\<lparr>user_consents :=
      update_where (consent_of uid cid) (\<lambda>r. r\<lparr> uc_last_used_at := Some now \<rparr>) (user_consents s)\<rparr>)"

datatype consent_grant_outcome = ConsentGranted | ConsentUpdated

fun consent_outcome_as_str :: "consent_grant_outcome \<Rightarrow> string" where
  "consent_outcome_as_str ConsentGranted = ''granted''"
| "consent_outcome_as_str ConsentUpdated = ''updated''"

definition consent_upsert_within_tx :: "uuid \<Rightarrow> uuid \<Rightarrow> string \<Rightarrow> instant \<Rightarrow> consent_grant_outcome tx" where
  "consent_upsert_within_tx uid cid granted_scopes now s =
    (if list_ex (consent_of uid cid) (user_consents s)
     then Inr (ConsentUpdated, s\<lparr>user_consents := update_where (consent_of uid cid)
        (\<lambda>r. r\<lparr> uc_granted_scopes := granted_scopes, uc_granted_at := now \<rparr>) (user_consents s)\<rparr>)
     else Inr (ConsentGranted, s\<lparr>user_consents := user_consents s @
        [\<lparr> uc_user_id = uid, uc_client_id = cid, uc_granted_scopes = granted_scopes, uc_granted_at = now,
           uc_last_used_at = None \<rparr>]\<rparr>))"

definition consent_revoke :: "uuid \<Rightarrow> uuid \<Rightarrow> unit tx" where
  "consent_revoke uid cid = tx_modify (\<lambda>s. s\<lparr>user_consents := delete_where (consent_of uid cid) (user_consents s)\<rparr>)"

definition covers :: "string \<Rightarrow> string \<Rightarrow> bool" where
  "covers granted_scopes requested_scopes =
    list_all (\<lambda>sc. sc \<in> set (split_whitespace granted_scopes)) (split_whitespace requested_scopes)"

definition U20_event :: "uuid \<Rightarrow> sealed_event" where
  "U20_event cid = ok_event ''auth.consent.revoked'' [] cid []"

definition revoke_consent_body :: "uuid \<Rightarrow> uuid \<Rightarrow> (unit \<times> sealed_event) tx" where
  "revoke_consent_body uid cid =
    tx_bind (revoke_with_tokens_within_tx uid cid) (\<lambda>_. tx_return ((), U20_event cid))"

definition revoke_consent :: "digest_env \<Rightarrow> instant \<Rightarrow> uuid \<Rightarrow> uuid \<Rightarrow> store \<Rightarrow> (store_error + unit) \<times> store" where
  "revoke_consent cx at uid cid = class_a cx at (Some uid) (revoke_consent_body uid cid)"

definition U21_event :: "uuid \<Rightarrow> consent_grant_outcome \<Rightarrow> sealed_event" where
  "U21_event cid change =
    ok_event ''auth.consent.granted'' [(''change'', True)] cid [(''change'', consent_outcome_as_str change)]"

definition grant_consent_body :: "uuid \<Rightarrow> uuid \<Rightarrow> string \<Rightarrow> instant \<Rightarrow> (consent_grant_outcome \<times> sealed_event) tx" where
  "grant_consent_body uid cid granted_scopes now =
    tx_bind (consent_upsert_within_tx uid cid granted_scopes now) (\<lambda>change. tx_return (change, U21_event cid change))"

definition grant_consent ::
  "digest_env \<Rightarrow> instant \<Rightarrow> uuid \<Rightarrow> uuid \<Rightarrow> string \<Rightarrow> instant \<Rightarrow> store \<Rightarrow> (store_error + consent_grant_outcome) \<times> store" where
  "grant_consent cx at uid cid granted_scopes now = class_a cx at (Some uid) (grant_consent_body uid cid granted_scopes now)"

section \<open>Every body leaves the audit log to the runner\<close>

lemma keeps_consent [frame]:
  "(\<And>s x. part (s\<lparr>user_consents := x\<rparr>) = part s) \<Longrightarrow> keeps part (consent_upsert_within_tx uid cid sc now)"
  "(\<And>s x. part (s\<lparr>user_consents := x\<rparr>) = part s) \<Longrightarrow> (\<And>s x. part (s\<lparr>refresh_tokens := x\<rparr>) = part s) \<Longrightarrow>
    keeps part (revoke_with_tokens_within_tx uid cid)"
  by (auto simp: keeps_def consent_upsert_within_tx_def revoke_with_tokens_within_tx_def results Let_def split: if_splits)

lemma keeps_webauthn_create [frame]:
  "(\<And>s x. part (s\<lparr>webauthn_credentials := x\<rparr>) = part s) \<Longrightarrow> keeps part (webauthn_create_within_tx row)"
  by (auto simp: keeps_def webauthn_create_within_tx_def split: if_splits)

lemma keeps_nickname [frame]:
  "(\<And>s x. part (s\<lparr>webauthn_credentials := x\<rparr>) = part s) \<Longrightarrow> keeps part (update_nickname_within_tx c u n)"
  by (auto simp: keeps_def update_nickname_within_tx_def results Let_def)

interpretation u12: command_body "confirm_totp_enrollment_body uid sealed step now" for uid sealed step now
  unfolding confirm_totp_enrollment_body_def confirm_with_recovery_within_tx_def by unfold_locales (intro frame; simp)

interpretation u13: command_body "disable_totp_body uid" for uid
  unfolding disable_totp_body_def by unfold_locales (intro frame; simp)

interpretation u14: command_body "regenerate_recovery_codes_body uid sealed" for uid sealed
  unfolding regenerate_recovery_codes_body_def set_recovery_codes_within_tx_def by unfold_locales (intro frame; simp)

interpretation u15: command_body "register_passkey_body row" for row
  unfolding register_passkey_body_def by unfold_locales (intro frame; simp)

interpretation u16: command_body "delete_passkey_body uid credential_id" for uid credential_id
  unfolding delete_passkey_body_def by unfold_locales (intro frame; simp)

interpretation u17: command_body "rename_passkey_body uid credential_id nick" for uid credential_id nick
  unfolding rename_passkey_body_def by unfold_locales (intro frame; simp)

interpretation u18: command_body "revoke_session_body uid sid trig now" for uid sid trig now
  unfolding revoke_session_body_def session_ops by unfold_locales (intro frame; simp)

interpretation u19: command_body "revoke_all_sessions_body uid trig by now" for uid trig "by" now
  unfolding revoke_all_sessions_body_def session_ops by unfold_locales (intro frame; simp)

interpretation u19_others: command_body "revoke_other_sessions_body uid keep trig now" for uid keep trig now
  unfolding revoke_other_sessions_body_def session_ops by unfold_locales (intro frame; simp)

interpretation u20: command_body "revoke_consent_body uid cid" for uid cid
  unfolding revoke_consent_body_def by unfold_locales (intro frame; simp)

interpretation u21: command_body "grant_consent_body uid cid sc now" for uid cid sc now
  unfolding grant_consent_body_def by unfold_locales (intro frame; simp)

section \<open>Effects\<close>

lemma covers_iff: "covers granted requested \<longleftrightarrow> set (split_whitespace requested) \<subseteq> set (split_whitespace granted)"
  by (auto simp: covers_def list_all_iff)

lemma find_append_one: "List.find P (xs @ [y]) = (if list_ex P xs then List.find P xs else if P y then Some y else None)"
  by (induction xs) auto

lemma grant_consent_body_Inr:
  assumes "grant_consent_body uid cid sc now s = Inr ((change, ev), t)"
  shows "(\<exists>r. consent_get uid cid t = Some r \<and> uc_granted_scopes r = sc \<and> uc_granted_at r = now)
    \<and> (change = ConsentUpdated \<longleftrightarrow> consent_get uid cid s \<noteq> None)"
proof (cases "consent_get uid cid s")
  case None
  then have "\<not> list_ex (consent_of uid cid) (user_consents s)"
    by (auto simp: consent_get_def find_None_iff list_ex_iff)
  then show ?thesis
    using assms None
    by (auto simp: grant_consent_body_def results consent_upsert_within_tx_def consent_get_def consent_of_def
        find_append_one)
next
  case (Some r)
  then have "list_ex (consent_of uid cid) (user_consents s)" "consent_of uid cid r"
    using find_Some_in [of "consent_of uid cid" "user_consents s" r] by (auto simp: consent_get_def list_ex_iff)
  then show ?thesis
    using assms Some
    by (auto simp: grant_consent_body_def results consent_upsert_within_tx_def consent_get_def consent_of_def find_update_where)
qed

end
