(* ===== verification/Setup.thy ===== *)
theory Setup
  imports Signing_Keys Passwords Jwt
begin

text \<open>
  First-run setup: \<open>sui-id-core/src/setup.rs\<close>, \<open>sui-id-core/src/security.rs\<close>, the repository
  \<open>repos/state.rs\<close> and the command S10 of \<open>commands.rs\<close>.  The random values of one attempt are the
  record \<open>setup_draws\<close>; the operating system's generator is a stream of buffers.
\<close>

section \<open>Security levels and system state\<close>

datatype security_level = Standard | Development

fun password_min_len :: "security_level \<Rightarrow> nat" where
  "password_min_len Standard = 12"
| "password_min_len Development = 8"

definition META_KEY_INITIALIZED :: string where
  "META_KEY_INITIALIZED = ''initialized''"

definition is_initialized :: "store \<Rightarrow> bool" where
  "is_initialized s = (sui_meta s META_KEY_INITIALIZED = Some ''true'')"

definition is_initialized_within_tx :: "bool tx" where
  "is_initialized_within_tx = tx_get (\<lambda>s. sui_meta s META_KEY_INITIALIZED = Some ''true'')"

definition mark_initialized_within_tx :: "unit tx" where
  "mark_initialized_within_tx = tx_modify (\<lambda>s. s\<lparr>sui_meta := (sui_meta s)(META_KEY_INITIALIZED \<mapsto> ''true'')\<rparr>)"

definition user_count :: "store \<Rightarrow> int" where
  "user_count s = int (length (users s))"

section \<open>S10: completing the setup\<close>

datatype setup_authorized_by = SetupToken | Filesystem

fun setup_authorized_as_str :: "setup_authorized_by \<Rightarrow> string" where
  "setup_authorized_as_str SetupToken = ''setup_token''"
| "setup_authorized_as_str Filesystem = ''filesystem''"

definition S10_event :: "uuid \<Rightarrow> setup_authorized_by \<Rightarrow> sealed_event" where
  "S10_event uid authorized_by =
    ok_event ''admin.setup.completed'' [(''authorized_by'', True)] uid
      [(''authorized_by'', setup_authorized_as_str authorized_by)]"

record initial_signing_key_material =
  im_id :: uuid
  im_algorithm :: string
  im_private_key_sealed :: string
  im_public_key :: string

definition bootstrap_key :: "initial_signing_key_material \<Rightarrow> instant \<Rightarrow> unit tx" where
  "bootstrap_key k now =
    tx_bind has_active_within_tx (\<lambda>active.
      if \<not> active
      then insert_sealed_on_conn (im_id k) (im_algorithm k) (im_private_key_sealed k) (im_public_key k) True now
      else tx_return ())"

definition complete_initial_setup_body ::
  "(string \<Rightarrow> string) \<Rightarrow> user_row \<Rightarrow> credential_row \<Rightarrow> initial_signing_key_material \<Rightarrow> setup_authorized_by \<Rightarrow> instant
    \<Rightarrow> (unit \<times> sealed_event) tx" where
  "complete_initial_setup_body lower user cred signing_key authorized_by now =
    tx_bind is_initialized_within_tx (\<lambda>initialized.
    tx_bind (tx_guard (\<not> initialized) StoreAlreadyInitialized) (\<lambda>_.
    tx_bind (create_within_tx lower user) (\<lambda>_.
    tx_bind (credential_upsert_within_tx cred) (\<lambda>_.
    tx_bind (bootstrap_key signing_key now) (\<lambda>_.
    tx_bind mark_initialized_within_tx (\<lambda>_.
      tx_return ((), S10_event (u_id user) authorized_by)))))))"

definition complete_initial_setup ::
  "digest_env \<Rightarrow> instant \<Rightarrow> (string \<Rightarrow> string) \<Rightarrow> user_row \<Rightarrow> credential_row \<Rightarrow> initial_signing_key_material
    \<Rightarrow> setup_authorized_by \<Rightarrow> instant \<Rightarrow> store \<Rightarrow> (store_error + unit) \<times> store" where
  "complete_initial_setup cx at lower user cred signing_key authorized_by now =
    class_a cx at None (complete_initial_setup_body lower user cred signing_key authorized_by now)"

section \<open>The two entries of the core crate\<close>

record setup_env =
  se_digest :: digest_env
  se_aead :: aead_env
  se_jwt :: jwt_env
  se_password :: password_env
  se_lower :: "string \<Rightarrow> string"

record setup_draws =
  sd_now :: instant
  sd_audit_at :: instant
  sd_user_id :: uuid
  sd_user_uuid :: uuid
  sd_salt :: string
  sd_secret :: "string option"
  sd_key_id :: uuid
  sd_nonce :: string

record created_initial_admin =
  ca_user_id :: uuid
  ca_username :: string

definition given_email :: "string option \<Rightarrow> string option" where
  "given_email email =
    (case map_option str_trim email of None \<Rightarrow> None | Some e \<Rightarrow> if e = [] then None else Some e)"

definition initial_admin_row ::
  "(string \<Rightarrow> string) \<Rightarrow> setup_draws \<Rightarrow> string \<Rightarrow> string option \<Rightarrow> string option \<Rightarrow> user_row" where
  "initial_admin_row lower dr username display_name email =
    \<lparr> u_id = sd_user_id dr, u_username = username, u_display_name = display_name, u_email = given_email email,
      u_email_normalized = map_option (normalize_email lower) (given_email email), u_email_verified_at = None,
      u_preferred_lang = None, u_is_admin = True, u_role = Admin, u_is_disabled = False, u_is_deleted = False,
      u_last_login_at = None, u_user_uuid = sd_user_uuid dr, u_created_at = sd_now dr, u_updated_at = sd_now dr,
      u_failed_login_count = 0, u_mfa_failure_count = 0, u_locked_until = None, u_source = Local,
      u_external_stable_id = None \<rparr>"

definition setup_error :: "store_error \<Rightarrow> core_error" where
  "setup_error e =
    (if e = StoreAlreadyInitialized then AlreadyInitialized
     else if e = StoreConflict then Conflict ''username already in use''
     else Store e)"

definition create_initial_admin_inner ::
  "setup_env \<Rightarrow> setup_draws \<Rightarrow> string \<Rightarrow> string \<Rightarrow> string option \<Rightarrow> string option \<Rightarrow> setup_authorized_by \<Rightarrow> store
    \<Rightarrow> (core_error + created_initial_admin) \<times> store" where
  "create_initial_admin_inner se dr username password display_name email authorized_by s =
    (if str_trim username = [] then (Inl (BadRequest ''username must not be empty''), s)
     else (case check_password_policy password (password_min_len Standard) of
       Inl e \<Rightarrow> (Inl e, s)
     | Inr _ \<Rightarrow>
    (case hash_password (se_password se) (sd_salt dr) password of
       Inl e \<Rightarrow> (Inl e, s)
     | Inr h \<Rightarrow>
    (case sd_secret dr of
       None \<Rightarrow> (Inl Internal, s)
     | Some secret \<Rightarrow>
    (case seal_private_key (se_aead se) (sd_nonce dr) secret of
       Inl e \<Rightarrow> (Inl (Store e), s)
     | Inr sealed \<Rightarrow>
    (let user = initial_admin_row (se_lower se) dr username display_name email;
         cred = \<lparr> cr_user_id = u_id user, cr_password_hash = h, cr_updated_at = sd_now dr \<rparr>;
         key = \<lparr> im_id = sd_key_id dr, im_algorithm = ''EdDSA'', im_private_key_sealed = sealed,
                 im_public_key = ed_public (se_jwt se) secret \<rparr>
     in case complete_initial_setup (se_digest se) (sd_audit_at dr) (se_lower se) user cred key authorized_by (sd_now dr) s of
          (Inl e, s') \<Rightarrow> (Inl (setup_error e), s')
        | (Inr _, s') \<Rightarrow> (Inr \<lparr> ca_user_id = u_id user, ca_username = u_username user \<rparr>, s')))))))"

definition create_initial_admin ::
  "setup_env \<Rightarrow> setup_draws \<Rightarrow> string \<Rightarrow> string \<Rightarrow> string \<Rightarrow> string \<Rightarrow> string option \<Rightarrow> string option \<Rightarrow> store
    \<Rightarrow> (core_error + created_initial_admin) \<times> store" where
  "create_initial_admin se dr expected_token supplied_token username password display_name email s =
    (if is_initialized s then (Inl AlreadyInitialized, s)
     else if supplied_token \<noteq> expected_token then (Inl Forbidden, s)
     else create_initial_admin_inner se dr username password display_name email SetupToken s)"

definition create_initial_admin_headless ::
  "setup_env \<Rightarrow> setup_draws \<Rightarrow> string \<Rightarrow> string \<Rightarrow> string option \<Rightarrow> string option \<Rightarrow> store
    \<Rightarrow> (core_error + created_initial_admin) \<times> store" where
  "create_initial_admin_headless se dr username password display_name email s =
    (if is_initialized s then (Inl AlreadyInitialized, s)
     else create_initial_admin_inner se dr username password display_name email Filesystem s)"

section \<open>The generated password\<close>

definition ALPHABET :: string where
  "ALPHABET = ''ABCDEFGHIJKLMNOPQRSTUVWXYZabcdefghijklmnopqrstuvwxyz0123456789''"

definition PASSWORD_LEN :: nat where
  "PASSWORD_LEN = 24"

definition LIMIT :: nat where
  "LIMIT = 256 div length ALPHABET * length ALPHABET - 1"

text \<open>The inner loop over one buffer.\<close>

fun fill_from :: "string \<Rightarrow> string \<Rightarrow> string" where
  "fill_from out [] = out"
| "fill_from out (b # buf) =
    (if length out = PASSWORD_LEN then out
     else if byte b \<le> LIMIT then fill_from (out @ [ALPHABET ! (byte b mod length ALPHABET)]) buf
     else fill_from out buf)"

text \<open>The outer loop: \<open>draws i\<close> is the buffer of the \<open>i\<close>-th iteration.  It has no bound of its own.\<close>

partial_function (option) password_loop :: "(nat \<Rightarrow> string) \<Rightarrow> nat \<Rightarrow> string \<Rightarrow> string option" where
  "password_loop draws i out =
    (if length out < PASSWORD_LEN then password_loop draws (Suc i) (fill_from out (draws i)) else Some out)"

definition generate_admin_password :: "(nat \<Rightarrow> string) \<Rightarrow> string option" where
  "generate_admin_password draws = password_loop draws 0 []"

section \<open>Setup happens once\<close>

lemma keeps_create_user [frame]:
  "(\<And>s x. part (s\<lparr>users := x\<rparr>) = part s) \<Longrightarrow> keeps part (create_within_tx lower user)"
  by (auto simp: keeps_def create_within_tx_def split: if_splits)

lemma keeps_bootstrap [frame]:
  "(\<And>s x. part (s\<lparr>signing_keys := x\<rparr>) = part s) \<Longrightarrow> keeps part (bootstrap_key k now)"
  unfolding bootstrap_key_def has_active_within_tx_def by (intro frame; simp)

interpretation s10: command_body "complete_initial_setup_body lower user cred signing_key authorized_by now"
  for lower user cred signing_key authorized_by now
  unfolding complete_initial_setup_body_def is_initialized_within_tx_def mark_initialized_within_tx_def user_ops
  by unfold_locales (intro frame; simp)

lemma setup_body_Inr:
  assumes "complete_initial_setup_body lower user cred signing_key authorized_by now s = Inr (v, t)"
  shows "\<not> is_initialized s \<and> is_initialized t \<and> users t = users s @ [inserted_user lower user]
    \<and> (list_ex sk_is_active (signing_keys t)) \<and> cred \<in> set (credentials t)"
  using assms
  by (auto simp: complete_initial_setup_body_def results is_initialized_within_tx_def is_initialized_def create_within_tx_def
      credential_upsert_eq upserted_in bootstrap_key_def has_active_within_tx_def insert_sealed_on_conn_def
      mark_initialized_within_tx_def split: if_splits)

lemma setup_body_initialized:
  "is_initialized s \<Longrightarrow> complete_initial_setup_body lower user cred signing_key authorized_by now s = Inl StoreAlreadyInitialized"
  by (simp add: complete_initial_setup_body_def is_initialized_within_tx_def is_initialized_def tx_bind_def tx_guard_def)

section \<open>The password loop\<close>

abbreviation acceptable :: "char \<Rightarrow> bool" where
  "acceptable b \<equiv> byte b \<le> LIMIT"

abbreviation letter :: "char \<Rightarrow> char" where
  "letter b \<equiv> ALPHABET ! (byte b mod length ALPHABET)"

lemma fill_from_take:
  "length out \<le> PASSWORD_LEN \<Longrightarrow> fill_from out buf = take PASSWORD_LEN (out @ map letter (filter acceptable buf))"
  by (induction buf arbitrary: out) (auto simp: take_Cons')

lemma take_take_append: "take n (take n xs @ ys) = take n (xs @ ys)"
  by (cases "n \<le> length xs") simp_all

text \<open>The letters of the first \<open>n\<close> buffers from the \<open>i\<close>-th on.\<close>

definition letters :: "(nat \<Rightarrow> string) \<Rightarrow> nat \<Rightarrow> nat \<Rightarrow> string" where
  "letters draws i n = map letter (filter acceptable (concat (map draws [i..<i + n])))"

lemma letters_Suc: "letters draws i (Suc n) = map letter (filter acceptable (draws i)) @ letters draws (Suc i) n"
  by (simp add: letters_def upt_conv_Cons del: upt_Suc)

lemma password_loop_ends:
  "length out \<le> PASSWORD_LEN \<Longrightarrow> PASSWORD_LEN \<le> length (out @ letters draws i n) \<Longrightarrow>
    password_loop draws i out = Some (take PASSWORD_LEN (out @ letters draws i n))"
proof (induction n arbitrary: i out)
  case 0
  then show ?case
    by (subst password_loop.simps) (simp add: letters_def)
next
  case (Suc n)
  show ?case
  proof (cases "length out < PASSWORD_LEN")
    case True
    let ?out = "fill_from out (draws i)"
    have out: "?out = take PASSWORD_LEN (out @ map letter (filter acceptable (draws i)))"
      by (rule fill_from_take [OF Suc.prems(1)])
    have "password_loop draws (Suc i) ?out = Some (take PASSWORD_LEN (?out @ letters draws (Suc i) n))"
      using Suc.prems by (intro Suc.IH) (auto simp: out letters_Suc)
    moreover have "take PASSWORD_LEN (?out @ letters draws (Suc i) n) = take PASSWORD_LEN (out @ letters draws i (Suc n))"
      unfolding out letters_Suc by (simp only: take_take_append append_assoc)
    ultimately show ?thesis
      using True by (subst password_loop.simps) simp
  next
    case False
    then show ?thesis
      using Suc.prems(1) by (subst password_loop.simps) simp
  qed
qed

lemma password_loop_Some:
  assumes "password_loop draws i out = Some pw" "length out \<le> PASSWORD_LEN"
  shows "\<exists>n. PASSWORD_LEN \<le> length (out @ letters draws i n)"
proof -
  have "length out \<le> PASSWORD_LEN \<longrightarrow> (\<exists>n. PASSWORD_LEN \<le> length (out @ letters draws i n))"
  proof (rule password_loop.raw_induct [OF _ assms(1)])
    fix loop draws i out pw
    assume 1: "\<And>draws i out pw. loop draws i out = Some pw \<Longrightarrow>
        length out \<le> PASSWORD_LEN \<longrightarrow> (\<exists>n. PASSWORD_LEN \<le> length (out @ letters draws i n))"
      "(if length out < PASSWORD_LEN then loop draws (Suc i) (fill_from out (draws i)) else Some out) = Some pw"
    show "length out \<le> PASSWORD_LEN \<longrightarrow> (\<exists>n. PASSWORD_LEN \<le> length (out @ letters draws i n))"
    proof (intro impI, cases "length out < PASSWORD_LEN")
      assume len: "length out \<le> PASSWORD_LEN" and "length out < PASSWORD_LEN"
      then have "loop draws (Suc i) (fill_from out (draws i)) = Some pw"
        using 1(2) by simp
      then obtain n where "PASSWORD_LEN \<le> length (fill_from out (draws i) @ letters draws (Suc i) n)"
        using 1(1) [of draws "Suc i" "fill_from out (draws i)" pw] fill_from_take [OF len, of "draws i"] by auto
      then show "\<exists>n. PASSWORD_LEN \<le> length (out @ letters draws i n)"
        by (intro exI [of _ "Suc n"]) (auto simp: fill_from_take [OF len] letters_Suc)
    next
      assume "\<not> length out < PASSWORD_LEN"
      then show "\<exists>n. PASSWORD_LEN \<le> length (out @ letters draws i n)"
        by (intro exI [of _ 0]) simp
    qed
  qed
  then show ?thesis
    using assms(2) by blast
qed

section \<open>Properties\<close>

text \<open>The generator of the first password terminates exactly when the random stream ever delivers 24
  acceptable bytes.  The password then consists of the letters of the first 24 of them; it has 24
  characters, all from the alphabet.  The rejection limit makes the choice unbiased: every letter of the
  alphabet has exactly four of the acceptable byte values.\<close>

theorem generate_admin_password_terminates:
  "((\<exists>pw. generate_admin_password draws = Some pw) \<longleftrightarrow> (\<exists>n. 24 \<le> length (letters draws 0 n)))
    \<and> (\<forall>n. 24 \<le> length (letters draws 0 n) \<longrightarrow> generate_admin_password draws = Some (take 24 (letters draws 0 n)))
    \<and> (\<forall>pw. generate_admin_password draws = Some pw \<longrightarrow> length pw = 24 \<and> set pw \<subseteq> set ALPHABET)
    \<and> list_all (\<lambda>c. card {b. b \<le> LIMIT \<and> ALPHABET ! (b mod length ALPHABET) = c} = 4) ALPHABET"
proof -
  have ends: "generate_admin_password draws = Some (take 24 (letters draws 0 n))" if "24 \<le> length (letters draws 0 n)" for n
    using password_loop_ends [of "[]" draws 0 n] that by (simp add: generate_admin_password_def PASSWORD_LEN_def)
  have enough: "\<exists>n. 24 \<le> length (letters draws 0 n)" if "generate_admin_password draws = Some pw" for pw
    using password_loop_Some [of draws 0 "[]" pw] that by (simp add: generate_admin_password_def PASSWORD_LEN_def)
  have len: "length ALPHABET = 62"
    by (simp add: ALPHABET_def)
  then have "set (letters draws 0 n) \<subseteq> set ALPHABET" for n
    by (auto simp: letters_def)
  then have shape: "length pw = 24 \<and> set pw \<subseteq> set ALPHABET" if "generate_admin_password draws = Some pw" for pw
    using enough [OF that] ends that by (fastforce dest: in_set_takeD)
  have "card {b. b \<le> LIMIT \<and> ALPHABET ! (b mod length ALPHABET) = ALPHABET ! k} = 4" if "k < 62" for k
  proof -
    have "distinct ALPHABET"
      by (simp add: ALPHABET_def)
    then have eq: "ALPHABET ! (b mod 62) = ALPHABET ! k \<longleftrightarrow> b mod 62 = k" for b
      using that len by (intro nth_eq_iff_index_eq) simp_all
    have "b \<le> 247 \<and> b mod 62 = k \<longleftrightarrow> (\<exists>q < 4. b = q * 62 + k)" for b
    proof
      assume "b \<le> 247 \<and> b mod 62 = k"
      then show "\<exists>q < 4. b = q * 62 + k"
        using div_mult_mod_eq [of b 62] div_le_mono [of b 247 62] by (intro exI [of _ "b div 62"]) simp
    qed (use that in auto)
    then have "{b. b \<le> LIMIT \<and> ALPHABET ! (b mod length ALPHABET) = ALPHABET ! k} = (\<lambda>q. q * 62 + k) ` {..<4}"
      by (auto simp: LIMIT_def len eq)
    moreover have "inj_on (\<lambda>q. q * 62 + k) {..<4}"
      by (simp add: inj_on_def)
    ultimately show ?thesis
      by (simp add: card_image)
  qed
  then have "list_all (\<lambda>c. card {b. b \<le> LIMIT \<and> ALPHABET ! (b mod length ALPHABET) = c} = 4) ALPHABET"
    by (auto simp: list_all_length len)
  with ends enough shape show ?thesis
    by blast
qed

theorem generate_admin_password_terminates_witness:
  "24 \<le> length (letters (\<lambda>_. replicate 64 CHR ''A'') 0 1)
    \<and> (\<exists>pw. generate_admin_password (\<lambda>_. replicate 64 CHR ''A'') = Some pw \<and> length pw = 24)"
proof -
  have "24 \<le> length (letters (\<lambda>_. replicate 64 CHR ''A'') 0 1)"
    by (simp add: letters_def LIMIT_def ALPHABET_def byte_def)
  then show ?thesis
    using generate_admin_password_terminates [of "\<lambda>_. replicate 64 CHR ''A''"] by blast
qed

text \<open>First-run setup happens once.  If it succeeds, the system was not initialized, the caller knew
  the setup token (on the web path), the only row added to the users is the new active administrator,
  its password hash is stored, and a signing key is active; the system is initialized from then on, and
  while it is, every further attempt on either path is refused and changes nothing.\<close>

theorem setup_happens_once:
  assumes "create_initial_admin se dr expected supplied username password display_name email s = (Inr admin, s')"
  shows "supplied = expected \<and> \<not> is_initialized s \<and> is_initialized s'
      \<and> (\<exists>u. users s' = users s @ [u] \<and> u_id u = ca_user_id admin \<and> u_role u = Admin \<and> user_active u)
      \<and> (\<exists>c \<in> set (credentials s'). cr_user_id c = ca_user_id admin)
      \<and> list_ex sk_is_active (signing_keys s')
      \<and> (\<forall>t dr' username' password' display' email' supplied'. is_initialized t \<longrightarrow>
          create_initial_admin se dr' expected supplied' username' password' display' email' t = (Inl AlreadyInitialized, t)
          \<and> create_initial_admin_headless se dr' username' password' display' email' t = (Inl AlreadyInitialized, t))"
proof -
  have inner: "supplied = expected" "\<not> is_initialized s"
    "create_initial_admin_inner se dr username password display_name email SetupToken s = (Inr admin, s')"
    using assms by (auto simp: create_initial_admin_def split: if_splits)
  obtain cred key where run: "complete_initial_setup (se_digest se) (sd_audit_at dr) (se_lower se)
        (initial_admin_row (se_lower se) dr username display_name email) cred key SetupToken (sd_now dr) s = (Inr (), s')"
      and ids: "cr_user_id cred = ca_user_id admin" "ca_user_id admin = sd_user_id dr"
    using inner(3)
    by (auto simp: create_initial_admin_inner_def Let_def initial_admin_row_def split: if_splits sum.splits option.splits prod.splits)
  from run obtain ev b a where "complete_initial_setup_body (se_lower se)
        (initial_admin_row (se_lower se) dr username display_name email) cred key SetupToken (sd_now dr) s = Inr (((), ev), b)"
      and s': "s' = b\<lparr>audit := a\<rparr>"
    unfolding complete_initial_setup_def by (rule s10.class_a_success)
  from setup_body_Inr [OF this(1)] have "is_initialized s'" "list_ex sk_is_active (signing_keys s')" "cred \<in> set (credentials s')"
    "users s' = users s @ [inserted_user (se_lower se) (initial_admin_row (se_lower se) dr username display_name email)]"
    by (simp_all add: s' is_initialized_def)
  then show ?thesis
    using inner(1,2) ids
    by (auto simp: inserted_user_def initial_admin_row_def user_active_def create_initial_admin_def
        create_initial_admin_headless_def)
qed

definition demo_setup_env :: setup_env where
  "demo_setup_env = \<lparr> se_digest = demo_env, se_aead = demo_aead, se_jwt = demo_jwt, se_password = demo_password,
     se_lower = (\<lambda>x. x) \<rparr>"

definition demo_setup_draws :: setup_draws where
  "demo_setup_draws = \<lparr> sd_now = 0, sd_audit_at = 0, sd_user_id = ''u0'', sd_user_uuid = ''uu0'', sd_salt = ''s'',
     sd_secret = Some (replicate 32 CHR ''k''), sd_key_id = ''k0'', sd_nonce = replicate 24 CHR ''n'' \<rparr>"

lemma demo_setup:
  "\<exists>admin s'. create_initial_admin demo_setup_env demo_setup_draws ''token'' ''token'' ''root'' ''correct horse'' None None empty_store
      = (Inr admin, s')"
proof -
  let ?cred = "\<lparr> cr_user_id = ''u0'', cr_password_hash = ''s$correct horse'', cr_updated_at = 0 \<rparr>"
  let ?user = "initial_admin_row (\<lambda>x. x) demo_setup_draws ''root'' None None"
  have body: "\<exists>t. complete_initial_setup_body (\<lambda>x. x) ?user ?cred key SetupToken 0 empty_store
      = Inr (((), S10_event ''u0'' SetupToken), t)" for key
    by (simp add: complete_initial_setup_body_def is_initialized_within_tx_def create_within_tx_def bootstrap_key_def
        has_active_within_tx_def insert_sealed_on_conn_def mark_initialized_within_tx_def credential_upsert_within_tx_def
        empty_store_def tx_bind_def tx_guard_def initial_admin_row_def demo_setup_draws_def)
  have "checked_attributes (S10_event ''u0'' SetupToken) = Inr [(''authorized_by'', ''setup_token'')]"
    unfolding S10_event_def by (simp, intro checked_ok_event) (simp_all add: attribute_bounds)
  then have run: "\<exists>t. complete_initial_setup demo_env 0 (\<lambda>x. x) ?user ?cred key SetupToken 0 empty_store = (Inr (), t)" for key
    using body [of key] unfolding complete_initial_setup_def by (metis s10.class_a_commit)
  have "check_password_policy ''correct horse'' 12 = Inr ()"
    by (simp add: check_password_policy_def utf8_chars_ascii byte_def)
  moreover have "str_trim ''root'' \<noteq> []"
    by (simp add: str_trim_def utf8_chars_ascii is_whitespace_ascii byte_def)
  moreover have "hash_password demo_password ''s'' ''correct horse'' = Inr ''s$correct horse''"
    by (simp add: hash_password_def demo_password_def)
  moreover obtain sealed where "seal_private_key demo_aead (replicate 24 CHR ''n'') (replicate 32 CHR ''k'') = Inr sealed"
    by (simp add: seal_private_key_def seal_def demo_aead_def)
  ultimately show ?thesis
    using run [of "\<lparr> im_id = ''k0'', im_algorithm = ''EdDSA'', im_private_key_sealed = sealed,
                 im_public_key = ed_public demo_jwt (replicate 32 CHR ''k'') \<rparr>"]
    by (auto simp: create_initial_admin_def create_initial_admin_inner_def demo_setup_env_def demo_setup_draws_def
        is_initialized_def empty_store_def initial_admin_row_def)
qed

theorem setup_happens_once_witness:
  "\<exists>admin s'. create_initial_admin demo_setup_env demo_setup_draws ''token'' ''token'' ''root'' ''correct horse'' None None empty_store
      = (Inr admin, s') \<and> is_initialized s'
    \<and> create_initial_admin demo_setup_env demo_setup_draws ''token'' ''token'' ''eve'' ''correct horse'' None None s'
      = (Inl AlreadyInitialized, s')"
proof -
  obtain admin s' where run: "create_initial_admin demo_setup_env demo_setup_draws ''token'' ''token'' ''root'' ''correct horse''
      None None empty_store = (Inr admin, s')"
    using demo_setup by blast
  then show ?thesis
    using setup_happens_once [OF run] by blast
qed

end
