(* ===== verification/Sign_In.thy ===== *)
theory Sign_In
  imports Accounts One_Shot "HOL-Library.Multiset"
begin

text \<open>
  The audited sign-in commands of \<open>sui-id-store/src/commands.rs\<close>: L01 password sign-in, L02 second
  factor, L05 and L06 step-up success and failure, L07 second-factor failure, and the eviction of
  sessions over the concurrent-session cap.
\<close>

section \<open>Helpers\<close>

definition EXTERNAL_ID_ATTRIBUTE_BYTES :: nat where
  "EXTERNAL_ID_ATTRIBUTE_BYTES = 255"

definition STEP_UP_GATE_ATTRIBUTE_BYTES :: nat where
  "STEP_UP_GATE_ATTRIBUTE_BYTES = 256"

definition STEP_UP_FAILURE_REVOCATION_THRESHOLD :: int where
  "STEP_UP_FAILURE_REVOCATION_THRESHOLD = 5"

fun boundary_below :: "string \<Rightarrow> nat \<Rightarrow> nat" where
  "boundary_below s n =
    (if n = 0 then 0 else if is_char_boundary s n then n else boundary_below s (n - 1))"

declare boundary_below.simps [simp del]

definition truncate_utf8 :: "string \<Rightarrow> nat \<Rightarrow> string" where
  "truncate_utf8 s mx = (if length s \<le> mx then s else take (boundary_below s mx) s)"

fun revoke_each :: "instant \<Rightarrow> session_row list \<Rightarrow> int \<Rightarrow> int tx" where
  "revoke_each now [] evicted = tx_return evicted"
| "revoke_each now (old # rest) evicted =
    tx_bind (session_revoke_within_tx (s_id old) now) (\<lambda>n. revoke_each now rest (evicted + int n))"

definition session_cap :: "int tx" where
  "session_cap s =
    (case settings_get_within_tx s of
       Inr (settings, s') \<Rightarrow> Inr (ss_max_concurrent_sessions settings, s')
     | Inl StoreNotFound \<Rightarrow> Inr (0, s)
     | Inl other \<Rightarrow> Inl other)"

definition evict_over_cap_within_tx :: "uuid \<Rightarrow> instant \<Rightarrow> int tx" where
  "evict_over_cap_within_tx uid now =
    tx_bind session_cap (\<lambda>cap.
    if cap \<le> 0 then tx_return 0
    else tx_bind (count_active_for_user_within_tx uid now) (\<lambda>cnt.
    if cnt \<le> cap then tx_return 0
    else tx_bind (oldest_active_for_user_within_tx uid now (cnt - cap)) (\<lambda>oldest.
      revoke_each now oldest 0)))"

section \<open>Events\<close>

definition L01_event :: "uuid \<Rightarrow> int \<Rightarrow> sealed_event" where
  "L01_event uid evicted =
    ok_event ''auth.login.success'' [(''evicted'', False), (''source'', False), (''stable_id'', False)] uid
      [(''evicted'', dec_int evicted)]"

definition L02_event :: "uuid \<Rightarrow> string \<Rightarrow> int \<Rightarrow> sealed_event" where
  "L02_event uid meth evicted =
    ok_event ''auth.mfa.success'' [(''method'', False), (''evicted'', False)] uid
      [(''method'', meth), (''evicted'', dec_int evicted)]"

definition L07_failure_event :: "uuid \<Rightarrow> int \<Rightarrow> sealed_event" where
  "L07_failure_event uid cnt =
    ok_event ''auth.mfa.failure'' [(''count'', False)] uid [(''count'', dec_int cnt)]"

definition L07_lockout_event :: "uuid \<Rightarrow> int \<Rightarrow> int \<Rightarrow> sealed_event" where
  "L07_lockout_event uid cnt locked_for_secs =
    ok_event ''auth.mfa.lockout'' [(''count'', False), (''locked_for_secs'', False)] uid
      [(''count'', dec_int cnt), (''locked_for_secs'', dec_int locked_for_secs)]"

definition L05_event :: "uuid \<Rightarrow> string \<Rightarrow> string \<Rightarrow> sealed_event" where
  "L05_event uid meth gate =
    ok_event ''auth.step_up.success'' [(''method'', False), (''gate'', False)] uid
      [(''method'', meth), (''gate'', truncate_utf8 gate STEP_UP_GATE_ATTRIBUTE_BYTES)]"

definition L06_failure_event :: "uuid \<Rightarrow> int \<Rightarrow> sealed_event" where
  "L06_failure_event uid cnt =
    ok_event ''auth.step_up.failure'' [(''count'', False)] uid [(''count'', dec_int cnt)]"

definition L06_revoked_event :: "uuid \<Rightarrow> int \<Rightarrow> sealed_event" where
  "L06_revoked_event uid cnt =
    ok_event ''auth.step_up.session_revoked'' [(''count'', False)] uid [(''count'', dec_int cnt)]"

section \<open>Command bodies\<close>

definition sign_in_with_password_body :: "session_row \<Rightarrow> (int \<times> sealed_event) tx" where
  "sign_in_with_password_body session =
    (let uid = s_user_id session; now = s_created_at session in
     tx_bind (record_password_login_within_tx uid now) (\<lambda>_.
     tx_bind (session_insert_within_tx session) (\<lambda>_.
     tx_bind (evict_over_cap_within_tx uid now) (\<lambda>evicted.
       tx_return (evicted, L01_event uid evicted)))))"

datatype second_factor_proof = SfTotp int | SfRecoveryCode string string | SfWebauthn

fun sf_method :: "second_factor_proof \<Rightarrow> string" where
  "sf_method (SfTotp step) = ''totp''"
| "sf_method (SfRecoveryCode expected new) = ''recovery_code''"
| "sf_method SfWebauthn = ''webauthn''"

fun sf_guard :: "uuid \<Rightarrow> second_factor_proof \<Rightarrow> unit tx" where
  "sf_guard uid (SfTotp step) = advance_last_used_step_within_tx uid step"
| "sf_guard uid (SfRecoveryCode expected new) = swap_recovery_codes_within_tx uid expected new"
| "sf_guard uid SfWebauthn = tx_return ()"

fun sf_fresh :: "second_factor_proof \<Rightarrow> bool" where
  "sf_fresh (SfRecoveryCode expected new) = False"
| "sf_fresh (SfTotp step) = True"
| "sf_fresh SfWebauthn = True"

definition complete_second_factor_body ::
  "uuid \<Rightarrow> session_row \<Rightarrow> second_factor_proof \<Rightarrow> (session_row \<times> sealed_event) tx" where
  "complete_second_factor_body pending_id session prf =
    (let uid = s_user_id session; now = s_created_at session;
         session' = session\<lparr> s_last_step_up_at := (if sf_fresh prf then Some now else None) \<rparr> in
     tx_bind (pending_mfa_consume_within_tx pending_id uid now) (\<lambda>_.
     tx_bind (sf_guard uid prf) (\<lambda>_.
     tx_bind (record_second_factor_login_within_tx uid now) (\<lambda>_.
     tx_bind (session_insert_within_tx session') (\<lambda>_.
     tx_bind (if sf_fresh prf then set_step_up_method_within_tx (s_id session') (sf_method prf)
              else tx_return ()) (\<lambda>_.
     tx_bind (evict_over_cap_within_tx uid now) (\<lambda>evicted.
       tx_return (session', L02_event uid (sf_method prf) evicted))))))))"

record second_factor_failure_outcome =
  sff_count :: int
  sff_locked :: bool

definition record_second_factor_failure_body ::
  "uuid \<Rightarrow> (int \<Rightarrow> int option) \<Rightarrow> instant \<Rightarrow> (second_factor_failure_outcome \<times> sealed_event) tx" where
  "record_second_factor_failure_body uid lock_window_for_count t =
    tx_bind (increment_mfa_failure_within_tx uid) (\<lambda>cnt.
    if cnt \<ge> MFA_FAILURE_LOCKOUT_THRESHOLD then
      tx_bind (pending_mfa_delete_all_for_user_within_tx uid) (\<lambda>_.
      let w = (case lock_window_for_count cnt of None \<Rightarrow> seconds 30 | Some w \<Rightarrow> w) in
      tx_bind (update_user uid (\<lambda>u. u\<lparr> u_locked_until := Some (t + w) \<rparr>)) (\<lambda>_.
        tx_return (\<lparr> sff_count = cnt, sff_locked = True \<rparr>, L07_lockout_event uid cnt (num_seconds w))))
    else tx_return (\<lparr> sff_count = cnt, sff_locked = False \<rparr>, L07_failure_event uid cnt))"

datatype step_up_proof = SuTotp int | SuWebauthn uuid

fun su_consume :: "uuid \<Rightarrow> instant \<Rightarrow> step_up_proof \<Rightarrow> string tx" where
  "su_consume uid now (SuTotp step) =
    tx_bind (advance_last_used_step_within_tx uid step) (\<lambda>_. tx_return ''totp'')"
| "su_consume uid now (SuWebauthn pending_id) =
    tx_bind (consume_step_up_within_tx pending_id uid now) (\<lambda>_. tx_return ''webauthn'')"

definition complete_step_up_body ::
  "uuid \<Rightarrow> uuid \<Rightarrow> step_up_proof \<Rightarrow> string \<Rightarrow> instant \<Rightarrow> (unit \<times> sealed_event) tx" where
  "complete_step_up_body uid sid prf gate now =
    tx_bind (require_live_session_within_tx sid uid now) (\<lambda>_.
    tx_bind (su_consume uid now prf) (\<lambda>meth.
    tx_bind (record_step_up_within_tx sid meth now) (\<lambda>_.
      tx_return ((), L05_event uid meth gate))))"

record step_up_failure_outcome =
  suf_count :: int
  suf_session_revoked :: bool

definition record_step_up_failure_body ::
  "uuid \<Rightarrow> uuid \<Rightarrow> instant \<Rightarrow> (step_up_failure_outcome \<times> sealed_event) tx" where
  "record_step_up_failure_body uid sid now =
    tx_bind (increment_step_up_failure_within_tx sid uid) (\<lambda>cnt.
    if cnt \<ge> STEP_UP_FAILURE_REVOCATION_THRESHOLD then
      tx_bind (session_revoke_within_tx sid now) (\<lambda>_.
        tx_return (\<lparr> suf_count = cnt, suf_session_revoked = True \<rparr>, L06_revoked_event uid cnt))
    else tx_return (\<lparr> suf_count = cnt, suf_session_revoked = False \<rparr>, L06_failure_event uid cnt))"

section \<open>The commands\<close>

definition sign_in_with_password ::
  "digest_env \<Rightarrow> instant \<Rightarrow> session_row \<Rightarrow> store \<Rightarrow> (store_error + int) \<times> store" where
  "sign_in_with_password cx at session =
    class_a cx at (Some (s_user_id session)) (sign_in_with_password_body session)"

definition complete_second_factor ::
  "digest_env \<Rightarrow> instant \<Rightarrow> uuid \<Rightarrow> session_row \<Rightarrow> second_factor_proof \<Rightarrow> store
    \<Rightarrow> (store_error + session_row) \<times> store" where
  "complete_second_factor cx at pending_id session prf =
    class_a cx at (Some (s_user_id session)) (complete_second_factor_body pending_id session prf)"

definition record_second_factor_failure ::
  "digest_env \<Rightarrow> instant \<Rightarrow> uuid \<Rightarrow> (int \<Rightarrow> int option) \<Rightarrow> instant \<Rightarrow> store
    \<Rightarrow> (store_error + second_factor_failure_outcome) \<times> store" where
  "record_second_factor_failure cx at uid policy t =
    class_a cx at (Some uid) (record_second_factor_failure_body uid policy t)"

definition complete_step_up ::
  "digest_env \<Rightarrow> instant \<Rightarrow> uuid \<Rightarrow> uuid \<Rightarrow> step_up_proof \<Rightarrow> string \<Rightarrow> instant \<Rightarrow> store
    \<Rightarrow> (store_error + unit) \<times> store" where
  "complete_step_up cx at uid sid prf gate now =
    class_a cx at (Some uid) (complete_step_up_body uid sid prf gate now)"

definition record_step_up_failure ::
  "digest_env \<Rightarrow> instant \<Rightarrow> uuid \<Rightarrow> uuid \<Rightarrow> instant \<Rightarrow> store
    \<Rightarrow> (store_error + step_up_failure_outcome) \<times> store" where
  "record_step_up_failure cx at uid sid now =
    class_a cx at (Some uid) (record_step_up_failure_body uid sid now)"

section \<open>Frames\<close>

lemma keeps_revoke_each [frame]:
  assumes "\<And>s rs. part (s\<lparr>sessions := rs\<rparr>) = part s"
  shows "keeps part (revoke_each now rs n)"
  using assms by (induction rs arbitrary: n) (auto simp: session_revoke_within_tx_def intro!: frame)

lemma keeps_session_cap [frame]: "keeps part session_cap"
  by (auto simp: keeps_def session_cap_def settings_get_within_tx_def
      split: sum.splits option.splits store_error.splits)

lemma keeps_evict [frame]:
  "(\<And>s rs. part (s\<lparr>sessions := rs\<rparr>) = part s) \<Longrightarrow> keeps part (evict_over_cap_within_tx uid now)"
  unfolding evict_over_cap_within_tx_def by (intro frame)

lemma keeps_sf_guard [frame]:
  "(\<And>s x. part (s\<lparr>user_totps := x\<rparr>) = part s) \<Longrightarrow> keeps part (sf_guard uid p)"
  by (cases p) (auto simp: advance_last_used_step_within_tx_def swap_recovery_codes_within_tx_def intro!: frame)

lemma keeps_su_consume [frame]:
  "(\<And>s x. part (s\<lparr>user_totps := x\<rparr>) = part s) \<Longrightarrow> (\<And>s x. part (s\<lparr>webauthn_pendings := x\<rparr>) = part s) \<Longrightarrow>
    keeps part (su_consume uid now p)"
  by (cases p) (auto simp: advance_last_used_step_within_tx_def intro!: frame)

interpretation l01: command_body "sign_in_with_password_body session" for session
  unfolding sign_in_with_password_body_def user_ops by unfold_locales (intro frame; simp)

interpretation l02: command_body "complete_second_factor_body pending_id session p" for pending_id session p
  unfolding complete_second_factor_body_def user_ops session_ops by unfold_locales (intro frame; simp)

interpretation l07: command_body "record_second_factor_failure_body uid policy t" for uid policy t
  unfolding record_second_factor_failure_body_def user_ops by unfold_locales (intro frame; simp)

interpretation l05: command_body "complete_step_up_body uid sid p gate now" for uid sid p gate now
  unfolding complete_step_up_body_def session_ops by unfold_locales (intro frame; simp)

lemma keeps_increment_step_up [frame]:
  "(\<And>s rs. part (s\<lparr>sessions := rs\<rparr>) = part s) \<Longrightarrow> keeps part (increment_step_up_failure_within_tx sid uid)"
  unfolding increment_step_up_failure_within_tx_def by (intro frame)

interpretation l06: command_body "record_step_up_failure_body uid sid now" for uid sid now
  unfolding record_step_up_failure_body_def session_revoke_within_tx_def by unfold_locales (intro frame; simp)

section \<open>Eviction\<close>

definition revoke_ids :: "uuid set \<Rightarrow> instant \<Rightarrow> session_row list \<Rightarrow> session_row list" where
  "revoke_ids ids now = update_where (\<lambda>r. s_id r \<in> ids \<and> s_revoked_at r = None) (\<lambda>r. r\<lparr>s_revoked_at := Some now\<rparr>)"

lemma revoke_ids_insert: "revoke_ids ids now (revoke_ids {i} now rows) = revoke_ids (insert i ids) now rows"
  by (induction rows) (auto simp: revoke_ids_def update_where_def)

lemma length_revoke_ids [simp]: "length (revoke_ids ids now rows) = length rows"
  by (simp add: revoke_ids_def)

lemma revoke_ids_empty [simp]: "revoke_ids {} now rows = rows"
  by (simp add: revoke_ids_def update_where_def)

lemma revoke_each_eq:
  "\<exists>m. revoke_each now rs n s = Inr (n + int m, s\<lparr>sessions := revoke_ids (s_id ` set rs) now (sessions s)\<rparr>)
    \<and> m \<le> length (sessions s) * length rs"
proof (induction rs arbitrary: n s)
  case (Cons old rs)
  let ?s1 = "s\<lparr>sessions := revoke_ids {s_id old} now (sessions s)\<rparr>"
  let ?k = "affected (\<lambda>r. s_id r = s_id old \<and> s_revoked_at r = None) (sessions s)"
  have first: "session_revoke_within_tx (s_id old) now s = Inr (?k, ?s1)"
    by (simp add: session_revoke_within_tx_def update_sessions_def revoke_ids_def)
  obtain m where m: "revoke_each now rs (n + int ?k) ?s1 = Inr (n + int ?k + int m,
      ?s1\<lparr>sessions := revoke_ids (s_id ` set rs) now (sessions ?s1)\<rparr>)" "m \<le> length (sessions ?s1) * length rs"
    using Cons.IH by blast
  have "?k \<le> length (sessions s)"
    by (simp add: affected_def)
  then show ?case
    using first m by (intro exI [of _ "?k + m"]) (simp add: revoke_ids_insert)
qed simp

lemma active_revoke_ids:
  "filter (session_active uid now) (revoke_ids ids t rows) =
    filter (\<lambda>r. session_active uid now r \<and> s_id r \<notin> ids) rows"
  by (induction rows) (auto simp: revoke_ids_def update_where_def session_active_def)

lemma length_filter_not_taken:
  assumes "distinct (map key xs)"
  shows "length (filter (\<lambda>x. key x \<notin> key ` set (take k (sort_key f xs))) xs) = length xs - k"
proof -
  let ?L = "sort_key f xs"
  have d: "distinct (map key ?L)"
    using assms by (simp add: distinct_map)
  have "length (filter (\<lambda>x. key x \<notin> key ` set (take k ?L)) xs)
      = length (filter (\<lambda>x. key x \<notin> key ` set (take k ?L)) ?L)"
    by (metis mset_filter mset_sort size_mset)
  also have "\<dots> = length (filter (\<lambda>x. key x \<notin> key ` set (take k ?L)) (take k ?L @ drop k ?L))"
    by simp
  also have "\<dots> = length (drop k ?L)"
  proof -
    have "set (map key (take k ?L)) \<inter> set (map key (drop k ?L)) = {}"
      using d by (metis append_take_drop_id distinct_append map_append)
    then have "filter (\<lambda>x. key x \<notin> key ` set (take k ?L)) (drop k ?L) = drop k ?L"
      by (auto simp: filter_id_conv)
    moreover have "filter (\<lambda>x. key x \<notin> key ` set (take k ?L)) (take k ?L) = []"
      by (auto simp: filter_empty_conv)
    ultimately show ?thesis
      by (subst filter_append) simp
  qed
  finally show ?thesis
    by simp
qed

lemma sort_key_snoc_max:
  assumes "\<forall>x \<in> set xs. f x \<le> f a"
  shows "sort_key f (xs @ [a]) = sort_key f xs @ [a]"
proof (rule properties_for_sort_key)
  show "filter (\<lambda>x. f k = f x) (sort_key f xs @ [a]) = filter (\<lambda>x. f k = f x) (xs @ [a])" for k
    using sort_key_stable [of f "f k" xs] by (simp add: eq_commute)
qed (use assms in \<open>auto simp: sorted_append\<close>)

definition cap_of :: "store \<Rightarrow> int" where
  "cap_of s = (case server_settings s of None \<Rightarrow> 0 | Some st \<Rightarrow> ss_max_concurrent_sessions st)"

lemma session_cap_eq: "session_cap s = Inr (cap_of s, s)"
  by (simp add: session_cap_def cap_of_def settings_get_within_tx_def split: option.splits)

definition over_cap :: "uuid \<Rightarrow> instant \<Rightarrow> store \<Rightarrow> session_row list" where
  "over_cap uid now s =
    (let act = filter (session_active uid now) (sessions s) in
     if cap_of s \<le> 0 then [] else take (length act - nat (cap_of s)) (sort_key s_created_at act))"

lemma evict_eq:
  "\<exists>m. evict_over_cap_within_tx uid now s =
      Inr (int m, s\<lparr>sessions := revoke_ids (s_id ` set (over_cap uid now s)) now (sessions s)\<rparr>)
    \<and> m \<le> length (sessions s) * length (sessions s)"
proof -
  let ?act = "filter (session_active uid now) (sessions s)"
  have len: "length (over_cap uid now s) \<le> length (sessions s)"
    by (simp add: over_cap_def Let_def le_trans [OF diff_le_self length_filter_le])
  show ?thesis
  proof (cases "cap_of s \<le> 0 \<or> int (length ?act) \<le> cap_of s")
    case True
    then have "over_cap uid now s = []"
      by (auto simp: over_cap_def Let_def)
    then show ?thesis
      using True
      by (auto simp: evict_over_cap_within_tx_def tx_bind_def session_cap_eq count_active_for_user_within_tx_def affected_def)
  next
    case False
    then have pos: "0 < cap_of s" "cap_of s < int (length ?act)"
      by auto
    then have "oldest_active_for_user_within_tx uid now (int (length ?act) - cap_of s) s = Inr (over_cap uid now s, s)"
      by (simp add: oldest_active_for_user_within_tx_def over_cap_def Let_def nat_diff_distrib)
    then have "evict_over_cap_within_tx uid now s = revoke_each now (over_cap uid now s) 0 s"
      using pos
      by (simp add: evict_over_cap_within_tx_def tx_bind_def session_cap_eq count_active_for_user_within_tx_def affected_def)
    moreover obtain m where "revoke_each now (over_cap uid now s) 0 s = Inr (0 + int m,
        s\<lparr>sessions := revoke_ids (s_id ` set (over_cap uid now s)) now (sessions s)\<rparr>)"
      "m \<le> length (sessions s) * length (over_cap uid now s)"
      using revoke_each_eq [of now "over_cap uid now s" 0 s] by blast
    ultimately show ?thesis
      using len by (intro exI [of _ m]) (auto intro: le_trans mult_le_mono2)
  qed
qed

lemma distinct_map_filter_key: "distinct (map k xs) \<Longrightarrow> distinct (map k (filter P xs))"
  by (simp add: distinct_map inj_on_def)

lemma cap_after_eviction:
  assumes "sessions_keyed s" "0 < cap_of s"
  shows "int (affected (session_active uid now)
      (revoke_ids (s_id ` set (over_cap uid now s)) now (sessions s))) \<le> cap_of s"
proof -
  let ?act = "filter (session_active uid now) (sessions s)"
  let ?k = "length ?act - nat (cap_of s)"
  have "affected (session_active uid now) (revoke_ids (s_id ` set (over_cap uid now s)) now (sessions s))
      = length (filter (\<lambda>r. s_id r \<notin> s_id ` set (take ?k (sort_key s_created_at ?act))) ?act)"
    using assms(2) by (simp add: affected_def active_revoke_ids over_cap_def Let_def conj_commute)
  also have "\<dots> = length ?act - ?k"
    using assms(1) by (intro length_filter_not_taken distinct_map_filter_key) (simp add: sessions_keyed_def)
  finally show ?thesis
    using assms(2) by auto
qed

lemma newest_survives:
  assumes "sessions s = rows @ [new]" "sessions_keyed s" "session_active uid now new"
    and "\<forall>r \<in> set rows. session_active uid now r \<longrightarrow> s_created_at r \<le> s_created_at new"
  shows "new \<in> set (revoke_ids (s_id ` set (over_cap uid now s)) now (sessions s))"
proof -
  let ?act = "filter (session_active uid now) rows"
  have "sort_key s_created_at (?act @ [new]) = sort_key s_created_at ?act @ [new]"
    using assms(4) by (intro sort_key_snoc_max) simp
  moreover have "Suc (length ?act) - nat (cap_of s) \<le> length ?act" if "0 < cap_of s"
    using that by auto
  ultimately have "set (over_cap uid now s) \<subseteq> set rows"
    using assms(1,3) by (auto simp: over_cap_def Let_def dest!: in_set_takeD)
  moreover have "s_id new \<notin> s_id ` set rows"
    using assms(1,2) by (simp add: sessions_keyed_def)
  ultimately have "s_id new \<notin> s_id ` set (over_cap uid now s)"
    by blast
  then show ?thesis
    using assms(1) by (auto simp: revoke_ids_def set_update_where image_iff intro!: bexI [of _ new])
qed

section \<open>What a sign-in commits\<close>

definition inserted_session :: "session_row \<Rightarrow> session_row" where
  "inserted_session r = r\<lparr> s_last_step_up_method := None, s_step_up_failure_count := 0 \<rparr>"

lemma session_insert_Inr_iff [results]:
  "session_insert_within_tx r s = Inr (x, s') \<longleftrightarrow>
    s_id r \<notin> s_id ` set (sessions s) \<and> s' = s\<lparr>sessions := sessions s @ [inserted_session r]\<rparr>"
  by (auto simp: session_insert_within_tx_def inserted_session_def list_ex_key)

definition evicted_rows :: "uuid \<Rightarrow> instant \<Rightarrow> store \<Rightarrow> session_row list" where
  "evicted_rows uid now s = revoke_ids (s_id ` set (over_cap uid now s)) now (sessions s)"

lemma evict_Inr:
  assumes "evict_over_cap_within_tx uid now s = Inr (n, s')"
  shows "s' = s\<lparr>sessions := evicted_rows uid now s\<rparr>"
  using assms evict_eq [of uid now s] by (auto simp: evicted_rows_def)

lemma evict_total:
  assumes "length (sessions s) < 10 ^ 9"
  obtains m where "evict_over_cap_within_tx uid now s = Inr (int m, s\<lparr>sessions := evicted_rows uid now s\<rparr>)" "m < 10 ^ 18"
proof -
  obtain m where "evict_over_cap_within_tx uid now s = Inr (int m, s\<lparr>sessions := evicted_rows uid now s\<rparr>)"
    and m: "m \<le> length (sessions s) * length (sessions s)"
    using evict_eq [of uid now s] by (auto simp: evicted_rows_def)
  moreover have "m < 10 ^ 18"
    using m mult_strict_mono [OF assms assms] by simp
  ultimately show thesis
    using that by blast
qed

lemma sign_in_body_success:
  assumes "sign_in_with_password_body session s = Inr (v, s')"
  obtains u s1 where "List.find (by_user_id (s_user_id session)) (users s) = Some u"
    "may_sign_in (s_created_at session) u" "s_id session \<notin> s_id ` set (sessions s)"
    "sessions s1 = sessions s @ [inserted_session session]" "server_settings s1 = server_settings s"
    "sessions s' = evicted_rows (s_user_id session) (s_created_at session) s1" "users s' = users s1"
    "users s1 = update_where (by_user_id (s_user_id session)) (\<lambda>u. u\<lparr> u_failed_login_count := 0,
       u_locked_until := None, u_updated_at := s_created_at session, u_last_login_at := Some (s_created_at session) \<rparr>) (users s)"
proof -
  let ?uid = "s_user_id session" and ?now = "s_created_at session"
  obtain s0 s1 n where l: "record_password_login_within_tx ?uid ?now s = Inr ((), s0)"
    and ins: "session_insert_within_tx session s0 = Inr ((), s1)"
    and ev: "evict_over_cap_within_tx ?uid ?now s1 = Inr (n, s')"
    using assms by (auto simp: sign_in_with_password_body_def Let_def results)
  then show thesis
    using that [of _ s1] evict_Inr [OF ev] by (auto simp: results record_password_login_Inr_iff)
qed

lemma second_factor_body_success:
  assumes "complete_second_factor_body pid session p s = Inr (v, s')"
  obtains u sg s1 where "\<exists>r \<in> set (login_pending_mfas s). pending_live pid (s_user_id session) (s_created_at session) r"
    "sf_guard (s_user_id session) p
      (s\<lparr>login_pending_mfas := delete_where (pending_live pid (s_user_id session) (s_created_at session)) (login_pending_mfas s)\<rparr>)
      = Inr ((), sg)"
    "List.find (by_user_id (s_user_id session)) (users s) = Some u" "may_sign_in (s_created_at session) u"
    "s_id session \<notin> s_id ` set (sessions s)"
    "sessions s1 = sessions s @ [(inserted_session session)\<lparr> s_last_step_up_at := (if sf_fresh p then Some (s_created_at session) else None),
       s_last_step_up_method := (if sf_fresh p then Some (sf_method p) else None) \<rparr>]"
    "server_settings s1 = server_settings s"
    "sessions s' = evicted_rows (s_user_id session) (s_created_at session) s1"
    "user_totps s' = user_totps sg" "login_pending_mfas s' = login_pending_mfas sg"
proof -
  let ?uid = "s_user_id session" and ?now = "s_created_at session"
  let ?ses = "session\<lparr> s_last_step_up_at := (if sf_fresh p then Some ?now else None) \<rparr>"
  let ?sp = "s\<lparr>login_pending_mfas := delete_where (pending_live pid ?uid ?now) (login_pending_mfas s)\<rparr>"
  obtain sg s2 s3 s4 n where pend: "\<exists>r \<in> set (login_pending_mfas s). pending_live pid ?uid ?now r"
    and g: "sf_guard ?uid p ?sp = Inr ((), sg)"
    and l: "record_second_factor_login_within_tx ?uid ?now sg = Inr ((), s2)"
    and ins: "session_insert_within_tx ?ses s2 = Inr ((), s3)"
    and mth: "(if sf_fresh p then set_step_up_method_within_tx (s_id ?ses) (sf_method p) else tx_return ()) s3 = Inr ((), s4)"
    and ev: "evict_over_cap_within_tx ?uid ?now s4 = Inr (n, s')"
    using assms by (auto simp: complete_second_factor_body_def Let_def results)
  have keep: "users sg = users s" "sessions sg = sessions s" "server_settings sg = server_settings s"
    using keepsD [where m = "sf_guard ?uid p" and part = users, OF keeps_sf_guard g]
      keepsD [where m = "sf_guard ?uid p" and part = sessions, OF keeps_sf_guard g]
      keepsD [where m = "sf_guard ?uid p" and part = server_settings, OF keeps_sf_guard g]
    by simp_all
  obtain u where u: "List.find (by_user_id ?uid) (users s) = Some u" "may_sign_in ?now u"
    and s2: "sessions s2 = sessions s" "server_settings s2 = server_settings s"
      "user_totps s2 = user_totps sg" "login_pending_mfas s2 = login_pending_mfas sg"
    using l keep
    by (auto simp: record_second_factor_login_within_tx_def results record_password_login_Inr_iff)
  have fresh: "s_id session \<notin> s_id ` set (sessions s)" and s3: "s3 = s2\<lparr>sessions := sessions s @ [inserted_session ?ses]\<rparr>"
    using ins s2 by (auto simp: results)
  have last: "update_where (by_session_id (s_id session)) f (sessions s @ [r]) = sessions s @ [f r]"
    if "s_id r = s_id session" for f r
    using fresh that by (auto simp: update_where_def by_session_id_def image_iff intro!: map_idI)
  have s4: "sessions s4 = sessions s @ [(inserted_session session)\<lparr> s_last_step_up_at := (if sf_fresh p then Some ?now else None),
       s_last_step_up_method := (if sf_fresh p then Some (sf_method p) else None) \<rparr>]"
    and rest: "server_settings s4 = server_settings s" "user_totps s4 = user_totps sg"
      "login_pending_mfas s4 = login_pending_mfas sg"
    using mth s2 by (auto simp: s3 set_step_up_method_within_tx_def results last inserted_session_def split: if_splits)
  show thesis
    using that [OF pend g u fresh s4 rest(1)] evict_Inr [OF ev] rest by simp
qed

lemma cap_enforced:
  assumes "sessions s1 = sessions s @ [new]" "s_id new \<notin> s_id ` set (sessions s)" "sessions_keyed s"
    and "server_settings s1 = server_settings s" "0 < cap_of s"
  shows "int (affected (session_active uid now) (evicted_rows uid now s1)) \<le> cap_of s"
    and "session_active uid now new \<Longrightarrow> \<forall>r \<in> set (sessions s). session_active uid now r \<longrightarrow> s_created_at r \<le> s_created_at new
      \<Longrightarrow> new \<in> set (evicted_rows uid now s1)"
proof -
  have k: "sessions_keyed s1"
    using assms(1-3) by (simp add: sessions_keyed_def)
  have c: "cap_of s1 = cap_of s"
    using assms(4) by (simp add: cap_of_def)
  show "int (affected (session_active uid now) (evicted_rows uid now s1)) \<le> cap_of s"
    using cap_after_eviction [OF k, of uid now] assms(5) by (simp add: evicted_rows_def c)
  show "new \<in> set (evicted_rows uid now s1)" if "session_active uid now new"
    "\<forall>r \<in> set (sessions s). session_active uid now r \<longrightarrow> s_created_at r \<le> s_created_at new"
    unfolding evicted_rows_def using assms(1) k that by (rule newest_survives)
qed

section \<open>A TOTP step is used once\<close>

definition totp_spent :: "uuid \<times> int \<Rightarrow> store \<Rightarrow> bool" where
  "totp_spent k s =
    (\<forall>t \<in> set (user_totps s). ut_user_id t = fst k \<longrightarrow> ut_enabled t \<longrightarrow> snd k \<le> ut_last_used_step t)"

text \<open>Enrolments may disappear and cursors may advance.\<close>

definition totp_mono :: "store \<Rightarrow> store \<Rightarrow> bool" where
  "totp_mono s s' =
    (\<forall>t' \<in> set (user_totps s'). \<exists>t \<in> set (user_totps s).
       ut_user_id t = ut_user_id t' \<and> (ut_enabled t' \<longrightarrow> ut_enabled t) \<and> ut_last_used_step t \<le> ut_last_used_step t')"

lemma totp_mono_same: "user_totps s' = user_totps s \<Longrightarrow> totp_mono s s'"
  by (auto simp: totp_mono_def)

lemma totp_mono_spent: "totp_mono s s' \<Longrightarrow> totp_spent k s \<Longrightarrow> totp_spent k s'"
  unfolding totp_mono_def totp_spent_def by (metis order_trans)

lemma advance_mono:
  assumes "advance_last_used_step_within_tx uid step s = Inr (x, s')"
  shows "totp_mono s s' \<and> totp_spent (uid, step) s' \<and> \<not> totp_spent (uid, step) s"
  using assms
  by (force simp: advance_last_used_step_within_tx_def results totp_mono_def totp_spent_def set_update_where)

lemma swap_mono:
  assumes "swap_recovery_codes_within_tx uid old new s = Inr (x, s')"
  shows "totp_mono s s'"
  using assms
  by (auto simp: swap_recovery_codes_within_tx_def results totp_mono_def set_update_where)

lemma totp_mono_cong:
  "user_totps s1 = user_totps s \<Longrightarrow> user_totps s1' = user_totps s' \<Longrightarrow> totp_mono s1 s1' = totp_mono s s'"
  by (simp add: totp_mono_def)

lemma totp_spent_cong: "user_totps s' = user_totps s \<Longrightarrow> totp_spent k s' = totp_spent k s"
  by (simp add: totp_spent_def)

lemma l02_totp:
  assumes "complete_second_factor_body pid session p s = Inr (v, s')"
  shows "totp_mono s s'"
    and "p = SfTotp step \<Longrightarrow> totp_spent (s_user_id session, step) s' \<and> \<not> totp_spent (s_user_id session, step) s"
proof -
  let ?sp = "s\<lparr>login_pending_mfas := delete_where (pending_live pid (s_user_id session) (s_created_at session)) (login_pending_mfas s)\<rparr>"
  obtain sg where g: "sf_guard (s_user_id session) p ?sp = Inr ((), sg)" and s': "user_totps s' = user_totps sg"
    using assms by (rule second_factor_body_success) blast
  have same: "user_totps ?sp = user_totps s"
    by simp
  have "totp_mono ?sp sg"
    using g advance_mono swap_mono by (cases p) (auto intro!: totp_mono_same)
  then show "totp_mono s s'"
    using totp_mono_cong [OF same [symmetric] s'] by simp
  show "totp_spent (s_user_id session, step) s' \<and> \<not> totp_spent (s_user_id session, step) s" if "p = SfTotp step"
    using g that advance_mono [of "s_user_id session" step ?sp "()" sg] totp_spent_cong [OF same] totp_spent_cong [OF s']
    by simp
qed

lemma l05_totp:
  assumes "complete_step_up_body uid sid p gate now s = Inr (v, s')"
  shows "totp_mono s s'"
    and "p = SuTotp step \<Longrightarrow> totp_spent (uid, step) s' \<and> \<not> totp_spent (uid, step) s"
proof -
  obtain m sg where g: "su_consume uid now p s = Inr (m, sg)" and s': "user_totps s' = user_totps sg"
    using assms by (auto simp: complete_step_up_body_def record_step_up_within_tx_def results)
  show "totp_mono s s'"
  proof (cases p)
    case (SuTotp step)
    then show ?thesis
      using g advance_mono totp_mono_cong [OF refl s'] by (auto simp: results)
  next
    case (SuWebauthn pid)
    then show ?thesis
      using g s' by (intro totp_mono_same) (auto simp: results)
  qed
  show "totp_spent (uid, step) s' \<and> \<not> totp_spent (uid, step) s" if "p = SuTotp step"
    using g that advance_mono [of uid step s] totp_spent_cong [OF s'] by (auto simp: results)
qed

lemma remove_mfa_totp:
  assumes "remove_mfa_within_tx tgt s = Inr (v, s')"
  shows "totp_mono s s'"
proof -
  obtain rol s0 b s1 creds s2 where rol: "get_role_within_tx tgt s = Inr (rol, s0)"
    and "totp_delete_within_tx tgt s0 = Inr (b, s1)"
    and list: "webauthn_list_for_user_within_tx tgt s1 = Inr (creds, s2)"
    and del: "delete_passkeys tgt creds s2 = Inr ((), s')"
    using assms by (auto simp: remove_mfa_within_tx_def results)
  moreover have "user_totps s0 = user_totps s"
    using keepsD [OF keeps_get_role rol] .
  moreover have "user_totps s2 = user_totps s1"
    using keepsD [OF keeps_webauthn_list list] .
  moreover have "user_totps s' = user_totps s2"
    by (rule keepsD [OF keeps_delete_passkeys del]) simp
  ultimately show ?thesis
    by (auto simp: totp_mono_def totp_delete_within_tx_def set_delete_where)
qed

text \<open>Sign-in work by anyone, with any proof.\<close>

inductive sign_in_step :: "digest_env \<Rightarrow> store \<Rightarrow> store \<Rightarrow> bool" for cx where
  l01: "sign_in_with_password cx at session s = (r, s') \<Longrightarrow> sign_in_step cx s s'"
| l02: "complete_second_factor cx at pid session p s = (r, s') \<Longrightarrow> sign_in_step cx s s'"
| l05: "complete_step_up cx at uid sid q gate now s = (r, s') \<Longrightarrow> sign_in_step cx s s'"
| l06: "record_step_up_failure cx at uid sid now s = (r, s') \<Longrightarrow> sign_in_step cx s s'"
| l07: "record_second_factor_failure cx at uid policy t s = (r, s') \<Longrightarrow> sign_in_step cx s s'"
| u07: "admin_reset_mfa cx at admin sid tgt reason now s = (r, s') \<Longrightarrow> sign_in_step cx s s'"
| u07_cli: "operator_reset_mfa cx at tgt why s = (r, s') \<Longrightarrow> sign_in_step cx s s'"

lemma keeps_totp_l01: "keeps user_totps (sign_in_with_password_body session)"
  unfolding sign_in_with_password_body_def user_ops by (intro frame; simp)

lemma keeps_totp_l06: "keeps user_totps (record_step_up_failure_body uid sid now)"
  unfolding record_step_up_failure_body_def session_revoke_within_tx_def by (intro frame; simp)

lemma keeps_totp_l07: "keeps user_totps (record_second_factor_failure_body uid policy t)"
  unfolding record_second_factor_failure_body_def user_ops by (intro frame; simp)

lemma sign_in_step_totp: "sign_in_step cx s s' \<Longrightarrow> totp_mono s s'"
proof (induction rule: sign_in_step.cases)
  case (l01 at session r)
  then show ?case
    unfolding sign_in_with_password_def
    by (elim l01.class_a_store) (auto intro!: totp_mono_same dest: keepsD [OF keeps_totp_l01])
next
  case (l02 at pid session p r)
  then show ?case
    unfolding complete_second_factor_def
    by (elim l02.class_a_store) (auto intro!: totp_mono_same dest!: l02_totp(1) simp: totp_mono_def)
next
  case (l05 at uid sid q gate now r)
  then show ?case
    unfolding complete_step_up_def
    by (elim l05.class_a_store) (auto intro!: totp_mono_same dest!: l05_totp(1) simp: totp_mono_def)
next
  case (l06 at uid sid now r)
  then show ?case
    unfolding record_step_up_failure_def
    by (elim l06.class_a_store) (auto intro!: totp_mono_same dest: keepsD [OF keeps_totp_l06])
next
  case (l07 at uid policy t r)
  then show ?case
    unfolding record_second_factor_failure_def
    by (elim l07.class_a_store) (auto intro!: totp_mono_same dest: keepsD [OF keeps_totp_l07])
next
  case (u07 at admin sid tgt reason now r)
  then show ?case
    unfolding admin_reset_mfa_def admin_reset_mfa_body_def [abs_def]
    by (elim u07.class_a_store [unfolded admin_reset_mfa_body_def])
      (auto simp: totp_mono_def results dest!: step_up_evidence_ok remove_mfa_totp split: prod.splits)
next
  case (u07_cli at tgt why r)
  then show ?case
    unfolding operator_reset_mfa_def operator_reset_mfa_body_def [abs_def]
    by (elim u07_cli.class_a_store [unfolded operator_reset_mfa_body_def])
      (auto simp: totp_mono_def results dest!: remove_mfa_totp split: prod.splits)
qed

text \<open>Presenting a TOTP step: at the second-factor page or at a step-up.\<close>

datatype totp_use = AtSignIn instant uuid session_row | AtStepUp instant uuid string instant

definition present_totp :: "digest_env \<Rightarrow> uuid \<times> int \<Rightarrow> totp_use \<Rightarrow> store \<Rightarrow> (store_error + unit) \<times> store" where
  "present_totp cx k use s =
    (case use of
       AtSignIn at pid session \<Rightarrow>
         (case complete_second_factor cx at pid (session\<lparr>s_user_id := fst k\<rparr>) (SfTotp (snd k)) s of
            (Inl e, s') \<Rightarrow> (Inl e, s') | (Inr _, s') \<Rightarrow> (Inr (), s'))
     | AtStepUp at sid gate now \<Rightarrow> complete_step_up cx at (fst k) sid (SuTotp (snd k)) gate now s)"

lemma present_totp_cases:
  assumes "present_totp cx k use s = (r, s')"
  obtains (refused) e where "r = Inl e" "s' = s"
    | (accepted) "r = Inr ()" "totp_spent k s'" "\<not> totp_spent k s"
proof (cases use)
  case (AtSignIn at pid session)
  let ?ses = "session\<lparr>s_user_id := fst k\<rparr>"
  obtain q where run: "complete_second_factor cx at pid ?ses (SfTotp (snd k)) s = (q, s')"
    and r: "r = (case q of Inl e \<Rightarrow> Inl e | Inr _ \<Rightarrow> Inr ())"
    using assms by (auto simp: present_totp_def AtSignIn split: prod.splits sum.splits)
  show thesis
  proof (cases q)
    case (Inl e)
    then show thesis
      using run r refused l02.class_a_error unfolding complete_second_factor_def by fastforce
  next
    case (Inr v)
    then obtain w t a where "complete_second_factor_body pid ?ses (SfTotp (snd k)) s = Inr (w, t)" "s' = t\<lparr>audit := a\<rparr>"
      using run unfolding complete_second_factor_def by (auto elim!: l02.class_a_success)
    then show thesis
      using accepted r Inr l02_totp(2) [of pid ?ses "SfTotp (snd k)" s w t "snd k"] by (simp add: totp_spent_def)
  qed
next
  case (AtStepUp at sid gate now)
  then have run: "complete_step_up cx at (fst k) sid (SuTotp (snd k)) gate now s = (r, s')"
    using assms by (simp add: present_totp_def)
  show thesis
  proof (cases r)
    case (Inl e)
    then show thesis
      using run refused l05.class_a_error unfolding complete_step_up_def by fastforce
  next
    case (Inr v)
    then obtain w t a where "complete_step_up_body (fst k) sid (SuTotp (snd k)) gate now s = Inr (w, t)" "s' = t\<lparr>audit := a\<rparr>"
      using run unfolding complete_step_up_def by (auto elim!: l05.class_a_success)
    then show thesis
      using accepted Inr l05_totp(2) [of "fst k" sid "SuTotp (snd k)" gate now s w t "snd k"] by (simp add: totp_spent_def)
  qed
qed

interpretation totp_use: one_shot "\<lambda>_. True" "\<lambda>_. sign_in_step cx" "present_totp cx" totp_spent for cx
proof
  show "totp_spent k s'" if "present_totp cx k c s = (Inr a, s')" for k c s a s'
    using that by (rule present_totp_cases) simp_all
  show "\<exists>e s'. present_totp cx k c s = (Inl e, s') \<and> totp_spent k s'" if "totp_spent k s" for k c s
    using that by (cases "present_totp cx k c s" rule: prod.exhaust) (auto elim!: present_totp_cases)
  show "totp_spent k s'" if "totp_spent k s" "sign_in_step cx s s'" for k s s'
    using that totp_mono_spent sign_in_step_totp by blast
qed simp_all

section \<open>Counting failures\<close>

definition after_mfa_failure :: "(int \<Rightarrow> int option) \<Rightarrow> instant \<Rightarrow> user_row \<Rightarrow> user_row" where
  "after_mfa_failure policy t u =
    (let n = u_mfa_failure_count u + 1 in
     u\<lparr> u_mfa_failure_count := n,
        u_locked_until := (if n \<ge> MFA_FAILURE_LOCKOUT_THRESHOLD
          then Some (t + (case policy n of None \<Rightarrow> seconds 30 | Some w \<Rightarrow> w)) else u_locked_until u) \<rparr>)"

definition mfa_failure_store :: "uuid \<Rightarrow> int \<Rightarrow> (int \<Rightarrow> int option) \<Rightarrow> instant \<Rightarrow> store \<Rightarrow> store" where
  "mfa_failure_store uid n policy t s =
    s\<lparr> users := update_where (by_user_id uid) (after_mfa_failure policy t) (users s),
       login_pending_mfas := (if n \<ge> MFA_FAILURE_LOCKOUT_THRESHOLD
         then delete_where (\<lambda>r. pm_user_id r = uid) (login_pending_mfas s) else login_pending_mfas s) \<rparr>"

definition l07_event :: "uuid \<Rightarrow> int \<Rightarrow> (int \<Rightarrow> int option) \<Rightarrow> sealed_event" where
  "l07_event uid n policy =
    (if n \<ge> MFA_FAILURE_LOCKOUT_THRESHOLD
     then L07_lockout_event uid n (num_seconds (case policy n of None \<Rightarrow> seconds 30 | Some w \<Rightarrow> w))
     else L07_failure_event uid n)"

lemma l07_body_eq:
  assumes "users_keyed s" "u \<in> set (users s)" "n = u_mfa_failure_count u + 1"
  shows "record_second_factor_failure_body (u_id u) policy t s =
    Inr ((\<lparr> sff_count = n, sff_locked = (n \<ge> MFA_FAILURE_LOCKOUT_THRESHOLD) \<rparr>, l07_event (u_id u) n policy),
      mfa_failure_store (u_id u) n policy t s)"
proof -
  let ?p = "by_user_id (u_id u)"
  let ?w = "case policy n of None \<Rightarrow> seconds 30 | Some w \<Rightarrow> w"
  have found: "List.find ?p (users s) = Some u"
    using assms by (simp add: find_user_iff)
  have same: "r = u" if "r \<in> set (users s)" "?p r" for r
    using distinct_key_eq [of u_id "users s" r u] assms that by (simp add: users_keyed_def by_user_id_def)
  have low: "update_where ?p (\<lambda>u. u\<lparr> u_mfa_failure_count := u_mfa_failure_count u + 1 \<rparr>) (users s)
      = update_where ?p (after_mfa_failure policy t) (users s)" if "\<not> n \<ge> MFA_FAILURE_LOCKOUT_THRESHOLD"
    using that assms(3) same by (intro update_where_cong) (auto simp: after_mfa_failure_def Let_def)
  have high: "update_where ?p (\<lambda>u. u\<lparr> u_locked_until := Some (t + ?w) \<rparr>)
        (update_where ?p (\<lambda>u. u\<lparr> u_mfa_failure_count := u_mfa_failure_count u + 1 \<rparr>) (users s))
      = update_where ?p (after_mfa_failure policy t) (users s)" if "n \<ge> MFA_FAILURE_LOCKOUT_THRESHOLD"
    using that assms(3) same
    by (subst update_where_twice, simp) (intro update_where_cong, auto simp: after_mfa_failure_def Let_def)
  show ?thesis
    using found low high assms(3)
    by (simp add: record_second_factor_failure_body_def increment_mfa_failure_within_tx_def tx_bind_def
        update_user_def pending_mfa_delete_all_for_user_within_tx_def Let_def mfa_failure_store_def l07_event_def)
qed

lemma checked_L07:
  assumes "\<bar>n\<bar> < 10 ^ 19" "\<bar>num_seconds (case policy n of None \<Rightarrow> seconds 30 | Some w \<Rightarrow> w)\<bar> < 10 ^ 19"
  shows "\<exists>attrs. checked_attributes (l07_event uid n policy) = Inr attrs"
proof -
  let ?k = "num_seconds (case policy n of None \<Rightarrow> seconds 30 | Some w \<Rightarrow> w)"
  have "checked_attributes (L07_failure_event uid n) = Inr [(''count'', dec_int n)]"
    "checked_attributes (L07_lockout_event uid n ?k) = Inr [(''count'', dec_int n), (''locked_for_secs'', dec_int ?k)]"
    using length_dec_int_bound [of 19 n] length_dec_int_bound [of 19 ?k] assms
    unfolding L07_failure_event_def L07_lockout_event_def
    by (auto intro!: checked_ok_event simp: attribute_bounds)
  then show ?thesis
    by (simp add: l07_event_def)
qed

definition after_step_up_failure :: "instant \<Rightarrow> session_row \<Rightarrow> session_row" where
  "after_step_up_failure now r =
    (let n = s_step_up_failure_count r + 1 in
     r\<lparr> s_step_up_failure_count := n,
        s_revoked_at := (if n \<ge> STEP_UP_FAILURE_REVOCATION_THRESHOLD then Some now else s_revoked_at r) \<rparr>)"

definition l06_event :: "uuid \<Rightarrow> int \<Rightarrow> sealed_event" where
  "l06_event uid n =
    (if n \<ge> STEP_UP_FAILURE_REVOCATION_THRESHOLD then L06_revoked_event uid n else L06_failure_event uid n)"

lemma l06_body_eq:
  assumes "sessions_keyed s" "r \<in> set (sessions s)" "s_revoked_at r = None" "n = s_step_up_failure_count r + 1"
  shows "record_step_up_failure_body (s_user_id r) (s_id r) now s =
    Inr ((\<lparr> suf_count = n, suf_session_revoked = (n \<ge> STEP_UP_FAILURE_REVOCATION_THRESHOLD) \<rparr>, l06_event (s_user_id r) n),
      s\<lparr>sessions := update_where (by_session_id (s_id r)) (after_step_up_failure now) (sessions s)\<rparr>)"
proof -
  let ?p = "\<lambda>q. s_id q = s_id r \<and> s_user_id q = s_user_id r \<and> s_revoked_at q = None"
  let ?f = "\<lambda>q. q\<lparr>s_step_up_failure_count := s_step_up_failure_count q + 1\<rparr>"
  let ?s1 = "s\<lparr>sessions := update_where ?p ?f (sessions s)\<rparr>"
  have inc: "increment_step_up_failure_within_tx (s_id r) (s_user_id r) s = Inr (n, ?s1)"
    using increment_step_up_Inr_iff [OF assms(1)] assms(2-4) by blast
  have same: "s_user_id q = s_user_id r \<and> s_revoked_at q = None \<and> s_step_up_failure_count q + 1 = n"
    if "q \<in> set (sessions s)" "s_id q = s_id r" for q
    using distinct_key_eq [of s_id "sessions s" q r] assms that by (auto simp: sessions_keyed_def)
  have low: "update_where ?p ?f (sessions s) = update_where (by_session_id (s_id r)) (after_step_up_failure now) (sessions s)"
    if "\<not> n \<ge> STEP_UP_FAILURE_REVOCATION_THRESHOLD"
    using that by (auto simp: update_where_def by_session_id_def after_step_up_failure_def Let_def dest!: same)
  have high: "update_where (\<lambda>q. s_id q = s_id r \<and> s_revoked_at q = None) (\<lambda>q. q\<lparr>s_revoked_at := Some now\<rparr>)
        (update_where ?p ?f (sessions s))
      = update_where (by_session_id (s_id r)) (after_step_up_failure now) (sessions s)"
    if "n \<ge> STEP_UP_FAILURE_REVOCATION_THRESHOLD"
    using that by (auto simp: update_where_def by_session_id_def after_step_up_failure_def Let_def dest!: same)
  show ?thesis
    using inc low high
    by (simp add: record_step_up_failure_body_def tx_bind_def session_revoke_within_tx_def update_sessions_def l06_event_def)
qed

lemma checked_L06:
  assumes "\<bar>n\<bar> < 10 ^ 19"
  shows "checked_attributes (l06_event uid n) = Inr [(''count'', dec_int n)]"
  using length_dec_int_bound [of 19 n] assms unfolding l06_event_def L06_failure_event_def L06_revoked_event_def
  by (auto intro!: checked_ok_event simp: attribute_bounds)

lemma checked_L01:
  assumes "m < 10 ^ 18"
  shows "checked_attributes (L01_event uid (int m)) = Inr [(''evicted'', dec_int (int m))]"
  using length_dec_int_bound [of 18 "int m"] assms unfolding L01_event_def
  by (auto intro!: checked_ok_event simp: attribute_bounds)

lemma sign_in_commits:
  assumes "length (sessions s) < 10 ^ 9 - 1" "List.find (by_user_id (s_user_id session)) (users s) = Some u"
    and "may_sign_in (s_created_at session) u" "s_id session \<notin> s_id ` set (sessions s)"
  shows "\<exists>n s'. sign_in_with_password cx at session s = (Inr n, s')"
proof -
  let ?uid = "s_user_id session" and ?now = "s_created_at session"
  let ?s0 = "s\<lparr>users := update_where (by_user_id ?uid) (\<lambda>u. u\<lparr> u_failed_login_count := 0, u_locked_until := None,
          u_updated_at := ?now, u_last_login_at := Some ?now \<rparr>) (users s)\<rparr>"
  let ?s1 = "?s0\<lparr>sessions := sessions s @ [inserted_session session]\<rparr>"
  have login: "record_password_login_within_tx ?uid ?now s = Inr ((), ?s0)"
    using assms record_password_login_Inr_iff by blast
  have ins: "session_insert_within_tx session ?s0 = Inr ((), ?s1)"
    using assms by (simp add: results)
  have "length (sessions ?s1) < 10 ^ 9"
    using assms(1) by simp
  then obtain m where "evict_over_cap_within_tx ?uid ?now ?s1 = Inr (int m, ?s1\<lparr>sessions := evicted_rows ?uid ?now ?s1\<rparr>)"
    and m: "m < 10 ^ 18"
    by (rule evict_total)
  then have "sign_in_with_password_body session s = Inr ((int m, L01_event ?uid (int m)), ?s1\<lparr>sessions := evicted_rows ?uid ?now ?s1\<rparr>)"
    using login ins by (simp add: sign_in_with_password_body_def Let_def)
  from l01.class_a_commit [OF this checked_L01 [OF m]] show ?thesis
    by (simp add: sign_in_with_password_def)
qed

section \<open>Properties\<close>

definition demo_settings :: server_settings_row where
  "demo_settings = \<lparr> ss_default_lang = ''en'', ss_hibp_mode = HibpWarn, ss_idle_session_timeout_secs = 0,
     ss_max_concurrent_sessions = 1, ss_metrics_token_hash = None, ss_created_at = 0, ss_updated_at = 0 \<rparr>"

definition demo_sign_in :: store where
  "demo_sign_in = demo_accounts\<lparr> server_settings := Some demo_settings,
     user_totps := [\<lparr> ut_user_id = ''u1'', ut_secret_enc = [], ut_enabled = True, ut_recovery_codes_enc = None,
       ut_last_used_step = 6, ut_created_at = 0, ut_confirmed_at = Some 0 \<rparr>],
     login_pending_mfas := [\<lparr> pm_id = ''p1'', pm_user_id = ''u1'', pm_expires_at = seconds 300, pm_created_at = 0 \<rparr>] \<rparr>"

lemmas demo_sign_in_simps = demo_sign_in_def demo_settings_def demo_accounts_simps

definition demo_new_session :: session_row where
  "demo_new_session = (demo_session ''s3'' ''u1'')\<lparr>s_created_at := 1\<rparr>"

lemma demo_sign_in_ok: "sessions_keyed demo_sign_in" "users_keyed demo_sign_in" "cap_of demo_sign_in = 1"
  by (simp_all add: sessions_keyed_def users_keyed_def cap_of_def demo_sign_in_simps)

text \<open>A password sign-in commits exactly when the user, read again inside the transaction, exists, is
  neither disabled nor deleted, and is not locked at that moment (and the session id is new); a refused
  sign-in changes nothing.\<close>

theorem password_sign_in_iff:
  assumes "length (sessions s) < 10 ^ 9 - 1"
  shows "is_ok (fst (sign_in_with_password cx at session s)) \<longleftrightarrow>
    (\<exists>u. List.find (by_user_id (s_user_id session)) (users s) = Some u \<and> may_sign_in (s_created_at session) u)
    \<and> s_id session \<notin> s_id ` set (sessions s)" (is "?ok \<longleftrightarrow> ?can")
proof
  assume ?ok
  then obtain v s' where "sign_in_with_password cx at session s = (Inr v, s')"
    by (cases "sign_in_with_password cx at session s") (auto simp: results)
  then obtain w t a where "sign_in_with_password_body session s = Inr (w, t)"
    unfolding sign_in_with_password_def by (rule l01.class_a_success)
  then show ?can
    by (rule sign_in_body_success) blast
next
  assume ?can
  then obtain n s' where "sign_in_with_password cx at session s = (Inr n, s')"
    using sign_in_commits [OF assms] by blast
  then show ?ok
    by simp
qed

theorem password_sign_in_iff_witness:
  "is_ok (fst (sign_in_with_password demo_env 0 demo_new_session demo_sign_in)) \<and>
   \<not> is_ok (fst (sign_in_with_password demo_env 0 demo_new_session
      (demo_sign_in\<lparr>users := [(demo_user ''u1'' User)\<lparr>u_locked_until := Some 2\<rparr>]\<rparr>)))"
  by (simp add: password_sign_in_iff demo_sign_in_simps demo_new_session_def by_user_id_def may_sign_in_def
      user_active_def locked_at_def)

text \<open>After a sign-in, by password or by second factor, the user has at most the configured number of
  active sessions, and the session just created is one of them unless an older clock reading outranks it.\<close>

theorem session_cap_enforced:
  assumes "sessions_keyed s" "0 < cap_of s"
    and "sign_in_with_password cx at session s = (Inr v, s') \<or> complete_second_factor cx at pid session p s = (Inr w, s')"
  shows "int (affected (session_active (s_user_id session) (s_created_at session)) (sessions s')) \<le> cap_of s \<and>
    (s_revoked_at session = None \<longrightarrow> s_expires_at session > s_created_at session \<longrightarrow>
     (\<forall>r \<in> set (sessions s). session_active (s_user_id session) (s_created_at session) r \<longrightarrow> s_created_at r \<le> s_created_at session) \<longrightarrow>
     (\<exists>r \<in> set (sessions s'). s_id r = s_id session \<and> session_active (s_user_id session) (s_created_at session) r))"
proof -
  let ?uid = "s_user_id session" and ?now = "s_created_at session"
  obtain s1 new where s1: "sessions s1 = sessions s @ [new]" "server_settings s1 = server_settings s"
    and new: "s_id new = s_id session" "s_user_id new = ?uid" "s_created_at new = ?now"
      "s_revoked_at new = s_revoked_at session" "s_expires_at new = s_expires_at session"
    and fresh: "s_id session \<notin> s_id ` set (sessions s)" and s': "sessions s' = evicted_rows ?uid ?now s1"
    using assms(3) unfolding sign_in_with_password_def complete_second_factor_def
    by (elim disjE l01.class_a_success l02.class_a_success)
      (erule sign_in_body_success second_factor_body_success, fastforce simp: inserted_session_def)+
  have fresh': "s_id new \<notin> s_id ` set (sessions s)"
    using fresh new by simp
  show ?thesis
    using cap_enforced [OF s1(1) fresh' assms(1) s1(2) assms(2), of ?uid ?now] new
    by (auto simp: s' session_active_def)
qed

lemma demo_evicts:
  "\<exists>n s'. sign_in_with_password demo_env 0 demo_new_session demo_sign_in = (Inr n, s')"
  by (rule sign_in_commits [where u = "demo_user ''u1'' User"])
    (simp_all add: demo_sign_in_simps demo_new_session_def by_user_id_def may_sign_in_def user_active_def locked_at_def)

theorem session_cap_enforced_witness:
  "\<exists>n s'. sign_in_with_password demo_env 0 demo_new_session demo_sign_in = (Inr n, s') \<and>
    affected (session_active ''u1'' 1) (sessions s') \<le> 1 \<and> affected (session_active ''u1'' 1) (sessions demo_sign_in) = 1 \<and>
    (\<exists>r \<in> set (sessions s'). s_id r = ''s3'' \<and> session_active ''u1'' 1 r)"
proof -
  obtain n s' where run: "sign_in_with_password demo_env 0 demo_new_session demo_sign_in = (Inr n, s')"
    using demo_evicts by blast
  show ?thesis
    using session_cap_enforced [OF demo_sign_in_ok(1) _ disjI1 [OF run]] run
    by (simp add: demo_sign_in_ok(3))
      (simp add: demo_sign_in_simps demo_new_session_def session_active_def affected_def seconds_def nanos_def)
qed

text \<open>A TOTP time step of a user is accepted at most once, counting both places that accept one (the
  second-factor sign-in and the step-up) and any interleaving with other sign-in work of any user.\<close>

theorem totp_step_single_use:
  assumes "uses (sign_in_step cx) (present_totp cx (uid, step)) s n s'"
  shows "n \<le> 1"
  using totp_use.at_most_once [where s = s and cx = cx and k = "(uid, step)"] assms by simp

lemma demo_step_up: "\<exists>s'. present_totp demo_env (''u1'', 7) (AtStepUp 0 ''s2'' ''/admin'' 1) demo_sign_in = (Inr (), s')"
proof -
  have live: "session_live ''s2'' ''u1'' 1 demo_sign_in"
    by (simp add: session_live_def get_with_user_active_def demo_sign_in_simps by_session_id_def by_user_id_def
        user_active_def seconds_def nanos_def)
  have "\<exists>s1. advance_last_used_step_within_tx ''u1'' 7 demo_sign_in = Inr ((), s1)"
    by (simp add: advance_last_used_step_within_tx_def results demo_sign_in_simps)
  then obtain s2 where "complete_step_up_body ''u1'' ''s2'' (SuTotp 7) ''/admin'' 1 demo_sign_in
      = Inr (((), L05_event ''u1'' ''totp'' ''/admin''), s2)"
    using live by (auto simp: complete_step_up_body_def require_live_session_within_tx_def record_step_up_within_tx_def
        update_sessions_def tx_bind_def)
  moreover have "checked_attributes (L05_event ''u1'' ''totp'' ''/admin'') = Inr [(''method'', ''totp''), (''gate'', ''/admin'')]"
    unfolding L05_event_def
    by (simp add: truncate_utf8_def STEP_UP_GATE_ATTRIBUTE_BYTES_def, intro checked_ok_event) (simp_all add: attribute_bounds)
  ultimately show ?thesis
    using l05.class_a_commit by (simp add: present_totp_def complete_step_up_def)
qed

theorem totp_step_single_use_witness:
  "\<exists>n s'. uses (sign_in_step demo_env) (present_totp demo_env (''u1'', 7)) demo_sign_in n s' \<and> n = 1 \<and> n \<le> 1"
proof -
  obtain s' where "present_totp demo_env (''u1'', 7) (AtStepUp 0 ''s2'' ''/admin'' 1) demo_sign_in = (Inr (), s')"
    using demo_step_up by blast
  then have "uses (sign_in_step demo_env) (present_totp demo_env (''u1'', 7)) demo_sign_in (Suc 0) s'"
    by (rule uses.success [OF uses.start])
  then show ?thesis
    using totp_step_single_use by (metis One_nat_def)
qed

text \<open>Every wrong second factor is counted; from the fifth in a row on, the account is locked (for the
  policy's window, or 30 seconds where the policy gives none) and every pending sign-in of the user is
  deleted, in the same transaction.\<close>

theorem second_factor_failures_lock:
  assumes "users_keyed s" "u \<in> set (users s)" "n = u_mfa_failure_count u + 1" "\<bar>n\<bar> < 10 ^ 19"
    and "\<bar>num_seconds (case policy n of None \<Rightarrow> seconds 30 | Some w \<Rightarrow> w)\<bar> < 10 ^ 19"
  shows "\<exists>row. record_second_factor_failure cx at (u_id u) policy t s =
    (Inr \<lparr> sff_count = n, sff_locked = (n \<ge> 5) \<rparr>,
     (mfa_failure_store (u_id u) n policy t s)\<lparr>audit := append_within_tx cx row (audit s)\<rparr>)"
  using l07.class_a_commit [OF l07_body_eq [OF assms(1-3)]] checked_L07 [of n policy "u_id u"] assms(4,5)
  by (fastforce simp: record_second_factor_failure_def MFA_FAILURE_LOCKOUT_THRESHOLD_def)

theorem second_factor_failures_lock_witness:
  "fst (record_second_factor_failure demo_env 0 ''u1'' (\<lambda>_. None) 9
      (demo_sign_in\<lparr>users := [(demo_user ''u1'' User)\<lparr>u_mfa_failure_count := 4\<rparr>]\<rparr>)) = Inr \<lparr> sff_count = 5, sff_locked = True \<rparr> \<and>
   map u_locked_until (users (snd (record_second_factor_failure demo_env 0 ''u1'' (\<lambda>_. None) 9
      (demo_sign_in\<lparr>users := [(demo_user ''u1'' User)\<lparr>u_mfa_failure_count := 4\<rparr>]\<rparr>)))) = [Some (9 + seconds 30)]"
proof -
  let ?u = "(demo_user ''u1'' User)\<lparr>u_mfa_failure_count := 4\<rparr>"
  obtain row where "record_second_factor_failure demo_env 0 (u_id ?u) (\<lambda>_. None) 9 (demo_sign_in\<lparr>users := [?u]\<rparr>) =
    (Inr \<lparr> sff_count = 5, sff_locked = True \<rparr>,
     (mfa_failure_store (u_id ?u) 5 (\<lambda>_. None) 9 (demo_sign_in\<lparr>users := [?u]\<rparr>))\<lparr>audit := append_within_tx demo_env row (audit demo_sign_in)\<rparr>)"
    using second_factor_failures_lock [of "demo_sign_in\<lparr>users := [?u]\<rparr>" ?u 5 "\<lambda>_. None" demo_env 0 9]
    by (auto simp: users_keyed_def demo_user_def num_seconds_def seconds_def nanos_def)
  then show ?thesis
    by (simp add: demo_user_def mfa_failure_store_def update_where_def by_user_id_def after_mfa_failure_def
        MFA_FAILURE_LOCKOUT_THRESHOLD_def Let_def)
qed

text \<open>Every failed step-up of an unrevoked session is counted on that session, and from the fifth in a
  row on the session is revoked in the same transaction.\<close>

theorem step_up_failures_revoke:
  assumes "sessions_keyed s" "r \<in> set (sessions s)" "s_revoked_at r = None" "n = s_step_up_failure_count r + 1"
    and "\<bar>n\<bar> < 10 ^ 19"
  shows "\<exists>row. record_step_up_failure cx at (s_user_id r) (s_id r) now s =
    (Inr \<lparr> suf_count = n, suf_session_revoked = (n \<ge> 5) \<rparr>,
     s\<lparr> sessions := update_where (by_session_id (s_id r)) (after_step_up_failure now) (sessions s),
        audit := append_within_tx cx row (audit s) \<rparr>)"
  using l06.class_a_commit [OF l06_body_eq [OF assms(1-4)] checked_L06 [OF assms(5)]]
  by (fastforce simp: record_step_up_failure_def STEP_UP_FAILURE_REVOCATION_THRESHOLD_def)

theorem step_up_failures_revoke_witness:
  "map s_revoked_at (sessions (snd (record_step_up_failure demo_env 0 ''u1'' ''s2'' 9
      (demo_sign_in\<lparr>sessions := [(demo_session ''s2'' ''u1'')\<lparr>s_step_up_failure_count := 4\<rparr>]\<rparr>)))) = [Some 9]"
proof -
  let ?r = "(demo_session ''s2'' ''u1'')\<lparr>s_step_up_failure_count := 4\<rparr>"
  obtain row where "record_step_up_failure demo_env 0 (s_user_id ?r) (s_id ?r) 9 (demo_sign_in\<lparr>sessions := [?r]\<rparr>) =
    (Inr \<lparr> suf_count = 5, suf_session_revoked = True \<rparr>,
     demo_sign_in\<lparr> sessions := update_where (by_session_id (s_id ?r)) (after_step_up_failure 9) [?r],
        audit := append_within_tx demo_env row (audit demo_sign_in) \<rparr>)"
    using step_up_failures_revoke [of "demo_sign_in\<lparr>sessions := [?r]\<rparr>" ?r 5 demo_env 0 9]
    by (auto simp: sessions_keyed_def demo_session_def)
  then show ?thesis
    by (simp add: demo_session_def update_where_def by_session_id_def after_step_up_failure_def
        STEP_UP_FAILURE_REVOCATION_THRESHOLD_def Let_def)
qed

end
