(* ===== verification/Federation.thy ===== *)
theory Federation
  imports Sign_In One_Shot
begin

text \<open>
  Upstream federation, store side: the repositories \<open>repos/federation_provider.rs\<close>,
  \<open>repos/federation_link.rs\<close> and \<open>repos/federation_login_attempt.rs\<close>, Class-B emissions
  (\<open>emit_must_attempt\<close> of \<open>repos/audit.rs\<close>), the terminalisation of a failed attempt
  (\<open>http/federation_attempt_terminalize.rs\<close>), and the commands C16, C24, L04 and F04.

  The cascades of the schema are part of the deletions: removing a provider removes its links, and
  removing a link removes the second-factor continuations that hang on it with their ceremonies.
\<close>

section \<open>Providers\<close>

fun provision_mode_as_str :: "provision_mode \<Rightarrow> string" where
  "provision_mode_as_str LinkOnly = ''link_only''"
| "provision_mode_as_str ProvisionOnFirstLogin = ''provision_on_first_login''"

definition provision_mode_parse :: "string \<Rightarrow> provision_mode" where
  "provision_mode_parse t = (if t = ''provision_on_first_login'' then ProvisionOnFirstLogin else LinkOnly)"

definition FEDERATION_PROVIDER_AAD :: string where
  "FEDERATION_PROVIDER_AAD = ''federation_provider.client_secret''"

definition provider_get :: "uuid \<Rightarrow> store \<Rightarrow> store_error + federation_provider_row" where
  "provider_get pid s = ok_or (List.find (\<lambda>p. fp_id p = pid) (federation_providers s)) StoreNotFound"

definition provider_get_by_slug :: "string \<Rightarrow> store \<Rightarrow> store_error + federation_provider_row" where
  "provider_get_by_slug slug s = ok_or (List.find (\<lambda>p. fp_slug p = slug) (federation_providers s)) StoreNotFound"

definition provider_is_enabled_within_tx :: "uuid \<Rightarrow> bool tx" where
  "provider_is_enabled_within_tx pid s =
    (case provider_get pid s of Inl e \<Rightarrow> Inl e | Inr p \<Rightarrow> Inr (fp_enabled p, s))"

definition decrypt_client_secret :: "aead_env \<Rightarrow> federation_provider_row \<Rightarrow> store_error + string option" where
  "decrypt_client_secret ae row =
    (case fp_client_secret_enc row of
       None \<Rightarrow> Inr None
     | Some enc \<Rightarrow>
        (case open_sealed ae (master_key ae) enc FEDERATION_PROVIDER_AAD of
           Inl e \<Rightarrow> Inl e
         | Inr plain \<Rightarrow> if utf8_valid plain then Inr (Some plain) else Inl Crypto))"

definition provider_create_within_tx :: "federation_provider_row \<Rightarrow> unit tx" where
  "provider_create_within_tx row s =
    (if list_ex (\<lambda>p. fp_id p = fp_id row \<or> fp_slug p = fp_slug row) (federation_providers s)
     then Inl StoreConflict
     else Inr ((), s\<lparr>federation_providers := federation_providers s @ [row]\<rparr>))"

definition provider_set_enabled :: "uuid \<Rightarrow> bool \<Rightarrow> instant \<Rightarrow> unit tx" where
  "provider_set_enabled pid enabled now s =
    found_or StoreNotFound (affected (\<lambda>p. fp_id p = pid) (federation_providers s))
      (s\<lparr>federation_providers := update_where (\<lambda>p. fp_id p = pid)
        (\<lambda>p. p\<lparr> fp_enabled := enabled, fp_updated_at := now \<rparr>) (federation_providers s)\<rparr>)"

definition update_allowed_origins_within_tx :: "uuid \<Rightarrow> string \<Rightarrow> instant \<Rightarrow> nat tx" where
  "update_allowed_origins_within_tx pid allowed_origins now s =
    (case provider_get pid s of
       Inl e \<Rightarrow> Inl e
     | Inr p \<Rightarrow> Inr (length (split_whitespace (fp_allowed_origins p)),
         s\<lparr>federation_providers := update_where (\<lambda>p. fp_id p = pid)
           (\<lambda>p. p\<lparr> fp_allowed_origins := allowed_origins, fp_updated_at := now \<rparr>) (federation_providers s)\<rparr>))"

section \<open>Links\<close>

definition link_of :: "uuid \<Rightarrow> uuid \<Rightarrow> federation_link_row \<Rightarrow> bool" where
  "link_of uid pid l = (fl_user_id l = uid \<and> fl_provider_id l = pid)"

definition link_find_by_sub :: "uuid \<Rightarrow> string \<Rightarrow> store \<Rightarrow> federation_link_row option" where
  "link_find_by_sub pid upstream_sub s =
    List.find (\<lambda>l. fl_provider_id l = pid \<and> fl_upstream_sub l = upstream_sub) (federation_links s)"

definition link_list_for_user :: "uuid \<Rightarrow> store \<Rightarrow> federation_link_row list" where
  "link_list_for_user uid s = filter (\<lambda>l. fl_user_id l = uid) (federation_links s)"

definition links_clash :: "federation_link_row \<Rightarrow> federation_link_row \<Rightarrow> bool" where
  "links_clash a b =
    (fl_provider_id a = fl_provider_id b \<and>
      (fl_user_id a = fl_user_id b \<or> fl_upstream_sub a = fl_upstream_sub b))"

definition link_insert_within_tx :: "federation_link_row \<Rightarrow> unit tx" where
  "link_insert_within_tx row s =
    (if list_ex (links_clash row) (federation_links s) then Inl StoreConflict
     else Inr ((), s\<lparr>federation_links := federation_links s @ [row]\<rparr>))"

definition link_upsert :: "federation_link_row \<Rightarrow> unit tx" where
  "link_upsert row s =
    (if list_ex (link_of (fl_user_id row) (fl_provider_id row)) (federation_links s)
     then Inr ((), s\<lparr>federation_links := update_where (link_of (fl_user_id row) (fl_provider_id row))
       (\<lambda>l. l\<lparr> fl_upstream_email := fl_upstream_email row, fl_last_seen_at := fl_last_seen_at row \<rparr>)
       (federation_links s)\<rparr>)
     else if list_ex (links_clash row) (federation_links s)
     then Inl (Db ''UNIQUE constraint failed: federation_link.provider_id, federation_link.upstream_sub'')
     else Inr ((), s\<lparr>federation_links := federation_links s @ [row]\<rparr>))"

definition link_exists_within_tx :: "uuid \<Rightarrow> uuid \<Rightarrow> bool tx" where
  "link_exists_within_tx uid pid = tx_get (\<lambda>s. list_ex (link_of uid pid) (federation_links s))"

definition link_touch_last_seen_within_tx :: "uuid \<Rightarrow> uuid \<Rightarrow> instant \<Rightarrow> unit tx" where
  "link_touch_last_seen_within_tx uid pid now s =
    found_or StoreNotFound (affected (link_of uid pid) (federation_links s))
      (s\<lparr>federation_links := update_where (link_of uid pid) (\<lambda>l. l\<lparr> fl_last_seen_at := now \<rparr>) (federation_links s)\<rparr>)"

text \<open>What the foreign keys delete with a set of links.\<close>

definition drop_continuations :: "(federation_mfa_pending_row \<Rightarrow> bool) \<Rightarrow> store \<Rightarrow> store" where
  "drop_continuations p s =
    (let gone = map fm_id (filter p (federation_mfa_pendings s)) in
     s\<lparr>federation_mfa_pendings := delete_where p (federation_mfa_pendings s),
       federation_ceremonies := delete_where (\<lambda>c. fw_pending_id c \<in> set gone) (federation_ceremonies s)\<rparr>)"

definition link_delete :: "uuid \<Rightarrow> uuid \<Rightarrow> unit tx" where
  "link_delete uid pid s =
    found_or StoreNotFound (affected (link_of uid pid) (federation_links s))
      (drop_continuations (\<lambda>r. fm_user_id r = uid \<and> fm_provider_id r = pid)
        (s\<lparr>federation_links := delete_where (link_of uid pid) (federation_links s)\<rparr>))"

definition provider_delete :: "uuid \<Rightarrow> unit tx" where
  "provider_delete pid s =
    found_or StoreNotFound (affected (\<lambda>p. fp_id p = pid) (federation_providers s))
      (drop_continuations (\<lambda>r. fm_provider_id r = pid)
        (s\<lparr>federation_providers := delete_where (\<lambda>p. fp_id p = pid) (federation_providers s),
           federation_links := delete_where (\<lambda>l. fl_provider_id l = pid) (federation_links s)\<rparr>))"

section \<open>Login attempts\<close>

fun attempt_status_as_str :: "federation_login_attempt_status \<Rightarrow> string" where
  "attempt_status_as_str FaPending = ''pending''"
| "attempt_status_as_str FaExchanging = ''exchanging''"
| "attempt_status_as_str FaCompleted = ''completed''"
| "attempt_status_as_str FaFailed = ''failed''"

definition ATTEMPT_LIFETIME_SECS :: int where
  "ATTEMPT_LIFETIME_SECS = 600"

definition attempt_aad :: "uuid \<Rightarrow> uuid \<Rightarrow> int \<Rightarrow> int \<Rightarrow> string" where
  "attempt_aad aid pid version generation =
    aid @ [CHR 0x00] @ pid @ [CHR 0x00] @ dec_int version @ [CHR 0x00] @ dec_int generation"

text \<open>The identifier and the nonce are the random draws of one call.\<close>

definition attempt_insert ::
  "aead_env \<Rightarrow> uuid \<Rightarrow> string \<Rightarrow> uuid \<Rightarrow> int \<Rightarrow> int \<Rightarrow> string \<Rightarrow> string \<Rightarrow> string \<Rightarrow> string \<Rightarrow> string \<Rightarrow> string option
    \<Rightarrow> instant \<Rightarrow> federation_login_attempt_row tx" where
  "attempt_insert ae aid nonce pid version generation state_sha256 nonce_sha256 browser_binding_sha256
      pkce_verifier_plain exact_redirect_uri next_path now s =
    (case seal ae (master_key ae) nonce pkce_verifier_plain (attempt_aad aid pid version generation) of
       Inl e \<Rightarrow> Inl e
     | Inr sealed \<Rightarrow>
        let row = \<lparr> fa_id = aid, fa_provider_id = pid, fa_provider_config_version = version,
              fa_provider_activation_generation = generation, fa_state_sha256 = state_sha256,
              fa_nonce_sha256 = nonce_sha256, fa_browser_binding_sha256 = browser_binding_sha256,
              fa_pkce_verifier_sealed = sealed, fa_exact_redirect_uri = exact_redirect_uri, fa_next_path = next_path,
              fa_created_at = now, fa_expires_at = now + seconds ATTEMPT_LIFETIME_SECS, fa_status = FaPending,
              fa_claimed_at = None \<rparr> in
        if version < 0 \<or> generation < 0
          then Inl (Db ''CHECK constraint failed: federation_login_attempt'')
        else if list_ex (\<lambda>a. fa_id a = aid \<or> fa_state_sha256 a = state_sha256) (federation_attempts s)
          then Inl (Db ''UNIQUE constraint failed: federation_login_attempt'')
        else Inr (row, s\<lparr>federation_attempts := federation_attempts s @ [row]\<rparr>))"

definition attempt_find_by_state_sha256 :: "string \<Rightarrow> store \<Rightarrow> store_error + federation_login_attempt_row" where
  "attempt_find_by_state_sha256 h s =
    ok_or (List.find (\<lambda>a. fa_state_sha256 a = h) (federation_attempts s)) StoreNotFound"

text \<open>The checks of \<open>claim\<close> on the row it has read, in their order.\<close>

definition claim_check ::
  "instant \<Rightarrow> uuid \<Rightarrow> int \<Rightarrow> int \<Rightarrow> string \<Rightarrow> federation_login_attempt_row \<Rightarrow> store_error option" where
  "claim_check now_at_claim pid version generation binding row =
    (if fa_status row \<noteq> FaPending then Some StoreConflict
     else if now_at_claim < fa_created_at row then Some ClockRegression
     else if fa_expires_at row \<le> now_at_claim then Some AttemptExpired
     else if fa_provider_id row \<noteq> pid \<or> fa_provider_config_version row \<noteq> version
       \<or> fa_provider_activation_generation row \<noteq> generation then Some AttemptProviderMismatch
     else if fa_browser_binding_sha256 row \<noteq> binding then Some AttemptBrowserBindingMismatch
     else None)"

definition claimed_row :: "instant \<Rightarrow> federation_login_attempt_row \<Rightarrow> federation_login_attempt_row" where
  "claimed_row now a = a\<lparr> fa_status := FaExchanging, fa_claimed_at := Some now \<rparr>"

text \<open>\<open>claim\<close> reads, and then writes in a statement of its own: \<open>claim_read\<close> runs in the store the read
  saw and \<open>claim_write\<close> in the store of the guarded update.  The tamper check follows the committed
  update, so a row that fails it stays claimed.\<close>

definition claim_read ::
  "uuid \<Rightarrow> instant \<Rightarrow> uuid \<Rightarrow> int \<Rightarrow> int \<Rightarrow> string \<Rightarrow> store \<Rightarrow> store_error + federation_login_attempt_row" where
  "claim_read aid now_at_claim pid version generation binding s =
    (case List.find (\<lambda>a. fa_id a = aid) (federation_attempts s) of
       None \<Rightarrow> Inl StoreNotFound
     | Some row \<Rightarrow> (case claim_check now_at_claim pid version generation binding row of Some e \<Rightarrow> Inl e | None \<Rightarrow> Inr row))"

definition claim_write ::
  "aead_env \<Rightarrow> uuid \<Rightarrow> instant \<Rightarrow> federation_login_attempt_row \<Rightarrow> store
    \<Rightarrow> (store_error + federation_login_attempt_row) \<times> store" where
  "claim_write ae aid now_at_claim row s =
    (let p = (\<lambda>a. fa_id a = aid \<and> fa_status a = FaPending);
         s' = s\<lparr>federation_attempts := update_where p (claimed_row now_at_claim) (federation_attempts s)\<rparr> in
     if affected p (federation_attempts s) = 0 then (Inl StoreConflict, s)
     else (case open_sealed ae (master_key ae) (fa_pkce_verifier_sealed row)
              (attempt_aad (fa_id row) (fa_provider_id row) (fa_provider_config_version row)
                (fa_provider_activation_generation row)) of
             Inl e \<Rightarrow> (Inl e, s')
           | Inr _ \<Rightarrow> (Inr (claimed_row now_at_claim row), s')))"

definition claim ::
  "aead_env \<Rightarrow> uuid \<Rightarrow> instant \<Rightarrow> uuid \<Rightarrow> int \<Rightarrow> int \<Rightarrow> string \<Rightarrow> store
    \<Rightarrow> (store_error + federation_login_attempt_row) \<times> store" where
  "claim ae aid now_at_claim pid version generation binding s =
    (case claim_read aid now_at_claim pid version generation binding s of
       Inl e \<Rightarrow> (Inl e, s)
     | Inr row \<Rightarrow> claim_write ae aid now_at_claim row s)"

definition attempt_purge_expired :: "instant \<Rightarrow> nat tx" where
  "attempt_purge_expired now s =
    (let p = (\<lambda>a. fa_expires_at a < now - hours 24) in
     Inr (affected p (federation_attempts s),
       s\<lparr>federation_attempts := delete_where p (federation_attempts s)\<rparr>))"

definition unfinished :: "uuid \<Rightarrow> federation_login_attempt_row \<Rightarrow> bool" where
  "unfinished aid a = (fa_id a = aid \<and> (fa_status a = FaPending \<or> fa_status a = FaExchanging))"

definition terminalize_failed :: "uuid \<Rightarrow> instant \<Rightarrow> unit tx" where
  "terminalize_failed aid now s =
    found_or StoreConflict (affected (unfinished aid) (federation_attempts s))
      (s\<lparr>federation_attempts := update_where (unfinished aid)
        (\<lambda>a. a\<lparr> fa_status := FaFailed,
          fa_claimed_at := (case fa_claimed_at a of None \<Rightarrow> Some now | Some t \<Rightarrow> Some t) \<rparr>) (federation_attempts s)\<rparr>)"

definition attempt_complete_within_tx :: "uuid \<Rightarrow> unit tx" where
  "attempt_complete_within_tx aid s =
    (let p = (\<lambda>a. fa_id a = aid \<and> fa_status a = FaExchanging) in
     found_or StoreConflict (affected p (federation_attempts s))
       (s\<lparr>federation_attempts := update_where p (\<lambda>a. a\<lparr> fa_status := FaCompleted \<rparr>) (federation_attempts s)\<rparr>))"

section \<open>Class-B emissions\<close>

datatype must_attempt_outcome = Recorded | EmissionFailed

text \<open>The state of the log after an attempt to record, and how the attempt ended.  The append itself is
  assumed to reach the disk.\<close>

definition emit_must_attempt ::
  "digest_env \<Rightarrow> event_descriptor \<Rightarrow> instant \<Rightarrow> uuid option \<Rightarrow> string option \<Rightarrow> string
    \<Rightarrow> audit_build_error + attributes \<Rightarrow> store \<Rightarrow> must_attempt_outcome \<times> store" where
  "emit_must_attempt cx d at actor tgt res attributes s =
    (case attributes of
       Inl _ \<Rightarrow> (EmissionFailed, s)
     | Inr attrs \<Rightarrow>
        (case missing_required d attrs of
           Some _ \<Rightarrow> (EmissionFailed, s)
         | None \<Rightarrow> (Recorded, s\<lparr>audit := append_within_tx cx
             \<lparr> al_at = at, al_actor = actor, al_action = ed_name d, al_target = tgt, al_result = res,
               al_note = render_note attrs \<rparr> (audit s)\<rparr>)))"

section \<open>F05: a failed attempt\<close>

datatype upstream_failure_detail =
    UpstreamErrorResponse | DiscoveryRejected | DiscoveryFailed | TokenExchangeFailed | TokenParseFailed
  | UserinfoFetchFailed

fun upstream_detail_as_str :: "upstream_failure_detail \<Rightarrow> string" where
  "upstream_detail_as_str UpstreamErrorResponse = ''upstream_error_response''"
| "upstream_detail_as_str DiscoveryRejected = ''discovery_rejected''"
| "upstream_detail_as_str DiscoveryFailed = ''discovery_failed''"
| "upstream_detail_as_str TokenExchangeFailed = ''token_exchange_failed''"
| "upstream_detail_as_str TokenParseFailed = ''token_parse_failed''"
| "upstream_detail_as_str UserinfoFetchFailed = ''userinfo_fetch_failed''"

datatype denied_detail =
    ClientSecretDecryptFailed | PkceVerifierDecryptFailed | MissingIdToken | ConfigDrift | SignatureInvalid
  | NonceMismatch | IdentityClaimsInvalid | TimeClaimsInvalid | OptionalClaimsInvalid
  | TokenEndpointAuthMethodUnsupported | IdentityResolutionDbError | LinkUpsertDbError | UnverifiedEmail
  | ProvisionTransactionFailed | AccountDisabledOrDeleted | UserReadDbError | MfaStateReadDbError
  | PendingMfaIssueFailed | SigninCommitFailed | MfaPendingTransactionFailed

fun denied_detail_as_str :: "denied_detail \<Rightarrow> string" where
  "denied_detail_as_str ClientSecretDecryptFailed = ''client_secret_decrypt_failed''"
| "denied_detail_as_str PkceVerifierDecryptFailed = ''pkce_verifier_decrypt_failed''"
| "denied_detail_as_str MissingIdToken = ''missing_id_token''"
| "denied_detail_as_str ConfigDrift = ''config_drift''"
| "denied_detail_as_str SignatureInvalid = ''signature_invalid''"
| "denied_detail_as_str NonceMismatch = ''nonce_mismatch''"
| "denied_detail_as_str IdentityClaimsInvalid = ''identity_claims_invalid''"
| "denied_detail_as_str TimeClaimsInvalid = ''time_claims_invalid''"
| "denied_detail_as_str OptionalClaimsInvalid = ''optional_claims_invalid''"
| "denied_detail_as_str TokenEndpointAuthMethodUnsupported = ''token_endpoint_auth_method_unsupported''"
| "denied_detail_as_str IdentityResolutionDbError = ''identity_resolution_db_error''"
| "denied_detail_as_str LinkUpsertDbError = ''link_upsert_db_error''"
| "denied_detail_as_str UnverifiedEmail = ''unverified_email''"
| "denied_detail_as_str ProvisionTransactionFailed = ''provision_transaction_failed''"
| "denied_detail_as_str AccountDisabledOrDeleted = ''account_disabled_or_deleted''"
| "denied_detail_as_str UserReadDbError = ''user_read_db_error''"
| "denied_detail_as_str MfaStateReadDbError = ''mfa_state_read_db_error''"
| "denied_detail_as_str PendingMfaIssueFailed = ''pending_mfa_issue_failed''"
| "denied_detail_as_str SigninCommitFailed = ''signin_commit_failed''"
| "denied_detail_as_str MfaPendingTransactionFailed = ''mfa_pending_transaction_failed''"

datatype terminal_failure_reason =
    UpstreamFailure upstream_failure_detail | TakeoverBlocked | LinkRequired | Denied denied_detail

definition federation_failure_attributes :: "(string \<times> bool) list" where
  "federation_failure_attributes = [(''provider_id'', True), (''reason'', True)]"

fun reason_descriptor :: "terminal_failure_reason \<Rightarrow> event_descriptor" where
  "reason_descriptor (UpstreamFailure d) =
    \<lparr> ed_name = ''auth.federation.signin.upstream_failure'', ed_attributes = federation_failure_attributes \<rparr>"
| "reason_descriptor TakeoverBlocked =
    \<lparr> ed_name = ''auth.federation.takeover_blocked'', ed_attributes = federation_failure_attributes \<rparr>"
| "reason_descriptor LinkRequired =
    \<lparr> ed_name = ''auth.federation.link_required'', ed_attributes = federation_failure_attributes \<rparr>"
| "reason_descriptor (Denied d) =
    \<lparr> ed_name = ''auth.federation.signin.denied'', ed_attributes = federation_failure_attributes \<rparr>"

fun reason_token :: "terminal_failure_reason \<Rightarrow> string" where
  "reason_token (UpstreamFailure d) = upstream_detail_as_str d"
| "reason_token TakeoverBlocked = ''email_collision''"
| "reason_token LinkRequired = ''unlinked_identity''"
| "reason_token (Denied d) = denied_detail_as_str d"

definition terminalize_and_audit ::
  "digest_env \<Rightarrow> uuid \<Rightarrow> terminal_failure_reason \<Rightarrow> instant \<Rightarrow> uuid \<Rightarrow> uuid option \<Rightarrow> store \<Rightarrow> store" where
  "terminalize_and_audit cx aid reason at pid actor s =
    snd (emit_must_attempt cx (reason_descriptor reason) at actor None ''denied''
      (build_attributes [(''provider_id'', pid), (''reason'', reason_token reason)])
      (snd (with_tx (terminalize_failed aid at) s)))"

section \<open>C16 and C24: configured providers\<close>

definition C16_event :: "uuid \<Rightarrow> string \<Rightarrow> string \<Rightarrow> sealed_event" where
  "C16_event pid slug issuer =
    ok_event ''federation.provider.created'' [(''slug'', True), (''issuer'', True)] pid
      [(''slug'', slug), (''issuer'', issuer)]"

definition create_federation_provider_body ::
  "aead_env \<Rightarrow> string \<Rightarrow> federation_provider_row \<Rightarrow> string option \<Rightarrow> (unit \<times> sealed_event) tx" where
  "create_federation_provider_body ae nonce row client_secret_plain =
    tx_bind (case client_secret_plain of
        None \<Rightarrow> tx_return None
      | Some plain \<Rightarrow>
         (case seal ae (master_key ae) nonce plain FEDERATION_PROVIDER_AAD of
            Inl e \<Rightarrow> tx_fail e
          | Inr enc \<Rightarrow> tx_return (Some enc))) (\<lambda>enc.
    tx_bind (provider_create_within_tx (row\<lparr> fp_client_secret_enc := enc \<rparr>)) (\<lambda>_.
      tx_return ((), C16_event (fp_id row) (fp_slug row) (fp_issuer row))))"

definition create_federation_provider ::
  "digest_env \<Rightarrow> instant \<Rightarrow> aead_env \<Rightarrow> string \<Rightarrow> federation_provider_row \<Rightarrow> string option \<Rightarrow> store
    \<Rightarrow> (store_error + unit) \<times> store" where
  "create_federation_provider cx at ae nonce row client_secret_plain =
    class_a cx at None (create_federation_provider_body ae nonce row client_secret_plain)"

definition C24_event :: "uuid \<Rightarrow> nat \<Rightarrow> nat \<Rightarrow> sealed_event" where
  "C24_event pid origins_before origins_after =
    ok_event ''federation.provider.allowed_origins_changed'' [(''origins_before'', True), (''origins_after'', True)] pid
      [(''origins_before'', dec origins_before), (''origins_after'', dec origins_after)]"

definition update_federation_provider_allowed_origins_body ::
  "uuid \<Rightarrow> string \<Rightarrow> instant \<Rightarrow> (unit \<times> sealed_event) tx" where
  "update_federation_provider_allowed_origins_body pid allowed_origins now =
    tx_bind (update_allowed_origins_within_tx pid allowed_origins now) (\<lambda>origins_before.
      tx_return ((), C24_event pid origins_before (length (split_whitespace allowed_origins))))"

definition update_federation_provider_allowed_origins ::
  "digest_env \<Rightarrow> instant \<Rightarrow> uuid \<Rightarrow> string \<Rightarrow> instant \<Rightarrow> store \<Rightarrow> (store_error + unit) \<times> store" where
  "update_federation_provider_allowed_origins cx at pid allowed_origins now =
    class_a cx at None (update_federation_provider_allowed_origins_body pid allowed_origins now)"

section \<open>L04 and F04: a federated sign-in without a second factor\<close>

datatype invalidated_reason =
    InvExpired | ProviderChanged | ProviderDisabled | LinkChanged | UserInactive | FactorChanged | CeremonyInvalid

definition authority_drift_within_tx :: "uuid \<Rightarrow> uuid \<Rightarrow> invalidated_reason option tx" where
  "authority_drift_within_tx pid uid =
    tx_bind (provider_is_enabled_within_tx pid) (\<lambda>enabled.
    if \<not> enabled then tx_return (Some ProviderDisabled)
    else tx_bind (link_exists_within_tx uid pid) (\<lambda>linked.
    if \<not> linked then tx_return (Some LinkChanged)
    else tx_bind (is_active_within_tx uid) (\<lambda>active.
    if \<not> active then tx_return (Some UserInactive)
    else tx_return None)))"

definition record_federated_login_within_tx :: "uuid \<Rightarrow> instant \<Rightarrow> unit tx" where
  "record_federated_login_within_tx uid now s =
    (let p = (\<lambda>u. u_id u = uid \<and> user_active u) in
     found_or StoreNotFound (affected p (users s))
       (s\<lparr>users := update_where p (\<lambda>u. u\<lparr> u_last_login_at := Some now \<rparr>) (users s)\<rparr>))"

definition L04_event :: "uuid \<Rightarrow> string \<Rightarrow> int \<Rightarrow> sealed_event" where
  "L04_event uid provider evicted =
    ok_event ''auth.federation.signin.success'' [(''provider'', False), (''evicted'', False)] uid
      [(''provider'', provider), (''evicted'', dec_int evicted)]"

definition sign_in_federated_body :: "uuid \<Rightarrow> uuid \<Rightarrow> string \<Rightarrow> session_row \<Rightarrow> (int \<times> sealed_event) tx" where
  "sign_in_federated_body aid pid provider_slug session =
    (let uid = s_user_id session; now = s_created_at session in
     tx_bind (attempt_complete_within_tx aid) (\<lambda>_.
     tx_bind (authority_drift_within_tx pid uid) (\<lambda>drift.
     tx_bind (tx_guard (drift = None) StoreConflict) (\<lambda>_.
     tx_bind (record_federated_login_within_tx uid now) (\<lambda>_.
     tx_bind (session_insert_within_tx session) (\<lambda>_.
     tx_bind (evict_over_cap_within_tx uid now) (\<lambda>evicted.
       tx_return (evicted, L04_event uid provider_slug evicted))))))))"

definition sign_in_federated ::
  "digest_env \<Rightarrow> instant \<Rightarrow> uuid \<Rightarrow> uuid \<Rightarrow> string \<Rightarrow> session_row \<Rightarrow> store \<Rightarrow> (store_error + int) \<times> store" where
  "sign_in_federated cx at aid pid provider_slug session =
    class_a cx at (Some (s_user_id session)) (sign_in_federated_body aid pid provider_slug session)"

definition F04_event :: "uuid \<Rightarrow> uuid \<Rightarrow> sealed_event" where
  "F04_event uid pid =
    ok_event ''auth.federation.provisioned'' [(''provider_id'', False), (''mode'', False)] uid
      [(''provider_id'', pid), (''mode'', ''provision_on_first_login'')]"

definition provision_federated_user_body ::
  "(string \<Rightarrow> string) \<Rightarrow> uuid \<Rightarrow> uuid \<Rightarrow> user_row \<Rightarrow> federation_link_row \<Rightarrow> session_row \<Rightarrow> (int \<times> sealed_event) tx" where
  "provision_federated_user_body lower aid pid user link session =
    (let uid = s_user_id session; now = s_created_at session in
     tx_bind (attempt_complete_within_tx aid) (\<lambda>_.
     tx_bind (create_within_tx lower user) (\<lambda>_.
     tx_bind (link_insert_within_tx link) (\<lambda>_.
     tx_bind (session_insert_within_tx session) (\<lambda>_.
     tx_bind (evict_over_cap_within_tx uid now) (\<lambda>evicted.
       tx_return (evicted, F04_event uid pid)))))))"

definition provision_federated_user ::
  "digest_env \<Rightarrow> instant \<Rightarrow> (string \<Rightarrow> string) \<Rightarrow> uuid \<Rightarrow> uuid \<Rightarrow> user_row \<Rightarrow> federation_link_row \<Rightarrow> session_row \<Rightarrow> store
    \<Rightarrow> (store_error + int) \<times> store" where
  "provision_federated_user cx at lower aid pid user link session =
    class_a cx at (Some (s_user_id session)) (provision_federated_user_body lower aid pid user link session)"

section \<open>Every body leaves the audit log to the runner\<close>

lemma keeps_federation_reads [frame]:
  "keeps part (provider_is_enabled_within_tx pid)"
  "keeps part (link_exists_within_tx uid pid)"
  "keeps part (is_active_within_tx uid)"
  by (auto simp: keeps_def provider_is_enabled_within_tx_def link_exists_within_tx_def is_active_within_tx_def
      read_user_def results split: sum.splits)

lemma keeps_authority_drift [frame]: "keeps part (authority_drift_within_tx pid uid)"
  unfolding authority_drift_within_tx_def by (intro frame)

lemma keeps_federation_writes [frame]:
  "(\<And>s x. part (s\<lparr>federation_providers := x\<rparr>) = part s) \<Longrightarrow> keeps part (provider_create_within_tx row)"
  "(\<And>s x. part (s\<lparr>federation_providers := x\<rparr>) = part s) \<Longrightarrow> keeps part (update_allowed_origins_within_tx pid origins now)"
  "(\<And>s x. part (s\<lparr>federation_links := x\<rparr>) = part s) \<Longrightarrow> keeps part (link_insert_within_tx link)"
  "(\<And>s x. part (s\<lparr>federation_links := x\<rparr>) = part s) \<Longrightarrow> keeps part (link_touch_last_seen_within_tx uid pid now)"
  "(\<And>s x. part (s\<lparr>federation_attempts := x\<rparr>) = part s) \<Longrightarrow> keeps part (attempt_complete_within_tx aid)"
  "(\<And>s x. part (s\<lparr>users := x\<rparr>) = part s) \<Longrightarrow> keeps part (record_federated_login_within_tx uid now)"
  by (auto simp: keeps_def provider_create_within_tx_def update_allowed_origins_within_tx_def link_insert_within_tx_def
      link_touch_last_seen_within_tx_def attempt_complete_within_tx_def record_federated_login_within_tx_def results Let_def
      split: sum.splits if_splits)

lemma keeps_seal_choice [frame]:
  "keeps part (case r of Inl e \<Rightarrow> tx_fail e | Inr enc \<Rightarrow> tx_return (Some enc))"
  by (cases r) (simp_all add: frame)

interpretation c16: command_body "create_federation_provider_body ae nonce row secret" for ae nonce row secret
  unfolding create_federation_provider_body_def by unfold_locales (intro frame; simp)

interpretation c24: command_body "update_federation_provider_allowed_origins_body pid origins now" for pid origins now
  unfolding update_federation_provider_allowed_origins_body_def by unfold_locales (intro frame; simp)

interpretation l04: command_body "sign_in_federated_body aid pid slug session" for aid pid slug session
  unfolding sign_in_federated_body_def Let_def by unfold_locales (intro frame; simp)

interpretation f04: command_body "provision_federated_user_body lower aid pid user link session"
    for lower aid pid user link session
  unfolding provision_federated_user_body_def user_ops Let_def by unfold_locales (intro frame; simp)

section \<open>Claiming an attempt\<close>

text \<open>The identifier is the primary key and the state digest is unique.\<close>

definition attempts_keyed :: "store \<Rightarrow> bool" where
  "attempts_keyed s = (distinct (map fa_id (federation_attempts s)) \<and> distinct (map fa_state_sha256 (federation_attempts s)))"

lemma claim_check_None_iff:
  "claim_check now pid version generation binding row = None \<longleftrightarrow>
    fa_status row = FaPending \<and> fa_created_at row \<le> now \<and> now < fa_expires_at row \<and> fa_provider_id row = pid
    \<and> fa_provider_config_version row = version \<and> fa_provider_activation_generation row = generation
    \<and> fa_browser_binding_sha256 row = binding"
  by (auto simp: claim_check_def)

definition opens :: "aead_env \<Rightarrow> federation_login_attempt_row \<Rightarrow> bool" where
  "opens ae row = is_ok (open_sealed ae (master_key ae) (fa_pkce_verifier_sealed row)
     (attempt_aad (fa_id row) (fa_provider_id row) (fa_provider_config_version row) (fa_provider_activation_generation row)))"

lemma claim_read_found:
  assumes "List.find (\<lambda>a. fa_id a = aid) (federation_attempts s) = Some row"
  shows "fst (claim ae aid now pid version generation binding s) =
    (case claim_check now pid version generation binding row of
       Some e \<Rightarrow> Inl e
     | None \<Rightarrow> (case open_sealed ae (master_key ae) (fa_pkce_verifier_sealed row)
              (attempt_aad (fa_id row) (fa_provider_id row) (fa_provider_config_version row)
                (fa_provider_activation_generation row)) of Inl e \<Rightarrow> Inl e | Inr _ \<Rightarrow> Inr (claimed_row now row)))"
proof -
  have "row \<in> set (federation_attempts s)" "fa_id row = aid"
    using find_Some_in [OF assms] by auto
  then have "affected (\<lambda>a. fa_id a = aid \<and> fa_status a = FaPending) (federation_attempts s) > 0"
    if "fa_status row = FaPending"
    using that by (auto simp: affected_pos_iff)
  then show ?thesis
    using assms claim_check_None_iff [of now pid version generation binding row]
    by (auto simp: claim_def claim_read_def claim_write_def Let_def split: option.splits sum.splits)
qed

lemma attempt_insert_Inr:
  assumes "attempt_insert ae aid nonce pid version generation sh nh bh plain uri nxt now s = Inr (row, s')"
  shows "s' = s\<lparr>federation_attempts := federation_attempts s @ [row]\<rparr>" "fa_id row = aid"
    "aid \<notin> fa_id ` set (federation_attempts s)" "fa_status row = FaPending" "fa_created_at row = now"
    "fa_expires_at row = now + seconds ATTEMPT_LIFETIME_SECS" "fa_provider_id row = pid"
    "fa_provider_config_version row = version" "fa_provider_activation_generation row = generation"
    "fa_browser_binding_sha256 row = bh"
    "seal ae (master_key ae) nonce plain (attempt_aad aid pid version generation) = Inr (fa_pkce_verifier_sealed row)"
  using assms by (auto simp: attempt_insert_def Let_def list_ex_iff split: sum.splits if_splits)

text \<open>The window of a federated sign-in attempt.  An attempt started at \<open>t\<close> can be claimed exactly in
  the 600 seconds from \<open>t\<close> on, by the browser it was bound to and for the same provider, configuration
  version and activation generation; a clock that runs backwards does not widen the window, and the
  sealed PKCE verifier opens again.\<close>

theorem federated_attempt_window:
  assumes "aead_ok ae" "length nonce = NONCE_LEN"
    and "attempt_insert ae aid nonce pid version generation sh nh bh plain uri nxt t s = Inr (row, s')"
  shows "is_ok (fst (claim ae aid now pid' version' generation' bh' s')) \<longleftrightarrow>
    t \<le> now \<and> now < t + seconds 600 \<and> pid' = pid \<and> version' = version \<and> generation' = generation \<and> bh' = bh"
proof -
  note ins = attempt_insert_Inr [OF assms(3)]
  have "open_sealed ae (master_key ae) (fa_pkce_verifier_sealed row) (attempt_aad aid pid version generation) = Inr plain"
    using open_seal [OF assms(1,2) ins(11)] .
  moreover have "List.find (\<lambda>a. fa_id a = aid) (federation_attempts s') = Some row"
    using find_append_new [of fa_id row "federation_attempts s"] ins(1-3) by simp
  ultimately show ?thesis
    using claim_check_None_iff [of now pid' version' generation' bh' row] ins
    by (auto simp: claim_read_found ATTEMPT_LIFETIME_SECS_def split: option.splits)
qed

theorem federated_attempt_window_witness:
  "\<exists>row s'. attempt_insert demo_aead ''a1'' (replicate 24 CHR ''n'') ''p1'' 0 0 ''st'' ''no'' ''bb'' ''v'' ''https://rp/cb'' None 0 empty_store
      = Inr (row, s')
    \<and> is_ok (fst (claim demo_aead ''a1'' (seconds 599) ''p1'' 0 0 ''bb'' s'))
    \<and> \<not> is_ok (fst (claim demo_aead ''a1'' (seconds 600) ''p1'' 0 0 ''bb'' s'))
    \<and> \<not> is_ok (fst (claim demo_aead ''a1'' (seconds 599) ''p1'' 0 0 ''xx'' s'))"
proof -
  have n: "length (replicate 24 CHR ''n'') = NONCE_LEN"
    by (simp add: NONCE_LEN_def)
  obtain row s' where ins: "attempt_insert demo_aead ''a1'' (replicate 24 CHR ''n'') ''p1'' 0 0 ''st'' ''no'' ''bb'' ''v'' ''https://rp/cb'' None 0 empty_store
      = Inr (row, s')"
    by (simp add: attempt_insert_def empty_store_def seal_def demo_aead_def Let_def)
  note window = federated_attempt_window [OF demo_aead_ok n ins]
  show ?thesis
    by (intro exI conjI, rule ins) (simp_all add: window seconds_def nanos_def)
qed

end
