(* ===== verification/Outbox.thy ===== *)
theory Outbox
  imports Recovery
begin

text \<open>
  Outgoing mail: the persistent queue (\<open>repos/email_outbox.rs\<close>), the sender that fills it and the worker
  that drains it (\<open>communication/mail/outbox.rs\<close>), the relay configuration a delivery reads
  (\<open>repos/smtp_config.rs\<close>) and the production sender (\<open>communication/mail.rs\<close>).  The SMTP session itself
  and the JSON codec are parameters.
\<close>

section \<open>Error texts\<close>

text \<open>\<open>Display\<close> of the store and core errors; the worker records them with a failed delivery.\<close>

fun recovery_refusal_text :: "recovery_refusal \<Rightarrow> string" where
  "recovery_refusal_text ReasonRequired = ''a reason is required''"
| "recovery_refusal_text ReasonTooLong = ''the reason is too long (at most '' @ dec RECOVERY_REASON_MAX_CHARS
    @ '' characters, and at most '' @ dec MAX_ATTRIBUTE_VALUE_BYTES @ '' bytes)''"
| "recovery_refusal_text ReasonHasControlCharacters =
    ''the reason must not contain control characters such as a newline or tab''"
| "recovery_refusal_text TargetUnknown = ''no such user''"
| "recovery_refusal_text TargetIsSelf = ''the target is the issuing administrator''"
| "recovery_refusal_text TargetIsAdmin = ''the target is an administrator''"
| "recovery_refusal_text TargetNonLocal = ''the target is not a local account''"
| "recovery_refusal_text TargetDisabled = ''the target is disabled''"
| "recovery_refusal_text TargetDeleted = ''the target is deleted''"
| "recovery_refusal_text Throttled = ''the hourly limit of recovery links has been reached''"

fun store_error_text :: "store_error \<Rightarrow> string" where
  "store_error_text (Db _) = ''database I/O error''"
| "store_error_text Crypto = ''encryption / decryption failure''"
| "store_error_text (InvalidMasterKeyLength n) = ''invalid master key length: expected 32 bytes, got '' @ dec n"
| "store_error_text StoreNotFound = ''requested resource was not found''"
| "store_error_text StoreConflict = ''requested operation conflicts with current state''"
| "store_error_text (Integrity t) = ''data integrity violation: '' @ t"
| "store_error_text (Serde _) = ''serialization error''"
| "store_error_text (CorruptJson c e) = ''corrupt JSON in column '' @ [CHR 0x27] @ c @ [CHR 0x27] @ '': '' @ e"
| "store_error_text (JoinError t) = ''blocking DB task failed: '' @ t"
| "store_error_text (InvalidData t) = ''invalid data: '' @ t"
| "store_error_text StepUpRequired = ''a fresh step-up is required''"
| "store_error_text (RecoveryRefused r) = ''recovery link refused: '' @ recovery_refusal_text r"
| "store_error_text StoreAlreadyInitialized = ''the system is already initialized''"
| "store_error_text (SchemaTooNew found supported) =
    ''the database schema is newer than this build understands (found version '' @ dec_int found
    @ ''; this build supports up to '' @ dec_int supported @ '')''"
| "store_error_text (SchemaVersionInvalid tbls detail) =
    ''the database schema version is unreadable: '' @ detail @ '' ('' @ dec tbls @ '' application table(s))''"
| "store_error_text (MigrationFailed version _) = ''migration '' @ dec_int version @ '' failed to apply''"
| "store_error_text (NotReadOnly sql) = ''ReadConn refused a non-read-only statement: '' @ sql"
| "store_error_text (PragmaRefused sql) = ''ReadConn refuses PRAGMA unconditionally: '' @ sql"
| "store_error_text (NonContentEffectRefused keyword sql) =
    ''ReadConn refuses '' @ keyword @ '' unconditionally: it changes connection, transaction, or filesystem state ''
    @ ''even though sqlite3_stmt_readonly reports it read-only ('' @ sql @ '')''"
| "store_error_text (ExplainRefused sql) = ''ReadConn refuses EXPLAIN unconditionally: '' @ sql"
| "store_error_text AttemptExpired = ''the attempt expired before it was claimed''"
| "store_error_text ClockRegression =
    ''the wall clock read at claim time precedes the attempt'' @ [CHR 0x27] @ ''s created_at''"
| "store_error_text AttemptProviderMismatch =
    ''the attempt'' @ [CHR 0x27] @ ''s provider identity/version/generation does not match the caller'' @ [CHR 0x27] @ ''s''"
| "store_error_text AttemptBrowserBindingMismatch =
    ''the presented browser-binding digest does not match the attempt'' @ [CHR 0x27] @ ''s own''"

fun core_error_text :: "core_error \<Rightarrow> string" where
  "core_error_text InvalidCredentials = ''invalid credentials''"
| "core_error_text Unauthenticated = ''authentication required''"
| "core_error_text Forbidden = ''forbidden''"
| "core_error_text NotFound = ''resource not found''"
| "core_error_text (Conflict t) = ''conflict: '' @ t"
| "core_error_text (BadRequest t) = ''invalid request: '' @ t"
| "core_error_text NotInitialized = ''system not yet initialized''"
| "core_error_text AlreadyInitialized = ''system already initialized''"
| "core_error_text (Protocol code _) = ''OAuth/OIDC protocol error: '' @ protocol_as_str code"
| "core_error_text (Store e) = store_error_text e"
| "core_error_text Password = ''password hashing failure''"
| "core_error_text Jwt = ''JWT processing failure''"
| "core_error_text Internal = ''internal failure''"
| "core_error_text (ConfigError t) = ''configuration error: '' @ t"

section \<open>The relay configuration\<close>

text \<open>\<open>trim_end_matches\<close> of a slash.\<close>

definition trim_end_slash :: "string \<Rightarrow> string" where
  "trim_end_slash t = rev (dropWhile (\<lambda>c. c = CHR ''/'') (rev t))"

fun smtp_tls_mode_as_str :: "smtp_tls_mode \<Rightarrow> string" where
  "smtp_tls_mode_as_str TlsImplicit = ''implicit''"
| "smtp_tls_mode_as_str StartTls = ''starttls''"

definition smtp_tls_mode_parse :: "string \<Rightarrow> smtp_tls_mode option" where
  "smtp_tls_mode_parse t =
    (if t = ''implicit'' then Some TlsImplicit else if t = ''starttls'' then Some StartTls else None)"

definition SMTP_PASSWORD_AAD :: string where
  "SMTP_PASSWORD_AAD = ''smtp.password''"

definition smtp_config_get :: "store \<Rightarrow> smtp_config_row option" where
  "smtp_config_get s = smtp_config s"

text \<open>The update keeps the creation time of an existing row.\<close>

definition smtp_upsert_within_tx :: "smtp_config_row \<Rightarrow> unit tx" where
  "smtp_upsert_within_tx row =
    tx_modify (\<lambda>s. s\<lparr>smtp_config := Some (case smtp_config s of
        None \<Rightarrow> row
      | Some old \<Rightarrow> row\<lparr> sc_created_at := sc_created_at old \<rparr>)\<rparr>)"

definition decrypt_password :: "aead_env \<Rightarrow> smtp_config_row \<Rightarrow> store_error + string option" where
  "decrypt_password ae row =
    (case sc_password_enc row of
       None \<Rightarrow> Inr None
     | Some ct \<Rightarrow>
        (case open_sealed ae (master_key ae) ct SMTP_PASSWORD_AAD of
           Inl e \<Rightarrow> Inl e
         | Inr plaintext \<Rightarrow> if utf8_valid plaintext then Inr (Some plaintext) else Inl Crypto))"

definition seal_password :: "aead_env \<Rightarrow> string \<Rightarrow> string \<Rightarrow> store_error + string" where
  "seal_password ae nonce plaintext = seal ae (master_key ae) nonce plaintext SMTP_PASSWORD_AAD"

section \<open>Sending through the relay\<close>

record outgoing_mail =
  om_to :: string
  om_subject :: string
  om_text_body :: string
  om_html_body :: "string option"
  om_locale :: "string option"

record mail_send_outcome =
  mo_from :: string
  mo_to :: string
  mo_subject :: string

text \<open>One SMTP session: the configuration, the password, the EHLO name and the mail give success (\<open>None\<close>) or
  the text of the error.  The answer may differ from one session to the next.\<close>

type_synonym smtp_session = "smtp_config_row \<Rightarrow> string option \<Rightarrow> string \<Rightarrow> outgoing_mail option \<Rightarrow> string option"

definition smtp_test_connection :: "aead_env \<Rightarrow> smtp_session \<Rightarrow> string \<Rightarrow> store \<Rightarrow> core_error + unit" where
  "smtp_test_connection ae run ehlo s =
    (case smtp_config_get s of
       None \<Rightarrow> Inl (BadRequest ''SMTP is not configured'')
     | Some cfg \<Rightarrow>
        (case decrypt_password ae cfg of
           Inl e \<Rightarrow> Inl (Store e)
         | Inr password \<Rightarrow>
            (case run cfg password ehlo None of
               Some e \<Rightarrow> Inl (BadRequest (''SMTP test failed: '' @ e))
             | None \<Rightarrow> Inr ())))"

definition smtp_send :: "aead_env \<Rightarrow> smtp_session \<Rightarrow> string \<Rightarrow> outgoing_mail \<Rightarrow> store \<Rightarrow> core_error + mail_send_outcome" where
  "smtp_send ae run ehlo mail s =
    (case smtp_config_get s of
       None \<Rightarrow> Inl (BadRequest ''SMTP is not configured'')
     | Some cfg \<Rightarrow>
        if \<not> sc_enabled cfg then Inl (BadRequest ''SMTP is disabled'')
        else (case decrypt_password ae cfg of
           Inl e \<Rightarrow> Inl (Store e)
         | Inr password \<Rightarrow>
            (case run cfg password ehlo (Some mail) of
               Some e \<Rightarrow> Inl (BadRequest (''SMTP send failed: '' @ e))
             | None \<Rightarrow> Inr \<lparr> mo_from = sc_from_address cfg, mo_to = om_to mail, mo_subject = om_subject mail \<rparr>)))"

section \<open>The queue\<close>

fun email_outbox_state_as_str :: "email_outbox_state \<Rightarrow> string" where
  "email_outbox_state_as_str Queued = ''queued''"
| "email_outbox_state_as_str Sending = ''sending''"
| "email_outbox_state_as_str Sent = ''sent''"
| "email_outbox_state_as_str Failed = ''failed''"

definition RECIPIENT_AAD :: string where
  "RECIPIENT_AAD = ''email_outbox.recipient''"

definition PAYLOAD_AAD :: string where
  "PAYLOAD_AAD = ''email_outbox.payload''"

definition enqueue_within_tx :: "email_outbox_row \<Rightarrow> unit tx" where
  "enqueue_within_tx row s =
    (if list_ex (\<lambda>r. eo_id r = eo_id row) (email_outbox s)
     then Inl (Db ''UNIQUE constraint failed: email_outbox.id'')
     else Inr ((), s\<lparr>email_outbox := email_outbox s @
       [row\<lparr> eo_state := Queued, eo_attempt_count := 0, eo_last_error := None \<rparr>]\<rparr>))"

definition enqueue_email :: "email_outbox_row \<Rightarrow> store \<Rightarrow> (store_error + unit) \<times> store" where
  "enqueue_email row = protocol_tx (enqueue_within_tx row)"

definition eligible :: "instant \<Rightarrow> email_outbox_row \<Rightarrow> bool" where
  "eligible now r = (eo_state r = Queued \<and> eo_next_attempt_at r \<le> now)"

text \<open>\<open>ORDER BY next_attempt_at ASC LIMIT 1\<close>; among equal times the first row of the table.\<close>

fun first_due :: "email_outbox_row list \<Rightarrow> email_outbox_row option" where
  "first_due [] = None"
| "first_due (r # rs) =
    (case first_due rs of
       None \<Rightarrow> Some r
     | Some q \<Rightarrow> if eo_next_attempt_at q < eo_next_attempt_at r then Some q else Some r)"

definition claim_one_eligible :: "instant \<Rightarrow> store \<Rightarrow> email_outbox_row option \<times> store" where
  "claim_one_eligible now s =
    (case first_due (filter (eligible now) (email_outbox s)) of
       None \<Rightarrow> (None, s)
     | Some r \<Rightarrow>
        (Some (r\<lparr> eo_state := Sending, eo_updated_at := now \<rparr>),
         s\<lparr>email_outbox := update_where (\<lambda>q. eo_id q = eo_id r)
           (\<lambda>q. q\<lparr> eo_state := Sending, eo_updated_at := now \<rparr>) (email_outbox s)\<rparr>))"

definition mark_sent :: "uuid \<Rightarrow> instant \<Rightarrow> store \<Rightarrow> store" where
  "mark_sent oid now s = s\<lparr>email_outbox := update_where (\<lambda>q. eo_id q = oid)
     (\<lambda>q. q\<lparr> eo_state := Sent, eo_updated_at := now \<rparr>) (email_outbox s)\<rparr>"

definition record_failure :: "uuid \<Rightarrow> string \<Rightarrow> instant \<Rightarrow> instant \<Rightarrow> store \<Rightarrow> store" where
  "record_failure oid err next_at now s = s\<lparr>email_outbox := update_where (\<lambda>q. eo_id q = oid)
     (\<lambda>q. q\<lparr> eo_state := Queued, eo_attempt_count := eo_attempt_count q + 1, eo_last_error := Some err,
       eo_next_attempt_at := next_at, eo_updated_at := now \<rparr>) (email_outbox s)\<rparr>"

definition mark_permanently_failed :: "uuid \<Rightarrow> string \<Rightarrow> instant \<Rightarrow> store \<Rightarrow> store" where
  "mark_permanently_failed oid err now s = s\<lparr>email_outbox := update_where (\<lambda>q. eo_id q = oid)
     (\<lambda>q. q\<lparr> eo_state := Failed, eo_attempt_count := eo_attempt_count q + 1, eo_last_error := Some err,
       eo_updated_at := now \<rparr>) (email_outbox s)\<rparr>"

definition requeue_stuck_sending :: "instant \<Rightarrow> instant \<Rightarrow> store \<Rightarrow> nat \<times> store" where
  "requeue_stuck_sending threshold now s =
    (let p = (\<lambda>q. eo_state q = Sending \<and> eo_updated_at q < threshold) in
     (affected p (email_outbox s),
      s\<lparr>email_outbox := update_where p
        (\<lambda>q. q\<lparr> eo_state := Queued, eo_next_attempt_at := now, eo_updated_at := now \<rparr>) (email_outbox s)\<rparr>))"

section \<open>Putting mail into the queue\<close>

record outbox_payload =
  op_to :: string
  op_subject :: string
  op_text_body :: string
  op_html_body :: "string option"

text \<open>The JSON codec of the payload, with the text of a parse error.\<close>

record payload_codec =
  payload_to_vec :: "outbox_payload \<Rightarrow> string option"
  payload_from_slice :: "string \<Rightarrow> string + outbox_payload"

definition codec_ok :: "payload_codec \<Rightarrow> bool" where
  "codec_ok jc = (\<forall>p bytes. payload_to_vec jc p = Some bytes \<longrightarrow> payload_from_slice jc bytes = Inr p)"

definition encrypt_field :: "aead_env \<Rightarrow> string \<Rightarrow> string \<Rightarrow> string \<Rightarrow> core_error + string" where
  "encrypt_field ae nonce plaintext aad =
    (case seal ae (master_key ae) nonce plaintext aad of Inl _ \<Rightarrow> Inl Internal | Inr c \<Rightarrow> Inr c)"

definition payload_of :: "outgoing_mail \<Rightarrow> outbox_payload" where
  "payload_of mail = \<lparr> op_to = om_to mail, op_subject = om_subject mail, op_text_body = om_text_body mail,
     op_html_body = om_html_body mail \<rparr>"

text \<open>The two nonces and the row's identifier are the draws of one call.\<close>

definition outbox_send ::
  "aead_env \<Rightarrow> payload_codec \<Rightarrow> string \<Rightarrow> string \<Rightarrow> uuid \<Rightarrow> instant \<Rightarrow> outgoing_mail \<Rightarrow> store
    \<Rightarrow> (core_error + mail_send_outcome) \<times> store" where
  "outbox_send ae jc nonce1 nonce2 oid now mail s =
    (case encrypt_field ae nonce1 (om_to mail) RECIPIENT_AAD of
       Inl e \<Rightarrow> (Inl e, s)
     | Inr recipient_enc \<Rightarrow>
        (case payload_to_vec jc (payload_of mail) of
           None \<Rightarrow> (Inl Internal, s)
         | Some payload \<Rightarrow>
            (case encrypt_field ae nonce2 payload PAYLOAD_AAD of
               Inl e \<Rightarrow> (Inl e, s)
             | Inr payload_enc \<Rightarrow>
                (case with_tx (enqueue_within_tx
                    \<lparr> eo_id = oid, eo_state = Queued, eo_template = ''direct'', eo_recipient_enc = recipient_enc,
                      eo_payload_enc = payload_enc, eo_attempt_count = 0, eo_next_attempt_at = now, eo_last_error = None,
                      eo_locale = om_locale mail, eo_created_at = now, eo_updated_at = now \<rparr>) s of
                   (Inl e, s') \<Rightarrow> (Inl (Store e), s')
                 | (Inr _, s') \<Rightarrow>
                    (Inr \<lparr> mo_from = ''(queued)'', mo_to = om_to mail, mo_subject = om_subject mail \<rparr>, s')))))"

section \<open>The worker\<close>

definition BACKOFF_SECS :: "int list" where
  "BACKOFF_SECS = [30, 120, 600, 3600, 21600]"

definition next_attempt_at :: "int \<Rightarrow> instant \<Rightarrow> instant" where
  "next_attempt_at attempt_count now =
    now + seconds (if 0 \<le> attempt_count \<and> nat attempt_count < length BACKOFF_SECS
      then BACKOFF_SECS ! nat attempt_count else last BACKOFF_SECS)"

text \<open>\<open>&cleaned[..200]\<close> panics off a character boundary: \<open>None\<close>.\<close>

definition redact_smtp_error :: "string \<Rightarrow> string option" where
  "redact_smtp_error t =
    (let cleaned = map (\<lambda>c. if c = CHR 0x0D \<or> c = CHR 0x0A then CHR '' '' else c) t in
     if length cleaned > 200
     then (if is_char_boundary cleaned 200 then Some (take 200 cleaned @ map of_byte [0xE2, 0x80, 0xA6]) else None)
     else Some cleaned)"

record worker_env =
  we_aead :: aead_env
  we_codec :: payload_codec
  we_ehlo :: string
  we_max_attempts :: nat

definition failed_delivery :: "worker_env \<Rightarrow> instant \<Rightarrow> email_outbox_row \<Rightarrow> core_error \<Rightarrow> store \<Rightarrow> store option" where
  "failed_delivery we now row e s =
    (let attempt = eo_attempt_count row + 1 in
     case redact_smtp_error (core_error_text e) of
       None \<Rightarrow> None
     | Some err_str \<Rightarrow>
        Some (if attempt \<ge> int (we_max_attempts we)
              then mark_permanently_failed (eo_id row) err_str now s
              else record_failure (eo_id row) err_str (next_attempt_at attempt now) now s))"

definition mail_of_payload :: "outbox_payload \<Rightarrow> outgoing_mail" where
  "mail_of_payload p = \<lparr> om_to = op_to p, om_subject = op_subject p, om_text_body = op_text_body p,
     om_html_body = op_html_body p, om_locale = None \<rparr>"

definition process_row :: "worker_env \<Rightarrow> smtp_session \<Rightarrow> instant \<Rightarrow> email_outbox_row \<Rightarrow> store \<Rightarrow> store option" where
  "process_row we run now row s =
    (case open_sealed (we_aead we) (master_key (we_aead we)) (eo_payload_enc row) PAYLOAD_AAD of
       Inl _ \<Rightarrow> Some (mark_permanently_failed (eo_id row) ''decryption_error'' now s)
     | Inr payload_bytes \<Rightarrow>
        (case payload_from_slice (we_codec we) payload_bytes of
           Inl e \<Rightarrow> Some (mark_permanently_failed (eo_id row) (''deserialise_error: '' @ e) now s)
         | Inr p \<Rightarrow>
            (case smtp_send (we_aead we) run (we_ehlo we) (mail_of_payload p) s of
               Inr _ \<Rightarrow> Some (mark_sent (eo_id row) now s)
             | Inl e \<Rightarrow> failed_delivery we now row e s)))"

text \<open>The loop of \<open>run\<close> from one sleep to the next: it claims and processes without pausing until no row is
  due.  The clock is read for the claim (\<open>clk\<close>) and for the row (\<open>clk'\<close>), the relay may answer differently
  each time, and a panic ends the task.\<close>

datatype drained = AllDone store | Crashed store

partial_function (option) drain_outbox ::
  "worker_env \<Rightarrow> (nat \<Rightarrow> smtp_session) \<Rightarrow> (nat \<Rightarrow> instant) \<Rightarrow> (nat \<Rightarrow> instant) \<Rightarrow> nat \<Rightarrow> store \<Rightarrow> (nat \<times> drained) option" where
  "drain_outbox we runs clk clk' i s =
    (case claim_one_eligible (clk i) s of
       (None, s') \<Rightarrow> Some (i, AllDone s')
     | (Some row, s') \<Rightarrow>
        (case process_row we (runs i) (clk' i) row s' of
           None \<Rightarrow> Some (i, Crashed s')
         | Some s'' \<Rightarrow> drain_outbox we runs clk clk' (Suc i) s''))"

definition worker_start :: "instant \<Rightarrow> instant \<Rightarrow> store \<Rightarrow> store" where
  "worker_start now now' s = snd (requeue_stuck_sending (now - seconds 60) now' s)"

section \<open>The queue is keyed, and the worker spends attempts\<close>

definition outbox_keyed :: "store \<Rightarrow> bool" where
  "outbox_keyed s = distinct (map eo_id (email_outbox s))"

text \<open>Every write of the worker changes one row by its identifier.\<close>

definition rewrite_row :: "uuid \<Rightarrow> (email_outbox_row \<Rightarrow> email_outbox_row) \<Rightarrow> store \<Rightarrow> store" where
  "rewrite_row oid f s = s\<lparr>email_outbox := update_where (\<lambda>q. eo_id q = oid) f (email_outbox s)\<rparr>"

lemma worker_writes:
  "mark_sent oid now = rewrite_row oid (\<lambda>q. q\<lparr> eo_state := Sent, eo_updated_at := now \<rparr>)"
  "record_failure oid err next_at now = rewrite_row oid (\<lambda>q. q\<lparr> eo_state := Queued,
     eo_attempt_count := eo_attempt_count q + 1, eo_last_error := Some err, eo_next_attempt_at := next_at, eo_updated_at := now \<rparr>)"
  "mark_permanently_failed oid err now = rewrite_row oid (\<lambda>q. q\<lparr> eo_state := Failed,
     eo_attempt_count := eo_attempt_count q + 1, eo_last_error := Some err, eo_updated_at := now \<rparr>)"
  by (simp_all add: fun_eq_iff mark_sent_def record_failure_def mark_permanently_failed_def rewrite_row_def)

lemma rewrite_row_keyed: "(\<And>q. eo_id (f q) = eo_id q) \<Longrightarrow> outbox_keyed s \<Longrightarrow> outbox_keyed (rewrite_row oid f s)"
  by (simp add: outbox_keyed_def rewrite_row_def map_update_where)

lemma rewrite_row_twice:
  "(\<And>q. eo_id (f q) = eo_id q) \<Longrightarrow> rewrite_row oid g (rewrite_row oid f s) = rewrite_row oid (\<lambda>q. g (f q)) s"
  by (simp add: rewrite_row_def update_where_def)

lemma first_due_in: "first_due rs = Some r \<Longrightarrow> r \<in> set rs"
  by (induction rs) (auto split: option.splits if_splits)

lemma first_due_None: "first_due rs = None \<longleftrightarrow> rs = []"
  by (cases rs) (auto split: option.splits)

lemma first_due_least: "first_due rs = Some r \<Longrightarrow> q \<in> set rs \<Longrightarrow> eo_next_attempt_at r \<le> eo_next_attempt_at q"
  by (induction rs arbitrary: r) (auto simp: first_due_None split: option.splits if_splits)

lemma claim_Some:
  assumes "claim_one_eligible now s = (Some row, s')"
  obtains r where "r \<in> set (email_outbox s)" "eligible now r" "row = r\<lparr> eo_state := Sending, eo_updated_at := now \<rparr>"
    "s' = rewrite_row (eo_id r) (\<lambda>q. q\<lparr> eo_state := Sending, eo_updated_at := now \<rparr>) s"
    "\<And>q. q \<in> set (email_outbox s) \<Longrightarrow> eligible now q \<Longrightarrow> eo_next_attempt_at r \<le> eo_next_attempt_at q"
  using assms first_due_in first_due_least
  by (fastforce simp: claim_one_eligible_def rewrite_row_def split: option.splits)

lemma claim_None: "claim_one_eligible now s = (None, s') \<longleftrightarrow> s' = s \<and> (\<forall>q \<in> set (email_outbox s). \<not> eligible now q)"
  by (auto simp: claim_one_eligible_def first_due_None filter_empty_conv dest!: first_due_in split: option.splits)

text \<open>What one row may still cost: a queued one its remaining attempts and one more.\<close>

definition row_cost :: "email_outbox_row \<Rightarrow> nat" where
  "row_cost r = (if eo_state r = Queued then 1 + nat (5 - eo_attempt_count r) else 0)"

definition queue_cost :: "store \<Rightarrow> nat" where
  "queue_cost s = sum_list (map row_cost (email_outbox s))"

lemma queue_cost_rewrite:
  assumes "outbox_keyed s" "r \<in> set (email_outbox s)" "row_cost (f r) < row_cost r"
  shows "queue_cost (rewrite_row (eo_id r) f s) < queue_cost s"
proof -
  have "sum_list (map row_cost (update_where (\<lambda>q. eo_id q = eo_id r) f rows)) < sum_list (map row_cost rows)"
    if "distinct (map eo_id rows)" "r \<in> set rows" for rows
    using that
  proof (induction rows)
    case (Cons a rows)
    show ?case
    proof (cases "a = r")
      case True
      then have "\<forall>q \<in> set rows. eo_id q \<noteq> eo_id r"
        using Cons.prems(1) by (metis distinct.simps(2) image_eqI list.set_map list.simps(9))
      then have "update_where (\<lambda>q. eo_id q = eo_id r) f rows = rows"
        by (induction rows) (auto simp: update_where_def)
      then show ?thesis
        using True assms(3) by (simp add: update_where_def)
    next
      case False
      then have "eo_id a \<noteq> eo_id r"
        using Cons.prems by auto
      then show ?thesis
        using Cons False by (simp add: update_where_def)
    qed
  qed simp
  then show ?thesis
    using assms(1,2) by (simp add: queue_cost_def rewrite_row_def outbox_keyed_def)
qed

text \<open>How a claimed row ends: sent, failed, or queued again with one attempt more, fewer than the limit.\<close>

lemma process_row_cases:
  assumes "process_row we run now row s = Some s'"
  obtains (sent) "s' = mark_sent (eo_id row) now s"
    | (failed) err where "s' = mark_permanently_failed (eo_id row) err now s"
    | (retry) err where "eo_attempt_count row + 1 < int (we_max_attempts we)"
        "s' = record_failure (eo_id row) err (next_attempt_at (eo_attempt_count row + 1) now) now s"
  using assms that by (auto simp: process_row_def failed_delivery_def Let_def split: sum.splits option.splits if_splits)

lemma worker_step_cost:
  assumes "outbox_keyed s" "we_max_attempts we = 5" "claim_one_eligible now s = (Some row, t)"
    and "process_row we run now' row t = Some s'"
  shows "outbox_keyed s'" "queue_cost s' < queue_cost s"
proof -
  obtain r where r: "r \<in> set (email_outbox s)" "eligible now r" "row = r\<lparr> eo_state := Sending, eo_updated_at := now \<rparr>"
    "t = rewrite_row (eo_id r) (\<lambda>q. q\<lparr> eo_state := Sending, eo_updated_at := now \<rparr>) s"
    using assms(3) by (rule claim_Some)
  have "\<exists>f. s' = rewrite_row (eo_id r) f s \<and> (\<forall>q. eo_id (f q) = eo_id q) \<and> row_cost (f r) < row_cost r"
    using assms(4)
  proof (cases rule: process_row_cases)
    case sent
    then show ?thesis
      using r by (intro exI [of _ "\<lambda>q. q\<lparr> eo_state := Sent, eo_updated_at := now' \<rparr>"])
        (simp add: worker_writes rewrite_row_twice row_cost_def eligible_def)
  next
    case (failed err)
    then show ?thesis
      using r unfolding worker_writes by (intro exI conjI) (auto simp: rewrite_row_twice row_cost_def eligible_def)
  next
    case (retry err)
    then show ?thesis
      using r assms(2) unfolding worker_writes by (intro exI conjI) (auto simp: rewrite_row_twice row_cost_def eligible_def)
  qed
  then show "outbox_keyed s'" "queue_cost s' < queue_cost s"
    using rewrite_row_keyed [OF _ assms(1)] queue_cost_rewrite [OF assms(1) r(1)] by auto
qed

lemma drain_returns:
  assumes "outbox_keyed s" "we_max_attempts we = 5"
  shows "\<exists>n r. drain_outbox we runs clk clk' i s = Some (n, r) \<and> n \<le> i + queue_cost s
    \<and> (\<forall>s'. r = AllDone s' \<longrightarrow> (\<forall>q \<in> set (email_outbox s'). \<not> eligible (clk n) q))"
  using assms(1)
proof (induction "queue_cost s" arbitrary: s i rule: less_induct)
  case less
  obtain c t where claim: "claim_one_eligible (clk i) s = (c, t)"
    by fastforce
  show ?case
  proof (cases c)
    case None
    then have "drain_outbox we runs clk clk' i s = Some (i, AllDone t)"
      using claim by (subst drain_outbox.simps) simp
    then show ?thesis
      using claim None claim_None by fastforce
  next
    case (Some row)
    show ?thesis
    proof (cases "process_row we (runs i) (clk' i) row t")
      case None
      then have "drain_outbox we runs clk clk' i s = Some (i, Crashed t)"
        using claim Some by (subst drain_outbox.simps) simp
      then show ?thesis
        by auto
    next
      case processed: (Some s')
      have step: "outbox_keyed s'" "queue_cost s' < queue_cost s"
        using worker_step_cost [OF less.prems assms(2) claim [unfolded Some] processed] by auto
      have "drain_outbox we runs clk clk' i s = drain_outbox we runs clk clk' (Suc i) s'"
        using claim Some processed by (subst drain_outbox.simps) simp
      then show ?thesis
        using less.hyps [OF step(2,1), of "Suc i"] step(2) by fastforce
    qed
  qed
qed

text \<open>The delay after the failed attempt number \<open>n\<close>, as the code has it.\<close>

lemma next_attempt_at_cases:
  "next_attempt_at 1 now = now + seconds 120" "next_attempt_at 2 now = now + seconds 600"
  "next_attempt_at 3 now = now + seconds 3600" "next_attempt_at 4 now = now + seconds 21600"
  by (simp_all add: next_attempt_at_def BACKOFF_SECS_def numeral_nat)

definition row_in :: "uuid \<Rightarrow> store \<Rightarrow> email_outbox_row option" where
  "row_in oid s = List.find (\<lambda>q. eo_id q = oid) (email_outbox s)"

lemma row_in_rewrite:
  "(\<And>q. eo_id (f q) = eo_id q) \<Longrightarrow> row_in oid (rewrite_row oid f s) = map_option f (row_in oid s)"
proof -
  assume f: "\<And>q. eo_id (f q) = eo_id q"
  have "List.find (\<lambda>q. eo_id q = oid) (update_where (\<lambda>q. eo_id q = oid) f rows)
      = map_option f (List.find (\<lambda>q. eo_id q = oid) rows)" for rows
    by (induction rows) (auto simp: update_where_def f)
  then show ?thesis
    by (simp add: row_in_def rewrite_row_def)
qed

lemma find_append_miss: "\<forall>x \<in> set xs. \<not> P x \<Longrightarrow> List.find P (xs @ ys) = List.find P ys"
  by (induction xs) auto

lemma failed_delivery_row:
  assumes "failed_delivery we now row e s = Some s'" "row_in (eo_id row) s = Some row" "we_max_attempts we = 5"
    and "0 \<le> eo_attempt_count row"
  shows "\<exists>q. row_in (eo_id row) s' = Some q \<and> eo_attempt_count q = eo_attempt_count row + 1
    \<and> (if eo_attempt_count row < 4
       then eo_state q = Queued \<and> eo_next_attempt_at q = now + seconds ([120, 600, 3600, 21600] ! nat (eo_attempt_count row))
       else eo_state q = Failed)"
proof -
  obtain err where err: "redact_smtp_error (core_error_text e) = Some err"
    using assms(1) by (auto simp: failed_delivery_def Let_def split: option.splits)
  consider "eo_attempt_count row = 0" | "eo_attempt_count row = 1" | "eo_attempt_count row = 2" | "eo_attempt_count row = 3"
    | "4 \<le> eo_attempt_count row"
    using assms(4) by linarith
  then show ?thesis
    using assms err by cases (auto simp: failed_delivery_def worker_writes row_in_rewrite next_attempt_at_cases numeral_nat)
qed

lemma long_error_panics:
  assumes "165 < length e" "is_cont (byte (e ! 165))"
  shows "redact_smtp_error (core_error_text (BadRequest (''SMTP send failed: '' @ e))) = None"
proof -
  let ?clean = "map (\<lambda>c. if c = CHR 0x0D \<or> c = CHR 0x0A then CHR '' '' else c)"
  define t where "t = core_error_text (BadRequest (''SMTP send failed: '' @ e))"
  have len: "length t = 35 + length e" and nth: "t ! 200 = e ! 165"
    by (simp_all add: t_def)
  have "e ! 165 \<noteq> CHR 0x0D \<and> e ! 165 \<noteq> CHR 0x0A"
    using assms(2) by (auto simp: is_cont_def byte_def)
  then have "?clean t ! 200 = e ! 165"
    using len nth assms(1) by simp
  then have "\<not> is_char_boundary (?clean t) 200"
    using assms len by (simp add: is_char_boundary_def)
  then show ?thesis
    using len assms(1) unfolding t_def [symmetric] by (simp add: redact_smtp_error_def Let_def)
qed

section \<open>Concrete runs\<close>

definition demo_codec :: payload_codec where
  "demo_codec = \<lparr> payload_to_vec = (\<lambda>p. if p = \<lparr> op_to = ''a'', op_subject = ''b'', op_text_body = ''c'', op_html_body = None \<rparr>
       then Some ''p'' else None),
     payload_from_slice = (\<lambda>t. if t = ''p''
       then Inr \<lparr> op_to = ''a'', op_subject = ''b'', op_text_body = ''c'', op_html_body = None \<rparr> else Inl ''bad'') \<rparr>"

definition demo_worker :: worker_env where
  "demo_worker = \<lparr> we_aead = demo_aead, we_codec = demo_codec, we_ehlo = ''sui-id'', we_max_attempts = 5 \<rparr>"

definition demo_relay :: smtp_config_row where
  "demo_relay = \<lparr> sc_enabled = True, sc_host = ''h'', sc_port = 465, sc_tls_mode = TlsImplicit, sc_username = None,
     sc_password_enc = None, sc_from_address = ''f'', sc_from_name = None, sc_base_url = ''b'', sc_created_at = 0,
     sc_updated_at = 0 \<rparr>"

definition demo_mail :: outgoing_mail where
  "demo_mail = \<lparr> om_to = ''a'', om_subject = ''b'', om_text_body = ''c'', om_html_body = None, om_locale = Some ''ja'' \<rparr>"

definition demo_queued :: "int \<Rightarrow> email_outbox_row" where
  "demo_queued n = \<lparr> eo_id = ''m'', eo_state = Queued, eo_template = ''direct'', eo_recipient_enc = [],
     eo_payload_enc = replicate 24 CHR ''n'' @ ''p'' @ replicate 16 CHR ''t'', eo_attempt_count = n, eo_next_attempt_at = 0,
     eo_last_error = None, eo_locale = None, eo_created_at = 0, eo_updated_at = 0 \<rparr>"

definition demo_outbox :: "int \<Rightarrow> store" where
  "demo_outbox n = empty_store\<lparr> smtp_config := Some demo_relay, email_outbox := [demo_queued n] \<rparr>"

lemma demo_outbox_facts:
  "outbox_keyed (demo_outbox n)" "we_max_attempts demo_worker = 5" "we_aead demo_worker = demo_aead"
  "we_codec demo_worker = demo_codec" "we_ehlo demo_worker = ''sui-id''"
  "smtp_config_get (demo_outbox n) = Some demo_relay" "sc_enabled demo_relay"
  "decrypt_password demo_aead demo_relay = Inr None"
  "open_sealed demo_aead (master_key demo_aead) (eo_payload_enc (demo_queued n)) PAYLOAD_AAD = Inr ''p''"
  "payload_from_slice demo_codec ''p'' = Inr \<lparr> op_to = ''a'', op_subject = ''b'', op_text_body = ''c'', op_html_body = None \<rparr>"
  by (simp_all add: outbox_keyed_def demo_outbox_def demo_worker_def demo_relay_def smtp_config_get_def decrypt_password_def
      open_sealed_def demo_aead_def demo_queued_def demo_codec_def NONCE_LEN_def numeral_nat)

lemma demo_claim:
  "claim_one_eligible 0 (demo_outbox n) = (Some (demo_queued n\<lparr> eo_state := Sending, eo_updated_at := 0 \<rparr>),
     (demo_outbox n)\<lparr> email_outbox := [demo_queued n\<lparr> eo_state := Sending, eo_updated_at := 0 \<rparr>] \<rparr>)"
  by (simp add: claim_one_eligible_def demo_outbox_def demo_queued_def eligible_def update_where_def)

section \<open>Properties\<close>

text \<open>C32: Draining the outbox ends.  From one sleep to the next the worker claims at most as many rows as the queued
  ones have attempts left, whatever the clock and the relay say, and then either no row is due or the
  task has crashed.\<close>

theorem outbox_drain_terminates:
  assumes "outbox_keyed s" "we_max_attempts we = 5"
  shows "\<exists>n r. drain_outbox we runs clk clk' 0 s = Some (n, r) \<and> n \<le> queue_cost s
    \<and> (\<forall>s'. r = AllDone s' \<longrightarrow> (\<forall>q \<in> set (email_outbox s'). \<not> eligible (clk n) q))"
  using drain_returns [OF assms, of runs clk clk' 0] by simp

theorem outbox_drain_terminates_witness:
  "outbox_keyed (demo_outbox 0) \<and> we_max_attempts demo_worker = 5
    \<and> (\<exists>n r. drain_outbox demo_worker (\<lambda>_ _ _ _ _. Some ''no'') (\<lambda>_. 0) (\<lambda>_. 0) 0 (demo_outbox 0) = Some (n, r) \<and> n \<le> 6)"
proof -
  have "queue_cost (demo_outbox 0) = 6"
    by (simp add: queue_cost_def row_cost_def demo_outbox_def demo_queued_def)
  then show ?thesis
    using demo_outbox_facts(1,2) outbox_drain_terminates [OF demo_outbox_facts(1) [of 0] demo_outbox_facts(2),
        of "\<lambda>_ _ _ _ _. Some ''no''" "\<lambda>_. 0" "\<lambda>_. 0"] by auto
qed

text \<open>The retry schedule.  A delivery that fails for the \<open>n\<close>-th time is tried again 2 minutes, 10 minutes, 1 hour
  and 6 hours later for \<open>n\<close> from 1 to 4, and the fifth failure is final; the 30 seconds of the
  schedule are never used.\<close>

theorem outbox_retry_schedule:
  assumes "process_row we run now row s = Some s'" "row_in (eo_id row) s = Some row" "we_max_attempts we = 5"
    and "0 \<le> eo_attempt_count row" "open_sealed (we_aead we) (master_key (we_aead we)) (eo_payload_enc row) PAYLOAD_AAD = Inr bytes"
    and "payload_from_slice (we_codec we) bytes = Inr p"
    and "smtp_send (we_aead we) run (we_ehlo we) (mail_of_payload p) s = Inl e"
  shows "\<exists>q. row_in (eo_id row) s' = Some q \<and> eo_attempt_count q = eo_attempt_count row + 1
    \<and> (if eo_attempt_count row < 4
       then eo_state q = Queued \<and> eo_next_attempt_at q = now + seconds ([120, 600, 3600, 21600] ! nat (eo_attempt_count row))
       else eo_state q = Failed)"
proof -
  have "failed_delivery we now row e s = Some s'"
    using assms(1,5-7) by (simp add: process_row_def)
  then show ?thesis
    using failed_delivery_row assms(2-4) by blast
qed

theorem outbox_retry_schedule_witness:
  "\<exists>s' q. process_row demo_worker (\<lambda>_ _ _ _. Some ''no'') 0 (demo_queued 0) (demo_outbox 0) = Some s'
    \<and> row_in ''m'' s' = Some q \<and> eo_attempt_count q = 1 \<and> eo_next_attempt_at q = seconds 120"
proof -
  let ?m = "mail_of_payload \<lparr> op_to = ''a'', op_subject = ''b'', op_text_body = ''c'', op_html_body = None \<rparr>"
  let ?e = "BadRequest (''SMTP send failed: '' @ ''no'')"
  have send: "smtp_send demo_aead (\<lambda>_ _ _ _. Some ''no'') ''sui-id'' ?m (demo_outbox 0) = Inl ?e"
    by (simp add: smtp_send_def demo_outbox_facts)
  have redact: "redact_smtp_error (core_error_text ?e) = Some ''invalid request: SMTP send failed: no''"
    by (simp add: redact_smtp_error_def)
  obtain s' where run: "process_row demo_worker (\<lambda>_ _ _ _. Some ''no'') 0 (demo_queued 0) (demo_outbox 0) = Some s'"
    using send redact by (simp add: process_row_def demo_outbox_facts failed_delivery_def Let_def del: core_error_text.simps)
  have row: "eo_id (demo_queued 0) = ''m''" "eo_attempt_count (demo_queued 0) = 0"
    "row_in (eo_id (demo_queued 0)) (demo_outbox 0) = Some (demo_queued 0)"
    by (simp_all add: row_in_def demo_outbox_def demo_queued_def)
  show ?thesis
    using outbox_retry_schedule [OF run row(3) demo_outbox_facts(2), unfolded demo_outbox_facts, OF _ refl demo_outbox_facts(10) send]
      run row by auto
qed

text \<open>A mail survives the queue.  Whatever was handed to the sender is what the relay is asked to send, up to the
  locale, which only selects the language of the text: the worker opens the sealed row and passes
  recipient, subject and both bodies to the session, and marks the row sent when the session succeeds.\<close>

theorem outbox_delivers_what_was_sent:
  assumes "aead_ok (we_aead we)" "codec_ok (we_codec we)" "length nonce2 = NONCE_LEN"
    and "outbox_send (we_aead we) (we_codec we) nonce1 nonce2 oid now mail s = (Inr out, s')"
    and "row_in oid s' = Some row"
    and "smtp_config_get s' = Some cfg" "sc_enabled cfg" "decrypt_password (we_aead we) cfg = Inr password"
  shows "process_row we run now' row s' =
    (case run cfg password (we_ehlo we) (Some (mail\<lparr> om_locale := None \<rparr>)) of
       None \<Rightarrow> Some (mark_sent oid now' s')
     | Some e \<Rightarrow> failed_delivery we now' row (BadRequest (''SMTP send failed: '' @ e)) s')"
proof -
  obtain recipient_enc payload payload_enc where json: "payload_to_vec (we_codec we) (payload_of mail) = Some payload"
    and enc: "seal (we_aead we) (master_key (we_aead we)) nonce2 payload PAYLOAD_AAD = Inr payload_enc"
    and new: "\<forall>r \<in> set (email_outbox s). eo_id r \<noteq> oid" "email_outbox s' = email_outbox s @
      [\<lparr> eo_id = oid, eo_state = Queued, eo_template = ''direct'', eo_recipient_enc = recipient_enc,
         eo_payload_enc = payload_enc, eo_attempt_count = 0, eo_next_attempt_at = now, eo_last_error = None,
         eo_locale = om_locale mail, eo_created_at = now, eo_updated_at = now \<rparr>]"
    using assms(4) by (auto simp: outbox_send_def encrypt_field_def with_tx_def enqueue_within_tx_def list_ex_iff
        split: sum.splits option.splits if_splits)
  have "eo_payload_enc row = payload_enc \<and> eo_id row = oid"
    using assms(5) new(1) unfolding row_in_def new(2) by (auto simp: find_append_miss)
  then have row: "eo_payload_enc row = payload_enc" "eo_id row = oid"
    by auto
  have "open_sealed (we_aead we) (master_key (we_aead we)) (eo_payload_enc row) PAYLOAD_AAD = Inr payload"
    using open_seal [OF assms(1,3) enc] row by simp
  moreover have "payload_from_slice (we_codec we) payload = Inr (payload_of mail)"
    using assms(2) json by (simp add: codec_ok_def)
  moreover have "mail_of_payload (payload_of mail) = mail\<lparr> om_locale := None \<rparr>"
    by (simp add: mail_of_payload_def payload_of_def)
  ultimately show ?thesis
    using assms(6-8) row by (simp add: process_row_def smtp_send_def split: option.splits)
qed

theorem outbox_delivers_what_was_sent_witness:
  "\<exists>out s' row. outbox_send demo_aead demo_codec (replicate 24 CHR ''n'') (replicate 24 CHR ''n'') ''x'' 0 demo_mail (demo_outbox 0)
      = (Inr out, s') \<and> row_in ''x'' s' = Some row \<and> process_row demo_worker (\<lambda>_ _ _ _. None) 1 row s' = Some (mark_sent ''x'' 1 s')"
proof -
  have codec: "codec_ok demo_codec"
    by (simp add: codec_ok_def demo_codec_def)
  obtain out s' row where send: "outbox_send demo_aead demo_codec (replicate 24 CHR ''n'') (replicate 24 CHR ''n'') ''x'' 0 demo_mail
      (demo_outbox 0) = (Inr out, s')" and row: "row_in ''x'' s' = Some row" and cfg: "smtp_config_get s' = Some demo_relay"
    by (simp add: outbox_send_def encrypt_field_def seal_def demo_aead_def demo_codec_def demo_mail_def payload_of_def with_tx_def
        enqueue_within_tx_def demo_outbox_def demo_queued_def row_in_def smtp_config_get_def)
  have "process_row demo_worker (\<lambda>_ _ _ _. None) 1 row s' = Some (mark_sent ''x'' 1 s')"
    using outbox_delivers_what_was_sent [of demo_worker, unfolded demo_outbox_facts, OF demo_aead_ok codec _ send row cfg
        demo_outbox_facts(7,8), of "\<lambda>_ _ _ _. None" 1] by (simp add: NONCE_LEN_def)
  then show ?thesis
    using send row by blast
qed

text \<open>C38: A relay can stop the mail for good.  When the text of a failed delivery has a byte inside a multi-byte
  character at the place where the worker cuts it, the worker panics: the row stays in the sending
  state with its attempt uncounted, and the next start of the worker queues it again as it was.\<close>

theorem poisoned_error_crashes_worker:
  assumes "outbox_keyed s" "claim_one_eligible (clk 0) s = (Some row, t)"
    and "open_sealed (we_aead we) (master_key (we_aead we)) (eo_payload_enc row) PAYLOAD_AAD = Inr bytes"
    and "payload_from_slice (we_codec we) bytes = Inr p"
    and "smtp_config_get s = Some cfg" "sc_enabled cfg" "decrypt_password (we_aead we) cfg = Inr password"
    and "runs 0 cfg password (we_ehlo we) (Some (mail_of_payload p)) = Some e"
    and "165 < length e" "is_cont (byte (e ! 165))"
    and "clk 0 < later - seconds 60"
  shows "drain_outbox we runs clk clk' 0 s = Some (0, Crashed t)
    \<and> row_in (eo_id row) (worker_start later later' t) =
        Some (row\<lparr> eo_state := Queued, eo_next_attempt_at := later', eo_updated_at := later' \<rparr>)"
proof -
  obtain r where r: "r \<in> set (email_outbox s)" "eligible (clk 0) r" "row = r\<lparr> eo_state := Sending, eo_updated_at := clk 0 \<rparr>"
    "t = rewrite_row (eo_id r) (\<lambda>q. q\<lparr> eo_state := Sending, eo_updated_at := clk 0 \<rparr>) s"
    using assms(2) by (rule claim_Some)
  have "row_in (eo_id r) s = Some r"
    using assms(1) r(1) unfolding row_in_def outbox_keyed_def by (intro find_keyed [of eo_id]) simp_all
  then have row: "row_in (eo_id row) t = Some row"
    using r(3,4) by (simp add: row_in_rewrite)
  have "smtp_config_get t = smtp_config_get s"
    using r(4) by (simp add: rewrite_row_def smtp_config_get_def)
  then have "process_row we (runs 0) (clk' 0) row t = None"
    using assms(3-8) long_error_panics [OF assms(9,10)]
    by (simp add: process_row_def smtp_send_def failed_delivery_def Let_def del: core_error_text.simps)
  then have "drain_outbox we runs clk clk' 0 s = Some (0, Crashed t)"
    using assms(2) by (subst drain_outbox.simps) simp
  moreover have "row_in (eo_id row) (worker_start later later' t) =
      Some (row\<lparr> eo_state := Queued, eo_next_attempt_at := later', eo_updated_at := later' \<rparr>)"
    using row assms(11) r(3) unfolding worker_start_def requeue_stuck_sending_def row_in_def
    by (simp add: Let_def find_update_where)
  ultimately show ?thesis
    by blast
qed

theorem poisoned_error_crashes_worker_witness:
  "\<exists>t. drain_outbox demo_worker (\<lambda>_ _ _ _ _. Some (replicate 164 CHR ''x'' @ [of_byte 0xC3, of_byte 0xA9])) (\<lambda>_. 0) (\<lambda>_. 0) 0 (demo_outbox 3)
      = Some (0, Crashed t) \<and> (\<exists>q. row_in ''m'' (worker_start (seconds 61) (seconds 61) t) = Some q
        \<and> eo_state q = Queued \<and> eo_attempt_count q = 3)"
proof -
  have cont: "is_cont (byte ((replicate 164 CHR ''x'' @ [of_byte 0xC3, of_byte 0xA9]) ! 165))"
    by (simp add: nth_append is_cont_def byte_def of_byte_def)
  have enc: "open_sealed demo_aead (master_key demo_aead)
      (eo_payload_enc (demo_queued 3\<lparr> eo_state := Sending, eo_updated_at := 0 \<rparr>)) PAYLOAD_AAD = Inr ''p''"
    using demo_outbox_facts(9) [of 3] by simp
  have later: "0 < seconds 61 - seconds 60"
    by (simp add: seconds_def nanos_def)
  show ?thesis
    using poisoned_error_crashes_worker [of "demo_outbox 3" "\<lambda>_. 0" _ _ demo_worker, unfolded demo_outbox_facts,
        OF demo_outbox_facts(1) demo_claim enc demo_outbox_facts(10) refl demo_outbox_facts(7,8),
        of "\<lambda>_ _ _ _ _. Some (replicate 164 CHR ''x'' @ [of_byte 0xC3, of_byte 0xA9])" _ "seconds 61" "\<lambda>_. 0" "seconds 61", OF refl _ cont later]
    by (auto simp: demo_queued_def)
qed

end
