(* ===== verification/Pending_Change.thy ===== *)
theory Pending_Change
  imports Outbox Settings One_Shot
begin

text \<open>
  Relay settings that carry a secret are changed in two steps: \<open>repos/pending_settings_change.rs\<close>, the
  commands S06 to S09 of \<open>commands.rs\<close> and the domain layer \<open>settings/pending_change.rs\<close>.  The JSON codec
  of the payload is a parameter.
\<close>

section \<open>The repository\<close>

definition pc_find :: "uuid \<Rightarrow> store \<Rightarrow> pending_settings_change_row option" where
  "pc_find pcid s = List.find (\<lambda>r. pc_id r = pcid) (pending_settings_changes s)"

definition pc_insert_within_tx :: "pending_settings_change_row \<Rightarrow> unit tx" where
  "pc_insert_within_tx row s =
    (if list_ex (\<lambda>r. pc_id r = pc_id row) (pending_settings_changes s)
     then Inl (Db ''UNIQUE constraint failed: pending_settings_change.id'')
     else Inr ((), s\<lparr>pending_settings_changes := pending_settings_changes s @ [row]\<rparr>))"

definition pc_get_summary :: "uuid \<Rightarrow> instant \<Rightarrow> store \<Rightarrow> store_error + string" where
  "pc_get_summary pcid now s =
    (case pc_find pcid s of
       None \<Rightarrow> Inl StoreNotFound
     | Some r \<Rightarrow> if pc_expires_at r \<le> now then Inl StoreNotFound else Inr (pc_summary r))"

definition pc_peek :: "uuid \<Rightarrow> instant \<Rightarrow> store \<Rightarrow> store_error + pending_settings_change_row" where
  "pc_peek pcid now s =
    (case pc_find pcid s of
       None \<Rightarrow> Inl StoreNotFound
     | Some r \<Rightarrow> if pc_expires_at r \<le> now then Inl StoreNotFound else Inr r)"

definition pc_drop :: "uuid \<Rightarrow> store \<Rightarrow> store" where
  "pc_drop pcid s = s\<lparr>pending_settings_changes := delete_where (\<lambda>r. pc_id r = pcid) (pending_settings_changes s)\<rparr>"

definition pc_consume :: "uuid \<Rightarrow> instant \<Rightarrow> pending_settings_change_row tx" where
  "pc_consume pcid now s =
    (case pc_peek pcid now s of Inl e \<Rightarrow> Inl e | Inr r \<Rightarrow> Inr (r, pc_drop pcid s))"

definition pc_cancel_within_tx :: "uuid \<Rightarrow> unit tx" where
  "pc_cancel_within_tx pcid = tx_modify (pc_drop pcid)"

datatype apply_attempt = AttemptApplied string | AttemptBindingFailed string

definition pc_apply_within_tx :: "uuid \<Rightarrow> uuid \<Rightarrow> uuid \<Rightarrow> string \<Rightarrow> instant \<Rightarrow> apply_attempt tx" where
  "pc_apply_within_tx pcid sid actor csrf now s =
    (case pc_peek pcid now s of
       Inl e \<Rightarrow> Inl e
     | Inr r \<Rightarrow>
        if \<not> (pc_session_id r = sid \<and> pc_actor_id r = actor \<and> pc_csrf_token r = csrf)
        then Inr (AttemptBindingFailed (pc_intent r), s)
        else Inr (AttemptApplied (pc_intent r), pc_drop pcid s))"

definition pc_purge_expired :: "instant \<Rightarrow> nat tx" where
  "pc_purge_expired now s =
    (let p = (\<lambda>r. pc_expires_at r \<le> now) in
     Inr (affected p (pending_settings_changes s),
       s\<lparr>pending_settings_changes := delete_where p (pending_settings_changes s)\<rparr>))"

section \<open>The commands\<close>

definition S06_event :: "smtp_config_row \<Rightarrow> sealed_event" where
  "S06_event row =
    untargeted_event ''auth.smtp_config.changed''
      [(''enabled'', True), (''host'', True), (''port'', True), (''tls_mode'', True)]
      [(''enabled'', if sc_enabled row then ''true'' else ''false''), (''host'', sc_host row),
       (''port'', dec (sc_port row)), (''tls_mode'', smtp_tls_mode_as_str (sc_tls_mode row))]"

definition change_smtp_config_body :: "smtp_config_row \<Rightarrow> (unit \<times> sealed_event) tx" where
  "change_smtp_config_body row =
    tx_bind (smtp_upsert_within_tx row) (\<lambda>_. tx_return ((), S06_event row))"

definition change_smtp_config :: "digest_env \<Rightarrow> instant \<Rightarrow> uuid \<Rightarrow> smtp_config_row \<Rightarrow> store \<Rightarrow> (store_error + unit) \<times> store" where
  "change_smtp_config cx at admin row = class_a cx at (Some admin) (change_smtp_config_body row)"

definition S07_event :: "uuid \<Rightarrow> string \<Rightarrow> sealed_event" where
  "S07_event pcid intent = ok_event ''settings.pending_change.created'' [(''intent'', True)] pcid [(''intent'', intent)]"

definition create_pending_settings_change_body :: "pending_settings_change_row \<Rightarrow> (unit \<times> sealed_event) tx" where
  "create_pending_settings_change_body row =
    tx_bind (pc_insert_within_tx row) (\<lambda>_. tx_return ((), S07_event (pc_id row) (pc_intent row)))"

definition create_pending_settings_change ::
  "digest_env \<Rightarrow> instant \<Rightarrow> uuid \<Rightarrow> pending_settings_change_row \<Rightarrow> store \<Rightarrow> (store_error + unit) \<times> store" where
  "create_pending_settings_change cx at admin row =
    class_a cx at (Some admin) (create_pending_settings_change_body row)"

definition S09_event :: "uuid \<Rightarrow> sealed_event" where
  "S09_event pcid = ok_event ''settings.pending_change.cancelled'' [] pcid []"

definition cancel_pending_settings_change_body :: "uuid \<Rightarrow> (unit \<times> sealed_event) tx" where
  "cancel_pending_settings_change_body pcid =
    tx_bind (pc_cancel_within_tx pcid) (\<lambda>_. tx_return ((), S09_event pcid))"

definition cancel_pending_settings_change ::
  "digest_env \<Rightarrow> instant \<Rightarrow> uuid \<Rightarrow> uuid \<Rightarrow> store \<Rightarrow> (store_error + unit) \<times> store" where
  "cancel_pending_settings_change cx at admin pcid =
    class_a cx at (Some admin) (cancel_pending_settings_change_body pcid)"

datatype apply_outcome = ChangeApplied | ChangeBindingFailed

definition S08_event :: "uuid \<Rightarrow> apply_attempt \<Rightarrow> sealed_event" where
  "S08_event pcid a =
    (case a of
       AttemptApplied intent \<Rightarrow>
        ok_event ''settings.pending_change.applied'' [(''intent'', True)] pcid [(''intent'', intent)]
     | AttemptBindingFailed intent \<Rightarrow>
        (ok_event ''settings.pending_change.binding_failed'' [(''intent'', True)] pcid [(''intent'', intent)])
          \<lparr> ev_result := AuditFailure \<rparr>)"

definition apply_pending_settings_change_body ::
  "uuid \<Rightarrow> uuid \<Rightarrow> uuid \<Rightarrow> string \<Rightarrow> instant \<Rightarrow> smtp_config_row \<Rightarrow> (apply_outcome \<times> sealed_event) tx" where
  "apply_pending_settings_change_body admin pcid sid csrf now row =
    tx_bind (pc_apply_within_tx pcid sid admin csrf now) (\<lambda>attempt.
    case attempt of
      AttemptApplied intent \<Rightarrow>
        tx_bind (smtp_upsert_within_tx row) (\<lambda>_. tx_return (ChangeApplied, S08_event pcid attempt))
    | AttemptBindingFailed intent \<Rightarrow> tx_return (ChangeBindingFailed, S08_event pcid attempt))"

definition apply_pending_settings_change ::
  "digest_env \<Rightarrow> instant \<Rightarrow> uuid \<Rightarrow> uuid \<Rightarrow> uuid \<Rightarrow> string \<Rightarrow> instant \<Rightarrow> smtp_config_row \<Rightarrow> store
    \<Rightarrow> (store_error + apply_outcome) \<times> store" where
  "apply_pending_settings_change cx at admin pcid sid csrf now row =
    class_a cx at (Some admin) (apply_pending_settings_change_body admin pcid sid csrf now row)"

section \<open>The domain layer\<close>

record smtp_password_change_payload =
  sp_enabled :: bool
  sp_host :: string
  sp_port :: nat
  sp_tls_mode :: string
  sp_username :: "string option"
  sp_password :: string
  sp_from_address :: string
  sp_from_name :: "string option"
  sp_base_url :: string

record change_codec =
  change_to_vec :: "smtp_password_change_payload \<Rightarrow> string option"
  change_from_slice :: "string \<Rightarrow> smtp_password_change_payload option"

definition change_codec_ok :: "change_codec \<Rightarrow> bool" where
  "change_codec_ok jc = (\<forall>p bytes. change_to_vec jc p = Some bytes \<longrightarrow> change_from_slice jc bytes = Some p)"

definition PENDING_CHANGE_TTL_SECS :: int where
  "PENDING_CHANGE_TTL_SECS = 300"

definition PENDING_CHANGE_AAD :: string where
  "PENDING_CHANGE_AAD = ''sui-id:pending_settings_change:v1''"

record pending_change =
  pd_id :: uuid
  pd_intent :: string
  pd_summary :: string
  pd_expires_at :: instant

text \<open>\<open>pcid\<close> and \<open>nonce\<close> are the draws of one call; \<open>at\<close> is the clock read of the audit row.\<close>

definition pending_create ::
  "digest_env \<Rightarrow> aead_env \<Rightarrow> change_codec \<Rightarrow> uuid \<Rightarrow> string \<Rightarrow> instant \<Rightarrow> uuid \<Rightarrow> uuid \<Rightarrow> string
    \<Rightarrow> smtp_password_change_payload \<Rightarrow> string \<Rightarrow> string \<Rightarrow> instant \<Rightarrow> store \<Rightarrow> (core_error + pending_change) \<times> store" where
  "pending_create cx ae jc pcid nonce at actor sid intent payload summary csrf now s =
    (case change_to_vec jc payload of
       None \<Rightarrow> (Inl Internal, s)
     | Some json \<Rightarrow>
        (case seal ae (master_key ae) nonce json PENDING_CHANGE_AAD of
           Inl e \<Rightarrow> (Inl (Store e), s)
         | Inr payload_enc \<Rightarrow>
            (case create_pending_settings_change cx at actor
                \<lparr> pc_id = pcid, pc_session_id = sid, pc_actor_id = actor, pc_intent = intent, pc_payload_enc = payload_enc,
                  pc_summary = summary, pc_csrf_token = csrf, pc_expires_at = now + seconds PENDING_CHANGE_TTL_SECS,
                  pc_created_at = now \<rparr> s of
               (Inl e, s') \<Rightarrow> (Inl (Store e), s')
             | (Inr _, s') \<Rightarrow>
                (Inr \<lparr> pd_id = pcid, pd_intent = intent, pd_summary = summary,
                   pd_expires_at = now + seconds PENDING_CHANGE_TTL_SECS \<rparr>, s'))))"

definition EXPIRED_OR_INVALID :: string where
  "EXPIRED_OR_INVALID = ''This pending change has expired or is no longer valid.''"

text \<open>The configuration row that \<open>apply\<close> builds before its transaction.\<close>

definition new_smtp_config ::
  "smtp_password_change_payload \<Rightarrow> smtp_tls_mode \<Rightarrow> string \<Rightarrow> smtp_config_row option \<Rightarrow> instant \<Rightarrow> smtp_config_row" where
  "new_smtp_config p tls_mode password_enc existing now =
    \<lparr> sc_enabled = sp_enabled p, sc_host = str_trim (sp_host p), sc_port = sp_port p, sc_tls_mode = tls_mode,
      sc_username = sp_username p, sc_password_enc = Some password_enc, sc_from_address = str_trim (sp_from_address p),
      sc_from_name = sp_from_name p, sc_base_url = trim_end_slash (str_trim (sp_base_url p)),
      sc_created_at = (case existing of None \<Rightarrow> now | Some r \<Rightarrow> sc_created_at r), sc_updated_at = now \<rparr>"

text \<open>\<open>apply\<close> reads the row and the configuration in transactions of their own (\<open>s0\<close>), and then runs S08 in the
  store as it is then (\<open>s\<close>).\<close>

definition pending_apply ::
  "digest_env \<Rightarrow> aead_env \<Rightarrow> change_codec \<Rightarrow> string \<Rightarrow> instant \<Rightarrow> uuid \<Rightarrow> uuid \<Rightarrow> uuid \<Rightarrow> string \<Rightarrow> instant
    \<Rightarrow> store \<Rightarrow> store \<Rightarrow> (core_error + unit) \<times> store" where
  "pending_apply cx ae jc nonce at pcid actor sid csrf now s0 s =
    (case pc_peek pcid now s0 of
       Inl _ \<Rightarrow> (Inl (BadRequest EXPIRED_OR_INVALID), s)
     | Inr peeked \<Rightarrow>
        (case open_sealed ae (master_key ae) (pc_payload_enc peeked) PENDING_CHANGE_AAD of
           Inl _ \<Rightarrow> (Inl (BadRequest EXPIRED_OR_INVALID), s)
         | Inr plaintext \<Rightarrow>
            (case change_from_slice jc plaintext of
               None \<Rightarrow> (Inl Internal, s)
             | Some payload \<Rightarrow>
                (case smtp_tls_mode_parse (sp_tls_mode payload) of
                   None \<Rightarrow> (Inl (BadRequest (''unknown tls_mode: '' @ sp_tls_mode payload)), s)
                 | Some tls_mode \<Rightarrow>
                    (case seal_password ae nonce (sp_password payload) of
                       Inl e \<Rightarrow> (Inl (Store e), s)
                     | Inr password_enc \<Rightarrow>
                        (case apply_pending_settings_change cx at actor pcid sid csrf now
                            (new_smtp_config payload tls_mode password_enc (smtp_config_get s0) now) s of
                           (Inl e, s') \<Rightarrow> (Inl (Store e), s')
                         | (Inr ChangeApplied, s') \<Rightarrow> (Inr (), s')
                         | (Inr ChangeBindingFailed, s') \<Rightarrow> (Inl (BadRequest EXPIRED_OR_INVALID), s')))))))"

definition pending_cancel :: "digest_env \<Rightarrow> instant \<Rightarrow> uuid \<Rightarrow> uuid \<Rightarrow> store \<Rightarrow> (core_error + unit) \<times> store" where
  "pending_cancel cx at pcid actor s =
    (case cancel_pending_settings_change cx at actor pcid s of
       (Inl e, s') \<Rightarrow> (Inl (Store e), s')
     | (Inr _, s') \<Rightarrow> (Inr (), s'))"

section \<open>Every body leaves the audit log to the runner\<close>

lemma keeps_pending_writes [frame]:
  "(\<And>s x. part (s\<lparr>pending_settings_changes := x\<rparr>) = part s) \<Longrightarrow> keeps part (pc_insert_within_tx row)"
  "(\<And>s x. part (s\<lparr>pending_settings_changes := x\<rparr>) = part s) \<Longrightarrow> keeps part (pc_cancel_within_tx pcid)"
  "(\<And>s x. part (s\<lparr>pending_settings_changes := x\<rparr>) = part s) \<Longrightarrow> keeps part (pc_apply_within_tx pcid sid actor csrf now)"
  "(\<And>s x. part (s\<lparr>smtp_config := x\<rparr>) = part s) \<Longrightarrow> keeps part (smtp_upsert_within_tx cfg)"
  by (auto simp: keeps_def pc_insert_within_tx_def pc_cancel_within_tx_def pc_apply_within_tx_def pc_drop_def smtp_upsert_within_tx_def
      split: sum.splits if_splits)

lemma keeps_apply_attempt [frame]:
  "(\<And>i. keeps part (f i)) \<Longrightarrow> (\<And>i. keeps part (g i)) \<Longrightarrow> keeps part (case a of AttemptApplied i \<Rightarrow> f i | AttemptBindingFailed i \<Rightarrow> g i)"
  by (cases a) auto

interpretation s06: command_body "change_smtp_config_body cfg" for cfg
  unfolding change_smtp_config_body_def by unfold_locales (intro frame; simp)

interpretation s07: command_body "create_pending_settings_change_body row" for row
  unfolding create_pending_settings_change_body_def by unfold_locales (intro frame; simp)

interpretation s08: command_body "apply_pending_settings_change_body admin pcid sid csrf now cfg" for admin pcid sid csrf now cfg
  unfolding apply_pending_settings_change_body_def by unfold_locales (intro frame; simp)

interpretation s09: command_body "cancel_pending_settings_change_body pcid" for pcid
  unfolding cancel_pending_settings_change_body_def by unfold_locales (intro frame; simp)

section \<open>What the commands do to the pending changes\<close>

lemma apply_body_Inr:
  assumes "apply_pending_settings_change_body admin pcid sid csrf now cfg s = Inr ((out, ev), t)"
  shows "\<exists>r. pc_find pcid s = Some r \<and> now < pc_expires_at r \<and>
    (if pc_session_id r = sid \<and> pc_actor_id r = admin \<and> pc_csrf_token r = csrf
     then out = ChangeApplied \<and> pending_settings_changes t = delete_where (\<lambda>r. pc_id r = pcid) (pending_settings_changes s)
       \<and> smtp_config t = Some (case smtp_config s of None \<Rightarrow> cfg | Some old \<Rightarrow> cfg\<lparr> sc_created_at := sc_created_at old \<rparr>)
     else out = ChangeBindingFailed \<and> t = s)"
proof -
  obtain a t1 where run: "pc_apply_within_tx pcid sid admin csrf now s = Inr (a, t1)"
    and rest: "(case a of AttemptApplied intent \<Rightarrow>
        tx_bind (smtp_upsert_within_tx cfg) (\<lambda>_. tx_return (ChangeApplied, S08_event pcid a))
      | AttemptBindingFailed intent \<Rightarrow> tx_return (ChangeBindingFailed, S08_event pcid a)) t1 = Inr ((out, ev), t)"
    using assms unfolding apply_pending_settings_change_body_def tx_bind_Inr_iff by blast
  obtain r where r: "pc_find pcid s = Some r" "now < pc_expires_at r" and
    a: "(a, t1) = (if pc_session_id r = sid \<and> pc_actor_id r = admin \<and> pc_csrf_token r = csrf
      then (AttemptApplied (pc_intent r), pc_drop pcid s) else (AttemptBindingFailed (pc_intent r), s))"
    using run by (auto simp: pc_apply_within_tx_def pc_peek_def split: option.splits if_splits)
  show ?thesis
  proof (cases "pc_session_id r = sid \<and> pc_actor_id r = admin \<and> pc_csrf_token r = csrf")
    case True
    then show ?thesis
      using r a rest by (simp add: tx_bind_def smtp_upsert_within_tx_def pc_drop_def) (auto simp: tx_modify_def)
  next
    case False
    then have "a = AttemptBindingFailed (pc_intent r)" "t1 = s"
      using a by (auto split: if_splits)
    then have "out = ChangeBindingFailed \<and> t = s"
      using rest by simp
    then show ?thesis
      using r False by (intro exI [of _ r]) auto
  qed
qed

lemma apply_command_Inr:
  assumes "apply_pending_settings_change cx at admin pcid sid csrf now cfg s = (Inr out, s')"
  shows "\<exists>r. pc_find pcid s = Some r \<and> now < pc_expires_at r \<and>
    (if pc_session_id r = sid \<and> pc_actor_id r = admin \<and> pc_csrf_token r = csrf
     then out = ChangeApplied \<and> pending_settings_changes s' = delete_where (\<lambda>r. pc_id r = pcid) (pending_settings_changes s)
       \<and> smtp_config s' = Some (case smtp_config s of None \<Rightarrow> cfg | Some old \<Rightarrow> cfg\<lparr> sc_created_at := sc_created_at old \<rparr>)
     else out = ChangeBindingFailed \<and> pending_settings_changes s' = pending_settings_changes s \<and> smtp_config s' = smtp_config s)"
proof -
  obtain ev t attrs where body: "apply_pending_settings_change_body admin pcid sid csrf now cfg s = Inr ((out, ev), t)"
    and s': "s' = t\<lparr>audit := append_within_tx cx
      (build_audit_row (ev_descriptor ev) (Some admin) at (ev_target ev) (ev_result ev) attrs) (audit s)\<rparr>"
    using assms unfolding apply_pending_settings_change_def by (rule s08.class_a_success)
  show ?thesis
    using apply_body_Inr [OF body] unfolding s' by (auto split: if_splits)
qed

lemma command_Inl:
  "class_a cx at actor body s = (Inl e, s') \<Longrightarrow> s' = s"
  by (auto simp: class_a_def with_tx_def split: sum.splits prod.splits)

lemma pending_apply_cases:
  assumes "pending_apply cx ae jc nonce at pcid actor sid csrf now s0 s = (r, s')"
  obtains (early) e where "r = Inl e" "s' = s"
    | (ran) row out where "apply_pending_settings_change cx at actor pcid sid csrf now row s = (Inr out, s')"
        "r = (if out = ChangeApplied then Inr () else Inl (BadRequest EXPIRED_OR_INVALID))"
proof -
  have "(\<exists>e. r = Inl e \<and> s' = s) \<or> (\<exists>row out. apply_pending_settings_change cx at actor pcid sid csrf now row s = (Inr out, s')
      \<and> r = (if out = ChangeApplied then Inr () else Inl (BadRequest EXPIRED_OR_INVALID)))"
    using assms unfolding pending_apply_def
    by (auto dest: command_Inl [folded apply_pending_settings_change_def] simp: apply_pending_settings_change_def
        split: sum.splits option.splits prod.splits apply_outcome.splits)
  then show thesis
    using early ran by blast
qed

lemma pending_apply_outcome:
  assumes "pending_apply cx ae jc nonce at pcid actor sid csrf now s0 s = (r, s')"
  shows "case r of
      Inr _ \<Rightarrow> (\<exists>row. pc_find pcid s = Some row \<and> now < pc_expires_at row \<and> pc_session_id row = sid \<and> pc_actor_id row = actor
        \<and> pc_csrf_token row = csrf)
        \<and> pending_settings_changes s' = delete_where (\<lambda>r. pc_id r = pcid) (pending_settings_changes s)
    | Inl _ \<Rightarrow> pending_settings_changes s' = pending_settings_changes s \<and> smtp_config s' = smtp_config s"
  using assms
proof (cases rule: pending_apply_cases)
  case (ran row out)
  then show ?thesis
    using apply_command_Inr [OF ran(1)] by (auto split: if_splits)
qed simp

section \<open>A change is applied once\<close>

inductive change_step :: "digest_env \<Rightarrow> aead_env \<Rightarrow> change_codec \<Rightarrow> uuid \<Rightarrow> store \<Rightarrow> store \<Rightarrow> bool" for cx ae jc k where
  created: "pcid \<noteq> k \<Longrightarrow> pending_create cx ae jc pcid nonce at actor sid intent payload summary csrf now s = (r, s')
    \<Longrightarrow> change_step cx ae jc k s s'"
| applied: "pending_apply cx ae jc nonce at pcid actor sid csrf now s0 s = (r', s') \<Longrightarrow> change_step cx ae jc k s s'"
| cancelled: "pending_cancel cx at pcid actor s = (r', s') \<Longrightarrow> change_step cx ae jc k s s'"
| purged: "with_tx (pc_purge_expired now) s = (n, s') \<Longrightarrow> change_step cx ae jc k s s'"
| elsewhere: "pending_settings_changes s' = pending_settings_changes s \<Longrightarrow> change_step cx ae jc k s s'"

record apply_call =
  ac_nonce :: string
  ac_at :: instant
  ac_actor :: uuid
  ac_session :: uuid
  ac_csrf :: string
  ac_now :: instant
  ac_peeked :: store

definition apply_change ::
  "digest_env \<Rightarrow> aead_env \<Rightarrow> change_codec \<Rightarrow> uuid \<Rightarrow> apply_call \<Rightarrow> store \<Rightarrow> (core_error + unit) \<times> store" where
  "apply_change cx ae jc pcid c =
    pending_apply cx ae jc (ac_nonce c) (ac_at c) pcid (ac_actor c) (ac_session c) (ac_csrf c) (ac_now c) (ac_peeked c)"

definition no_change :: "uuid \<Rightarrow> store \<Rightarrow> bool" where
  "no_change pcid s = (pcid \<notin> pc_id ` set (pending_settings_changes s))"

lemma create_rows:
  assumes "pending_create cx ae jc pcid nonce at actor sid intent payload summary csrf now s = (r, s')"
  shows "pending_settings_changes s' = pending_settings_changes s \<or>
    (\<exists>row. pc_id row = pcid \<and> pending_settings_changes s' = pending_settings_changes s @ [row])"
proof -
  have "pending_settings_changes t' = pending_settings_changes t \<or> pending_settings_changes t' = pending_settings_changes t @ [row]"
    if run: "create_pending_settings_change cx at actor row t = (v, t')" for row t v t'
  proof (cases v)
    case (Inl e)
    then show ?thesis
      using run command_Inl unfolding create_pending_settings_change_def by blast
  next
    case (Inr u)
    obtain ev t1 attrs where body: "create_pending_settings_change_body row t = Inr ((u, ev), t1)"
      and t': "t' = t1\<lparr>audit := append_within_tx cx
        (build_audit_row (ev_descriptor ev) (Some actor) at (ev_target ev) (ev_result ev) attrs) (audit t)\<rparr>"
      using run [unfolded Inr] unfolding create_pending_settings_change_def by (rule s07.class_a_success)
    show ?thesis
      using body unfolding t' by (auto simp: create_pending_settings_change_body_def results pc_insert_within_tx_def split: if_splits)
  qed
  moreover have "s' = s \<or> (\<exists>row v. pc_id row = pcid \<and> create_pending_settings_change cx at actor row s = (v, s'))"
    using assms unfolding pending_create_def
    by (auto split: option.splits sum.splits prod.splits)
  ultimately show ?thesis
    by metis
qed

lemma cancel_rows:
  assumes "pending_cancel cx at pcid actor s = (r, s')"
  shows "set (pending_settings_changes s') \<subseteq> set (pending_settings_changes s)"
proof -
  obtain v where run: "cancel_pending_settings_change cx at actor pcid s = (v, s')"
    using assms by (auto simp: pending_cancel_def split: sum.splits prod.splits)
  show ?thesis
  proof (cases v)
    case (Inl e)
    then show ?thesis
      using run command_Inl unfolding cancel_pending_settings_change_def by blast
  next
    case (Inr u)
    obtain ev t attrs where body: "cancel_pending_settings_change_body pcid s = Inr ((u, ev), t)"
      and s': "s' = t\<lparr>audit := append_within_tx cx
        (build_audit_row (ev_descriptor ev) (Some actor) at (ev_target ev) (ev_result ev) attrs) (audit s)\<rparr>"
      using run [unfolded Inr] unfolding cancel_pending_settings_change_def by (rule s09.class_a_success)
    show ?thesis
      using body unfolding s' by (auto simp: cancel_pending_settings_change_body_def results pc_cancel_within_tx_def pc_drop_def
          delete_where_def)
  qed
qed

lemma apply_rows:
  assumes "pending_apply cx ae jc nonce at pcid actor sid csrf now s0 s = (r, s')"
  shows "set (pending_settings_changes s') \<subseteq> set (pending_settings_changes s)"
  using pending_apply_outcome [OF assms] by (cases r) (auto simp: delete_where_def)

lemma change_step_keeps: "change_step cx ae jc k s s' \<Longrightarrow> no_change k s \<Longrightarrow> no_change k s'"
proof (induction rule: change_step.induct)
  case (created pcid nonce at actor sid intent payload summary csrf now s r s')
  then show ?case
    using create_rows [OF created(2)] by (auto simp: no_change_def)
next
  case (applied nonce at pcid actor sid csrf now s0 s r' s')
  then show ?case
    using apply_rows [OF applied(1)] by (auto simp: no_change_def)
next
  case (cancelled at pcid actor s r' s')
  then show ?case
    using cancel_rows [OF cancelled(1)] by (auto simp: no_change_def)
next
  case (purged now s n s')
  then show ?case
    by (auto simp: no_change_def with_tx_def pc_purge_expired_def Let_def delete_where_def)
qed (simp add: no_change_def)

interpretation change: one_shot "\<lambda>_. True" "change_step cx ae jc" "apply_change cx ae jc" no_change for cx ae jc
proof unfold_locales
  fix s k c a s' assume "apply_change cx ae jc k c s = (Inr a, s')"
  then have "pending_settings_changes s' = delete_where (\<lambda>r. pc_id r = k) (pending_settings_changes s)"
    using pending_apply_outcome unfolding apply_change_def by fastforce
  then show "no_change k s'"
    by (auto simp: no_change_def delete_where_def)
next
  fix s k c assume none: "no_change k s"
  obtain r s' where run: "apply_change cx ae jc k c s = (r, s')"
    by fastforce
  have "pc_find k s = None"
    using none by (auto simp: no_change_def pc_find_def find_None_iff)
  then obtain e where "r = Inl e"
    using pending_apply_outcome [OF run [unfolded apply_change_def]] by (cases r) auto
  moreover have "no_change k s'"
    using apply_rows [OF run [unfolded apply_change_def]] none by (auto simp: no_change_def)
  ultimately show "\<exists>e s'. apply_change cx ae jc k c s = (Inl e, s') \<and> no_change k s'"
    using run by blast
next
  fix s k s' assume "no_change k s" "change_step cx ae jc k s s'"
  then show "no_change k s'"
    using change_step_keeps by blast
qed simp_all

section \<open>A concrete change\<close>

definition demo_payload :: smtp_password_change_payload where
  "demo_payload = \<lparr> sp_enabled = True, sp_host = ''h'', sp_port = 587, sp_tls_mode = ''starttls'', sp_username = Some ''u'',
     sp_password = ''pw'', sp_from_address = ''f'', sp_from_name = None, sp_base_url = ''b'' \<rparr>"

definition demo_change :: change_codec where
  "demo_change = \<lparr> change_to_vec = (\<lambda>p. if p = demo_payload then Some ''j'' else None),
     change_from_slice = (\<lambda>t. if t = ''j'' then Some demo_payload else None) \<rparr>"

definition demo_nonce :: string where
  "demo_nonce = replicate 24 CHR ''n''"

lemma demo_change_ok: "change_codec_ok demo_change" "length demo_nonce = NONCE_LEN"
  by (simp_all add: change_codec_ok_def demo_change_def demo_nonce_def NONCE_LEN_def)

lemma demo_create:
  "\<exists>pd s1. pending_create demo_env demo_aead demo_change ''c'' demo_nonce 0 ''root'' ''s1'' ''smtp_password_update'' demo_payload ''sum'' ''csrf'' 0 empty_store
    = (Inr pd, s1)"
proof -
  have "checked_attributes (S07_event ''c'' ''smtp_password_update'') = Inr [(''intent'', ''smtp_password_update'')]"
    by (intro checked_attributes_plain) (simp_all add: S07_event_def ok_event_def attribute_bounds key_ok_def)
  then show ?thesis
    by (simp add: pending_create_def demo_change_def seal_def demo_aead_def create_pending_settings_change_def class_a_def with_tx_def
        class_a_tx_def create_pending_settings_change_body_def tx_bind_def pc_insert_within_tx_def empty_store_def tx_modify_def)
qed

lemma demo_change_seal: "\<exists>enc. seal_password demo_aead demo_nonce (sp_password demo_payload) = Inr enc"
  by (simp add: seal_password_def seal_def demo_aead_def)

lemma demo_payload_facts: "smtp_tls_mode_parse (sp_tls_mode demo_payload) = Some StartTls" "utf8_valid (sp_password demo_payload)"
  by (simp_all add: demo_payload_def smtp_tls_mode_parse_def utf8_valid_ascii byte_def)

section \<open>Properties\<close>

lemma create_Inr:
  assumes "pending_create cx ae jc pcid nonce at actor sid intent payload summary csrf now s = (Inr pd, s1)"
  obtains json enc row where "change_to_vec jc payload = Some json"
    "seal ae (master_key ae) nonce json PENDING_CHANGE_AAD = Inr enc"
    "row = \<lparr> pc_id = pcid, pc_session_id = sid, pc_actor_id = actor, pc_intent = intent, pc_payload_enc = enc,
       pc_summary = summary, pc_csrf_token = csrf, pc_expires_at = now + seconds 300, pc_created_at = now \<rparr>"
    "pc_find pcid s1 = Some row" "attributes_ok [(''intent'', intent)]"
proof -
  obtain json enc u where json: "change_to_vec jc payload = Some json"
    and enc: "seal ae (master_key ae) nonce json PENDING_CHANGE_AAD = Inr enc"
    and run: "create_pending_settings_change cx at actor \<lparr> pc_id = pcid, pc_session_id = sid, pc_actor_id = actor,
      pc_intent = intent, pc_payload_enc = enc, pc_summary = summary, pc_csrf_token = csrf, pc_expires_at = now + seconds 300,
      pc_created_at = now \<rparr> s = (Inr u, s1)"
    using assms unfolding pending_create_def PENDING_CHANGE_TTL_SECS_def
    by (auto split: option.splits sum.splits prod.splits)
  define row where "row = \<lparr> pc_id = pcid, pc_session_id = sid, pc_actor_id = actor,
      pc_intent = intent, pc_payload_enc = enc, pc_summary = summary, pc_csrf_token = csrf, pc_expires_at = now + seconds 300,
      pc_created_at = now \<rparr>"
  obtain ev t attrs where body: "create_pending_settings_change_body row s = Inr ((u, ev), t)"
    and attrs: "checked_attributes ev = Inr attrs"
    and s1: "s1 = t\<lparr>audit := append_within_tx cx
      (build_audit_row (ev_descriptor ev) (Some actor) at (ev_target ev) (ev_result ev) attrs) (audit s)\<rparr>"
    using run [folded row_def] unfolding create_pending_settings_change_def by (rule s07.class_a_success)
  have new: "pcid \<notin> pc_id ` set (pending_settings_changes s)" and t: "pending_settings_changes t = pending_settings_changes s @ [row]"
    and ev: "ev = S07_event pcid intent"
    using body by (auto simp: create_pending_settings_change_body_def results pc_insert_within_tx_def row_def list_ex_iff split: if_splits)
  have "pc_find pcid s1 = Some row"
    using find_append_new [of pc_id row "pending_settings_changes s"] new t unfolding s1 by (simp add: pc_find_def row_def)
  moreover have "attributes_ok [(''intent'', intent)]"
    using attrs unfolding ev by (auto simp: S07_event_def ok_event_def checked_attributes_def build_attributes_eq split: sum.splits)
  ultimately show thesis
    using that [OF json enc row_def] by blast
qed

lemma apply_command_bound:
  assumes "pc_find pcid s = Some row" "now < pc_expires_at row" "attributes_ok [(''intent'', pc_intent row)]"
    and "pc_session_id row = sid" "pc_actor_id row = admin" "pc_csrf_token row = csrf"
  shows "\<exists>s'. apply_pending_settings_change cx at admin pcid sid csrf now cfg s = (Inr ChangeApplied, s')"
proof -
  have "checked_attributes (S08_event pcid (AttemptApplied (pc_intent row))) = Inr [(''intent'', pc_intent row)]"
    using assms(3) by (intro checked_attributes_plain) (simp_all add: S08_event_def ok_event_def)
  then show ?thesis
    using assms by (simp add: apply_pending_settings_change_def class_a_def with_tx_def class_a_tx_def
        apply_pending_settings_change_body_def tx_bind_def pc_apply_within_tx_def pc_peek_def smtp_upsert_within_tx_def tx_modify_def)
qed

text \<open>What was confirmed is what is applied.  A change created at \<open>t\<close> and confirmed before \<open>t\<close> plus 300 seconds
  by the same administrator, in the same session and with the same CSRF token is applied, whatever
  happened to the rest of the store: the relay configuration then holds the values that were entered
  (trimmed as the code trims them), and its sealed password opens to the one that was entered.\<close>

theorem confirmed_change_is_applied:
  assumes "aead_ok ae" "change_codec_ok jc" "length nonce = NONCE_LEN" "length nonce' = NONCE_LEN"
    and "pending_create cx ae jc pcid nonce at actor sid intent payload summary csrf t s = (Inr pd, s1)"
    and "pc_find pcid s0 = pc_find pcid s1" "pc_find pcid s2 = pc_find pcid s1" "now < t + seconds 300"
    and "smtp_tls_mode_parse (sp_tls_mode payload) = Some mode" "utf8_valid (sp_password payload)"
    and "seal_password ae nonce' (sp_password payload) = Inr enc'"
  shows "\<exists>s3 cfg. pending_apply cx ae jc nonce' at' pcid actor sid csrf now s0 s2 = (Inr (), s3)
    \<and> smtp_config_get s3 = Some cfg \<and> decrypt_password ae cfg = Inr (Some (sp_password payload))
    \<and> sc_enabled cfg = sp_enabled payload \<and> sc_host cfg = str_trim (sp_host payload) \<and> sc_port cfg = sp_port payload
    \<and> sc_tls_mode cfg = mode \<and> sc_username cfg = sp_username payload \<and> pc_find pcid s3 = None"
proof -
  obtain json enc row where json: "change_to_vec jc payload = Some json"
    and enc: "seal ae (master_key ae) nonce json PENDING_CHANGE_AAD = Inr enc"
    and row: "row = \<lparr> pc_id = pcid, pc_session_id = sid, pc_actor_id = actor, pc_intent = intent, pc_payload_enc = enc,
       pc_summary = summary, pc_csrf_token = csrf, pc_expires_at = t + seconds 300, pc_created_at = t \<rparr>"
    and found: "pc_find pcid s1 = Some row" and intent: "attributes_ok [(''intent'', intent)]"
    using assms(5) by (rule create_Inr)
  define cfg where "cfg = new_smtp_config payload mode enc' (smtp_config_get s0) now"
  obtain s3 where run: "apply_pending_settings_change cx at' actor pcid sid csrf now cfg s2 = (Inr ChangeApplied, s3)"
    using apply_command_bound [of pcid s2 row now sid actor csrf cx at' cfg] assms(7,8) found intent row by auto
  have res: "pending_settings_changes s3 = delete_where (\<lambda>r. pc_id r = pcid) (pending_settings_changes s2)"
    "smtp_config s3 = Some (case smtp_config s2 of None \<Rightarrow> cfg | Some old \<Rightarrow> cfg\<lparr> sc_created_at := sc_created_at old \<rparr>)"
    using apply_command_Inr [OF run] by (auto split: if_splits)
  have "open_sealed ae (master_key ae) enc PENDING_CHANGE_AAD = Inr json" "change_from_slice jc json = Some payload"
    using open_seal [OF assms(1,3) enc] assms(2) json by (auto simp: change_codec_ok_def)
  then have ran: "pending_apply cx ae jc nonce' at' pcid actor sid csrf now s0 s2 = (Inr (), s3)"
    using assms(6,8,9,11) found row run by (simp add: pending_apply_def pc_peek_def cfg_def)
  have "open_sealed ae (master_key ae) enc' SMTP_PASSWORD_AAD = Inr (sp_password payload)"
    using open_seal [OF assms(1,4)] assms(11) by (simp add: seal_password_def)
  then have "decrypt_password ae (cfg\<lparr> sc_created_at := c \<rparr>) = Inr (Some (sp_password payload))" for c
    using assms(10) by (simp add: decrypt_password_def cfg_def new_smtp_config_def)
  moreover have "\<exists>c. smtp_config_get s3 = Some (cfg\<lparr> sc_created_at := c \<rparr>)"
    using res(2) by (cases "smtp_config s2") (auto simp: smtp_config_get_def intro: exI [of _ "sc_created_at cfg"])
  moreover have "pc_find pcid s3 = None"
    using res(1) by (auto simp: pc_find_def find_None_iff delete_where_def)
  ultimately show ?thesis
    using ran by (fastforce simp: cfg_def new_smtp_config_def)
qed

theorem confirmed_change_is_applied_witness:
  "\<exists>s1 s3 cfg. pending_apply demo_env demo_aead demo_change demo_nonce 0 ''c'' ''root'' ''s1'' ''csrf'' (seconds 299) s1 s1 = (Inr (), s3)
    \<and> smtp_config_get s3 = Some cfg \<and> decrypt_password demo_aead cfg = Inr (Some ''pw'')"
proof -
  obtain pd s1 where made: "pending_create demo_env demo_aead demo_change ''c'' demo_nonce 0 ''root'' ''s1'' ''smtp_password_update''
      demo_payload ''sum'' ''csrf'' 0 empty_store = (Inr pd, s1)"
    using demo_create by blast
  obtain enc where enc: "seal_password demo_aead demo_nonce (sp_password demo_payload) = Inr enc"
    using demo_change_seal by blast
  have now: "seconds 299 < 0 + seconds 300"
    by (simp add: seconds_def nanos_def)
  have "sp_password demo_payload = ''pw''"
    by (simp add: demo_payload_def)
  then show ?thesis
    using confirmed_change_is_applied [OF demo_aead_ok demo_change_ok(1) demo_change_ok(2) demo_change_ok(2) made refl refl now
        demo_payload_facts enc, of 0] by auto
qed

text \<open>A pending change is applied at most once, whatever is created, confirmed, cancelled and purged in between and
  however the confirmations interleave.\<close>

theorem pending_change_single_use:
  assumes "uses (change_step cx ae jc pcid) (apply_change cx ae jc pcid) s n s'"
  shows "n \<le> 1"
  using change.at_most_once [OF TrueI assms] .

theorem pending_change_single_use_witness:
  "uses (change_step demo_env demo_aead demo_change ''c'') (apply_change demo_env demo_aead demo_change ''c'') empty_store 0 empty_store
    \<and> (\<forall>s'. \<not> uses (change_step demo_env demo_aead demo_change ''c'') (apply_change demo_env demo_aead demo_change ''c'')
        empty_store 2 s')"
  using uses.start pending_change_single_use [of demo_env demo_aead demo_change "''c''" empty_store 2] by fastforce

text \<open>A confirmation is bound to the session, the administrator and the form.  One that succeeds found the row
  unexpired and bound to all three; one that fails, for whatever reason, leaves the row and the relay
  configuration as they were.\<close>

theorem confirmation_is_bound:
  assumes "pending_apply cx ae jc nonce at pcid actor sid csrf now s0 s = (r, s')"
  shows "case r of
      Inr _ \<Rightarrow> (\<exists>row. pc_find pcid s = Some row \<and> now < pc_expires_at row \<and> pc_session_id row = sid \<and> pc_actor_id row = actor
        \<and> pc_csrf_token row = csrf)
        \<and> pending_settings_changes s' = delete_where (\<lambda>r. pc_id r = pcid) (pending_settings_changes s)
    | Inl _ \<Rightarrow> pending_settings_changes s' = pending_settings_changes s \<and> smtp_config s' = smtp_config s"
  using assms by (rule pending_apply_outcome)

theorem confirmation_is_bound_witness:
  "\<exists>r s'. pending_apply demo_env demo_aead demo_change demo_nonce 0 ''c'' ''root'' ''s2'' ''csrf'' 0 empty_store empty_store = (r, s')
    \<and> smtp_config s' = None"
proof -
  have run: "pending_apply demo_env demo_aead demo_change demo_nonce 0 ''c'' ''root'' ''s2'' ''csrf'' 0 empty_store empty_store
      = (Inl (BadRequest EXPIRED_OR_INVALID), empty_store)"
    by (simp add: pending_apply_def pc_peek_def pc_find_def empty_store_def)
  have "smtp_config empty_store = None"
    by (simp add: empty_store_def)
  then show ?thesis
    using run confirmation_is_bound [OF run] by auto
qed

end
