(* ===== verification/Command_History.thy ===== *)
theory Command_History
  imports Settings Self_Service Setup Sign_In Federation Pending_Change
begin

text \<open>
  The audited commands of the store as one family, and histories of them.  Every command of the family
  meets the contract \<open>audited_command\<close>, so a history never damages the audit log.
\<close>

section \<open>The family of commands\<close>

definition acked :: "(store \<Rightarrow> ('e + 'a) \<times> store) \<Rightarrow> store \<Rightarrow> ('e + unit) \<times> store" where
  "acked run s = apfst (map_sum (\<lambda>e. e) (\<lambda>_. ())) (run s)"

inductive command :: "digest_env \<Rightarrow> (store \<Rightarrow> (store_error + unit) \<times> store) \<Rightarrow> bool" for cx where
  U01: "command cx (acked (create_user cx at lower admin user))"
| U02: "command cx (acked (disable_user cx at admin sid tgt reason t now))"
| U03: "command cx (acked (enable_user cx at admin sid tgt t now))"
| U04: "command cx (acked (delete_user cx at admin sid tgt reason t now))"
| U05: "command cx (acked (change_user_role cx at admin tgt new_role t))"
| U07: "command cx (acked (admin_reset_mfa cx at admin sid tgt reason now))"
| U07_operator: "command cx (acked (operator_reset_mfa cx at tgt why))"
| U08: "command cx (acked (admin_unlock_user cx at tgt t))"
| U09: "command cx (acked (change_password_self cx at uid credential keep revoke_others now))"
| U10: "command cx (acked (consume_and_reset_password cx at uid token_id credential t warned))"
| U22: "command cx (acked (record_login_failure cx at uid policy t t'))"
| U37: "command cx (acked (issue_recovery_link_as_admin cx fmt at token_id admin sid tgt h raw expires now))"
| U37_operator: "command cx (acked (issue_recovery_link_as_operator cx fmt at token_id tgt h raw expires now))"
| C01: "command cx (acked (create_client cx at admin row))"
| C02: "command cx (acked (update_client_basic cx at admin tgt name uris now))"
| C03: "command cx (acked (update_client_form cx at admin tgt scopes uris consent now))"
| C05: "command cx (acked (disable_client cx at admin tgt reason now))"
| C06: "command cx (acked (delete_client cx at admin tgt reason now))"
| C07: "command cx (acked (rotate_client_secret cx at admin tgt new_hash reason now))"
| C10: "command cx (acked (update_client_app_identity cx at admin tgt homepage privacy tos now))"
| C21: "command cx (acked (enable_client cx at admin tgt now))"
| K01: "command cx (acked (rotate_signing_key cx at admin sid new_id algorithm enc pk reason now))"
| K03: "command cx (acked (delete_signing_key cx at admin tgt reason))"
| L01: "command cx (acked (sign_in_with_password cx at session))"
| L02: "command cx (acked (complete_second_factor cx at pending_id session prf))"
| L05: "command cx (acked (complete_step_up cx at uid sid step_prf gate now))"
| L06: "command cx (acked (record_step_up_failure cx at uid sid now))"
| L07: "command cx (acked (record_second_factor_failure cx at uid policy t))"
| T04: "command cx (acked (rotate_refresh_token cx at h client_id now prepared))"
| S01: "command cx (acked (change_default_lang cx at admin lang now))"
| S02: "command cx (acked (change_hibp_mode cx at admin mode now))"
| S03: "command cx (acked (change_idle_session_timeout cx at admin secs now))"
| S04: "command cx (acked (change_max_concurrent_sessions cx at admin cap now))"
| S05: "command cx (acked (rotate_metrics_token cx at mth now))"
| S10: "command cx (acked (complete_initial_setup cx at lower user cred signing_key authorized_by now))"
| U12: "command cx (acked (confirm_totp_enrollment cx at uid sealed last_used_step now))"
| U14: "command cx (acked (regenerate_recovery_codes cx at uid sealed))"
| U15: "command cx (acked (register_passkey cx at passkey))"
| U13: "command cx (acked (disable_totp cx at uid))"
| U16: "command cx (acked (delete_passkey cx at uid credential_id))"
| U17: "command cx (acked (rename_passkey cx at uid credential_id new_nickname))"
| U18: "command cx (acked (revoke_session cx at admin uid sid trig now))"
| U18_idle: "command cx (acked (revoke_session_idle_timeout cx at uid sid now))"
| U19: "command cx (acked (revoke_all_sessions_for_user_as_user cx at uid trigs now))"
| U19_hint: "command cx (acked (revoke_all_sessions_for_user_unattributed cx at uid trigs now))"
| U19_others: "command cx (acked (revoke_other_sessions_for_user cx at uid sid trigs now))"
| U20: "command cx (acked (revoke_consent cx at uid cid))"
| U21: "command cx (acked (grant_consent cx at uid cid granted_scopes now))"
| C08: "command cx (acked (set_dev_client_secret cx at admin tgt new_hash))"
| C14: "command cx (acked (issue_registration_token cx at registration))"
| C15: "command cx (acked (register_client_dynamically cx at token_hash row now))"
| C22: "command cx (acked (revoke_registration_token cx at tgt now))"
| C16: "command cx (acked (create_federation_provider cx at ae nonce provider secret))"
| C24: "command cx (acked (update_federation_provider_allowed_origins cx at pid origins now))"
| L04: "command cx (acked (sign_in_federated cx at aid pid slug session))"
| F04: "command cx (acked (provision_federated_user cx at lower aid pid user link session))"
| S06: "command cx (acked (change_smtp_config cx at admin smtp))"
| S07: "command cx (acked (create_pending_settings_change cx at admin pending))"
| S08: "command cx (acked (apply_pending_settings_change cx at admin pcid sid csrf now smtp))"
| S09: "command cx (acked (cancel_pending_settings_change cx at admin pcid))"

lemma acked_class_a:
  assumes "command_body body"
  shows "audited_command cx (acked (class_a cx at actor body)) (\<lambda>_. True)"
proof
  fix s e s'
  assume "acked (class_a cx at actor body) s = (Inl e, s')"
  then have "class_a cx at actor body s = (Inl e, s')"
    by (cases "class_a cx at actor body s"; cases "fst (class_a cx at actor body s)") (auto simp: acked_def)
  then show "s' = s"
    using command_body.class_a_error [OF assms] by blast
next
  fix s u s'
  assume "acked (class_a cx at actor body) s = (Inr u, s')"
  then obtain v where "class_a cx at actor body s = (Inr v, s')"
    by (cases "class_a cx at actor body s"; cases "fst (class_a cx at actor body s)") (auto simp: acked_def)
  then show "\<exists>row. True \<and> audit s' = append_within_tx cx row (audit s)"
    by (rule command_body.class_a_success [OF assms]) auto
qed

lemmas command_defs = create_user_def disable_user_def enable_user_def delete_user_def change_user_role_def
  admin_reset_mfa_def operator_reset_mfa_def admin_unlock_user_def change_password_self_def consume_and_reset_password_def
  record_login_failure_def issue_recovery_link_as_admin_def issue_recovery_link_as_operator_def
  create_client_def update_client_basic_def update_client_form_def disable_client_def delete_client_def
  rotate_client_secret_def update_client_app_identity_def enable_client_def rotate_signing_key_def delete_signing_key_def
  sign_in_with_password_def complete_second_factor_def complete_step_up_def record_step_up_failure_def
  record_second_factor_failure_def rotate_refresh_token_def change_default_lang_def change_hibp_mode_def
  change_idle_session_timeout_def change_max_concurrent_sessions_def rotate_metrics_token_def complete_initial_setup_def
  confirm_totp_enrollment_def regenerate_recovery_codes_def register_passkey_def disable_totp_def delete_passkey_def
  rename_passkey_def revoke_session_def revoke_session_idle_timeout_def revoke_all_sessions_for_user_as_user_def
  revoke_all_sessions_for_user_unattributed_def revoke_other_sessions_for_user_def revoke_consent_def grant_consent_def
  set_dev_client_secret_def issue_registration_token_def register_client_dynamically_def revoke_registration_token_def
  create_federation_provider_def update_federation_provider_allowed_origins_def sign_in_federated_def
  provision_federated_user_def change_smtp_config_def create_pending_settings_change_def
  apply_pending_settings_change_def cancel_pending_settings_change_def

lemmas command_bodies = u01.command_body_axioms u02.command_body_axioms u03.command_body_axioms u04.command_body_axioms
  u05.command_body_axioms u07.command_body_axioms u07_cli.command_body_axioms u08.command_body_axioms
  u09.command_body_axioms u10.command_body_axioms u22.command_body_axioms u37.command_body_axioms u37_cli.command_body_axioms
  c01.command_body_axioms c02.command_body_axioms c03.command_body_axioms c05.command_body_axioms c06.command_body_axioms
  c07.command_body_axioms c10.command_body_axioms c21.command_body_axioms k01.command_body_axioms k03.command_body_axioms
  l01.command_body_axioms l02.command_body_axioms l05.command_body_axioms l06.command_body_axioms l07.command_body_axioms
  t04.command_body_axioms s01.command_body_axioms s02.command_body_axioms s03.command_body_axioms s04.command_body_axioms
  s05.command_body_axioms s10.command_body_axioms u12.command_body_axioms u13.command_body_axioms u14.command_body_axioms
  u15.command_body_axioms u16.command_body_axioms u17.command_body_axioms u18.command_body_axioms u19.command_body_axioms
  u19_others.command_body_axioms u20.command_body_axioms u21.command_body_axioms c08.command_body_axioms
  c14.command_body_axioms c15.command_body_axioms c22.command_body_axioms c16.command_body_axioms c24.command_body_axioms l04.command_body_axioms
  f04.command_body_axioms s06.command_body_axioms s07.command_body_axioms s08.command_body_axioms s09.command_body_axioms

lemma command_audited: "command cx run \<Longrightarrow> audited_command cx run (\<lambda>_. True)"
  by (induction rule: command.induct) (unfold command_defs, (rule acked_class_a, rule command_bodies)+)

section \<open>Histories\<close>

text \<open>\<open>n\<close> counts the commands that succeeded.\<close>

inductive history :: "digest_env \<Rightarrow> store \<Rightarrow> nat \<Rightarrow> store \<Rightarrow> bool" for cx where
  begin_history: "history cx s 0 s"
| execute: "history cx s n t \<Longrightarrow> command cx run \<Longrightarrow> run t = (r, t') \<Longrightarrow>
    history cx s (n + (if is_ok r then 1 else 0)) t'"

lemma history_log:
  assumes "history cx s n s'" "digest_env_ok cx" "intact cx (audit s)"
  shows "intact cx (audit s') \<and> (\<exists>es. entries (audit s') = entries (audit s) @ es \<and> length es = n)"
  using assms
proof (induction rule: history.induct)
  case (execute s n t run r t')
  then have ok: "intact cx (audit t)"
    by blast
  obtain es where es: "entries (audit t) = entries (audit s) @ es" "length es = n"
    using execute by blast
  have cmd: "audited_command cx run (\<lambda>_. True)"
    using execute.hyps(2) by (rule command_audited)
  obtain new where new: "entries (audit t') = entries (audit t) @ new"
    using audited_command.log_grows [OF cmd, of t] execute.hyps(3) by auto
  moreover have "length new = (if is_ok r then 1 else 0)"
    using audited_command.log_length [OF cmd, of t] execute.hyps(3) new by simp
  ultimately show ?case
    using audited_command.keeps_intact [OF cmd execute.prems(1) ok] execute.hyps(3) es by simp
qed simp

end
