(* ===== verification/Federated_Mfa.thy ===== *)
theory Federated_Mfa
  imports Federation
begin

text \<open>
  The second factor of a federated sign-in, store side: the continuation
  (\<open>repos/federation_mfa_pending.rs\<close>), its WebAuthn ceremony (\<open>repos/federation_webauthn_ceremony.rs\<close>)
  and the protocol commands F02 (issue), F03 (complete) and F06 (begin a ceremony) of \<open>commands.rs\<close>.
\<close>

section \<open>Continuations\<close>

fun mfa_pending_status_as_str :: "federation_mfa_pending_status \<Rightarrow> string" where
  "mfa_pending_status_as_str FmPending = ''pending''"
| "mfa_pending_status_as_str FmCompleted = ''completed''"
| "mfa_pending_status_as_str FmExhausted = ''exhausted''"
| "mfa_pending_status_as_str FmInvalidated = ''invalidated''"

definition PENDING_LIFETIME_SECS :: int where
  "PENDING_LIFETIME_SECS = 300"

definition pending_aad :: "uuid \<Rightarrow> uuid \<Rightarrow> int \<Rightarrow> int \<Rightarrow> uuid \<Rightarrow> string" where
  "pending_aad fid pid version generation uid =
    fid @ [CHR 0x00] @ pid @ [CHR 0x00] @ dec_int version @ [CHR 0x00] @ dec_int generation @ [CHR 0x00] @ uid"

definition row_aad :: "federation_mfa_pending_row \<Rightarrow> string" where
  "row_aad r = pending_aad (fm_id r) (fm_provider_id r) (fm_provider_config_version r)
     (fm_provider_activation_generation r) (fm_user_id r)"

text \<open>The predicate of the partial unique index of migration 0048.\<close>

definition fm_active :: "uuid \<Rightarrow> federation_mfa_pending_row \<Rightarrow> bool" where
  "fm_active uid r = (fm_user_id r = uid \<and> (fm_status r = FmPending \<or> fm_status r = FmExhausted))"

definition pending_insert_within_tx :: "federation_mfa_pending_row \<Rightarrow> unit tx" where
  "pending_insert_within_tx row s =
    (if fm_provider_config_version row < 0 \<or> fm_provider_activation_generation row < 0
        \<or> list_ex (\<lambda>r. fm_id r = fm_id row) (federation_mfa_pendings s)
        \<or> (fm_active (fm_user_id row) row \<and> list_ex (fm_active (fm_user_id row)) (federation_mfa_pendings s))
        \<or> \<not> list_ex (link_of (fm_user_id row) (fm_provider_id row)) (federation_links s)
     then Inl StoreConflict
     else Inr ((), s\<lparr>federation_mfa_pendings := federation_mfa_pendings s @ [row]\<rparr>))"

definition find_active_by_user_id_within_tx :: "uuid \<Rightarrow> federation_mfa_pending_row option tx" where
  "find_active_by_user_id_within_tx uid = tx_get (\<lambda>s. List.find (fm_active uid) (federation_mfa_pendings s))"

definition refreshed_row ::
  "uuid \<Rightarrow> int \<Rightarrow> int \<Rightarrow> string \<Rightarrow> string option \<Rightarrow> string \<Rightarrow> string \<Rightarrow> federation_mfa_pending_row \<Rightarrow> federation_mfa_pending_row" where
  "refreshed_row pid version generation continuation next_path bb csrf r =
    r\<lparr> fm_provider_id := pid, fm_provider_config_version := version, fm_provider_activation_generation := generation,
      fm_continuation_sealed := Some continuation, fm_next_path := next_path, fm_browser_binding_sha256 := bb,
      fm_csrf_binding_sha256 := csrf \<rparr>"

definition refresh_for_restart_within_tx ::
  "uuid \<Rightarrow> uuid \<Rightarrow> int \<Rightarrow> int \<Rightarrow> uuid \<Rightarrow> string \<Rightarrow> string option \<Rightarrow> string \<Rightarrow> string \<Rightarrow> bool tx" where
  "refresh_for_restart_within_tx fid pid version generation uid continuation next_path bb csrf s =
    (let p = (\<lambda>r. fm_id r = fid \<and> fm_user_id r = uid \<and> fm_status r = FmPending);
         n = affected p (federation_mfa_pendings s) in
     if n > 0 \<and> (version < 0 \<or> generation < 0)
       then Inl (Db ''CHECK constraint failed: federation_mfa_pending'')
     else if n > 0 \<and> \<not> list_ex (link_of uid pid) (federation_links s)
       then Inl (Db ''FOREIGN KEY constraint failed'')
     else Inr (n = 1, s\<lparr>federation_mfa_pendings :=
       update_where p (refreshed_row pid version generation continuation next_path bb csrf) (federation_mfa_pendings s)\<rparr>))"

definition pending_find_by_id :: "uuid \<Rightarrow> store \<Rightarrow> federation_mfa_pending_row option" where
  "pending_find_by_id fid s = List.find (\<lambda>r. fm_id r = fid) (federation_mfa_pendings s)"

definition pending_get_within_tx :: "uuid \<Rightarrow> federation_mfa_pending_row option tx" where
  "pending_get_within_tx fid = tx_get (pending_find_by_id fid)"

datatype failure_increment = StillPending int | Exhausted

definition guessable :: "uuid \<Rightarrow> federation_mfa_pending_row \<Rightarrow> bool" where
  "guessable fid r = (fm_id r = fid \<and> fm_status r = FmPending \<and> fm_failure_count r < 5)"

definition failed_row :: "federation_mfa_pending_row \<Rightarrow> federation_mfa_pending_row" where
  "failed_row r =
    r\<lparr> fm_failure_count := fm_failure_count r + 1,
      fm_status := (if fm_failure_count r + 1 \<ge> 5 then FmExhausted else fm_status r),
      fm_continuation_sealed := (if fm_failure_count r + 1 \<ge> 5 then None else fm_continuation_sealed r) \<rparr>"

definition increment_failure_within_tx :: "uuid \<Rightarrow> failure_increment option tx" where
  "increment_failure_within_tx fid s =
    (case List.find (guessable fid) (federation_mfa_pendings s) of
       None \<Rightarrow> Inr (None, s)
     | Some r \<Rightarrow>
        let new_count = fm_failure_count r + 1 in
        Inr (Some (if new_count \<ge> 5 then Exhausted else StillPending new_count),
          s\<lparr>federation_mfa_pendings := update_where (guessable fid) failed_row (federation_mfa_pendings s)\<rparr>))"

definition pending_complete_within_tx :: "uuid \<Rightarrow> bool tx" where
  "pending_complete_within_tx fid s =
    Inr (affected (guessable fid) (federation_mfa_pendings s) = 1,
      s\<lparr>federation_mfa_pendings := update_where (guessable fid)
        (\<lambda>r. r\<lparr> fm_status := FmCompleted, fm_continuation_sealed := None \<rparr>) (federation_mfa_pendings s)\<rparr>)"

definition invalidate_within_tx :: "uuid \<Rightarrow> bool tx" where
  "invalidate_within_tx fid s =
    (let p = (\<lambda>r. fm_id r = fid \<and> fm_status r = FmPending) in
     Inr (affected p (federation_mfa_pendings s) = 1,
       s\<lparr>federation_mfa_pendings := update_where p
         (\<lambda>r. r\<lparr> fm_status := FmInvalidated, fm_continuation_sealed := None \<rparr>) (federation_mfa_pendings s)\<rparr>))"

definition pending_purge_expired :: "instant \<Rightarrow> nat tx" where
  "pending_purge_expired now s =
    (let p = (\<lambda>r. fm_expires_at r < now - hours 24) in
     Inr (affected p (federation_mfa_pendings s), drop_continuations p s))"

datatype mfa_rejection_reason = RjTotp | RjRecovery | RjWebauthn | RjMalformed | RjMethodMismatch

fun mfa_rejection_as_str :: "mfa_rejection_reason \<Rightarrow> string" where
  "mfa_rejection_as_str RjTotp = ''totp''"
| "mfa_rejection_as_str RjRecovery = ''recovery''"
| "mfa_rejection_as_str RjWebauthn = ''webauthn''"
| "mfa_rejection_as_str RjMalformed = ''malformed''"
| "mfa_rejection_as_str RjMethodMismatch = ''method_mismatch''"

fun invalidated_as_str :: "invalidated_reason \<Rightarrow> string" where
  "invalidated_as_str InvExpired = ''expired''"
| "invalidated_as_str ProviderChanged = ''provider_changed''"
| "invalidated_as_str ProviderDisabled = ''provider_disabled''"
| "invalidated_as_str LinkChanged = ''link_changed''"
| "invalidated_as_str UserInactive = ''user_inactive''"
| "invalidated_as_str FactorChanged = ''factor_changed''"
| "invalidated_as_str CeremonyInvalid = ''ceremony_invalid''"

section \<open>Ceremonies\<close>

definition ceremony_aad :: "uuid \<Rightarrow> uuid \<Rightarrow> int \<Rightarrow> int \<Rightarrow> uuid \<Rightarrow> string" where
  "ceremony_aad fid pid version generation uid =
    fid @ [CHR 0x00] @ pid @ [CHR 0x00] @ dec_int version @ [CHR 0x00] @ dec_int generation @ [CHR 0x00] @ uid"

text \<open>The composite foreign key: the continuation the ceremony names, with the same identity.\<close>

definition ceremony_parent :: "federation_webauthn_ceremony_row \<Rightarrow> federation_mfa_pending_row \<Rightarrow> bool" where
  "ceremony_parent c r =
    (fm_id r = fw_pending_id c \<and> fm_provider_id r = fw_provider_id c
     \<and> fm_provider_config_version r = fw_provider_config_version c
     \<and> fm_provider_activation_generation r = fw_provider_activation_generation c
     \<and> fm_user_id r = fw_user_id c \<and> fm_expires_at r = fw_pending_expires_at c)"

definition ceremony_insert_or_replace_within_tx :: "federation_webauthn_ceremony_row \<Rightarrow> unit tx" where
  "ceremony_insert_or_replace_within_tx row s =
    (if fw_provider_config_version row < 0 \<or> fw_provider_activation_generation row < 0
        \<or> \<not> list_ex (ceremony_parent row) (federation_mfa_pendings s)
     then Inl StoreConflict
     else Inr ((), s\<lparr>federation_ceremonies :=
       delete_where (\<lambda>c. fw_id c = fw_id row \<or> fw_pending_id c = fw_pending_id row) (federation_ceremonies s) @ [row]\<rparr>))"

definition ceremony_find_by_pending_id :: "uuid \<Rightarrow> store \<Rightarrow> federation_webauthn_ceremony_row option" where
  "ceremony_find_by_pending_id fid s = List.find (\<lambda>c. fw_pending_id c = fid) (federation_ceremonies s)"

definition ceremony_consume_within_tx :: "uuid \<Rightarrow> bool tx" where
  "ceremony_consume_within_tx cid s =
    Inr (affected (\<lambda>c. fw_id c = cid) (federation_ceremonies s) = 1,
      s\<lparr>federation_ceremonies := delete_where (\<lambda>c. fw_id c = cid) (federation_ceremonies s)\<rparr>)"

definition ceremony_delete_by_pending_id_within_tx :: "uuid \<Rightarrow> bool tx" where
  "ceremony_delete_by_pending_id_within_tx fid s =
    Inr (affected (\<lambda>c. fw_pending_id c = fid) (federation_ceremonies s) = 1,
      s\<lparr>federation_ceremonies := delete_where (\<lambda>c. fw_pending_id c = fid) (federation_ceremonies s)\<rparr>)"

definition current_passkey_enc :: "uuid \<Rightarrow> store \<Rightarrow> string option" where
  "current_passkey_enc wid s = map_option wc_passkey_enc (List.find (\<lambda>c. wc_id c = wid) (webauthn_credentials s))"

section \<open>F02: the local second factor is required\<close>

definition tx_seal :: "aead_env \<Rightarrow> string \<Rightarrow> string \<Rightarrow> string \<Rightarrow> string tx" where
  "tx_seal ae nonce plaintext aad s =
    (case seal ae (master_key ae) nonce plaintext aad of Inl e \<Rightarrow> Inl e | Inr c \<Rightarrow> Inr (c, s))"

definition reuse_pending ::
  "aead_env \<Rightarrow> string \<Rightarrow> uuid \<Rightarrow> int \<Rightarrow> int \<Rightarrow> uuid \<Rightarrow> string option \<Rightarrow> string \<Rightarrow> string \<Rightarrow> federation_mfa_pending_row
    \<Rightarrow> (uuid \<times> instant) tx" where
  "reuse_pending ae nonce pid version generation uid next_path bb csrf existing =
    tx_bind (ceremony_delete_by_pending_id_within_tx (fm_id existing)) (\<lambda>_.
    tx_bind (tx_seal ae nonce [] (pending_aad (fm_id existing) pid version generation uid)) (\<lambda>continuation.
    tx_bind (refresh_for_restart_within_tx (fm_id existing) pid version generation uid continuation next_path bb csrf) (\<lambda>refreshed.
    tx_bind (tx_guard refreshed StoreConflict) (\<lambda>_.
      tx_return (fm_id existing, fm_expires_at existing)))))"

definition fresh_pending ::
  "aead_env \<Rightarrow> uuid \<Rightarrow> string \<Rightarrow> uuid \<Rightarrow> int \<Rightarrow> int \<Rightarrow> uuid \<Rightarrow> string option \<Rightarrow> string \<Rightarrow> string \<Rightarrow> instant
    \<Rightarrow> (uuid \<times> instant) tx" where
  "fresh_pending ae fid nonce pid version generation uid next_path bb csrf now =
    tx_bind (tx_seal ae nonce [] (pending_aad fid pid version generation uid)) (\<lambda>continuation.
    let expires_at = now + seconds PENDING_LIFETIME_SECS;
        row = \<lparr> fm_id = fid, fm_provider_id = pid, fm_provider_config_version = version,
          fm_provider_activation_generation = generation, fm_user_id = uid, fm_continuation_sealed = Some continuation,
          fm_next_path = next_path, fm_browser_binding_sha256 = bb, fm_csrf_binding_sha256 = csrf,
          fm_failure_count = 0, fm_status = FmPending, fm_created_at = now, fm_expires_at = expires_at \<rparr> in
    tx_bind (pending_insert_within_tx row) (\<lambda>_. tx_return (fid, expires_at)))"

definition issue_federated_mfa_pending_tx ::
  "aead_env \<Rightarrow> uuid \<Rightarrow> string \<Rightarrow> uuid \<Rightarrow> uuid \<Rightarrow> int \<Rightarrow> int \<Rightarrow> uuid \<Rightarrow> string option \<Rightarrow> string \<Rightarrow> string \<Rightarrow> instant
    \<Rightarrow> (uuid \<times> instant) tx" where
  "issue_federated_mfa_pending_tx ae fid nonce aid pid version generation uid next_path bb csrf now =
    tx_bind (attempt_complete_within_tx aid) (\<lambda>_.
    tx_bind (find_active_by_user_id_within_tx uid) (\<lambda>found.
    case found of
      None \<Rightarrow> fresh_pending ae fid nonce pid version generation uid next_path bb csrf now
    | Some existing \<Rightarrow>
        if fm_status existing = FmExhausted then tx_return (fm_id existing, fm_expires_at existing)
        else if fm_expires_at existing > now
          then reuse_pending ae nonce pid version generation uid next_path bb csrf existing
        else tx_bind (invalidate_within_tx (fm_id existing)) (\<lambda>invalidated.
          tx_bind (tx_guard invalidated StoreConflict) (\<lambda>_.
            fresh_pending ae fid nonce pid version generation uid next_path bb csrf now))))"

definition issue_federated_mfa_pending ::
  "aead_env \<Rightarrow> uuid \<Rightarrow> string \<Rightarrow> uuid \<Rightarrow> uuid \<Rightarrow> int \<Rightarrow> int \<Rightarrow> uuid \<Rightarrow> string option \<Rightarrow> string \<Rightarrow> string \<Rightarrow> instant
    \<Rightarrow> store \<Rightarrow> (store_error + uuid \<times> instant) \<times> store" where
  "issue_federated_mfa_pending ae fid nonce aid pid version generation uid next_path bb csrf now =
    protocol_tx (issue_federated_mfa_pending_tx ae fid nonce aid pid version generation uid next_path bb csrf now)"

section \<open>F03: completing the second factor\<close>

datatype f03_proof =
    PrTotp int
  | PrRecovery string string
  | PrWebauthn uuid uuid string string
  | PrRejected mfa_rejection_reason

datatype f03_outcome =
    Promoted session_row int string
  | RejectedStillPending int mfa_rejection_reason
  | AttemptsExhausted mfa_rejection_reason
  | Invalidated invalidated_reason

definition invalidate_for :: "uuid \<Rightarrow> invalidated_reason \<Rightarrow> f03_outcome tx" where
  "invalidate_for fid reason =
    tx_bind (invalidate_within_tx fid) (\<lambda>invalidated.
    tx_bind (tx_guard invalidated StoreConflict) (\<lambda>_. tx_return (Invalidated reason)))"

definition reject_or_exhaust :: "uuid \<Rightarrow> mfa_rejection_reason \<Rightarrow> f03_outcome tx" where
  "reject_or_exhaust fid reason =
    tx_bind (increment_failure_within_tx fid) (\<lambda>inc.
    case inc of
      None \<Rightarrow> tx_fail StoreConflict
    | Some Exhausted \<Rightarrow>
        tx_bind (ceremony_delete_by_pending_id_within_tx fid) (\<lambda>_. tx_return (AttemptsExhausted reason))
    | Some (StillPending n) \<Rightarrow>
        if reason = RjWebauthn
        then tx_bind (ceremony_delete_by_pending_id_within_tx fid) (\<lambda>_. tx_return (RejectedStillPending n reason))
        else tx_return (RejectedStillPending n reason))"

definition method_str :: "auth_method \<Rightarrow> string" where
  "method_str m = (if m = Totp then ''totp'' else if m = RecoveryCode then ''recovery_code'' else ''webauthn'')"

definition promote :: "uuid \<Rightarrow> federation_mfa_pending_row \<Rightarrow> instant \<Rightarrow> auth_method \<Rightarrow> f03_outcome tx" where
  "promote sid row now meth =
    (let uid = fm_user_id row;
         session = \<lparr> s_id = sid, s_user_id = uid, s_expires_at = now + hours 12, s_created_at = now,
           s_revoked_at = None, s_auth_methods = [Fed, meth],
           s_last_step_up_at = (if meth \<noteq> RecoveryCode then Some now else None), s_last_used_at = None,
           s_last_step_up_method = None, s_step_up_failure_count = 0 \<rparr> in
     tx_bind (link_touch_last_seen_within_tx uid (fm_provider_id row) now) (\<lambda>_.
     tx_bind (record_federated_login_within_tx uid now) (\<lambda>_.
     tx_bind (session_insert_within_tx session) (\<lambda>_.
     tx_bind (if meth \<noteq> RecoveryCode then set_step_up_method_within_tx sid (method_str meth) else tx_return ()) (\<lambda>_.
     tx_bind (evict_over_cap_within_tx uid now) (\<lambda>evicted.
       tx_return (Promoted session evicted (method_str meth))))))))"

text \<open>The three accepted proofs, once the row and the user's authority have been checked.\<close>

definition f03_totp :: "uuid \<Rightarrow> uuid \<Rightarrow> federation_mfa_pending_row \<Rightarrow> instant \<Rightarrow> user_totp_row option \<Rightarrow> int \<Rightarrow> f03_outcome tx" where
  "f03_totp sid fid row now totp step =
    (case totp of
       None \<Rightarrow> invalidate_for fid FactorChanged
     | Some t \<Rightarrow>
        if step \<le> ut_last_used_step t then reject_or_exhaust fid RjTotp
        else tx_bind (pending_complete_within_tx fid) (\<lambda>completed.
          if \<not> completed then tx_fail StoreConflict
          else tx_bind (advance_last_used_step_within_tx (fm_user_id row) step) (\<lambda>_. promote sid row now Totp)))"

definition f03_recovery ::
  "uuid \<Rightarrow> uuid \<Rightarrow> federation_mfa_pending_row \<Rightarrow> instant \<Rightarrow> user_totp_row option \<Rightarrow> string \<Rightarrow> string \<Rightarrow> f03_outcome tx" where
  "f03_recovery sid fid row now totp expected_sealed new_sealed =
    (case totp of
       None \<Rightarrow> invalidate_for fid FactorChanged
     | Some t \<Rightarrow>
        if ut_recovery_codes_enc t \<noteq> Some expected_sealed then reject_or_exhaust fid RjRecovery
        else tx_bind (pending_complete_within_tx fid) (\<lambda>completed.
          if \<not> completed then tx_fail StoreConflict
          else tx_bind (swap_recovery_codes_within_tx (fm_user_id row) expected_sealed new_sealed) (\<lambda>_.
            promote sid row now RecoveryCode)))"

definition f03_webauthn ::
  "uuid \<Rightarrow> uuid \<Rightarrow> federation_mfa_pending_row \<Rightarrow> instant \<Rightarrow> uuid \<Rightarrow> uuid \<Rightarrow> string \<Rightarrow> string \<Rightarrow> f03_outcome tx" where
  "f03_webauthn sid fid row now ceremony_id credential_id expected_sealed new_sealed =
    tx_bind (tx_get (ceremony_find_by_pending_id fid)) (\<lambda>ceremony.
    if \<not> (case ceremony of None \<Rightarrow> False | Some c \<Rightarrow> fw_id c = ceremony_id \<and> fw_expires_at c > now)
    then invalidate_for fid CeremonyInvalid
    else tx_bind (tx_get (current_passkey_enc credential_id)) (\<lambda>current.
    case current of
      None \<Rightarrow> invalidate_for fid FactorChanged
    | Some blob \<Rightarrow>
        if blob \<noteq> expected_sealed then reject_or_exhaust fid RjWebauthn
        else tx_bind (pending_complete_within_tx fid) (\<lambda>completed.
          if \<not> completed then tx_fail StoreConflict
          else tx_bind (swap_passkey_within_tx credential_id expected_sealed new_sealed now) (\<lambda>_.
          tx_bind (ceremony_consume_within_tx ceremony_id) (\<lambda>_. promote sid row now Webauthn)))))"

definition f03_rejected :: "uuid \<Rightarrow> user_totp_row option \<Rightarrow> mfa_rejection_reason \<Rightarrow> f03_outcome tx" where
  "f03_rejected fid totp reason =
    (if reason \<in> {RjTotp, RjRecovery, RjMalformed} \<and> totp = None then invalidate_for fid FactorChanged
     else reject_or_exhaust fid reason)"

fun f03_prove :: "uuid \<Rightarrow> uuid \<Rightarrow> federation_mfa_pending_row \<Rightarrow> instant \<Rightarrow> user_totp_row option \<Rightarrow> f03_proof option \<Rightarrow> f03_outcome tx" where
  "f03_prove sid fid row now totp None =
    tx_fail (Integrity ''F03 called with no proof on a row the durable recheck still finds pending'')"
| "f03_prove sid fid row now totp (Some (PrRejected reason)) = f03_rejected fid totp reason"
| "f03_prove sid fid row now totp (Some (PrTotp step)) = f03_totp sid fid row now totp step"
| "f03_prove sid fid row now totp (Some (PrRecovery expected_sealed new_sealed)) =
    f03_recovery sid fid row now totp expected_sealed new_sealed"
| "f03_prove sid fid row now totp (Some (PrWebauthn ceremony_id credential_id expected_sealed new_sealed)) =
    f03_webauthn sid fid row now ceremony_id credential_id expected_sealed new_sealed"

definition check_continuation :: "aead_env \<Rightarrow> federation_mfa_pending_row \<Rightarrow> unit tx" where
  "check_continuation ae row =
    (if fm_status row = FmPending
     then (case fm_continuation_sealed row of
             None \<Rightarrow> tx_fail (Integrity ''pending row has no continuation'')
           | Some sealed \<Rightarrow>
              (case open_sealed ae (master_key ae) sealed (row_aad row) of
                 Inl _ \<Rightarrow> tx_fail (Integrity ''continuation failed to open'')
               | Inr _ \<Rightarrow> tx_return ()))
     else tx_return ())"

definition enabled_totp :: "uuid \<Rightarrow> store \<Rightarrow> user_totp_row option" where
  "enabled_totp uid s = (case totp_get uid s of None \<Rightarrow> None | Some t \<Rightarrow> if ut_enabled t then Some t else None)"

definition complete_federated_mfa_tx ::
  "aead_env \<Rightarrow> uuid \<Rightarrow> uuid \<Rightarrow> f03_proof option \<Rightarrow> instant \<Rightarrow> f03_outcome tx" where
  "complete_federated_mfa_tx ae sid fid prf now =
    tx_bind (pending_get_within_tx fid) (\<lambda>found.
    case found of
      None \<Rightarrow> tx_fail StoreNotFound
    | Some row \<Rightarrow>
        tx_bind (check_continuation ae row) (\<lambda>_.
        tx_bind (tx_guard (fm_status row = FmPending) StoreConflict) (\<lambda>_.
        if fm_expires_at row \<le> now then invalidate_for fid InvExpired
        else tx_bind (authority_drift_within_tx (fm_provider_id row) (fm_user_id row)) (\<lambda>drift.
          case drift of
            Some reason \<Rightarrow> invalidate_for fid reason
          | None \<Rightarrow>
              tx_bind (tx_get (enabled_totp (fm_user_id row))) (\<lambda>totp. f03_prove sid fid row now totp prf)))))"

fun f03_emission :: "digest_env \<Rightarrow> f03_outcome \<Rightarrow> instant \<Rightarrow> store \<Rightarrow> store" where
  "f03_emission cx (Promoted session evicted meth) at s =
    snd (emit_must_attempt cx \<lparr> ed_name = ''auth.federation.mfa_success'',
        ed_attributes = [(''method'', False), (''evicted'', False)] \<rparr> at
      (Some (s_user_id session)) (Some (s_user_id session)) ''ok''
      (build_attributes [(''method'', meth), (''evicted'', dec_int evicted)]) s)"
| "f03_emission cx (RejectedStillPending n reason) at s =
    snd (emit_must_attempt cx \<lparr> ed_name = ''auth.federation.mfa_rejected'', ed_attributes = [(''reason'', True)] \<rparr> at
      None None ''denied'' (build_attributes [(''reason'', mfa_rejection_as_str reason)]) s)"
| "f03_emission cx (AttemptsExhausted reason) at s =
    snd (emit_must_attempt cx \<lparr> ed_name = ''auth.federation.mfa_exhausted'', ed_attributes = [(''attempt_limit'', True)] \<rparr> at
      None None ''denied'' (build_attributes [(''reason'', mfa_rejection_as_str reason)]) s)"
| "f03_emission cx (Invalidated reason) at s =
    snd (emit_must_attempt cx \<lparr> ed_name = ''auth.federation.mfa_invalidated'', ed_attributes = [(''reason'', True)] \<rparr> at
      None None ''denied'' (build_attributes [(''reason'', invalidated_as_str reason)]) s)"

definition complete_federated_mfa ::
  "digest_env \<Rightarrow> aead_env \<Rightarrow> uuid \<Rightarrow> uuid \<Rightarrow> f03_proof option \<Rightarrow> instant \<Rightarrow> store \<Rightarrow> (store_error + f03_outcome) \<times> store" where
  "complete_federated_mfa cx ae sid fid prf now s =
    (case protocol_tx (complete_federated_mfa_tx ae sid fid prf now) s of
       (Inl e, s') \<Rightarrow> (Inl e, s')
     | (Inr outcome, s') \<Rightarrow> (Inr outcome, f03_emission cx outcome now s'))"

section \<open>F06: beginning a WebAuthn ceremony\<close>

definition FEDERATED_WEBAUTHN_CEREMONY_LIFETIME_SECS :: int where
  "FEDERATED_WEBAUTHN_CEREMONY_LIFETIME_SECS = 60"

definition begin_federation_webauthn_ceremony_tx ::
  "uuid \<Rightarrow> uuid \<Rightarrow> string \<Rightarrow> string \<Rightarrow> string \<Rightarrow> instant \<Rightarrow> uuid tx" where
  "begin_federation_webauthn_ceremony_tx cid fid ceremony_state_sealed rp_id origin now =
    tx_bind (pending_get_within_tx fid) (\<lambda>found.
    case found of
      None \<Rightarrow> tx_fail StoreNotFound
    | Some row \<Rightarrow>
        tx_bind (tx_guard (fm_status row = FmPending) StoreConflict) (\<lambda>_.
        tx_bind (tx_guard (fm_expires_at row > now) StoreConflict) (\<lambda>_.
        tx_bind (authority_drift_within_tx (fm_provider_id row) (fm_user_id row)) (\<lambda>drift.
        tx_bind (tx_guard (drift = None) StoreConflict) (\<lambda>_.
        tx_bind (tx_get (webauthn_has_any (fm_user_id row))) (\<lambda>any.
        tx_bind (tx_guard any StoreConflict) (\<lambda>_.
        tx_bind (ceremony_insert_or_replace_within_tx
            \<lparr> fw_id = cid, fw_pending_id = fm_id row, fw_provider_id = fm_provider_id row,
              fw_provider_config_version = fm_provider_config_version row,
              fw_provider_activation_generation = fm_provider_activation_generation row, fw_user_id = fm_user_id row,
              fw_ceremony_state_sealed = ceremony_state_sealed, fw_rp_id = rp_id, fw_origin = origin,
              fw_created_at = now, fw_pending_expires_at = fm_expires_at row,
              fw_expires_at = min (now + seconds FEDERATED_WEBAUTHN_CEREMONY_LIFETIME_SECS) (fm_expires_at row) \<rparr>) (\<lambda>_.
          tx_return cid))))))))"

definition begin_federation_webauthn_ceremony ::
  "uuid \<Rightarrow> uuid \<Rightarrow> string \<Rightarrow> string \<Rightarrow> string \<Rightarrow> instant \<Rightarrow> store \<Rightarrow> (store_error + uuid) \<times> store" where
  "begin_federation_webauthn_ceremony cid fid ceremony_state_sealed rp_id origin now =
    protocol_tx (begin_federation_webauthn_ceremony_tx cid fid ceremony_state_sealed rp_id origin now)"

section \<open>What the commands do to the continuations\<close>

lemma keeps_tx_seal [frame]: "keeps part (tx_seal ae nonce plain aad)"
  by (auto simp: keeps_def tx_seal_def split: sum.splits)

lemma keeps_check_continuation [frame]: "keeps part (check_continuation ae row)"
  by (auto simp: keeps_def check_continuation_def split: option.splits sum.splits if_splits)

lemma keeps_ceremony [frame]:
  "(\<And>s x. part (s\<lparr>federation_ceremonies := x\<rparr>) = part s) \<Longrightarrow> keeps part (ceremony_delete_by_pending_id_within_tx fid)"
  "(\<And>s x. part (s\<lparr>federation_ceremonies := x\<rparr>) = part s) \<Longrightarrow> keeps part (ceremony_consume_within_tx cid)"
  "(\<And>s x. part (s\<lparr>federation_ceremonies := x\<rparr>) = part s) \<Longrightarrow> keeps part (ceremony_insert_or_replace_within_tx row)"
  by (auto simp: keeps_def ceremony_delete_by_pending_id_within_tx_def ceremony_consume_within_tx_def
      ceremony_insert_or_replace_within_tx_def split: if_splits)

lemma keeps_swap_passkey [frame]:
  "(\<And>s x. part (s\<lparr>webauthn_credentials := x\<rparr>) = part s) \<Longrightarrow> keeps part (swap_passkey_within_tx wid a b now)"
  by (auto simp: keeps_def swap_passkey_within_tx_def Let_def results)

lemma promote_keeps_continuations: "keeps federation_mfa_pendings (promote sid row now meth)"
  unfolding promote_def Let_def session_ops by (intro frame; simp)

definition completed_row :: "federation_mfa_pending_row \<Rightarrow> federation_mfa_pending_row" where
  "completed_row r = r\<lparr> fm_status := FmCompleted, fm_continuation_sealed := None \<rparr>"

definition invalid_row :: "federation_mfa_pending_row \<Rightarrow> federation_mfa_pending_row" where
  "invalid_row r = r\<lparr> fm_status := FmInvalidated, fm_continuation_sealed := None \<rparr>"

definition awaits :: "uuid \<Rightarrow> federation_mfa_pending_row \<Rightarrow> bool" where
  "awaits fid r = (fm_id r = fid \<and> fm_status r = FmPending)"

text \<open>The transition of the continuation that an outcome stands for.\<close>

fun outcome_step :: "uuid \<Rightarrow> f03_outcome \<Rightarrow> federation_mfa_pending_row list \<Rightarrow> federation_mfa_pending_row list \<Rightarrow> bool" where
  "outcome_step fid (Promoted session evicted meth) rows rows' =
    (\<exists>r. List.find (\<lambda>r. fm_id r = fid) rows = Some r \<and> guessable fid r \<and> s_user_id session = fm_user_id r
      \<and> rows' = update_where (guessable fid) completed_row rows)"
| "outcome_step fid (RejectedStillPending n reason) rows rows' =
    (\<exists>r. List.find (guessable fid) rows = Some r \<and> n = fm_failure_count r + 1 \<and> n < 5
      \<and> rows' = update_where (guessable fid) failed_row rows)"
| "outcome_step fid (AttemptsExhausted reason) rows rows' =
    (\<exists>r. List.find (guessable fid) rows = Some r \<and> fm_failure_count r + 1 = 5
      \<and> rows' = update_where (guessable fid) failed_row rows)"
| "outcome_step fid (Invalidated reason) rows rows' =
    (affected (awaits fid) rows = 1 \<and> rows' = update_where (awaits fid) invalid_row rows)"

lemma reject_or_exhaust_step:
  assumes "reject_or_exhaust fid reason s = Inr (out, s')"
  shows "outcome_step fid out (federation_mfa_pendings s) (federation_mfa_pendings s')"
proof -
  obtain inc t where inc: "increment_failure_within_tx fid s = Inr (Some inc, t)"
    using assms by (auto simp: reject_or_exhaust_def results split: option.splits)
  then obtain r where r: "List.find (guessable fid) (federation_mfa_pendings s) = Some r"
    and t: "federation_mfa_pendings t = update_where (guessable fid) failed_row (federation_mfa_pendings s)"
    and inc_eq: "inc = (if fm_failure_count r + 1 \<ge> 5 then Exhausted else StillPending (fm_failure_count r + 1))"
    by (auto simp: increment_failure_within_tx_def Let_def split: option.splits)
  have small: "fm_failure_count r < 5"
    using find_Some_in [OF r] by (simp add: guessable_def)
  have "federation_mfa_pendings s' = federation_mfa_pendings t"
    using assms inc by (auto simp: reject_or_exhaust_def results ceremony_delete_by_pending_id_within_tx_def
        split: failure_increment.splits if_splits)
  moreover have "out = (if fm_failure_count r + 1 \<ge> 5 then AttemptsExhausted reason
      else RejectedStillPending (fm_failure_count r + 1) reason)"
    using assms inc inc_eq by (auto simp: reject_or_exhaust_def results ceremony_delete_by_pending_id_within_tx_def
        split: failure_increment.splits if_splits)
  ultimately show ?thesis
    using r t small by auto
qed

lemma invalidate_for_step:
  assumes "invalidate_for fid reason s = Inr (out, s')"
  shows "outcome_step fid out (federation_mfa_pendings s) (federation_mfa_pendings s')"
proof -
  have "invalid_row = (\<lambda>r. r\<lparr> fm_status := FmInvalidated, fm_continuation_sealed := None \<rparr>)"
    "awaits fid = (\<lambda>r. fm_id r = fid \<and> fm_status r = FmPending)"
    by (simp_all add: fun_eq_iff invalid_row_def awaits_def)
  then show ?thesis
    using assms by (auto simp: invalidate_for_def results invalidate_within_tx_def Let_def)
qed

lemma promote_session:
  assumes "promote sid row now meth s = Inr (out, s')"
  shows "\<exists>session evicted m. out = Promoted session evicted m \<and> s_user_id session = fm_user_id row
    \<and> s_auth_methods session = [Fed, meth]"
  using assms by (auto simp: promote_def Let_def results)

text \<open>Completing the continuation, proving the factor and promoting.\<close>

lemma completion_step:
  assumes "tx_bind (pending_complete_within_tx fid) (\<lambda>completed. if \<not> completed then tx_fail StoreConflict else rest) s
      = Inr (out, s')"
    and "keeps federation_mfa_pendings rest"
    and "\<And>t t'. rest t = Inr (out, t') \<Longrightarrow>
      \<exists>session evicted m. out = Promoted session evicted m \<and> s_user_id session = fm_user_id row"
    and "List.find (\<lambda>r. fm_id r = fid) (federation_mfa_pendings s) = Some row" "fm_status row = FmPending"
    and "distinct (map fm_id (federation_mfa_pendings s))"
  shows "outcome_step fid out (federation_mfa_pendings s) (federation_mfa_pendings s')"
proof -
  have row: "row \<in> set (federation_mfa_pendings s)" "fm_id row = fid"
    using find_Some_in [OF assms(4)] by auto
  define t where "t = s\<lparr>federation_mfa_pendings := update_where (guessable fid) completed_row (federation_mfa_pendings s)\<rparr>"
  have one: "affected (guessable fid) (federation_mfa_pendings s) = 1" and rest: "rest t = Inr (out, s')"
    using assms(1) by (auto simp: t_def results pending_complete_within_tx_def completed_row_def [abs_def] split: if_splits)
  have t: "federation_mfa_pendings t = update_where (guessable fid) completed_row (federation_mfa_pendings s)"
    by (simp add: t_def)
  obtain r where r: "r \<in> set (federation_mfa_pendings s)" "guessable fid r"
    using one affected_pos_iff [of "guessable fid" "federation_mfa_pendings s"] by auto
  then have "r = row"
    using assms(6) row by (metis (mono_tags, lifting) distinct_map guessable_def inj_on_def)
  moreover obtain session evicted m where "out = Promoted session evicted m" "s_user_id session = fm_user_id row"
    using assms(3) [OF rest] by blast
  moreover have "federation_mfa_pendings s' = federation_mfa_pendings t"
    using keepsD [OF assms(2) rest] .
  ultimately show ?thesis
    using r t assms(4) by auto
qed

lemma f03_totp_step:
  assumes "f03_totp sid fid row now totp step s = Inr (out, s')"
    and "List.find (\<lambda>r. fm_id r = fid) (federation_mfa_pendings s) = Some row" "fm_status row = FmPending"
    and "distinct (map fm_id (federation_mfa_pendings s))"
  shows "outcome_step fid out (federation_mfa_pendings s) (federation_mfa_pendings s')"
proof -
  have "keeps federation_mfa_pendings (tx_bind (advance_last_used_step_within_tx (fm_user_id row) step) (\<lambda>_. promote sid row now Totp))"
    unfolding advance_last_used_step_within_tx_def by (intro frame promote_keeps_continuations; simp)
  moreover have "\<exists>session evicted m. out = Promoted session evicted m \<and> s_user_id session = fm_user_id row"
    if "tx_bind (advance_last_used_step_within_tx (fm_user_id row) step) (\<lambda>_. promote sid row now Totp) t = Inr (out, t')" for t t'
    using that promote_session by (fastforce simp: results)
  ultimately show ?thesis
    using assms(1) invalidate_for_step reject_or_exhaust_step completion_step [OF _ _ _ assms(2-4)]
    unfolding f03_totp_def by (auto split: option.splits if_splits)
qed

lemma f03_recovery_step:
  assumes "f03_recovery sid fid row now totp a b s = Inr (out, s')"
    and "List.find (\<lambda>r. fm_id r = fid) (federation_mfa_pendings s) = Some row" "fm_status row = FmPending"
    and "distinct (map fm_id (federation_mfa_pendings s))"
  shows "outcome_step fid out (federation_mfa_pendings s) (federation_mfa_pendings s')"
proof -
  have "keeps federation_mfa_pendings (tx_bind (swap_recovery_codes_within_tx (fm_user_id row) a b) (\<lambda>_. promote sid row now RecoveryCode))"
    unfolding swap_recovery_codes_within_tx_def by (intro frame promote_keeps_continuations; simp)
  moreover have "\<exists>session evicted m. out = Promoted session evicted m \<and> s_user_id session = fm_user_id row"
    if "tx_bind (swap_recovery_codes_within_tx (fm_user_id row) a b) (\<lambda>_. promote sid row now RecoveryCode) t = Inr (out, t')" for t t'
    using that promote_session by (fastforce simp: results)
  ultimately show ?thesis
    using assms(1) invalidate_for_step reject_or_exhaust_step completion_step [OF _ _ _ assms(2-4)]
    unfolding f03_recovery_def by (auto split: option.splits if_splits)
qed

lemma f03_webauthn_step:
  assumes "f03_webauthn sid fid row now cid wid a b s = Inr (out, s')"
    and "List.find (\<lambda>r. fm_id r = fid) (federation_mfa_pendings s) = Some row" "fm_status row = FmPending"
    and "distinct (map fm_id (federation_mfa_pendings s))"
  shows "outcome_step fid out (federation_mfa_pendings s) (federation_mfa_pendings s')"
proof -
  let ?rest = "tx_bind (swap_passkey_within_tx wid a b now) (\<lambda>_.
    tx_bind (ceremony_consume_within_tx cid) (\<lambda>_. promote sid row now Webauthn))"
  have "keeps federation_mfa_pendings ?rest"
    by (intro frame promote_keeps_continuations; simp)
  moreover have "\<exists>session evicted m. out = Promoted session evicted m \<and> s_user_id session = fm_user_id row"
    if "?rest t = Inr (out, t')" for t t'
    using that promote_session by (fastforce simp: results)
  ultimately show ?thesis
    using assms(1) invalidate_for_step reject_or_exhaust_step completion_step [OF _ _ _ assms(2-4)]
    unfolding f03_webauthn_def by (auto split: option.splits if_splits)
qed

lemma f03_prove_step:
  assumes "f03_prove sid fid row now totp prf s = Inr (out, s')"
    and "List.find (\<lambda>r. fm_id r = fid) (federation_mfa_pendings s) = Some row" "fm_status row = FmPending"
    and "distinct (map fm_id (federation_mfa_pendings s))"
  shows "outcome_step fid out (federation_mfa_pendings s) (federation_mfa_pendings s')"
proof (cases "prf")
  case (Some p)
  then show ?thesis
    using assms f03_totp_step f03_recovery_step f03_webauthn_step invalidate_for_step reject_or_exhaust_step
    by (cases p) (auto simp: f03_rejected_def split: if_splits)
qed (use assms in simp)

text \<open>What had to hold for F03 to look at the proof.\<close>

lemma complete_federated_mfa_tx_Inr:
  assumes "complete_federated_mfa_tx ae sid fid prf now s = Inr (out, s')"
  obtains row where "List.find (\<lambda>r. fm_id r = fid) (federation_mfa_pendings s) = Some row" "fm_status row = FmPending"
    "invalidate_for fid InvExpired s = Inr (out, s') \<and> fm_expires_at row \<le> now
      \<or> (\<exists>reason. invalidate_for fid reason s = Inr (out, s'))
      \<or> fm_expires_at row > now \<and> authority_drift_within_tx (fm_provider_id row) (fm_user_id row) s = Inr (None, s)
        \<and> (\<exists>sealed plain. fm_continuation_sealed row = Some sealed \<and> open_sealed ae (master_key ae) sealed (row_aad row) = Inr plain)
        \<and> f03_prove sid fid row now (enabled_totp (fm_user_id row) s) prf s = Inr (out, s')"
proof -
  obtain row where row: "List.find (\<lambda>r. fm_id r = fid) (federation_mfa_pendings s) = Some row"
    using assms by (auto simp: complete_federated_mfa_tx_def pending_get_within_tx_def pending_find_by_id_def results
        split: option.splits)
  obtain t where check: "check_continuation ae row s = Inr ((), t)"
    using assms row by (auto simp: complete_federated_mfa_tx_def pending_get_within_tx_def pending_find_by_id_def results)
  then have st: "t = s" and pend: "fm_status row = FmPending \<Longrightarrow>
      \<exists>sealed plain. fm_continuation_sealed row = Some sealed \<and> open_sealed ae (master_key ae) sealed (row_aad row) = Inr plain"
    by (auto simp: check_continuation_def split: if_splits option.splits sum.splits)
  have rest: "fm_status row = FmPending" "(if fm_expires_at row \<le> now then invalidate_for fid InvExpired
        else tx_bind (authority_drift_within_tx (fm_provider_id row) (fm_user_id row)) (\<lambda>drift.
          case drift of
            Some reason \<Rightarrow> invalidate_for fid reason
          | None \<Rightarrow>
              tx_bind (tx_get (enabled_totp (fm_user_id row))) (\<lambda>totp. f03_prove sid fid row now totp prf))) s = Inr (out, s')"
    using assms row check st by (auto simp: complete_federated_mfa_tx_def pending_get_within_tx_def pending_find_by_id_def results)
  show thesis
  proof (cases "fm_expires_at row \<le> now")
    case True
    then show thesis
      using that [OF row rest(1)] rest(2) by simp
  next
    case False
    obtain drift t' where drift: "authority_drift_within_tx (fm_provider_id row) (fm_user_id row) s = Inr (drift, t')"
      and cont: "(case drift of
            Some reason \<Rightarrow> invalidate_for fid reason
          | None \<Rightarrow>
              tx_bind (tx_get (enabled_totp (fm_user_id row))) (\<lambda>totp. f03_prove sid fid row now totp prf)) t' = Inr (out, s')"
      using rest(2) False by (auto simp: results)
    have "t' = s"
      using keepsD [OF keeps_authority_drift [where part = "\<lambda>x. x"] drift] .
    then show thesis
      using that [OF row rest(1)] drift cont False pend [OF rest(1)] by (cases drift) (auto simp: results)
  qed
qed

lemma f03_emission_continuations [simp]: "federation_mfa_pendings (f03_emission cx out now s) = federation_mfa_pendings s"
  by (cases out) (auto simp: emit_must_attempt_def split: sum.splits option.splits)

lemma complete_federated_mfa_Inr:
  assumes "complete_federated_mfa cx ae sid fid prf now s = (Inr out, s')"
  obtains t where "complete_federated_mfa_tx ae sid fid prf now s = Inr (out, t)" "s' = f03_emission cx out now t"
  using assms by (auto simp: complete_federated_mfa_def protocol_tx_def with_tx_def split: sum.splits prod.splits)

lemma complete_federated_mfa_Inl:
  assumes "complete_federated_mfa cx ae sid fid prf now s = (Inl e, s')"
  shows "s' = s"
  using assms by (auto simp: complete_federated_mfa_def protocol_tx_def with_tx_def split: sum.splits prod.splits)

lemma complete_federated_mfa_step:
  assumes "complete_federated_mfa cx ae sid fid prf now s = (Inr out, s')"
    and "distinct (map fm_id (federation_mfa_pendings s))"
  shows "outcome_step fid out (federation_mfa_pendings s) (federation_mfa_pendings s')"
proof -
  obtain t where tx: "complete_federated_mfa_tx ae sid fid prf now s = Inr (out, t)" and s': "s' = f03_emission cx out now t"
    using assms(1) by (rule complete_federated_mfa_Inr)
  from tx have "outcome_step fid out (federation_mfa_pendings s) (federation_mfa_pendings t)"
    by (rule complete_federated_mfa_tx_Inr) (use invalidate_for_step f03_prove_step assms(2) in blast)
  then show ?thesis
    by (simp add: s')
qed

section \<open>The invariant of the continuations\<close>

definition live :: "federation_mfa_pending_row \<Rightarrow> bool" where
  "live r = (fm_status r = FmPending \<or> fm_status r = FmExhausted)"

text \<open>Identifiers are unique, a user has at most one continuation that is pending or exhausted, and a
  pending one has fewer than five failures.\<close>

definition continuations_ok :: "federation_mfa_pending_row list \<Rightarrow> bool" where
  "continuations_ok rows =
    (distinct (map fm_id rows)
     \<and> (\<forall>a \<in> set rows. \<forall>b \<in> set rows. live a \<and> live b \<and> fm_user_id a = fm_user_id b \<longrightarrow> fm_id a = fm_id b)
     \<and> (\<forall>r \<in> set rows. fm_status r = FmPending \<longrightarrow> 0 \<le> fm_failure_count r \<and> fm_failure_count r < 5))"

definition advances :: "federation_mfa_pending_row \<Rightarrow> federation_mfa_pending_row \<Rightarrow> bool" where
  "advances r r' =
    (fm_id r' = fm_id r \<and> fm_user_id r' = fm_user_id r \<and> fm_expires_at r' = fm_expires_at r
     \<and> (fm_status r \<noteq> FmPending \<longrightarrow> r' = r)
     \<and> (fm_status r' = FmPending \<longrightarrow> fm_failure_count r \<le> fm_failure_count r' \<and> fm_failure_count r' < 5))"

lemma live_advances: "advances r r' \<Longrightarrow> live r' \<Longrightarrow> live r"
  by (auto simp: advances_def live_def)

lemma continuations_okD:
  assumes "continuations_ok rows"
  shows "distinct (map fm_id rows)"
    and "a \<in> set rows \<Longrightarrow> b \<in> set rows \<Longrightarrow> live a \<Longrightarrow> live b \<Longrightarrow> fm_user_id a = fm_user_id b \<Longrightarrow> fm_id a = fm_id b"
    and "r \<in> set rows \<Longrightarrow> fm_status r = FmPending \<Longrightarrow> 0 \<le> fm_failure_count r \<and> fm_failure_count r < 5"
  using assms unfolding continuations_ok_def by (blast, blast, blast)

lemma continuations_ok_update:
  assumes ok: "continuations_ok rows" and adv: "\<And>r. r \<in> set rows \<Longrightarrow> p r \<Longrightarrow> advances r (f r)"
  shows "continuations_ok (update_where p f rows)"
proof -
  have origin: "\<exists>r \<in> set rows. fm_id r' = fm_id r \<and> fm_user_id r' = fm_user_id r \<and> (live r' \<longrightarrow> live r)
      \<and> (fm_status r' = FmPending \<longrightarrow> fm_status r = FmPending \<and> fm_failure_count r \<le> fm_failure_count r'
        \<and> (fm_failure_count r' < 5 \<or> r' = r))" if "r' \<in> set (update_where p f rows)" for r'
  proof -
    obtain r where r: "r \<in> set rows" "r' = (if p r then f r else r)"
      using \<open>r' \<in> set (update_where p f rows)\<close> by (auto simp: set_update_where)
    show ?thesis
    proof (cases "p r")
      case True
      then show ?thesis
        using r adv [OF r(1) True] live_advances [of r "f r"] by (intro bexI [OF _ r(1)]) (auto simp: advances_def)
    next
      case False
      then show ?thesis
        using r by (intro bexI [OF _ r(1)]) auto
    qed
  qed
  have "distinct (map fm_id (update_where p f rows))"
  proof -
    have "map fm_id (update_where p f rows) = map fm_id rows"
      using adv by (auto simp: update_where_def advances_def)
    then show ?thesis
      using continuations_okD(1) [OF ok] by simp
  qed
  moreover have "fm_id a = fm_id b" if "a \<in> set (update_where p f rows)" "b \<in> set (update_where p f rows)"
    "live a" "live b" "fm_user_id a = fm_user_id b" for a b
    using origin [OF that(1)] origin [OF that(2)] that(3-5) continuations_okD(2) [OF ok] by metis
  moreover have "0 \<le> fm_failure_count r' \<and> fm_failure_count r' < 5"
    if "r' \<in> set (update_where p f rows)" "fm_status r' = FmPending" for r'
    using origin [OF that(1)] that(2) continuations_okD(3) [OF ok] by (metis order_trans)
  ultimately show ?thesis
    unfolding continuations_ok_def by blast
qed

lemma continuations_ok_append:
  assumes ok: "continuations_ok rows" and new: "fm_id new \<notin> fm_id ` set rows"
    and others: "\<And>r. r \<in> set rows \<Longrightarrow> fm_user_id r = fm_user_id new \<Longrightarrow> \<not> live r" and zero: "fm_failure_count new = 0"
  shows "continuations_ok (rows @ [new])"
proof -
  have "fm_id a = fm_id b" if mem: "a \<in> set (rows @ [new])" "b \<in> set (rows @ [new])"
    and lv: "live a" "live b" "fm_user_id a = fm_user_id b" for a b
  proof -
    consider "a = new" "b = new" | "a = new" "b \<in> set rows" | "a \<in> set rows" "b = new" | "a \<in> set rows" "b \<in> set rows"
      using mem by auto
    then show ?thesis
    proof cases
      case 2
      then show ?thesis using others [of b] lv by simp
    next
      case 3
      then show ?thesis using others [of a] lv by simp
    next
      case 4
      then show ?thesis using continuations_okD(2) [OF ok] lv by blast
    qed simp
  qed
  moreover have "0 \<le> fm_failure_count r \<and> fm_failure_count r < 5"
    if "r \<in> set (rows @ [new])" "fm_status r = FmPending" for r
    using that zero continuations_okD(3) [OF ok, of r] by (cases "r = new") simp_all
  moreover have "distinct (map fm_id (rows @ [new]))"
    using new continuations_okD(1) [OF ok] by simp
  ultimately show ?thesis
    unfolding continuations_ok_def by blast
qed

lemma continuations_ok_delete: "continuations_ok rows \<Longrightarrow> continuations_ok (delete_where p rows)"
  by (auto simp: continuations_ok_def delete_where_def distinct_map inj_on_def)

lemma failed_row_advances:
  assumes "guessable fid r"
  shows "advances r (failed_row r)"
  using assms by (auto simp: advances_def failed_row_def guessable_def)

lemma completed_row_advances: "guessable fid r \<Longrightarrow> advances r (completed_row r)"
  by (simp add: advances_def completed_row_def guessable_def)

lemma invalid_row_advances: "fm_status r = FmPending \<Longrightarrow> advances r (invalid_row r)"
  by (simp add: advances_def invalid_row_def)

text \<open>An outcome updates the rows along \<open>advances\<close>.\<close>

lemma outcome_step_update:
  assumes "outcome_step fid out rows rows'"
  obtains p f where "rows' = update_where p f rows" "\<And>r. p r \<Longrightarrow> fm_id r = fid" "\<And>r. p r \<Longrightarrow> advances r (f r)"
proof (cases out)
  case (Promoted session evicted m)
  then show thesis
    using assms completed_row_advances that [of "guessable fid" completed_row] by (auto simp: guessable_def)
next
  case (RejectedStillPending n reason)
  then show thesis
    using assms failed_row_advances that [of "guessable fid" failed_row] by (auto simp: guessable_def)
next
  case (AttemptsExhausted reason)
  then show thesis
    using assms failed_row_advances that [of "guessable fid" failed_row] by (auto simp: guessable_def)
next
  case (Invalidated reason)
  then show thesis
    using assms invalid_row_advances that [of "awaits fid" invalid_row] by (auto simp: awaits_def)
qed

section \<open>Issuing a continuation\<close>

text \<open>F02 leaves the rows, refreshes one, or adds a fresh one after invalidating an expired one.\<close>

definition issue_step :: "uuid \<Rightarrow> uuid \<Rightarrow> federation_mfa_pending_row list \<Rightarrow> federation_mfa_pending_row list \<Rightarrow> bool" where
  "issue_step fid uid rows rows' =
    (\<exists>p f. (\<forall>r. p r \<longrightarrow> fm_status r = FmPending)
      \<and> ((\<forall>r. fm_id (f r) = fm_id r \<and> fm_user_id (f r) = fm_user_id r \<and> fm_expires_at (f r) = fm_expires_at r
            \<and> fm_status (f r) = fm_status r \<and> fm_failure_count (f r) = fm_failure_count r)
          \<and> rows' = update_where p f rows
        \<or> (\<exists>new. rows' = update_where p invalid_row rows @ [new] \<and> fm_id new = fid \<and> fm_user_id new = uid
            \<and> fm_failure_count new = 0 \<and> fid \<notin> fm_id ` set rows
            \<and> (\<forall>r \<in> set (update_where p invalid_row rows). fm_user_id r = uid \<longrightarrow> \<not> live r))))"

lemma fresh_pending_rows:
  assumes "fresh_pending ae fid nonce pid version generation uid nxt bb csrf now s = Inr (v, s')"
  shows "\<exists>new. federation_mfa_pendings s' = federation_mfa_pendings s @ [new] \<and> fm_id new = fid \<and> fm_user_id new = uid
    \<and> fm_failure_count new = 0 \<and> fid \<notin> fm_id ` set (federation_mfa_pendings s)
    \<and> (\<forall>r \<in> set (federation_mfa_pendings s). fm_user_id r = uid \<longrightarrow> \<not> live r)"
  using assms by (auto simp: fresh_pending_def Let_def results tx_seal_def pending_insert_within_tx_def live_def fm_active_def
      list_ex_iff split: sum.splits if_splits)

lemma update_where_False: "update_where (\<lambda>_. False) f rows = rows"
  by (simp add: update_where_def)

lemma reuse_pending_rows:
  assumes "reuse_pending ae nonce pid version generation uid nxt bb csrf e s = Inr (v, s')"
  shows "issue_step fid uid (federation_mfa_pendings s) (federation_mfa_pendings s')"
proof -
  obtain b1 t1 c t where del: "ceremony_delete_by_pending_id_within_tx (fm_id e) s = Inr (b1, t1)"
    and sl: "tx_seal ae nonce [] (pending_aad (fm_id e) pid version generation uid) t1 = Inr (c, t)"
    and cont: "tx_bind (refresh_for_restart_within_tx (fm_id e) pid version generation uid c nxt bb csrf) (\<lambda>refreshed.
      tx_bind (tx_guard refreshed StoreConflict) (\<lambda>_. tx_return (fm_id e, fm_expires_at e))) t = Inr (v, s')"
    using assms unfolding reuse_pending_def by (subst (asm) tx_bind_Inr_iff, elim exE conjE, subst (asm) tx_bind_Inr_iff) blast
  have "federation_mfa_pendings t = federation_mfa_pendings s"
    using del keepsD [OF keeps_tx_seal sl, of federation_mfa_pendings] by (auto simp: ceremony_delete_by_pending_id_within_tx_def)
  with cont have "federation_mfa_pendings s' = update_where
      (\<lambda>r. fm_id r = fm_id e \<and> fm_user_id r = uid \<and> fm_status r = FmPending)
      (refreshed_row pid version generation c nxt bb csrf) (federation_mfa_pendings s)"
    by (auto simp: tx_bind_def tx_guard_def refresh_for_restart_within_tx_def Let_def split: if_splits)
  then show ?thesis
    unfolding issue_step_def by (intro exI conjI disjI1) (auto simp: refreshed_row_def)
qed

lemma issue_rows:
  assumes "issue_federated_mfa_pending ae fid nonce aid pid version generation uid nxt bb csrf now s = (Inr v, s')"
  shows "issue_step fid uid (federation_mfa_pendings s) (federation_mfa_pendings s')"
proof -
  let ?rows = "federation_mfa_pendings s"
  have same: "issue_step fid uid ?rows ?rows"
    unfolding issue_step_def by (intro exI [of _ "\<lambda>_. False"] exI [of _ "\<lambda>r. r"]) (simp add: update_where_False)
  define t where "t = s\<lparr>federation_attempts := update_where (\<lambda>a. fa_id a = aid \<and> fa_status a = FaExchanging)
    (\<lambda>a. a\<lparr> fa_status := FaCompleted \<rparr>) (federation_attempts s)\<rparr>"
  have t: "federation_mfa_pendings t = ?rows"
    by (simp add: t_def)
  have cont: "(case List.find (fm_active uid) ?rows of
      None \<Rightarrow> fresh_pending ae fid nonce pid version generation uid nxt bb csrf now
    | Some existing \<Rightarrow>
        if fm_status existing = FmExhausted then tx_return (fm_id existing, fm_expires_at existing)
        else if fm_expires_at existing > now
          then reuse_pending ae nonce pid version generation uid nxt bb csrf existing
        else tx_bind (invalidate_within_tx (fm_id existing)) (\<lambda>invalidated.
          tx_bind (tx_guard invalidated StoreConflict) (\<lambda>_.
            fresh_pending ae fid nonce pid version generation uid nxt bb csrf now))) t = Inr (v, s')"
    using assms by (auto simp: t_def issue_federated_mfa_pending_def protocol_tx_def issue_federated_mfa_pending_tx_def results
        attempt_complete_within_tx_def find_active_by_user_id_within_tx_def Let_def)
  show ?thesis
  proof (cases "List.find (fm_active uid) ?rows")
    case None
    then obtain new where "federation_mfa_pendings s' = ?rows @ [new]" "fm_id new = fid" "fm_user_id new = uid"
      "fm_failure_count new = 0" "fid \<notin> fm_id ` set ?rows" "\<forall>r \<in> set ?rows. fm_user_id r = uid \<longrightarrow> \<not> live r"
      using fresh_pending_rows [of ae fid nonce pid version generation uid nxt bb csrf now t v s'] cont t by auto
    then show ?thesis
      unfolding issue_step_def by (intro exI [of _ "\<lambda>_. False"]) (auto simp: update_where_False)
  next
    case (Some e)
    consider "fm_status e = FmExhausted" | "fm_status e \<noteq> FmExhausted" "fm_expires_at e > now"
      | "fm_status e \<noteq> FmExhausted" "\<not> fm_expires_at e > now"
      by blast
    then show ?thesis
    proof cases
      case 1
      then show ?thesis
        using cont Some t same by simp
    next
      case 2
      then show ?thesis
        using cont Some t reuse_pending_rows by fastforce
    next
      case 3
      have inv: "invalid_row = (\<lambda>r. r\<lparr> fm_status := FmInvalidated, fm_continuation_sealed := None \<rparr>)"
        by (simp add: fun_eq_iff invalid_row_def)
      define t' where "t' = t\<lparr>federation_mfa_pendings :=
        update_where (\<lambda>r. fm_id r = fm_id e \<and> fm_status r = FmPending) invalid_row ?rows\<rparr>"
      have t': "federation_mfa_pendings t' = update_where (\<lambda>r. fm_id r = fm_id e \<and> fm_status r = FmPending) invalid_row ?rows"
        by (simp add: t'_def)
      have fresh: "fresh_pending ae fid nonce pid version generation uid nxt bb csrf now t' = Inr (v, s')"
        using cont Some 3 t by (auto simp: t'_def results invalidate_within_tx_def Let_def inv)
      have ids: "fm_id ` set (federation_mfa_pendings t') = fm_id ` set ?rows"
        unfolding t' by (rule image_update_where) (simp add: invalid_row_def)
      show ?thesis
        using fresh_pending_rows [OF fresh] unfolding ids unfolding t' issue_step_def
        by (intro exI [of _ "\<lambda>r. fm_id r = fm_id e \<and> fm_status r = FmPending"] exI) auto
    qed
  qed
qed

end
