(* ===== verification/Federated_Traffic.thy ===== *)
theory Federated_Traffic
  imports Federated_Mfa
begin

text \<open>
  Histories of federated sign-ins: how often an attempt can be finished, how many guesses a second-factor
  continuation allows, and what an exhausted one means for its user.
\<close>

section \<open>An attempt is finished once\<close>

text \<open>The three ways to finish an attempt that is being exchanged: a session (L04), a new account with a
  session (F04), a second-factor continuation (F02).\<close>

datatype finish =
    SignInNow instant uuid string session_row
  | ProvisionNow instant "string \<Rightarrow> string" uuid user_row federation_link_row session_row
  | SecondFactorNow uuid string uuid int int uuid "string option" string string instant

definition acknowledged :: "('e + 'a) \<times> 's \<Rightarrow> ('e + unit) \<times> 's" where
  "acknowledged = apfst (map_sum (\<lambda>e. e) (\<lambda>_. ()))"

fun finish_attempt :: "digest_env \<Rightarrow> aead_env \<Rightarrow> uuid \<Rightarrow> finish \<Rightarrow> store \<Rightarrow> (store_error + unit) \<times> store" where
  "finish_attempt cx ae aid (SignInNow at pid slug session) s = acknowledged (sign_in_federated cx at aid pid slug session s)"
| "finish_attempt cx ae aid (ProvisionNow at lower pid user link session) s =
    acknowledged (provision_federated_user cx at lower aid pid user link session s)"
| "finish_attempt cx ae aid (SecondFactorNow fid nonce pid version generation uid nxt bb csrf now) s =
    acknowledged (issue_federated_mfa_pending ae fid nonce aid pid version generation uid nxt bb csrf now s)"

inductive attempt_step :: "digest_env \<Rightarrow> aead_env \<Rightarrow> uuid \<Rightarrow> store \<Rightarrow> store \<Rightarrow> bool" for cx ae aid where
  begun: "aid' \<noteq> aid \<Longrightarrow> with_tx (attempt_insert ae aid' nonce pid version generation sh nh bh plain uri nxt now) s = (r, s')
    \<Longrightarrow> attempt_step cx ae aid s s'"
| claimed: "claim_write ae aid' now row s = (r', s') \<Longrightarrow> attempt_step cx ae aid s s'"
| terminalized: "s' = terminalize_and_audit cx aid' reason at pid actor s \<Longrightarrow> attempt_step cx ae aid s s'"
| purged: "with_tx (attempt_purge_expired now) s = (n, s') \<Longrightarrow> attempt_step cx ae aid s s'"
| finished: "finish_attempt cx ae aid' how s = (r'', s') \<Longrightarrow> attempt_step cx ae aid s s'"
| elsewhere: "federation_attempts s' = federation_attempts s \<Longrightarrow> attempt_step cx ae aid s s'"

definition attempt_ids_unique :: "store \<Rightarrow> bool" where
  "attempt_ids_unique s = distinct (map fa_id (federation_attempts s))"

definition attempt_over :: "uuid \<Rightarrow> store \<Rightarrow> bool" where
  "attempt_over aid s = (\<forall>a \<in> set (federation_attempts s). fa_id a = aid \<longrightarrow> fa_status a = FaCompleted \<or> fa_status a = FaFailed)"

text \<open>An update that keeps identifiers and the final states.\<close>

lemma attempt_update:
  assumes "federation_attempts s' = update_where p f (federation_attempts s)"
    and "\<And>a. fa_id (f a) = fa_id a"
    and "\<And>a. p a \<Longrightarrow> fa_status a = FaPending \<or> fa_status a = FaExchanging"
  shows "attempt_ids_unique s \<Longrightarrow> attempt_ids_unique s'" "attempt_over aid s \<Longrightarrow> attempt_over aid s'"
proof -
  show "attempt_ids_unique s \<Longrightarrow> attempt_ids_unique s'"
    using assms(1) map_update_where [of fa_id f p] assms(2) by (simp add: attempt_ids_unique_def)
  assume over: "attempt_over aid s"
  have "fa_status (if p a then f a else a) = FaCompleted \<or> fa_status (if p a then f a else a) = FaFailed"
    if "a \<in> set (federation_attempts s)" "fa_id (if p a then f a else a) = aid" for a
  proof -
    have "fa_status a = FaCompleted \<or> fa_status a = FaFailed"
      using over that assms(2) by (auto simp: attempt_over_def split: if_splits)
    then show ?thesis
      using assms(3) [of a] by auto
  qed
  then show "attempt_over aid s'"
    unfolding attempt_over_def assms(1) set_update_where by blast
qed

lemma attempt_same:
  assumes "federation_attempts s' = federation_attempts s"
  shows "attempt_ids_unique s \<Longrightarrow> attempt_ids_unique s'" "attempt_over aid s \<Longrightarrow> attempt_over aid s'"
  using assms by (simp_all add: attempt_ids_unique_def attempt_over_def)

text \<open>A transaction that begins by completing the attempt.\<close>

lemma completing_tx:
  assumes "tx_bind (attempt_complete_within_tx aid) rest s = Inr (v, t)" "\<And>x. keeps federation_attempts (rest x)"
  shows "federation_attempts t = update_where (\<lambda>a. fa_id a = aid \<and> fa_status a = FaExchanging)
      (\<lambda>a. a\<lparr> fa_status := FaCompleted \<rparr>) (federation_attempts s)"
    and "\<exists>a \<in> set (federation_attempts s). fa_id a = aid \<and> fa_status a = FaExchanging"
proof -
  let ?p = "\<lambda>a. fa_id a = aid \<and> fa_status a = FaExchanging"
  define s1 where "s1 = s\<lparr>federation_attempts := update_where ?p (\<lambda>a. a\<lparr> fa_status := FaCompleted \<rparr>) (federation_attempts s)\<rparr>"
  have "affected ?p (federation_attempts s) \<noteq> 0" and rest: "rest () s1 = Inr (v, t)"
    using assms(1) by (auto simp: s1_def results attempt_complete_within_tx_def Let_def)
  then show "\<exists>a \<in> set (federation_attempts s). ?p a"
    using affected_pos_iff [of ?p "federation_attempts s"] by simp
  show "federation_attempts t = update_where ?p (\<lambda>a. a\<lparr> fa_status := FaCompleted \<rparr>) (federation_attempts s)"
    using keepsD [OF assms(2) rest] by (simp add: s1_def)
qed

lemma keeps_issue [frame]:
  "(\<And>s x. part (s\<lparr>federation_mfa_pendings := x\<rparr>) = part s) \<Longrightarrow> keeps part (invalidate_within_tx fid)"
  "(\<And>s x. part (s\<lparr>federation_mfa_pendings := x\<rparr>) = part s) \<Longrightarrow> keeps part (pending_insert_within_tx row)"
  "(\<And>s x. part (s\<lparr>federation_mfa_pendings := x\<rparr>) = part s)
    \<Longrightarrow> keeps part (refresh_for_restart_within_tx fid pid version generation uid continuation nxt bb csrf)"
  "keeps part (find_active_by_user_id_within_tx uid)"
  by (auto simp: keeps_def invalidate_within_tx_def pending_insert_within_tx_def refresh_for_restart_within_tx_def
      find_active_by_user_id_within_tx_def Let_def split: if_splits)

lemma keeps_attempts_issue [frame]:
  "keeps federation_attempts (fresh_pending ae fid nonce pid version generation uid nxt bb csrf now)"
  "keeps federation_attempts (reuse_pending ae nonce pid version generation uid nxt bb csrf existing)"
  unfolding fresh_pending_def reuse_pending_def Let_def by (intro frame; simp)+

lemma acknowledged_Inr: "acknowledged r = (Inr u, s') \<Longrightarrow> \<exists>v. r = (Inr v, s')"
  by (cases r; cases "fst r") (auto simp: acknowledged_def)

lemma acknowledged_Inl: "acknowledged r = (Inl e, s') \<Longrightarrow> r = (Inl e, s')"
  by (cases r; cases "fst r") (auto simp: acknowledged_def)

lemma finish_attempt_Inr:
  assumes "finish_attempt cx ae aid how s = (Inr u, s')"
  shows "federation_attempts s' = update_where (\<lambda>a. fa_id a = aid \<and> fa_status a = FaExchanging)
      (\<lambda>a. a\<lparr> fa_status := FaCompleted \<rparr>) (federation_attempts s)
    \<and> (\<exists>a \<in> set (federation_attempts s). fa_id a = aid \<and> fa_status a = FaExchanging)"
proof (cases how)
  case (SignInNow at pid slug session)
  then obtain v where "sign_in_federated cx at aid pid slug session s = (Inr v, s')"
    using assms acknowledged_Inr by fastforce
  then obtain ev t where body: "sign_in_federated_body aid pid slug session s = Inr ((v, ev), t)"
    and s': "federation_attempts s' = federation_attempts t"
    unfolding sign_in_federated_def by (rule l04.class_a_success) auto
  note body' = body [unfolded sign_in_federated_body_def Let_def]
  show ?thesis
    unfolding s' by (intro conjI completing_tx [OF body']; (unfold session_ops)?; intro frame; simp)
next
  case (ProvisionNow at lower pid user link session)
  then obtain v where "provision_federated_user cx at lower aid pid user link session s = (Inr v, s')"
    using assms acknowledged_Inr by fastforce
  then obtain ev t where body: "provision_federated_user_body lower aid pid user link session s = Inr ((v, ev), t)"
    and s': "federation_attempts s' = federation_attempts t"
    unfolding provision_federated_user_def by (rule f04.class_a_success) auto
  note body' = body [unfolded provision_federated_user_body_def Let_def]
  show ?thesis
    unfolding s' by (intro conjI completing_tx [OF body']; (unfold user_ops session_ops)?; intro frame; simp)
next
  case (SecondFactorNow fid nonce pid version generation uid nxt bb csrf now)
  then obtain v where "issue_federated_mfa_pending ae fid nonce aid pid version generation uid nxt bb csrf now s = (Inr v, s')"
    using assms acknowledged_Inr by fastforce
  then have "issue_federated_mfa_pending_tx ae fid nonce aid pid version generation uid nxt bb csrf now s = Inr (v, s')"
    by (simp add: issue_federated_mfa_pending_def protocol_tx_def results)
  note body = this [unfolded issue_federated_mfa_pending_tx_def]
  show ?thesis
    by (intro conjI completing_tx [OF body]; intro frame; simp)
qed

lemma finish_attempt_Inl: "finish_attempt cx ae aid how s = (Inl e, s') \<Longrightarrow> s' = s"
  by (cases how) (auto dest!: acknowledged_Inl simp: sign_in_federated_def provision_federated_user_def
      issue_federated_mfa_pending_def class_a_def protocol_tx_def with_tx_def split: sum.splits prod.splits)

lemma finish_attempt_keeps:
  assumes "finish_attempt cx ae aid how s = (r, s')"
  shows "attempt_ids_unique s \<Longrightarrow> attempt_ids_unique s'" "attempt_over k s \<Longrightarrow> attempt_over k s'"
proof -
  have "(attempt_ids_unique s \<longrightarrow> attempt_ids_unique s') \<and> (attempt_over k s \<longrightarrow> attempt_over k s')"
  proof (cases r)
    case (Inl e)
    then show ?thesis
      using assms finish_attempt_Inl by blast
  next
    case (Inr u)
    then have eq: "federation_attempts s' = update_where (\<lambda>a. fa_id a = aid \<and> fa_status a = FaExchanging)
      (\<lambda>a. a\<lparr> fa_status := FaCompleted \<rparr>) (federation_attempts s)"
      using assms finish_attempt_Inr by blast
    show ?thesis
      using attempt_update [OF eq] by simp
  qed
  then show "attempt_ids_unique s \<Longrightarrow> attempt_ids_unique s'" "attempt_over k s \<Longrightarrow> attempt_over k s'"
    by blast+
qed

text \<open>No other step starts an identifier again or reopens a finished attempt.\<close>

lemma attempt_step_keeps:
  assumes "attempt_step cx ae aid s s'"
  shows "(attempt_ids_unique s \<longrightarrow> attempt_ids_unique s') \<and> (attempt_over aid s \<longrightarrow> attempt_over aid s')"
  using assms
proof cases
  case (begun aid' nonce pid version generation sh nh bh plain uri nxt now r)
  show ?thesis
  proof (cases r)
    case (Inl e)
    then show ?thesis
      using begun(2) by (auto simp: with_tx_def split: sum.splits prod.splits)
  next
    case (Inr row)
    then have ins: "attempt_insert ae aid' nonce pid version generation sh nh bh plain uri nxt now s = Inr (row, s')"
      using begun(2) by (simp add: results)
    show ?thesis
      using attempt_insert_Inr [OF ins] begun(1) by (auto simp: attempt_ids_unique_def attempt_over_def)
  qed
next
  case (claimed aid' now row r')
  have "federation_attempts s' = federation_attempts s \<or> federation_attempts s' =
      update_where (\<lambda>a. fa_id a = aid' \<and> fa_status a = FaPending) (claimed_row now) (federation_attempts s)"
    using claimed by (auto simp: claim_write_def Let_def split: if_splits sum.splits)
  then show ?thesis
  proof
    assume eq: "federation_attempts s' =
      update_where (\<lambda>a. fa_id a = aid' \<and> fa_status a = FaPending) (claimed_row now) (federation_attempts s)"
    show ?thesis
      using attempt_update [OF eq] by (simp add: claimed_row_def)
  qed (use attempt_same in blast)
next
  case (terminalized aid' reason at pid actor)
  then have "federation_attempts s' = federation_attempts (snd (with_tx (terminalize_failed aid' at) s))"
    by (auto simp: terminalize_and_audit_def emit_must_attempt_def split: sum.splits option.splits)
  then have "federation_attempts s' = federation_attempts s \<or> federation_attempts s' = update_where (unfinished aid')
      (\<lambda>a. a\<lparr> fa_status := FaFailed,
        fa_claimed_at := (case fa_claimed_at a of None \<Rightarrow> Some at | Some t \<Rightarrow> Some t) \<rparr>) (federation_attempts s)"
    by (auto simp: terminalize_failed_def with_tx_def found_or_def)
  then show ?thesis
  proof
    assume eq: "federation_attempts s' = update_where (unfinished aid')
      (\<lambda>a. a\<lparr> fa_status := FaFailed,
        fa_claimed_at := (case fa_claimed_at a of None \<Rightarrow> Some at | Some t \<Rightarrow> Some t) \<rparr>) (federation_attempts s)"
    show ?thesis
      using attempt_update [OF eq] by (simp add: unfinished_def)
  qed (use attempt_same in blast)
next
  case (purged now n)
  have "federation_attempts s' = delete_where (\<lambda>a. fa_expires_at a < now - hours 24) (federation_attempts s)"
    using purged by (auto simp: with_tx_def attempt_purge_expired_def Let_def)
  then show ?thesis
    by (auto simp: attempt_ids_unique_def attempt_over_def delete_where_def distinct_map inj_on_def)
next
  case (finished aid' how r'')
  then show ?thesis
    using finish_attempt_keeps by blast
next
  case elsewhere
  then show ?thesis
    using attempt_same by blast
qed

lemma over_refuses_finish: "attempt_over aid s \<Longrightarrow> \<exists>e. finish_attempt cx ae aid how s = (Inl e, s)"
proof -
  assume over: "attempt_over aid s"
  obtain r s' where run: "finish_attempt cx ae aid how s = (r, s')"
    by fastforce
  show ?thesis
  proof (cases r)
    case (Inl e)
    then show ?thesis
      using run finish_attempt_Inl by blast
  next
    case (Inr u)
    then show ?thesis
      using run finish_attempt_Inr over by (fastforce simp: attempt_over_def)
  qed
qed

lemma finish_attempt_over:
  assumes "attempt_ids_unique s" "finish_attempt cx ae aid how s = (Inr u, s')"
  shows "attempt_over aid s'"
proof -
  let ?p = "\<lambda>a. fa_id a = aid \<and> fa_status a = FaExchanging"
  have eq: "federation_attempts s' = update_where ?p (\<lambda>a. a\<lparr> fa_status := FaCompleted \<rparr>) (federation_attempts s)"
    and "\<exists>a \<in> set (federation_attempts s). ?p a"
    using finish_attempt_Inr [OF assms(2)] by auto
  then obtain a where a: "a \<in> set (federation_attempts s)" "?p a"
    by blast
  have "b = a" if "b \<in> set (federation_attempts s)" "fa_id b = aid" for b
    using that a assms(1) by (auto simp: attempt_ids_unique_def distinct_map inj_on_def)
  then show ?thesis
    using a unfolding attempt_over_def eq set_update_where by (auto split: if_splits)
qed

interpretation fed_attempt: one_shot attempt_ids_unique "attempt_step cx ae" "finish_attempt cx ae" attempt_over for cx ae
proof unfold_locales
  fix s k c r s' assume "attempt_ids_unique s" "finish_attempt cx ae k c s = (r, s')"
  then show "attempt_ids_unique s'"
    using finish_attempt_keeps by blast
next
  fix s k s' assume "attempt_ids_unique s" "attempt_step cx ae k s s'"
  then show "attempt_ids_unique s'"
    using attempt_step_keeps by blast
next
  fix s k c a s' assume "attempt_ids_unique s" "finish_attempt cx ae k c s = (Inr a, s')"
  then show "attempt_over k s'"
    by (rule finish_attempt_over)
next
  fix s k c assume "attempt_over k s"
  then show "\<exists>e s'. finish_attempt cx ae k c s = (Inl e, s') \<and> attempt_over k s'"
    using over_refuses_finish by blast
next
  fix s k s' assume "attempt_over k s" "attempt_step cx ae k s s'"
  then show "attempt_over k s'"
    using attempt_step_keeps by blast
qed

section \<open>Guesses at a second factor\<close>

text \<open>Histories of the continuations, with the outcomes of F03 in their order.  \<open>k\<close> is a continuation that has
  been issued: no later F02 draws its identifier again.\<close>

inductive mfa_traffic :: "digest_env \<Rightarrow> aead_env \<Rightarrow> uuid \<Rightarrow> store \<Rightarrow> (uuid \<times> f03_outcome) list \<Rightarrow> store \<Rightarrow> bool"
  for cx ae k s where
  idle: "mfa_traffic cx ae k s [] s"
| restarted: "mfa_traffic cx ae k s outs t \<Longrightarrow> fid \<noteq> k
    \<Longrightarrow> issue_federated_mfa_pending ae fid nonce aid pid version generation uid nxt bb csrf now t = (r, t')
    \<Longrightarrow> mfa_traffic cx ae k s outs t'"
| submitted: "mfa_traffic cx ae k s outs t \<Longrightarrow> complete_federated_mfa cx ae sid fid prf now t = (Inr out, t')
    \<Longrightarrow> mfa_traffic cx ae k s (outs @ [(fid, out)]) t'"
| refused: "mfa_traffic cx ae k s outs t \<Longrightarrow> complete_federated_mfa cx ae sid fid prf now t = (Inl e, t')
    \<Longrightarrow> mfa_traffic cx ae k s outs t'"
| ceremony: "mfa_traffic cx ae k s outs t \<Longrightarrow> begin_federation_webauthn_ceremony cid fid sealed rp_id origin now t = (rc, t')
    \<Longrightarrow> mfa_traffic cx ae k s outs t'"
| purge: "mfa_traffic cx ae k s outs t \<Longrightarrow> with_tx (pending_purge_expired now) t = (rn, t') \<Longrightarrow> mfa_traffic cx ae k s outs t'"
| unlinked: "mfa_traffic cx ae k s outs t \<Longrightarrow> with_tx (link_delete uid pid) t = (ru, t') \<Longrightarrow> mfa_traffic cx ae k s outs t'"
| provider_removed: "mfa_traffic cx ae k s outs t \<Longrightarrow> with_tx (provider_delete pid) t = (ru, t') \<Longrightarrow> mfa_traffic cx ae k s outs t'"
| untouched: "mfa_traffic cx ae k s outs t \<Longrightarrow> federation_mfa_pendings t' = federation_mfa_pendings t
    \<Longrightarrow> mfa_traffic cx ae k s outs t'"

text \<open>What every step keeps of continuation \<open>k\<close>: it stays the same user's, a decided one stays as it is, and the
  failures of a pending one are not forgotten.\<close>

definition traces :: "uuid \<Rightarrow> federation_mfa_pending_row list \<Rightarrow> federation_mfa_pending_row list \<Rightarrow> bool" where
  "traces k rows rows' =
    (\<forall>r' \<in> set rows'. fm_id r' = k \<longrightarrow> (\<exists>r \<in> set rows. fm_id r = k \<and> fm_user_id r' = fm_user_id r
      \<and> (fm_status r \<noteq> FmPending \<longrightarrow> r' = r)
      \<and> (fm_status r' = FmPending \<longrightarrow> fm_failure_count r \<le> fm_failure_count r')))"

lemma tracesD:
  assumes "traces k rows rows'" "r' \<in> set rows'" "fm_id r' = k"
  obtains r where "r \<in> set rows" "fm_id r = k" "fm_user_id r' = fm_user_id r"
    "fm_status r \<noteq> FmPending \<Longrightarrow> r' = r" "fm_status r' = FmPending \<Longrightarrow> fm_failure_count r \<le> fm_failure_count r'"
  using assms unfolding traces_def by blast

lemma traces_update:
  assumes "\<And>r. r \<in> set rows \<Longrightarrow> p r \<Longrightarrow> advances r (f r)"
  shows "traces k rows (update_where p f rows)"
proof -
  have "\<exists>r \<in> set rows. fm_id r = k \<and> fm_user_id r' = fm_user_id r \<and> (fm_status r \<noteq> FmPending \<longrightarrow> r' = r)
      \<and> (fm_status r' = FmPending \<longrightarrow> fm_failure_count r \<le> fm_failure_count r')"
    if mem: "r' \<in> set (update_where p f rows)" and fk: "fm_id r' = k" for r'
  proof -
    obtain r where r: "r \<in> set rows" "r' = (if p r then f r else r)"
      using mem by (auto simp: set_update_where)
    have "p r \<Longrightarrow> advances r (f r)"
      using assms r(1) .
    then show ?thesis
      using r fk by (intro bexI [OF _ r(1)]) (auto simp: advances_def)
  qed
  then show ?thesis
    unfolding traces_def by blast
qed

lemma traces_append: "traces k rows rows' \<Longrightarrow> fm_id new \<noteq> k \<Longrightarrow> traces k rows (rows' @ [new])"
  unfolding traces_def by auto

lemma traces_delete: "traces k rows (delete_where p rows)"
  unfolding traces_def by (auto simp: delete_where_def)

lemma refreshed_advances:
  assumes "fm_status r = FmPending" "fm_failure_count r < 5"
    and "fm_id r' = fm_id r \<and> fm_user_id r' = fm_user_id r \<and> fm_expires_at r' = fm_expires_at r
      \<and> fm_status r' = fm_status r \<and> fm_failure_count r' = fm_failure_count r"
  shows "advances r r'"
  using assms by (simp add: advances_def)

lemma issue_step_keeps:
  assumes "issue_step fid uid rows rows'" "continuations_ok rows"
  shows "continuations_ok rows' \<and> (fid \<noteq> k \<longrightarrow> traces k rows rows')"
proof -
  obtain p f where pend: "\<And>r. p r \<Longrightarrow> fm_status r = FmPending" and cases:
    "(\<forall>r. fm_id (f r) = fm_id r \<and> fm_user_id (f r) = fm_user_id r \<and> fm_expires_at (f r) = fm_expires_at r
        \<and> fm_status (f r) = fm_status r \<and> fm_failure_count (f r) = fm_failure_count r) \<and> rows' = update_where p f rows
     \<or> (\<exists>new. rows' = update_where p invalid_row rows @ [new] \<and> fm_id new = fid \<and> fm_user_id new = uid
        \<and> fm_failure_count new = 0 \<and> fid \<notin> fm_id ` set rows
        \<and> (\<forall>r \<in> set (update_where p invalid_row rows). fm_user_id r = uid \<longrightarrow> \<not> live r))"
    using assms(1) unfolding issue_step_def by blast
  have inv: "p r \<Longrightarrow> advances r (invalid_row r)" for r
    using pend invalid_row_advances by blast
  from cases show ?thesis
  proof (elim disjE exE conjE)
    assume same: "\<forall>r. fm_id (f r) = fm_id r \<and> fm_user_id (f r) = fm_user_id r \<and> fm_expires_at (f r) = fm_expires_at r
        \<and> fm_status (f r) = fm_status r \<and> fm_failure_count (f r) = fm_failure_count r"
      and rows': "rows' = update_where p f rows"
    have "advances r (f r)" if "r \<in> set rows" "p r" for r
      using refreshed_advances [of r "f r"] pend [OF that(2)] continuations_okD(3) [OF assms(2) that(1)] same by blast
    then show ?thesis
      unfolding rows' using continuations_ok_update [OF assms(2)] traces_update by blast
  next
    fix new assume new: "rows' = update_where p invalid_row rows @ [new]" "fm_id new = fid" "fm_user_id new = uid"
      "fm_failure_count new = 0" "fid \<notin> fm_id ` set rows"
      "\<forall>r \<in> set (update_where p invalid_row rows). fm_user_id r = uid \<longrightarrow> \<not> live r"
    have "fm_id ` set (update_where p invalid_row rows) = fm_id ` set rows"
      by (rule image_update_where) (simp add: invalid_row_def)
    then have "continuations_ok rows'"
      unfolding new(1) using new(2-6) by (intro continuations_ok_append continuations_ok_update [OF assms(2)] inv) auto
    moreover have "fid \<noteq> k \<Longrightarrow> traces k rows rows'"
      unfolding new(1) using new(2) by (intro traces_append traces_update inv) auto
    ultimately show ?thesis
      by blast
  qed
qed

lemma drop_continuations_rows: "federation_mfa_pendings (drop_continuations p s) = delete_where p (federation_mfa_pendings s)"
  by (simp add: drop_continuations_def Let_def)

lemma deleting_steps:
  assumes "with_tx (pending_purge_expired now) t = (rn, t') \<or> with_tx (link_delete uid pid) t = (ru, t')
    \<or> with_tx (provider_delete pid) t = (ru, t')"
  shows "\<exists>p. federation_mfa_pendings t' = delete_where p (federation_mfa_pendings t)"
proof -
  have "delete_where (\<lambda>_. False) rows = rows" for rows :: "federation_mfa_pending_row list"
    by (simp add: delete_where_def)
  then show ?thesis
    using assms by (auto simp: with_tx_def pending_purge_expired_def link_delete_def provider_delete_def found_or_def Let_def
        drop_continuations_rows split: if_splits) metis+
qed

lemma begin_ceremony_keeps: "keeps federation_mfa_pendings (begin_federation_webauthn_ceremony_tx cid fid sealed rp_id origin now)"
  unfolding begin_federation_webauthn_ceremony_tx_def pending_get_within_tx_def by (intro frame; simp)

lemma keeping_tx: "keeps part m \<Longrightarrow> with_tx m s = (r, s') \<Longrightarrow> part s' = part s"
  by (auto simp: with_tx_def keeps_def split: sum.splits prod.splits)

text \<open>Every step keeps the invariant and traces the continuation.\<close>

lemma restarted_keeps:
  assumes "issue_federated_mfa_pending ae fid nonce aid pid version generation uid nxt bb csrf now t = (r, t')"
    and "continuations_ok (federation_mfa_pendings t)"
  shows "continuations_ok (federation_mfa_pendings t')"
    and "fid \<noteq> k \<Longrightarrow> traces k (federation_mfa_pendings t) (federation_mfa_pendings t')"
proof -
  have "continuations_ok (federation_mfa_pendings t') \<and> (fid \<noteq> k \<longrightarrow> traces k (federation_mfa_pendings t) (federation_mfa_pendings t'))"
  proof (cases r)
    case (Inl e)
    then have "t' = t"
      using assms(1) by (auto simp: issue_federated_mfa_pending_def protocol_tx_def with_tx_def split: sum.splits prod.splits)
    then show ?thesis
      using assms(2) by (auto simp: traces_def)
  next
    case (Inr v)
    then show ?thesis
      using issue_step_keeps [OF issue_rows] assms by blast
  qed
  then show "continuations_ok (federation_mfa_pendings t')"
    and "fid \<noteq> k \<Longrightarrow> traces k (federation_mfa_pendings t) (federation_mfa_pendings t')"
    by blast+
qed

lemma outcome_step_keeps:
  assumes "outcome_step fid out rows rows'" "continuations_ok rows"
  shows "continuations_ok rows'" "traces k rows rows'"
    "fid \<noteq> k \<Longrightarrow> r' \<in> set rows' \<Longrightarrow> fm_id r' = k \<Longrightarrow> r' \<in> set rows"
proof -
  obtain p f where upd: "rows' = update_where p f rows" "\<And>r. p r \<Longrightarrow> fm_id r = fid" "\<And>r. p r \<Longrightarrow> advances r (f r)"
    using outcome_step_update [OF assms(1)] by blast
  show "continuations_ok rows'" "traces k rows rows'"
    unfolding upd(1) using upd(3) by (intro continuations_ok_update [OF assms(2)] traces_update; blast)+
  assume "fid \<noteq> k" "r' \<in> set rows'" "fm_id r' = k"
  then obtain r where r: "r \<in> set rows" "r' = (if p r then f r else r)"
    unfolding upd(1) by (auto simp: set_update_where)
  then show "r' \<in> set rows"
    using upd(2,3) [of r] \<open>fid \<noteq> k\<close> \<open>fm_id r' = k\<close> by (auto simp: advances_def split: if_splits)
qed

text \<open>Induction over a history, at the level of the rows.\<close>

lemma mfa_traffic_rows [consumes 2, case_names start quiet outcome]:
  assumes "mfa_traffic cx ae k s outs s'" "continuations_ok (federation_mfa_pendings s)"
    and start: "P [] (federation_mfa_pendings s)"
    and quiet: "\<And>outs rows rows'. P outs rows \<Longrightarrow> continuations_ok rows \<Longrightarrow> traces k rows rows' \<Longrightarrow> P outs rows'"
    and outcome: "\<And>outs rows rows' fid out. P outs rows \<Longrightarrow> continuations_ok rows \<Longrightarrow> outcome_step fid out rows rows'
      \<Longrightarrow> P (outs @ [(fid, out)]) rows'"
  shows "continuations_ok (federation_mfa_pendings s') \<and> P outs (federation_mfa_pendings s')"
  using assms(1)
proof (induction rule: mfa_traffic.induct)
  case idle
  then show ?case using assms(2) start by blast
next
  case (restarted outs t fid nonce aid pid version generation uid nxt bb csrf now r t')
  then show ?case using restarted_keeps [OF restarted(3)] quiet by blast
next
  case (submitted outs t sid fid "prf" now out t')
  then have "outcome_step fid out (federation_mfa_pendings t) (federation_mfa_pendings t')"
    using complete_federated_mfa_step continuations_okD(1) by blast
  then show ?case using submitted(3) outcome_step_keeps(1) outcome by blast
next
  case (refused outs t sid fid "prf" now e t')
  then show ?case using complete_federated_mfa_Inl by blast
next
  case (ceremony outs t cid fid sealed rp_id origin now rc t')
  then have "federation_mfa_pendings t' = federation_mfa_pendings t"
    using keeping_tx [OF begin_ceremony_keeps] by (simp add: begin_federation_webauthn_ceremony_def protocol_tx_def)
  then show ?case using ceremony(3) by simp
next
  case (purge outs t now rn t')
  obtain p where "federation_mfa_pendings t' = delete_where p (federation_mfa_pendings t)"
    using deleting_steps [OF disjI1, OF purge(2)] by blast
  then show ?case using purge(3) continuations_ok_delete traces_delete quiet by metis
next
  case (unlinked outs t uid pid ru t')
  obtain p where "federation_mfa_pendings t' = delete_where p (federation_mfa_pendings t)"
    using deleting_steps [OF disjI2, OF disjI1, OF unlinked(2)] by blast
  then show ?case using unlinked(3) continuations_ok_delete traces_delete quiet by metis
next
  case (provider_removed outs t pid ru t')
  obtain p where "federation_mfa_pendings t' = delete_where p (federation_mfa_pendings t)"
    using deleting_steps [OF disjI2, OF disjI2, OF provider_removed(2)] by blast
  then show ?case using provider_removed(3) continuations_ok_delete traces_delete quiet by metis
next
  case (untouched outs t t')
  then show ?case by simp
qed

fun is_rejection :: "f03_outcome \<Rightarrow> bool" where
  "is_rejection (RejectedStillPending n reason) = True"
| "is_rejection (Promoted session evicted meth) = False"
| "is_rejection (AttemptsExhausted reason) = False"
| "is_rejection (Invalidated reason) = False"

lemma is_rejection_iff: "is_rejection out \<longleftrightarrow> (\<exists>n reason. out = RejectedStillPending n reason)"
  by (cases out) simp_all

definition outcomes_of :: "uuid \<Rightarrow> (uuid \<times> f03_outcome) list \<Rightarrow> f03_outcome list" where
  "outcomes_of k outs = map snd (filter (\<lambda>p. fst p = k) outs)"

lemma outcomes_of_append: "outcomes_of k (outs @ [(fid, out)]) = outcomes_of k outs @ (if fid = k then [out] else [])"
  by (simp add: outcomes_of_def)

text \<open>The outcomes of one continuation: rejections while it is pending, and nothing after a decision.\<close>

definition budget :: "uuid \<Rightarrow> (uuid \<times> f03_outcome) list \<Rightarrow> federation_mfa_pending_row list \<Rightarrow> bool" where
  "budget k outs rows =
    (list_all is_rejection (butlast (outcomes_of k outs)) \<and> length (filter is_rejection (outcomes_of k outs)) \<le> 4
     \<and> (\<forall>r \<in> set rows. fm_id r = k \<and> fm_status r = FmPending \<longrightarrow>
          list_all is_rejection (outcomes_of k outs) \<and> int (length (outcomes_of k outs)) \<le> fm_failure_count r))"

lemma budgetD:
  assumes "budget k outs rows" "r \<in> set rows" "fm_id r = k" "fm_status r = FmPending"
  shows "list_all is_rejection (outcomes_of k outs)" "int (length (outcomes_of k outs)) \<le> fm_failure_count r"
  using assms unfolding budget_def by blast+

lemma outcome_pending:
  assumes "outcome_step fid out rows rows'"
  obtains r where "r \<in> set rows" "fm_id r = fid" "fm_status r = FmPending"
proof (cases out)
  case (Invalidated reason)
  then show thesis
    using assms that affected_pos_iff [of "awaits fid" rows] by (auto simp: awaits_def)
qed (use assms that find_Some_in in \<open>fastforce simp: guessable_def\<close>)+

lemma outcome_rejected:
  assumes "outcome_step k out rows rows'" "continuations_ok rows" "r' \<in> set rows'" "fm_id r' = k" "fm_status r' = FmPending"
  shows "is_rejection out \<and> (\<exists>r \<in> set rows. fm_id r = k \<and> fm_status r = FmPending \<and> fm_failure_count r' = fm_failure_count r + 1)"
proof -
  have pend: "guessable k r" if "r \<in> set rows" "fm_id r = k" "fm_status r = FmPending" for r
    using that continuations_okD(3) [OF assms(2)] by (simp add: guessable_def)
  have same: "a = b" if "a \<in> set rows" "b \<in> set rows" "fm_id a = fm_id b" for a b
    using that continuations_okD(1) [OF assms(2)] by (auto simp: distinct_map inj_on_def)
  show ?thesis
  proof (cases out)
    case (Promoted session evicted m)
    then have rows': "rows' = update_where (guessable k) completed_row rows"
      using assms(1) by auto
    obtain r where "r \<in> set rows" "r' = (if guessable k r then completed_row r else r)"
      using assms(3) unfolding rows' set_update_where by blast
    then show ?thesis
      using assms(4,5) pend [of r] by (cases "guessable k r") (simp_all add: completed_row_def)
  next
    case (RejectedStillPending n reason)
    then have rows': "rows' = update_where (guessable k) failed_row rows"
      using assms(1) by auto
    obtain r where "r \<in> set rows" "r' = (if guessable k r then failed_row r else r)"
      using assms(3) unfolding rows' set_update_where by blast
    then show ?thesis
      using assms(4,5) pend [of r] RejectedStillPending
      by (cases "guessable k r") (auto simp: failed_row_def guessable_def)
  next
    case (AttemptsExhausted reason)
    then obtain r where r: "List.find (guessable k) rows = Some r" "fm_failure_count r + 1 = 5"
      and rows': "rows' = update_where (guessable k) failed_row rows"
      using assms(1) by auto
    obtain r0 where r0: "r0 \<in> set rows" "r' = (if guessable k r0 then failed_row r0 else r0)"
      using assms(3) unfolding rows' set_update_where by blast
    have mem: "r \<in> set rows" "guessable k r"
      using find_Some_in [OF r(1)] by auto
    have "fm_id r0 = k"
      using r0(2) assms(4) by (cases "guessable k r0") (simp_all add: failed_row_def)
    then have "r0 = r"
      using same [OF r0(1) mem(1)] mem(2) by (simp add: guessable_def)
    then show ?thesis
      using r0(2) r(2) mem(2) assms(5) by (simp add: failed_row_def)
  next
    case (Invalidated reason)
    then have rows': "rows' = update_where (awaits k) invalid_row rows"
      using assms(1) by auto
    obtain r where "r \<in> set rows" "r' = (if awaits k r then invalid_row r else r)"
      using assms(3) unfolding rows' set_update_where by blast
    then show ?thesis
      using assms(4,5) by (auto simp: invalid_row_def awaits_def split: if_splits)
  qed
qed

lemma filter_all: "list_all P xs \<Longrightarrow> filter P xs = xs"
  by (simp add: list_all_iff)

lemma budget_outcome:
  assumes "budget k outs rows" "continuations_ok rows" "outcome_step fid out rows rows'"
  shows "budget k (outs @ [(fid, out)]) rows'"
proof (cases "fid = k")
  case False
  have "r' \<in> set rows" if "r' \<in> set rows'" "fm_id r' = k" for r'
    using outcome_step_keeps(3) [OF assms(3,2) False that] .
  then show ?thesis
    using assms(1) False unfolding budget_def outcomes_of_append by (simp; blast)
next
  case True
  obtain r where r: "r \<in> set rows" "fm_id r = k" "fm_status r = FmPending"
    using outcome_pending [OF assms(3)] True by blast
  note all = budgetD(1) [OF assms(1) r]
  have "length (outcomes_of k outs) \<le> 4"
    using budgetD(2) [OF assms(1) r] continuations_okD(3) [OF assms(2) r(1,3)] by simp
  moreover have "length (outcomes_of k outs) \<le> 3" if rej: "is_rejection out"
  proof -
    obtain q where q: "List.find (guessable k) rows = Some q" "fm_failure_count q + 1 < 5"
      using assms(3) True rej by (auto simp: is_rejection_iff)
    then show ?thesis
      using budgetD(2) [OF assms(1), of q] find_Some_in [OF q(1)] by (auto simp: guessable_def)
  qed
  moreover have row: "list_all is_rejection (outcomes_of k outs @ [out]) \<and> int (length (outcomes_of k outs @ [out])) \<le> fm_failure_count r'"
    if "r' \<in> set rows'" "fm_id r' = k" "fm_status r' = FmPending" for r'
    using outcome_rejected [OF assms(3) [unfolded True] assms(2) that] all budgetD(2) [OF assms(1)] by auto
  ultimately show ?thesis
    using all filter_all [OF all] True unfolding budget_def outcomes_of_append by (cases "is_rejection out") (auto dest: row)
qed

lemma budget_quiet:
  assumes "budget k outs rows" "traces k rows rows'"
  shows "budget k outs rows'"
proof -
  have "list_all is_rejection (outcomes_of k outs) \<and> int (length (outcomes_of k outs)) \<le> fm_failure_count r'"
    if r': "r' \<in> set rows'" "fm_id r' = k" "fm_status r' = FmPending" for r'
  proof -
    obtain r where r: "r \<in> set rows" "fm_id r = k" "fm_status r \<noteq> FmPending \<Longrightarrow> r' = r"
      "fm_failure_count r \<le> fm_failure_count r'"
      using tracesD [OF assms(2) r'(1,2)] r'(3) by metis
    have "fm_status r = FmPending"
      using r(3) r'(3) by metis
    then show ?thesis
      using budgetD [OF assms(1) r(1,2)] r(4) by simp
  qed
  then show ?thesis
    using assms(1) unfolding budget_def by blast
qed

lemma locked_out:
  assumes "continuations_ok rows" "e \<in> set rows" "fm_status e = FmExhausted"
    and "outcome_step fid (Promoted session evicted meth) rows rows'"
  shows "s_user_id session \<noteq> fm_user_id e"
proof
  assume same: "s_user_id session = fm_user_id e"
  obtain r where r: "r \<in> set rows" "fm_status r = FmPending" "fm_user_id r = fm_user_id e"
    using assms(4) same find_Some_in by (fastforce simp: guessable_def)
  then have "fm_id r = fm_id e"
    using continuations_okD(2) [OF assms(1) r(1) assms(2)] assms(3) by (simp add: live_def)
  then have "r = e"
    using continuations_okD(1) [OF assms(1)] r(1) assms(2) by (auto simp: distinct_map inj_on_def)
  then show False
    using r(2) assms(3) by simp
qed

lemma keeps_audit_f03 [frame]:
  "keeps audit (increment_failure_within_tx fid)"
  "keeps audit (pending_complete_within_tx fid)"
  "keeps audit (pending_get_within_tx fid)"
  by (auto simp: keeps_def increment_failure_within_tx_def pending_complete_within_tx_def pending_get_within_tx_def Let_def
      split: option.splits)

lemma keeps_failure_increment [frame]:
  "keeps part m \<Longrightarrow> (\<And>n. keeps part (f n)) \<Longrightarrow> keeps part (case i of StillPending n \<Rightarrow> f n | Exhausted \<Rightarrow> m)"
  by (cases i) auto

lemma keeps_audit_parts [frame]:
  "keeps audit (reject_or_exhaust fid reason)"
  "keeps audit (invalidate_for fid why)"
  "keeps audit (promote sid row now meth)"
  unfolding reject_or_exhaust_def invalidate_for_def promote_def Let_def session_ops by (intro frame; simp)+

lemma keeps_factor_writes [frame]:
  "keeps audit (advance_last_used_step_within_tx uid step)"
  "keeps audit (swap_recovery_codes_within_tx uid a b)"
  unfolding advance_last_used_step_within_tx_def swap_recovery_codes_within_tx_def by (intro frame; simp)+

lemma keeps_audit_proofs [frame]:
  "keeps audit (f03_totp sid fid row now totp step)"
  "keeps audit (f03_recovery sid fid row now totp a b)"
  "keeps audit (f03_webauthn sid fid row now cid wid a b)"
  "keeps audit (f03_rejected fid totp reason)"
  unfolding f03_totp_def f03_recovery_def f03_webauthn_def f03_rejected_def by (intro frame; simp)+

lemma keeps_audit_prove [frame]: "keeps audit (f03_prove sid fid row now totp prf)"
proof (cases "prf")
  case (Some p)
  then show ?thesis
    by (cases p) (simp_all add: frame)
qed (simp add: frame)

lemma complete_keeps_audit: "keeps audit (complete_federated_mfa_tx ae sid fid prf now)"
  unfolding complete_federated_mfa_tx_def by (intro frame; simp)

lemma exhausted_emission: "f03_emission cx (AttemptsExhausted reason) now s = s"
  by (auto simp: emit_must_attempt_def missing_required_def build_attributes_eq split: sum.splits option.splits if_splits)

section \<open>Concrete histories\<close>

definition demo_continuation :: "int \<Rightarrow> federation_mfa_pending_row" where
  "demo_continuation n =
    \<lparr> fm_id = ''k'', fm_provider_id = ''p'', fm_provider_config_version = 0, fm_provider_activation_generation = 0,
      fm_user_id = ''u'',
      fm_continuation_sealed = (if n < 5 then Some (replicate 40 CHR ''n'') else None),
      fm_next_path = None, fm_browser_binding_sha256 = ''b'', fm_csrf_binding_sha256 = ''c'', fm_failure_count = n,
      fm_status = (if n < 5 then FmPending else FmExhausted), fm_created_at = 0, fm_expires_at = 300 \<rparr>"

definition demo_federated :: "int \<Rightarrow> store" where
  "demo_federated n = empty_store\<lparr>
    users := [demo_user ''u'' User],
    federation_providers := [\<lparr> fp_id = ''p'', fp_slug = ''idp'', fp_display_name = ''IdP'', fp_issuer = ''https://idp'',
      fp_client_id = ''c'', fp_client_secret_enc = None, fp_scopes = ''openid'', fp_provision_mode = LinkOnly,
      fp_enabled = True, fp_allowed_origins = [], fp_created_at = 0, fp_updated_at = 0 \<rparr>],
    federation_links := [\<lparr> fl_user_id = ''u'', fl_provider_id = ''p'', fl_upstream_sub = ''s'', fl_upstream_email = None,
      fl_linked_at = 0, fl_last_seen_at = 0 \<rparr>],
    federation_attempts := [\<lparr> fa_id = ''a'', fa_provider_id = ''p'', fa_provider_config_version = 0,
      fa_provider_activation_generation = 0, fa_state_sha256 = ''s'', fa_nonce_sha256 = ''n'', fa_browser_binding_sha256 = ''b'',
      fa_pkce_verifier_sealed = [], fa_exact_redirect_uri = ''https://rp/cb'', fa_next_path = None, fa_created_at = 0,
      fa_expires_at = 600, fa_status = FaExchanging, fa_claimed_at = Some 1 \<rparr>],
    federation_mfa_pendings := [demo_continuation n]\<rparr>"

lemmas demo_federated_simps = demo_federated_def demo_continuation_def demo_user_def empty_store_def demo_aead_def

lemma demo_drift: "authority_drift_within_tx ''p'' ''u'' (demo_federated n) = Inr (None, demo_federated n)"
  by (simp add: authority_drift_within_tx_def provider_is_enabled_within_tx_def provider_get_def link_exists_within_tx_def
      link_of_def is_active_within_tx_def read_user_def user_active_def get_user_def by_user_id_def ok_or_def demo_federated_simps tx_bind_def tx_get_def)

lemma demo_check: "n < 5 \<Longrightarrow> check_continuation demo_aead (demo_continuation n) s = Inr ((), s)"
  by (simp add: check_continuation_def demo_continuation_def open_sealed_def demo_aead_def NONCE_LEN_def)

lemma demo_reject:
  assumes "n < 5"
  shows "complete_federated_mfa_tx demo_aead sid ''k'' (Some (PrRejected RjMethodMismatch)) 1 (demo_federated n)
    = Inr (if n + 1 < 5 then RejectedStillPending (n + 1) RjMethodMismatch else AttemptsExhausted RjMethodMismatch,
        demo_federated (n + 1))"
proof -
  have get: "pending_get_within_tx ''k'' (demo_federated n) = Inr (Some (demo_continuation n), demo_federated n)"
    by (simp add: pending_get_within_tx_def pending_find_by_id_def demo_federated_simps tx_get_def)
  have upd: "(demo_federated n)\<lparr>federation_mfa_pendings := [demo_continuation (n + 1)]\<rparr> = demo_federated (n + 1)"
    by (simp add: demo_federated_def)
  have row: "fm_status (demo_continuation n) = FmPending" "fm_expires_at (demo_continuation n) = 300"
    "fm_provider_id (demo_continuation n) = ''p''" "fm_user_id (demo_continuation n) = ''u''"
    "fm_failure_count (demo_continuation n) = n" "guessable ''k'' (demo_continuation n)"
    "failed_row (demo_continuation n) = demo_continuation (n + 1)"
    using assms by (auto simp: demo_continuation_def guessable_def failed_row_def)
  have rows: "federation_mfa_pendings (demo_federated n) = [demo_continuation n]"
    "federation_ceremonies (demo_federated m) = []" for m
    by (simp_all add: demo_federated_def empty_store_def)
  have inc: "increment_failure_within_tx ''k'' (demo_federated n) =
      Inr (Some (if n + 1 \<ge> 5 then Exhausted else StillPending (n + 1)), demo_federated (n + 1))"
    using row rows upd by (simp add: increment_failure_within_tx_def update_where_def Let_def)
  have del: "ceremony_delete_by_pending_id_within_tx ''k'' (demo_federated m) = Inr (False, demo_federated m)" for m
    using rows by (simp add: ceremony_delete_by_pending_id_within_tx_def affected_def delete_where_def)
  show ?thesis
    using assms by (simp add: complete_federated_mfa_tx_def tx_bind_def get demo_check row demo_drift f03_rejected_def
        reject_or_exhaust_def inc del tx_guard_def tx_get_def)
qed

lemma demo_complete:
  assumes "n < 5"
  shows "complete_federated_mfa cx demo_aead sid ''k'' (Some (PrRejected RjMethodMismatch)) 1 (demo_federated n)
    = (Inr (if n + 1 < 5 then RejectedStillPending (n + 1) RjMethodMismatch else AttemptsExhausted RjMethodMismatch),
       f03_emission cx (if n + 1 < 5 then RejectedStillPending (n + 1) RjMethodMismatch else AttemptsExhausted RjMethodMismatch)
         1 (demo_federated (n + 1)))"
  using demo_reject [OF assms] by (simp add: complete_federated_mfa_def protocol_tx_def with_tx_def)

lemma demo_continuations_ok: "0 \<le> n \<Longrightarrow> continuations_ok (federation_mfa_pendings (demo_federated n))"
  by (simp add: continuations_ok_def demo_federated_def demo_continuation_def)

lemma demo_traffic:
  "mfa_traffic cx demo_aead ''k'' (demo_federated 3)
    [(''k'', RejectedStillPending 4 RjMethodMismatch), (''k'', AttemptsExhausted RjMethodMismatch)] (demo_federated 5)"
proof -
  have one: "mfa_traffic cx demo_aead ''k'' (demo_federated 3) ([] @ [(''k'', RejectedStillPending 4 RjMethodMismatch)])
      (f03_emission cx (RejectedStillPending 4 RjMethodMismatch) 1 (demo_federated 4))"
    using demo_complete [of 3 cx] by (intro submitted [OF idle]) simp
  have two: "mfa_traffic cx demo_aead ''k'' (demo_federated 3) ([] @ [(''k'', RejectedStillPending 4 RjMethodMismatch)]) (demo_federated 4)"
    by (rule untouched [OF one]) (simp only: f03_emission_continuations)
  have "complete_federated_mfa cx demo_aead ''s'' ''k'' (Some (PrRejected RjMethodMismatch)) 1 (demo_federated 4)
      = (Inr (AttemptsExhausted RjMethodMismatch), demo_federated 5)"
    using demo_complete [of 4 cx "''s''"] by (simp add: exhausted_emission del: f03_emission.simps)
  then show ?thesis
    using submitted [OF two] by fastforce
qed

lemma demo_issue_pending:
  "\<exists>s'. finish_attempt cx demo_aead ''a'' (SecondFactorNow ''f'' (replicate 24 CHR ''n'') ''p'' 0 0 ''u'' None ''b'' ''c'' 1) (demo_federated 0)
    = (Inr (), s')"
  by (simp add: acknowledged_def issue_federated_mfa_pending_def protocol_tx_def with_tx_def issue_federated_mfa_pending_tx_def
      tx_bind_def attempt_complete_within_tx_def found_or_def affected_def update_where_def find_active_by_user_id_within_tx_def
      tx_get_def fm_active_def reuse_pending_def ceremony_delete_by_pending_id_within_tx_def tx_seal_def seal_def
      refresh_for_restart_within_tx_def link_of_def tx_guard_def tx_return_def Let_def demo_federated_simps)

lemma demo_issue_exhausted:
  "\<exists>s'. issue_federated_mfa_pending demo_aead ''f'' [] ''a'' ''p'' 0 0 ''u'' None ''b'' ''c'' 1 (demo_federated 5)
      = (Inr (''k'', 300), s') \<and> map fm_id (federation_mfa_pendings s') = [''k'']"
  by (simp add: issue_federated_mfa_pending_def protocol_tx_def with_tx_def issue_federated_mfa_pending_tx_def
      tx_bind_def attempt_complete_within_tx_def found_or_def affected_def update_where_def find_active_by_user_id_within_tx_def
      tx_get_def fm_active_def tx_return_def demo_federated_simps)

section \<open>Properties\<close>

text \<open>C8: A federated sign-in attempt is finished at most once.  Whatever else happens in between (other
  attempts begun, any attempt claimed, terminalised or purged, any attempt finished, any other work), the
  three ways to finish an attempt succeed at most once in total for it: one session, or one new account,
  or one second-factor continuation.\<close>

theorem federated_attempt_single_use:
  assumes "attempt_ids_unique s" "uses (attempt_step cx ae aid) (finish_attempt cx ae aid) s n s'"
  shows "n \<le> 1"
  using assms by (rule fed_attempt.at_most_once)

theorem federated_attempt_single_use_witness:
  "attempt_ids_unique (demo_federated 0) \<and> (\<exists>s'. uses (attempt_step demo_env demo_aead ''a'') (finish_attempt demo_env demo_aead ''a'')
      (demo_federated 0) 1 s' \<and> \<not> uses (attempt_step demo_env demo_aead ''a'') (finish_attempt demo_env demo_aead ''a'')
      (demo_federated 0) 2 s')"
proof -
  let ?how = "SecondFactorNow ''f'' (replicate 24 CHR ''n'') ''p'' 0 0 ''u'' None ''b'' ''c'' 1"
  have ok: "attempt_ids_unique (demo_federated 0)"
    by (simp add: attempt_ids_unique_def demo_federated_def)
  obtain s' where "finish_attempt demo_env demo_aead ''a'' ?how (demo_federated 0) = (Inr (), s')"
    using demo_issue_pending by blast
  then have one: "uses (attempt_step demo_env demo_aead ''a'') (finish_attempt demo_env demo_aead ''a'') (demo_federated 0) 1 s'"
    using uses.success [OF uses.start] by (metis One_nat_def)
  have "\<not> uses (attempt_step demo_env demo_aead ''a'') (finish_attempt demo_env demo_aead ''a'') (demo_federated 0) 2 s'"
    using federated_attempt_single_use [OF ok, of demo_env demo_aead "''a''" 2 s'] by auto
  then show ?thesis
    using ok one by blast
qed

text \<open>C7: A second factor can be guessed at five times.  In any history of restarts, submissions, ceremonies,
  purges and removals, the submissions to one continuation that reach a decision are at most four
  rejections followed by at most one other outcome; a restart of the sign-in does not give the guesses back.\<close>

theorem federated_guess_budget:
  assumes "mfa_traffic cx ae k s outs s'" "continuations_ok (federation_mfa_pendings s)"
  shows "list_all is_rejection (butlast (outcomes_of k outs)) \<and> length (filter is_rejection (outcomes_of k outs)) \<le> 4"
proof -
  have "continuations_ok (federation_mfa_pendings s') \<and> budget k outs (federation_mfa_pendings s')"
    using assms
  proof (induction rule: mfa_traffic_rows)
    case start
    then show ?case
      using continuations_okD(3) [OF assms(2)] by (auto simp: budget_def outcomes_of_def)
  next
    case (quiet outs rows rows')
    then show ?case
      using budget_quiet by blast
  next
    case (outcome outs rows rows' fid out)
    then show ?case
      by (rule budget_outcome)
  qed
  then show ?thesis
    by (simp add: budget_def)
qed

theorem federated_guess_budget_witness:
  "mfa_traffic demo_env demo_aead ''k'' (demo_federated 3)
      [(''k'', RejectedStillPending 4 RjMethodMismatch), (''k'', AttemptsExhausted RjMethodMismatch)] (demo_federated 5)
    \<and> list_all is_rejection (butlast (outcomes_of ''k''
        [(''k'', RejectedStillPending 4 RjMethodMismatch), (''k'', AttemptsExhausted RjMethodMismatch)]))"
  using federated_guess_budget [OF demo_traffic demo_continuations_ok] demo_traffic by simp

text \<open>An exhausted second factor locks federation out.  As long as the exhausted continuation of a user is
  in the store (only the purge, a day after its expiry, and the removal of its link or provider take it
  out), it stays exhausted and no submission at any continuation signs that user in; a restart of the
  sign-in does not replace it.\<close>

theorem exhausted_continuation_locks_out:
  assumes "mfa_traffic cx ae (fm_id e) s outs s'" "continuations_ok (federation_mfa_pendings s)"
    and "e \<in> set (federation_mfa_pendings s)" "fm_status e = FmExhausted"
    and "r \<in> set (federation_mfa_pendings s')" "fm_id r = fm_id e"
  shows "r = e \<and> ((fid, Promoted session evicted meth) \<in> set outs \<longrightarrow> s_user_id session \<noteq> fm_user_id e)"
proof -
  let ?P = "\<lambda>outs rows. \<forall>r \<in> set rows. fm_id r = fm_id e \<longrightarrow> r = e \<and>
    (\<forall>fid session evicted meth. (fid, Promoted session evicted meth) \<in> set outs \<longrightarrow> s_user_id session \<noteq> fm_user_id e)"
  have "continuations_ok (federation_mfa_pendings s') \<and> ?P outs (federation_mfa_pendings s')"
    using assms(1,2)
  proof (induction rule: mfa_traffic_rows)
    case start
    then show ?case
      using continuations_okD(1) [OF assms(2)] assms(3) by (auto simp: distinct_map inj_on_def)
  next
    case (quiet outs rows rows')
    then show ?case
      using tracesD [OF quiet(3)] assms(4) by (metis federation_mfa_pending_status.distinct(3))
  next
    case (outcome outs rows rows' fid out)
    show ?case
    proof (intro ballI impI)
      fix r' assume r': "r' \<in> set rows'" "fm_id r' = fm_id e"
      obtain q where q: "q \<in> set rows" "fm_id q = fm_id e" "fm_status q \<noteq> FmPending \<Longrightarrow> r' = q"
        using tracesD [OF outcome_step_keeps(2) [OF outcome(3,2)] r'] by metis
      have "q = e" and old: "\<And>fid session evicted meth. (fid, Promoted session evicted meth) \<in> set outs
          \<Longrightarrow> s_user_id session \<noteq> fm_user_id e"
        using outcome(1) q(1,2) by blast+
      then have "r' = e" "e \<in> set rows"
        using q assms(4) by auto
      moreover have "s_user_id session \<noteq> fm_user_id e" if "(fid', Promoted session evicted meth) \<in> set (outs @ [(fid, out)])"
        for fid' session evicted meth
      proof (cases "(fid', Promoted session evicted meth) \<in> set outs")
        case False
        then have "outcome_step fid (Promoted session evicted meth) rows rows'"
          using that outcome(3) by simp
        then show ?thesis
          using locked_out [OF outcome(2) \<open>e \<in> set rows\<close> assms(4)] by blast
      qed (use old in blast)
      ultimately show "r' = e \<and> (\<forall>fid' session evicted meth. (fid', Promoted session evicted meth) \<in> set (outs @ [(fid, out)])
          \<longrightarrow> s_user_id session \<noteq> fm_user_id e)"
        by blast
    qed
  qed
  then show ?thesis
    using assms(5,6) by blast
qed

theorem exhausted_continuation_locks_out_witness:
  "\<exists>s'. issue_federated_mfa_pending demo_aead ''f'' [] ''a'' ''p'' 0 0 ''u'' None ''b'' ''c'' 1 (demo_federated 5)
      = (Inr (''k'', 300), s')
    \<and> demo_continuation 5 \<in> set (federation_mfa_pendings s') \<and> fm_status (demo_continuation 5) = FmExhausted
    \<and> list_all (\<lambda>r. r = demo_continuation 5) (federation_mfa_pendings s')"
proof -
  have row: "fm_id (demo_continuation 5) = ''k''" "fm_status (demo_continuation 5) = FmExhausted"
    "federation_mfa_pendings (demo_federated 5) = [demo_continuation 5]"
    by (simp_all add: demo_continuation_def demo_federated_def)
  obtain s' where issue: "issue_federated_mfa_pending demo_aead ''f'' [] ''a'' ''p'' 0 0 ''u'' None ''b'' ''c'' 1 (demo_federated 5)
      = (Inr (''k'', 300), s')" and ids: "map fm_id (federation_mfa_pendings s') = [''k'']"
    by (rule exE [OF demo_issue_exhausted]) (elim conjE, rule that)
  have run: "mfa_traffic demo_env demo_aead ''k'' (demo_federated 5) [] s'"
    by (rule restarted [OF idle _ issue]) simp
  have "r = demo_continuation 5" if "r \<in> set (federation_mfa_pendings s')" for r
  proof -
    have "fm_id r = fm_id (demo_continuation 5)"
      using that ids row(1) by auto
    then show ?thesis
      using exhausted_continuation_locks_out [OF run [folded row(1)] demo_continuations_ok [of 5] _ row(2) that, of "''k''"] row(3)
      by simp
  qed
  moreover have "federation_mfa_pendings s' \<noteq> []"
    using ids by auto
  ultimately have "list_all (\<lambda>r. r = demo_continuation 5) (federation_mfa_pendings s')"
    "demo_continuation 5 \<in> set (federation_mfa_pendings s')"
    by (simp add: list_all_iff, metis list.set_sel(1))
  then show ?thesis
    using issue row(2) by (intro exI conjI)
qed

text \<open>C36: The exhaustion of a second factor is never recorded.  The descriptor of the event requires the
  attribute \<open>attempt_limit\<close> and the emission does not pass it, so the audit log is as it was before the
  submission, whatever the environment; the submission itself succeeds.\<close>

theorem exhaustion_goes_unrecorded:
  assumes "complete_federated_mfa cx ae sid fid prf now s = (Inr (AttemptsExhausted reason), s')"
  shows "audit s' = audit s"
proof -
  obtain t where "complete_federated_mfa_tx ae sid fid prf now s = Inr (AttemptsExhausted reason, t)"
    and "s' = f03_emission cx (AttemptsExhausted reason) now t"
    using assms by (rule complete_federated_mfa_Inr)
  then show ?thesis
    using keepsD [OF complete_keeps_audit] unfolding exhausted_emission by blast
qed

theorem exhaustion_goes_unrecorded_witness:
  "\<exists>s'. complete_federated_mfa demo_env demo_aead ''s'' ''k'' (Some (PrRejected RjMethodMismatch)) 1 (demo_federated 4)
      = (Inr (AttemptsExhausted RjMethodMismatch), s') \<and> entries (audit s') = []"
proof -
  have run: "complete_federated_mfa demo_env demo_aead ''s'' ''k'' (Some (PrRejected RjMethodMismatch)) 1 (demo_federated 4)
      = (Inr (AttemptsExhausted RjMethodMismatch), f03_emission demo_env (AttemptsExhausted RjMethodMismatch) 1 (demo_federated 5))"
    using demo_complete [of 4 demo_env] by simp
  have "entries (audit (demo_federated 4)) = []"
    by (simp add: demo_federated_def empty_store_def)
  then show ?thesis
    using run exhaustion_goes_unrecorded [OF run] by (intro exI conjI) (assumption, simp del: f03_emission.simps)
qed

end
