(* ===== verification/Locales.thy ===== *)
theory Locales
  imports Settings
begin

text \<open>
  The locales of \<open>sui-id-i18n/src/lib.rs\<close> and their resolution (\<open>sui-id-core/src/i18n.rs\<close>).  The string
  tables themselves are data of the mails and pages and stay parameters.
\<close>

datatype locale_tag = Ja | En | ZhHans | ZhHant

fun locale_as_tag :: "locale_tag \<Rightarrow> string" where
  "locale_as_tag Ja = ''ja''"
| "locale_as_tag En = ''en''"
| "locale_as_tag ZhHans = ''zh-Hans''"
| "locale_as_tag ZhHant = ''zh-Hant''"

definition default_locale :: locale_tag where
  "default_locale = Ja"

definition selectable_locales :: "locale_tag list" where
  "selectable_locales = [Ja, En]"

definition ascii_lowercase :: "string \<Rightarrow> string" where
  "ascii_lowercase = map (\<lambda>c. if 65 \<le> byte c \<and> byte c \<le> 90 then of_byte (byte c + 32) else c)"

text \<open>\<open>split(['-', '_'])\<close>: the primary tag and the first subtag, if any.\<close>

definition tag_parts :: "string \<Rightarrow> string list" where
  "tag_parts t = split_on CHR ''-'' (map (\<lambda>c. if c = CHR ''_'' then CHR ''-'' else c) t)"

definition locale_parse :: "string \<Rightarrow> locale_tag option" where
  "locale_parse t =
    (let parts = tag_parts t;
         primary = ascii_lowercase (case parts of [] \<Rightarrow> [] | p # _ \<Rightarrow> p);
         subtag = (case parts of _ # q # _ \<Rightarrow> Some (ascii_lowercase q) | _ \<Rightarrow> None) in
     if primary = ''ja'' then Some Ja
     else if primary = ''en'' then Some En
     else if primary = ''zh'' then
       (if subtag \<in> {Some ''hant'', Some ''tw'', Some ''hk'', Some ''mo''} then Some ZhHant else Some ZhHans)
     else None)"

fun first_some :: "('a \<Rightarrow> 'b option) \<Rightarrow> 'a list \<Rightarrow> 'b option" where
  "first_some f [] = None"
| "first_some f (x # xs) = (case f x of Some y \<Rightarrow> Some y | None \<Rightarrow> first_some f xs)"

definition negotiate_from_accept_language :: "string \<Rightarrow> locale_tag option" where
  "negotiate_from_accept_language header =
    first_some (\<lambda>raw. locale_parse (str_trim (case split_on CHR '';'' raw of [] \<Rightarrow> [] | t # _ \<Rightarrow> t))) (split_on CHR '','' header)"

record locale_inputs =
  li_user_id :: "uuid option"
  li_cookie :: "string option"
  li_accept_language :: "string option"

definition user_locale :: "uuid option \<Rightarrow> store \<Rightarrow> locale_tag option" where
  "user_locale uid s = Option.bind (Option.bind (Option.bind uid (\<lambda>u. find_by_id_opt u s)) u_preferred_lang) locale_parse"

definition locale_resolve :: "locale_inputs \<Rightarrow> store \<Rightarrow> core_error + locale_tag" where
  "locale_resolve inp s =
    (case user_locale (li_user_id inp) s of
       Some l \<Rightarrow> Inr l
     | None \<Rightarrow>
    (case Option.bind (li_cookie inp) locale_parse of
       Some l \<Rightarrow> Inr l
     | None \<Rightarrow>
    (case Option.bind (li_accept_language inp) negotiate_from_accept_language of
       Some l \<Rightarrow> Inr l
     | None \<Rightarrow>
    (case settings_get s of
       Inl e \<Rightarrow> Inl (Store e)
     | Inr row \<Rightarrow>
        (case locale_parse (ss_default_lang row) of Some l \<Rightarrow> Inr l | None \<Rightarrow> Inr default_locale)))))"

lemma locale_parse_tags:
  "locale_parse ''ja'' = Some Ja" "locale_parse ''en'' = Some En" "locale_parse ''zh-Hans'' = Some ZhHans"
  "locale_parse ''zh-Hant'' = Some ZhHant"
  by code_simp+

lemma locale_parse_tag [simp]: "locale_parse (locale_as_tag l) = Some l"
  by (cases l) (simp_all add: locale_parse_tags)

text \<open>The stored preference of a user wins over everything the browser sends.\<close>

lemma locale_resolve_preference:
  assumes "find_by_id_opt uid s = Some u" "u_preferred_lang u = Some (locale_as_tag l)"
  shows "locale_resolve \<lparr> li_user_id = Some uid, li_cookie = c, li_accept_language = h \<rparr> s = Inr l"
  using assms by (simp add: locale_resolve_def user_locale_def)

lemma locale_resolve_fails_iff:
  "(\<exists>e. locale_resolve inp s = Inl e) \<longleftrightarrow> server_settings s = None \<and> user_locale (li_user_id inp) s = None
    \<and> Option.bind (li_cookie inp) locale_parse = None
    \<and> Option.bind (li_accept_language inp) negotiate_from_accept_language = None"
  by (auto simp: locale_resolve_def settings_get_def ok_or_def split: option.splits)

end
