(* ===== verification/Forgot_Password.thy ===== *)
theory Forgot_Password
  imports Outbox Passwords Locales
begin

text \<open>
  The forgot-password flow: the durable requests (\<open>repos/forgot_password_requests.rs\<close>), the security events
  (\<open>sui-id-core/src/events.rs\<close>), the breach check (\<open>authn/hibp.rs\<close>), and issuing, completing and the worker
  (\<open>account/forgot_password.rs\<close>).  The mailer is any function of a mail and the store; the texts of a
  locale, the base64 alphabet and the breach service are parameters.
\<close>

section \<open>Requests\<close>

definition fr_record :: "uuid \<Rightarrow> string \<Rightarrow> string option \<Rightarrow> instant \<Rightarrow> unit tx" where
  "fr_record rid email ip now s =
    (if list_ex (\<lambda>r. fr_id r = rid) (forgot_password_requests s)
     then Inl (Db ''UNIQUE constraint failed: forgot_password_requests.id'')
     else Inr ((), s\<lparr>forgot_password_requests := forgot_password_requests s @
       [\<lparr> fr_id = rid, fr_state = FrPending, fr_email = email, fr_requester_ip = ip, fr_created_at = now,
          fr_updated_at = now \<rparr>]\<rparr>))"

fun oldest :: "forgot_password_request_row list \<Rightarrow> forgot_password_request_row option" where
  "oldest [] = None"
| "oldest (r # rs) =
    (case oldest rs of None \<Rightarrow> Some r | Some q \<Rightarrow> if fr_created_at q < fr_created_at r then Some q else Some r)"

definition fr_claim_one :: "instant \<Rightarrow> store \<Rightarrow> forgot_password_request_row option \<times> store" where
  "fr_claim_one now s =
    (case oldest (filter (\<lambda>r. fr_state r = FrPending) (forgot_password_requests s)) of
       None \<Rightarrow> (None, s)
     | Some r \<Rightarrow>
        (Some r, s\<lparr>forgot_password_requests := update_where (\<lambda>q. fr_id q = fr_id r)
          (\<lambda>q. q\<lparr> fr_state := FrProcessing, fr_updated_at := now \<rparr>) (forgot_password_requests s)\<rparr>))"

definition fr_delete :: "uuid \<Rightarrow> store \<Rightarrow> store" where
  "fr_delete rid s = s\<lparr>forgot_password_requests := delete_where (\<lambda>r. fr_id r = rid) (forgot_password_requests s)\<rparr>"

definition requeue_stuck_processing :: "instant \<Rightarrow> store \<Rightarrow> nat \<times> store" where
  "requeue_stuck_processing now s =
    (let p = (\<lambda>r. fr_state r = FrProcessing) in
     (affected p (forgot_password_requests s),
      s\<lparr>forgot_password_requests := update_where p
        (\<lambda>r. r\<lparr> fr_state := FrPending, fr_updated_at := now \<rparr>) (forgot_password_requests s)\<rparr>))"

definition fr_count_outstanding :: "store \<Rightarrow> int" where
  "fr_count_outstanding s = int (length (forgot_password_requests s))"

section \<open>Security events\<close>

datatype security_event =
    PasswordResetRequested "uuid option"
  | PasswordResetThrottled uuid int
  | PasswordResetEmailSent uuid
  | PasswordResetEmailFailed uuid string
  | PasswordResetCompleted uuid

fun event_name :: "security_event \<Rightarrow> string" where
  "event_name (PasswordResetRequested _) = ''auth.password.reset_requested''"
| "event_name (PasswordResetThrottled _ _) = ''auth.password.reset_throttled''"
| "event_name (PasswordResetEmailSent _) = ''auth.password.reset_email_sent''"
| "event_name (PasswordResetEmailFailed _ _) = ''auth.password.reset_email_failed''"
| "event_name (PasswordResetCompleted _) = ''auth.password.reset_completed''"

fun event_target :: "security_event \<Rightarrow> string option" where
  "event_target (PasswordResetRequested u) = u"
| "event_target (PasswordResetThrottled u _) = Some u"
| "event_target (PasswordResetEmailSent u) = Some u"
| "event_target (PasswordResetEmailFailed u _) = Some u"
| "event_target (PasswordResetCompleted u) = Some u"

fun event_outcome :: "security_event \<Rightarrow> string" where
  "event_outcome (PasswordResetThrottled _ _) = ''failure''"
| "event_outcome (PasswordResetEmailFailed _ _) = ''failure''"
| "event_outcome (PasswordResetRequested _) = ''ok''"
| "event_outcome (PasswordResetEmailSent _) = ''ok''"
| "event_outcome (PasswordResetCompleted _) = ''ok''"

fun event_note :: "security_event \<Rightarrow> string option" where
  "event_note (PasswordResetRequested u) = Some (''matched='' @ (if u = None then ''false'' else ''true''))"
| "event_note (PasswordResetThrottled _ n) = Some (''outstanding='' @ dec_int n)"
| "event_note (PasswordResetEmailFailed _ reason) = Some (''reason='' @ reason)"
| "event_note (PasswordResetEmailSent _) = None"
| "event_note (PasswordResetCompleted _) = None"

text \<open>The audit row of an event; the append is assumed to reach the disk.\<close>

definition emit :: "digest_env \<Rightarrow> instant \<Rightarrow> uuid option \<Rightarrow> security_event \<Rightarrow> store \<Rightarrow> store" where
  "emit cx at actor ev s =
    s\<lparr>audit := append_within_tx cx
      \<lparr> al_at = at, al_actor = actor, al_action = event_name ev, al_target = event_target ev,
        al_result = event_outcome ev, al_note = event_note ev \<rparr> (audit s)\<rparr>"

section \<open>The breach check\<close>

datatype hibp_check_outcome = NotBreached | Breached nat | Unavailable

text \<open>\<open>str::lines\<close>: split at line feeds, a carriage return before one dropped, no empty last line.\<close>

definition strip_cr :: "string \<Rightarrow> string" where
  "strip_cr l = (if l \<noteq> [] \<and> last l = CHR 0x0D then butlast l else l)"

definition str_lines :: "string \<Rightarrow> string list" where
  "str_lines body =
    (let parts = split_on CHR 0x0A body in
     map strip_cr (butlast parts) @ (if last parts = [] then [] else [last parts]))"

definition ascii_uppercase :: "string \<Rightarrow> string" where
  "ascii_uppercase = map (\<lambda>c. if 97 \<le> byte c \<and> byte c \<le> 122 then of_byte (byte c - 32) else c)"

fun scan_lines :: "string \<Rightarrow> string list \<Rightarrow> hibp_check_outcome" where
  "scan_lines tgt [] = NotBreached"
| "scan_lines tgt (line # rest) =
    (case split_once CHR '':'' line of
       None \<Rightarrow> scan_lines tgt rest
     | Some (sfx, c) \<Rightarrow>
        if ascii_uppercase sfx \<noteq> ascii_uppercase tgt then scan_lines tgt rest
        else (case parse_unsigned 64 (str_trim c) of
                None \<Rightarrow> NotBreached
              | Some n \<Rightarrow> if n = 0 then NotBreached else Breached n))"

definition parse_response :: "string \<Rightarrow> string \<Rightarrow> hibp_check_outcome" where
  "parse_response body sfx = scan_lines (ascii_uppercase sfx) (str_lines body)"

text \<open>The production client: the SHA-1 digest and the HTTP exchange (\<open>None\<close> on any failure) are parameters.\<close>

definition hibp_check :: "(string \<Rightarrow> string) \<Rightarrow> (string \<Rightarrow> string option) \<Rightarrow> string \<Rightarrow> hibp_check_outcome" where
  "hibp_check sha1 fetch password =
    (let hex = ascii_uppercase (hex_lower (sha1 password)) in
     case fetch (take 5 hex) of None \<Rightarrow> Unavailable | Some body \<Rightarrow> parse_response body (drop 5 hex))"

datatype hibp_enforcement = HibpAllowed | HibpAllowedWithWarning nat | HibpBlocked nat

definition enforce_hibp :: "hibp_mode \<Rightarrow> (string \<Rightarrow> hibp_check_outcome) option \<Rightarrow> string \<Rightarrow> hibp_enforcement" where
  "enforce_hibp mode client password =
    (if mode = HibpOff then HibpAllowed
     else (case client of
       None \<Rightarrow> HibpAllowed
     | Some check \<Rightarrow>
        (case check password of
           NotBreached \<Rightarrow> HibpAllowed
         | Unavailable \<Rightarrow> HibpAllowed
         | Breached n \<Rightarrow>
            (case mode of HibpOff \<Rightarrow> HibpAllowed | HibpWarn \<Rightarrow> HibpAllowedWithWarning n | HibpBlock \<Rightarrow> HibpBlocked n))))"

section \<open>Mails\<close>

record mail_texts =
  mt_subject_reset :: string
  mt_subject_changed :: string
  mt_greeting_suffix :: string
  mt_reset_intro :: string
  mt_reset_link_label :: string
  mt_reset_disregard :: string
  mt_reset_token_hint :: "string \<Rightarrow> string"
  mt_changed_intro :: string
  mt_changed_warning :: string
  mt_changed_link :: string

fun escape_byte :: "char \<Rightarrow> string" where
  "escape_byte c =
    (if c = CHR ''&'' then ''&amp;'' else if c = CHR ''<'' then ''&lt;'' else if c = CHR ''>'' then ''&gt;''
     else if c = CHR 0x22 then ''&quot;'' else if c = CHR 0x27 then ''&#39;'' else [c])"

text \<open>The five replacements in a row; the ampersand goes first, so none touches the output of another.\<close>

definition replace_byte :: "char \<Rightarrow> string \<Rightarrow> string \<Rightarrow> string" where
  "replace_byte c r t = concat (map (\<lambda>x. if x = c then r else [x]) t)"

definition html_escape :: "string \<Rightarrow> string" where
  "html_escape t =
    replace_byte CHR 0x27 ''&#39;'' (replace_byte CHR 0x22 ''&quot;'' (replace_byte CHR ''>'' ''&gt;''
      (replace_byte CHR ''<'' ''&lt;'' (replace_byte CHR ''&'' ''&amp;'' t))))"

definition greeting :: "mail_texts \<Rightarrow> string \<Rightarrow> string" where
  "greeting t display = (if mt_greeting_suffix t = [] then display else display @ '' '' @ mt_greeting_suffix t)"

abbreviation nl :: string where
  "nl \<equiv> [CHR 0x0A]"

abbreviation quot :: string where
  "quot \<equiv> [CHR 0x22]"

definition reset_mail :: "mail_texts \<Rightarrow> string \<Rightarrow> user_row \<Rightarrow> string \<Rightarrow> string \<Rightarrow> outgoing_mail" where
  "reset_mail t issuer user normalized_email plaintext =
    (let base = trim_end_slash issuer;
         link = base @ ''/reset-password#t='' @ plaintext;
         paste_page = base @ ''/reset-password'';
         g = greeting t (case u_display_name user of None \<Rightarrow> u_username user | Some d \<Rightarrow> d) in
     \<lparr> om_to = (case u_email user of None \<Rightarrow> normalized_email | Some e \<Rightarrow> e),
       om_subject = mt_subject_reset t,
       om_text_body = g @ nl @ nl @ mt_reset_intro t @ nl @ nl @ link @ nl @ nl @ mt_reset_token_hint t paste_page @ nl
         @ plaintext @ nl @ nl @ mt_reset_disregard t @ nl,
       om_html_body = Some (''<p>'' @ html_escape g @ ''</p><p>'' @ mt_reset_intro t @ ''</p><p><a href='' @ quot
         @ html_escape link @ quot @ ''>'' @ mt_reset_link_label t @ ''</a></p><p>''
         @ html_escape (mt_reset_token_hint t paste_page) @ ''</p><p><code>'' @ html_escape plaintext @ ''</code></p><p>''
         @ mt_reset_disregard t @ ''</p>''),
       om_locale = None \<rparr>)"

definition changed_mail :: "mail_texts \<Rightarrow> string \<Rightarrow> string option \<Rightarrow> outgoing_mail" where
  "changed_mail t to_email display_name =
    (let g = greeting t (case display_name of None \<Rightarrow> [] | Some d \<Rightarrow> d) in
     \<lparr> om_to = to_email, om_subject = mt_subject_changed t,
       om_text_body = g @ nl @ nl @ mt_changed_intro t @ nl @ mt_changed_warning t @ nl,
       om_html_body = Some (''<p>'' @ html_escape g @ ''</p><p>'' @ mt_changed_intro t @ ''</p><p>'' @ mt_changed_warning t
         @ '' <a href='' @ quot @ ''/me/security'' @ quot @ ''>'' @ mt_changed_link t @ ''</a></p>''),
       om_locale = None \<rparr>)"

definition recipient_locale :: "user_row \<Rightarrow> store \<Rightarrow> locale_tag" where
  "recipient_locale user s =
    (case Option.bind (u_preferred_lang user) locale_parse of
       Some l \<Rightarrow> l
     | None \<Rightarrow> (case settings_get s of
           Inl _ \<Rightarrow> default_locale
         | Inr row \<Rightarrow> (case locale_parse (ss_default_lang row) of None \<Rightarrow> default_locale | Some l \<Rightarrow> l)))"

section \<open>Requesting a reset\<close>

definition DEFAULT_TOKEN_TTL :: int where
  "DEFAULT_TOKEN_TTL = minutes 30"

definition MAX_OUTSTANDING_TOKENS_PER_USER :: int where
  "MAX_OUTSTANDING_TOKENS_PER_USER = 3"

type_synonym mailer = "outgoing_mail \<Rightarrow> store \<Rightarrow> (core_error + mail_send_outcome) \<times> store"

record reset_env =
  re_digest :: digest_env
  re_lower :: "string \<Rightarrow> string"
  re_base64url :: "string \<Rightarrow> string"
  re_issuer :: string
  re_texts :: "locale_tag \<Rightarrow> mail_texts"

text \<open>The 32 random bytes (\<open>None\<close> when the system has none), the identifier of the row, and the clock reads for
  the row and for the event.\<close>

record reset_draws =
  rd_bytes :: "string option"
  rd_token_id :: uuid
  rd_now :: instant
  rd_at :: instant

definition mint_random_token :: "reset_env \<Rightarrow> string option \<Rightarrow> core_error + string \<times> string" where
  "mint_random_token re bytes =
    (case bytes of
       None \<Rightarrow> Inl Internal
     | Some b \<Rightarrow> let plaintext = re_base64url re b in Inr (plaintext, sha256 (re_digest re) plaintext))"

definition count_active_for_user :: "uuid \<Rightarrow> instant \<Rightarrow> store \<Rightarrow> int" where
  "count_active_for_user uid now s =
    int (affected (\<lambda>r. prt_user_id r = uid \<and> reset_outstanding now r) (password_reset_tokens s))"

definition password_holder :: "string \<Rightarrow> store \<Rightarrow> user_row option" where
  "password_holder normalized s =
    (case find_by_email_normalized normalized s of
       None \<Rightarrow> None
     | Some u \<Rightarrow> if u_source u = Local \<and> is_ok (credential_get (u_id u) s) then Some u else None)"

definition reset_row :: "reset_draws \<Rightarrow> uuid \<Rightarrow> string \<Rightarrow> string option \<Rightarrow> password_reset_token_row" where
  "reset_row rd uid h ip =
    \<lparr> prt_id = rd_token_id rd, prt_user_id = uid, prt_token_hash = h, prt_issued_at = rd_now rd,
      prt_expires_at = rd_now rd + DEFAULT_TOKEN_TTL, prt_consumed_at = None, prt_requester_ip = ip,
      prt_issued_via = OriginEmail, prt_issued_by = None, prt_revoked_at = None, prt_provisioning = False \<rparr>"

definition dispatch_reset_mail ::
  "reset_env \<Rightarrow> mailer \<Rightarrow> reset_draws \<Rightarrow> user_row \<Rightarrow> string \<Rightarrow> string \<Rightarrow> store \<Rightarrow> store" where
  "dispatch_reset_mail re mailer rd user normalized plaintext s =
    (case smtp_config_get s of
       Some cfg \<Rightarrow>
        if sc_enabled cfg
        then (case mailer (reset_mail (re_texts re (recipient_locale user s)) (re_issuer re) user normalized plaintext) s of
                (Inr _, s') \<Rightarrow> emit (re_digest re) (rd_at rd) (Some (u_id user)) (PasswordResetEmailSent (u_id user)) s'
              | (Inl e, s') \<Rightarrow> emit (re_digest re) (rd_at rd) (Some (u_id user))
                  (PasswordResetEmailFailed (u_id user) (core_error_text e)) s')
        else emit (re_digest re) (rd_at rd) (Some (u_id user)) (PasswordResetEmailFailed (u_id user) ''smtp_unconfigured'') s
     | None \<Rightarrow> emit (re_digest re) (rd_at rd) (Some (u_id user)) (PasswordResetEmailFailed (u_id user) ''smtp_unconfigured'') s)"

definition request_reset ::
  "reset_env \<Rightarrow> mailer \<Rightarrow> reset_draws \<Rightarrow> string \<Rightarrow> string option \<Rightarrow> store \<Rightarrow> (core_error + unit) \<times> store" where
  "request_reset re mailer rd email ip s =
    (let normalized = normalize_email (re_lower re) email in
     case password_holder normalized s of
       None \<Rightarrow> (Inr (), emit (re_digest re) (rd_at rd) None (PasswordResetRequested None) s)
     | Some user \<Rightarrow>
        if u_is_disabled user \<or> u_is_deleted user
        then (Inr (), emit (re_digest re) (rd_at rd) (Some (u_id user)) (PasswordResetRequested (Some (u_id user))) s)
        else let outstanding = count_active_for_user (u_id user) (rd_now rd) s in
          if outstanding \<ge> MAX_OUTSTANDING_TOKENS_PER_USER
          then (Inr (), emit (re_digest re) (rd_at rd) (Some (u_id user)) (PasswordResetThrottled (u_id user) outstanding) s)
          else (case mint_random_token re (rd_bytes rd) of
             Inl e \<Rightarrow> (Inl e, s)
           | Inr (plaintext, h) \<Rightarrow>
              (case with_tx (reset_insert_with_within_tx (reset_row rd (u_id user) h ip) False) s of
                 (Inl e, s') \<Rightarrow> (Inl (Store e), s')
               | (Inr _, s') \<Rightarrow> (Inr (), dispatch_reset_mail re mailer rd user normalized plaintext s'))))"

section \<open>Completing a reset\<close>

record reset_completion =
  rc_lockout_cleared :: bool
  rc_second_factor_lock_until :: "instant option"

definition completion_of :: "password_lockout_cleared \<Rightarrow> reset_completion" where
  "completion_of found =
    \<lparr> rc_lockout_cleared = cleared found, rc_second_factor_lock_until = second_factor_lock_until found \<rparr>"

definition notify_password_changed ::
  "mailer \<Rightarrow> mail_texts \<Rightarrow> string \<Rightarrow> string option \<Rightarrow> store \<Rightarrow> (core_error + mail_send_outcome) \<times> store" where
  "notify_password_changed mailer t to_email display_name = mailer (changed_mail t to_email display_name)"

definition notify_after_reset :: "reset_env \<Rightarrow> mailer \<Rightarrow> password_reset_token_row \<Rightarrow> store \<Rightarrow> store" where
  "notify_after_reset re mailer row s =
    (if prt_issued_via row = OriginEmail
     then (case find_by_id_opt (prt_user_id row) s of
             None \<Rightarrow> s
           | Some user \<Rightarrow>
              (case u_email user of
                 None \<Rightarrow> s
               | Some email \<Rightarrow>
                  snd (notify_password_changed mailer (re_texts re (recipient_locale user s)) email (u_display_name user) s)))
     else s)"

definition link_refused :: "instant \<Rightarrow> password_reset_token_row \<Rightarrow> bool" where
  "link_refused now row = (prt_consumed_at row \<noteq> None \<or> prt_revoked_at row \<noteq> None \<or> prt_expires_at row < now)"

text \<open>\<open>s0\<close> is the store that \<open>find_by_hash\<close> reads, \<open>s\<close> the one the command runs in; \<open>at\<close> is the clock read of
  the audit row and \<open>salt\<close> the random salt.\<close>

definition reset_password ::
  "reset_env \<Rightarrow> password_env \<Rightarrow> mailer \<Rightarrow> (string \<Rightarrow> hibp_check_outcome) option \<Rightarrow> hibp_mode \<Rightarrow> string \<Rightarrow> instant
    \<Rightarrow> string \<Rightarrow> string \<Rightarrow> nat \<Rightarrow> instant \<Rightarrow> store \<Rightarrow> store \<Rightarrow> (core_error + reset_completion) \<times> store" where
  "reset_password re pe mailer client mode salt at plaintext_token new_password min_len now s0 s =
    (case check_password_policy new_password min_len of
       Inl e \<Rightarrow> (Inl e, s)
     | Inr _ \<Rightarrow>
    (case enforce_hibp mode client new_password of
       HibpBlocked _ \<Rightarrow>
        (Inl (BadRequest ''New password found in known data breaches. Please choose a different password.''), s)
     | enforced \<Rightarrow>
    (case reset_find_by_hash (sha256 (re_digest re) plaintext_token) s0 of
       None \<Rightarrow> (Inl InvalidCredentials, s)
     | Some row \<Rightarrow>
        if link_refused now row then (Inl InvalidCredentials, s)
        else
    (case hash_password pe salt new_password of
       Inl e \<Rightarrow> (Inl e, s)
     | Inr new_hash \<Rightarrow>
    (case consume_and_reset_password (re_digest re) at (prt_user_id row) (prt_id row)
        \<lparr> cr_user_id = prt_user_id row, cr_password_hash = new_hash, cr_updated_at = now \<rparr> now (enforced \<noteq> HibpAllowed) s of
       (Inl StoreNotFound, s') \<Rightarrow> (Inl InvalidCredentials, s')
     | (Inl e, s') \<Rightarrow> (Inl (Store e), s')
     | (Inr found, s') \<Rightarrow> (Inr (completion_of found), notify_after_reset re mailer row s'))))))"

section \<open>The worker\<close>

definition fr_process_row :: "reset_env \<Rightarrow> mailer \<Rightarrow> reset_draws \<Rightarrow> forgot_password_request_row \<Rightarrow> store \<Rightarrow> store" where
  "fr_process_row re mailer rd row s =
    fr_delete (fr_id row) (snd (request_reset re mailer rd (fr_email row) (fr_requester_ip row) s))"

text \<open>\<open>drain_once\<close>: the draws and clock reads of the \<open>i\<close>-th request are the \<open>i\<close>-th of the streams.\<close>

partial_function (option) drain_once ::
  "reset_env \<Rightarrow> mailer \<Rightarrow> (nat \<Rightarrow> reset_draws) \<Rightarrow> (nat \<Rightarrow> instant) \<Rightarrow> nat \<Rightarrow> store \<Rightarrow> (nat \<times> store) option" where
  "drain_once re mailer draws clk i s =
    (case fr_claim_one (clk i) s of
       (None, s') \<Rightarrow> Some (i, s')
     | (Some row, s') \<Rightarrow> drain_once re mailer draws clk (Suc i) (fr_process_row re mailer (draws i) row s'))"

section \<open>Escaping\<close>

lemma html_escape_bytes: "html_escape t = concat (map escape_byte t)"
  by (induction t) (auto simp: html_escape_def replace_byte_def)

lemma html_escape_safe: "c \<in> set (html_escape t) \<Longrightarrow> c \<notin> {CHR ''<'', CHR ''>'', CHR 0x22, CHR 0x27}"
  unfolding html_escape_bytes by (auto split: if_splits)

section \<open>The contract of a mailer\<close>

text \<open>Sending a mail touches the outbox at most.\<close>

locale mail_sender =
  fixes send :: mailer
  assumes outbox_only: "send m s = (r, s') \<Longrightarrow> \<exists>rows. s' = s\<lparr>email_outbox := rows\<rparr>"
begin

lemma send_keeps:
  assumes "\<And>s x. part (s\<lparr>email_outbox := x\<rparr>) = part s"
  shows "part (snd (send m s)) = part s"
  using outbox_only [of m s "fst (send m s)" "snd (send m s)"] assms by auto

lemma dispatch_keeps:
  assumes "\<And>s x. part (s\<lparr>email_outbox := x\<rparr>) = part s" "\<And>s x. part (s\<lparr>audit := x\<rparr>) = part s"
  shows "part (dispatch_reset_mail re send rd user normalized plaintext s) = part s"
proof -
  have "part (emit cx at actor ev s') = part s'" for cx at actor ev s'
    by (simp add: emit_def assms(2))
  moreover have "part s' = part s" if "send m s = (r, s')" for m r s'
    using send_keeps [of part m s] assms(1) that by simp
  ultimately show ?thesis
    by (simp add: dispatch_reset_mail_def split: option.splits prod.splits sum.splits)
qed

lemma notify_keeps:
  assumes "\<And>s x. part (s\<lparr>email_outbox := x\<rparr>) = part s"
  shows "part (notify_after_reset re send row s) = part s"
  using send_keeps [of part] assms by (simp add: notify_after_reset_def notify_password_changed_def split: option.splits)

text \<open>A request either adds no link, or one for an eligible user.\<close>

lemma request_reset_links:
  assumes "request_reset re send rd email ip s = (r, s')"
  shows "password_reset_tokens s' = password_reset_tokens s
    \<or> (\<exists>u plaintext. password_holder (normalize_email (re_lower re) email) s = Some u \<and> \<not> u_is_disabled u \<and> \<not> u_is_deleted u
      \<and> count_active_for_user (u_id u) (rd_now rd) s < 3
      \<and> mint_random_token re (rd_bytes rd) = Inr (plaintext, sha256 (re_digest re) plaintext)
      \<and> \<not> list_ex (\<lambda>q. prt_id q = rd_token_id rd \<or> prt_token_hash q = sha256 (re_digest re) plaintext) (password_reset_tokens s)
      \<and> password_reset_tokens s' = password_reset_tokens s @ [reset_row rd (u_id u) (sha256 (re_digest re) plaintext) ip])"
proof (cases "password_holder (normalize_email (re_lower re) email) s")
  case None
  then show ?thesis
    using assms by (auto simp: request_reset_def emit_def)
next
  case (Some u)
  consider "u_is_disabled u \<or> u_is_deleted u" | "count_active_for_user (u_id u) (rd_now rd) s \<ge> 3"
    | "\<not> u_is_disabled u" "\<not> u_is_deleted u" "count_active_for_user (u_id u) (rd_now rd) s < 3"
    by linarith
  then show ?thesis
  proof cases
    case 3
    show ?thesis
    proof (cases "rd_bytes rd")
      case None
      then show ?thesis
        using assms Some 3 by (simp add: request_reset_def MAX_OUTSTANDING_TOKENS_PER_USER_def mint_random_token_def Let_def)
    next
      case bytes: (Some b)
      define plaintext where "plaintext = re_base64url re b"
      define row where "row = reset_row rd (u_id u) (sha256 (re_digest re) plaintext) ip"
      have mint: "mint_random_token re (rd_bytes rd) = Inr (plaintext, sha256 (re_digest re) plaintext)"
        by (simp add: mint_random_token_def bytes plaintext_def Let_def)
      have run: "(case with_tx (reset_insert_with_within_tx row False) s of
                 (Inl e, s') \<Rightarrow> (Inl (Store e), s')
               | (Inr _, s') \<Rightarrow> (Inr (), dispatch_reset_mail re send rd u (normalize_email (re_lower re) email) plaintext s')) = (r, s')"
        using assms Some 3 mint by (simp add: request_reset_def MAX_OUTSTANDING_TOKENS_PER_USER_def Let_def row_def)
      show ?thesis
      proof (cases "list_ex (\<lambda>q. prt_id q = prt_id row \<or> prt_token_hash q = prt_token_hash row) (password_reset_tokens s)")
        case True
        then show ?thesis
          using run by (simp add: with_tx_def reset_insert_with_within_tx_def)
      next
        case False
        then have "password_reset_tokens s' = password_reset_tokens s @ [row\<lparr> prt_provisioning := False \<rparr>]"
          using run dispatch_keeps [of password_reset_tokens] by (auto simp: with_tx_def reset_insert_with_within_tx_def)
        moreover have "row\<lparr> prt_provisioning := False \<rparr> = row"
          by (simp add: row_def reset_row_def)
        ultimately show ?thesis
          using False Some 3 mint by (intro disjI2 exI [of _ u] exI [of _ plaintext]) (simp add: row_def reset_row_def)
      qed
    qed
  qed (use assms Some in \<open>auto simp: request_reset_def emit_def MAX_OUTSTANDING_TOKENS_PER_USER_def Let_def split: if_splits\<close>)
qed

lemma request_reset_keeps:
  assumes "\<And>s x. part (s\<lparr>email_outbox := x\<rparr>) = part s" "\<And>s x. part (s\<lparr>audit := x\<rparr>) = part s"
    "\<And>s x. part (s\<lparr>password_reset_tokens := x\<rparr>) = part s"
  shows "part (snd (request_reset re send rd email ip s)) = part s"
proof -
  have "part s' = part s" if "with_tx (reset_insert_with_within_tx row False) s = (r, s')" for row r s'
    using that assms(3) by (auto simp: with_tx_def reset_insert_with_within_tx_def split: if_splits)
  then show ?thesis
    using dispatch_keeps [of part] assms(1,2)
    by (simp add: request_reset_def emit_def Let_def split: option.splits sum.splits prod.splits)
qed

end

interpretation outbox_mailer: mail_sender "outbox_send ae jc nonce1 nonce2 oid now" for ae jc nonce1 nonce2 oid now
proof unfold_locales
  fix m s r s' assume "outbox_send ae jc nonce1 nonce2 oid now m s = (r, s')"
  moreover have "\<exists>rows. t = t\<lparr>email_outbox := rows\<rparr>" for t :: store
    by (intro exI [of _ "email_outbox t"]) simp
  ultimately show "\<exists>rows. s' = s\<lparr>email_outbox := rows\<rparr>"
    by (auto simp: outbox_send_def with_tx_def enqueue_within_tx_def split: sum.splits option.splits if_splits)
qed

interpretation smtp_mailer: mail_sender "\<lambda>m s. (smtp_send ae run ehlo m s, s)" for ae run ehlo
proof unfold_locales
  fix m s r s' assume "(smtp_send ae run ehlo m s, s) = (r, s')"
  then show "\<exists>rows. s' = s\<lparr>email_outbox := rows\<rparr>"
    by (intro exI [of _ "email_outbox s"]) simp
qed

section \<open>Draining the requests\<close>

definition requests_keyed :: "store \<Rightarrow> bool" where
  "requests_keyed s = distinct (map fr_id (forgot_password_requests s))"

definition pending_requests :: "store \<Rightarrow> forgot_password_request_row list" where
  "pending_requests s = filter (\<lambda>r. fr_state r = FrPending) (forgot_password_requests s)"

lemma oldest_in: "oldest rs = Some r \<Longrightarrow> r \<in> set rs"
  by (induction rs) (auto split: option.splits if_splits)

lemma oldest_None: "oldest rs = None \<longleftrightarrow> rs = []"
  by (cases rs) (auto split: option.splits)

lemma delete_updated:
  "(\<And>q. k (f q) = k q) \<Longrightarrow> delete_where (\<lambda>r. k r = i) (update_where (\<lambda>q. k q = i) f xs) = delete_where (\<lambda>r. k r = i) xs"
  by (induction xs) (auto simp: delete_where_def update_where_def)

text \<open>Processing a claimed request takes its row out of the table and leaves the others.\<close>

lemma processed_requests:
  assumes "mail_sender mailer" "fr_claim_one now s = (Some row, t)"
  shows "forgot_password_requests (fr_process_row re mailer rd row t) =
    delete_where (\<lambda>r. fr_id r = fr_id row) (forgot_password_requests s)"
    and "row \<in> set (pending_requests s)"
proof -
  have old: "oldest (pending_requests s) = Some row" and t: "forgot_password_requests t = update_where (\<lambda>q. fr_id q = fr_id row)
      (\<lambda>q. q\<lparr> fr_state := FrProcessing, fr_updated_at := now \<rparr>) (forgot_password_requests s)"
    using assms(2) by (auto simp: fr_claim_one_def pending_requests_def split: option.splits)
  show "row \<in> set (pending_requests s)"
    using oldest_in [OF old] .
  have "forgot_password_requests (snd (request_reset re mailer rd (fr_email row) (fr_requester_ip row) t)) = forgot_password_requests t"
    using mail_sender.request_reset_keeps [OF assms(1), of forgot_password_requests] by simp
  then show "forgot_password_requests (fr_process_row re mailer rd row t) =
      delete_where (\<lambda>r. fr_id r = fr_id row) (forgot_password_requests s)"
    using delete_updated [of fr_id "\<lambda>q. q\<lparr> fr_state := FrProcessing, fr_updated_at := now \<rparr>"]
    by (simp add: fr_process_row_def fr_delete_def t)
qed

lemma filter_delete_one:
  assumes "distinct (map k xs)" "x \<in> set xs" "P x"
  shows "length (filter P xs) = Suc (length (filter P (delete_where (\<lambda>y. k y = k x) xs)))"
  using assms
proof (induction xs)
  case (Cons a xs)
  show ?case
  proof (cases "a = x")
    case True
    then have "delete_where (\<lambda>y. k y = k x) xs = xs"
      using Cons.prems(1) by (auto simp: delete_where_def filter_id_conv image_iff)
    then show ?thesis
      using True Cons.prems(3) by (simp add: delete_where_def)
  next
    case False
    then have "k a \<noteq> k x"
      using Cons.prems(1,2) by (auto simp: image_iff)
    then show ?thesis
      using Cons False by (auto simp: delete_where_def)
  qed
qed simp

lemma drain_once_returns:
  assumes "mail_sender mailer" "requests_keyed s"
  shows "\<exists>s'. drain_once re mailer draws clk i s = Some (i + length (pending_requests s), s') \<and> pending_requests s' = []
    \<and> forgot_password_requests s' = filter (\<lambda>r. fr_state r = FrProcessing) (forgot_password_requests s)"
  using assms(2)
proof (induction "length (pending_requests s)" arbitrary: s i)
  case 0
  then have none: "pending_requests s = []"
    by simp
  then have "fr_claim_one (clk i) s = (None, s)"
    by (simp add: fr_claim_one_def pending_requests_def)
  then have "drain_once re mailer draws clk i s = Some (i, s)"
    by (subst drain_once.simps) simp
  moreover have "forgot_password_requests s = filter (\<lambda>r. fr_state r = FrProcessing) (forgot_password_requests s)"
    using none by (intro sym [OF filter_True]) (auto simp: pending_requests_def filter_empty_conv intro: forgot_password_state.exhaust)
  ultimately show ?case
    using none by simp
next
  case (Suc n)
  then obtain row t where claim: "fr_claim_one (clk i) s = (Some row, t)"
    using oldest_None [of "pending_requests s"] by (fastforce simp: fr_claim_one_def pending_requests_def split: option.splits)
  define s1 where "s1 = fr_process_row re mailer (draws i) row t"
  have rows: "forgot_password_requests s1 = delete_where (\<lambda>r. fr_id r = fr_id row) (forgot_password_requests s)"
    and row: "row \<in> set (forgot_password_requests s)" "fr_state row = FrPending"
    using processed_requests [OF assms(1) claim] by (auto simp: s1_def pending_requests_def)
  have keyed: "requests_keyed s1"
    using Suc.prems unfolding requests_keyed_def rows by (auto simp: delete_where_def distinct_map inj_on_def)
  have less: "length (pending_requests s) = Suc (length (pending_requests s1))"
    using filter_delete_one [of fr_id "forgot_password_requests s" row "\<lambda>r. fr_state r = FrPending"] Suc.prems row
    by (simp add: pending_requests_def rows requests_keyed_def)
  have "fr_state r = FrPending" if "r \<in> set (forgot_password_requests s)" "fr_id r = fr_id row" for r
    using that row Suc.prems by (auto simp: requests_keyed_def distinct_map inj_on_def)
  then have rest: "filter (\<lambda>r. fr_state r = FrProcessing) (forgot_password_requests s1)
      = filter (\<lambda>r. fr_state r = FrProcessing) (forgot_password_requests s)"
    unfolding rows delete_where_def filter_filter by (intro filter_cong) auto
  have "drain_once re mailer draws clk i s = drain_once re mailer draws clk (Suc i) s1"
    using claim by (subst drain_once.simps) (simp add: s1_def)
  then show ?case
    using Suc.hyps(1) [of s1 "Suc i"] Suc.hyps(2) less keyed rest by simp
qed

section \<open>From the mail to the new password\<close>

lemma tx_bind_eq: "m s = Inr (a, t) \<Longrightarrow> tx_bind m f s = f a t"
  by (simp add: tx_bind_def)

lemma tx_guard_True: "tx_guard True e s = Inr ((), s)"
  by (simp add: tx_guard_def)

lemma clear_lockout_returns:
  assumes "List.find (by_user_id uid) (users s) = Some u"
  shows "\<exists>found s'. clear_password_lockout_within_tx uid now s = Inr (found, s') \<and> password_failures found = u_failed_login_count u"
  using assms by (cases "u_mfa_failure_count u \<ge> MFA_FAILURE_LOCKOUT_THRESHOLD")
    (simp_all add: clear_password_lockout_within_tx_def read_user_def get_user_def ok_or_def tx_bind_def tx_return_def update_user_def Let_def)

lemma reset_sweep_returns:
  "\<exists>s'. tx_bind (session_revoke_all_for_user_within_tx uid now) (\<lambda>_.
    tx_bind (rt_revoke_all_for_user_within_tx uid now) (\<lambda>_.
    tx_bind (revoke_outstanding_for_user_within_tx uid (Some k) now) (\<lambda>_. tx_return v))) s = Inr (v, s')"
  by (simp add: tx_bind_def tx_return_def session_revoke_all_for_user_within_tx_def rt_revoke_all_for_user_within_tx_def
      update_sessions_def revoke_rows_where_def revoke_outstanding_for_user_within_tx_def Let_def)

lemma reset_body_succeeds:
  assumes "reset_keyed s" "row \<in> set (password_reset_tokens s)" "prt_id row = k" "reset_outstanding t row"
    and "List.find (by_user_id uid) (users s) = Some u" "user_active u" "u_source u = Local"
    and "\<bar>u_failed_login_count u\<bar> < 10 ^ 19"
  shows "\<exists>v s'. consume_and_reset_password cx at uid k cred t warned s = (Inr v, s')"
proof -
  let ?p = "\<lambda>r. prt_id r = k \<and> reset_outstanding t r"
  have some: "affected ?p (password_reset_tokens s) \<noteq> 0"
    using affected_pos_iff [of ?p "password_reset_tokens s"] assms(2-4) by auto
  have "\<exists>q. List.find (\<lambda>r. prt_id r = k) (update_where ?p (\<lambda>r. r\<lparr> prt_consumed_at := Some t \<rparr>) (password_reset_tokens s)) = Some q"
    using assms(2,3) by (subst find_update_where) (auto simp: find_None_iff not_None_eq [symmetric])
  then obtain q where q: "List.find (\<lambda>r. prt_id r = k)
      (update_where ?p (\<lambda>r. r\<lparr> prt_consumed_at := Some t \<rparr>) (password_reset_tokens s)) = Some q"
    by blast
  define s2 where "s2 = s\<lparr>password_reset_tokens := update_where ?p (\<lambda>r. r\<lparr> prt_consumed_at := Some t \<rparr>) (password_reset_tokens s)\<rparr>"
  obtain s3 where cred: "credential_upsert_within_tx cred s2 = Inr ((), s3)" and users3: "users s3 = users s"
    by (simp add: credential_upsert_within_tx_def s2_def)
  obtain found s4 where clear: "clear_password_lockout_within_tx uid t s3 = Inr (found, s4)"
    and failures: "password_failures found = u_failed_login_count u"
    using clear_lockout_returns [of uid s3 u t] users3 assms(5) by auto
  obtain s1 where sweep: "tx_bind (session_revoke_all_for_user_within_tx uid t) (\<lambda>_.
    tx_bind (rt_revoke_all_for_user_within_tx uid t) (\<lambda>_.
    tx_bind (revoke_outstanding_for_user_within_tx uid (Some k) t) (\<lambda>_.
      tx_return (found, U10_event uid (prt_issued_via q) warned (cleared_attribute found))))) s4
      = Inr ((found, U10_event uid (prt_issued_via q) warned (cleared_attribute found)), s1)"
    using reset_sweep_returns [of uid t k "(found, U10_event uid (prt_issued_via q) warned (cleared_attribute found))" s4]
    by (elim exE)
  have mark: "mark_consumed_within_tx k t s = Inr ((), s2)"
    using some by (simp add: mark_consumed_within_tx_def found_or_def Let_def s2_def)
  have act: "is_active_local_within_tx uid s2 = Inr (True, s2)"
    using assms(5-7) by (simp add: is_active_local_within_tx_def read_user_def get_user_def ok_or_def tx_bind_def tx_return_def s2_def)
  have org: "origin_within_tx k s2 = Inr (prt_issued_via q, s2)"
    using q by (simp add: origin_within_tx_def s2_def)
  have body: "consume_and_reset_password_body uid k cred t warned s =
      Inr ((found, U10_event uid (prt_issued_via q) warned (cleared_attribute found)), s1)"
    unfolding consume_and_reset_password_body_def
    by (simp add: tx_bind_eq [where m = "mark_consumed_within_tx k t", OF mark]
        tx_bind_eq [where m = "is_active_local_within_tx uid", OF act] tx_bind_eq [where m = "tx_guard True e" for e, OF tx_guard_True]
        tx_bind_eq [where m = "origin_within_tx k", OF org] tx_bind_eq [where m = "credential_upsert_within_tx cred", OF cred]
        tx_bind_eq [where m = "clear_password_lockout_within_tx uid t", OF clear] sweep)
  have "length (dec_int (password_failures found)) \<le> 20"
    using length_dec_int_bound [of 19 "password_failures found"] assms(8) failures by simp
  then have "attributes_ok ([(''origin'', origin_as_str (prt_issued_via q))] @ (if warned then [(''hibp'', ''warned'')] else [])
       @ opt_attr ''lockout_cleared'' (map_option dec_int (cleared_attribute found)))"
    by (cases "prt_issued_via q"; cases "cleared found") (simp_all add: attribute_bounds cleared_attribute_def opt_attr_def)
  then have "checked_attributes (U10_event uid (prt_issued_via q) warned (cleared_attribute found)) =
      Inr ([(''origin'', origin_as_str (prt_issued_via q))] @ (if warned then [(''hibp'', ''warned'')] else [])
       @ opt_attr ''lockout_cleared'' (map_option dec_int (cleared_attribute found)))"
    unfolding U10_event_def by (intro checked_ok_event) simp_all
  then show ?thesis
    unfolding consume_and_reset_password_def using u10.class_a_commit [OF body] by blast
qed

lemma reset_password_succeeds:
  assumes "mail_sender mailer" "password_env_ok pe" "reset_keyed s" "row \<in> set (password_reset_tokens s)"
    and "reset_find_by_hash (sha256 (re_digest re) token) s = Some row" "reset_outstanding now row"
    and "List.find (by_user_id (prt_user_id row)) (users s) = Some u" "user_active u" "u_source u = Local"
    and "\<bar>u_failed_login_count u\<bar> < 10 ^ 19"
    and "check_password_policy pw min_len = Inr ()" "\<nexists>n. enforce_hibp mode client pw = HibpBlocked n"
    and "hash_password pe salt pw = Inr new_hash"
  shows "\<exists>c s' cred. reset_password re pe mailer client mode salt at token pw min_len now s s = (Inr c, s')
    \<and> credential_get (prt_user_id row) s' = Inr cred \<and> verify_password pe pw (cr_password_hash cred) = Inr ()"
proof -
  define cred where "cred = \<lparr> cr_user_id = prt_user_id row, cr_password_hash = new_hash, cr_updated_at = now \<rparr>"
  define warned where "warned = (enforce_hibp mode client pw \<noteq> HibpAllowed)"
  obtain v s1 where run: "consume_and_reset_password (re_digest re) at (prt_user_id row) (prt_id row) cred now warned s = (Inr v, s1)"
    using reset_body_succeeds [OF assms(3,4) refl assms(6-10)] by blast
  have "\<not> link_refused now row"
    using assms(6) by (auto simp: link_refused_def reset_outstanding_def)
  then have reset: "reset_password re pe mailer client mode salt at token pw min_len now s s
      = (Inr (completion_of v), notify_after_reset re mailer row s1)"
    using assms(5,11,13) run unfolding reset_password_def cred_def warned_def
    by (cases "enforce_hibp mode client pw") (use assms(12) in auto)
  obtain ev b a where "consume_and_reset_password_body (prt_user_id row) (prt_id row) cred now warned s = Inr ((v, ev), b)"
    and s1: "s1 = b\<lparr>audit := a\<rparr>"
    using run unfolding consume_and_reset_password_def by (rule u10.class_a_success)
  then have creds: "credentials s1 = upserted cred (credentials s)"
    using reset_body_Inr by auto
  have "credentials (notify_after_reset re mailer row s1) = credentials s1"
    using mail_sender.notify_keeps [OF assms(1), of credentials] by simp
  moreover have "List.find (\<lambda>c. cr_user_id c = prt_user_id row) (upserted cred (credentials s)) = Some cred"
  proof -
    have "List.find (\<lambda>c. cr_user_id c = prt_user_id row) (upserted cred (credentials s)) \<noteq> None"
      using upserted_in [of cred "credentials s"] by (auto simp: find_None_iff cred_def)
    then obtain c where c: "List.find (\<lambda>c. cr_user_id c = prt_user_id row) (upserted cred (credentials s)) = Some c"
      by blast
    then show ?thesis
      using upserted_only [of c cred "credentials s"] find_Some_in [OF c] by (simp add: cred_def)
  qed
  ultimately have "credential_get (prt_user_id row) (notify_after_reset re mailer row s1) = Inr cred"
    by (simp add: credential_get_def ok_or_def creds)
  moreover have "verify_password pe pw (cr_password_hash cred) = Inr ()"
    using verify_hashed [OF assms(2,13), of pw] by (simp add: cred_def)
  ultimately show ?thesis
    using reset by blast
qed

section \<open>A concrete account\<close>

definition demo_texts :: mail_texts where
  "demo_texts = \<lparr> mt_subject_reset = ''r'', mt_subject_changed = ''c'', mt_greeting_suffix = [], mt_reset_intro = ''i'',
     mt_reset_link_label = ''l'', mt_reset_disregard = ''d'', mt_reset_token_hint = (\<lambda>p. p), mt_changed_intro = ''i'',
     mt_changed_warning = ''w'', mt_changed_link = ''l'' \<rparr>"

definition demo_reset_env :: reset_env where
  "demo_reset_env = \<lparr> re_digest = demo_env, re_lower = (\<lambda>t. t), re_base64url = (\<lambda>b. b), re_issuer = ''https://id'',
     re_texts = (\<lambda>_. demo_texts) \<rparr>"

definition demo_reset_draws :: reset_draws where
  "demo_reset_draws = \<lparr> rd_bytes = Some ''tok'', rd_token_id = ''t'', rd_now = 0, rd_at = 0 \<rparr>"

definition demo_holder :: store where
  "demo_holder = empty_store\<lparr> users := [(demo_user ''u'' User)\<lparr> u_email := Some ''a@b'', u_email_normalized := Some ''a@b'' \<rparr>],
     credentials := [\<lparr> cr_user_id = ''u'', cr_password_hash = ''old'', cr_updated_at = 0 \<rparr>],
     forgot_password_requests := [\<lparr> fr_id = ''f'', fr_state = FrPending, fr_email = ''a@b'', fr_requester_ip = None,
       fr_created_at = 0, fr_updated_at = 0 \<rparr>] \<rparr>"

definition demo_mailer :: mailer where
  "demo_mailer m s = (smtp_send demo_aead (\<lambda>_ _ _ _. None) ''sui-id'' m s, s)"

lemma demo_mailer_ok: "mail_sender demo_mailer"
  using smtp_mailer.mail_sender_axioms [of demo_aead "\<lambda>_ _ _ _. None" "''sui-id''"] by (simp add: demo_mailer_def [abs_def])

lemma demo_normalized: "normalize_email (re_lower demo_reset_env) ''a@b'' = ''a@b''"
  by (simp add: normalize_email_def demo_reset_env_def str_trim_def utf8_chars_ascii is_whitespace_ascii byte_def)

lemma demo_holder_found:
  "password_holder ''a@b'' demo_holder = Some ((demo_user ''u'' User)\<lparr> u_email := Some ''a@b'', u_email_normalized := Some ''a@b'' \<rparr>)"
  by (simp add: password_holder_def find_by_email_normalized_def demo_holder_def demo_user_def credential_get_def ok_or_def is_ok_def)

lemma demo_request:
  "\<exists>s1. request_reset demo_reset_env demo_mailer demo_reset_draws ''a@b'' None demo_holder = (Inr (), s1)
    \<and> password_reset_tokens s1 = [reset_row demo_reset_draws ''u'' (sha256 demo_env ''tok'') None]"
proof -
  have "count_active_for_user ''u'' 0 demo_holder = 0"
    by (simp add: count_active_for_user_def demo_holder_def empty_store_def affected_def)
  moreover have "password_reset_tokens demo_holder = []" "smtp_config demo_holder = None"
    by (simp_all add: demo_holder_def empty_store_def)
  moreover have "u_id ((demo_user ''u'' User)\<lparr> u_email := Some ''a@b'', u_email_normalized := Some ''a@b'' \<rparr>) = ''u''"
    "\<not> u_is_disabled ((demo_user ''u'' User)\<lparr> u_email := Some ''a@b'', u_email_normalized := Some ''a@b'' \<rparr>)"
    "\<not> u_is_deleted ((demo_user ''u'' User)\<lparr> u_email := Some ''a@b'', u_email_normalized := Some ''a@b'' \<rparr>)"
    by (simp_all add: demo_user_def)
  ultimately show ?thesis
    unfolding request_reset_def Let_def demo_normalized demo_holder_found
    by (simp add: Let_def mint_random_token_def demo_reset_draws_def demo_reset_env_def MAX_OUTSTANDING_TOKENS_PER_USER_def with_tx_def
        reset_insert_with_within_tx_def dispatch_reset_mail_def smtp_config_get_def emit_def reset_row_def)
qed

section \<open>Properties\<close>

text \<open>The forgot-password worker finishes.  With any mailer that only adds to the outbox, one drain processes every
  pending request exactly once, in at most as many rounds as there are pending requests, and leaves only
  the requests another worker has claimed.\<close>

theorem forgot_password_drain_finishes:
  assumes "mail_sender mailer" "requests_keyed s"
  shows "\<exists>s'. drain_once re mailer draws clk 0 s = Some (length (pending_requests s), s') \<and> pending_requests s' = []
    \<and> forgot_password_requests s' = filter (\<lambda>r. fr_state r = FrProcessing) (forgot_password_requests s)"
  using drain_once_returns [OF assms, of re draws clk 0] by simp

theorem forgot_password_drain_finishes_witness:
  "mail_sender demo_mailer \<and> requests_keyed demo_holder
    \<and> (\<exists>s'. drain_once demo_reset_env demo_mailer (\<lambda>_. demo_reset_draws) (\<lambda>_. 0) 0 demo_holder = Some (1, s')
        \<and> forgot_password_requests s' = [])"
proof -
  have keyed: "requests_keyed demo_holder"
    by (simp add: requests_keyed_def demo_holder_def)
  have "length (pending_requests demo_holder) = 1"
    "filter (\<lambda>r. fr_state r = FrProcessing) (forgot_password_requests demo_holder) = []"
    by (simp_all add: pending_requests_def demo_holder_def)
  then show ?thesis
    using forgot_password_drain_finishes [OF demo_mailer_ok keyed, of demo_reset_env "\<lambda>_. demo_reset_draws" "\<lambda>_. 0"] demo_mailer_ok keyed
    by auto
qed

text \<open>C21: Who gets a reset link by mail, and how many.  A request leaves the links alone or adds one, for an active local
  account that already has a password and whose normalised address is the one asked for; the link
  lives 30 minutes, only the digest of its token is stored, and the account then has at most three
  outstanding links.\<close>

theorem reset_link_eligibility:
  assumes "mail_sender mailer" "request_reset re mailer rd email ip s = (r, s')"
  shows "password_reset_tokens s' = password_reset_tokens s
    \<or> (\<exists>u row. u_email_normalized u = Some (normalize_email (re_lower re) email) \<and> u \<in> set (users s) \<and> u_source u = Local
      \<and> user_active u \<and> is_ok (credential_get (u_id u) s)
      \<and> password_reset_tokens s' = password_reset_tokens s @ [row] \<and> prt_user_id row = u_id u
      \<and> prt_issued_via row = OriginEmail \<and> prt_expires_at row = rd_now rd + minutes 30
      \<and> (\<exists>plaintext. mint_random_token re (rd_bytes rd) = Inr (plaintext, prt_token_hash row)
          \<and> prt_token_hash row = sha256 (re_digest re) plaintext)
      \<and> count_active_for_user (u_id u) (rd_now rd) s' \<le> 3)"
proof -
  from mail_sender.request_reset_links [OF assms]
  show ?thesis
  proof (elim disjE exE conjE)
    fix u plaintext
    assume holder: "password_holder (normalize_email (re_lower re) email) s = Some u" and act: "\<not> u_is_disabled u" "\<not> u_is_deleted u"
      and few: "count_active_for_user (u_id u) (rd_now rd) s < 3"
      and mint: "mint_random_token re (rd_bytes rd) = Inr (plaintext, sha256 (re_digest re) plaintext)"
      and links: "password_reset_tokens s' = password_reset_tokens s @ [reset_row rd (u_id u) (sha256 (re_digest re) plaintext) ip]"
    have u: "u \<in> set (users s)" "u_email_normalized u = Some (normalize_email (re_lower re) email)" "u_source u = Local"
      "is_ok (credential_get (u_id u) s)"
      using holder find_Some_in by (fastforce simp: password_holder_def find_by_email_normalized_def split: option.splits if_splits)+
    have "count_active_for_user (u_id u) (rd_now rd) s' \<le> 3"
      using few links by (auto simp: count_active_for_user_def affected_def)
    then show ?thesis
      using u act mint links by (intro disjI2 exI [of _ u] exI) (auto simp: reset_row_def user_active_def DEFAULT_TOKEN_TTL_def)
  qed blast
qed

theorem reset_link_eligibility_witness:
  "\<exists>s1 row. request_reset demo_reset_env demo_mailer demo_reset_draws ''a@b'' None demo_holder = (Inr (), s1)
    \<and> password_reset_tokens s1 = [row] \<and> prt_user_id row = ''u'' \<and> prt_expires_at row = minutes 30"
proof -
  obtain s1 where run: "request_reset demo_reset_env demo_mailer demo_reset_draws ''a@b'' None demo_holder = (Inr (), s1)"
    and links: "password_reset_tokens s1 = [reset_row demo_reset_draws ''u'' (sha256 demo_env ''tok'') None]"
    using demo_request by blast
  have "password_reset_tokens demo_holder = []" "rd_now demo_reset_draws = 0"
    by (simp_all add: demo_holder_def empty_store_def demo_reset_draws_def)
  then show ?thesis
    using reset_link_eligibility [OF demo_mailer_ok run] run links by (auto simp: reset_row_def)
qed

text \<open>The mailed link works.  The token of a link that a request has just added resets the password: until 30 minutes
  have passed, a new password that meets the policy and is not blocked as breached is accepted, and it
  is then the one that signs the user in.\<close>

theorem mailed_link_resets_password:
  assumes "mail_sender mailer" "password_env_ok pe" "reset_keyed s"
    and "request_reset re mailer rd email ip s = (r, s1)" "password_reset_tokens s1 \<noteq> password_reset_tokens s"
    and "mint_random_token re (rd_bytes rd) = Inr (token, h)"
    and "password_holder (normalize_email (re_lower re) email) s = Some u" "List.find (by_user_id (u_id u)) (users s) = Some u"
    and "\<bar>u_failed_login_count u\<bar> < 10 ^ 19"
    and "now < rd_now rd + minutes 30"
    and "check_password_policy pw min_len = Inr ()" "\<nexists>n. enforce_hibp mode client pw = HibpBlocked n"
    and "hash_password pe salt pw = Inr new_hash"
  shows "\<exists>c s2 cred. reset_password re pe mailer client mode salt at token pw min_len now s1 s1 = (Inr c, s2)
    \<and> credential_get (u_id u) s2 = Inr cred \<and> verify_password pe pw (cr_password_hash cred) = Inr ()"
proof -
  define row where "row = reset_row rd (u_id u) (sha256 (re_digest re) token) ip"
  have h: "h = sha256 (re_digest re) token"
    using assms(6) by (auto simp: mint_random_token_def Let_def split: option.splits)
  have act: "\<not> u_is_disabled u" "\<not> u_is_deleted u"
    and fresh: "\<not> list_ex (\<lambda>q. prt_id q = rd_token_id rd \<or> prt_token_hash q = sha256 (re_digest re) token) (password_reset_tokens s)"
    and links: "password_reset_tokens s1 = password_reset_tokens s @ [row]"
    using mail_sender.request_reset_links [OF assms(1,4)] assms(5-7) by (auto simp: row_def)
  have "reset_keyed s1"
    using assms(3) fresh by (auto simp: reset_keyed_def links row_def reset_row_def list_ex_iff)
  moreover have "reset_find_by_hash (sha256 (re_digest re) token) s1 = Some row"
    using fresh by (simp add: reset_find_by_hash_def links find_append_miss list_ex_iff row_def reset_row_def)
  moreover have "reset_outstanding now row"
    using assms(10) by (simp add: reset_outstanding_def row_def reset_row_def DEFAULT_TOKEN_TTL_def)
  moreover have "users s1 = users s"
    using mail_sender.request_reset_keeps [OF assms(1), of users re rd email ip s] assms(4) by simp
  moreover have "u_source u = Local" "user_active u"
    using assms(7) act by (auto simp: password_holder_def user_active_def split: option.splits if_splits)
  moreover have "prt_user_id row = u_id u"
    by (simp add: row_def reset_row_def)
  ultimately show ?thesis
    using reset_password_succeeds [OF assms(1,2), of s1 row re token now u pw min_len mode client salt new_hash at] assms(8,9,11-13) links
    by simp
qed

theorem mailed_link_resets_password_witness:
  "\<exists>s1 c s2 cred. reset_password demo_reset_env demo_password demo_mailer None HibpOff ''salt'' 0 ''tok'' ''new'' 3 (seconds 60) s1 s1
      = (Inr c, s2) \<and> credential_get ''u'' s2 = Inr cred \<and> verify_password demo_password ''new'' (cr_password_hash cred) = Inr ()"
proof -
  let ?u = "(demo_user ''u'' User)\<lparr> u_email := Some ''a@b'', u_email_normalized := Some ''a@b'' \<rparr>"
  obtain s1 where run: "request_reset demo_reset_env demo_mailer demo_reset_draws ''a@b'' None demo_holder = (Inr (), s1)"
    and links: "password_reset_tokens s1 = [reset_row demo_reset_draws ''u'' (sha256 demo_env ''tok'') None]"
    using demo_request by blast
  have new: "password_reset_tokens s1 \<noteq> password_reset_tokens demo_holder"
    using links by (simp add: demo_holder_def empty_store_def)
  have keyed: "reset_keyed demo_holder"
    by (simp add: reset_keyed_def demo_holder_def empty_store_def)
  have mint: "mint_random_token demo_reset_env (rd_bytes demo_reset_draws) = Inr (''tok'', sha256 demo_env ''tok'')"
    by (simp add: mint_random_token_def demo_reset_env_def demo_reset_draws_def Let_def)
  have holder: "password_holder (normalize_email (re_lower demo_reset_env) ''a@b'') demo_holder = Some ?u"
    unfolding demo_normalized by (rule demo_holder_found)
  have user: "List.find (by_user_id (u_id ?u)) (users demo_holder) = Some ?u" "\<bar>u_failed_login_count ?u\<bar> < 10 ^ 19" "u_id ?u = ''u''"
    by (simp_all add: demo_holder_def demo_user_def by_user_id_def)
  have now: "seconds 60 < rd_now demo_reset_draws + minutes 30"
    by (simp add: demo_reset_draws_def minutes_def seconds_def nanos_def)
  have pol: "check_password_policy ''new'' 3 = Inr ()"
    by (simp add: check_password_policy_Inr_iff utf8_chars_ascii byte_def)
  have hibp: "\<nexists>n. enforce_hibp HibpOff None ''new'' = HibpBlocked n"
    by (simp add: enforce_hibp_def)
  obtain new_hash where hash: "hash_password demo_password ''salt'' ''new'' = Inr new_hash"
    by (simp add: hash_password_def demo_password_def)
  show ?thesis
    using mailed_link_resets_password [OF demo_mailer_ok demo_password_ok keyed run new mint holder user(1,2) now pol hibp hash, of 0]
    unfolding user(3) by blast
qed

end
