(* ===== verification/Json_Doc.thy ===== *)
theory Json_Doc
  imports Users
begin

text \<open>
  Untrusted JSON documents: \<open>http/json_shape.rs\<close>, \<open>http/response_bounds.rs\<close> and the JWKS rules of
  \<open>http/jwks.rs\<close> (crate \<open>sui-id\<close>).  The parser is serde's and a parameter: it gives the document as
  written, member names repeated where the text repeats them.  \<open>value_of\<close> is what \<open>serde_json::Value\<close>
  keeps of it: one value per name, the last one, in the order of the names.  base64url and the conversion of a
  key (\<open>jsonwebtoken\<close>) are parameters too.
\<close>

section \<open>Results in sequence\<close>

lemma case_sum_Inr: "(case m of Inl e \<Rightarrow> Inl e | Inr x \<Rightarrow> f x) = Inr y \<longleftrightarrow> (\<exists>x. m = Inr x \<and> f x = Inr y)"
  by (cases m) simp_all

lemma case_error_Inr: "(case m of Some e \<Rightarrow> Inl (g e) | None \<Rightarrow> r) = Inr y \<longleftrightarrow> m = None \<and> r = Inr y"
  by (cases m) simp_all

section \<open>Documents\<close>

datatype json =
    JNull
  | JBool bool
  | JU64 nat
  | JI64 int
  | JF64
  | JString string
  | JArray "json list"
  | JObject "(string \<times> json) list"

fun bytes_less :: "string \<Rightarrow> string \<Rightarrow> bool" where
  "bytes_less xs [] = False"
| "bytes_less [] (y # ys) = True"
| "bytes_less (x # xs) (y # ys) = (byte x < byte y \<or> (x = y \<and> bytes_less xs ys))"

fun map_insert :: "string \<Rightarrow> 'v \<Rightarrow> (string \<times> 'v) list \<Rightarrow> (string \<times> 'v) list" where
  "map_insert k v [] = [(k, v)]"
| "map_insert k v ((k', v') # ms) =
    (if k = k' then (k, v) # ms
     else if bytes_less k k' then (k, v) # (k', v') # ms
     else (k', v') # map_insert k v ms)"

definition collapse :: "(string \<times> 'v) list \<Rightarrow> (string \<times> 'v) list" where
  "collapse ms = foldl (\<lambda>m (k, v). map_insert k v m) [] ms"

primrec value_of :: "json \<Rightarrow> json" where
  "value_of JNull = JNull"
| "value_of (JBool b) = JBool b"
| "value_of (JU64 n) = JU64 n"
| "value_of (JI64 i) = JI64 i"
| "value_of JF64 = JF64"
| "value_of (JString s) = JString s"
| "value_of (JArray xs) = JArray (map value_of xs)"
| "value_of (JObject ms) = JObject (collapse (map (map_prod id value_of) ms))"

fun json_get :: "string \<Rightarrow> json \<Rightarrow> json option" where
  "json_get k (JObject ms) = map_of ms k"
| "json_get k _ = None"

fun as_str :: "json \<Rightarrow> string option" where
  "as_str (JString s) = Some s"
| "as_str _ = None"

fun as_bool :: "json \<Rightarrow> bool option" where
  "as_bool (JBool b) = Some b"
| "as_bool _ = None"

fun as_array :: "json \<Rightarrow> json list option" where
  "as_array (JArray xs) = Some xs"
| "as_array _ = None"

fun is_object :: "json \<Rightarrow> bool" where
  "is_object (JObject ms) = True"
| "is_object _ = False"

definition get_str :: "string \<Rightarrow> json \<Rightarrow> string option" where
  "get_str k v = Option.bind (json_get k v) as_str"

text \<open>The names of the members of an object in order, \<open>MemberNames\<close>; anything else has none.\<close>

fun member_names :: "json \<Rightarrow> string list option" where
  "member_names (JObject ms) = Some (map fst ms)"
| "member_names _ = None"

fun first_duplicate :: "string list \<Rightarrow> string list \<Rightarrow> string option" where
  "first_duplicate seen [] = None"
| "first_duplicate seen (n # ns) = (if n \<in> set seen then Some n else first_duplicate (n # seen) ns)"

section \<open>Shape\<close>

primrec nesting_depth :: "json \<Rightarrow> nat" where
  "nesting_depth JNull = 0"
| "nesting_depth (JBool b) = 0"
| "nesting_depth (JU64 n) = 0"
| "nesting_depth (JI64 i) = 0"
| "nesting_depth JF64 = 0"
| "nesting_depth (JString s) = 0"
| "nesting_depth (JArray xs) = 1 + foldr max (map nesting_depth xs) 0"
| "nesting_depth (JObject ms) = 1 + foldr max (map snd (map (map_prod id nesting_depth) ms)) 0"

fun first_fault :: "'a option list \<Rightarrow> 'a option" where
  "first_fault [] = None"
| "first_fault (None # rest) = first_fault rest"
| "first_fault (Some x # rest) = Some x"

text \<open>The members of one object: a name is checked when it is read, before its value is walked.\<close>

fun walk_members :: "string list \<Rightarrow> (string \<times> string option) list \<Rightarrow> string option" where
  "walk_members names [] = None"
| "walk_members names ((k, r) # rest) =
    (if k \<in> set names then Some k
     else (case r of Some n \<Rightarrow> Some n | None \<Rightarrow> walk_members (names @ [k]) rest))"

primrec first_repeated_member :: "json \<Rightarrow> string option" where
  "first_repeated_member JNull = None"
| "first_repeated_member (JBool b) = None"
| "first_repeated_member (JU64 n) = None"
| "first_repeated_member (JI64 i) = None"
| "first_repeated_member JF64 = None"
| "first_repeated_member (JString s) = None"
| "first_repeated_member (JArray xs) = first_fault (map first_repeated_member xs)"
| "first_repeated_member (JObject ms) = walk_members [] (map (map_prod id first_repeated_member) ms)"

section \<open>Bounds of a response\<close>

definition MAX_RESPONSE_BYTES :: nat where
  "MAX_RESPONSE_BYTES = 64 * 1024"

definition MAX_MEMBERS :: nat where
  "MAX_MEMBERS = 128"

definition MAX_ARRAY_LEN :: nat where
  "MAX_ARRAY_LEN = 128"

definition MAX_STRING_LEN :: nat where
  "MAX_STRING_LEN = 8 * 1024"

record response_caps =
  max_members :: nat
  max_array_len :: nat
  max_string_len :: nat

definition JWKS_AND_TRANSPORT :: response_caps where
  "JWKS_AND_TRANSPORT =
    \<lparr> max_members = MAX_MEMBERS, max_array_len = MAX_ARRAY_LEN, max_string_len = MAX_STRING_LEN \<rparr>"

definition DISCOVERY_CAPS :: response_caps where
  "DISCOVERY_CAPS = \<lparr> max_members = MAX_MEMBERS, max_array_len = 32, max_string_len = 2048 \<rparr>"

datatype bounds_error =
    WrongStatus nat
  | MissingContentType
  | WrongContentType string
  | TooLarge nat
  | TooManyMembers nat
  | ArrayTooLong nat
  | StringTooLong nat
  | JsonError
  | Transport

primrec check_caps :: "response_caps \<Rightarrow> json \<Rightarrow> bounds_error option" where
  "check_caps caps JNull = None"
| "check_caps caps (JBool b) = None"
| "check_caps caps (JU64 n) = None"
| "check_caps caps (JI64 i) = None"
| "check_caps caps JF64 = None"
| "check_caps caps (JString s) =
    (if length s > max_string_len caps then Some (StringTooLong (max_string_len caps)) else None)"
| "check_caps caps (JArray xs) =
    (if length xs > max_array_len caps then Some (ArrayTooLong (max_array_len caps))
     else first_fault (map (check_caps caps) xs))"
| "check_caps caps (JObject ms) =
    (if length ms > max_members caps then Some (TooManyMembers (max_members caps))
     else first_fault (map snd (map (map_prod id (check_caps caps)) ms)))"

text \<open>A response as the HTTP client delivers it: a chunk that is \<open>None\<close> is a transport error.\<close>

record response =
  rs_status :: nat
  rs_content_type :: "string option"
  rs_chunks :: "string option list"

definition ascii_lower :: "string \<Rightarrow> string" where
  "ascii_lower s = map (\<lambda>c. if 65 \<le> byte c \<and> byte c \<le> 90 then of_byte (byte c + 32) else c) s"

definition content_type_is_json :: "response \<Rightarrow> bounds_error option" where
  "content_type_is_json resp =
    (case rs_content_type resp of
       None \<Rightarrow> Some MissingContentType
     | Some raw \<Rightarrow>
        let essence = ascii_lower (str_trim (hd (split_on CHR '';'' raw))) in
        if essence = ''application/json'' \<or> suffix ''+json'' essence then None else Some (WrongContentType raw))"

fun read_bounded_bytes :: "string option list \<Rightarrow> nat \<Rightarrow> string \<Rightarrow> bounds_error + string" where
  "read_bounded_bytes [] max_bytes buf = Inr buf"
| "read_bounded_bytes (None # chunks) max_bytes buf = Inl Transport"
| "read_bounded_bytes (Some chunk # chunks) max_bytes buf =
    (if length (buf @ chunk) > max_bytes then Inl (TooLarge max_bytes)
     else read_bounded_bytes chunks max_bytes (buf @ chunk))"

definition read_bounded_body :: "response \<Rightarrow> bounds_error + string" where
  "read_bounded_body resp =
    (if rs_status resp \<noteq> 200 then Inl (WrongStatus (rs_status resp))
     else (case content_type_is_json resp of
         Some e \<Rightarrow> Inl e
       | None \<Rightarrow> read_bounded_bytes (rs_chunks resp) MAX_RESPONSE_BYTES []))"

text \<open>\<open>read_bounded_json\<close>, up to the conversion of the checked value to the caller's type.\<close>

definition read_bounded_json :: "(string \<Rightarrow> json option) \<Rightarrow> (json \<Rightarrow> 'a option) \<Rightarrow> response \<Rightarrow> bounds_error + 'a" where
  "read_bounded_json parse convert resp =
    (case read_bounded_body resp of
       Inl e \<Rightarrow> Inl e
     | Inr bytes \<Rightarrow>
        (case parse bytes of
           None \<Rightarrow> Inl JsonError
         | Some doc \<Rightarrow>
            (case check_caps JWKS_AND_TRANSPORT (value_of doc) of
               Some e \<Rightarrow> Inl e
             | None \<Rightarrow> (case convert (value_of doc) of None \<Rightarrow> Inl JsonError | Some t \<Rightarrow> Inr t))))"

section \<open>Numeric dates\<close>

datatype numeric_date_error = NdWrongType | NdNotAnInteger | NdNegative | NdOutOfRange

fun numeric_date :: "json \<Rightarrow> numeric_date_error + int" where
  "numeric_date (JU64 n) =
    (if 2 ^ 63 \<le> n \<or> seconds (int n) \<notin> datetime_range then Inl NdOutOfRange else Inr (int n))"
| "numeric_date (JI64 i) = Inl NdNegative"
| "numeric_date JF64 = Inl NdNotAnInteger"
| "numeric_date _ = Inl NdWrongType"

end
