(* ===== verification/Jwks.thy ===== *)
theory Jwks
  imports Json_Doc
begin

text \<open>
  The key set of an upstream provider (\<open>http/jwks.rs\<close>): the structural rules a document has to pass and the
  choice of the key for a token.  base64url and the conversion of a JWK (\<open>jsonwebtoken\<close>) are parameters.
\<close>

section \<open>Reading a key set\<close>

definition MAX_JWKS_DEPTH :: nat where
  "MAX_JWKS_DEPTH = 16"

definition MAX_JWKS_KEYS :: nat where
  "MAX_JWKS_KEYS = 32"

datatype jwks_error =
    JwksBounds bounds_error
  | JwksNotJson
  | JwksNotObject
  | NoKeys
  | JwksTooDeep nat
  | JwksDuplicateMember string
  | TooManyKeys nat
  | KeyNotObject nat
  | DuplicateKid string

type_synonym jwks = "json list"

fun check_kids :: "string list \<Rightarrow> nat \<Rightarrow> json list \<Rightarrow> jwks_error option" where
  "check_kids seen index [] = None"
| "check_kids seen index (key # keys) =
    (if \<not> is_object key then Some (KeyNotObject index)
     else (case get_str ''kid'' key of
         None \<Rightarrow> check_kids seen (Suc index) keys
       | Some kid \<Rightarrow>
          if kid = [] then check_kids seen (Suc index) keys
          else if kid \<in> set seen then Some (DuplicateKid kid)
          else check_kids (seen @ [kid]) (Suc index) keys))"

definition parse_jwks :: "(string \<Rightarrow> json option) \<Rightarrow> string \<Rightarrow> jwks_error + jwks" where
  "parse_jwks parse bytes =
    (if length bytes > MAX_RESPONSE_BYTES then Inl (JwksBounds (TooLarge MAX_RESPONSE_BYTES))
     else (case parse bytes of
         None \<Rightarrow> Inl JwksNotJson
       | Some doc \<Rightarrow>
          let value = value_of doc in
          if \<not> is_object value then Inl JwksNotObject
          else (case check_caps JWKS_AND_TRANSPORT value of
              Some e \<Rightarrow> Inl (JwksBounds e)
            | None \<Rightarrow>
          if nesting_depth value > MAX_JWKS_DEPTH then Inl (JwksTooDeep MAX_JWKS_DEPTH)
          else (case first_repeated_member doc of
              Some name \<Rightarrow> Inl (JwksDuplicateMember name)
            | None \<Rightarrow>
          (case Option.bind (json_get ''keys'' value) as_array of
             None \<Rightarrow> Inl NoKeys
           | Some keys \<Rightarrow>
              if length keys > MAX_JWKS_KEYS then Inl (TooManyKeys MAX_JWKS_KEYS)
              else (case check_kids [] 0 keys of Some e \<Rightarrow> Inl e | None \<Rightarrow> Inr keys))))))"

definition fetch_jwks ::
  "(string \<Rightarrow> json option) \<Rightarrow> (string \<Rightarrow> response option) \<Rightarrow> string \<Rightarrow> jwks_error + jwks" where
  "fetch_jwks parse get jwks_uri =
    (case get jwks_uri of
       None \<Rightarrow> Inl (JwksBounds Transport)
     | Some resp \<Rightarrow>
        (case read_bounded_body resp of
           Inl e \<Rightarrow> Inl (JwksBounds e)
         | Inr bytes \<Rightarrow> parse_jwks parse bytes))"

section \<open>Choosing a key\<close>

definition PRIVATE_KEY_MEMBERS :: "string list" where
  "PRIVATE_KEY_MEMBERS = [''d'', ''p'', ''q'', ''dp'', ''dq'', ''qi'', ''oth'']"

datatype key_selection_error =
    KidNotFound
  | AmbiguousKid nat
  | PrivateKeyMember string
  | UseNotSig
  | KeyOpsMissingVerify
  | MultiUse
  | AlgMismatch
  | AlgorithmFamilyMismatch
  | CurveMismatch
  | RsaParameterInvalid
  | RsaTooSmall
  | RsaInvalidExponent
  | KeyMaterialInvalid

definition check_curve :: "json \<Rightarrow> string \<Rightarrow> key_selection_error option" where
  "check_curve candidate required = (if get_str ''crv'' candidate = Some required then None else Some CurveMismatch)"

fun strip_zeros :: "string \<Rightarrow> string" where
  "strip_zeros [] = []"
| "strip_zeros (c # cs) = (if byte c = 0 then strip_zeros cs else c # cs)"

definition check_rsa_parameters :: "(string \<Rightarrow> string option) \<Rightarrow> json \<Rightarrow> key_selection_error option" where
  "check_rsa_parameters base64url_decode candidate =
    (case (get_str ''n'' candidate, get_str ''e'' candidate) of
       (Some n, Some e) \<Rightarrow>
        (case (base64url_decode n, base64url_decode e) of
           (Some n_bytes, Some e_bytes) \<Rightarrow>
            if length n_bytes < 256 then Some RsaTooSmall
            else let even_e = (if e_bytes = [] then True else even (byte (last e_bytes)));
                     trimmed = strip_zeros e_bytes;
                     too_small = (trimmed = [] \<or> (length trimmed = 1 \<and> byte (hd trimmed) < 3)) in
              if even_e \<or> too_small then Some RsaInvalidExponent else None
         | _ \<Rightarrow> Some RsaParameterInvalid)
     | _ \<Rightarrow> Some RsaParameterInvalid)"

definition required_kty :: "string \<Rightarrow> string option" where
  "required_kty header_alg =
    (if header_alg \<in> {''RS256'', ''RS384'', ''RS512'', ''PS256'', ''PS384'', ''PS512''} then Some ''RSA''
     else if header_alg = ''ES256'' then Some ''EC''
     else if header_alg = ''EdDSA'' then Some ''OKP''
     else None)"

definition check_key_ops :: "json \<Rightarrow> key_selection_error option" where
  "check_key_ops candidate =
    (case Option.bind (json_get ''key_ops'' candidate) as_array of
       None \<Rightarrow> None
     | Some ops \<Rightarrow>
        let ops = List.map_filter as_str ops in
        if ''verify'' \<notin> set ops then Some KeyOpsMissingVerify
        else if ''sign'' \<in> set ops \<or> list_ex (\<lambda>op. op \<noteq> ''sign'' \<and> op \<noteq> ''verify'') ops then Some MultiUse
        else None)"

text \<open>The rules on the one key that carries the token's \<open>kid\<close>, in their order.\<close>

definition check_candidate :: "(string \<Rightarrow> string option) \<Rightarrow> string \<Rightarrow> json \<Rightarrow> key_selection_error option" where
  "check_candidate base64url_decode header_alg candidate =
    (case List.find (\<lambda>m. json_get m candidate \<noteq> None) PRIVATE_KEY_MEMBERS of
       Some m \<Rightarrow> Some (PrivateKeyMember m)
     | None \<Rightarrow>
        if (case get_str ''use'' candidate of None \<Rightarrow> False | Some u \<Rightarrow> u \<noteq> ''sig'') then Some UseNotSig
        else (case check_key_ops candidate of
            Some e \<Rightarrow> Some e
          | None \<Rightarrow>
        if (case get_str ''alg'' candidate of None \<Rightarrow> False | Some a \<Rightarrow> a \<noteq> header_alg) then Some AlgMismatch
        else (case required_kty header_alg of
            None \<Rightarrow> Some AlgorithmFamilyMismatch
          | Some kty \<Rightarrow>
             if get_str ''kty'' candidate \<noteq> Some kty then Some AlgorithmFamilyMismatch
             else if kty = ''EC'' then check_curve candidate ''P-256''
             else if kty = ''OKP'' then check_curve candidate ''Ed25519''
             else check_rsa_parameters base64url_decode candidate)))"

definition select_key ::
  "(string \<Rightarrow> string option) \<Rightarrow> (json \<Rightarrow> string option) \<Rightarrow> jwks \<Rightarrow> string \<Rightarrow> string \<Rightarrow> key_selection_error + string" where
  "select_key base64url_decode key_of_jwk jwks header_kid header_alg =
    (case filter (\<lambda>k. get_str ''kid'' k = Some header_kid) jwks of
       [] \<Rightarrow> Inl KidNotFound
     | [candidate] \<Rightarrow>
        (case check_candidate base64url_decode header_alg candidate of
           Some e \<Rightarrow> Inl e
         | None \<Rightarrow> (case key_of_jwk candidate of None \<Rightarrow> Inl KeyMaterialInvalid | Some key \<Rightarrow> Inr key))
     | many \<Rightarrow> Inl (AmbiguousKid (length many)))"

section \<open>Key ids of a parsed set\<close>

lemma check_kids_None:
  "check_kids seen i keys = None \<Longrightarrow> kid \<noteq> [] \<Longrightarrow>
    length (filter (\<lambda>k. get_str ''kid'' k = Some kid) keys) \<le> (if kid \<in> set seen then 0 else 1)"
proof (induction seen i keys rule: check_kids.induct)
  case (2 seen i key keys)
  show ?case
  proof (cases "get_str ''kid'' key")
    case None
    then show ?thesis
      using "2.prems" "2.IH"(1) by (simp split: if_splits)
  next
    case (Some k)
    show ?thesis
    proof (cases "k = []")
      case True
      then show ?thesis
        using Some "2.prems" "2.IH"(2) by (simp split: if_splits)
    next
      case False
      then have "k \<notin> set seen" "check_kids (seen @ [k]) (Suc i) keys = None" "is_object key"
        using Some "2.prems"(1) by (auto split: if_splits)
      then show ?thesis
        using Some False "2.prems"(2) "2.IH"(3) [of k] by (auto split: if_splits)
    qed
  qed
qed simp

lemma parsed_jwks_kids:
  assumes "parse_jwks parse bytes = Inr keys" "kid \<noteq> []"
  shows "length (filter (\<lambda>k. get_str ''kid'' k = Some kid) keys) \<le> 1"
proof -
  have "check_kids [] 0 keys = None"
    using assms(1) by (auto simp: parse_jwks_def Let_def split: if_splits option.splits)
  then show ?thesis
    using check_kids_None [of "[]" 0 keys kid] assms(2) by simp
qed

lemma select_key_Inr:
  assumes "select_key b64 conv keys kid alg = Inr key"
  obtains candidate where "filter (\<lambda>k. get_str ''kid'' k = Some kid) keys = [candidate]"
    "check_candidate b64 alg candidate = None" "conv candidate = Some key"
  using assms by (auto simp: select_key_def split: list.splits option.splits)

section \<open>The RSA exponent as a number\<close>

definition be_value :: "string \<Rightarrow> nat" where
  "be_value s = foldl (\<lambda>a c. 256 * a + byte c) 0 s"

lemma be_value_snoc: "be_value (s @ [c]) = 256 * be_value s + byte c"
  by (simp add: be_value_def)

lemma be_value_Cons: "be_value (c # s) = byte c * 256 ^ length s + be_value s"
proof (induction s rule: rev_induct)
  case (snoc x xs)
  have "be_value (c # xs @ [x]) = 256 * be_value (c # xs) + byte x"
    using be_value_snoc [of "c # xs" x] by simp
  then show ?case
    using snoc by (simp add: be_value_snoc algebra_simps)
qed (simp add: be_value_def)

lemma be_value_strip: "be_value (strip_zeros s) = be_value s"
proof (induction s)
  case (Cons c s)
  then show ?case
    by (cases "byte c = 0") (simp_all add: be_value_Cons)
qed simp

lemma strip_zeros_hd: "strip_zeros s = c # cs \<Longrightarrow> byte c \<noteq> 0"
  by (induction s) (auto split: if_splits)

lemma even_be_value: "even (be_value s) \<longleftrightarrow> s = [] \<or> even (byte (last s))"
proof (cases s rule: rev_cases)
  case (snoc t c)
  then show ?thesis
    by (simp add: be_value_snoc)
qed (simp add: be_value_def)

lemma be_value_small: "be_value s < 3 \<longleftrightarrow> strip_zeros s = [] \<or> (length (strip_zeros s) = 1 \<and> byte (hd (strip_zeros s)) < 3)"
proof (cases "strip_zeros s")
  case Nil
  then show ?thesis
    using be_value_strip [of s] by (simp add: be_value_def)
next
  case (Cons c cs)
  have val: "be_value s = byte c * 256 ^ length cs + be_value cs"
    using be_value_strip [of s] by (simp add: Cons be_value_Cons)
  show ?thesis
  proof (cases cs)
    case Nil
    then show ?thesis
      using Cons val by (simp add: be_value_def)
  next
    case (Cons d ds)
    have "256 ^ 1 \<le> (256 :: nat) ^ length cs"
      unfolding Cons by (intro power_increasing) simp_all
    then have "256 \<le> byte c * 256 ^ length cs"
      using strip_zeros_hd [OF \<open>strip_zeros s = c # cs\<close>]
      by (metis One_nat_def mult_le_mono less_one linorder_not_le mult_1 power_one_right)
    then have "\<not> be_value s < 3"
      unfolding val by linarith
    then show ?thesis
      using \<open>strip_zeros s = c # cs\<close> Cons by simp
  qed
qed

text \<open>C33: The RSA rules hold of the numbers the key stands for.  The byte tests of the code (the last byte, the
  length after leading zeros) accept a key exactly when its modulus decodes to at least 256 bytes and its
  exponent, read as a big-endian number, is odd and at least 3.
\<close>

theorem rsa_rules_numeric:
  "check_rsa_parameters b64 key = None \<longleftrightarrow>
    (\<exists>n e n_bytes e_bytes. get_str ''n'' key = Some n \<and> get_str ''e'' key = Some e
      \<and> b64 n = Some n_bytes \<and> b64 e = Some e_bytes
      \<and> 256 \<le> length n_bytes \<and> odd (be_value e_bytes) \<and> 3 \<le> be_value e_bytes)"
proof -
  have "(even_e \<or> too_small) \<longleftrightarrow> \<not> (odd (be_value e) \<and> 3 \<le> be_value e)"
    if "even_e = (if e = [] then True else even (byte (last e)))"
      "too_small = (strip_zeros e = [] \<or> (length (strip_zeros e) = 1 \<and> byte (hd (strip_zeros e)) < 3))" for e even_e too_small
    using that even_be_value [of e] be_value_small [of e] by auto
  then show ?thesis
    by (auto simp: check_rsa_parameters_def Let_def not_less split: option.splits)
qed

end
