(* ===== verification/Id_Token.thy ===== *)
theory Id_Token
  imports Jwks Crypto
begin

text \<open>
  ID tokens of an upstream provider: the structural rules and the verification of \<open>http/id_token.rs\<close>, and the
  claim rules of \<open>identity_claims.rs\<close>, \<open>nonce_claim.rs\<close>, \<open>time_claims.rs\<close> and \<open>optional_claims.rs\<close> (crate
  \<open>sui-id\<close>).  \<open>te_decode\<close> is \<open>jsonwebtoken::decode\<close> with the validation of \<open>validation_for\<close>, at the time of
  the call; what the program relies on is \<open>decode_ok\<close>.
\<close>

section \<open>Compact tokens\<close>

datatype decode_error = ExpiredSignature | ImmatureSignature | OtherDecodeError

record token_env =
  te_json :: "string \<Rightarrow> json option"
  te_base64url :: "string \<Rightarrow> string option"
  te_key_of_jwk :: "json \<Rightarrow> string option"
  te_algorithm :: "string \<Rightarrow> bool"
  te_verifies :: "string \<Rightarrow> string \<Rightarrow> string \<Rightarrow> string \<Rightarrow> bool"
  te_decode :: "string \<Rightarrow> string \<Rightarrow> string \<Rightarrow> decode_error + json"

text \<open>A decoded token is signed under the key and algorithm it was decoded with, and its claims are its payload.\<close>

definition decode_ok :: "token_env \<Rightarrow> bool" where
  "decode_ok te =
    (\<forall>h p sg key alg claims. te_decode te (h @ ''.'' @ p @ ''.'' @ sg) key alg = Inr claims \<longrightarrow>
      CHR ''.'' \<notin> set h \<longrightarrow> CHR ''.'' \<notin> set p \<longrightarrow> CHR ''.'' \<notin> set sg \<longrightarrow>
      (\<exists>sig_bytes. te_base64url te sg = Some sig_bytes \<and> te_verifies te key alg (h @ ''.'' @ p) sig_bytes)
      \<and> Option.bind (Option.bind (te_base64url te p) (te_json te)) (\<lambda>doc. Some (value_of doc)) = Some claims)"

definition MAX_DECODED_HEADER_AND_PAYLOAD :: nat where
  "MAX_DECODED_HEADER_AND_PAYLOAD = 16 * 1024"

definition MAX_ENCODED_JWS_LEN :: nat where
  "MAX_ENCODED_JWS_LEN = 24 * 1024"

definition MAX_ENCODED_SEGMENT :: nat where
  "MAX_ENCODED_SEGMENT = ((MAX_DECODED_HEADER_AND_PAYLOAD + 2) div 3) * 4"

datatype segment = SegHeader | SegPayload | SegSignature

datatype compact_jws_error =
    JsonSerialization
  | WrongSegmentCount nat
  | EmptySegment segment
  | Oversized
  | NotBase64Url segment
  | HeaderNotJson
  | HeaderNotObject
  | DuplicateMember string
  | AlgMissing
  | AlgNotString
  | ForbiddenMember string
  | CtyPresent
  | TypNotJwt
  | KidMissing
  | KidInvalid

record validated_header =
  vh_alg :: string
  vh_kid :: string
  vh_typ :: "string option"

record compact_jws =
  cj_header :: validated_header
  cj_signing_input :: string
  cj_payload :: string
  cj_signature :: string

definition is_visible_ascii_byte :: "char \<Rightarrow> bool" where
  "is_visible_ascii_byte c = (0x21 \<le> byte c \<and> byte c \<le> 0x7E)"

definition forbidden_members :: "string list" where
  "forbidden_members = [''jku'', ''x5u'', ''jwk'', ''x5c'', ''crit'', ''b64'']"

text \<open>The members of the protected header, in the order of the code.\<close>

definition check_header :: "json \<Rightarrow> compact_jws_error + validated_header" where
  "check_header value =
    (case (case json_get ''alg'' value of None \<Rightarrow> Inl AlgMissing
            | Some v \<Rightarrow> (case as_str v of None \<Rightarrow> Inl AlgNotString | Some alg \<Rightarrow> Inr alg)) of Inl e \<Rightarrow> Inl e | Inr alg \<Rightarrow>
    (case List.find (\<lambda>m. json_get m value \<noteq> None) forbidden_members of Some m \<Rightarrow> Inl (ForbiddenMember m) | None \<Rightarrow>
     if json_get ''cty'' value \<noteq> None then Inl CtyPresent
     else
    (case (case json_get ''typ'' value of None \<Rightarrow> Inr None
            | Some v \<Rightarrow> if as_str v = Some ''JWT'' then Inr (Some ''JWT'') else Inl TypNotJwt) of Inl e \<Rightarrow> Inl e | Inr typ \<Rightarrow>
    (case (case json_get ''kid'' value of None \<Rightarrow> Inl KidMissing
            | Some v \<Rightarrow> (case as_str v of None \<Rightarrow> Inl KidInvalid | Some kid \<Rightarrow> Inr kid)) of Inl e \<Rightarrow> Inl e | Inr kid \<Rightarrow>
     if \<not> (1 \<le> length kid \<and> length kid \<le> 128) \<or> \<not> list_all is_visible_ascii_byte kid then Inl KidInvalid
     else Inr \<lparr> vh_alg = alg, vh_kid = kid, vh_typ = typ \<rparr>))))"

definition decode_segment :: "token_env \<Rightarrow> string \<Rightarrow> segment \<Rightarrow> compact_jws_error + string" where
  "decode_segment te text seg = (case te_base64url te text of None \<Rightarrow> Inl (NotBase64Url seg) | Some b \<Rightarrow> Inr b)"

definition parse_header :: "token_env \<Rightarrow> string \<Rightarrow> compact_jws_error + validated_header" where
  "parse_header te header_bytes =
    (case te_json te header_bytes of
       None \<Rightarrow> Inl HeaderNotJson
     | Some doc \<Rightarrow>
        (case member_names doc of
           None \<Rightarrow> Inl HeaderNotObject
         | Some names \<Rightarrow>
            (case first_duplicate [] names of
               Some name \<Rightarrow> Inl (DuplicateMember name)
             | None \<Rightarrow> check_header (value_of doc))))"

definition parse_compact_jws :: "token_env \<Rightarrow> string \<Rightarrow> compact_jws_error + compact_jws" where
  "parse_compact_jws te token =
    (if length token > MAX_ENCODED_JWS_LEN then Inl Oversized
     else if prefix ''{'' token then Inl JsonSerialization
     else (case split_on CHR ''.'' token of
         [h, p, sg] \<Rightarrow>
          if h = [] then Inl (EmptySegment SegHeader)
          else if p = [] then Inl (EmptySegment SegPayload)
          else if sg = [] then Inl (EmptySegment SegSignature)
          else if length h > MAX_ENCODED_SEGMENT \<or> length p > MAX_ENCODED_SEGMENT then Inl Oversized
          else
         (case decode_segment te h SegHeader of Inl e \<Rightarrow> Inl e | Inr header_bytes \<Rightarrow>
         (case decode_segment te p SegPayload of Inl e \<Rightarrow> Inl e | Inr payload \<Rightarrow>
         (case decode_segment te sg SegSignature of Inl e \<Rightarrow> Inl e | Inr signature \<Rightarrow>
          if length header_bytes + length payload > MAX_DECODED_HEADER_AND_PAYLOAD then Inl Oversized
          else (case parse_header te header_bytes of Inl e \<Rightarrow> Inl e | Inr header \<Rightarrow>
            Inr \<lparr> cj_header = header, cj_signing_input = h @ ''.'' @ p, cj_payload = payload, cj_signature = signature \<rparr>))))
       | segments \<Rightarrow> Inl (WrongSegmentCount (length segments))))"

section \<open>Verification\<close>

datatype verification_error =
    Structure compact_jws_error
  | DuplicatePayloadMember string
  | MalformedTimeClaim string
  | AlgNotPermitted
  | NoJwksUri
  | VeJwks jwks_error
  | KeySelection key_selection_error
  | VeExpired
  | NotYetValid
  | VeSignatureInvalid

definition first_duplicate_member :: "token_env \<Rightarrow> string \<Rightarrow> string option" where
  "first_duplicate_member te payload =
    first_duplicate [] (case Option.bind (te_json te payload) member_names of None \<Rightarrow> [] | Some names \<Rightarrow> names)"

definition malformed_time_claim :: "token_env \<Rightarrow> string \<Rightarrow> string option" where
  "malformed_time_claim te payload =
    (let raw_payload = (case te_json te payload of None \<Rightarrow> JNull | Some doc \<Rightarrow> value_of doc) in
     List.find (\<lambda>claim. case json_get claim raw_payload of None \<Rightarrow> False | Some v \<Rightarrow> \<not> is_ok (numeric_date v)) [''exp'', ''nbf''])"

definition verify_id_token_against_jwks ::
  "token_env \<Rightarrow> string \<Rightarrow> string list \<Rightarrow> jwks \<Rightarrow> verification_error + json" where
  "verify_id_token_against_jwks te token id_token_algs jwks =
    (case parse_compact_jws te token of Inl e \<Rightarrow> Inl (Structure e) | Inr compact \<Rightarrow>
    (case first_duplicate_member te (cj_payload compact) of Some name \<Rightarrow> Inl (DuplicatePayloadMember name) | None \<Rightarrow>
    (case malformed_time_claim te (cj_payload compact) of Some claim \<Rightarrow> Inl (MalformedTimeClaim claim) | None \<Rightarrow>
     if \<not> list_ex (\<lambda>allowed. allowed = vh_alg (cj_header compact)) id_token_algs then Inl AlgNotPermitted
     else
    (case select_key (te_base64url te) (te_key_of_jwk te) jwks (vh_kid (cj_header compact)) (vh_alg (cj_header compact)) of
       Inl e \<Rightarrow> Inl (KeySelection e)
     | Inr decoding_key \<Rightarrow>
        if \<not> te_algorithm te (vh_alg (cj_header compact)) then Inl AlgNotPermitted
        else (case te_decode te token decoding_key (vh_alg (cj_header compact)) of
            Inl ExpiredSignature \<Rightarrow> Inl VeExpired
          | Inl ImmatureSignature \<Rightarrow> Inl NotYetValid
          | Inl OtherDecodeError \<Rightarrow> Inl VeSignatureInvalid
          | Inr claims \<Rightarrow> Inr claims)))))"

definition verify_upstream_id_token ::
  "token_env \<Rightarrow> (string \<Rightarrow> response option) \<Rightarrow> string \<Rightarrow> string list \<Rightarrow> string option \<Rightarrow> verification_error + json" where
  "verify_upstream_id_token te get token id_token_algs jwks_uri =
    (case jwks_uri of
       None \<Rightarrow> Inl NoJwksUri
     | Some uri \<Rightarrow>
        (case fetch_jwks (te_json te) get uri of
           Inl e \<Rightarrow> Inl (VeJwks e)
         | Inr jwks \<Rightarrow> verify_id_token_against_jwks te token id_token_algs jwks))"

section \<open>Identity claims\<close>

datatype identity_claims_error =
    IssuerMissing | IssuerNotString | IssuerMismatch
  | SubjectMissing | SubjectNotString | SubjectLength | SubjectControlCharacter
  | AudienceMissing | AudienceInvalidShape | AudienceEmpty | AudienceTooMany | AudienceDuplicateValue
  | AudienceDoesNotContainClientId
  | AzpMissing | AzpNotString | AzpMismatch

definition validate_claim_issuer :: "json \<Rightarrow> string \<Rightarrow> identity_claims_error option" where
  "validate_claim_issuer claims expected_issuer =
    (case json_get ''iss'' claims of
       None \<Rightarrow> Some IssuerMissing
     | Some v \<Rightarrow>
        (case as_str v of
           None \<Rightarrow> Some IssuerNotString
         | Some iss \<Rightarrow> if iss \<noteq> expected_issuer then Some IssuerMismatch else None))"

definition validate_subject :: "json \<Rightarrow> identity_claims_error + string" where
  "validate_subject claims =
    (case json_get ''sub'' claims of
       None \<Rightarrow> Inl SubjectMissing
     | Some v \<Rightarrow>
        (case as_str v of
           None \<Rightarrow> Inl SubjectNotString
         | Some sub \<Rightarrow>
            if \<not> (1 \<le> length sub \<and> length sub \<le> 255) then Inl SubjectLength
            else if list_ex is_control (utf8_chars sub) then Inl SubjectControlCharacter
            else Inr sub))"

fun all_strings :: "json list \<Rightarrow> string list option" where
  "all_strings [] = Some []"
| "all_strings (v # vs) =
    (case as_str v of None \<Rightarrow> None | Some s \<Rightarrow> (case all_strings vs of None \<Rightarrow> None | Some ss \<Rightarrow> Some (s # ss)))"

definition validate_audience :: "json \<Rightarrow> string \<Rightarrow> identity_claims_error + string list" where
  "validate_audience claims expected_client_id =
    (case json_get ''aud'' claims of
       None \<Rightarrow> Inl AudienceMissing
     | Some v \<Rightarrow>
        (case (case v of JString s \<Rightarrow> Some [s] | JArray items \<Rightarrow> all_strings items | _ \<Rightarrow> None) of
           None \<Rightarrow> Inl AudienceInvalidShape
         | Some audiences \<Rightarrow>
            if audiences = [] then Inl AudienceEmpty
            else if length audiences > 8 then Inl AudienceTooMany
            else if first_duplicate [] audiences \<noteq> None then Inl AudienceDuplicateValue
            else if expected_client_id \<notin> set audiences then Inl AudienceDoesNotContainClientId
            else Inr audiences))"

definition validate_azp :: "json \<Rightarrow> string list \<Rightarrow> string \<Rightarrow> identity_claims_error option" where
  "validate_azp claims audiences expected_client_id =
    (if length audiences > 1 \<and> json_get ''azp'' claims = None then Some AzpMissing
     else (case json_get ''azp'' claims of
         None \<Rightarrow> None
       | Some v \<Rightarrow>
          (case as_str v of
             None \<Rightarrow> Some AzpNotString
           | Some azp \<Rightarrow> if azp \<noteq> expected_client_id then Some AzpMismatch else None)))"

text \<open>\<open>RequiredIdentityClaims\<close> is the subject.\<close>

definition validate_identity_claims :: "json \<Rightarrow> string \<Rightarrow> string \<Rightarrow> identity_claims_error + string" where
  "validate_identity_claims claims expected_issuer expected_client_id =
    (case validate_claim_issuer claims expected_issuer of Some e \<Rightarrow> Inl e | None \<Rightarrow>
    (case validate_subject claims of Inl e \<Rightarrow> Inl e | Inr sub \<Rightarrow>
    (case validate_audience claims expected_client_id of Inl e \<Rightarrow> Inl e | Inr audiences \<Rightarrow>
    (case validate_azp claims audiences expected_client_id of Some e \<Rightarrow> Inl e | None \<Rightarrow> Inr sub))))"

section \<open>The nonce and the time of issue\<close>

datatype nonce_error = NonceMissing | NonceWrongType | ExpectedDigestMalformed | NonceDiffers

definition is_64_hex :: "string \<Rightarrow> bool" where
  "is_64_hex s =
    (length s = 64 \<and> list_all (\<lambda>c. (48 \<le> byte c \<and> byte c \<le> 57) \<or> (97 \<le> byte c \<and> byte c \<le> 102)) s)"

definition validate_nonce :: "digest_env \<Rightarrow> json \<Rightarrow> string \<Rightarrow> nonce_error option" where
  "validate_nonce cx claims expected_digest =
    (if \<not> is_64_hex expected_digest then Some ExpectedDigestMalformed
     else (case json_get ''nonce'' claims of
         None \<Rightarrow> Some NonceMissing
       | Some v \<Rightarrow>
          (case as_str v of
             None \<Rightarrow> Some NonceWrongType
           | Some nonce \<Rightarrow> if hex_lower (sha256 cx nonce) \<noteq> expected_digest then Some NonceDiffers else None)))"

datatype time_claims_error = IatMissing | IatInvalid numeric_date_error | IatTooOld | IatTooNew

definition SKEW_SECONDS :: int where
  "SKEW_SECONDS = 60"

definition validate_iat :: "json \<Rightarrow> instant \<Rightarrow> instant \<Rightarrow> time_claims_error option" where
  "validate_iat claims created_at now =
    (case json_get ''iat'' claims of
       None \<Rightarrow> Some IatMissing
     | Some v \<Rightarrow>
        (case numeric_date v of
           Inl e \<Rightarrow> Some (IatInvalid e)
         | Inr iat_secs \<Rightarrow>
            if iat_secs < timestamp created_at - SKEW_SECONDS then Some IatTooOld
            else if iat_secs > timestamp now + SKEW_SECONDS then Some IatTooNew
            else None))"

section \<open>What passes\<close>

lemma split_three:
  assumes "split_on c token = [h, p, sg]"
  shows "token = h @ c # p @ c # sg" "c \<notin> set h" "c \<notin> set p" "c \<notin> set sg"
  using join_split_on [of c token] split_on_parts_free [of _ c token] assms by auto

lemma parse_compact_jws_Inr:
  assumes "parse_compact_jws te token = Inr compact"
  obtains h p sg hb where "split_on CHR ''.'' token = [h, p, sg]" "te_base64url te h = Some hb"
    "te_base64url te p = Some (cj_payload compact)" "te_base64url te sg = Some (cj_signature compact)"
    "parse_header te hb = Inr (cj_header compact)" "cj_signing_input compact = h @ ''.'' @ p"
    "length hb + length (cj_payload compact) \<le> MAX_DECODED_HEADER_AND_PAYLOAD"
  using assms
  by (auto simp: parse_compact_jws_def decode_segment_def not_less split: if_splits list.splits option.splits sum.splits)

lemma check_header_Inr:
  assumes "check_header value = Inr header"
  shows "json_get ''alg'' value = Some (JString (vh_alg header))" "get_str ''kid'' value = Some (vh_kid header)"
    "vh_kid header \<noteq> []" "list_all (\<lambda>m. json_get m value = None) forbidden_members"
proof -
  obtain v w where "json_get ''alg'' value = Some v" "as_str v = Some (vh_alg header)" "json_get ''kid'' value = Some w"
    "as_str w = Some (vh_kid header)" "1 \<le> length (vh_kid header)"
    and f: "List.find (\<lambda>m. json_get m value \<noteq> None) forbidden_members = None"
    using assms by (auto simp: check_header_def case_sum_Inr case_error_Inr split: option.splits if_splits)
  then show "json_get ''alg'' value = Some (JString (vh_alg header))" "get_str ''kid'' value = Some (vh_kid header)"
    "vh_kid header \<noteq> []"
    by (auto simp: get_str_def elim: as_str.elims)
  show "list_all (\<lambda>m. json_get m value = None) forbidden_members"
    using f by (auto simp: find_None_iff list_all_iff)
qed

lemma parse_header_Inr:
  assumes "parse_header te hb = Inr header"
  obtains doc where "te_json te hb = Some doc" "is_object doc" "check_header (value_of doc) = Inr header"
  using assms by (auto simp: parse_header_def split: option.splits elim: member_names.elims)

lemma verify_against_Inr:
  assumes "verify_id_token_against_jwks te token algs keys = Inr claims"
  obtains compact key where "parse_compact_jws te token = Inr compact" "first_duplicate_member te (cj_payload compact) = None"
    "malformed_time_claim te (cj_payload compact) = None" "vh_alg (cj_header compact) \<in> set algs"
    "select_key (te_base64url te) (te_key_of_jwk te) keys (vh_kid (cj_header compact)) (vh_alg (cj_header compact)) = Inr key"
    "te_decode te token key (vh_alg (cj_header compact)) = Inr claims"
  using assms
  by (auto simp: verify_id_token_against_jwks_def list_ex_iff split: sum.splits option.splits if_splits decode_error.splits)

text \<open>
  A token that verifies: its parts, the algorithm and the key that its own header names, that one key in the fetched
  set, and the signature under it.
\<close>

definition signed_by_provider :: "token_env \<Rightarrow> (string \<Rightarrow> response option) \<Rightarrow> string option \<Rightarrow> string list \<Rightarrow> string \<Rightarrow> json \<Rightarrow> bool" where
  "signed_by_provider te get jwks_uri algs token claims =
    (\<exists>uri keys h p sg header_bytes header sig_bytes payload doc alg kid candidate key.
      jwks_uri = Some uri \<and> fetch_jwks (te_json te) get uri = Inr keys
      \<and> token = h @ ''.'' @ p @ ''.'' @ sg
      \<and> te_base64url te h = Some header_bytes \<and> te_json te header_bytes = Some header
      \<and> get_str ''alg'' (value_of header) = Some alg \<and> get_str ''kid'' (value_of header) = Some kid
      \<and> list_all (\<lambda>m. json_get m (value_of header) = None) forbidden_members
      \<and> alg \<in> set algs \<and> required_kty alg = get_str ''kty'' candidate
      \<and> [k \<leftarrow> keys. get_str ''kid'' k = Some kid] = [candidate]
      \<and> list_all (\<lambda>m. json_get m candidate = None) PRIVATE_KEY_MEMBERS
      \<and> te_key_of_jwk te candidate = Some key
      \<and> te_base64url te sg = Some sig_bytes \<and> te_verifies te key alg (h @ ''.'' @ p) sig_bytes
      \<and> te_base64url te p = Some payload \<and> te_json te payload = Some doc
      \<and> first_duplicate_member te payload = None \<and> claims = value_of doc)"

lemma check_candidate_None:
  assumes "check_candidate b64 alg candidate = None"
  shows "list_all (\<lambda>m. json_get m candidate = None) PRIVATE_KEY_MEMBERS" "required_kty alg = get_str ''kty'' candidate"
    "required_kty alg \<noteq> None"
  using assms by (auto simp: check_candidate_def find_None_iff list_all_iff split: option.splits if_splits)

lemma verified_signed:
  assumes "verify_upstream_id_token te get token algs jwks_uri = Inr claims" "decode_ok te"
  shows "signed_by_provider te get jwks_uri algs token claims"
proof -
  obtain uri keys where uri: "jwks_uri = Some uri" "fetch_jwks (te_json te) get uri = Inr keys"
    and v: "verify_id_token_against_jwks te token algs keys = Inr claims"
    using assms(1) by (auto simp: verify_upstream_id_token_def split: option.splits sum.splits)
  obtain compact key where c: "parse_compact_jws te token = Inr compact" "first_duplicate_member te (cj_payload compact) = None"
    and alg: "vh_alg (cj_header compact) \<in> set algs"
    and sel: "select_key (te_base64url te) (te_key_of_jwk te) keys (vh_kid (cj_header compact)) (vh_alg (cj_header compact)) = Inr key"
    and dec: "te_decode te token key (vh_alg (cj_header compact)) = Inr claims"
    using v by (rule verify_against_Inr)
  obtain h p sg hb where sp: "split_on CHR ''.'' token = [h, p, sg]" and pay: "te_base64url te p = Some (cj_payload compact)"
    and hb: "te_base64url te h = Some hb" "parse_header te hb = Inr (cj_header compact)"
    using c(1) by (rule parse_compact_jws_Inr)
  obtain hdoc where hdoc: "te_json te hb = Some hdoc" "check_header (value_of hdoc) = Inr (cj_header compact)"
    using hb(2) by (rule parse_header_Inr)
  have names: "get_str ''alg'' (value_of hdoc) = Some (vh_alg (cj_header compact))"
    "get_str ''kid'' (value_of hdoc) = Some (vh_kid (cj_header compact))"
    "list_all (\<lambda>m. json_get m (value_of hdoc) = None) forbidden_members"
    using check_header_Inr [OF hdoc(2)] by (simp_all add: get_str_def)
  note tok = split_three [OF sp]
  have "te_decode te (h @ ''.'' @ p @ ''.'' @ sg) key (vh_alg (cj_header compact)) = Inr claims"
    using dec tok(1) by simp
  then obtain sig_bytes where sig: "te_base64url te sg = Some sig_bytes"
      "te_verifies te key (vh_alg (cj_header compact)) (h @ ''.'' @ p) sig_bytes"
    and "Option.bind (Option.bind (te_base64url te p) (te_json te)) (\<lambda>doc. Some (value_of doc)) = Some claims"
    using assms(2) tok(2-4) unfolding decode_ok_def by blast
  then obtain doc where doc: "te_json te (cj_payload compact) = Some doc" "claims = value_of doc"
    using pay by (auto simp: bind_eq_Some_conv)
  obtain candidate where cand: "filter (\<lambda>k. get_str ''kid'' k = Some (vh_kid (cj_header compact))) keys = [candidate]"
      "check_candidate (te_base64url te) (vh_alg (cj_header compact)) candidate = None" "te_key_of_jwk te candidate = Some key"
    using sel by (rule select_key_Inr)
  show ?thesis
    unfolding signed_by_provider_def
    using uri tok(1) hb(1) hdoc(1) names alg cand(1,3) check_candidate_None(1,2) [OF cand(2)] sig pay doc c(2)
    by (intro exI conjI) (assumption | simp)+
qed

text \<open>C10: An upstream ID token is accepted only when the provider signed it.  The provider's document names a key set;
  exactly one key of that set carries the \<open>kid\<close> that the token's header names, it holds no private part and its type
  is the one of the header's \<open>alg\<close>, which the configuration allows; the header carries none of the members that
  point to other keys or extensions; the signature over header and payload verifies under that key; and
  the claims that are passed on are the payload's, no member of which was repeated.
\<close>

theorem upstream_token_sound:
  assumes "verify_upstream_id_token te get token algs jwks_uri = Inr claims" "decode_ok te"
  shows "signed_by_provider te get jwks_uri algs token claims"
  using assms by (rule verified_signed)

text \<open>The key set behind a verification never names two keys alike, so a token's key is never ambiguous.\<close>

lemma fetched_keys_unambiguous: "verify_upstream_id_token te get token algs jwks_uri \<noteq> Inl (KeySelection (AmbiguousKid n))"
proof
  assume v: "verify_upstream_id_token te get token algs jwks_uri = Inl (KeySelection (AmbiguousKid n))"
  then obtain uri keys bytes where keys: "parse_jwks (te_json te) bytes = Inr keys"
    and v: "verify_id_token_against_jwks te token algs keys = Inl (KeySelection (AmbiguousKid n))"
    by (auto simp: verify_upstream_id_token_def fetch_jwks_def split: option.splits sum.splits)
  obtain compact where c: "parse_compact_jws te token = Inr compact"
    and amb: "select_key (te_base64url te) (te_key_of_jwk te) keys (vh_kid (cj_header compact)) (vh_alg (cj_header compact))
      = Inl (AmbiguousKid n)"
    using v by (auto simp: verify_id_token_against_jwks_def split: sum.splits option.splits if_splits decode_error.splits)
  have "vh_kid (cj_header compact) \<noteq> []"
    by (rule parse_compact_jws_Inr [OF c]) (auto elim!: parse_header_Inr dest: check_header_Inr(3))
  then have "length (filter (\<lambda>k. get_str ''kid'' k = Some (vh_kid (cj_header compact))) keys) \<le> 1"
    by (rule parsed_jwks_kids [OF keys])
  moreover have "check_candidate b64 alg k \<noteq> Some (AmbiguousKid n)" for b64 alg k
    by (auto simp: check_candidate_def check_key_ops_def check_curve_def check_rsa_parameters_def Let_def
        split: option.splits if_splits)
  ultimately show False
    using amb by (auto simp: select_key_def split: list.splits option.splits)
qed

section \<open>A concrete environment\<close>

text \<open>Base64url is the identity, a document is known by its text, and the signature is the word \<open>sig\<close>.\<close>

definition demo_documents :: "(string \<times> json) list" where
  "demo_documents =
    [(''hdr'', JObject [(''alg'', JString ''EdDSA''), (''kid'', JString ''k1'')]),
     (''pay'', JObject [(''iss'', JString ''https://idp''), (''sub'', JString ''alice''), (''aud'', JString ''me''),
       (''nonce'', JString ''n''), (''iat'', JU64 1), (''exp'', JU64 600)]),
     (''keys'', JObject [(''keys'', JArray [JObject [(''kid'', JString ''k1''), (''kty'', JString ''OKP''),
       (''crv'', JString ''Ed25519'')]])]),
     (''disc'', JObject []),
     (''tok'', JObject [(''id_token'', JString ''hdr.pay.sig'')])]"

definition demo_upstream_decode :: "string \<Rightarrow> string \<Rightarrow> string \<Rightarrow> decode_error + json" where
  "demo_upstream_decode token key alg =
    (case split_on CHR ''.'' token of
       [h, p, sg] \<Rightarrow>
        if sg = ''sig'' then (case map_of demo_documents p of None \<Rightarrow> Inl OtherDecodeError | Some doc \<Rightarrow> Inr (value_of doc))
        else Inl OtherDecodeError
     | _ \<Rightarrow> Inl OtherDecodeError)"

definition demo_token_env :: token_env where
  "demo_token_env = \<lparr> te_json = map_of demo_documents, te_base64url = Some, te_key_of_jwk = (\<lambda>k. Some ''key''),
     te_algorithm = (\<lambda>a. True), te_verifies = (\<lambda>key alg m sg. sg = ''sig''), te_decode = demo_upstream_decode \<rparr>"

definition demo_response :: "string \<Rightarrow> response" where
  "demo_response body = \<lparr> rs_status = 200, rs_content_type = Some ''application/json'', rs_chunks = [Some body] \<rparr>"

definition demo_get :: "string \<Rightarrow> response option" where
  "demo_get url = (if url = ''https://idp/keys'' then Some (demo_response ''keys'') else Some (demo_response ''disc''))"

lemma demo_decode_ok: "decode_ok demo_token_env"
proof -
  have "sg = ''sig'' \<and> Option.bind (map_of demo_documents p) (\<lambda>doc. Some (value_of doc)) = Some claims"
    if "demo_upstream_decode (h @ CHR ''.'' # p @ CHR ''.'' # sg) key alg = Inr claims"
      "CHR ''.'' \<notin> set h" "CHR ''.'' \<notin> set p" "CHR ''.'' \<notin> set sg" for h p sg key alg claims
    using that by (auto simp: demo_upstream_decode_def split_on_append split_on_free split: if_splits option.splits)
  then show ?thesis
    by (auto simp: decode_ok_def demo_token_env_def)
qed

lemma demo_body: "length b \<le> 1000 \<Longrightarrow> read_bounded_body (demo_response b) = Inr b"
proof -
  have "str_trim ''application/json'' = ''application/json''" "ascii_lower ''application/json'' = ''application/json''"
    by code_simp+
  then show "length b \<le> 1000 \<Longrightarrow> read_bounded_body (demo_response b) = Inr b"
    by (simp add: read_bounded_body_def demo_response_def content_type_is_json_def MAX_RESPONSE_BYTES_def)
qed

definition demo_jwk :: json where
  "demo_jwk = JObject [(''crv'', JString ''Ed25519''), (''kid'', JString ''k1''), (''kty'', JString ''OKP'')]"

lemma demo_keys: "parse_jwks (map_of demo_documents) ''keys'' = Inr [demo_jwk]"
proof -
  obtain doc where d: "map_of demo_documents ''keys'' = Some doc" "value_of doc = JObject [(''keys'', JArray [demo_jwk])]"
    "first_repeated_member doc = None"
  proof
    show "map_of demo_documents ''keys'' = Some (the (map_of demo_documents ''keys''))"
      "value_of (the (map_of demo_documents ''keys'')) = JObject [(''keys'', JArray [demo_jwk])]"
      "first_repeated_member (the (map_of demo_documents ''keys'')) = None"
      by code_simp+
  qed
  have "nesting_depth demo_jwk = 1" "check_caps JWKS_AND_TRANSPORT demo_jwk = None" "check_kids [] 0 [demo_jwk] = None"
    by (simp_all add: demo_jwk_def JWKS_AND_TRANSPORT_def MAX_MEMBERS_def MAX_STRING_LEN_def get_str_def)
  then show ?thesis
    using d by (simp add: parse_jwks_def JWKS_AND_TRANSPORT_def MAX_MEMBERS_def MAX_ARRAY_LEN_def MAX_RESPONSE_BYTES_def
        MAX_JWKS_DEPTH_def MAX_JWKS_KEYS_def del: check_kids.simps)
qed

lemma demo_header: "parse_header demo_token_env ''hdr'' = Inr \<lparr> vh_alg = ''EdDSA'', vh_kid = ''k1'', vh_typ = None \<rparr>"
  by code_simp

lemma demo_compact: "parse_compact_jws demo_token_env ''hdr.pay.sig'' =
    Inr \<lparr> cj_header = \<lparr> vh_alg = ''EdDSA'', vh_kid = ''k1'', vh_typ = None \<rparr>, cj_signing_input = ''hdr.pay'',
      cj_payload = ''pay'', cj_signature = ''sig'' \<rparr>"
proof -
  have "te_base64url demo_token_env = Some"
    by (simp add: demo_token_env_def)
  then show ?thesis
    using demo_header
    by (simp add: parse_compact_jws_def decode_segment_def MAX_ENCODED_JWS_LEN_def MAX_ENCODED_SEGMENT_def
        MAX_DECODED_HEADER_AND_PAYLOAD_def)
qed

lemma demo_select: "select_key Some (\<lambda>k. Some ''key'') [demo_jwk] ''k1'' ''EdDSA'' = Inr ''key''"
  by code_simp

lemma demo_payload: "first_duplicate_member demo_token_env ''pay'' = None" "malformed_time_claim demo_token_env ''pay'' = None"
proof -
  show "first_duplicate_member demo_token_env ''pay'' = None"
    by code_simp
  have "te_json demo_token_env ''pay'' = Some (the (map_of demo_documents ''pay''))"
    "json_get ''exp'' (value_of (the (map_of demo_documents ''pay''))) = Some (JU64 600)"
    "json_get ''nbf'' (value_of (the (map_of demo_documents ''pay''))) = None"
    by code_simp+
  then show "malformed_time_claim demo_token_env ''pay'' = None"
    by (simp add: malformed_time_claim_def datetime_range_def seconds_def nanos_def)
qed

lemma demo_verify:
  "verify_upstream_id_token demo_token_env demo_get ''hdr.pay.sig'' [''EdDSA''] (Some ''https://idp/keys'')
    = Inr (value_of (the (map_of demo_documents ''pay'')))"
proof -
  have f: "te_json demo_token_env = map_of demo_documents" "te_base64url demo_token_env = Some"
    "te_key_of_jwk demo_token_env = (\<lambda>k. Some ''key'')" "te_algorithm demo_token_env = (\<lambda>a. True)"
    "te_decode demo_token_env = demo_upstream_decode"
    by (simp_all add: demo_token_env_def)
  have keys: "fetch_jwks (map_of demo_documents) demo_get ''https://idp/keys'' = Inr [demo_jwk]"
    using demo_keys demo_body [of "''keys''"] by (simp add: fetch_jwks_def demo_get_def)
  have dec: "demo_upstream_decode ''hdr.pay.sig'' ''key'' ''EdDSA'' = Inr (value_of (the (map_of demo_documents ''pay'')))"
    by code_simp
  show ?thesis
    using keys demo_compact demo_payload demo_select dec f
    by (simp add: verify_upstream_id_token_def verify_id_token_against_jwks_def)
qed

theorem upstream_token_sound_witness:
  "\<exists>claims. verify_upstream_id_token demo_token_env demo_get ''hdr.pay.sig'' [''EdDSA''] (Some ''https://idp/keys'') = Inr claims
    \<and> signed_by_provider demo_token_env demo_get (Some ''https://idp/keys'') [''EdDSA''] ''hdr.pay.sig'' claims"
  using upstream_token_sound [OF demo_verify demo_decode_ok] demo_verify by blast

end
