(* ===== verification/Login.thy ===== *)
theory Login
  imports Self_Service Settings Sign_In Passwords
begin

text \<open>
  The lifecycle of a session (\<open>sui-id-core/src/authn/session.rs\<close> and the enrolment check and pending rows
  of \<open>authn/mfa.rs\<close>): password sign-in with its lockout, the resolution of a session with the idle
  timeout, and the two ways to sign out.  A sign-in reads the user, the credential and the factors first
  and writes at its end: \<open>s0\<close> is the store the reads saw, \<open>s\<close> the one it writes to.  Beside its result
  it returns the hashes it verified the password against, because a verification takes some 34 ms and
  can be timed from outside.
\<close>

section \<open>Sign-in\<close>

definition SESSION_LIFETIME_HOURS :: int where
  "SESSION_LIFETIME_HOURS = 12"

definition lockout_backoff :: "int \<Rightarrow> int \<Rightarrow> int option" where
  "lockout_backoff failures max_secs =
    (if failures \<le> 2 then None
     else let secs = (if failures = 3 then 30 else if failures = 4 then 60 else if failures = 5 then 5 * 60
                      else if failures = 6 then 30 * 60 else if failures = 7 then 2 * 60 * 60
                      else if failures = 8 then 6 * 60 * 60 else if failures = 9 then 12 * 60 * 60
                      else 24 * 60 * 60)
          in Some (seconds (min secs max_secs)))"

text \<open>Both rows are best-effort appends outside any transaction; they are taken to reach the disk.\<close>

definition record_refused_login :: "digest_env \<Rightarrow> instant \<Rightarrow> string \<Rightarrow> string \<Rightarrow> store \<Rightarrow> store" where
  "record_refused_login cx at username reason s =
    s\<lparr>audit := append_within_tx cx
      \<lparr> al_at = at, al_actor = None, al_action = ''auth.login.failure'', al_target = Some username,
        al_result = ''denied'', al_note = Some reason \<rparr> (audit s)\<rparr>"

definition record_password_ok :: "digest_env \<Rightarrow> instant \<Rightarrow> uuid \<Rightarrow> store \<Rightarrow> store" where
  "record_password_ok cx at uid s =
    s\<lparr>audit := append_within_tx cx
      \<lparr> al_at = at, al_actor = Some uid, al_action = ''auth.login.password_ok_mfa_required'', al_target = Some uid,
        al_result = ''ok'', al_note = None \<rparr> (audit s)\<rparr>"

datatype session_audience = AnyAudience | AdminReaders

datatype login_outcome =
    SessionEstablished session_row
  | MfaRequired login_pending_mfa_row
  | AudienceRefused

definition PENDING_MFA_TTL_SECS :: int where
  "PENDING_MFA_TTL_SECS = 5 * 60"

definition is_mfa_enabled :: "uuid \<Rightarrow> store \<Rightarrow> bool" where
  "is_mfa_enabled uid s =
    ((case totp_get uid s of None \<Rightarrow> False | Some t \<Rightarrow> ut_enabled t) \<or> webauthn_has_any uid s)"

definition build_pending_mfa_row :: "uuid \<Rightarrow> instant \<Rightarrow> uuid \<Rightarrow> login_pending_mfa_row" where
  "build_pending_mfa_row pid now uid =
    \<lparr> pm_id = pid, pm_user_id = uid, pm_expires_at = now + seconds PENDING_MFA_TTL_SECS, pm_created_at = now \<rparr>"

text \<open>The clock reads of one sign-in in the order of the code (the lock check, the failure row or command,
  the new row), the commit times, and the identifiers it may draw.\<close>

record login_draws =
  ld_check :: instant
  ld_fail :: instant
  ld_fail_lock :: instant
  ld_now :: instant
  ld_at :: instant
  ld_session_id :: uuid
  ld_pending_id :: uuid

record login_env =
  le_digest :: digest_env
  le_password :: password_env
  le_max_lockout_secs :: int

definition password_session :: "login_draws \<Rightarrow> uuid \<Rightarrow> session_row" where
  "password_session ld uid =
    \<lparr> s_id = ld_session_id ld, s_user_id = uid, s_expires_at = ld_now ld + hours SESSION_LIFETIME_HOURS,
      s_created_at = ld_now ld, s_revoked_at = None, s_auth_methods = [Pwd], s_last_step_up_at = None,
      s_last_used_at = None, s_last_step_up_method = None, s_step_up_failure_count = 0 \<rparr>"

definition wrong_password ::
  "login_env \<Rightarrow> login_draws \<Rightarrow> uuid \<Rightarrow> core_error \<Rightarrow> store \<Rightarrow> (core_error + login_outcome) \<times> store" where
  "wrong_password le ld uid e s =
    (case record_login_failure (le_digest le) (ld_at ld) uid
        (\<lambda>n. lockout_backoff n (le_max_lockout_secs le)) (ld_fail ld) (ld_fail_lock ld) s of
       (Inl err, s') \<Rightarrow> (Inl (Store err), s')
     | (Inr _, s') \<Rightarrow> (Inl e, s'))"

definition right_password ::
  "login_env \<Rightarrow> login_draws \<Rightarrow> session_audience \<Rightarrow> user_row \<Rightarrow> store \<Rightarrow> store \<Rightarrow> (core_error + login_outcome) \<times> store" where
  "right_password le ld audience user s0 s =
    (if audience = AdminReaders \<and> \<not> can_read_admin (u_role user) then (Inr AudienceRefused, s)
     else if is_mfa_enabled (u_id user) s0 then
       (let row = build_pending_mfa_row (ld_pending_id ld) (ld_now ld) (u_id user) in
        case with_tx (pending_mfa_insert row) s of
          (Inl err, s') \<Rightarrow> (Inl (Store err), s')
        | (Inr _, s') \<Rightarrow> (Inr (MfaRequired row), record_password_ok (le_digest le) (ld_at ld) (u_id user) s'))
     else
       (case sign_in_with_password (le_digest le) (ld_at ld) (password_session ld (u_id user)) s of
          (Inl StoreNotFound, s') \<Rightarrow> (Inl InvalidCredentials, s')
        | (Inl err, s') \<Rightarrow> (Inl (Store err), s')
        | (Inr _, s') \<Rightarrow> (Inr (SessionEstablished (password_session ld (u_id user))), s')))"

definition login_with_mfa ::
  "login_env \<Rightarrow> login_draws \<Rightarrow> string \<Rightarrow> string \<Rightarrow> session_audience \<Rightarrow> store \<Rightarrow> store
    \<Rightarrow> (core_error + login_outcome) \<times> string list \<times> store" where
  "login_with_mfa le ld username password audience s0 s =
    (let refused = (\<lambda>reason. (Inl InvalidCredentials, [DUMMY_PHC],
           record_refused_login (le_digest le) (ld_fail ld) username reason s)) in
     case find_by_username username s0 of
       Inl StoreNotFound \<Rightarrow> refused ''unknown user''
     | Inl err \<Rightarrow> (Inl (Store err), [], s)
     | Inr user \<Rightarrow>
        if u_is_disabled user \<or> u_is_deleted user then refused ''user disabled or deleted''
        else if locked_at (ld_check ld) user then refused ''account locked''
        else (case credential_get (u_id user) s0 of
            Inl StoreNotFound \<Rightarrow>
              (case wrong_password le ld (u_id user) InvalidCredentials s of (r, s') \<Rightarrow> (r, [DUMMY_PHC], s'))
          | Inl err \<Rightarrow> (Inl (Store err), [], s)
          | Inr cred \<Rightarrow>
             (case verify_password (le_password le) password (cr_password_hash cred) of
                Inl e \<Rightarrow> (case wrong_password le ld (u_id user) e s of (r, s') \<Rightarrow> (r, [cr_password_hash cred], s'))
              | Inr _ \<Rightarrow>
                 (case right_password le ld audience user s0 s of (r, s') \<Rightarrow> (r, [cr_password_hash cred], s')))))"

definition login ::
  "login_env \<Rightarrow> login_draws \<Rightarrow> string \<Rightarrow> string \<Rightarrow> store \<Rightarrow> store \<Rightarrow> (core_error + session_row) \<times> store" where
  "login le ld username password s0 s =
    (case login_with_mfa le ld username password AnyAudience s0 s of
       (Inl e, _, s') \<Rightarrow> (Inl e, s')
     | (Inr (SessionEstablished row), _, s') \<Rightarrow> (Inr row, s')
     | (Inr (MfaRequired _), _, s') \<Rightarrow> (Inl Unauthenticated, s')
     | (Inr AudienceRefused, _, s') \<Rightarrow> (Inl Unauthenticated, s'))"

section \<open>Sessions in use\<close>

definition idle_since :: "session_row \<Rightarrow> instant" where
  "idle_since row = (case s_last_used_at row of None \<Rightarrow> s_created_at row | Some t \<Rightarrow> t)"

definition past_idle_timeout :: "store \<Rightarrow> instant \<Rightarrow> session_row \<Rightarrow> bool" where
  "past_idle_timeout s now row =
    (case settings_get s of
       Inl _ \<Rightarrow> False
     | Inr settings \<Rightarrow>
        ss_idle_session_timeout_secs settings > 0
        \<and> num_seconds (now - idle_since row) > ss_idle_session_timeout_secs settings)"

text \<open>The revocation of an idle session is best-effort: its result is dropped.\<close>

definition resolve :: "digest_env \<Rightarrow> instant \<Rightarrow> instant \<Rightarrow> uuid \<Rightarrow> store \<Rightarrow> (core_error + uuid) \<times> store" where
  "resolve cx at now sid s =
    (case get_with_user_active sid s of
       Inl StoreNotFound \<Rightarrow> (Inl Unauthenticated, s)
     | Inl e \<Rightarrow> (Inl (Store e), s)
     | Inr (row, active) \<Rightarrow>
        if s_revoked_at row \<noteq> None \<or> s_expires_at row \<le> now \<or> \<not> active then (Inl Unauthenticated, s)
        else if past_idle_timeout s now row
          then (Inl Unauthenticated, snd (revoke_session_idle_timeout cx at (s_user_id row) sid now s))
        else (Inr (s_user_id row), s))"

definition LAST_USED_AT_THROTTLE_SECS :: int where
  "LAST_USED_AT_THROTTLE_SECS = 60"

definition touch_last_used :: "instant \<Rightarrow> uuid \<Rightarrow> store \<Rightarrow> (core_error + unit) \<times> store" where
  "touch_last_used now sid s =
    (case get_session sid s of
       Inl StoreNotFound \<Rightarrow> (Inr (), s)
     | Inl e \<Rightarrow> (Inl (Store e), s)
     | Inr row \<Rightarrow>
        if (case s_last_used_at row of
              Some t \<Rightarrow> num_seconds (now - t) \<ge> LAST_USED_AT_THROTTLE_SECS | None \<Rightarrow> True)
        then apfst lift_store (with_tx (session_touch_last_used sid now) s)
        else (Inr (), s))"

definition logout :: "digest_env \<Rightarrow> instant \<Rightarrow> instant \<Rightarrow> uuid \<Rightarrow> store \<Rightarrow> (core_error + unit) \<times> store" where
  "logout cx at now sid s =
    (case get_session sid s of
       Inl StoreNotFound \<Rightarrow> (Inr (), s)
     | Inl e \<Rightarrow> (Inl (Store e), s)
     | Inr row \<Rightarrow> apfst lift_store (revoke_session cx at (s_user_id row) (s_user_id row) sid SelfSignout now s))"

definition logout_user ::
  "digest_env \<Rightarrow> instant \<Rightarrow> instant \<Rightarrow> instant \<Rightarrow> uuid \<Rightarrow> sessions_identified_by \<Rightarrow> store \<Rightarrow> (core_error + unit) \<times> store" where
  "logout_user cx at now now' uid identified_by s =
    (case (case identified_by of
        BySession \<Rightarrow> revoke_all_sessions_for_user_as_user cx at uid RpInitiatedLogout now s
      | ByIdTokenHint \<Rightarrow> revoke_all_sessions_for_user_unattributed cx at uid RpInitiatedLogout now s) of
       (Inl e, s') \<Rightarrow> (Inl (Store e), s')
     | (Inr _, s') \<Rightarrow>
        (case with_tx (rt_revoke_all_for_user_within_tx uid now') s' of
           (Inl e, s'') \<Rightarrow> (Inl (Store e), s'')
         | (Inr _, s'') \<Rightarrow> (Inr (), s'')))"

section \<open>What a sign-in can change\<close>

lemmas login_branches = login_with_mfa_def wrong_password_def right_password_def Let_def

lemma wrong_password_cases:
  assumes "wrong_password le ld uid e s = (r, s')"
  shows "r = Inl e \<or> (\<exists>err. r = Inl (Store err))"
    "sessions s' = sessions s" "login_pending_mfas s' = login_pending_mfas s" "credentials s' = credentials s"
proof -
  let ?body = "record_login_failure_body uid (\<lambda>n. lockout_backoff n (le_max_lockout_secs le)) (ld_fail ld) (ld_fail_lock ld)"
  show "r = Inl e \<or> (\<exists>err. r = Inl (Store err))"
    using assms by (auto simp: wrong_password_def split: prod.splits sum.splits)
  have keep: "keeps sessions ?body" "keeps login_pending_mfas ?body" "keeps credentials ?body"
    unfolding record_login_failure_body_def user_ops by (intro frame; simp)+
  obtain q where run: "record_login_failure (le_digest le) (ld_at ld) uid
      (\<lambda>n. lockout_backoff n (le_max_lockout_secs le)) (ld_fail ld) (ld_fail_lock ld) s = (q, s')"
    using assms by (auto simp: wrong_password_def split: prod.splits sum.splits)
  have "s' = s \<or> (\<exists>v t a. ?body s = Inr (v, t) \<and> s' = t\<lparr>audit := a\<rparr>)"
  proof (cases q)
    case (Inl e)
    then show ?thesis
      using run u22.class_a_error unfolding record_login_failure_def by blast
  next
    case (Inr n)
    show ?thesis
      using run unfolding record_login_failure_def Inr by (rule u22.class_a_success) blast
  qed
  then show "sessions s' = sessions s" "login_pending_mfas s' = login_pending_mfas s" "credentials s' = credentials s"
    using keepsD [OF keep(1)] keepsD [OF keep(2)] keepsD [OF keep(3)] by force+
qed

lemma sign_in_rollback: "sign_in_with_password cx at session s = (Inl e, s') \<Longrightarrow> s' = s"
  using l01.class_a_error unfolding sign_in_with_password_def by blast

lemma sign_in_keeps:
  assumes "sign_in_with_password cx at session s = (r, s')"
  shows "login_pending_mfas s' = login_pending_mfas s" "credentials s' = credentials s"
proof -
  have keep: "keeps login_pending_mfas (sign_in_with_password_body session)" "keeps credentials (sign_in_with_password_body session)"
    unfolding sign_in_with_password_body_def user_ops by (intro frame; simp)+
  have "s' = s \<or> (\<exists>v t a. sign_in_with_password_body session s = Inr (v, t) \<and> s' = t\<lparr>audit := a\<rparr>)"
    using assms sign_in_rollback
    by (cases r) (auto simp: sign_in_with_password_def elim!: l01.class_a_success)
  then show "login_pending_mfas s' = login_pending_mfas s" "credentials s' = credentials s"
    using keepsD [OF keep(1)] keepsD [OF keep(2)] by force+
qed

text \<open>The accounts a password opens: present, active, not locked when the check is made, and with a credential the
  password verifies against.\<close>

definition password_accepted :: "login_env \<Rightarrow> login_draws \<Rightarrow> string \<Rightarrow> string \<Rightarrow> store \<Rightarrow> user_row \<Rightarrow> bool" where
  "password_accepted le ld username password s0 u \<longleftrightarrow>
    find_by_username username s0 = Inr u \<and> user_active u \<and> \<not> locked_at (ld_check ld) u
    \<and> (\<exists>cred. credential_get (u_id u) s0 = Inr cred
        \<and> verify_password (le_password le) password (cr_password_hash cred) = Inr ())"

lemma evicted_rows_cong:
  "sessions s = sessions t \<Longrightarrow> server_settings s = server_settings t \<Longrightarrow> evicted_rows uid now s = evicted_rows uid now t"
  by (simp add: evicted_rows_def over_cap_def cap_of_def Let_def)

lemma sign_in_commits_session:
  assumes "sign_in_with_password cx at session s = (Inr n, s')" "inserted_session session = session"
  shows "(\<exists>u. List.find (by_user_id (s_user_id session)) (users s) = Some u \<and> may_sign_in (s_created_at session) u)
    \<and> s_id session \<notin> s_id ` set (sessions s)
    \<and> sessions s' = evicted_rows (s_user_id session) (s_created_at session) (s\<lparr>sessions := sessions s @ [session]\<rparr>)"
  using assms(1) unfolding sign_in_with_password_def
proof (rule l01.class_a_success)
  fix ev t attrs
  assume body: "sign_in_with_password_body session s = Inr ((n, ev), t)"
    and s': "s' = t\<lparr>audit := append_within_tx cx
      (build_audit_row (ev_descriptor ev) (Some (s_user_id session)) at (ev_target ev) (ev_result ev) attrs) (audit s)\<rparr>"
  obtain u s1 where "List.find (by_user_id (s_user_id session)) (users s) = Some u"
    "may_sign_in (s_created_at session) u" "s_id session \<notin> s_id ` set (sessions s)"
    and s1: "sessions s1 = sessions s @ [inserted_session session]" "server_settings s1 = server_settings s"
    and t: "sessions t = evicted_rows (s_user_id session) (s_created_at session) s1"
    by (rule sign_in_body_success [OF body])
  moreover have "evicted_rows (s_user_id session) (s_created_at session) s1
      = evicted_rows (s_user_id session) (s_created_at session) (s\<lparr>sessions := sessions s @ [session]\<rparr>)"
    using s1 assms(2) by (intro evicted_rows_cong) simp_all
  ultimately show ?thesis
    using s' by simp
qed

lemma password_session_simps [simp]:
  "inserted_session (password_session ld uid) = password_session ld uid"
  "s_user_id (password_session ld uid) = uid" "s_created_at (password_session ld uid) = ld_now ld"
  "s_id (password_session ld uid) = ld_session_id ld"
  by (simp_all add: inserted_session_def password_session_def)

lemma right_password_cases:
  assumes "right_password le ld audience u s0 s = (r, s')"
  shows "r = Inr AudienceRefused \<and> s' = s
    \<or> is_mfa_enabled (u_id u) s0 \<and> (\<exists>err. r = Inl (Store err)) \<and> s' = s
    \<or> is_mfa_enabled (u_id u) s0 \<and> (audience = AdminReaders \<longrightarrow> can_read_admin (u_role u))
      \<and> (let row = build_pending_mfa_row (ld_pending_id ld) (ld_now ld) (u_id u) in
         r = Inr (MfaRequired row) \<and> login_pending_mfas s' = login_pending_mfas s @ [row] \<and> sessions s' = sessions s
         \<and> credentials s' = credentials s)
    \<or> \<not> is_mfa_enabled (u_id u) s0 \<and> (r = Inl InvalidCredentials \<or> (\<exists>err. r = Inl (Store err))) \<and> s' = s
    \<or> \<not> is_mfa_enabled (u_id u) s0 \<and> (audience = AdminReaders \<longrightarrow> can_read_admin (u_role u))
      \<and> r = Inr (SessionEstablished (password_session ld (u_id u)))
      \<and> (\<exists>n. sign_in_with_password (le_digest le) (ld_at ld) (password_session ld (u_id u)) s = (Inr n, s'))"
proof (cases "audience = AdminReaders \<and> \<not> can_read_admin (u_role u)")
  case ok: False
  show ?thesis
  proof (cases "is_mfa_enabled (u_id u) s0")
    case True
    let ?row = "build_pending_mfa_row (ld_pending_id ld) (ld_now ld) (u_id u)"
    show ?thesis
    proof (cases "pending_mfa_insert ?row s")
      case (Inl e)
      then show ?thesis
        using assms ok True by (auto simp: right_password_def with_tx_def)
    next
      case (Inr v)
      then have "snd v = s\<lparr>login_pending_mfas := login_pending_mfas s @ [?row]\<rparr>"
        by (auto simp: pending_mfa_insert_def split: if_splits)
      moreover have "right_password le ld audience u s0 s =
          (Inr (MfaRequired ?row), record_password_ok (le_digest le) (ld_at ld) (u_id u) (snd v))"
        using ok True Inr by (cases v) (simp add: right_password_def with_tx_def)
      ultimately show ?thesis
        using assms ok True by (simp add: record_password_ok_def)
    qed
  next
    case False
    obtain q t where run: "sign_in_with_password (le_digest le) (ld_at ld) (password_session ld (u_id u)) s = (q, t)"
      by fastforce
    show ?thesis
    proof (cases q)
      case (Inl e)
      then have "t = s"
        using run sign_in_rollback by simp
      then show ?thesis
        using assms ok False run Inl by (cases e) (auto simp: right_password_def)
    next
      case (Inr n)
      then show ?thesis
        using assms ok False run by (auto simp: right_password_def)
    qed
  qed
qed (use assms in \<open>simp add: right_password_def\<close>)

lemma login_cases:
  assumes "login_with_mfa le ld username password audience s0 s = (r, cost, s')"
  obtains (unknown) reason where "r = Inl InvalidCredentials" "cost = [DUMMY_PHC]"
      "s' = record_refused_login (le_digest le) (ld_fail ld) username reason s"
      "\<And>u. find_by_username username s0 = Inr u \<Longrightarrow> \<not> user_active u \<or> locked_at (ld_check ld) u"
  | (storage) err where "r = Inl (Store err)" "cost = []" "s' = s"
  | (wrong) u e phc where "find_by_username username s0 = Inr u" "user_active u" "\<not> locked_at (ld_check ld) u"
      "wrong_password le ld (u_id u) e s = (r, s')" "cost = [phc]"
      "e = InvalidCredentials \<or> (\<exists>cred \<in> set (credentials s0). \<not> phc_parses (le_password le) (cr_password_hash cred))"
  | (right) u phc where "password_accepted le ld username password s0 u" "cost = [phc]"
      "right_password le ld audience u s0 s = (r, s')"
proof -
  consider (none) "find_by_username username s0 = Inl StoreNotFound"
    | (err) e where "find_by_username username s0 = Inl e" "e \<noteq> StoreNotFound"
    | (some) u where "find_by_username username s0 = Inr u"
    by (cases "find_by_username username s0") auto
  then show thesis
  proof cases
    case none
    then show thesis
      using assms unknown [of "''unknown user''"] by (simp add: login_with_mfa_def)
  next
    case (err e)
    then show thesis
      using assms storage by (cases e) (auto simp: login_with_mfa_def)
  next
    case (some u)
    consider (bad) "\<not> user_active u \<or> locked_at (ld_check ld) u"
      | (nocred) "user_active u" "\<not> locked_at (ld_check ld) u" "credential_get (u_id u) s0 = Inl StoreNotFound"
      | (cred) c where "user_active u" "\<not> locked_at (ld_check ld) u" "credential_get (u_id u) s0 = Inr c"
      by (cases "credential_get (u_id u) s0") (auto simp: credential_get_def ok_or_def split: option.splits)
    then show thesis
    proof cases
      case bad
      show thesis
      proof (cases "user_active u")
        case True
        then show thesis
          using assms some bad unknown [of "''account locked''"] by (simp add: login_with_mfa_def user_active_def)
      next
        case False
        then show thesis
          using assms some bad unknown [of "''user disabled or deleted''"] by (auto simp: login_with_mfa_def user_active_def)
      qed
    next
      case nocred
      obtain q t where q: "wrong_password le ld (u_id u) InvalidCredentials s = (q, t)"
        by fastforce
      have "login_with_mfa le ld username password audience s0 s = (q, [DUMMY_PHC], t)"
        using some nocred q by (simp add: login_with_mfa_def user_active_def)
      then show thesis
        using wrong [OF some nocred(1,2)] q assms by simp
    next
      case (cred c)
      have c: "c \<in> set (credentials s0)"
        using cred(3) by (auto simp: credential_get_def ok_or_def dest: find_Some_in split: option.splits)
      show thesis
      proof (cases "verify_password (le_password le) password (cr_password_hash c)")
        case (Inl e)
        then have "e = InvalidCredentials \<or> \<not> phc_parses (le_password le) (cr_password_hash c)"
          by (auto simp: verify_password_def split: if_splits)
        moreover obtain q t where q: "wrong_password le ld (u_id u) e s = (q, t)"
          by fastforce
        have "login_with_mfa le ld username password audience s0 s = (q, [cr_password_hash c], t)"
          using some cred Inl q by (simp add: login_with_mfa_def user_active_def)
        ultimately show thesis
          using wrong [OF some cred(1,2)] q c assms by auto
      next
        case (Inr x)
        obtain q t where q: "right_password le ld audience u s0 s = (q, t)"
          by fastforce
        have "login_with_mfa le ld username password audience s0 s = (q, [cr_password_hash c], t)"
          using some cred Inr q by (simp add: login_with_mfa_def user_active_def)
        moreover have "password_accepted le ld username password s0 u"
          using some cred Inr by (simp add: password_accepted_def)
        ultimately show thesis
          using right q assms by simp
      qed
    qed
  qed
qed

section \<open>Idle sessions\<close>

lemma revoke_idle_commits:
  "\<exists>s'. revoke_session_idle_timeout cx at uid sid now s = (Inr (), s')
    \<and> sessions s' = update_where (\<lambda>r. s_id r = sid \<and> s_revoked_at r = None) (\<lambda>r. r\<lparr>s_revoked_at := Some now\<rparr>) (sessions s)"
proof -
  have body: "revoke_session_body uid sid IdleTimeout now s = Inr (((), U18_event uid IdleTimeout),
      s\<lparr>sessions := update_where (\<lambda>r. s_id r = sid \<and> s_revoked_at r = None) (\<lambda>r. r\<lparr>s_revoked_at := Some now\<rparr>) (sessions s)\<rparr>)"
    by (simp add: revoke_session_body_def session_revoke_within_tx_def update_sessions_def)
  have "checked_attributes (U18_event uid IdleTimeout) = Inr [(''trigger'', ''idle_timeout'')]"
    unfolding U18_event_def session_trigger_as_str.simps by (intro checked_ok_event) (simp_all add: attribute_bounds)
  then show ?thesis
    using u18.class_a_commit [OF body] by (simp add: revoke_session_idle_timeout_def)
qed

section \<open>Guessing\<close>

text \<open>An attempt is evaluated when it is compared with the stored hash: the account is there, active and not locked.\<close>

definition evaluated :: "login_draws \<Rightarrow> string \<Rightarrow> store \<Rightarrow> bool" where
  "evaluated ld username s =
    (case find_by_username username s of Inl _ \<Rightarrow> False | Inr u \<Rightarrow> user_active u \<and> \<not> locked_at (ld_check ld) u)"

text \<open>Failed sign-ins to one account one after the other, with other work in between that leaves the user table alone.  The
  clock does not run backwards.  The list holds the times at which the evaluated attempts set the lock.\<close>

inductive guessing :: "login_env \<Rightarrow> string \<Rightarrow> store \<Rightarrow> instant list \<Rightarrow> store \<Rightarrow> bool" for le username s where
  no_guess: "guessing le username s [] s"
| refused_guess: "guessing le username s ts t \<Longrightarrow> \<not> evaluated ld username t
    \<Longrightarrow> login_with_mfa le ld username password audience t t = (Inl e, cost, t') \<Longrightarrow> guessing le username s ts t'"
| wrong_guess: "guessing le username s ts t \<Longrightarrow> evaluated ld username t \<Longrightarrow> (\<forall>u. \<not> password_accepted le ld username password t u)
    \<Longrightarrow> (\<forall>x \<in> set ts. x \<le> ld_check ld) \<Longrightarrow> ld_check ld \<le> ld_fail_lock ld
    \<Longrightarrow> login_with_mfa le ld username password audience t t = (Inl e, cost, t')
    \<Longrightarrow> guessing le username s (ts @ [ld_fail_lock ld]) t'"
| meanwhile: "guessing le username s ts t \<Longrightarrow> users t' = users t \<Longrightarrow> guessing le username s ts t'"

text \<open>The waiting time that the attempt after \<open>n\<close> failures has behind it.\<close>

definition backoff :: "int \<Rightarrow> int \<Rightarrow> int" where
  "backoff n max_secs = (case lockout_backoff n max_secs of None \<Rightarrow> 0 | Some w \<Rightarrow> w)"

lemma find_by_username_Inr: "find_by_username username s = Inr u \<Longrightarrow> u \<in> set (users s)"
  by (auto simp: find_by_username_def ok_or_def dest: find_Some_in split: option.splits)

lemma find_by_username_cong: "users t = users s \<Longrightarrow> find_by_username username t = find_by_username username s"
  by (simp add: find_by_username_def)

lemma lockout_backoff_bound:
  assumes "0 \<le> max_secs" "lockout_backoff n max_secs = Some w"
  shows "\<bar>num_seconds w\<bar> < 10 ^ 19"
proof -
  have "\<exists>k. w = seconds k \<and> 0 \<le> k \<and> k \<le> 24 * 60 * 60"
    using assms by (auto simp: lockout_backoff_def Let_def split: if_splits)
  then show ?thesis
    by (auto simp: num_seconds_def seconds_def nanos_def)
qed

text \<open>A refused attempt leaves the users alone; a wrong one counts and sets the lock.\<close>

lemma refused_guess_users:
  assumes "login_with_mfa le ld username password audience t t = (Inl e, cost, t')" "\<not> evaluated ld username t"
  shows "users t' = users t"
  using assms(1)
proof (cases rule: login_cases)
  case (unknown reason)
  then show ?thesis
    by (simp add: record_refused_login_def)
next
  case (wrong u e phc)
  then show ?thesis
    using assms(2) by (simp add: evaluated_def)
next
  case (right u phc)
  then show ?thesis
    using assms(2) by (simp add: evaluated_def password_accepted_def)
qed simp

lemma wrong_guess_users:
  assumes "login_with_mfa le ld username password audience t t = (Inl e, cost, t')" "evaluated ld username t"
    and "\<forall>u. \<not> password_accepted le ld username password t u" "users_keyed t" "find_by_username username t = Inr u"
    and "\<bar>u_failed_login_count u + 1\<bar> < 10 ^ 19" "0 \<le> le_max_lockout_secs le"
  shows "users t' = update_where (by_user_id (u_id u))
    (after_failure (\<lambda>n. lockout_backoff n (le_max_lockout_secs le)) (ld_fail ld) (ld_fail_lock ld)) (users t)"
  using assms(1)
proof (cases rule: login_cases)
  case (unknown reason)
  then show ?thesis
    using assms(2,5) by (simp add: evaluated_def)
next
  case (storage err)
  then have "login_with_mfa le ld username password audience t t = (Inl (Store err), [], t)"
    using assms(1) by simp
  then show ?thesis
    using assms(2,5)
    by (auto simp: login_with_mfa_def evaluated_def user_active_def credential_get_def ok_or_def
        split: option.splits prod.splits sum.splits)
next
  case (wrong v e' phc)
  let ?policy = "\<lambda>n. lockout_backoff n (le_max_lockout_secs le)"
  have "v = u"
    using wrong(1) assms(5) by simp
  moreover obtain row where "record_login_failure (le_digest le) (ld_at ld) (u_id u) ?policy (ld_fail ld) (ld_fail_lock ld) t =
    (Inr (u_failed_login_count u + 1), t\<lparr> users := update_where (by_user_id (u_id u))
        (after_failure ?policy (ld_fail ld) (ld_fail_lock ld)) (users t), audit := append_within_tx (le_digest le) row (audit t) \<rparr>)"
    using login_failure_counts [OF assms(4) find_by_username_Inr [OF assms(5)] assms(6), of ?policy]
      lockout_backoff_bound [OF assms(7)] by blast
  ultimately show ?thesis
    using wrong(4) by (auto simp: wrong_password_def)
next
  case (right v phc)
  then show ?thesis
    using assms(3) by blast
qed

text \<open>After the evaluated guesses at \<open>ts\<close> the counter has them all, the lock runs from the last one, and each
  guess has waited for the lock of the one before.\<close>

definition guess_trace :: "login_env \<Rightarrow> string \<Rightarrow> uuid \<Rightarrow> int \<Rightarrow> instant list \<Rightarrow> store \<Rightarrow> bool" where
  "guess_trace le username uid c0 ts t \<longleftrightarrow>
    users_keyed t
    \<and> (\<exists>u. find_by_username username t = Inr u \<and> u_id u = uid \<and> u_failed_login_count u = c0 + int (length ts)
        \<and> (ts \<noteq> [] \<longrightarrow> u_locked_until u =
             map_option (\<lambda>w. last ts + w) (lockout_backoff (c0 + int (length ts)) (le_max_lockout_secs le))))
    \<and> (\<forall>i. Suc i < length ts \<longrightarrow> ts ! i + backoff (c0 + int (Suc i)) (le_max_lockout_secs le) \<le> ts ! Suc i)"

lemma guess_trace_cong: "users t' = users t \<Longrightarrow> guess_trace le username uid c0 ts t' = guess_trace le username uid c0 ts t"
  by (simp add: guess_trace_def users_keyed_def find_by_username_def)

lemma guess_trace_step:
  assumes "guess_trace le username uid c0 ts t" "evaluated ld username t"
    and "\<forall>x \<in> set ts. x \<le> ld_check ld" "ld_check ld \<le> ld_fail_lock ld"
    and "users t' = update_where (by_user_id uid)
      (after_failure (\<lambda>n. lockout_backoff n (le_max_lockout_secs le)) (ld_fail ld) (ld_fail_lock ld)) (users t)"
  shows "guess_trace le username uid c0 (ts @ [ld_fail_lock ld]) t'"
proof -
  let ?f = "after_failure (\<lambda>n. lockout_backoff n (le_max_lockout_secs le)) (ld_fail ld) (ld_fail_lock ld)"
  obtain u where u: "find_by_username username t = Inr u" "u_id u = uid" "u_failed_login_count u = c0 + int (length ts)"
    and lock: "ts \<noteq> [] \<Longrightarrow> u_locked_until u =
             map_option (\<lambda>w. last ts + w) (lockout_backoff (c0 + int (length ts)) (le_max_lockout_secs le))"
    using assms(1) by (auto simp: guess_trace_def)
  have upd: "find_by_username username t' = Inr (?f u)"
    using u(1,2) assms(5) find_update_where [of "\<lambda>u. u_username u = username" ?f "by_user_id uid" "users t"]
    by (auto simp: find_by_username_def ok_or_def after_failure_def by_user_id_def split: option.splits)
  have keyed: "users_keyed t'"
    using assms(1,5) by (simp add: guess_trace_def users_keyed_def map_update_where after_failure_def)
  have waited: "last ts + backoff (c0 + int (length ts)) (le_max_lockout_secs le) \<le> ld_fail_lock ld" if "ts \<noteq> []"
  proof (cases "lockout_backoff (c0 + int (length ts)) (le_max_lockout_secs le)")
    case None
    moreover have "last ts \<le> ld_check ld"
      using assms(3) that by simp
    ultimately show ?thesis
      using assms(4) by (simp add: backoff_def)
  next
    case (Some w)
    then have "\<not> last ts + w > ld_check ld"
      using assms(2) u(1) lock that by (simp add: evaluated_def locked_at_def)
    then show ?thesis
      using assms(4) Some by (simp add: backoff_def)
  qed
  have "(ts @ [ld_fail_lock ld]) ! i + backoff (c0 + int (Suc i)) (le_max_lockout_secs le) \<le> (ts @ [ld_fail_lock ld]) ! Suc i"
    if i: "Suc i < length (ts @ [ld_fail_lock ld])" for i
  proof (cases "Suc i < length ts")
    case True
    then show ?thesis
      using assms(1) by (simp add: guess_trace_def nth_append)
  next
    case False
    then have last: "Suc i = length ts" "ts \<noteq> []"
      using i by auto
    then have "last ts = ts ! i"
      by (metis diff_Suc_1 last_conv_nth)
    then show ?thesis
      using waited last by (simp add: nth_append)
  qed
  moreover have "u_id (?f u) = uid \<and> u_failed_login_count (?f u) = c0 + int (length (ts @ [ld_fail_lock ld]))
      \<and> u_locked_until (?f u) = map_option (\<lambda>w. last (ts @ [ld_fail_lock ld]) + w)
        (lockout_backoff (c0 + int (length (ts @ [ld_fail_lock ld]))) (le_max_lockout_secs le))"
    using u(2,3) by (simp add: after_failure_def algebra_simps)
  ultimately show ?thesis
    using keyed upd by (auto simp: guess_trace_def)
qed

lemma guessing_trace:
  assumes "guessing le username s ts t" "users_keyed s" "find_by_username username s = Inr u"
    and "0 \<le> u_failed_login_count u" "u_failed_login_count u + int (length ts) < 10 ^ 19" "0 \<le> le_max_lockout_secs le"
  shows "guess_trace le username (u_id u) (u_failed_login_count u) ts t"
  using assms(1,5)
proof (induction rule: guessing.induct)
  case no_guess
  then show ?case
    using assms(2,3) by (simp add: guess_trace_def)
next
  case (refused_guess ts t ld password audience e cost t')
  then show ?case
    using guess_trace_cong [OF refused_guess_users [OF refused_guess.hyps(3,2)]] by blast
next
  case (wrong_guess ts t ld password audience e cost t')
  then have tr: "guess_trace le username (u_id u) (u_failed_login_count u) ts t"
    by simp
  then obtain v where v: "users_keyed t" "find_by_username username t = Inr v" "u_id v = u_id u"
    "u_failed_login_count v = u_failed_login_count u + int (length ts)"
    by (auto simp: guess_trace_def)
  have "\<bar>u_failed_login_count v + 1\<bar> < 10 ^ 19"
    using v(4) assms(4) wrong_guess.prems by simp
  then show ?case
    using guess_trace_step [OF tr wrong_guess.hyps(2,4,5)]
      wrong_guess_users [OF wrong_guess.hyps(6,2,3) v(1,2) _ assms(6)] v(3) by simp
next
  case (meanwhile ts t t')
  then show ?case
    using guess_trace_cong by blast
qed

text \<open>The total waiting time before the guess number \<open>i + 1\<close> of an account with no failures before.\<close>

fun waited :: "nat \<Rightarrow> int" where
  "waited 0 = 0"
| "waited (Suc i) = waited i + backoff (int (Suc i)) (24 * 60 * 60)"

lemma backoff_mono:
  assumes "0 \<le> k" "24 * 60 * 60 \<le> max_secs"
  shows "backoff n (24 * 60 * 60) \<le> backoff (k + n) max_secs"
  using assms by (simp add: backoff_def lockout_backoff_def Let_def seconds_def nanos_def)

lemma waited_days: "waited (9 + n) = seconds (74190 + 24 * 60 * 60 * int n)"
proof (induction n)
  case 0
  have "waited 9 = seconds 74190"
    by (simp add: eval_nat_numeral backoff_def lockout_backoff_def seconds_def nanos_def)
  then show ?case
    by simp
next
  case (Suc n)
  have "waited (9 + Suc n) = waited (9 + n) + backoff (int (Suc (9 + n))) (24 * 60 * 60)"
    by (simp only: add_Suc_right waited.simps(2))
  then show ?case
    using Suc by (simp add: backoff_def lockout_backoff_def seconds_def nanos_def)
qed

lemma spaced_waited:
  assumes "\<And>i. Suc i < length ts \<Longrightarrow> ts ! i + backoff (c0 + int (Suc i)) max_secs \<le> ts ! Suc i"
    and "0 \<le> c0" "24 * 60 * 60 \<le> max_secs" "i < length ts"
  shows "ts ! 0 + waited i \<le> ts ! i"
  using assms(4)
proof (induction i)
  case (Suc i)
  then show ?case
    using assms(1) [of i] backoff_mono [OF assms(2,3), of "int (Suc i)"] by simp
qed simp

section \<open>A concrete account\<close>

definition demo_login_env :: login_env where
  "demo_login_env = \<lparr> le_digest = demo_env, le_password = demo_password, le_max_lockout_secs = 172800 \<rparr>"

definition demo_login_draws :: login_draws where
  "demo_login_draws = \<lparr> ld_check = 1, ld_fail = 1, ld_fail_lock = 1, ld_now = 1, ld_at = 1, ld_session_id = ''s9'',
     ld_pending_id = ''p9'' \<rparr>"

definition demo_login :: store where
  "demo_login = demo_accounts\<lparr> credentials := [\<lparr> cr_user_id = ''u1'', cr_password_hash = ''x$pw'', cr_updated_at = 0 \<rparr>] \<rparr>"

lemmas demo_login_simps = demo_login_env_def demo_login_draws_def demo_login_def demo_accounts_simps

lemma demo_login_fields: "ld_now demo_login_draws = 1" "ld_session_id demo_login_draws = ''s9''"
  by (simp_all add: demo_login_draws_def)

lemma demo_login_user: "find_by_username ''u1'' demo_login = Inr (demo_user ''u1'' User)"
  by (simp add: find_by_username_def demo_login_simps)

lemma demo_login_open:
  "user_active (demo_user ''u1'' User)" "\<not> locked_at t (demo_user ''u1'' User)" "u_id (demo_user ''u1'' User) = ''u1''"
  "u_failed_login_count (demo_user ''u1'' User) = 0"
  by (simp_all add: user_active_def locked_at_def demo_user_def)

lemma demo_login_credential:
  "credential_get ''u1'' demo_login = Inr \<lparr> cr_user_id = ''u1'', cr_password_hash = ''x$pw'', cr_updated_at = 0 \<rparr>"
  by (simp add: credential_get_def demo_login_simps)

lemma demo_login_verify:
  "verify_password demo_password password ''x$pw'' = (if password = ''pw'' then Inr () else Inl InvalidCredentials)"
  by (simp add: verify_password_def demo_password_def split_once_append [of "CHR ''$''" "''x''", simplified])

lemma demo_login_right:
  "\<exists>s'. login_with_mfa demo_login_env demo_login_draws ''u1'' ''pw'' AnyAudience demo_login demo_login
    = (Inr (SessionEstablished (password_session demo_login_draws ''u1'')), [''x$pw''], s')"
proof -
  have "length (sessions demo_login) < 10 ^ 9 - 1" "List.find (by_user_id ''u1'') (users demo_login) = Some (demo_user ''u1'' User)"
    "may_sign_in 1 (demo_user ''u1'' User)" "''s9'' \<notin> s_id ` set (sessions demo_login)"
    by (simp_all add: demo_login_simps by_user_id_def may_sign_in_def user_active_def locked_at_def)
  then obtain n s' where "sign_in_with_password demo_env 1 (password_session demo_login_draws ''u1'') demo_login = (Inr n, s')"
    using sign_in_commits [of demo_login "password_session demo_login_draws ''u1''" "demo_user ''u1'' User" demo_env 1]
    by (auto simp: demo_login_fields)
  moreover have "\<not> is_mfa_enabled ''u1'' demo_login"
    by (simp add: is_mfa_enabled_def totp_get_def webauthn_has_any_def affected_def demo_login_simps)
  ultimately have "right_password demo_login_env demo_login_draws AnyAudience (demo_user ''u1'' User) demo_login demo_login
      = (Inr (SessionEstablished (password_session demo_login_draws ''u1'')), s')"
    by (simp add: right_password_def demo_login_env_def demo_login_draws_def demo_login_open)
  then show ?thesis
    using demo_login_user demo_login_open demo_login_credential demo_login_verify
    by (simp add: login_with_mfa_def user_active_def demo_login_env_def)
qed

lemma demo_login_wrong:
  "\<exists>t'. login_with_mfa demo_login_env demo_login_draws ''u1'' ''no'' AnyAudience demo_login demo_login
    = (Inl InvalidCredentials, [''x$pw''], t')"
proof -
  obtain row where "record_login_failure demo_env 1 ''u1'' (\<lambda>n. lockout_backoff n 172800) 1 1 demo_login = (Inr 1, row)"
    using login_failure_counts [of demo_login "demo_user ''u1'' User" "\<lambda>n. lockout_backoff n 172800" demo_env 1 1 1]
      lockout_backoff_bound [of 172800 1] demo_login_open
    by (auto simp: users_keyed_def demo_login_simps)
  then have "wrong_password demo_login_env demo_login_draws ''u1'' InvalidCredentials demo_login = (Inl InvalidCredentials, row)"
    by (simp add: wrong_password_def demo_login_env_def demo_login_draws_def)
  then show ?thesis
    using demo_login_user demo_login_open demo_login_credential demo_login_verify
    by (simp add: login_with_mfa_def user_active_def demo_login_env_def)
qed

section \<open>Properties\<close>

text \<open>C25: What a password sign-in gives.  A session is established only for a password that verifies
  against the credential of the named account, when that account is active, not locked, without a second
  factor and of the audience asked for; the account must still be allowed to sign in when the session is
  written, whatever happened since the reads.  With a second factor only a pending sign-in is added.  In
  every other case no session is written, and no branch touches a credential.\<close>

theorem login_sound:
  assumes "login_with_mfa le ld username password audience s0 s = (r, cost, s')"
  shows "credentials s' = credentials s \<and>
    (case r of
       Inr (SessionEstablished row) \<Rightarrow>
         (\<exists>u u'. password_accepted le ld username password s0 u \<and> \<not> is_mfa_enabled (u_id u) s0
           \<and> (audience = AdminReaders \<longrightarrow> can_read_admin (u_role u))
           \<and> List.find (by_user_id (u_id u)) (users s) = Some u' \<and> may_sign_in (ld_now ld) u'
           \<and> row = password_session ld (u_id u)
           \<and> sessions s' = evicted_rows (u_id u) (ld_now ld) (s\<lparr>sessions := sessions s @ [row]\<rparr>))
     | Inr (MfaRequired p) \<Rightarrow>
         (\<exists>u. password_accepted le ld username password s0 u \<and> is_mfa_enabled (u_id u) s0
           \<and> (audience = AdminReaders \<longrightarrow> can_read_admin (u_role u))
           \<and> p = build_pending_mfa_row (ld_pending_id ld) (ld_now ld) (u_id u)
           \<and> sessions s' = sessions s \<and> login_pending_mfas s' = login_pending_mfas s @ [p])
     | _ \<Rightarrow> sessions s' = sessions s \<and> login_pending_mfas s' = login_pending_mfas s)"
  using assms
proof (cases rule: login_cases)
  case (unknown reason)
  then show ?thesis
    by (simp add: record_refused_login_def)
next
  case (wrong u e phc)
  then show ?thesis
    using wrong_password_cases [OF wrong(4)] by auto
next
  case (right u phc)
  have session: ?thesis if "\<not> is_mfa_enabled (u_id u) s0" "audience = AdminReaders \<longrightarrow> can_read_admin (u_role u)"
    "r = Inr (SessionEstablished (password_session ld (u_id u)))"
    "sign_in_with_password (le_digest le) (ld_at ld) (password_session ld (u_id u)) s = (Inr n, s')" for n
    using sign_in_commits_session [OF that(4)] sign_in_keeps(2) [OF that(4)] right(1) that(1-3) by auto
  show ?thesis
    using right_password_cases [OF right(3)] right(1) session by (auto simp: Let_def)
qed simp

theorem login_sound_witness:
  "\<exists>s'. login_with_mfa demo_login_env demo_login_draws ''u1'' ''pw'' AnyAudience demo_login demo_login
      = (Inr (SessionEstablished (password_session demo_login_draws ''u1'')), [''x$pw''], s')
    \<and> credentials s' = credentials demo_login
    \<and> sessions s' = evicted_rows ''u1'' 1 (demo_login\<lparr>sessions := sessions demo_login @ [password_session demo_login_draws ''u1'']\<rparr>)"
proof -
  obtain s' where run: "login_with_mfa demo_login_env demo_login_draws ''u1'' ''pw'' AnyAudience demo_login demo_login
      = (Inr (SessionEstablished (password_session demo_login_draws ''u1'')), [''x$pw''], s')"
    using demo_login_right by blast
  have "u_id u = ''u1''" if "password_accepted demo_login_env demo_login_draws ''u1'' ''pw'' demo_login u" for u
    using that demo_login_user demo_login_open(3) by (auto simp: password_accepted_def)
  moreover obtain u where "credentials s' = credentials demo_login"
    "password_accepted demo_login_env demo_login_draws ''u1'' ''pw'' demo_login u"
    "sessions s' = evicted_rows (u_id u) (ld_now demo_login_draws)
      (demo_login\<lparr>sessions := sessions demo_login @ [password_session demo_login_draws ''u1'']\<rparr>)"
    using login_sound [OF run] by auto
  ultimately show ?thesis
    using run by (simp add: demo_login_fields)
qed

text \<open>C29: Every refused sign-in looks the same.  When a sign-in is refused for any reason but a failing
  store (an unknown name, a disabled, deleted or locked account, one that never had a password, a wrong
  password, or an account that was disabled or locked while the password was checked), the answer is the
  same error, exactly one password hash was computed, and no session and no pending sign-in was written.\<close>

theorem login_refusals_look_alike:
  assumes "login_with_mfa le ld username password audience s0 s = (Inl e, cost, s')" "\<forall>err. e \<noteq> Store err"
    and "\<forall>cred \<in> set (credentials s0). phc_parses (le_password le) (cr_password_hash cred)"
  shows "e = InvalidCredentials \<and> length cost = 1 \<and> sessions s' = sessions s
    \<and> login_pending_mfas s' = login_pending_mfas s \<and> credentials s' = credentials s"
  using assms(1)
proof (cases rule: login_cases)
  case (unknown reason)
  then show ?thesis
    by (simp add: record_refused_login_def)
next
  case (storage err)
  then show ?thesis
    using assms(2) by simp
next
  case (wrong u e' phc)
  then show ?thesis
    using wrong_password_cases [OF wrong(4)] assms(2,3) by auto
next
  case (right u phc)
  then show ?thesis
    using right_password_cases [OF right(3)] assms(2) by auto
qed

theorem login_refusals_look_alike_witness:
  "\<exists>cost s'. login_with_mfa demo_login_env demo_login_draws ''nobody'' ''pw'' AnyAudience demo_login demo_login
      = (Inl InvalidCredentials, cost, s') \<and> length cost = 1
    \<and> sessions s' = sessions demo_login \<and> login_pending_mfas s' = []"
proof -
  obtain cost s' where run: "login_with_mfa demo_login_env demo_login_draws ''nobody'' ''pw'' AnyAudience demo_login demo_login
      = (Inl InvalidCredentials, cost, s')"
    by (simp add: login_with_mfa_def find_by_username_def demo_login_simps)
  have "\<forall>cred \<in> set (credentials demo_login). phc_parses (le_password demo_login_env) (cr_password_hash cred)"
    by (simp add: demo_login_simps demo_password_def)
  then show ?thesis
    using run login_refusals_look_alike [OF run] by (simp add: demo_login_simps)
qed

text \<open>The lockout bounds the rate of guessing one attempt after another.  With the lockout cap at a day or more,
  whoever tries passwords at an account strictly one after the other, in any rhythm and with attempts refused in between,
  while nothing else changes the user table, gets at most ten of them compared with the stored hash in the first day and
  one more for each further day.  Attempts that overlap are outside this bound: each reads the counter before the other
  has written it.\<close>

theorem password_guess_rate:
  assumes "guessing le username s ts t" "users_keyed s" "find_by_username username s = Inr u"
    and "0 \<le> u_failed_login_count u" "u_failed_login_count u + int (length ts) < 10 ^ 19"
    and "24 * 60 * 60 \<le> le_max_lockout_secs le" "ts \<noteq> []" "last ts < hd ts + seconds (24 * 60 * 60 * int days)"
  shows "length ts \<le> 9 + days"
proof (rule ccontr)
  assume "\<not> length ts \<le> 9 + days"
  then have n: "length ts = Suc (9 + (length ts - 10))" "days \<le> length ts - 10"
    by simp_all
  let ?n = "length ts - 10"
  have "guess_trace le username (u_id u) (u_failed_login_count u) ts t"
    using guessing_trace [OF assms(1-5)] assms(6) by simp
  then have "ts ! 0 + waited (9 + ?n) \<le> ts ! (9 + ?n)"
    using assms(4,6) n(1) by (intro spaced_waited) (auto simp: guess_trace_def)
  moreover have "seconds (24 * 60 * 60 * int days) < waited (9 + ?n)"
    using n(2) by (simp add: waited_days seconds_def)
  ultimately show False
    using assms(7,8) n(1) by (simp add: last_conv_nth hd_conv_nth)
qed

theorem password_guess_rate_witness:
  "\<exists>t. guessing demo_login_env ''u1'' demo_login [1] t \<and> length [1 :: instant] \<le> 9 + 1"
proof -
  obtain t' where run: "login_with_mfa demo_login_env demo_login_draws ''u1'' ''no'' AnyAudience demo_login demo_login
      = (Inl InvalidCredentials, [''x$pw''], t')"
    using demo_login_wrong by blast
  have "evaluated demo_login_draws ''u1'' demo_login" "\<forall>u. \<not> password_accepted demo_login_env demo_login_draws ''u1'' ''no'' demo_login u"
    using demo_login_user demo_login_open demo_login_credential demo_login_verify
    by (auto simp: evaluated_def password_accepted_def demo_login_env_def)
  then have g: "guessing demo_login_env ''u1'' demo_login ([] @ [ld_fail_lock demo_login_draws]) t'"
    using wrong_guess [OF no_guess _ _ _ _ run] by (simp add: demo_login_draws_def)
  then have g: "guessing demo_login_env ''u1'' demo_login [1] t'"
    by (simp add: demo_login_draws_def)
  have "length [1 :: instant] \<le> 9 + 1"
    by (rule password_guess_rate [OF g _ demo_login_user])
      (simp_all add: demo_login_open users_keyed_def demo_login_simps seconds_def nanos_def)
  then show ?thesis
    using g by blast
qed

text \<open>Which sessions count.  A session resolves to its user exactly when it exists, is neither revoked
  nor expired, belongs to an active user and is not past the idle timeout; nothing is written then.
  Every other presentation is refused as unauthenticated, and a session refused for idleness is revoked,
  so that no later presentation at any time resolves it.\<close>

theorem session_resolves_iff:
  "(resolve cx at now sid s = (Inr uid, s') \<longleftrightarrow> s' = s \<and> session_live sid uid now s
      \<and> (\<forall>row active. get_with_user_active sid s = Inr (row, active) \<longrightarrow> \<not> past_idle_timeout s now row))
   \<and> (resolve cx at now sid s = (Inl e, s') \<longrightarrow> e = Unauthenticated \<and>
      (session_live sid uid now s \<longrightarrow> (\<forall>r \<in> set (sessions s'). s_id r = sid \<longrightarrow> s_revoked_at r \<noteq> None)
        \<and> fst (resolve cx at' now' sid s') = Inl Unauthenticated))"
proof (cases "get_with_user_active sid s")
  case (Inl err)
  then have "err = StoreNotFound"
    by (auto simp: get_with_user_active_def split: option.splits)
  then show ?thesis
    using Inl by (auto simp: resolve_def session_live_def)
next
  case (Inr v)
  obtain row active where v: "v = (row, active)"
    by fastforce
  let ?out = "s_revoked_at row \<noteq> None \<or> s_expires_at row \<le> now \<or> \<not> active"
  have live: "session_live sid uid now s \<longleftrightarrow> s_user_id row = uid \<and> \<not> ?out"
    using Inr v by (auto simp: session_live_def)
  show ?thesis
  proof (cases "\<not> ?out \<and> past_idle_timeout s now row")
    case idle: True
    let ?rows = "update_where (\<lambda>r. s_id r = sid \<and> s_revoked_at r = None) (\<lambda>r. r\<lparr>s_revoked_at := Some now\<rparr>) (sessions s)"
    obtain t where t: "revoke_session_idle_timeout cx at (s_user_id row) sid now s = (Inr (), t)" "sessions t = ?rows"
      using revoke_idle_commits by blast
    have run: "resolve cx at now sid s = (Inl Unauthenticated, t)"
      using Inr v idle t(1) by (simp add: resolve_def)
    have gone: "\<forall>r \<in> set (sessions t). s_id r = sid \<longrightarrow> s_revoked_at r \<noteq> None"
      unfolding t(2) by (rule all_update_where) auto
    have "fst (resolve cx at' now' sid t) = Inl Unauthenticated"
    proof (cases "get_with_user_active sid t")
      case (Inr w)
      then have "s_revoked_at (fst w) \<noteq> None"
        using gone by (auto simp: get_with_user_active_def by_session_id_def dest!: find_Some_in split: option.splits)
      then show ?thesis
        using Inr by (cases w) (auto simp: resolve_def)
    qed (auto simp: resolve_def get_with_user_active_def split: option.splits)
    moreover have "\<not> (\<forall>row active. get_with_user_active sid s = Inr (row, active) \<longrightarrow> \<not> past_idle_timeout s now row)"
      using Inr v idle by blast
    ultimately show ?thesis
      using run gone by auto
  next
    case False
    then have "resolve cx at now sid s = (if ?out then (Inl Unauthenticated, s) else (Inr (s_user_id row), s))"
      using Inr v by (auto simp: resolve_def)
    then show ?thesis
      using Inr v False live by auto
  qed
qed

theorem session_resolves_iff_witness:
  "resolve demo_env 0 0 ''s2'' demo_login = (Inr ''u1'', demo_login)
    \<and> fst (resolve demo_env 0 (seconds 1000) ''s2'' demo_login) = Inl Unauthenticated"
proof -
  have row: "get_with_user_active ''s2'' demo_login = Inr (demo_session ''s2'' ''u1'', True)"
    by (simp add: get_with_user_active_def demo_login_simps by_session_id_def by_user_id_def user_active_def)
  have "session_live ''s2'' ''u1'' 0 demo_login" "\<not> past_idle_timeout demo_login t (demo_session ''s2'' ''u1'')" for t
    using row by (simp_all add: session_live_def past_idle_timeout_def settings_get_def demo_login_simps seconds_def nanos_def)
  then have "resolve demo_env 0 0 ''s2'' demo_login = (Inr ''u1'', demo_login)"
    using session_resolves_iff [of demo_env 0 0 "''s2''" demo_login "''u1''" demo_login] row by auto
  moreover have "\<not> session_live ''s2'' uid (seconds 1000) demo_login" for uid
    using row by (simp add: session_live_def demo_session_def)
  then have "fst (resolve demo_env 0 (seconds 1000) ''s2'' demo_login) \<noteq> Inr uid" for uid
    using session_resolves_iff [of demo_env 0 "seconds 1000" "''s2''" demo_login uid "snd (resolve demo_env 0 (seconds 1000) ''s2'' demo_login)"]
    by (metis prod.collapse)
  then have "fst (resolve demo_env 0 (seconds 1000) ''s2'' demo_login) = Inl Unauthenticated"
    using session_resolves_iff [of demo_env 0 "seconds 1000" "''s2''" demo_login]
    by (metis prod.collapse sum.exhaust)
  ultimately show ?thesis
    by blast
qed

end
