(* ===== verification/Upstream_Identity.thy ===== *)
theory Upstream_Identity
  imports Id_Token Login Federation
begin

text \<open>
  From a verified ID token to a local identity (crate \<open>sui-id\<close>): the bounded optional claims
  (\<open>http/optional_claims.rs\<close>), the identity capability (\<open>identity_capability.rs\<close>), its resolution
  (\<open>identity_resolution.rs\<close>), the derived user name (\<open>federation_identity.rs\<close>) and the return path
  (\<open>same_site_return_path.rs\<close>).  \<open>char::is_alphanumeric\<close> and \<open>str::to_lowercase\<close>, Unicode tables, are parameters.
\<close>

section \<open>Optional claims\<close>

definition is_bidi_override_or_isolate :: "string \<Rightarrow> bool" where
  "is_bidi_override_or_isolate c =
    (let n = code_point c in (0x202A \<le> n \<and> n \<le> 0x202E) \<or> (0x2066 \<le> n \<and> n \<le> 0x2069))"

definition is_mailbox_shaped :: "string \<Rightarrow> bool" where
  "is_mailbox_shaped s =
    (case split_once CHR ''@'' s of
       None \<Rightarrow> False
     | Some (loc, domain) \<Rightarrow>
        if CHR ''@'' \<in> set domain then False
        else let plain = (\<lambda>c. \<not> is_whitespace c \<and> \<not> is_control c) in
          loc \<noteq> [] \<and> list_all plain (utf8_chars loc)
          \<and> domain \<noteq> [] \<and> \<not> prefix ''.'' domain \<and> \<not> suffix ''.'' domain \<and> \<not> sublist ''..'' domain
          \<and> list_all plain (utf8_chars domain))"

datatype optional_claims_error =
    EmailWrongType | EmailTooLong | EmailNotMailboxShaped | EmailVerifiedWrongType
  | PreferredUsernameWrongType | PreferredUsernameTooManyBytes | PreferredUsernameTooManyScalars
  | PreferredUsernameHasControlOrBidi
  | NameWrongType | NameTooManyBytes | NameTooManyScalars | NameHasControlOrBidi
  | AmrWrongType | AmrTooMany | AmrElementWrongType | AmrElementLength | AmrElementNotVisibleAscii | AmrDuplicate
  | AcrWrongType | AcrLength | AcrNotVisibleAscii
  | AuthTimeInvalid numeric_date_error
  | AtHashWrongType | AtHashLength | AtHashNotVisibleAscii

definition validate_email :: "json \<Rightarrow> optional_claims_error + string option" where
  "validate_email claims =
    (case json_get ''email'' claims of
       None \<Rightarrow> Inr None
     | Some v \<Rightarrow>
        (case as_str v of
           None \<Rightarrow> Inl EmailWrongType
         | Some email \<Rightarrow>
            if length email > 254 then Inl EmailTooLong
            else if \<not> is_mailbox_shaped email then Inl EmailNotMailboxShaped
            else Inr (Some email)))"

definition validate_email_verified :: "json \<Rightarrow> optional_claims_error + bool" where
  "validate_email_verified claims =
    (case json_get ''email_verified'' claims of
       None \<Rightarrow> Inr False
     | Some v \<Rightarrow> (case as_bool v of None \<Rightarrow> Inl EmailVerifiedWrongType | Some b \<Rightarrow> Inr b))"

definition validate_bounded_display_string ::
  "string \<Rightarrow> nat \<Rightarrow> nat \<Rightarrow> optional_claims_error \<Rightarrow> optional_claims_error \<Rightarrow> optional_claims_error \<Rightarrow> optional_claims_error option" where
  "validate_bounded_display_string value max_bytes max_scalars too_many_bytes too_many_scalars has_control_or_bidi =
    (if length value > max_bytes then Some too_many_bytes
     else if length (utf8_chars value) > max_scalars then Some too_many_scalars
     else if list_ex (\<lambda>c. is_control c \<or> is_bidi_override_or_isolate c) (utf8_chars value) then Some has_control_or_bidi
     else None)"

definition validate_preferred_username :: "json \<Rightarrow> optional_claims_error + string option" where
  "validate_preferred_username claims =
    (case json_get ''preferred_username'' claims of
       None \<Rightarrow> Inr None
     | Some v \<Rightarrow>
        (case as_str v of
           None \<Rightarrow> Inl PreferredUsernameWrongType
         | Some s \<Rightarrow>
            (case validate_bounded_display_string s 512 128 PreferredUsernameTooManyBytes PreferredUsernameTooManyScalars
                PreferredUsernameHasControlOrBidi of
               Some e \<Rightarrow> Inl e
             | None \<Rightarrow> Inr (Some s))))"

definition validate_name :: "json \<Rightarrow> optional_claims_error + string option" where
  "validate_name claims =
    (case json_get ''name'' claims of
       None \<Rightarrow> Inr None
     | Some v \<Rightarrow>
        (case as_str v of
           None \<Rightarrow> Inl NameWrongType
         | Some s \<Rightarrow>
            (case validate_bounded_display_string s 1024 256 NameTooManyBytes NameTooManyScalars NameHasControlOrBidi of
               Some e \<Rightarrow> Inl e
             | None \<Rightarrow> Inr (Some s))))"

fun check_amr :: "string list \<Rightarrow> json list \<Rightarrow> optional_claims_error option" where
  "check_amr seen [] = None"
| "check_amr seen (item # items) =
    (case as_str item of
       None \<Rightarrow> Some AmrElementWrongType
     | Some s \<Rightarrow>
        if \<not> (1 \<le> length s \<and> length s \<le> 64) then Some AmrElementLength
        else if \<not> list_all is_visible_ascii_byte s then Some AmrElementNotVisibleAscii
        else if s \<in> set seen then Some AmrDuplicate
        else check_amr (s # seen) items)"

definition validate_amr :: "json \<Rightarrow> optional_claims_error option" where
  "validate_amr claims =
    (case json_get ''amr'' claims of
       None \<Rightarrow> None
     | Some v \<Rightarrow>
        (case as_array v of
           None \<Rightarrow> Some AmrWrongType
         | Some items \<Rightarrow> if length items > 16 then Some AmrTooMany else check_amr [] items))"

definition validate_acr :: "json \<Rightarrow> optional_claims_error option" where
  "validate_acr claims =
    (case json_get ''acr'' claims of
       None \<Rightarrow> None
     | Some v \<Rightarrow>
        (case as_str v of
           None \<Rightarrow> Some AcrWrongType
         | Some s \<Rightarrow>
            if \<not> (1 \<le> length s \<and> length s \<le> 256) then Some AcrLength
            else if \<not> list_all is_visible_ascii_byte s then Some AcrNotVisibleAscii
            else None))"

definition validate_auth_time :: "json \<Rightarrow> optional_claims_error option" where
  "validate_auth_time claims =
    (case json_get ''auth_time'' claims of
       None \<Rightarrow> None
     | Some v \<Rightarrow> (case numeric_date v of Inl e \<Rightarrow> Some (AuthTimeInvalid e) | Inr _ \<Rightarrow> None))"

definition validate_at_hash :: "json \<Rightarrow> optional_claims_error option" where
  "validate_at_hash claims =
    (case json_get ''at_hash'' claims of
       None \<Rightarrow> None
     | Some v \<Rightarrow>
        (case as_str v of
           None \<Rightarrow> Some AtHashWrongType
         | Some s \<Rightarrow>
            if \<not> (1 \<le> length s \<and> length s \<le> 256) then Some AtHashLength
            else if \<not> list_all is_visible_ascii_byte s then Some AtHashNotVisibleAscii
            else None))"

record validated_optional_claims =
  oc_verified_email :: "string option"
  oc_preferred_username :: "string option"
  oc_name :: "string option"

definition validate_optional_claims :: "json \<Rightarrow> optional_claims_error + validated_optional_claims" where
  "validate_optional_claims claims =
    (case validate_email claims of Inl e \<Rightarrow> Inl e | Inr email \<Rightarrow>
    (case validate_email_verified claims of Inl e \<Rightarrow> Inl e | Inr email_verified \<Rightarrow>
    (case validate_preferred_username claims of Inl e \<Rightarrow> Inl e | Inr preferred_username \<Rightarrow>
    (case validate_name claims of Inl e \<Rightarrow> Inl e | Inr nm \<Rightarrow>
    (case validate_amr claims of Some e \<Rightarrow> Inl e | None \<Rightarrow>
    (case validate_acr claims of Some e \<Rightarrow> Inl e | None \<Rightarrow>
    (case validate_auth_time claims of Some e \<Rightarrow> Inl e | None \<Rightarrow>
    (case validate_at_hash claims of Some e \<Rightarrow> Inl e | None \<Rightarrow>
      Inr \<lparr> oc_verified_email = (if email_verified then email else None),
            oc_preferred_username = preferred_username, oc_name = nm \<rparr>))))))))"

section \<open>The capability and its resolution\<close>

text \<open>The binding is the provider with the version and the generation of its configuration.\<close>

record identity_capability =
  ic_provider :: "uuid \<times> int \<times> int"
  ic_sub :: string
  ic_verified_email :: "string option"
  ic_preferred_username :: "string option"
  ic_name :: "string option"
  ic_validated_at :: instant

definition construct_identity_capability ::
  "string \<Rightarrow> validated_optional_claims \<Rightarrow> uuid \<times> int \<times> int \<Rightarrow> instant \<Rightarrow> identity_capability" where
  "construct_identity_capability identity optional provider validated_at =
    \<lparr> ic_provider = provider, ic_sub = identity, ic_verified_email = oc_verified_email optional,
      ic_preferred_username = oc_preferred_username optional, ic_name = oc_name optional,
      ic_validated_at = validated_at \<rparr>"

datatype identity_resolution =
    ExistingLink uuid
  | ResolvedLinkRequired
  | ProvisionEligible
  | DeniedCollision
  | DeniedUnverified

definition resolve_verified_identity ::
  "(string \<Rightarrow> string) \<Rightarrow> identity_capability \<Rightarrow> provision_mode \<Rightarrow> store \<Rightarrow> store \<Rightarrow> identity_resolution" where
  "resolve_verified_identity lower capability mode s s1 =
    (case link_find_by_sub (fst (ic_provider capability)) (ic_sub capability) s of
       Some link \<Rightarrow> ExistingLink (fl_user_id link)
     | None \<Rightarrow>
        (case mode of
           LinkOnly \<Rightarrow> ResolvedLinkRequired
         | ProvisionOnFirstLogin \<Rightarrow>
            (case ic_verified_email capability of
               None \<Rightarrow> DeniedUnverified
             | Some email \<Rightarrow>
                if find_by_email_normalized (normalize_email lower email) s1 \<noteq> None then DeniedCollision
                else ProvisionEligible)))"

section \<open>User names\<close>

definition kept_chars :: "(string \<Rightarrow> bool) \<Rightarrow> nat \<Rightarrow> string \<Rightarrow> string" where
  "kept_chars p n s = concat (take n (filter p (utf8_chars s)))"

definition derive_username :: "(string \<Rightarrow> bool) \<Rightarrow> identity_capability \<Rightarrow> string" where
  "derive_username is_alphanumeric capability =
    (let fallback = concat (take 16 (utf8_chars (ic_sub capability)));
         from_email = (case ic_verified_email capability of
             None \<Rightarrow> fallback
           | Some email \<Rightarrow>
              let clean = kept_chars (\<lambda>c. is_alphanumeric c \<or> c = ''-'' \<or> c = ''_'') 32 (hd (split_on CHR ''@'' email)) in
              if clean \<noteq> [] then clean else fallback) in
     case ic_preferred_username capability of
       None \<Rightarrow> from_email
     | Some pu \<Rightarrow>
        let clean = kept_chars (\<lambda>c. is_alphanumeric c \<or> c = ''-'' \<or> c = ''_'' \<or> c = ''.'') 32 pu in
        if clean \<noteq> [] then clean else from_email)"

text \<open>The suffixes 2 to 1000 in turn; \<open>fresh\<close> is the random identifier behind the last resort.\<close>

definition resolve_shadow_username :: "uuid \<Rightarrow> string \<Rightarrow> store \<Rightarrow> string" where
  "resolve_shadow_username fresh proposed s =
    (if \<not> is_ok (find_by_username proposed s) then proposed
     else (case List.find (\<lambda>n. \<not> is_ok (find_by_username (proposed @ dec n) s)) [2..<1001] of
         Some n \<Rightarrow> proposed @ dec n
       | None \<Rightarrow> proposed @ ''-'' @ fresh))"

section \<open>Return paths\<close>

definition same_site_return_path :: "string \<Rightarrow> string option" where
  "same_site_return_path raw =
    (if raw = [] then None
     else if \<not> prefix ''/'' raw then None
     else if 1 < length raw \<and> raw ! 1 = CHR ''/'' then None
     else if CHR 0x5C \<in> set raw then None
     else if list_ex is_control (utf8_chars raw) then None
     else Some raw)"

section \<open>What the rules let through\<close>

text \<open>A claim set names a user for a client: issuer, subject, audience and authorised party.\<close>

definition audience_of :: "json \<Rightarrow> string list option" where
  "audience_of claims =
    (case json_get ''aud'' claims of Some (JString a) \<Rightarrow> Some [a] | Some (JArray items) \<Rightarrow> all_strings items | _ \<Rightarrow> None)"

definition speaks_of :: "json \<Rightarrow> string \<Rightarrow> string \<Rightarrow> string \<Rightarrow> bool" where
  "speaks_of claims issuer client_id sub =
    (get_str ''iss'' claims = Some issuer \<and> get_str ''sub'' claims = Some sub \<and> sub \<noteq> []
      \<and> (\<exists>auds. audience_of claims = Some auds \<and> client_id \<in> set auds
        \<and> (get_str ''azp'' claims = Some client_id \<or> (auds = [client_id] \<and> json_get ''azp'' claims = None))))"

lemma validate_audience_Inr:
  assumes "validate_audience claims client_id = Inr auds"
  shows "audience_of claims = Some auds" "client_id \<in> set auds" "auds \<noteq> []"
  using assms by (auto simp: validate_audience_def audience_of_def split: option.splits json.splits if_splits)

lemma validate_identity_claims_Inr:
  assumes "validate_identity_claims claims issuer client_id = Inr sub"
  shows "speaks_of claims issuer client_id sub"
proof -
  obtain auds where iss: "validate_claim_issuer claims issuer = None" and sub: "validate_subject claims = Inr sub"
    and aud: "validate_audience claims client_id = Inr auds" and azp: "validate_azp claims auds client_id = None"
    using assms by (auto simp: validate_identity_claims_def case_sum_Inr case_error_Inr)
  note auds = validate_audience_Inr [OF aud]
  have "get_str ''iss'' claims = Some issuer"
    using iss by (auto simp: validate_claim_issuer_def get_str_def split: option.splits if_splits)
  moreover have "get_str ''sub'' claims = Some sub" "sub \<noteq> []"
    using sub by (auto simp: validate_subject_def get_str_def split: option.splits if_splits)
  moreover have "get_str ''azp'' claims = Some client_id \<or> (length auds \<le> 1 \<and> json_get ''azp'' claims = None)"
    using azp by (auto simp: validate_azp_def get_str_def split: option.splits if_splits)
  moreover have "auds = [client_id]" if "length auds \<le> 1"
    using that auds(2) by (cases auds) auto
  ultimately show ?thesis
    using auds by (auto simp: speaks_of_def)
qed

lemma validate_nonce_None:
  assumes "validate_nonce cx claims (hex_lower h) = None"
  shows "\<exists>nonce. get_str ''nonce'' claims = Some nonce \<and> sha256 cx nonce = h"
  using assms hex_lower_inj by (auto simp: validate_nonce_def get_str_def split: option.splits if_splits)

lemma validate_iat_None:
  assumes "validate_iat claims created now = None"
  shows "\<exists>v iat. json_get ''iat'' claims = Some v \<and> numeric_date v = Inr iat
    \<and> timestamp created - 60 \<le> iat \<and> iat \<le> timestamp now + 60"
  using assms by (auto simp: validate_iat_def SKEW_SECONDS_def split: option.splits sum.splits if_splits)

lemma validate_optional_email:
  assumes "validate_optional_claims claims = Inr oc" "oc_verified_email oc = Some email"
  shows "get_str ''email'' claims = Some email" "json_get ''email_verified'' claims = Some (JBool True)"
proof -
  obtain em ev where e: "validate_email claims = Inr em" "validate_email_verified claims = Inr ev"
    and v: "(if ev then em else None) = Some email"
    using assms by (auto simp: validate_optional_claims_def case_sum_Inr case_error_Inr)
  then show "get_str ''email'' claims = Some email" "json_get ''email_verified'' claims = Some (JBool True)"
    by (auto simp: validate_email_def validate_email_verified_def get_str_def split: option.splits if_splits elim!: as_bool.elims)
qed

text \<open>How a browser reads a path: tabs and line breaks are dropped and backslashes are slashes.\<close>

definition as_browser_reads :: "string \<Rightarrow> string" where
  "as_browser_reads s =
    map (\<lambda>c. if byte c = 0x5C then CHR ''/'' else c) (filter (\<lambda>c. byte c \<noteq> 9 \<and> byte c \<noteq> 10 \<and> byte c \<noteq> 13) s)"

text \<open>A return path stays on the site.  An accepted path is returned unchanged; it begins with a slash, and also
  after a browser has dropped tabs and line breaks and turned backslashes into slashes it does not begin with two
  slashes, so it never names another host.
\<close>

theorem return_path_stays_on_site:
  assumes "same_site_return_path raw = Some path" "utf8_valid raw"
  shows "path = raw \<and> as_browser_reads path = path \<and> prefix ''/'' path \<and> \<not> prefix ''//'' path"
proof -
  have r: "path = raw" "prefix ''/'' raw" "\<not> (1 < length raw \<and> raw ! 1 = CHR ''/'')" "CHR 0x5C \<notin> set raw"
    and ctl: "\<not> list_ex is_control (utf8_chars raw)"
    using assms(1) by (auto simp: same_site_return_path_def split: if_splits)
  have "\<not> prefix ''//'' raw"
    using r(3) by (auto simp: prefix_def)
  moreover have "32 \<le> byte c" if "c \<in> set raw" for c
  proof -
    have "c \<in> set (concat (utf8_chars raw))"
      unfolding concat_utf8_chars by (rule that)
    then obtain ch where ch: "ch \<in> set (utf8_chars raw)" "c \<in> set ch"
      unfolding set_concat by blast
    show ?thesis
    proof (cases "\<exists>a. ch = [a] \<and> byte a < 128")
      case True
      then show ?thesis
        using ch ctl by (force simp: list_ex_iff is_control_def code_point_def byte_at_def Let_def)
    next
      case False
      then show ?thesis
        using utf8_chars_shape [OF assms(2) ch(1)] ch(2) by fastforce
    qed
  qed
  moreover have "byte c \<noteq> 0x5C" if "c \<in> set raw" for c
  proof
    assume "byte c = 0x5C"
    moreover have "byte (CHR 0x5C) = 0x5C"
      by code_simp
    ultimately have "c = CHR 0x5C"
      by (simp add: byte_eq_iff [symmetric])
    then show False
      using that r(4) by simp
  qed
  ultimately have "as_browser_reads raw = raw"
    unfolding as_browser_reads_def
    by (subst filter_True) (fastforce, intro map_idI, simp)
  then show ?thesis
    using r \<open>\<not> prefix ''//'' raw\<close> by simp
qed

theorem return_path_stays_on_site_witness:
  "same_site_return_path ''/me'' = Some ''/me'' \<and> as_browser_reads ''/me'' = ''/me''"
proof -
  have "same_site_return_path ''/me'' = Some ''/me''" "utf8_valid ''/me''"
    by code_simp+
  then show ?thesis
    using return_path_stays_on_site by blast
qed

end
