(* ===== verification/Discovery.thy ===== *)
theory Discovery
  imports Jwks Authorize
begin

text \<open>
  The discovery document of an upstream provider (\<open>http/discovery.rs\<close> and \<open>fetch_discovery\<close> of
  \<open>http/handlers/federation.rs\<close>).  URL parsing, serialisation and origins are the \<open>url\<close> crate's; an origin
  is its ASCII serialisation, \<open>None\<close> when it is opaque and so equal to no other.  The derived conversion of a
  JSON value to \<open>RawDiscovery\<close> is a parameter.
\<close>

record url_env = web_env +
  url_as_str :: "url \<Rightarrow> string"
  url_origin :: "url \<Rightarrow> string option"

record raw_discovery =
  rd_issuer :: string
  rd_authorization_endpoint :: string
  rd_token_endpoint :: string
  rd_userinfo_endpoint :: "string option"
  rd_jwks_uri :: "string option"
  rd_response_types_supported :: "string list"
  rd_grant_types_supported :: "string list option"
  rd_code_challenge_methods_supported :: "string list"
  rd_authorization_response_iss_parameter_supported :: bool
  rd_token_endpoint_auth_methods_supported :: "string list"
  rd_id_token_signing_alg_values_supported :: "string list"
  rd_subject_types_supported :: "string list"

datatype discovery_error =
    InvalidIssuer string
  | NotAbsolute string string
  | NotHttps string string
  | HasUserinfo string
  | HasQuery string
  | HasFragment string
  | Noncanonical string
  | OriginNotAllowed string string
  | DiscoveryIssuerMismatch
  | ResponseTypesMissingCode
  | GrantTypesMissingAuthorizationCode
  | CodeChallengeMethodsMissingS256
  | AuthorizationResponseIssNotTrue
  | SubjectTypesMissingPublic
  | DiscoveryBounds bounds_error
  | DiscoveryTooDeep nat
  | DiscoveryDuplicateMember string
  | DiscoveryNotJson

definition DISCOVERY_MAX_DEPTH :: nat where
  "DISCOVERY_MAX_DEPTH = 16"

record validated_discovery =
  vd_authorization_endpoint :: string
  vd_token_endpoint :: string
  vd_userinfo_endpoint :: "string option"
  vd_jwks_uri :: "string option"
  vd_token_endpoint_auth_methods_supported :: "string list"
  vd_id_token_signing_alg_values_supported :: "string list"

definition supports_token_endpoint_auth_method :: "validated_discovery \<Rightarrow> string \<Rightarrow> bool" where
  "supports_token_endpoint_auth_method d configured_method =
    list_ex (\<lambda>m. m = configured_method) (vd_token_endpoint_auth_methods_supported d)"

definition id_token_algs_intersection :: "validated_discovery \<Rightarrow> string list \<Rightarrow> string list" where
  "id_token_algs_intersection d configured =
    filter (\<lambda>alg. alg \<in> set (vd_id_token_signing_alg_values_supported d)) configured"

definition check_endpoint :: "url_env \<Rightarrow> string \<Rightarrow> string \<Rightarrow> string option list \<Rightarrow> discovery_error + string" where
  "check_endpoint ue field value allowed =
    (case url_parse ue value of
       None \<Rightarrow> Inl (NotAbsolute field value)
     | Some u \<Rightarrow>
        if url_scheme u \<noteq> ''https'' then Inl (NotHttps field value)
        else if url_username u \<noteq> [] \<or> url_password u \<noteq> None then Inl (HasUserinfo field)
        else if url_query u \<noteq> None then Inl (HasQuery field)
        else if url_fragment u \<noteq> None then Inl (HasFragment field)
        else if url_as_str ue u \<noteq> value then Inl (Noncanonical field)
        else if url_origin ue u = None \<or> url_origin ue u \<notin> set allowed
          then Inl (OriginNotAllowed field (case url_origin ue u of None \<Rightarrow> ''null'' | Some o' \<Rightarrow> o'))
        else Inr value)"

definition check_optional_endpoint ::
  "url_env \<Rightarrow> string \<Rightarrow> string option \<Rightarrow> string option list \<Rightarrow> discovery_error + string option" where
  "check_optional_endpoint ue field value allowed =
    (case value of
       None \<Rightarrow> Inr None
     | Some v \<Rightarrow> (case check_endpoint ue field v allowed of Inl e \<Rightarrow> Inl e | Inr w \<Rightarrow> Inr (Some w)))"

fun parse_origins :: "url_env \<Rightarrow> string list \<Rightarrow> string option list option" where
  "parse_origins ue [] = Some []"
| "parse_origins ue (t # ts) =
    (case url_parse ue t of
       None \<Rightarrow> None
     | Some u \<Rightarrow> (case parse_origins ue ts of None \<Rightarrow> None | Some os \<Rightarrow> Some (url_origin ue u # os)))"

definition allowed_set :: "url_env \<Rightarrow> string \<Rightarrow> string \<Rightarrow> discovery_error + string option list" where
  "allowed_set ue issuer allowed_origins =
    (case url_parse ue issuer of
       None \<Rightarrow> Inl (InvalidIssuer issuer)
     | Some iu \<Rightarrow>
        if str_trim allowed_origins = [] then Inr [url_origin ue iu]
        else (case parse_origins ue (split_whitespace allowed_origins) of
            None \<Rightarrow> Inl (InvalidIssuer issuer)
          | Some os \<Rightarrow> Inr os))"

definition check_metadata :: "raw_discovery \<Rightarrow> discovery_error option" where
  "check_metadata raw =
    (if ''code'' \<notin> set (rd_response_types_supported raw) then Some ResponseTypesMissingCode
     else if (case rd_grant_types_supported raw of None \<Rightarrow> False | Some grants \<Rightarrow> ''authorization_code'' \<notin> set grants)
       then Some GrantTypesMissingAuthorizationCode
     else if ''S256'' \<notin> set (rd_code_challenge_methods_supported raw) then Some CodeChallengeMethodsMissingS256
     else if \<not> rd_authorization_response_iss_parameter_supported raw then Some AuthorizationResponseIssNotTrue
     else if ''public'' \<notin> set (rd_subject_types_supported raw) then Some SubjectTypesMissingPublic
     else None)"

definition validate_discovery :: "url_env \<Rightarrow> raw_discovery \<Rightarrow> string \<Rightarrow> string \<Rightarrow> discovery_error + validated_discovery" where
  "validate_discovery ue raw issuer allowed_origins =
    (if rd_issuer raw \<noteq> issuer then Inl DiscoveryIssuerMismatch
     else
    (case allowed_set ue issuer allowed_origins of Inl e \<Rightarrow> Inl e | Inr allowed \<Rightarrow>
    (case check_endpoint ue ''authorization_endpoint'' (rd_authorization_endpoint raw) allowed of Inl e \<Rightarrow> Inl e | Inr ae \<Rightarrow>
    (case check_endpoint ue ''token_endpoint'' (rd_token_endpoint raw) allowed of Inl e \<Rightarrow> Inl e | Inr te \<Rightarrow>
    (case check_optional_endpoint ue ''userinfo_endpoint'' (rd_userinfo_endpoint raw) allowed of Inl e \<Rightarrow> Inl e | Inr uie \<Rightarrow>
    (case check_optional_endpoint ue ''jwks_uri'' (rd_jwks_uri raw) allowed of Inl e \<Rightarrow> Inl e | Inr ju \<Rightarrow>
    (case check_metadata raw of
       Some e \<Rightarrow> Inl e
     | None \<Rightarrow> Inr \<lparr> vd_authorization_endpoint = ae, vd_token_endpoint = te, vd_userinfo_endpoint = uie, vd_jwks_uri = ju,
         vd_token_endpoint_auth_methods_supported = rd_token_endpoint_auth_methods_supported raw,
         vd_id_token_signing_alg_values_supported = rd_id_token_signing_alg_values_supported raw \<rparr>)))))))"

definition validate_discovery_bytes ::
  "url_env \<Rightarrow> (string \<Rightarrow> json option) \<Rightarrow> (json \<Rightarrow> raw_discovery option) \<Rightarrow> string \<Rightarrow> string \<Rightarrow> string
    \<Rightarrow> discovery_error + validated_discovery" where
  "validate_discovery_bytes ue parse to_raw bytes issuer allowed_origins =
    (if length bytes > MAX_RESPONSE_BYTES then Inl (DiscoveryBounds (TooLarge MAX_RESPONSE_BYTES))
     else (case parse bytes of
         None \<Rightarrow> Inl DiscoveryNotJson
       | Some doc \<Rightarrow>
          (case check_caps DISCOVERY_CAPS (value_of doc) of
             Some e \<Rightarrow> Inl (DiscoveryBounds e)
           | None \<Rightarrow>
              if nesting_depth (value_of doc) > DISCOVERY_MAX_DEPTH then Inl (DiscoveryTooDeep DISCOVERY_MAX_DEPTH)
              else (case first_repeated_member doc of
                  Some name \<Rightarrow> Inl (DiscoveryDuplicateMember name)
                | None \<Rightarrow>
                   (case to_raw (value_of doc) of
                      None \<Rightarrow> Inl DiscoveryNotJson
                    | Some raw \<Rightarrow> validate_discovery ue raw issuer allowed_origins)))))"

definition validate_issuer :: "url_env \<Rightarrow> string \<Rightarrow> discovery_error + url" where
  "validate_issuer ue issuer =
    (case url_parse ue issuer of
       None \<Rightarrow> Inl (InvalidIssuer issuer)
     | Some u \<Rightarrow> if url_scheme u \<noteq> ''https'' then Inl (InvalidIssuer issuer) else Inr u)"

section \<open>Fetching\<close>

datatype fetch_discovery_error = FdNetwork | FdInvalid discovery_error

definition is_invalid :: "fetch_discovery_error \<Rightarrow> bool" where
  "is_invalid e = (case e of FdInvalid _ \<Rightarrow> True | FdNetwork \<Rightarrow> False)"

definition trim_end_slashes :: "string \<Rightarrow> string" where
  "trim_end_slashes s = rev (dropWhile (\<lambda>c. c = CHR ''/'') (rev s))"

definition fetch_discovery ::
  "url_env \<Rightarrow> (string \<Rightarrow> json option) \<Rightarrow> (json \<Rightarrow> raw_discovery option) \<Rightarrow> (string \<Rightarrow> response option) \<Rightarrow> string \<Rightarrow> string
    \<Rightarrow> fetch_discovery_error + validated_discovery" where
  "fetch_discovery ue parse to_raw get issuer allowed_origins =
    (case validate_issuer ue issuer of
       Inl e \<Rightarrow> Inl (FdInvalid e)
     | Inr iu \<Rightarrow>
        (case get (trim_end_slashes (url_as_str ue iu) @ ''/.well-known/openid-configuration'') of
           None \<Rightarrow> Inl FdNetwork
         | Some resp \<Rightarrow>
            (case read_bounded_body resp of
               Inl e \<Rightarrow> Inl FdNetwork
             | Inr bytes \<Rightarrow>
                (case validate_discovery_bytes ue parse to_raw bytes issuer allowed_origins of
                   Inl e \<Rightarrow> Inl (FdInvalid e)
                 | Inr d \<Rightarrow> Inr d))))"

section \<open>What a validated document guarantees\<close>

definition approved :: "url_env \<Rightarrow> string option list \<Rightarrow> string \<Rightarrow> bool" where
  "approved ue allowed v =
    (\<exists>u o'. url_parse ue v = Some u \<and> url_scheme u = ''https'' \<and> url_username u = [] \<and> url_password u = None
      \<and> url_query u = None \<and> url_fragment u = None \<and> url_as_str ue u = v \<and> url_origin ue u = Some o' \<and> Some o' \<in> set allowed)"

lemma check_endpoint_Inr: "check_endpoint ue field v allowed = Inr w \<longleftrightarrow> w = v \<and> approved ue allowed v"
  by (auto simp: check_endpoint_def approved_def split: option.splits if_splits)

lemma check_optional_endpoint_Inr:
  "check_optional_endpoint ue field v allowed = Inr w \<longleftrightarrow> w = v \<and> pred_option (approved ue allowed) v"
  by (cases v) (auto simp: check_optional_endpoint_def check_endpoint_Inr case_sum_Inr)

lemma check_metadata_None:
  "check_metadata raw = None \<longleftrightarrow>
    ''code'' \<in> set (rd_response_types_supported raw)
    \<and> pred_option (\<lambda>grants. ''authorization_code'' \<in> set grants) (rd_grant_types_supported raw)
    \<and> ''S256'' \<in> set (rd_code_challenge_methods_supported raw)
    \<and> rd_authorization_response_iss_parameter_supported raw \<and> ''public'' \<in> set (rd_subject_types_supported raw)"
  by (cases "rd_grant_types_supported raw") (simp_all add: check_metadata_def)

lemma validate_discovery_Inr:
  "validate_discovery ue raw issuer origins = Inr d \<longleftrightarrow>
    rd_issuer raw = issuer \<and> check_metadata raw = None \<and>
    (\<exists>allowed. allowed_set ue issuer origins = Inr allowed
      \<and> approved ue allowed (rd_authorization_endpoint raw) \<and> approved ue allowed (rd_token_endpoint raw)
      \<and> pred_option (approved ue allowed) (rd_userinfo_endpoint raw) \<and> pred_option (approved ue allowed) (rd_jwks_uri raw))
    \<and> d = \<lparr> vd_authorization_endpoint = rd_authorization_endpoint raw, vd_token_endpoint = rd_token_endpoint raw,
         vd_userinfo_endpoint = rd_userinfo_endpoint raw, vd_jwks_uri = rd_jwks_uri raw,
         vd_token_endpoint_auth_methods_supported = rd_token_endpoint_auth_methods_supported raw,
         vd_id_token_signing_alg_values_supported = rd_id_token_signing_alg_values_supported raw \<rparr>"
  by (auto simp: validate_discovery_def check_endpoint_Inr check_optional_endpoint_Inr case_sum_Inr case_error_Inr)

lemma fetch_discovery_Inr:
  assumes "fetch_discovery ue parse to_raw get issuer origins = Inr d"
  obtains raw where "validate_discovery ue raw issuer origins = Inr d"
  using assms
  by (auto simp: fetch_discovery_def validate_discovery_bytes_def split: sum.splits option.splits if_splits)

end
