(* ===== verification/Federated_Callback.thy ===== *)
theory Federated_Callback
  imports Federated_Traffic Upstream_Identity Discovery
begin

text \<open>
  The two handlers of a federated sign-in (\<open>http/handlers/federation.rs\<close>, crate \<open>sui-id\<close>):
  \<open>federated_start\<close> records an attempt and sends the browser upstream, \<open>federated_callback\<close> claims the
  attempt, exchanges the code, validates the ID token, and signs the user in, asks for the second factor or
  provisions an account.  The HTTP client, URL handling, JSON and token libraries are parameters.  \<open>other k\<close> is
  what other connections do to the store before the \<open>k\<close>-th database call of a request, so the properties hold
  for every interleaving.  Reads are taken to succeed; log lines, metrics and cookie attributes are not modelled.
\<close>

section \<open>Requests and responses\<close>

record post_request =
  pr_url :: string
  pr_form :: "(string \<times> string) list"
  pr_authorization :: "string option"

record callback_env =
  ce_digest :: digest_env
  ce_aead :: aead_env
  ce_lower :: "string \<Rightarrow> string"
  ce_is_alphanumeric :: "string \<Rightarrow> bool"
  ce_url :: url_env
  ce_token :: token_env
  ce_raw_discovery :: "json \<Rightarrow> raw_discovery option"
  ce_token_response :: "json \<Rightarrow> string option option"
  ce_get :: "string \<Rightarrow> response option"
  ce_post :: "post_request \<Rightarrow> response option"
  ce_form_encode :: "string \<Rightarrow> string"
  ce_percent_encode :: "string \<Rightarrow> string"
  ce_base64 :: "string \<Rightarrow> string"
  ce_base64url :: "string \<Rightarrow> string"
  ce_issuer :: string
  ce_provider_algs :: "(string \<times> string list) list"

record callback_draws =
  cb_fail :: instant
  cb_claim :: instant
  cb_validation :: instant
  cb_at :: instant
  cb_pending_now :: instant
  cb_user_id :: uuid
  cb_user_uuid :: uuid
  cb_fresh :: uuid
  cb_session_id :: uuid
  cb_pending_id :: uuid
  cb_fed_pending_id :: uuid
  cb_nonce :: string
  cb_csrf :: string
  cb_binding :: string

record callback_query =
  cq_code :: "string option"
  cq_error :: "string option"
  cq_state :: "string option"

text \<open>
  What a finished request sends the browser: the login page with a \<open>fed_error\<close>, a session, or the second
  factor's page with the generic pending row, the continuation and the age of its cookies.  Both callback cookies
  are cleared in each case.
\<close>

datatype callback_outcome =
    FedError string
  | SignedIn uuid
  | SecondFactor uuid uuid int

definition claim_fed_error :: "store_error \<Rightarrow> string" where
  "claim_fed_error e =
    (case e of
       StoreConflict \<Rightarrow> ''replay''
     | AttemptExpired \<Rightarrow> ''expired''
     | ClockRegression \<Rightarrow> ''clock_regression''
     | Crypto \<Rightarrow> ''tamper_detected''
     | StoreNotFound \<Rightarrow> ''attempt_not_found''
     | AttemptProviderMismatch \<Rightarrow> ''superseded''
     | AttemptBrowserBindingMismatch \<Rightarrow> ''binding_mismatch''
     | _ \<Rightarrow> ''attempt_claim_failed'')"

definition placeholder_provider_version_and_generation :: "federation_provider_row \<Rightarrow> int \<times> int" where
  "placeholder_provider_version_and_generation provider = (0, 0)"

definition basic_auth_header :: "callback_env \<Rightarrow> string \<Rightarrow> string \<Rightarrow> string" where
  "basic_auth_header ce client_id client_secret =
    ''Basic '' @ ce_base64 ce (ce_form_encode ce client_id @ '':'' @ ce_form_encode ce client_secret)"

datatype fed_error_bucket = Retry | ContactAdmin | BucketLinkRequired | BucketUnverifiedEmail

definition classify :: "string \<Rightarrow> fed_error_bucket" where
  "classify fed_error =
    (if fed_error = ''email_collision'' \<or> fed_error = ''link_required'' then BucketLinkRequired
     else if fed_error = ''unverified_email'' then BucketUnverifiedEmail
     else if fed_error = ''disabled'' \<or> fed_error = ''config_drift'' \<or> fed_error = ''discovery_origin''
       \<or> fed_error = ''signin_failed'' then ContactAdmin
     else Retry)"

section \<open>Starting\<close>

record start_draws =
  sx_attempt_id :: uuid
  sx_seal_nonce :: string
  sx_pkce_verifier :: string
  sx_nonce :: string
  sx_state :: string
  sx_binding :: string
  sx_now :: instant

datatype start_outcome =
    ToUpstream string string
  | StartError string

definition redirect_uri_of :: "callback_env \<Rightarrow> string" where
  "redirect_uri_of ce = trim_end_slashes (ce_issuer ce) @ ''/auth/federated/callback''"

definition upstream_url :: "callback_env \<Rightarrow> start_draws \<Rightarrow> federation_provider_row \<Rightarrow> validated_discovery \<Rightarrow> string" where
  "upstream_url ce sx provider discovery =
    vd_authorization_endpoint discovery @ ''?response_type=code&client_id='' @ ce_percent_encode ce (fp_client_id provider)
    @ ''&redirect_uri='' @ ce_percent_encode ce (redirect_uri_of ce)
    @ ''&scope='' @ ce_percent_encode ce (fp_scopes provider)
    @ ''&state='' @ ce_percent_encode ce (sx_state sx)
    @ ''&nonce='' @ ce_percent_encode ce (sx_nonce sx)
    @ ''&code_challenge='' @ ce_percent_encode ce (ce_base64url ce (sha256 (ce_digest ce) (sx_pkce_verifier sx)))
    @ ''&code_challenge_method=S256''"

text \<open>The audit row of a rejected discovery document is appended by a task of its own; its note holds log text.\<close>

definition federated_start ::
  "callback_env \<Rightarrow> start_draws \<Rightarrow> string \<Rightarrow> string \<Rightarrow> store \<Rightarrow> store \<Rightarrow> (core_error + start_outcome) \<times> store" where
  "federated_start ce sx slug nxt s0 s =
    (case provider_get_by_slug slug s0 of
       Inl _ \<Rightarrow> (Inl NotFound, s)
     | Inr provider \<Rightarrow>
        if \<not> fp_enabled provider then (Inl (BadRequest ''federation provider is disabled''), s)
        else
    (case fetch_discovery (ce_url ce) (te_json (ce_token ce)) (ce_raw_discovery ce) (ce_get ce) (fp_issuer provider)
        (fp_allowed_origins provider) of
       Inl e \<Rightarrow>
        if is_invalid e then (Inr (StartError ''discovery_origin''), s)
        else (Inl (BadRequest ''upstream identity provider is unavailable; try again later''), s)
     | Inr discovery \<Rightarrow>
        let (version, generation) = placeholder_provider_version_and_generation provider in
        (case with_tx (attempt_insert (ce_aead ce) (sx_attempt_id sx) (sx_seal_nonce sx) (fp_id provider) version generation
            (sha256 (ce_digest ce) (sx_state sx)) (sha256 (ce_digest ce) (sx_nonce sx)) (sha256 (ce_digest ce) (sx_binding sx))
            (sx_pkce_verifier sx) (redirect_uri_of ce) (same_site_return_path nxt) (sx_now sx)) s of
           (Inl _, s') \<Rightarrow> (Inl Internal, s')
         | (Inr _, s') \<Rightarrow> (Inr (ToUpstream (upstream_url ce sx provider discovery) (sx_binding sx)), s'))))"

section \<open>Exchanging the code\<close>

text \<open>A refusal after the claim: the reason that is recorded, when, and the answer.\<close>

datatype refusal = Refusal terminal_failure_reason instant "core_error + callback_outcome"

definition token_request ::
  "callback_env \<Rightarrow> federation_provider_row \<Rightarrow> validated_discovery \<Rightarrow> string option \<Rightarrow> string \<Rightarrow> string \<Rightarrow> post_request" where
  "token_request ce provider discovery client_secret code pkce_verifier =
    \<lparr> pr_url = vd_token_endpoint discovery,
      pr_form = [(''grant_type'', ''authorization_code''), (''code'', code), (''redirect_uri'', redirect_uri_of ce),
        (''client_id'', fp_client_id provider), (''code_verifier'', pkce_verifier)],
      pr_authorization = map_option (basic_auth_header ce (fp_client_id provider)) client_secret \<rparr>"

definition exchange ::
  "callback_env \<Rightarrow> callback_draws \<Rightarrow> federation_provider_row \<Rightarrow> federation_login_attempt_row \<Rightarrow> string
    \<Rightarrow> refusal + validated_discovery \<times> string" where
  "exchange ce cb provider claimed code =
    (let deny = (\<lambda>d answer. Inl (Refusal (Denied d) (cb_fail cb) answer));
         failed = (\<lambda>d answer. Inl (Refusal (UpstreamFailure d) (cb_fail cb) answer));
         page = (\<lambda>e. Inr (FedError e)) in
     case (case open_sealed (ce_aead ce) (master_key (ce_aead ce)) (fa_pkce_verifier_sealed claimed)
             (attempt_aad (fa_id claimed) (fa_provider_id claimed) (fa_provider_config_version claimed)
               (fa_provider_activation_generation claimed)) of
             Inl e \<Rightarrow> Inl e
           | Inr plain \<Rightarrow> if utf8_valid plain then Inr plain else Inl Crypto) of
       Inl e \<Rightarrow> deny PkceVerifierDecryptFailed (Inl (Store e))
     | Inr pkce_verifier \<Rightarrow>
    (case fetch_discovery (ce_url ce) (te_json (ce_token ce)) (ce_raw_discovery ce) (ce_get ce) (fp_issuer provider)
        (fp_allowed_origins provider) of
       Inl e \<Rightarrow>
        if is_invalid e then failed DiscoveryRejected (page ''discovery_origin'')
        else failed DiscoveryFailed (Inl (BadRequest ''upstream IdP unavailable''))
     | Inr discovery \<Rightarrow>
    (case decrypt_client_secret (ce_aead ce) provider of
       Inl e \<Rightarrow> deny ClientSecretDecryptFailed (Inl (Store e))
     | Inr client_secret \<Rightarrow>
        if \<not> supports_token_endpoint_auth_method discovery
             (if client_secret \<noteq> None then ''client_secret_basic'' else ''none'')
        then deny TokenEndpointAuthMethodUnsupported (page ''token_endpoint_auth_method'')
        else
    (case ce_post ce (token_request ce provider discovery client_secret code pkce_verifier) of
       None \<Rightarrow> failed TokenExchangeFailed (page ''token_exchange'')
     | Some resp \<Rightarrow>
        if 400 \<le> rs_status resp \<and> rs_status resp < 600 then failed TokenExchangeFailed (page ''token_exchange'')
        else
    (case read_bounded_json (te_json (ce_token ce)) (ce_token_response ce) resp of
       Inl e \<Rightarrow> failed TokenParseFailed (page ''token_parse'')
     | Inr None \<Rightarrow> deny MissingIdToken (page ''missing_id_token'')
     | Inr (Some id_token) \<Rightarrow> Inr (discovery, id_token))))))"

text \<open>The ID token, in the order of the handler: signature, nonce, identity, time of issue, optional claims.\<close>

definition validate_token ::
  "callback_env \<Rightarrow> callback_draws \<Rightarrow> federation_provider_row \<Rightarrow> federation_login_attempt_row \<Rightarrow> validated_discovery \<Rightarrow> string
    \<Rightarrow> refusal + identity_capability" where
  "validate_token ce cb provider claimed discovery id_token =
    (let deny = (\<lambda>t d e. Inl (Refusal (Denied d) t (Inr (FedError e)))) in
     case map_of (ce_provider_algs ce) (fp_slug provider) of
       None \<Rightarrow> deny (cb_fail cb) ConfigDrift ''config_drift''
     | Some algs \<Rightarrow>
    (case verify_upstream_id_token (ce_token ce) (ce_get ce) id_token (id_token_algs_intersection discovery algs) (vd_jwks_uri discovery) of
       Inl e \<Rightarrow> deny (cb_fail cb) SignatureInvalid ''signature_invalid''
     | Inr claims \<Rightarrow>
    (case validate_nonce (ce_digest ce) claims (hex_lower (fa_nonce_sha256 claimed)) of
       Some e \<Rightarrow> deny (cb_validation cb) NonceMismatch ''nonce_mismatch''
     | None \<Rightarrow>
    (case validate_identity_claims claims (fp_issuer provider) (fp_client_id provider) of
       Inl e \<Rightarrow> deny (cb_validation cb) IdentityClaimsInvalid ''identity_claims_invalid''
     | Inr identity \<Rightarrow>
    (case validate_iat claims (fa_created_at claimed) (cb_validation cb) of
       Some e \<Rightarrow> deny (cb_validation cb) TimeClaimsInvalid ''time_claims_invalid''
     | None \<Rightarrow>
    (case validate_optional_claims claims of
       Inl e \<Rightarrow> deny (cb_validation cb) OptionalClaimsInvalid ''optional_claims_invalid''
     | Inr optional \<Rightarrow>
        Inr (construct_identity_capability identity optional
          (fp_id provider, fa_provider_config_version claimed, fa_provider_activation_generation claimed)
          (cb_validation cb))))))))"

section \<open>Completing\<close>

definition refuse ::
  "callback_env \<Rightarrow> federation_login_attempt_row \<Rightarrow> federation_provider_row \<Rightarrow> uuid option \<Rightarrow> refusal \<Rightarrow> store
    \<Rightarrow> (core_error + callback_outcome) \<times> store" where
  "refuse ce claimed provider actor rf s =
    (case rf of Refusal reason t answer \<Rightarrow>
      (answer, terminalize_and_audit (ce_digest ce) (fa_id claimed) reason t (fp_id provider) actor s))"

definition federated_session :: "callback_draws \<Rightarrow> uuid \<Rightarrow> session_row" where
  "federated_session cb uid =
    \<lparr> s_id = cb_session_id cb, s_user_id = uid, s_expires_at = cb_validation cb + hours 24,
      s_created_at = cb_validation cb, s_revoked_at = None, s_auth_methods = [Fed], s_last_step_up_at = None,
      s_last_used_at = None, s_last_step_up_method = None, s_step_up_failure_count = 0 \<rparr>"

definition mfa_required_event :: event_descriptor where
  "mfa_required_event = \<lparr> ed_name = ''auth.federation.mfa_required'', ed_attributes = [(''provider_id'', False)] \<rparr>"

definition require_second_factor ::
  "callback_env \<Rightarrow> callback_draws \<Rightarrow> (nat \<Rightarrow> store \<Rightarrow> store) \<Rightarrow> federation_provider_row \<Rightarrow> federation_login_attempt_row \<Rightarrow> uuid \<Rightarrow> store
    \<Rightarrow> (core_error + callback_outcome) \<times> store" where
  "require_second_factor ce cb other provider claimed uid s =
    (let now = cb_validation cb in
     case issue_federated_mfa_pending (ce_aead ce) (cb_fed_pending_id cb) (cb_nonce cb) (fa_id claimed) (fp_id provider)
         (fa_provider_config_version claimed) (fa_provider_activation_generation claimed) uid (fa_next_path claimed)
         (sha256 (ce_digest ce) (cb_binding cb)) (sha256 (ce_digest ce) (cb_csrf cb)) now s of
       (Inl e, s') \<Rightarrow>
        refuse ce claimed provider (Some uid) (Refusal (Denied MfaPendingTransactionFailed) now (Inr (FedError ''signin_failed'')))
          (other 9 s')
     | (Inr (fed_pending_id, fed_pending_expires_at), s') \<Rightarrow>
        (case with_tx (pending_mfa_insert (build_pending_mfa_row (cb_pending_id cb) (cb_pending_now cb) uid)) (other 9 s') of
           (Inl e, s'') \<Rightarrow> (Inl (Store e), s'')
         | (Inr _, s'') \<Rightarrow>
            (Inr (SecondFactor (cb_pending_id cb) fed_pending_id (max (num_seconds (fed_pending_expires_at - now)) 0)),
             snd (emit_must_attempt (ce_digest ce) mfa_required_event now (Some uid) (Some uid) ''ok''
               (build_attributes [(''provider_id'', fp_id provider)]) (other 10 s'')))))"

definition complete_federated_signin ::
  "callback_env \<Rightarrow> callback_draws \<Rightarrow> (nat \<Rightarrow> store \<Rightarrow> store) \<Rightarrow> federation_provider_row \<Rightarrow> federation_login_attempt_row \<Rightarrow> uuid \<Rightarrow> store
    \<Rightarrow> (core_error + callback_outcome) \<times> store" where
  "complete_federated_signin ce cb other provider claimed uid s =
    (let failed = (\<lambda>d. refuse ce claimed provider (Some uid)
           (Refusal (Denied d) (cb_validation cb) (Inr (FedError ''signin_failed'')))) in
     case get_user uid s of
       Inl e \<Rightarrow> failed UserReadDbError (other 7 s)
     | Inr user \<Rightarrow>
        if u_is_disabled user \<or> u_is_deleted user then failed AccountDisabledOrDeleted (other 7 s)
        else if is_mfa_enabled uid (other 7 s) then require_second_factor ce cb other provider claimed uid (other 8 (other 7 s))
        else (case sign_in_federated (ce_digest ce) (cb_at cb) (fa_id claimed) (fp_id provider) (fp_slug provider)
              (federated_session cb uid) (other 8 (other 7 s)) of
            (Inl e, s') \<Rightarrow> failed SigninCommitFailed (other 9 s')
          | (Inr _, s') \<Rightarrow> (Inr (SignedIn (cb_session_id cb)), s')))"

definition shadow_user :: "callback_env \<Rightarrow> callback_draws \<Rightarrow> identity_capability \<Rightarrow> string \<Rightarrow> user_row" where
  "shadow_user ce cb capability username =
    \<lparr> u_id = cb_user_id cb, u_username = username, u_display_name = ic_name capability,
      u_email = ic_verified_email capability, u_email_normalized = None, u_email_verified_at = None,
      u_preferred_lang = None, u_is_admin = False, u_role = User, u_is_disabled = False, u_is_deleted = False,
      u_last_login_at = None, u_user_uuid = cb_user_uuid cb, u_created_at = cb_validation cb,
      u_updated_at = cb_validation cb, u_failed_login_count = 0, u_mfa_failure_count = 0, u_locked_until = None,
      u_source = Local, u_external_stable_id = None \<rparr>"

definition link_row :: "callback_draws \<Rightarrow> federation_provider_row \<Rightarrow> identity_capability \<Rightarrow> uuid \<Rightarrow> federation_link_row" where
  "link_row cb provider capability uid =
    \<lparr> fl_user_id = uid, fl_provider_id = fp_id provider, fl_upstream_sub = ic_sub capability,
      fl_upstream_email = ic_verified_email capability, fl_linked_at = cb_validation cb, fl_last_seen_at = cb_validation cb \<rparr>"

definition provision ::
  "callback_env \<Rightarrow> callback_draws \<Rightarrow> (nat \<Rightarrow> store \<Rightarrow> store) \<Rightarrow> federation_provider_row \<Rightarrow> federation_login_attempt_row
    \<Rightarrow> identity_capability \<Rightarrow> store \<Rightarrow> (core_error + callback_outcome) \<times> store" where
  "provision ce cb other provider claimed capability s =
    (let username = resolve_shadow_username (cb_fresh cb) (derive_username (ce_is_alphanumeric ce) capability) s in
     case provision_federated_user (ce_digest ce) (cb_at cb) (ce_lower ce) (fa_id claimed) (fp_id provider)
         (shadow_user ce cb capability username) (link_row cb provider capability (cb_user_id cb))
         (federated_session cb (cb_user_id cb)) (other 6 s) of
       (Inr _, s') \<Rightarrow> (Inr (SignedIn (cb_session_id cb)), s')
     | (Inl e, s') \<Rightarrow>
        refuse ce claimed provider None
          (Refusal (Denied ProvisionTransactionFailed) (cb_validation cb) (Inr (FedError ''attempt_claim_failed''))) (other 7 s'))"

text \<open>What becomes of a verified identity.\<close>

definition act_on_identity ::
  "callback_env \<Rightarrow> callback_draws \<Rightarrow> (nat \<Rightarrow> store \<Rightarrow> store) \<Rightarrow> federation_provider_row \<Rightarrow> federation_login_attempt_row
    \<Rightarrow> identity_capability \<Rightarrow> store \<Rightarrow> (core_error + callback_outcome) \<times> store" where
  "act_on_identity ce cb other provider claimed capability s =
    (let s1 = other 4 s;
         deny = (\<lambda>reason e. refuse ce claimed provider None (Refusal reason (cb_validation cb) (Inr (FedError e))) (other 5 s1)) in
     case resolve_verified_identity (ce_lower ce) capability (fp_provision_mode provider) s s1 of
       ExistingLink uid \<Rightarrow>
        (case with_tx (link_upsert (link_row cb provider capability uid)) (other 5 s1) of
           (Inl e, s') \<Rightarrow>
            refuse ce claimed provider (Some uid) (Refusal (Denied LinkUpsertDbError) (cb_validation cb) (Inl (Store e))) (other 6 s')
         | (Inr _, s') \<Rightarrow> complete_federated_signin ce cb other provider claimed uid (other 6 s'))
     | ResolvedLinkRequired \<Rightarrow> deny LinkRequired ''link_required''
     | DeniedCollision \<Rightarrow> deny TakeoverBlocked ''email_collision''
     | DeniedUnverified \<Rightarrow> deny (Denied UnverifiedEmail) ''unverified_email''
     | ProvisionEligible \<Rightarrow> provision ce cb other provider claimed capability (other 5 s1))"

text \<open>Everything behind the claim: the attempt is \<open>exchanging\<close>.\<close>

definition after_claim ::
  "callback_env \<Rightarrow> callback_draws \<Rightarrow> (nat \<Rightarrow> store \<Rightarrow> store) \<Rightarrow> federation_provider_row \<Rightarrow> federation_login_attempt_row \<Rightarrow> string \<Rightarrow> store
    \<Rightarrow> (core_error + callback_outcome) \<times> store" where
  "after_claim ce cb other provider claimed code s =
    (case exchange ce cb provider claimed code of
       Inl rf \<Rightarrow> refuse ce claimed provider None rf (other 3 s)
     | Inr (discovery, id_token) \<Rightarrow>
    (case validate_token ce cb provider claimed discovery id_token of
       Inl rf \<Rightarrow> refuse ce claimed provider None rf (other 3 s)
     | Inr capability \<Rightarrow> act_on_identity ce cb other provider claimed capability (other 3 s)))"

section \<open>The callback\<close>

definition upstream_error ::
  "callback_env \<Rightarrow> callback_draws \<Rightarrow> (nat \<Rightarrow> store \<Rightarrow> store) \<Rightarrow> string option \<Rightarrow> store \<Rightarrow> store" where
  "upstream_error ce cb other state_param s =
    (case state_param of
       None \<Rightarrow> s
     | Some st \<Rightarrow>
        (case attempt_find_by_state_sha256 (sha256 (ce_digest ce) st) s of
           Inl _ \<Rightarrow> s
         | Inr attempt \<Rightarrow>
            terminalize_and_audit (ce_digest ce) (fa_id attempt) (UpstreamFailure UpstreamErrorResponse) (cb_fail cb)
              (fa_provider_id attempt) None (other 0 s)))"

definition presented_binding :: "callback_env \<Rightarrow> string option \<Rightarrow> string" where
  "presented_binding ce cookie =
    (case cookie of None \<Rightarrow> replicate 32 (of_byte 0) | Some v \<Rightarrow> sha256 (ce_digest ce) v)"

definition federated_callback ::
  "callback_env \<Rightarrow> callback_draws \<Rightarrow> (nat \<Rightarrow> store \<Rightarrow> store) \<Rightarrow> callback_query \<Rightarrow> string option \<Rightarrow> store
    \<Rightarrow> (core_error + callback_outcome) \<times> store" where
  "federated_callback ce cb other q cookie s =
    (if cq_error q \<noteq> None then (Inr (FedError ''upstream''), upstream_error ce cb other (cq_state q) s)
     else
    (case cq_code q of
       None \<Rightarrow> (Inl (BadRequest ''missing code in callback''), s)
     | Some code \<Rightarrow>
    (case attempt_find_by_state_sha256 (sha256 (ce_digest ce) (case cq_state q of None \<Rightarrow> [] | Some t \<Rightarrow> t)) s of
       Inl _ \<Rightarrow> (Inr (FedError ''state_mismatch''), s)
     | Inr pre_claim_attempt \<Rightarrow>
    (case provider_get (fa_provider_id pre_claim_attempt) (other 0 s) of
       Inl _ \<Rightarrow> (Inl NotFound, other 0 s)
     | Inr provider \<Rightarrow>
        if \<not> fp_enabled provider then (Inr (FedError ''disabled''), other 0 s)
        else
    (let (version, generation) = placeholder_provider_version_and_generation provider; s1 = other 1 (other 0 s) in
     case claim_read (fa_id pre_claim_attempt) (cb_claim cb) (fp_id provider) version generation (presented_binding ce cookie) s1 of
       Inl e \<Rightarrow> (Inr (FedError (claim_fed_error e)), s1)
     | Inr row \<Rightarrow>
    (case claim_write (ce_aead ce) (fa_id pre_claim_attempt) (cb_claim cb) row (other 2 s1) of
       (Inl e, s2) \<Rightarrow> (Inr (FedError (claim_fed_error e)), s2)
     | (Inr claimed, s2) \<Rightarrow> after_claim ce cb other provider claimed code s2))))))"

section \<open>A claimed attempt is settled\<close>

text \<open>What other connections may do to attempts between two database calls: any of the steps of a history.\<close>

definition others_step :: "digest_env \<Rightarrow> aead_env \<Rightarrow> uuid \<Rightarrow> (nat \<Rightarrow> store \<Rightarrow> store) \<Rightarrow> bool" where
  "others_step cx ae aid other = (\<forall>k s. rtranclp (attempt_step cx ae aid) s (other k s))"

lemma attempt_steps_keep:
  assumes "rtranclp (attempt_step cx ae aid) s s'"
  shows "(attempt_ids_unique s \<longrightarrow> attempt_ids_unique s') \<and> (attempt_over aid s \<longrightarrow> attempt_over aid s')"
  using assms by (induction rule: rtranclp_induct) (auto dest: attempt_step_keeps)

lemma others_keep:
  assumes "others_step cx ae aid other"
  shows "attempt_ids_unique s \<Longrightarrow> attempt_ids_unique (other k s)" "attempt_over aid s \<Longrightarrow> attempt_over aid (other k s)"
  using assms attempt_steps_keep unfolding others_step_def by blast+

lemma emit_keeps_attempts: "federation_attempts (snd (emit_must_attempt cx d at actor tgt res attrs s)) = federation_attempts s"
  by (auto simp: emit_must_attempt_def split: sum.splits option.splits)

lemma settled_unless_unfinished:
  "attempt_over aid s \<longleftrightarrow> list_all (\<lambda>a. \<not> unfinished aid a) (federation_attempts s)"
proof -
  have "(fa_status a = FaCompleted \<or> fa_status a = FaFailed) \<longleftrightarrow> \<not> (fa_status a = FaPending \<or> fa_status a = FaExchanging)" for a
    by (cases "fa_status a") simp_all
  then show ?thesis
    by (auto simp: attempt_over_def list_all_iff unfinished_def)
qed

lemma none_left: "(\<And>a. \<not> p (f a)) \<Longrightarrow> list_all (\<lambda>a. \<not> p a) (update_where p f rows)"
  by (auto simp: update_where_def list_all_iff)

lemma terminalize_over: "attempt_over aid (terminalize_and_audit cx aid reason at pid actor s)"
proof -
  let ?f = "\<lambda>a. a\<lparr> fa_status := FaFailed, fa_claimed_at := (case fa_claimed_at a of None \<Rightarrow> Some at | Some t \<Rightarrow> Some t) \<rparr>"
  have "list_all (\<lambda>a. \<not> unfinished aid a) (update_where (unfinished aid) ?f (federation_attempts s))"
    by (rule none_left) (simp add: unfinished_def)
  moreover have "federation_attempts (snd (with_tx (terminalize_failed aid at) s))
      = update_where (unfinished aid) ?f (federation_attempts s)"
    by (simp add: terminalize_failed_def with_tx_def found_or_def update_where_none)
  ultimately have "attempt_over aid (snd (with_tx (terminalize_failed aid at) s))"
    by (simp only: settled_unless_unfinished)
  then show ?thesis
    unfolding terminalize_and_audit_def by (rule attempt_same(2) [OF emit_keeps_attempts])
qed

lemma refuse_over: "refuse ce claimed provider actor rf s = (r, s') \<Longrightarrow> attempt_over (fa_id claimed) s'"
  using terminalize_over by (cases rf) (auto simp: refuse_def)

lemma finish_over:
  assumes "attempt_ids_unique s"
  shows "sign_in_federated cx at aid pid slug session s = (Inr v, s') \<Longrightarrow> attempt_over aid s'"
    and "provision_federated_user cx at lower aid pid user link session s = (Inr v', s') \<Longrightarrow> attempt_over aid s'"
    and "issue_federated_mfa_pending ae fid nonce aid pid version generation uid nxt bb csrf now s = (Inr v'', s')
      \<Longrightarrow> attempt_over aid s' \<and> attempt_ids_unique s'"
  using finish_attempt_over [OF assms, of cx ae aid "SignInNow at pid slug session"]
    finish_attempt_over [OF assms, of cx ae aid "ProvisionNow at lower pid user link session"]
    finish_attempt_over [OF assms, of cx ae aid "SecondFactorNow fid nonce pid version generation uid nxt bb csrf now"]
    finish_attempt_keeps(1) [OF _ assms, of cx ae aid "SecondFactorNow fid nonce pid version generation uid nxt bb csrf now"]
  by (auto simp: acknowledged_def)

lemma issue_Inl: "issue_federated_mfa_pending ae fid nonce aid pid version generation uid nxt bb csrf now s = (Inl e, s') \<Longrightarrow> s' = s"
  by (simp add: issue_federated_mfa_pending_def protocol_tx_def results)

lemma second_factor_over:
  assumes "require_second_factor ce cb other provider claimed uid s = (r, s')" "attempt_ids_unique s"
    and "others_step cx ae (fa_id claimed) other"
  shows "attempt_over (fa_id claimed) s'"
proof -
  note other = others_keep [OF assms(3)]
  obtain r1 s1 where issue: "issue_federated_mfa_pending (ce_aead ce) (cb_fed_pending_id cb) (cb_nonce cb) (fa_id claimed) (fp_id provider)
         (fa_provider_config_version claimed) (fa_provider_activation_generation claimed) uid (fa_next_path claimed)
         (sha256 (ce_digest ce) (cb_binding cb)) (sha256 (ce_digest ce) (cb_csrf cb)) (cb_validation cb) s = (r1, s1)"
    by fastforce
  show ?thesis
  proof (cases r1)
    case (Inl e)
    then show ?thesis
      using assms(1) issue refuse_over by (auto simp: require_second_factor_def)
  next
    case (Inr v)
    then have over: "attempt_over (fa_id claimed) (other k s1)" for k
      using finish_over(3) [OF assms(2)] issue other(2) by blast
    obtain r2 s2 where ins: "with_tx (pending_mfa_insert (build_pending_mfa_row (cb_pending_id cb) (cb_pending_now cb) uid)) (other 9 s1) = (r2, s2)"
      by fastforce
    then have "federation_attempts s2 = federation_attempts (other 9 s1)"
      by (auto simp: with_tx_def pending_mfa_insert_def split: if_splits)
    then have "attempt_over (fa_id claimed) s2"
      using attempt_same(2) over by blast
    then have "attempt_over (fa_id claimed) s2" "attempt_over (fa_id claimed) (other 10 s2)"
      using other(2) by auto
    then show ?thesis
      using assms(1) issue Inr ins attempt_same(2) [OF emit_keeps_attempts]
      by (auto simp: require_second_factor_def Let_def split: sum.splits prod.splits)
  qed
qed

lemma signin_over:
  assumes "complete_federated_signin ce cb other provider claimed uid s = (r, s')" "attempt_ids_unique s"
    and "others_step cx ae (fa_id claimed) other"
  shows "attempt_over (fa_id claimed) s'"
proof -
  note other = others_keep [OF assms(3)]
  have u: "attempt_ids_unique (other 8 (other 7 s))"
    using other(1) assms(2) by blast
  show ?thesis
    using assms(1) refuse_over finish_over(1) [OF u] second_factor_over [OF _ u assms(3)]
    by (auto simp: complete_federated_signin_def Let_def split: sum.splits if_splits prod.splits)
qed

lemma act_on_identity_over:
  assumes "act_on_identity ce cb other provider claimed capability s = (r, s')" "attempt_ids_unique s"
    and "others_step cx ae (fa_id claimed) other"
  shows "attempt_over (fa_id claimed) s'"
proof -
  note other = others_keep [OF assms(3)]
  have u: "attempt_ids_unique (other 5 (other 4 s))"
    using other(1) assms(2) by blast
  show ?thesis
  proof (cases "resolve_verified_identity (ce_lower ce) capability (fp_provision_mode provider) s (other 4 s)")
    case (ExistingLink uid)
    obtain r1 s1 where up: "with_tx (link_upsert (link_row cb provider capability uid)) (other 5 (other 4 s)) = (r1, s1)"
      by fastforce
    then have "federation_attempts s1 = federation_attempts (other 5 (other 4 s))"
      by (auto simp: with_tx_def link_upsert_def split: if_splits)
    then have "attempt_ids_unique (other 6 s1)"
      using attempt_same(1) u other(1) by blast
    then show ?thesis
      using assms(1) ExistingLink up refuse_over signin_over [OF _ _ assms(3)]
      by (auto simp: act_on_identity_def Let_def split: sum.splits)
  next
    case ProvisionEligible
    have "attempt_ids_unique (other 6 (other 5 (other 4 s)))"
      using u other(1) by blast
    then show ?thesis
      using assms(1) ProvisionEligible refuse_over finish_over(2)
      by (auto simp: act_on_identity_def provision_def Let_def split: sum.splits prod.splits)
  qed (use assms(1) refuse_over in \<open>auto simp: act_on_identity_def Let_def\<close>)
qed

text \<open>C11: A claimed attempt never stays open.  However the exchange, the token, the identity, the account or a
  database call fails, and whatever other connections do to attempts in between, the request that claimed an
  attempt leaves it completed or failed.
\<close>

theorem claimed_attempt_is_settled:
  assumes "after_claim ce cb other provider claimed code s = (r, s')" "attempt_ids_unique s"
    and "others_step (ce_digest ce) (ce_aead ce) (fa_id claimed) other"
  shows "attempt_over (fa_id claimed) s'"
proof -
  have "attempt_ids_unique (other 3 s)"
    using others_keep(1) [OF assms(3)] assms(2) by blast
  then show ?thesis
    using assms(1) refuse_over act_on_identity_over [OF _ _ assms(3)]
    by (auto simp: after_claim_def split: sum.splits prod.splits)
qed

section \<open>Who is signed in\<close>

text \<open>What stands behind an identity: endpoints on approved origins, the provider's signature, and the claims.\<close>

definition vouched_for ::
  "callback_env \<Rightarrow> callback_draws \<Rightarrow> federation_provider_row \<Rightarrow> federation_login_attempt_row \<Rightarrow> string \<Rightarrow> identity_capability \<Rightarrow> bool" where
  "vouched_for ce cb provider attempt code capability =
    (\<exists>allowed discovery verifier secret resp id_token algs claims nonce v iat.
      allowed_set (ce_url ce) (fp_issuer provider) (fp_allowed_origins provider) = Inr allowed
      \<and> approved (ce_url ce) allowed (vd_token_endpoint discovery)
      \<and> pred_option (approved (ce_url ce) allowed) (vd_jwks_uri discovery)
      \<and> ce_post ce (token_request ce provider discovery secret code verifier) = Some resp
      \<and> read_bounded_json (te_json (ce_token ce)) (ce_token_response ce) resp = Inr (Some id_token)
      \<and> map_of (ce_provider_algs ce) (fp_slug provider) = Some algs
      \<and> signed_by_provider (ce_token ce) (ce_get ce) (vd_jwks_uri discovery) (id_token_algs_intersection discovery algs) id_token claims
      \<and> speaks_of claims (fp_issuer provider) (fp_client_id provider) (ic_sub capability)
      \<and> get_str ''nonce'' claims = Some nonce \<and> sha256 (ce_digest ce) nonce = fa_nonce_sha256 attempt
      \<and> json_get ''iat'' claims = Some v \<and> numeric_date v = Inr iat
      \<and> timestamp (fa_created_at attempt) - 60 \<le> iat \<and> iat \<le> timestamp (cb_validation cb) + 60
      \<and> (\<forall>email. ic_verified_email capability = Some email
          \<longrightarrow> get_str ''email'' claims = Some email \<and> json_get ''email_verified'' claims = Some (JBool True)))"

lemma exchange_Inr:
  assumes "exchange ce cb provider claimed code = Inr (discovery, id_token)"
  obtains verifier secret resp where
    "fetch_discovery (ce_url ce) (te_json (ce_token ce)) (ce_raw_discovery ce) (ce_get ce) (fp_issuer provider)
        (fp_allowed_origins provider) = Inr discovery"
    "ce_post ce (token_request ce provider discovery secret code verifier) = Some resp"
    "read_bounded_json (te_json (ce_token ce)) (ce_token_response ce) resp = Inr (Some id_token)"
  using assms by (auto simp: exchange_def Let_def split: sum.splits option.splits if_splits)

lemma validate_token_Inr:
  assumes "validate_token ce cb provider claimed discovery id_token = Inr capability"
  obtains algs claims identity optional where
    "map_of (ce_provider_algs ce) (fp_slug provider) = Some algs"
    "verify_upstream_id_token (ce_token ce) (ce_get ce) id_token (id_token_algs_intersection discovery algs) (vd_jwks_uri discovery)
      = Inr claims"
    "validate_nonce (ce_digest ce) claims (hex_lower (fa_nonce_sha256 claimed)) = None"
    "validate_identity_claims claims (fp_issuer provider) (fp_client_id provider) = Inr identity"
    "validate_iat claims (fa_created_at claimed) (cb_validation cb) = None"
    "validate_optional_claims claims = Inr optional"
    "capability = construct_identity_capability identity optional
      (fp_id provider, fa_provider_config_version claimed, fa_provider_activation_generation claimed) (cb_validation cb)"
  using assms by (auto simp: validate_token_def Let_def split: sum.splits option.splits)

lemma validated_is_vouched_for:
  assumes "exchange ce cb provider claimed code = Inr (discovery, id_token)"
    and "validate_token ce cb provider claimed discovery id_token = Inr capability"
    and "decode_ok (ce_token ce)"
  shows "vouched_for ce cb provider claimed code capability \<and> fst (ic_provider capability) = fp_id provider"
proof -
  obtain verifier secret resp where
    fetch: "fetch_discovery (ce_url ce) (te_json (ce_token ce)) (ce_raw_discovery ce) (ce_get ce) (fp_issuer provider)
        (fp_allowed_origins provider) = Inr discovery"
    and ex: "ce_post ce (token_request ce provider discovery secret code verifier) = Some resp"
    "read_bounded_json (te_json (ce_token ce)) (ce_token_response ce) resp = Inr (Some id_token)"
    using assms(1) by (rule exchange_Inr)
  obtain raw where "validate_discovery (ce_url ce) raw (fp_issuer provider) (fp_allowed_origins provider) = Inr discovery"
    using fetch by (rule fetch_discovery_Inr)
  then obtain allowed where d: "allowed_set (ce_url ce) (fp_issuer provider) (fp_allowed_origins provider) = Inr allowed"
    "approved (ce_url ce) allowed (vd_token_endpoint discovery)" "pred_option (approved (ce_url ce) allowed) (vd_jwks_uri discovery)"
    by (auto simp: validate_discovery_Inr)
  obtain algs claims identity optional where algs: "map_of (ce_provider_algs ce) (fp_slug provider) = Some algs"
    and verified: "verify_upstream_id_token (ce_token ce) (ce_get ce) id_token (id_token_algs_intersection discovery algs)
      (vd_jwks_uri discovery) = Inr claims"
    and nonce: "validate_nonce (ce_digest ce) claims (hex_lower (fa_nonce_sha256 claimed)) = None"
    and ident: "validate_identity_claims claims (fp_issuer provider) (fp_client_id provider) = Inr identity"
    and iat: "validate_iat claims (fa_created_at claimed) (cb_validation cb) = None"
    and opt: "validate_optional_claims claims = Inr optional"
    and cap: "capability = construct_identity_capability identity optional
      (fp_id provider, fa_provider_config_version claimed, fa_provider_activation_generation claimed) (cb_validation cb)"
    using assms(2) by (rule validate_token_Inr)
  have capf: "ic_sub capability = identity" "ic_verified_email capability = oc_verified_email optional"
    "fst (ic_provider capability) = fp_id provider"
    by (simp_all add: cap construct_identity_capability_def)
  have email: "\<forall>email. ic_verified_email capability = Some email
      \<longrightarrow> get_str ''email'' claims = Some email \<and> json_get ''email_verified'' claims = Some (JBool True)"
    using validate_optional_email [OF opt] capf(2) by auto
  obtain n where n: "get_str ''nonce'' claims = Some n" "sha256 (ce_digest ce) n = fa_nonce_sha256 claimed"
    using validate_nonce_None [OF nonce] by blast
  obtain v i where i: "json_get ''iat'' claims = Some v" "numeric_date v = Inr i"
    "timestamp (fa_created_at claimed) - 60 \<le> i" "i \<le> timestamp (cb_validation cb) + 60"
    using validate_iat_None [OF iat] by blast
  show ?thesis
    unfolding vouched_for_def
    by (intro exI conjI; (rule d ex algs n i email capf(3))?)
      (use verified_signed [OF verified assms(3)] validate_identity_claims_Inr [OF ident] capf(1) in simp_all)
qed

text \<open>The session row of a commit: the eviction that follows may revoke it, but keeps what it says.\<close>

definition holds_session :: "store \<Rightarrow> session_row \<Rightarrow> bool" where
  "holds_session s session =
    (\<exists>r \<in> set (sessions s). s_id r = s_id session \<and> s_user_id r = s_user_id session \<and> s_auth_methods r = s_auth_methods session)"

lemma revoke_ids_image:
  assumes "r \<in> set rows"
  shows "r \<in> set (revoke_ids ids now rows) \<or> r\<lparr>s_revoked_at := Some now\<rparr> \<in> set (revoke_ids ids now rows)"
proof -
  have "(if s_id r \<in> ids \<and> s_revoked_at r = None then r\<lparr>s_revoked_at := Some now\<rparr> else r) \<in> set (revoke_ids ids now rows)"
    unfolding revoke_ids_def set_update_where using assms by (rule imageI)
  then show ?thesis
    by (auto split: if_splits)
qed

lemma insert_then_evict:
  assumes "session_insert_within_tx session s = Inr (u, s1)" "evict_over_cap_within_tx uid now s1 = Inr (n, t)"
  shows "holds_session t session"
proof -
  have "inserted_session session \<in> set (sessions s1)"
    using assms(1) by (auto simp: results)
  moreover have "sessions t = revoke_ids (s_id ` set (over_cap uid now s1)) now (sessions s1)"
    using evict_Inr [OF assms(2)] by (simp add: evicted_rows_def)
  ultimately have "inserted_session session \<in> set (sessions t) \<or> (inserted_session session)\<lparr>s_revoked_at := Some now\<rparr> \<in> set (sessions t)"
    by (simp add: revoke_ids_image)
  then show ?thesis
    unfolding holds_session_def by (elim disjE) (erule bexI [rotated], simp add: inserted_session_def)+
qed

lemma holds_session_cong: "sessions s = sessions t \<Longrightarrow> holds_session s session = holds_session t session"
  by (simp add: holds_session_def)

lemma federated_commit:
  assumes "sign_in_federated cx at aid pid slug session s = (Inr n, s')"
  shows "holds_session s' session"
    and "\<exists>p. provider_get pid s = Inr p \<and> fp_enabled p"
    and "list_ex (link_of (s_user_id session) pid) (federation_links s)"
    and "\<exists>u. get_user (s_user_id session) s = Inr u \<and> user_active u"
proof -
  obtain ev t where body: "sign_in_federated_body aid pid slug session s = Inr ((n, ev), t)" and s': "sessions s' = sessions t"
    using assms unfolding sign_in_federated_def by (rule l04.class_a_success) auto
  obtain s1 s2 where s1: "attempt_complete_within_tx aid s = Inr ((), s1)"
    and drift: "authority_drift_within_tx pid (s_user_id session) s1 = Inr (None, s2)"
    and rest: "\<exists>s3 s4. session_insert_within_tx session s3 = Inr ((), s4)
      \<and> evict_over_cap_within_tx (s_user_id session) (s_created_at session) s4 = Inr (n, t)"
    using body unfolding sign_in_federated_body_def Let_def
    by (elim tx_bind_Inr_iff [THEN iffD1, elim_format] exE conjE) (auto simp: tx_return_def simp del: session_insert_Inr_iff)
  show "holds_session s' session"
    using rest insert_then_evict holds_session_cong [OF s'] by blast
  have same: "provider_get pid s1 = provider_get pid s" "federation_links s1 = federation_links s"
    "get_user (s_user_id session) s1 = get_user (s_user_id session) s"
    using s1 by (auto simp: attempt_complete_within_tx_def found_or_def Let_def provider_get_def get_user_def split: if_splits)
  show "\<exists>p. provider_get pid s = Inr p \<and> fp_enabled p" "list_ex (link_of (s_user_id session) pid) (federation_links s)"
    "\<exists>u. get_user (s_user_id session) s = Inr u \<and> user_active u"
    using drift same by (auto simp: authority_drift_within_tx_def provider_is_enabled_within_tx_def link_exists_within_tx_def
        is_active_within_tx_def read_user_def results split: if_splits sum.splits)
qed

lemma provision_commit:
  assumes "provision_federated_user cx at lower aid pid user link session s = (Inr n, s')"
  shows "holds_session s' session"
proof -
  obtain ev t where body: "provision_federated_user_body lower aid pid user link session s = Inr ((n, ev), t)"
    and s': "sessions s' = sessions t"
    using assms unfolding provision_federated_user_def by (rule f04.class_a_success) auto
  have "\<exists>s3 s4. session_insert_within_tx session s3 = Inr ((), s4)
      \<and> evict_over_cap_within_tx (s_user_id session) (s_created_at session) s4 = Inr (n, t)"
    using body unfolding provision_federated_user_body_def Let_def
    by (elim tx_bind_Inr_iff [THEN iffD1, elim_format] exE conjE) (auto simp: tx_return_def simp del: session_insert_Inr_iff)
  then show ?thesis
    using insert_then_evict holds_session_cong [OF s'] by blast
qed

text \<open>
  The account behind a sign-in.  Either the subject was linked to it, it had no second factor just before the
  commit, and the commit found the provider enabled, the link in place and the account active; or it is new, made
  for a provider that may provision, and no account had the verified address.
\<close>

definition admitted ::
  "callback_env \<Rightarrow> callback_draws \<Rightarrow> (nat \<Rightarrow> store \<Rightarrow> store) \<Rightarrow> federation_provider_row \<Rightarrow> federation_login_attempt_row
    \<Rightarrow> identity_capability \<Rightarrow> store \<Rightarrow> uuid \<Rightarrow> store \<Rightarrow> bool" where
  "admitted ce cb other provider attempt capability s uid s' =
    (case link_find_by_sub (fp_id provider) (ic_sub capability) s of
       Some link \<Rightarrow>
        uid = fl_user_id link \<and>
        (\<exists>t n. \<not> is_mfa_enabled uid t
          \<and> sign_in_federated (ce_digest ce) (cb_at cb) (fa_id attempt) (fp_id provider) (fp_slug provider)
              (federated_session cb uid) (other 8 t) = (Inr n, s')
          \<and> (\<exists>p. provider_get (fp_id provider) (other 8 t) = Inr p \<and> fp_enabled p)
          \<and> list_ex (link_of uid (fp_id provider)) (federation_links (other 8 t))
          \<and> (\<exists>u. get_user uid (other 8 t) = Inr u \<and> user_active u))
     | None \<Rightarrow>
        uid = cb_user_id cb \<and> fp_provision_mode provider = ProvisionOnFirstLogin
        \<and> (\<exists>email. ic_verified_email capability = Some email
            \<and> find_by_email_normalized (normalize_email (ce_lower ce) email) (other 4 s) = None))"

lemma refuse_not_signed_in:
  "refuse ce claimed provider actor (Refusal reason t (Inr (FedError e))) s \<noteq> (Inr (SignedIn sid), s')"
  "refuse ce claimed provider actor (Refusal reason t (Inl err)) s \<noteq> (Inr (SignedIn sid), s')"
  by (simp_all add: refuse_def)

lemma refused_answers:
  "exchange ce cb provider claimed code = Inl (Refusal reason t a) \<Longrightarrow> a \<noteq> Inr (SignedIn sid)"
  "validate_token ce cb provider claimed discovery id_token = Inl (Refusal reason t a) \<Longrightarrow> a \<noteq> Inr (SignedIn sid)"
  by (auto simp: exchange_def validate_token_def Let_def split: sum.splits option.splits if_splits)

lemma refuse_answer: "refuse ce claimed provider actor rf s = (r, s') \<Longrightarrow> \<exists>reason t. rf = Refusal reason t r"
  by (cases rf) (simp add: refuse_def)

lemma second_factor_not_signed_in: "require_second_factor ce cb other provider claimed uid s \<noteq> (Inr (SignedIn sid), s')"
  by (auto simp: require_second_factor_def refuse_not_signed_in Let_def split: sum.splits prod.splits)

lemma complete_signs_in:
  assumes "complete_federated_signin ce cb other provider claimed uid s = (Inr (SignedIn sid), s')"
  obtains n where "sid = cb_session_id cb" "\<not> is_mfa_enabled uid (other 7 s)"
    "sign_in_federated (ce_digest ce) (cb_at cb) (fa_id claimed) (fp_id provider) (fp_slug provider)
      (federated_session cb uid) (other 8 (other 7 s)) = (Inr n, s')"
  using assms by (auto simp: complete_federated_signin_def Let_def refuse_not_signed_in second_factor_not_signed_in
      split: sum.splits prod.splits if_splits)

lemma federated_session_simps [simp]:
  "s_id (federated_session cb uid) = cb_session_id cb" "s_user_id (federated_session cb uid) = uid"
  "s_auth_methods (federated_session cb uid) = [Fed]"
  by (simp_all add: federated_session_def)

lemma act_on_identity_signs_in:
  assumes "act_on_identity ce cb other provider claimed capability s = (Inr (SignedIn sid), s')"
    and "fst (ic_provider capability) = fp_id provider"
  shows "sid = cb_session_id cb
    \<and> (\<exists>uid. holds_session s' (federated_session cb uid) \<and> admitted ce cb other provider claimed capability s uid s')"
proof (cases "link_find_by_sub (fp_id provider) (ic_sub capability) s")
  case (Some link)
  let ?uid = "fl_user_id link"
  have "resolve_verified_identity (ce_lower ce) capability (fp_provision_mode provider) s (other 4 s) = ExistingLink ?uid"
    using Some assms(2) by (simp add: resolve_verified_identity_def)
  then obtain t where "complete_federated_signin ce cb other provider claimed ?uid t = (Inr (SignedIn sid), s')"
    using assms(1) by (auto simp: act_on_identity_def Let_def refuse_not_signed_in split: sum.splits prod.splits)
  then obtain n where sid: "sid = cb_session_id cb" and mfa: "\<not> is_mfa_enabled ?uid (other 7 t)"
    and commit: "sign_in_federated (ce_digest ce) (cb_at cb) (fa_id claimed) (fp_id provider) (fp_slug provider)
      (federated_session cb ?uid) (other 8 (other 7 t)) = (Inr n, s')"
    by (rule complete_signs_in)
  show ?thesis
    using sid mfa commit federated_commit [OF commit] Some
    by (intro conjI exI [of _ ?uid]) (auto simp: admitted_def)
next
  case None
  have res: "resolve_verified_identity (ce_lower ce) capability (fp_provision_mode provider) s (other 4 s) = ProvisionEligible"
    using assms None by (auto simp: act_on_identity_def resolve_verified_identity_def Let_def refuse_not_signed_in
        split: provision_mode.splits option.splits if_splits)
  then have may: "fp_provision_mode provider = ProvisionOnFirstLogin"
    "\<exists>email. ic_verified_email capability = Some email
      \<and> find_by_email_normalized (normalize_email (ce_lower ce) email) (other 4 s) = None"
    using None assms(2) by (auto simp: resolve_verified_identity_def split: provision_mode.splits option.splits if_splits)
  obtain t n user link where sid: "sid = cb_session_id cb"
    and commit: "provision_federated_user (ce_digest ce) (cb_at cb) (ce_lower ce) (fa_id claimed) (fp_id provider) user link
      (federated_session cb (cb_user_id cb)) t = (Inr n, s')"
    using assms(1) res by (auto simp: act_on_identity_def provision_def Let_def refuse_not_signed_in split: sum.splits prod.splits)
  show ?thesis
    using sid may provision_commit [OF commit] None by (auto simp: admitted_def)
qed

lemma after_claim_signs_in:
  assumes "after_claim ce cb other provider claimed code s = (Inr (SignedIn sid), s')" "decode_ok (ce_token ce)"
  shows "\<exists>capability uid. vouched_for ce cb provider claimed code capability \<and> sid = cb_session_id cb
    \<and> holds_session s' (federated_session cb uid) \<and> admitted ce cb other provider claimed capability (other 3 s) uid s'"
proof (cases "exchange ce cb provider claimed code")
  case (Inl rf)
  then have "refuse ce claimed provider None rf (other 3 s) = (Inr (SignedIn sid), s')"
    using assms(1) by (simp add: after_claim_def)
  then show ?thesis
    using refuse_answer refused_answers(1) Inl by blast
next
  case (Inr found)
  then obtain discovery id_token where ex: "exchange ce cb provider claimed code = Inr (discovery, id_token)"
    by (cases found) simp
  show ?thesis
  proof (cases "validate_token ce cb provider claimed discovery id_token")
    case (Inl rf)
    then have "refuse ce claimed provider None rf (other 3 s) = (Inr (SignedIn sid), s')"
      using assms(1) ex by (simp add: after_claim_def)
    then show ?thesis
      using refuse_answer refused_answers(2) Inl by blast
  next
    case (Inr capability)
    have v: "vouched_for ce cb provider claimed code capability" "fst (ic_provider capability) = fp_id provider"
      using validated_is_vouched_for [OF ex Inr assms(2)] by auto
    have "act_on_identity ce cb other provider claimed capability (other 3 s) = (Inr (SignedIn sid), s')"
      using assms(1) ex Inr by (simp add: after_claim_def)
    then show ?thesis
      using act_on_identity_signs_in [OF _ v(2)] v(1) by blast
  qed
qed

text \<open>C9: A federated callback signs in only the account of a verified identity.  A session means: the state names an
  attempt of an enabled provider; the row claimed for it was pending, within its lifetime and bound to the
  browser's cookie; the code was exchanged at an approved endpoint for an ID token that the provider signed for
  this client, with the attempt's nonce and issued within its window; and the session belongs to the account that
  is linked to the token's subject, without a second factor and still active at the commit, or to a new account
  with a verified address that no account has.
\<close>

theorem callback_signs_in_verified_identity:
  assumes "federated_callback ce cb other q cookie s = (Inr (SignedIn sid), s')" "decode_ok (ce_token ce)"
  shows "\<exists>found provider row s2 code capability uid.
      cq_error q = None \<and> cq_code q = Some code
    \<and> attempt_find_by_state_sha256 (sha256 (ce_digest ce) (case cq_state q of None \<Rightarrow> [] | Some t \<Rightarrow> t)) s = Inr found
    \<and> provider_get (fa_provider_id found) (other 0 s) = Inr provider \<and> fp_enabled provider
    \<and> row \<in> set (federation_attempts (other 1 (other 0 s))) \<and> fa_id row = fa_id found \<and> fa_status row = FaPending
    \<and> fa_created_at row \<le> cb_claim cb \<and> cb_claim cb < fa_expires_at row \<and> fa_provider_id row = fp_id provider
    \<and> fa_browser_binding_sha256 row = presented_binding ce cookie
    \<and> claim_write (ce_aead ce) (fa_id found) (cb_claim cb) row (other 2 (other 1 (other 0 s))) = (Inr (claimed_row (cb_claim cb) row), s2)
    \<and> vouched_for ce cb provider (claimed_row (cb_claim cb) row) code capability
    \<and> sid = cb_session_id cb \<and> holds_session s' (federated_session cb uid)
    \<and> admitted ce cb other provider (claimed_row (cb_claim cb) row) capability (other 3 s2) uid s'"
proof -
  obtain code found provider row claimed s2 where q: "cq_error q = None" "cq_code q = Some code"
    and f: "attempt_find_by_state_sha256 (sha256 (ce_digest ce) (case cq_state q of None \<Rightarrow> [] | Some t \<Rightarrow> t)) s = Inr found"
    and p: "provider_get (fa_provider_id found) (other 0 s) = Inr provider" "fp_enabled provider"
    and rd: "claim_read (fa_id found) (cb_claim cb) (fp_id provider) 0 0 (presented_binding ce cookie) (other 1 (other 0 s)) = Inr row"
    and wr: "claim_write (ce_aead ce) (fa_id found) (cb_claim cb) row (other 2 (other 1 (other 0 s))) = (Inr claimed, s2)"
    and rest: "after_claim ce cb other provider claimed code s2 = (Inr (SignedIn sid), s')"
    using assms(1) by (auto simp: federated_callback_def placeholder_provider_version_and_generation_def Let_def
        split: if_splits option.splits sum.splits prod.splits)
  have row: "row \<in> set (federation_attempts (other 1 (other 0 s)))" "fa_id row = fa_id found"
    and chk: "claim_check (cb_claim cb) (fp_id provider) 0 0 (presented_binding ce cookie) row = None"
    using rd by (auto simp: claim_read_def dest: find_Some_in split: option.splits)
  have claimed: "claimed = claimed_row (cb_claim cb) row"
    using wr by (auto simp: claim_write_def Let_def split: if_splits sum.splits)
  obtain capability uid where "vouched_for ce cb provider claimed code capability" "sid = cb_session_id cb"
    "holds_session s' (federated_session cb uid)" "admitted ce cb other provider claimed capability (other 3 s2) uid s'"
    using after_claim_signs_in [OF rest assms(2)] by blast
  then show ?thesis
    using q f p row chk [unfolded claim_check_None_iff] wr [unfolded claimed] claimed by blast
qed

section \<open>A concrete sign-in\<close>

definition demo_url_env :: url_env where
  "demo_url_env = \<lparr> url_parse = (\<lambda>s. Some \<lparr> url_scheme = ''https'', url_username = [], url_password = None, url_host = None,
      url_port = None, url_path = s, url_query = None, url_fragment = None \<rparr>), debug_str = (\<lambda>s. s),
      url_as_str = url_path, url_origin = (\<lambda>u. Some ''https://idp'') \<rparr>"

definition demo_raw_discovery :: raw_discovery where
  "demo_raw_discovery = \<lparr> rd_issuer = ''https://idp'', rd_authorization_endpoint = ''https://idp/auth'',
     rd_token_endpoint = ''https://idp/token'', rd_userinfo_endpoint = None, rd_jwks_uri = Some ''https://idp/keys'',
     rd_response_types_supported = [''code''], rd_grant_types_supported = None,
     rd_code_challenge_methods_supported = [''S256''], rd_authorization_response_iss_parameter_supported = True,
     rd_token_endpoint_auth_methods_supported = [''none''], rd_id_token_signing_alg_values_supported = [''EdDSA''],
     rd_subject_types_supported = [''public''] \<rparr>"

definition demo_callback_env :: callback_env where
  "demo_callback_env = \<lparr> ce_digest = demo_env, ce_aead = demo_aead, ce_lower = (\<lambda>s. s), ce_is_alphanumeric = (\<lambda>c. True),
     ce_url = demo_url_env, ce_token = demo_token_env, ce_raw_discovery = (\<lambda>j. Some demo_raw_discovery),
     ce_token_response = (\<lambda>j. Some (get_str ''id_token'' j)), ce_get = demo_get,
     ce_post = (\<lambda>r. if pr_url r = ''https://idp/token'' then Some (demo_response ''tok'') else None),
     ce_form_encode = (\<lambda>s. s), ce_percent_encode = (\<lambda>s. s), ce_base64 = (\<lambda>s. s), ce_base64url = (\<lambda>s. s),
     ce_issuer = ''https://me'', ce_provider_algs = [(''idp'', [''EdDSA''])] \<rparr>"

definition demo_callback_draws :: callback_draws where
  "demo_callback_draws = \<lparr> cb_fail = 1, cb_claim = 1, cb_validation = 1, cb_at = 1, cb_pending_now = 1, cb_user_id = ''new'',
     cb_user_uuid = ''new'', cb_fresh = ''fresh'', cb_session_id = ''sess'', cb_pending_id = ''pend'', cb_fed_pending_id = ''fed'',
     cb_nonce = replicate 24 CHR ''n'', cb_csrf = ''csrf'', cb_binding = ''bind'' \<rparr>"

definition demo_provider :: federation_provider_row where
  "demo_provider = \<lparr> fp_id = ''p'', fp_slug = ''idp'', fp_display_name = ''IdP'', fp_issuer = ''https://idp'',
     fp_client_id = ''me'', fp_client_secret_enc = None, fp_scopes = ''openid'', fp_provision_mode = LinkOnly,
     fp_enabled = True, fp_allowed_origins = [], fp_created_at = 0, fp_updated_at = 0 \<rparr>"

definition demo_attempt :: federation_login_attempt_row where
  "demo_attempt = \<lparr> fa_id = ''a'', fa_provider_id = ''p'', fa_provider_config_version = 0,
     fa_provider_activation_generation = 0, fa_state_sha256 = sha256 demo_env ''st'', fa_nonce_sha256 = sha256 demo_env ''n'',
     fa_browser_binding_sha256 = sha256 demo_env ''bb'', fa_pkce_verifier_sealed = replicate 24 CHR ''n'' @ ''v'' @ replicate 16 CHR ''t'',
     fa_exact_redirect_uri = ''https://me/auth/federated/callback'', fa_next_path = None, fa_created_at = 0,
     fa_expires_at = 600, fa_status = FaPending, fa_claimed_at = None \<rparr>"

definition demo_fed_link :: federation_link_row where
  "demo_fed_link = \<lparr> fl_user_id = ''u'', fl_provider_id = ''p'', fl_upstream_sub = ''alice'', fl_upstream_email = None,
     fl_linked_at = 0, fl_last_seen_at = 0 \<rparr>"

definition demo_callback_store :: "federation_login_attempt_row \<Rightarrow> store" where
  "demo_callback_store a = empty_store\<lparr> users := [demo_user ''u'' User], federation_providers := [demo_provider],
     federation_links := [demo_fed_link], federation_attempts := [a] \<rparr>"

definition demo_validated :: validated_discovery where
  "demo_validated = \<lparr> vd_authorization_endpoint = ''https://idp/auth'', vd_token_endpoint = ''https://idp/token'',
     vd_userinfo_endpoint = None, vd_jwks_uri = Some ''https://idp/keys'',
     vd_token_endpoint_auth_methods_supported = [''none''], vd_id_token_signing_alg_values_supported = [''EdDSA''] \<rparr>"

lemma demo_discovery:
  "fetch_discovery demo_url_env (map_of demo_documents) (\<lambda>j. Some demo_raw_discovery) demo_get ''https://idp'' []
    = Inr demo_validated"
proof -
  have doc: "map_of demo_documents ''disc'' = Some (JObject [])" "value_of (JObject []) = JObject []"
    "check_caps DISCOVERY_CAPS (JObject []) = None" "nesting_depth (JObject []) \<le> 16" "first_repeated_member (JObject []) = None"
    by code_simp+
  have url: "url_parse demo_url_env = (\<lambda>s. Some \<lparr> url_scheme = ''https'', url_username = [], url_password = None, url_host = None,
      url_port = None, url_path = s, url_query = None, url_fragment = None \<rparr>)" "url_as_str demo_url_env = url_path"
    "url_origin demo_url_env = (\<lambda>u. Some ''https://idp'')"
    by (simp_all add: demo_url_env_def)
  have "str_trim [] = []"
    by code_simp
  then have "validate_discovery demo_url_env demo_raw_discovery ''https://idp'' [] = Inr
    demo_validated"
    by (simp add: validate_discovery_Inr approved_def allowed_set_def check_metadata_def demo_raw_discovery_def demo_validated_def url)
  then have "validate_discovery_bytes demo_url_env (map_of demo_documents) (\<lambda>j. Some demo_raw_discovery) ''disc'' ''https://idp'' []
    = Inr demo_validated"
    using doc by (simp add: validate_discovery_bytes_def MAX_RESPONSE_BYTES_def DISCOVERY_MAX_DEPTH_def)
  moreover have "demo_get (trim_end_slashes (''https://idp'') @ ''/.well-known/openid-configuration'') = Some (demo_response ''disc'')"
    by (simp add: demo_get_def trim_end_slashes_def)
  ultimately show ?thesis
    using demo_body [of "''disc''"] by (simp add: fetch_discovery_def validate_issuer_def url)
qed

lemma demo_code_exchanged:
  "exchange demo_callback_env demo_callback_draws demo_provider (claimed_row 1 demo_attempt) ''code''
    = Inr (demo_validated, ''hdr.pay.sig'')"
proof -
  have open_v: "open_sealed demo_aead (master_key demo_aead) (replicate 24 CHR ''n'' @ ''v'' @ replicate 16 CHR ''t'') aad = Inr ''v''" for aad
    by (simp add: open_sealed_def demo_aead_def NONCE_LEN_def)
  have "utf8_valid ''v''"
    by code_simp
  moreover have "map_of demo_documents ''tok'' = Some (JObject [(''id_token'', JString ''hdr.pay.sig'')])"
    "value_of (JObject [(''id_token'', JString ''hdr.pay.sig'')]) = JObject [(''id_token'', JString ''hdr.pay.sig'')]"
    by code_simp+
  then have "read_bounded_json (map_of demo_documents) (\<lambda>j. Some (get_str ''id_token'' j)) (demo_response ''tok'') = Inr (Some ''hdr.pay.sig'')"
    using demo_body [of "''tok''"]
    by (simp add: read_bounded_json_def JWKS_AND_TRANSPORT_def MAX_MEMBERS_def MAX_STRING_LEN_def MAX_ARRAY_LEN_def get_str_def)
  moreover have "rs_status (demo_response ''tok'') = 200"
    by (simp add: demo_response_def)
  moreover have "te_json demo_token_env = map_of demo_documents"
    by (simp add: demo_token_env_def)
  ultimately show ?thesis
    using open_v demo_discovery
    by (simp add: exchange_def demo_callback_env_def demo_provider_def demo_attempt_def claimed_row_def Let_def decrypt_client_secret_def
        token_request_def supports_token_endpoint_auth_method_def demo_validated_def)
qed

lemma hex_digest_ok: "length h = 32 \<Longrightarrow> is_64_hex (hex_lower h)"
proof -
  have "48 \<le> byte (hex_lower_digit n) \<and> byte (hex_lower_digit n) \<le> 57 \<or> 97 \<le> byte (hex_lower_digit n) \<and> byte (hex_lower_digit n) \<le> 102"
    if "n < 16" for n
    using that by (auto simp: hex_lower_digit_def byte_of_byte)
  then show "length h = 32 \<Longrightarrow> is_64_hex (hex_lower h)"
    unfolding is_64_hex_def length_hex_lower by (auto simp: hex_lower_def list_all_iff byte_def less_mult_imp_div_less)
qed

lemma demo_claims:
  "json_get name (value_of (the (map_of demo_documents ''pay'')))
    = map_of [(''iss'', JString ''https://idp''), (''sub'', JString ''alice''), (''aud'', JString ''me''),
       (''nonce'', JString ''n''), (''iat'', JU64 1), (''exp'', JU64 600)] name"
proof -
  have "value_of (the (map_of demo_documents ''pay'')) = JObject [(''aud'', JString ''me''), (''exp'', JU64 600), (''iat'', JU64 1),
      (''iss'', JString ''https://idp''), (''nonce'', JString ''n''), (''sub'', JString ''alice'')]"
    by code_simp
  then show ?thesis
    by simp
qed

lemma demo_validate:
  "\<exists>capability. validate_token demo_callback_env demo_callback_draws demo_provider (claimed_row 1 demo_attempt)
      demo_validated ''hdr.pay.sig''
    = Inr capability \<and> ic_sub capability = ''alice'' \<and> fst (ic_provider capability) = ''p'' \<and> ic_verified_email capability = None"
proof -
  let ?c = "value_of (the (map_of demo_documents ''pay''))"
  have "length (sha256 demo_env ''n'') = 32"
    by (simp add: demo_env_def)
  then have "validate_nonce demo_env ?c (hex_lower (sha256 demo_env ''n'')) = None"
    by (simp add: validate_nonce_def hex_digest_ok demo_claims)
  moreover have "list_ex is_control (utf8_chars ''alice'') = False"
    by code_simp
  then have "validate_identity_claims ?c ''https://idp'' ''me'' = Inr ''alice''"
    by (simp add: validate_identity_claims_def validate_claim_issuer_def validate_subject_def validate_audience_def validate_azp_def demo_claims)
  moreover have "validate_iat ?c 0 1 = None"
    by (simp add: validate_iat_def demo_claims SKEW_SECONDS_def timestamp_def nanos_def datetime_range_def seconds_def)
  moreover have "validate_optional_claims ?c = Inr \<lparr> oc_verified_email = None, oc_preferred_username = None, oc_name = None \<rparr>"
    by (simp add: validate_optional_claims_def validate_email_def validate_email_verified_def validate_preferred_username_def
        validate_name_def validate_amr_def validate_acr_def validate_auth_time_def validate_at_hash_def demo_claims)
  ultimately show ?thesis
    using demo_verify
    by (simp add: validate_token_def demo_callback_env_def demo_callback_draws_def demo_provider_def demo_attempt_def claimed_row_def
        Let_def id_token_algs_intersection_def construct_identity_capability_def demo_validated_def)
qed

lemma checked_L04:
  assumes "m < 10 ^ 18"
  shows "checked_attributes (L04_event uid ''idp'' (int m)) = Inr [(''provider'', ''idp''), (''evicted'', dec_int (int m))]"
  using length_dec_int_bound [of 18 "int m"] assms unfolding L04_event_def
  by (auto intro!: checked_ok_event simp: attribute_bounds)

lemma demo_federated_commit:
  assumes "s = demo_callback_store (claimed_row 1 demo_attempt)\<lparr>federation_links := [demo_fed_link\<lparr>fl_last_seen_at := 1\<rparr>]\<rparr>"
  shows "\<exists>n s'. sign_in_federated demo_env 1 ''a'' ''p'' ''idp'' (federated_session demo_callback_draws ''u'') s = (Inr n, s')"
proof -
  let ?se = "federated_session demo_callback_draws ''u''"
  define s1 where "s1 = s\<lparr>federation_attempts := [(claimed_row 1 demo_attempt)\<lparr>fa_status := FaCompleted\<rparr>]\<rparr>"
  define s2 where "s2 = s1\<lparr>users := [(demo_user ''u'' User)\<lparr>u_last_login_at := Some 1\<rparr>]\<rparr>"
  define s3 where "s3 = s2\<lparr>sessions := [inserted_session ?se]\<rparr>"
  note demo = assms demo_callback_store_def demo_attempt_def demo_fed_link_def demo_provider_def demo_user_def empty_store_def
    claimed_row_def demo_callback_draws_def federated_session_def
  have a: "attempt_complete_within_tx ''a'' s = Inr ((), s1)"
    by (simp add: attempt_complete_within_tx_def s1_def found_or_def affected_def update_where_def demo)
  have d: "authority_drift_within_tx ''p'' ''u'' s1 = Inr (None, s1)"
    by (simp add: authority_drift_within_tx_def provider_is_enabled_within_tx_def provider_get_def link_exists_within_tx_def
        link_of_def is_active_within_tx_def read_user_def user_active_def get_user_def by_user_id_def ok_or_def tx_bind_def tx_get_def
        s1_def demo)
  have l: "record_federated_login_within_tx ''u'' 1 s1 = Inr ((), s2)"
    by (simp add: record_federated_login_within_tx_def s2_def s1_def found_or_def affected_def update_where_def user_active_def demo)
  have i: "session_insert_within_tx ?se s2 = Inr ((), s3)"
    by (simp add: session_insert_Inr_iff s3_def s2_def s1_def demo)
  have "length (sessions s3) < 10 ^ 9"
    by (simp add: s3_def)
  then obtain m where e: "evict_over_cap_within_tx ''u'' 1 s3 = Inr (int m, s3\<lparr>sessions := evicted_rows ''u'' 1 s3\<rparr>)" and m: "m < 10 ^ 18"
    by (rule evict_total)
  have "s_created_at ?se = 1"
    by (simp add: demo)
  then have "sign_in_federated_body ''a'' ''p'' ''idp'' ?se s = Inr ((int m, L04_event ''u'' ''idp'' (int m)), s3\<lparr>sessions := evicted_rows ''u'' 1 s3\<rparr>)"
    using a d l i e by (simp add: sign_in_federated_body_def tx_bind_def tx_guard_def Let_def)
  from l04.class_a_commit [OF this checked_L04 [OF m]] show ?thesis
    by (simp add: sign_in_federated_def)
qed

lemma demo_fields:
  "cb_validation demo_callback_draws = 1" "cb_claim demo_callback_draws = 1" "cb_at demo_callback_draws = 1"
    "cb_session_id demo_callback_draws = ''sess''"
  "ce_digest demo_callback_env = demo_env" "ce_aead demo_callback_env = demo_aead"
  "fp_id demo_provider = ''p''" "fp_slug demo_provider = ''idp''" "fp_enabled demo_provider" "fa_id demo_attempt = ''a''"
    "fa_provider_id demo_attempt = ''p''" "fa_id (claimed_row 1 demo_attempt) = ''a''"
  by (simp_all add: demo_callback_draws_def demo_callback_env_def demo_provider_def demo_attempt_def claimed_row_def)

lemma demo_after_claim:
  "\<exists>s'. after_claim demo_callback_env demo_callback_draws (\<lambda>k s. s) demo_provider (claimed_row 1 demo_attempt) ''code''
      (demo_callback_store (claimed_row 1 demo_attempt)) = (Inr (SignedIn ''sess''), s')"
proof -
  let ?s = "demo_callback_store (claimed_row 1 demo_attempt)"
  let ?s2 = "?s\<lparr>federation_links := [demo_fed_link\<lparr>fl_last_seen_at := 1\<rparr>]\<rparr>"
  obtain capability where v: "validate_token demo_callback_env demo_callback_draws demo_provider (claimed_row 1 demo_attempt)
      demo_validated ''hdr.pay.sig''
    = Inr capability" "ic_sub capability = ''alice''" "fst (ic_provider capability) = ''p''" "ic_verified_email capability = None"
    using demo_validate by blast
  obtain n s' where commit: "sign_in_federated demo_env 1 ''a'' ''p'' ''idp'' (federated_session demo_callback_draws ''u'') ?s2 = (Inr n, s')"
    using demo_federated_commit [OF refl] by blast
  have res: "resolve_verified_identity (ce_lower demo_callback_env) capability (fp_provision_mode demo_provider) ?s ?s = ExistingLink ''u''"
    using v(2,3) by (simp add: resolve_verified_identity_def link_find_by_sub_def demo_callback_store_def demo_fed_link_def)
  have up: "link_upsert (link_row demo_callback_draws demo_provider capability ''u'') ?s = Inr ((), ?s2)"
    using v(4) by (simp add: link_upsert_def link_row_def link_of_def demo_callback_store_def demo_fed_link_def demo_fields update_where_def)
  have "get_user ''u'' ?s2 = Inr (demo_user ''u'' User)" "\<not> is_mfa_enabled ''u'' ?s2" "\<not> u_is_disabled (demo_user ''u'' User)"
    "\<not> u_is_deleted (demo_user ''u'' User)"
    by (simp_all add: get_user_def by_user_id_def ok_or_def is_mfa_enabled_def totp_get_def webauthn_has_any_def affected_def demo_callback_store_def
        demo_user_def empty_store_def)
  then have "complete_federated_signin demo_callback_env demo_callback_draws (\<lambda>k s. s) demo_provider (claimed_row 1 demo_attempt) ''u'' ?s2
      = (Inr (SignedIn ''sess''), s')"
    using commit by (simp add: complete_federated_signin_def demo_fields)
  then have "act_on_identity demo_callback_env demo_callback_draws (\<lambda>k s. s) demo_provider (claimed_row 1 demo_attempt) capability ?s
      = (Inr (SignedIn ''sess''), s')"
    using res up by (simp add: act_on_identity_def with_tx_def)
  then show ?thesis
    using demo_code_exchanged v(1) by (auto simp: after_claim_def)
qed

lemma demo_callback:
  "\<exists>s'. federated_callback demo_callback_env demo_callback_draws (\<lambda>k s. s) \<lparr> cq_code = Some ''code'', cq_error = None, cq_state = Some ''st'' \<rparr>
      (Some ''bb'') (demo_callback_store demo_attempt) = (Inr (SignedIn ''sess''), s')"
proof -
  let ?s = "demo_callback_store (claimed_row 1 demo_attempt)"
  obtain s' where rest: "after_claim demo_callback_env demo_callback_draws (\<lambda>k s. s) demo_provider (claimed_row 1 demo_attempt) ''code'' ?s
      = (Inr (SignedIn ''sess''), s')"
    using demo_after_claim by blast
  have find: "attempt_find_by_state_sha256 (sha256 demo_env ''st'') (demo_callback_store demo_attempt) = Inr demo_attempt"
    "provider_get ''p'' (demo_callback_store demo_attempt) = Inr demo_provider"
    by (simp_all add: attempt_find_by_state_sha256_def provider_get_def demo_callback_store_def demo_attempt_def demo_provider_def ok_or_def)
  have rd: "claim_read ''a'' 1 ''p'' 0 0 (presented_binding demo_callback_env (Some ''bb'')) (demo_callback_store demo_attempt) = Inr demo_attempt"
    by (simp add: claim_read_def claim_check_def presented_binding_def demo_fields demo_callback_store_def demo_attempt_def)
  have wr: "claim_write demo_aead ''a'' 1 demo_attempt (demo_callback_store demo_attempt) = (Inr (claimed_row 1 demo_attempt), ?s)"
    by (simp add: claim_write_def affected_def update_where_def demo_callback_store_def demo_attempt_def open_sealed_def demo_aead_def NONCE_LEN_def)
  show ?thesis
    using rest find rd wr by (simp add: federated_callback_def placeholder_provider_version_and_generation_def demo_fields)
qed

theorem callback_signs_in_verified_identity_witness:
  "\<exists>s'. federated_callback demo_callback_env demo_callback_draws (\<lambda>k s. s) \<lparr> cq_code = Some ''code'', cq_error = None, cq_state = Some ''st'' \<rparr>
      (Some ''bb'') (demo_callback_store demo_attempt) = (Inr (SignedIn ''sess''), s')
    \<and> (\<exists>provider row capability uid. vouched_for demo_callback_env demo_callback_draws provider (claimed_row 1 row) ''code'' capability
        \<and> holds_session s' (federated_session demo_callback_draws uid))"
proof -
  obtain s' where run: "federated_callback demo_callback_env demo_callback_draws (\<lambda>k s. s)
      \<lparr> cq_code = Some ''code'', cq_error = None, cq_state = Some ''st'' \<rparr> (Some ''bb'') (demo_callback_store demo_attempt)
      = (Inr (SignedIn ''sess''), s')"
    using demo_callback by blast
  have ok: "decode_ok (ce_token demo_callback_env)" "cb_claim demo_callback_draws = 1"
    using demo_decode_ok by (simp_all add: demo_callback_env_def demo_callback_draws_def)
  obtain provider row code capability uid where "Some code = Some ''code''"
    "vouched_for demo_callback_env demo_callback_draws provider (claimed_row 1 row) code capability"
    "holds_session s' (federated_session demo_callback_draws uid)"
    using callback_signs_in_verified_identity [OF run ok(1)] unfolding ok(2) callback_query.simps by metis
  then show ?thesis
    using run by auto
qed

theorem claimed_attempt_is_settled_witness:
  "\<exists>r s'. after_claim demo_callback_env demo_callback_draws (\<lambda>k s. s) demo_provider (claimed_row 1 demo_attempt) ''code''
      (demo_callback_store (claimed_row 1 demo_attempt)) = (r, s')
    \<and> \<not> attempt_over ''a'' (demo_callback_store (claimed_row 1 demo_attempt)) \<and> attempt_over ''a'' s'"
proof -
  obtain r s' where run: "after_claim demo_callback_env demo_callback_draws (\<lambda>k s. s) demo_provider (claimed_row 1 demo_attempt) ''code''
      (demo_callback_store (claimed_row 1 demo_attempt)) = (r, s')"
    by fastforce
  have "attempt_ids_unique (demo_callback_store (claimed_row 1 demo_attempt))"
    "\<not> attempt_over ''a'' (demo_callback_store (claimed_row 1 demo_attempt))" "fa_id (claimed_row 1 demo_attempt) = ''a''"
    by (simp_all add: attempt_ids_unique_def attempt_over_def demo_callback_store_def claimed_row_def demo_attempt_def)
  moreover have "others_step cx ae aid (\<lambda>k s. s)" for cx ae aid
    by (simp add: others_step_def)
  ultimately show ?thesis
    using run claimed_attempt_is_settled [OF run] by auto
qed

end
