(* ===== verification/Dynamic_Registration.thy ===== *)
theory Dynamic_Registration
  imports Settings Authorize Json_Doc Passwords
begin

text \<open>
  Dynamic client registration (\<open>http/dynamic_registration_validation.rs\<close> and
  \<open>http/handlers/dynamic_register.rs\<close>, crate \<open>sui-id\<close>): the bearer token, the envelope of the request, the
  rule of every field, and the handler up to the command C15.  serde's reading of a top-level object is a parameter:
  the members it yields, in order, and how it ended.  The scope catalogue is the names its one read gave.
  \<open>tracing\<close> output is not modelled; a response is its status, its error code and its description.
\<close>

section \<open>The bearer token\<close>

definition strip_prefix :: "string \<Rightarrow> string \<Rightarrow> string option" where
  "strip_prefix pre s = (if prefix pre s then Some (drop (length pre) s) else None)"

definition is_lower_hex :: "char \<Rightarrow> bool" where
  "is_lower_hex c = ((48 \<le> byte c \<and> byte c \<le> 57) \<or> (97 \<le> byte c \<and> byte c \<le> 102))"

text \<open>The \<open>Authorization\<close> headers, \<open>None\<close> for one that is not visible ASCII.\<close>

definition extract_registration_bearer_token :: "string option list \<Rightarrow> string option" where
  "extract_registration_bearer_token headers =
    (case headers of
       [Some raw] \<Rightarrow>
        (case strip_prefix ''Bearer '' raw of
           None \<Rightarrow> None
         | Some token \<Rightarrow>
            if length token \<noteq> 64 then None
            else if \<not> list_all is_lower_hex token then None
            else Some token)
     | _ \<Rightarrow> None)"

definition sha256_hex :: "digest_env \<Rightarrow> string \<Rightarrow> string" where
  "sha256_hex cx s = hex_lower (sha256 cx s)"

section \<open>The envelope\<close>

definition MAX_ENVELOPE_BYTES :: nat where
  "MAX_ENVELOPE_BYTES = 64 * 1024"

definition MAX_ENVELOPE_DEPTH :: nat where
  "MAX_ENVELOPE_DEPTH = 16"

definition MAX_ENVELOPE_MEMBERS :: nat where
  "MAX_ENVELOPE_MEMBERS = 128"

record de_error =
  de_text :: string
  de_is_data :: bool

text \<open>
  What serde's map access yields for a body: the members read before the end, the name behind which the reading
  stopped (its value was not read), if any, and the error it stopped with, if any.  \<open>NotMap\<close> is a body that is no
  object, and \<open>es_position\<close> what serde appends to a message of a visitor.
\<close>

record envelope_stream =
  es_members :: "(string \<times> json) list"
  es_pending :: "string option"
  es_error :: "de_error option"
  es_position :: string

datatype envelope_source = NotMap de_error | MapAccess envelope_stream

datatype envelope_error =
    EnvelopeTooLarge
  | NotAnObject
  | Malformed string
  | DuplicateMember string
  | TooDeep
  | TooManyMembers
  | UnapprovedSoftwareStatement
  | UnsupportedMember string

definition KNOWN_UNSUPPORTED_MEMBERS :: "string list" where
  "KNOWN_UNSUPPORTED_MEMBERS =
    [''client_id'', ''client_secret'', ''jwks_uri'', ''jwks'', ''software_id'', ''software_version'', ''contacts'',
     ''application_type'', ''sector_identifier_uri'', ''subject_type'', ''id_token_signed_response_alg'',
     ''id_token_encrypted_response_alg'', ''id_token_encrypted_response_enc'', ''userinfo_signed_response_alg'',
     ''userinfo_encrypted_response_alg'', ''userinfo_encrypted_response_enc'', ''request_object_signing_alg'',
     ''request_object_encryption_alg'', ''request_object_encryption_enc'', ''token_endpoint_auth_signing_alg'',
     ''default_max_age'', ''require_auth_time'', ''default_acr_values'', ''initiate_login_uri'', ''request_uris'']"

definition duplicate_error :: "envelope_stream \<Rightarrow> string \<Rightarrow> de_error" where
  "duplicate_error st key = \<lparr> de_text = ''duplicate member: '' @ key @ es_position st, de_is_data = True \<rparr>"

text \<open>The visitor's loop: a name is compared with the names before its value is read.\<close>

fun visit_members :: "envelope_stream \<Rightarrow> (string \<times> json) list \<Rightarrow> (string \<times> json) list \<Rightarrow> de_error + (string \<times> json) list" where
  "visit_members st out [] =
    (case es_pending st of
       Some key \<Rightarrow>
        if key \<in> fst ` set out then Inl (duplicate_error st key)
        else (case es_error st of Some e \<Rightarrow> Inl e | None \<Rightarrow> Inr out)
     | None \<Rightarrow> (case es_error st of Some e \<Rightarrow> Inl e | None \<Rightarrow> Inr out))"
| "visit_members st out ((key, value) # members) =
    (if key \<in> fst ` set out then Inl (duplicate_error st key)
     else visit_members st (map_insert key (value_of value) out) members)"

definition duplicate_checked_object :: "envelope_source \<Rightarrow> de_error + (string \<times> json) list" where
  "duplicate_checked_object src =
    (case src of NotMap e \<Rightarrow> Inl e | MapAccess st \<Rightarrow> visit_members st [] (es_members st))"

definition json_depth :: "json \<Rightarrow> nat" where
  "json_depth value = nesting_depth value"

text \<open>\<open>rest.split(pat).next()\<close>: the text up to the first occurrence of the pattern.\<close>

fun before_pattern :: "string \<Rightarrow> string \<Rightarrow> string" where
  "before_pattern pat [] = []"
| "before_pattern pat (c # cs) = (if prefix pat (c # cs) then [] else c # before_pattern pat cs)"

definition parse_envelope :: "(string \<Rightarrow> envelope_source) \<Rightarrow> string \<Rightarrow> envelope_error + (string \<times> json) list" where
  "parse_envelope stream bytes =
    (if length bytes > MAX_ENVELOPE_BYTES then Inl EnvelopeTooLarge
     else
    (case duplicate_checked_object (stream bytes) of
       Inl e \<Rightarrow>
        (case strip_prefix ''duplicate member: '' (de_text e) of
           Some rest \<Rightarrow> Inl (DuplicateMember (before_pattern '' at line '' rest))
         | None \<Rightarrow> if de_is_data e then Inl NotAnObject else Inl (Malformed (de_text e)))
     | Inr members \<Rightarrow>
        if length members > MAX_ENVELOPE_MEMBERS then Inl TooManyMembers
        else if foldr max (map (json_depth \<circ> snd) members) 0 + 1 > MAX_ENVELOPE_DEPTH then Inl TooDeep
        else if ''software_statement'' \<in> fst ` set members then Inl UnapprovedSoftwareStatement
        else (case List.find (\<lambda>(key, _). key \<in> set KNOWN_UNSUPPORTED_MEMBERS) members of
            Some (key, _) \<Rightarrow> Inl (UnsupportedMember key)
          | None \<Rightarrow> Inr members)))"

definition envelope_text :: "envelope_error \<Rightarrow> string" where
  "envelope_text e =
    (case e of
       EnvelopeTooLarge \<Rightarrow> ''request body exceeds '' @ dec MAX_ENVELOPE_BYTES @ '' bytes''
     | NotAnObject \<Rightarrow> ''request body must be a JSON object''
     | Malformed t \<Rightarrow> ''malformed JSON: '' @ t
     | DuplicateMember k \<Rightarrow> ''duplicate member: '' @ k
     | TooDeep \<Rightarrow> ''request body exceeds depth '' @ dec MAX_ENVELOPE_DEPTH
     | TooManyMembers \<Rightarrow> ''request body exceeds '' @ dec MAX_ENVELOPE_MEMBERS @ '' top-level members''
     | UnapprovedSoftwareStatement \<Rightarrow> ''software_statement is not approved''
     | UnsupportedMember k \<Rightarrow> ''unsupported client metadata member: '' @ k)"

section \<open>URIs\<close>

definition MAX_REDIRECT_URIS :: nat where
  "MAX_REDIRECT_URIS = 16"

definition MAX_REDIRECT_URI_BYTES :: nat where
  "MAX_REDIRECT_URI_BYTES = 2048"

definition is_ascii_hexdigit :: "char \<Rightarrow> bool" where
  "is_ascii_hexdigit c = (is_lower_hex c \<or> (65 \<le> byte c \<and> byte c \<le> 70))"

fun has_malformed_percent_escape :: "string \<Rightarrow> bool" where
  "has_malformed_percent_escape [] = False"
| "has_malformed_percent_escape (c # cs) =
    (if c = CHR ''%'' then
       (case cs of
          a # b # rest \<Rightarrow> \<not> is_ascii_hexdigit a \<or> \<not> is_ascii_hexdigit b \<or> has_malformed_percent_escape rest
        | _ \<Rightarrow> True)
     else has_malformed_percent_escape cs)"

definition ends_with :: "string \<Rightarrow> string \<Rightarrow> bool" where
  "ends_with s suf = suffix suf s"

text \<open>The part of the authority after its last closing bracket, all of it when there is none.\<close>

definition after_bracket :: "string \<Rightarrow> string" where
  "after_bracket authority =
    (if CHR '']'' \<in> set authority then rev (takeWhile (\<lambda>c. c \<noteq> CHR '']'') (rev authority)) else authority)"

definition has_explicit_default_port :: "string \<Rightarrow> bool" where
  "has_explicit_default_port uri =
    (let authority = takeWhile (\<lambda>c. c \<notin> {CHR ''/'', CHR ''?'', CHR ''#''}) in
     case strip_prefix ''https://'' uri of
       Some rest \<Rightarrow> ends_with (after_bracket (authority rest)) '':443''
     | None \<Rightarrow>
        (case strip_prefix ''http://'' uri of
           Some rest \<Rightarrow> ends_with (after_bracket (authority rest)) '':80''
         | None \<Rightarrow> False))"

definition well_formed_uri :: "web_env \<Rightarrow> string \<Rightarrow> nat \<Rightarrow> string + url" where
  "well_formed_uri we uri max_bytes =
    (if length uri > max_bytes then Inl ''exceeds the byte limit''
     else if \<not> list_all (\<lambda>c. byte c < 128) uri
       then Inl ''non-ASCII; submit canonical ASCII punycode, not a Unicode hostname''
     else if CHR 0x5C \<in> set uri then Inl ''contains a backslash''
     else if CHR ''*'' \<in> set uri then Inl ''contains a wildcard/pattern character''
     else if has_malformed_percent_escape uri then Inl ''malformed percent escape''
     else if has_explicit_default_port uri
       then Inl ''explicit default port (443 for https, 80 for http) is redundant''
     else
    (case url_parse we uri of
       None \<Rightarrow> Inl ''not a valid URL''
     | Some parsed \<Rightarrow>
        if url_fragment parsed \<noteq> None then Inl ''must not contain a fragment''
        else if url_username parsed \<noteq> [] \<or> url_password parsed \<noteq> None then Inl ''must not contain userinfo''
        else Inr parsed))"

section \<open>The redirect profile\<close>

datatype redirect_profile = PublicHttps | PublicNativeLoopback | ConfidentialHttps

datatype redirect_rejection =
    RedirectMalformed string string
  | MixedProfile
  | ConfidentialWithLoopback
  | TooManyRedirects
  | DuplicateRedirect string

datatype shape = Https | NumericLoopbackHttp

definition well_formed_shape :: "web_env \<Rightarrow> string \<Rightarrow> redirect_rejection + shape" where
  "well_formed_shape we uri =
    (case well_formed_uri we uri MAX_REDIRECT_URI_BYTES of
       Inl reason \<Rightarrow> Inl (RedirectMalformed uri reason)
     | Inr parsed \<Rightarrow>
        if url_scheme parsed = ''https'' then Inr Https
        else if url_scheme parsed = ''http'' then
          (case url_host parsed of
             Some host \<Rightarrow>
              if host_is_loopback host then
                (case url_port parsed of
                   None \<Rightarrow> Inl (RedirectMalformed uri ''numeric loopback requires an explicit, nonzero port'')
                 | Some port \<Rightarrow>
                    if port = 0 then Inl (RedirectMalformed uri ''numeric loopback requires an explicit, nonzero port'')
                    else Inr NumericLoopbackHttp)
              else Inl (RedirectMalformed uri
                ''http is only permitted on a numeric loopback address (127.0.0.1 or [::1], not a name such as localhost, and not a remote or private host)'')
           | None \<Rightarrow> Inl (RedirectMalformed uri
                ''http is only permitted on a numeric loopback address (127.0.0.1 or [::1], not a name such as localhost, and not a remote or private host)''))
        else Inl (RedirectMalformed uri ''scheme must be https, or http on numeric loopback''))"

fun first_repeat :: "string list \<Rightarrow> string list \<Rightarrow> string option" where
  "first_repeat seen [] = None"
| "first_repeat seen (x # xs) = (if x \<in> set seen then Some x else first_repeat (x # seen) xs)"

fun same_shapes :: "web_env \<Rightarrow> shape \<Rightarrow> string list \<Rightarrow> redirect_rejection option" where
  "same_shapes we first [] = None"
| "same_shapes we first (u # us) =
    (case well_formed_shape we u of
       Inl e \<Rightarrow> Some e
     | Inr shape \<Rightarrow> if shape \<noteq> first then Some MixedProfile else same_shapes we first us)"

text \<open>An empty list is a panic of the \<open>expect\<close>; the handler has refused it before.\<close>

definition derive_closed_profile :: "web_env \<Rightarrow> string \<Rightarrow> string list \<Rightarrow> (redirect_rejection + redirect_profile) option" where
  "derive_closed_profile we auth_method redirect_uris =
    (if length redirect_uris > MAX_REDIRECT_URIS then Some (Inl TooManyRedirects)
     else
    (case first_repeat [] redirect_uris of
       Some uri \<Rightarrow> Some (Inl (DuplicateRedirect uri))
     | None \<Rightarrow>
    (case redirect_uris of
       [] \<Rightarrow> None
     | u # us \<Rightarrow>
    (case well_formed_shape we u of
       Inl e \<Rightarrow> Some (Inl e)
     | Inr first \<Rightarrow>
    (case same_shapes we first us of
       Some e \<Rightarrow> Some (Inl e)
     | None \<Rightarrow>
        let is_public = (auth_method = ''none'') in
        Some (case first of
            Https \<Rightarrow> if is_public then Inr PublicHttps else Inr ConfidentialHttps
          | NumericLoopbackHttp \<Rightarrow> if is_public then Inr PublicNativeLoopback else Inl ConfidentialWithLoopback))))))"

definition redirect_text :: "redirect_rejection \<Rightarrow> string" where
  "redirect_text e =
    (case e of
       RedirectMalformed uri reason \<Rightarrow> ''redirect_uris: '' @ uri @ '': '' @ reason
     | MixedProfile \<Rightarrow> ''redirect_uris: all entries must share one profile (HTTPS or numeric loopback), not a mix''
     | ConfidentialWithLoopback \<Rightarrow>
        ''redirect_uris: an HTTP loopback redirect is only permitted with token_endpoint_auth_method=none''
     | TooManyRedirects \<Rightarrow> ''redirect_uris: at most 16 entries''
     | DuplicateRedirect u \<Rightarrow> ''redirect_uris: duplicate entry: '' @ u)"

section \<open>The other fields\<close>

definition MAX_CLIENT_NAME_SCALARS :: nat where
  "MAX_CLIENT_NAME_SCALARS = 128"

definition MAX_CLIENT_NAME_BYTES :: nat where
  "MAX_CLIENT_NAME_BYTES = 512"

datatype client_name_rejection = Blank | ForbiddenCharacter | NameTooManyBytes | NameTooManyScalars

definition is_forbidden_name_character :: "string \<Rightarrow> bool" where
  "is_forbidden_name_character c =
    (let cp = code_point c in
     cp \<le> 0x1F \<or> cp = 0x7F \<or> (0x80 \<le> cp \<and> cp \<le> 0x9F)
     \<or> (0x202A \<le> cp \<and> cp \<le> 0x202E) \<or> (0x2066 \<le> cp \<and> cp \<le> 0x2069))"

definition validate_client_name :: "string option \<Rightarrow> client_name_rejection + string" where
  "validate_client_name raw =
    (let trimmed = str_trim (case raw of None \<Rightarrow> [] | Some n \<Rightarrow> n) in
     if trimmed = [] then Inl Blank
     else if list_ex is_forbidden_name_character (utf8_chars trimmed) then Inl ForbiddenCharacter
     else if length trimmed > MAX_CLIENT_NAME_BYTES then Inl NameTooManyBytes
     else if length (utf8_chars trimmed) > MAX_CLIENT_NAME_SCALARS then Inl NameTooManyScalars
     else Inr trimmed)"

definition client_name_text :: "client_name_rejection \<Rightarrow> string" where
  "client_name_text e =
    (case e of
       Blank \<Rightarrow> ''client_name is required''
     | ForbiddenCharacter \<Rightarrow> ''client_name: must not contain a control or bidi override/isolate character''
     | NameTooManyBytes \<Rightarrow> ''client_name: exceeds '' @ dec MAX_CLIENT_NAME_BYTES @ '' bytes''
     | NameTooManyScalars \<Rightarrow> ''client_name: exceeds '' @ dec MAX_CLIENT_NAME_SCALARS @ '' scalars'')"

text \<open>An error carries the submitted string.\<close>

definition validate_auth_method :: "string option \<Rightarrow> string + string" where
  "validate_auth_method raw =
    (case raw of
       None \<Rightarrow> Inr ''client_secret_basic''
     | Some m \<Rightarrow>
        if m = ''none'' then Inr ''none''
        else if m = ''client_secret_basic'' then Inr ''client_secret_basic''
        else if m = ''client_secret_post'' then Inr ''client_secret_post''
        else Inl m)"

definition auth_method_of_str :: "string \<Rightarrow> token_endpoint_auth_method" where
  "auth_method_of_str s =
    (if s = ''none'' then AuthNone
     else if s = ''client_secret_basic'' then ClientSecretBasic
     else if s = ''client_secret_post'' then ClientSecretPost
     else Unknown s)"

datatype grant_types_rejection = GrantsEmpty | GrantDuplicate string | RefreshWithoutCode | OtherGrant string

fun check_grants :: "string list \<Rightarrow> string list \<Rightarrow> grant_types_rejection option" where
  "check_grants seen [] = None"
| "check_grants seen (g # gs) =
    (if g \<in> set seen then Some (GrantDuplicate g)
     else if g \<noteq> ''authorization_code'' \<and> g \<noteq> ''refresh_token'' then Some (OtherGrant g)
     else check_grants (g # seen) gs)"

definition validate_grant_types :: "string list option \<Rightarrow> grant_types_rejection + string list" where
  "validate_grant_types raw =
    (case raw of
       None \<Rightarrow> Inr [''authorization_code'']
     | Some grants \<Rightarrow>
        if grants = [] then Inl GrantsEmpty
        else (case check_grants [] grants of
            Some e \<Rightarrow> Inl e
          | None \<Rightarrow> if ''authorization_code'' \<notin> set grants then Inl RefreshWithoutCode else Inr grants))"

datatype response_types_rejection = ResponsesEmpty | ResponseDuplicate string | NotCodeOnly string

definition validate_response_types :: "string list option \<Rightarrow> response_types_rejection + string list" where
  "validate_response_types raw =
    (case raw of
       None \<Rightarrow> Inr [''code'']
     | Some types \<Rightarrow>
        if types = [] then Inl ResponsesEmpty
        else (case first_repeat [] types of
            Some t \<Rightarrow> Inl (ResponseDuplicate t)
          | None \<Rightarrow>
             if card (set types) \<noteq> 1 \<or> ''code'' \<notin> set types
             then Inl (NotCodeOnly (case List.find (\<lambda>t. t \<noteq> ''code'') types of Some t \<Rightarrow> t | None \<Rightarrow> hd types))
             else Inr types))"

definition is_scope_token_byte :: "char \<Rightarrow> bool" where
  "is_scope_token_byte c =
    (byte c = 0x21 \<or> (0x23 \<le> byte c \<and> byte c \<le> 0x5B) \<or> (0x5D \<le> byte c \<and> byte c \<le> 0x7E))"

definition MAX_SCOPE_TOKENS :: nat where
  "MAX_SCOPE_TOKENS = 32"

definition MAX_SCOPE_TOKEN_BYTES :: nat where
  "MAX_SCOPE_TOKEN_BYTES = 64"

definition MAX_SCOPE_TOTAL_BYTES :: nat where
  "MAX_SCOPE_TOTAL_BYTES = 1024"

datatype scope_rejection =
    ScopeEmpty
  | ScopeMalformed
  | ScopeTooManyBytes
  | TooManyTokens
  | TokenTooLong nat
  | ScopeDuplicate nat
  | ScopeUnknown nat
  | MissingOpenid

fun check_scope_tokens :: "string list \<Rightarrow> nat \<Rightarrow> string list \<Rightarrow> scope_rejection option" where
  "check_scope_tokens seen i [] = None"
| "check_scope_tokens seen i (t # ts) =
    (if t = [] \<or> \<not> list_all is_scope_token_byte t then Some ScopeMalformed
     else if length t > MAX_SCOPE_TOKEN_BYTES then Some (TokenTooLong i)
     else if t \<in> set seen then Some (ScopeDuplicate i)
     else check_scope_tokens (t # seen) (Suc i) ts)"

fun unknown_scope :: "string list \<Rightarrow> nat \<Rightarrow> string list \<Rightarrow> scope_rejection option" where
  "unknown_scope catalog i [] = None"
| "unknown_scope catalog i (t # ts) =
    (if t \<notin> set catalog then Some (ScopeUnknown i) else unknown_scope catalog (Suc i) ts)"

definition validate_scope :: "string option \<Rightarrow> string list \<Rightarrow> scope_rejection + string list" where
  "validate_scope raw catalog =
    (let s = (case raw of None \<Rightarrow> [] | Some t \<Rightarrow> t) in
     if s = [] then Inl ScopeEmpty
     else if length s > MAX_SCOPE_TOTAL_BYTES then Inl ScopeTooManyBytes
     else
     let tokens = split_on CHR '' '' s in
     if length tokens > MAX_SCOPE_TOKENS then Inl TooManyTokens
     else
    (case check_scope_tokens [] 0 tokens of
       Some e \<Rightarrow> Inl e
     | None \<Rightarrow>
    (case unknown_scope catalog 0 tokens of
       Some e \<Rightarrow> Inl e
     | None \<Rightarrow> if ''openid'' \<notin> set tokens then Inl MissingOpenid else Inr tokens)))"

definition scope_text :: "scope_rejection \<Rightarrow> string" where
  "scope_text e =
    (case e of
       ScopeEmpty \<Rightarrow> ''scope: must not be empty''
     | ScopeMalformed \<Rightarrow> ''scope: must be one or more space-separated RFC 6749 scope tokens''
     | ScopeTooManyBytes \<Rightarrow> ''scope: exceeds '' @ dec MAX_SCOPE_TOTAL_BYTES @ '' bytes''
     | TooManyTokens \<Rightarrow> ''scope: exceeds '' @ dec MAX_SCOPE_TOKENS @ '' tokens''
     | TokenTooLong i \<Rightarrow> ''scope: token at index '' @ dec i @ '' exceeds '' @ dec MAX_SCOPE_TOKEN_BYTES @ '' bytes''
     | ScopeDuplicate i \<Rightarrow> ''scope: token at index '' @ dec i @ '' is a duplicate''
     | ScopeUnknown i \<Rightarrow> ''scope: token at index '' @ dec i @ '' is not in this deployment'' @ [CHR 0x27] @ ''s catalog''
     | MissingOpenid \<Rightarrow> ''scope: must include openid'')"

datatype grant_scope_coupling_rejection = RefreshWithoutOfflineAccess | OfflineAccessWithoutRefresh

definition check_grant_scope_coupling :: "string list \<Rightarrow> string list \<Rightarrow> grant_scope_coupling_rejection option" where
  "check_grant_scope_coupling grant_types scope_tokens =
    (let has_refresh = list_ex (\<lambda>g. g = ''refresh_token'') grant_types;
         has_offline_access = list_ex (\<lambda>s. s = ''offline_access'') scope_tokens in
     if has_refresh \<and> \<not> has_offline_access then Some RefreshWithoutOfflineAccess
     else if \<not> has_refresh \<and> has_offline_access then Some OfflineAccessWithoutRefresh
     else None)"

definition coupling_text :: "grant_scope_coupling_rejection \<Rightarrow> string" where
  "coupling_text e =
    (case e of
       RefreshWithoutOfflineAccess \<Rightarrow> ''grant_types: refresh_token requires the offline_access scope''
     | OfflineAccessWithoutRefresh \<Rightarrow> ''scope: offline_access requires the refresh_token grant type'')"

definition MAX_APPLICATION_URI_BYTES :: nat where
  "MAX_APPLICATION_URI_BYTES = MAX_REDIRECT_URI_BYTES"

record invalid_application_uri =
  iu_field :: string
  iu_uri :: string
  iu_reason :: string

definition validate_application_uri ::
  "web_env \<Rightarrow> string option \<Rightarrow> string \<Rightarrow> invalid_application_uri + string option" where
  "validate_application_uri we raw field =
    (let reject = (\<lambda>uri reason. Inl \<lparr> iu_field = field, iu_uri = uri, iu_reason = reason \<rparr>) in
     case raw of
       None \<Rightarrow> Inr None
     | Some uri \<Rightarrow>
        if uri = [] then Inr None
        else (case well_formed_uri we uri MAX_APPLICATION_URI_BYTES of
            Inl reason \<Rightarrow> reject uri reason
          | Inr parsed \<Rightarrow> if url_scheme parsed \<noteq> ''https'' then reject uri ''must be https'' else Inr (Some uri)))"

definition MAX_POST_LOGOUT_REDIRECT_URIS :: nat where
  "MAX_POST_LOGOUT_REDIRECT_URIS = 16"

datatype post_logout_rejection = LogoutMalformed string string | LogoutTooMany | LogoutDuplicate string

fun check_post_logout :: "web_env \<Rightarrow> string list \<Rightarrow> string list \<Rightarrow> post_logout_rejection option" where
  "check_post_logout we seen [] = None"
| "check_post_logout we seen (uri # uris) =
    (if uri \<in> set seen then Some (LogoutDuplicate uri)
     else (case well_formed_uri we uri MAX_APPLICATION_URI_BYTES of
         Inl reason \<Rightarrow> Some (LogoutMalformed uri reason)
       | Inr parsed \<Rightarrow>
          if url_scheme parsed \<noteq> ''https'' then Some (LogoutMalformed uri ''must be https'')
          else check_post_logout we (uri # seen) uris))"

definition validate_post_logout_redirect_uris :: "web_env \<Rightarrow> string list option \<Rightarrow> post_logout_rejection + string list" where
  "validate_post_logout_redirect_uris we raw =
    (case raw of
       None \<Rightarrow> Inr []
     | Some uris \<Rightarrow>
        if length uris > MAX_POST_LOGOUT_REDIRECT_URIS then Inl LogoutTooMany
        else (case check_post_logout we [] uris of Some e \<Rightarrow> Inl e | None \<Rightarrow> Inr uris))"

section \<open>Public errors\<close>

fun position_of :: "string \<Rightarrow> string list \<Rightarrow> nat" where
  "position_of u [] = 0"
| "position_of u (x # xs) = (if x = u then 0 else if u \<in> set xs then Suc (position_of u xs) else 0)"

definition public_redirect_rejection :: "redirect_rejection \<Rightarrow> string list \<Rightarrow> string" where
  "public_redirect_rejection e lst =
    (case e of
       RedirectMalformed uri _ \<Rightarrow> ''redirect_uris: entry at index '' @ dec (position_of uri lst) @ '' is malformed''
     | DuplicateRedirect uri \<Rightarrow> ''redirect_uris: entry at index '' @ dec (position_of uri lst) @ '' is a duplicate''
     | _ \<Rightarrow> redirect_text e)"

definition public_post_logout_rejection :: "post_logout_rejection \<Rightarrow> string list \<Rightarrow> string" where
  "public_post_logout_rejection e lst =
    (case e of
       LogoutMalformed uri _ \<Rightarrow> ''post_logout_redirect_uris: entry at index '' @ dec (position_of uri lst) @ '' is malformed''
     | LogoutDuplicate uri \<Rightarrow> ''post_logout_redirect_uris: entry at index '' @ dec (position_of uri lst) @ '' is a duplicate''
     | LogoutTooMany \<Rightarrow> ''post_logout_redirect_uris: at most '' @ dec MAX_POST_LOGOUT_REDIRECT_URIS @ '' entries'')"

definition public_application_uri_rejection :: "invalid_application_uri \<Rightarrow> string" where
  "public_application_uri_rejection e = iu_field e @ '': '' @ iu_reason e"

definition public_auth_method_rejection :: string where
  "public_auth_method_rejection =
    ''token_endpoint_auth_method: must be none, client_secret_basic, or client_secret_post''"

definition public_grant_types_rejection :: "grant_types_rejection \<Rightarrow> string" where
  "public_grant_types_rejection e =
    (case e of
       GrantDuplicate _ \<Rightarrow> ''grant_types: duplicate entry''
     | OtherGrant _ \<Rightarrow> ''grant_types: unsupported grant type''
     | GrantsEmpty \<Rightarrow> ''grant_types: must not be an empty list''
     | RefreshWithoutCode \<Rightarrow> ''grant_types: refresh_token requires authorization_code in the same list'')"

definition public_response_types_rejection :: "response_types_rejection \<Rightarrow> string" where
  "public_response_types_rejection e =
    (case e of
       ResponseDuplicate _ \<Rightarrow> ''response_types: duplicate entry''
     | NotCodeOnly _ \<Rightarrow> ''response_types: unsupported response type''
     | ResponsesEmpty \<Rightarrow> ''response_types: must not be an empty list'')"

section \<open>The handler\<close>

record registration_request =
  rq_redirect_uris :: "string list"
  rq_client_name :: "string option"
  rq_scope :: "string option"
  rq_grant_types :: "string list option"
  rq_response_types :: "string list option"
  rq_token_endpoint_auth_method :: "string option"
  rq_logo_uri :: "string option"
  rq_client_uri :: "string option"
  rq_policy_uri :: "string option"
  rq_tos_uri :: "string option"
  rq_post_logout_redirect_uris :: "string list option"

record registration_response =
  rr_client_id :: string
  rr_client_id_issued_at :: int
  rr_client_secret :: "string option"
  rr_client_secret_expires_at :: "int option"
  rr_client_name :: string
  rr_redirect_uris :: "string list"
  rr_grant_types :: "string list"
  rr_response_types :: "string list"
  rr_token_endpoint_auth_method :: string
  rr_scope :: string
  rr_logo_uri :: "string option"
  rr_client_uri :: "string option"
  rr_policy_uri :: "string option"
  rr_tos_uri :: "string option"

text \<open>An error answer: status, error code, description, and the \<open>WWW-Authenticate\<close> header of a 401.\<close>

datatype registration_answer =
    RegError nat string string "string option"
  | Created registration_response

definition reg_error :: "nat \<Rightarrow> string \<Rightarrow> string \<Rightarrow> registration_answer" where
  "reg_error status error description = RegError status error description None"

definition invalid_token_response :: registration_answer where
  "invalid_token_response =
    RegError 401 ''invalid_token'' ''the registration token is missing, malformed, or not valid''
      (Some (''Bearer realm='' @ [CHR 0x22] @ ''sui-id'' @ [CHR 0x22]))"

record registration_env =
  rv_digest :: digest_env
  rv_web :: web_env
  rv_password :: password_env
  rv_stream :: "string \<Rightarrow> envelope_source"
  rv_request :: "(string \<times> json) list \<Rightarrow> string + registration_request"

record registration_draws =
  gd_secret :: string
  gd_salt :: string
  gd_now :: instant
  gd_client_id :: uuid
  gd_at :: instant

text \<open>\<open>Vec::sort\<close> on strings: by bytes.\<close>

fun insert_string :: "string \<Rightarrow> string list \<Rightarrow> string list" where
  "insert_string x [] = [x]"
| "insert_string x (y # ys) = (if bytes_less y x then y # insert_string x ys else x # y # ys)"

definition sort_strings :: "string list \<Rightarrow> string list" where
  "sort_strings xs = foldr insert_string xs []"

text \<open>The request with every rule applied; lists are sorted.  The list of redirects is not empty when its profile is derived.\<close>

record registration_fields =
  rf_auth_method :: string
  rf_redirect_uris :: "string list"
  rf_post_logout :: "string list"
  rf_client_name :: string
  rf_grant_types :: "string list"
  rf_response_types :: "string list"
  rf_scope :: "string list"
  rf_logo_uri :: "string option"
  rf_homepage_uri :: "string option"
  rf_privacy_policy_uri :: "string option"
  rf_tos_uri :: "string option"

definition bad_metadata :: "string \<Rightarrow> registration_answer" where
  "bad_metadata description = reg_error 400 ''invalid_client_metadata'' description"

definition application_uris ::
  "web_env \<Rightarrow> registration_request \<Rightarrow> registration_answer + string option \<times> string option \<times> string option \<times> string option" where
  "application_uris we body =
    (case validate_application_uri we (rq_logo_uri body) ''logo_uri'' of
       Inl e \<Rightarrow> Inl (bad_metadata (public_application_uri_rejection e))
     | Inr logo_uri \<Rightarrow>
    (case validate_application_uri we (rq_client_uri body) ''client_uri'' of
       Inl e \<Rightarrow> Inl (bad_metadata (public_application_uri_rejection e))
     | Inr homepage_uri \<Rightarrow>
    (case validate_application_uri we (rq_policy_uri body) ''policy_uri'' of
       Inl e \<Rightarrow> Inl (bad_metadata (public_application_uri_rejection e))
     | Inr privacy_policy_uri \<Rightarrow>
    (case validate_application_uri we (rq_tos_uri body) ''tos_uri'' of
       Inl e \<Rightarrow> Inl (bad_metadata (public_application_uri_rejection e))
     | Inr tos_uri \<Rightarrow> Inr (logo_uri, homepage_uri, privacy_policy_uri, tos_uri)))))"

definition validate_fields :: "web_env \<Rightarrow> string list \<Rightarrow> registration_request \<Rightarrow> registration_answer + registration_fields" where
  "validate_fields we catalog body =
    (if rq_redirect_uris body = [] then Inl (reg_error 400 ''invalid_redirect_uri'' ''redirect_uris must contain at least one URI'')
     else
    (case validate_auth_method (rq_token_endpoint_auth_method body) of
       Inl e \<Rightarrow> Inl (bad_metadata public_auth_method_rejection)
     | Inr auth_method \<Rightarrow>
    (case derive_closed_profile we auth_method (rq_redirect_uris body) of
       Some (Inl e) \<Rightarrow> Inl (reg_error 400 ''invalid_redirect_uri'' (public_redirect_rejection e (rq_redirect_uris body)))
     | _ \<Rightarrow>
    (case validate_post_logout_redirect_uris we (rq_post_logout_redirect_uris body) of
       Inl e \<Rightarrow> Inl (bad_metadata (public_post_logout_rejection e
         (case rq_post_logout_redirect_uris body of None \<Rightarrow> [] | Some l \<Rightarrow> l)))
     | Inr post_logout \<Rightarrow>
    (case validate_client_name (rq_client_name body) of
       Inl e \<Rightarrow> Inl (bad_metadata (client_name_text e))
     | Inr client_name \<Rightarrow>
    (case validate_grant_types (rq_grant_types body) of
       Inl e \<Rightarrow> Inl (bad_metadata (public_grant_types_rejection e))
     | Inr grant_types \<Rightarrow>
    (case validate_response_types (rq_response_types body) of
       Inl e \<Rightarrow> Inl (bad_metadata (public_response_types_rejection e))
     | Inr response_types \<Rightarrow>
    (case validate_scope (rq_scope body) catalog of
       Inl e \<Rightarrow> Inl (bad_metadata (scope_text e))
     | Inr scope_tokens \<Rightarrow>
    (case check_grant_scope_coupling (sort_strings grant_types) scope_tokens of
       Some e \<Rightarrow> Inl (bad_metadata (coupling_text e))
     | None \<Rightarrow>
    (case application_uris we body of
       Inl a \<Rightarrow> Inl a
     | Inr (logo_uri, homepage_uri, privacy_policy_uri, tos_uri) \<Rightarrow>
        Inr \<lparr> rf_auth_method = auth_method, rf_redirect_uris = sort_strings (rq_redirect_uris body), rf_post_logout = post_logout,
          rf_client_name = client_name, rf_grant_types = sort_strings grant_types,
          rf_response_types = sort_strings response_types, rf_scope = sort_strings scope_tokens, rf_logo_uri = logo_uri,
          rf_homepage_uri = homepage_uri, rf_privacy_policy_uri = privacy_policy_uri, rf_tos_uri = tos_uri \<rparr>))))))))))"

definition dynamic_client_row :: "registration_draws \<Rightarrow> registration_fields \<Rightarrow> string option \<Rightarrow> client_row" where
  "dynamic_client_row gd rf secret_hash =
    \<lparr> c_id = gd_client_id gd, c_name = rf_client_name rf, c_confidential = (rf_auth_method rf \<noteq> ''none''),
      c_secret_hash = secret_hash, c_redirect_uris = rf_redirect_uris rf, c_allowed_scopes = join '' '' (rf_scope rf),
      c_post_logout_redirect_uris = rf_post_logout rf, c_is_disabled = True, c_is_deleted = False,
      c_consent_policy = FirstTime, c_registered_via = RegDynamic, c_logo_uri = rf_logo_uri rf,
      c_homepage_uri = rf_homepage_uri rf, c_privacy_policy_uri = rf_privacy_policy_uri rf, c_tos_uri = rf_tos_uri rf,
      c_token_endpoint_auth_method = Some (auth_method_of_str (rf_auth_method rf)),
      c_grant_types = Some (rf_grant_types rf), c_response_types = Some (rf_response_types rf),
      c_created_at = gd_now gd, c_updated_at = gd_now gd \<rparr>"

definition registration_response_of :: "registration_draws \<Rightarrow> registration_fields \<Rightarrow> string option \<Rightarrow> registration_response" where
  "registration_response_of gd rf secret_plain =
    \<lparr> rr_client_id = gd_client_id gd, rr_client_id_issued_at = timestamp (gd_now gd), rr_client_secret = secret_plain,
      rr_client_secret_expires_at = (if rf_auth_method rf \<noteq> ''none'' then Some 0 else None),
      rr_client_name = rf_client_name rf, rr_redirect_uris = rf_redirect_uris rf, rr_grant_types = rf_grant_types rf,
      rr_response_types = rf_response_types rf, rr_token_endpoint_auth_method = rf_auth_method rf,
      rr_scope = join '' '' (rf_scope rf), rr_logo_uri = rf_logo_uri rf, rr_client_uri = rf_homepage_uri rf,
      rr_policy_uri = rf_privacy_policy_uri rf, rr_tos_uri = rf_tos_uri rf \<rparr>"

definition dynamic_register ::
  "registration_env \<Rightarrow> registration_draws \<Rightarrow> string list \<Rightarrow> string option list \<Rightarrow> string \<Rightarrow> store
    \<Rightarrow> (core_error + registration_answer) \<times> store" where
  "dynamic_register re gd catalog headers body_bytes s =
    (case extract_registration_bearer_token headers of
       None \<Rightarrow> (Inr invalid_token_response, s)
     | Some tok \<Rightarrow>
    (case parse_envelope (rv_stream re) body_bytes of
       Inl UnapprovedSoftwareStatement \<Rightarrow>
        (Inr (reg_error 400 ''unapproved_software_statement'' ''software_statement is not approved by this deployment''), s)
     | Inl e \<Rightarrow> (Inr (bad_metadata (envelope_text e)), s)
     | Inr envelope \<Rightarrow>
    (case rv_request re envelope of
       Inl e \<Rightarrow> (Inr (bad_metadata (''invalid client metadata: '' @ e)), s)
     | Inr body \<Rightarrow>
    (case validate_fields (rv_web re) catalog body of
       Inl a \<Rightarrow> (Inr a, s)
     | Inr rf \<Rightarrow>
        let confidential = (rf_auth_method rf \<noteq> ''none'');
            secret_plain = (if confidential then Some (gd_secret gd) else None) in
    (case (if confidential then map_sum id Some (hash_password (rv_password re) (gd_salt gd) (gd_secret gd)) else Inr None) of
       Inl e \<Rightarrow> (Inl e, s)
     | Inr secret_hash \<Rightarrow>
    (case register_client_dynamically (rv_digest re) (gd_at gd) (sha256_hex (rv_digest re) tok)
        (dynamic_client_row gd rf secret_hash) (gd_now gd) s of
       (Inr _, s') \<Rightarrow> (Inr (Created (registration_response_of gd rf secret_plain)), s')
     | (Inl StoreNotFound, s') \<Rightarrow> (Inr invalid_token_response, s')
     | (Inl e, s') \<Rightarrow> (Inl (Store e), s')))))))"

section \<open>What the rules let through\<close>

lemma set_sort_strings [simp]: "set (sort_strings xs) = set xs"
proof -
  have "set (insert_string x ys) = insert x (set ys)" for x ys
    by (induction ys) auto
  then show ?thesis
    unfolding sort_strings_def by (induction xs) simp_all
qed

lemma first_repeat_None: "first_repeat seen xs = None \<longleftrightarrow> distinct xs \<and> set xs \<inter> set seen = {}"
  by (induction seen xs rule: first_repeat.induct) auto

text \<open>An https target, or an http target on a numeric loopback address with a port of its own.\<close>

definition uri_floor :: "web_env \<Rightarrow> string \<Rightarrow> url \<Rightarrow> bool" where
  "uri_floor we uri u =
    (url_parse we uri = Some u \<and> length uri \<le> 2048 \<and> list_all (\<lambda>c. byte c < 128) uri \<and> CHR ''*'' \<notin> set uri
      \<and> CHR 0x5C \<notin> set uri \<and> url_fragment u = None \<and> url_username u = [] \<and> url_password u = None)"

definition https_target :: "web_env \<Rightarrow> string \<Rightarrow> bool" where
  "https_target we uri = (\<exists>u. uri_floor we uri u \<and> url_scheme u = ''https'')"

definition loopback_target :: "web_env \<Rightarrow> string \<Rightarrow> bool" where
  "loopback_target we uri =
    (\<exists>u h p. uri_floor we uri u \<and> url_scheme u = ''http'' \<and> url_host u = Some h \<and> host_is_loopback h
      \<and> url_port u = Some p \<and> p \<noteq> 0)"

lemma well_formed_uri_Inr: "well_formed_uri we uri 2048 = Inr u \<Longrightarrow> uri_floor we uri u"
  by (auto simp: well_formed_uri_def uri_floor_def not_less split: if_splits option.splits)

lemma well_formed_shape_Inr:
  "well_formed_shape we uri = Inr Https \<Longrightarrow> https_target we uri"
  "well_formed_shape we uri = Inr NumericLoopbackHttp \<Longrightarrow> loopback_target we uri"
  by (auto simp: well_formed_shape_def https_target_def loopback_target_def MAX_REDIRECT_URI_BYTES_def
      dest!: well_formed_uri_Inr split: sum.splits if_splits option.splits)

lemma same_shapes_None: "same_shapes we first us = None \<longleftrightarrow> (\<forall>u \<in> set us. well_formed_shape we u = Inr first)"
  by (induction us) (auto split: sum.splits)

lemma derive_closed_profile_Inr:
  assumes "derive_closed_profile we auth_method uris = Some (Inr profile)"
  shows "distinct uris \<and> length uris \<le> 16
    \<and> (list_all (https_target we) uris \<or> auth_method = ''none'' \<and> list_all (loopback_target we) uris)"
proof -
  obtain u us first where u: "uris = u # us" and d: "length uris \<le> 16" "first_repeat [] uris = None"
    and sh: "well_formed_shape we u = Inr first" "same_shapes we first us = None"
    and pub: "first = NumericLoopbackHttp \<Longrightarrow> auth_method = ''none''"
    using assms by (auto simp: derive_closed_profile_def Let_def MAX_REDIRECT_URIS_def not_less
        split: if_splits option.splits list.splits sum.splits shape.splits)
  have "well_formed_shape we x = Inr first" if "x \<in> set uris" for x
    using that sh u by (auto simp: same_shapes_None)
  then show ?thesis
    using d pub well_formed_shape_Inr by (cases first) (auto simp: first_repeat_None list_all_iff)
qed

lemma derive_closed_profile_None: "derive_closed_profile we m uris = None \<Longrightarrow> uris = []"
  by (auto simp: derive_closed_profile_def Let_def split: if_splits option.splits list.splits sum.splits)

lemma check_post_logout_None:
  "check_post_logout we seen uris = None \<Longrightarrow> list_all (https_target we) uris"
  by (induction we seen uris rule: check_post_logout.induct)
    (auto simp: https_target_def MAX_APPLICATION_URI_BYTES_def MAX_REDIRECT_URI_BYTES_def dest: well_formed_uri_Inr
      split: if_splits sum.splits)

lemma validate_post_logout_Inr:
  "validate_post_logout_redirect_uris we raw = Inr uris \<Longrightarrow> list_all (https_target we) uris"
  by (auto simp: validate_post_logout_redirect_uris_def dest: check_post_logout_None split: option.splits if_splits)

lemma validate_client_name_Inr:
  "validate_client_name raw = Inr n \<Longrightarrow> n \<noteq> [] \<and> length n \<le> 512 \<and> \<not> list_ex is_forbidden_name_character (utf8_chars n)"
  by (auto simp: validate_client_name_def Let_def MAX_CLIENT_NAME_BYTES_def not_less split: if_splits)

lemma check_grants_None: "check_grants seen gs = None \<Longrightarrow> set gs \<subseteq> {''authorization_code'', ''refresh_token''}"
  by (induction seen gs rule: check_grants.induct) (auto split: if_splits)

lemma validate_grant_types_Inr:
  "validate_grant_types raw = Inr gs \<Longrightarrow> ''authorization_code'' \<in> set gs \<and> set gs \<subseteq> {''authorization_code'', ''refresh_token''}"
  by (auto simp: validate_grant_types_def dest!: check_grants_None split: option.splits if_splits)

lemma validate_response_types_Inr:
  assumes "validate_response_types raw = Inr ts"
  shows "set ts = {''code''}"
proof (cases raw)
  case None
  then show ?thesis
    using assms by (auto simp: validate_response_types_def)
next
  case (Some types)
  then have "card (set ts) = 1" "''code'' \<in> set ts"
    using assms by (simp_all add: validate_response_types_def split: option.splits if_splits)
  then show ?thesis
    by (elim card_1_singletonE) simp
qed

lemma unknown_scope_None: "unknown_scope catalog i ts = None \<longleftrightarrow> set ts \<subseteq> set catalog"
  by (induction catalog i ts rule: unknown_scope.induct) auto

lemma validate_scope_Inr: "validate_scope raw catalog = Inr ts \<Longrightarrow> ''openid'' \<in> set ts \<and> set ts \<subseteq> set catalog"
  by (auto simp: validate_scope_def Let_def unknown_scope_None split: if_splits option.splits)

lemma validate_application_uri_Inr: "validate_application_uri we raw field = Inr (Some uri) \<Longrightarrow> https_target we uri"
  by (auto simp: validate_application_uri_def Let_def https_target_def MAX_APPLICATION_URI_BYTES_def MAX_REDIRECT_URI_BYTES_def
      dest: well_formed_uri_Inr split: option.splits if_splits sum.splits)

lemma validate_auth_method_Inr:
  "validate_auth_method raw = Inr m \<Longrightarrow> m \<in> {''none'', ''client_secret_basic'', ''client_secret_post''}"
  by (auto simp: validate_auth_method_def split: option.splits if_splits)

lemma coupling_None: "check_grant_scope_coupling gs ts = None \<longleftrightarrow> (''refresh_token'' \<in> set gs \<longleftrightarrow> ''offline_access'' \<in> set ts)"
  by (auto simp: check_grant_scope_coupling_def Let_def list_ex_iff)

definition fields_ok :: "web_env \<Rightarrow> string list \<Rightarrow> registration_fields \<Rightarrow> bool" where
  "fields_ok we catalog rf =
    (rf_auth_method rf \<in> {''none'', ''client_secret_basic'', ''client_secret_post''}
      \<and> rf_redirect_uris rf \<noteq> []
      \<and> (list_all (https_target we) (rf_redirect_uris rf)
        \<or> rf_auth_method rf = ''none'' \<and> list_all (loopback_target we) (rf_redirect_uris rf))
      \<and> list_all (https_target we) (rf_post_logout rf)
      \<and> rf_client_name rf \<noteq> [] \<and> length (rf_client_name rf) \<le> 512
      \<and> \<not> list_ex is_forbidden_name_character (utf8_chars (rf_client_name rf))
      \<and> ''authorization_code'' \<in> set (rf_grant_types rf) \<and> set (rf_grant_types rf) \<subseteq> {''authorization_code'', ''refresh_token''}
      \<and> set (rf_response_types rf) = {''code''}
      \<and> ''openid'' \<in> set (rf_scope rf) \<and> set (rf_scope rf) \<subseteq> set catalog
      \<and> (''refresh_token'' \<in> set (rf_grant_types rf) \<longleftrightarrow> ''offline_access'' \<in> set (rf_scope rf))
      \<and> pred_option (https_target we) (rf_logo_uri rf) \<and> pred_option (https_target we) (rf_homepage_uri rf)
      \<and> pred_option (https_target we) (rf_privacy_policy_uri rf) \<and> pred_option (https_target we) (rf_tos_uri rf))"

lemma application_uris_Inr:
  assumes "application_uris we body = Inr (a, b, c, d)"
  shows "pred_option (https_target we) a" "pred_option (https_target we) b" "pred_option (https_target we) c"
    "pred_option (https_target we) d"
proof -
  have pred: "pred_option (https_target we) v" if "validate_application_uri we raw field = Inr v" for raw field v
    using that validate_application_uri_Inr by (cases v) auto
  have "validate_application_uri we (rq_logo_uri body) ''logo_uri'' = Inr a"
    "validate_application_uri we (rq_client_uri body) ''client_uri'' = Inr b"
    "validate_application_uri we (rq_policy_uri body) ''policy_uri'' = Inr c"
    "validate_application_uri we (rq_tos_uri body) ''tos_uri'' = Inr d"
    using assms by (auto simp: application_uris_def split: sum.splits)
  then show "pred_option (https_target we) a" "pred_option (https_target we) b" "pred_option (https_target we) c"
    "pred_option (https_target we) d"
    using pred by blast+
qed

lemma validate_fields_Inr:
  assumes "validate_fields we catalog body = Inr rf"
  shows "fields_ok we catalog rf"
proof -
  have ne: "rq_redirect_uris body \<noteq> []"
    using assms by (auto simp: validate_fields_def)
  obtain m where m: "validate_auth_method (rq_token_endpoint_auth_method body) = Inr m" and "rf_auth_method rf = m"
    and "\<forall>e. derive_closed_profile we m (rq_redirect_uris body) \<noteq> Some (Inl e)"
    and uris: "rf_redirect_uris rf = sort_strings (rq_redirect_uris body)"
    using assms by (auto simp: validate_fields_def split: if_splits sum.splits option.splits prod.splits)
  then obtain p where p: "derive_closed_profile we m (rq_redirect_uris body) = Some (Inr p)"
    using ne derive_closed_profile_None by (metis not_None_eq sum.exhaust)
  obtain pl n gs rs ts where
    f: "validate_post_logout_redirect_uris we (rq_post_logout_redirect_uris body) = Inr pl"
      "validate_client_name (rq_client_name body) = Inr n" "validate_grant_types (rq_grant_types body) = Inr gs"
      "validate_response_types (rq_response_types body) = Inr rs" "validate_scope (rq_scope body) catalog = Inr ts"
      "check_grant_scope_coupling (sort_strings gs) ts = None"
    and u: "application_uris we body = Inr (rf_logo_uri rf, rf_homepage_uri rf, rf_privacy_policy_uri rf, rf_tos_uri rf)"
    and rf: "rf_post_logout rf = pl" "rf_client_name rf = n" "rf_grant_types rf = sort_strings gs"
      "rf_response_types rf = sort_strings rs" "rf_scope rf = sort_strings ts"
    using assms by (auto simp: validate_fields_def split: if_splits sum.splits option.splits prod.splits)
  have "set (rf_redirect_uris rf) = set (rq_redirect_uris body)"
    using uris by simp
  then have "rf_redirect_uris rf \<noteq> []" and targets: "list_all (https_target we) (rf_redirect_uris rf)
      \<or> rf_auth_method rf = ''none'' \<and> list_all (loopback_target we) (rf_redirect_uris rf)"
    using ne derive_closed_profile_Inr [OF p] \<open>rf_auth_method rf = m\<close> by (auto simp: list_all_iff)
  then show ?thesis
    unfolding fields_ok_def
    using validate_auth_method_Inr [OF m] \<open>rf_auth_method rf = m\<close> validate_post_logout_Inr [OF f(1)] validate_client_name_Inr [OF f(2)]
      validate_grant_types_Inr [OF f(3)] validate_response_types_Inr [OF f(4)] validate_scope_Inr [OF f(5)]
      f(6) [unfolded coupling_None] application_uris_Inr [OF u] rf by simp
qed

lemma validate_fields_refuses: "validate_fields we catalog body = Inl a \<Longrightarrow> a \<noteq> Created resp"
proof -
  have "application_uris we body \<noteq> Inl (Created resp)" for resp
    by (auto simp: application_uris_def bad_metadata_def reg_error_def split: sum.splits)
  then show "validate_fields we catalog body = Inl a \<Longrightarrow> a \<noteq> Created resp"
    by (auto simp: validate_fields_def bad_metadata_def reg_error_def split: if_splits sum.splits option.splits prod.splits)
qed

section \<open>The command behind the handler\<close>

lemma update_fresh_client:
  assumes "c_id c \<notin> c_id ` set cs"
  shows "update_where (by_client_id (c_id c)) f (cs @ [c]) = cs @ [f c]"
  using assms by (auto simp: update_where_def by_client_id_def image_iff intro!: map_idI)

lemma checked_C15:
  assumes "length name \<le> 512"
  shows "checked_attributes (C15_event cid name) = Inr [(''client_name'', name)]"
  using assms unfolding C15_event_def by (auto intro!: checked_ok_event simp: attribute_bounds)

definition spent_token :: "instant \<Rightarrow> registration_token_row \<Rightarrow> registration_token_row" where
  "spent_token now r = r\<lparr> rg_used_count := rg_used_count r + 1, rg_updated_at := now \<rparr>"

lemma c15_body:
  assumes "c_registered_via row = RegDynamic" "c_updated_at row = now"
  shows "register_client_dynamically_body h row now s = Inr (x, s') \<longleftrightarrow>
    (\<exists>t. List.find (\<lambda>r. rg_token_hash r = h) (registration_tokens s) = Some t \<and> registration_usable now t
      \<and> c_id row \<notin> c_id ` set (clients s) \<and> x = ((), C15_event (c_id row) (c_name row))
      \<and> s' = s\<lparr>registration_tokens := update_where (\<lambda>r. rg_id r = rg_id t) (spent_token now) (registration_tokens s),
          clients := clients s @ [row]\<rparr>)"
proof -
  have "row\<lparr>c_registered_via := RegDynamic, c_updated_at := now\<rparr> = row"
    using assms by simp
  then have upd: "update_where (by_client_id (c_id row)) (\<lambda>c. c\<lparr>c_registered_via := RegDynamic, c_updated_at := now\<rparr>)
      (clients s @ [row\<lparr>c_registered_via := RegAdmin\<rparr>]) = clients s @ [row]" if "c_id row \<notin> c_id ` set (clients s)"
    using update_fresh_client [of "row\<lparr>c_registered_via := RegAdmin\<rparr>" "clients s"] that by simp
  have aff: "affected (by_client_id (c_id row)) (clients s @ [row\<lparr>c_registered_via := RegAdmin\<rparr>]) \<noteq> 0"
    by (simp add: affected_def by_client_id_def)
  have fresh: "list_ex (by_client_id (c_id row)) (clients s) \<longleftrightarrow> c_id row \<in> c_id ` set (clients s)"
    unfolding list_ex_iff by_client_id_def image_iff by metis
  show ?thesis
    by (cases "List.find (\<lambda>r. rg_token_hash r = h) (registration_tokens s)")
      (auto simp: register_client_dynamically_body_def registration_consume_within_tx_def client_create_within_tx_def
        set_registered_via_within_tx_def update_existing_client_def tx_bind_def tx_guard_def assms(1) upd aff fresh spent_token_def [abs_def])
qed

lemma c15_commits:
  assumes "c_registered_via row = RegDynamic" "c_updated_at row = now" "length (c_name row) \<le> 512"
  shows "(\<exists>s'. register_client_dynamically cx at h row now s = (Inr (), s')) \<longleftrightarrow>
    (\<exists>t. List.find (\<lambda>r. rg_token_hash r = h) (registration_tokens s) = Some t \<and> registration_usable now t
      \<and> c_id row \<notin> c_id ` set (clients s))"
proof
  assume "\<exists>s'. register_client_dynamically cx at h row now s = (Inr (), s')"
  then obtain s' where "register_client_dynamically cx at h row now s = (Inr (), s')"
    by blast
  then obtain ev t where "register_client_dynamically_body h row now s = Inr (((), ev), t)"
    unfolding register_client_dynamically_def by (rule c15.class_a_success)
  then show "\<exists>t. List.find (\<lambda>r. rg_token_hash r = h) (registration_tokens s) = Some t \<and> registration_usable now t
      \<and> c_id row \<notin> c_id ` set (clients s)"
    unfolding c15_body [OF assms(1,2)] by blast
next
  assume "\<exists>t. List.find (\<lambda>r. rg_token_hash r = h) (registration_tokens s) = Some t \<and> registration_usable now t
      \<and> c_id row \<notin> c_id ` set (clients s)"
  then obtain s1 where "register_client_dynamically_body h row now s = Inr (((), C15_event (c_id row) (c_name row)), s1)"
    using c15_body [OF assms(1,2)] by blast
  from c15.class_a_commit [OF this checked_C15 [OF assms(3)]]
  show "\<exists>s'. register_client_dynamically cx at h row now s = (Inr (), s')"
    by (simp add: register_client_dynamically_def)
qed

lemma c15_effect:
  assumes "register_client_dynamically cx at h row now s = (Inr u, s')" "c_registered_via row = RegDynamic" "c_updated_at row = now"
  obtains t where "t \<in> set (registration_tokens s)" "rg_token_hash t = h" "registration_usable now t"
    "clients s' = clients s @ [row]"
    "registration_tokens s' = update_where (\<lambda>r. rg_id r = rg_id t) (spent_token now) (registration_tokens s)"
proof -
  obtain ev t where body: "register_client_dynamically_body h row now s = Inr ((u, ev), t)"
    and s': "clients s' = clients t" "registration_tokens s' = registration_tokens t"
    using assms(1) unfolding register_client_dynamically_def by (rule c15.class_a_success) auto
  show thesis
    using body s' that unfolding c15_body [OF assms(2,3)] by (auto dest!: find_Some_in)
qed

lemma dynamic_client_row_simps [simp]:
  "c_registered_via (dynamic_client_row gd rf h) = RegDynamic" "c_updated_at (dynamic_client_row gd rf h) = gd_now gd"
  "c_id (dynamic_client_row gd rf h) = gd_client_id gd" "c_name (dynamic_client_row gd rf h) = rf_client_name rf"
  "c_is_disabled (dynamic_client_row gd rf h)" "c_consent_policy (dynamic_client_row gd rf h) = FirstTime"
  by (simp_all add: dynamic_client_row_def)

text \<open>How a request gets as far as the command.\<close>

definition admissible ::
  "registration_env \<Rightarrow> registration_draws \<Rightarrow> string list \<Rightarrow> string option list \<Rightarrow> string \<Rightarrow> string \<Rightarrow> registration_fields \<Rightarrow> string option \<Rightarrow> bool" where
  "admissible re gd catalog headers body_bytes tok rf secret_hash =
    (extract_registration_bearer_token headers = Some tok
      \<and> (\<exists>envelope body. parse_envelope (rv_stream re) body_bytes = Inr envelope \<and> rv_request re envelope = Inr body
          \<and> validate_fields (rv_web re) catalog body = Inr rf)
      \<and> (if rf_auth_method rf = ''none'' then secret_hash = None
         else secret_hash \<noteq> None \<and> argon2_hash (rv_password re) (gd_salt gd) (gd_secret gd) = secret_hash))"

definition after_registration ::
  "registration_env \<Rightarrow> registration_draws \<Rightarrow> string \<Rightarrow> registration_fields \<Rightarrow> string option \<Rightarrow> store \<Rightarrow> (core_error + registration_answer) \<times> store" where
  "after_registration re gd tok rf secret_hash s =
    (case register_client_dynamically (rv_digest re) (gd_at gd) (sha256_hex (rv_digest re) tok)
        (dynamic_client_row gd rf secret_hash) (gd_now gd) s of
       (Inr _, s') \<Rightarrow> (Inr (Created (registration_response_of gd rf
         (if rf_auth_method rf \<noteq> ''none'' then Some (gd_secret gd) else None))), s')
     | (Inl StoreNotFound, s') \<Rightarrow> (Inr invalid_token_response, s')
     | (Inl e, s') \<Rightarrow> (Inl (Store e), s'))"

lemma dynamic_register_admissible:
  assumes "admissible re gd catalog headers body_bytes tok rf h"
  shows "dynamic_register re gd catalog headers body_bytes s = after_registration re gd tok rf h s"
  using assms unfolding admissible_def
  by (auto simp: dynamic_register_def after_registration_def hash_password_def Let_def split: if_splits option.splits)

lemma dynamic_register_refused:
  assumes "\<And>tok rf h. \<not> admissible re gd catalog headers body_bytes tok rf h"
  obtains r where "dynamic_register re gd catalog headers body_bytes s = (r, s)" "\<And>resp. r \<noteq> Inr (Created resp)"
proof (cases "extract_registration_bearer_token headers")
  case None
  then show thesis
    by (intro that) (auto simp: dynamic_register_def invalid_token_response_def)
next
  case tok: (Some tok)
  show thesis
  proof (cases "parse_envelope (rv_stream re) body_bytes")
    case (Inl e)
    then show thesis
      using tok by (cases e; intro that) (auto simp: dynamic_register_def reg_error_def bad_metadata_def)
  next
    case env: (Inr envelope)
    show thesis
    proof (cases "rv_request re envelope")
      case (Inl e)
      then show thesis
        using tok env by (intro that) (auto simp: dynamic_register_def reg_error_def bad_metadata_def)
    next
      case body: (Inr body)
      show thesis
      proof (cases "validate_fields (rv_web re) catalog body")
        case (Inl a)
        then show thesis
          using tok env body validate_fields_refuses [OF Inl] by (intro that) (auto simp: dynamic_register_def)
      next
        case (Inr rf)
        then have "rf_auth_method rf \<noteq> ''none''" "argon2_hash (rv_password re) (gd_salt gd) (gd_secret gd) = None"
          using assms [of tok rf None] assms [of tok rf "argon2_hash (rv_password re) (gd_salt gd) (gd_secret gd)"] tok env body
          by (auto simp: admissible_def split: if_splits)
        then show thesis
          using tok env body Inr by (intro that) (auto simp: dynamic_register_def hash_password_def Let_def)
      qed
    qed
  qed
qed

lemma after_registration_refused:
  assumes "after_registration re gd tok rf h s = (r, s')" "\<And>resp. r \<noteq> Inr (Created resp)"
  shows "s' = s"
proof -
  obtain r1 s1 where run: "register_client_dynamically (rv_digest re) (gd_at gd) (sha256_hex (rv_digest re) tok)
        (dynamic_client_row gd rf h) (gd_now gd) s = (r1, s1)"
    by fastforce
  then obtain e where "r1 = Inl e"
    using assms by (cases r1) (auto simp: after_registration_def)
  then have "s1 = s"
    using run by (simp add: register_client_dynamically_def class_a_def results)
  then show ?thesis
    using assms(1) run \<open>r1 = Inl e\<close> by (cases e) (auto simp: after_registration_def)
qed

lemma created_iff:
  "(\<exists>resp s'. dynamic_register re gd catalog headers body_bytes s = (Inr (Created resp), s')) \<longleftrightarrow>
    (\<exists>tok rf h t. admissible re gd catalog headers body_bytes tok rf h
      \<and> List.find (\<lambda>r. rg_token_hash r = sha256_hex (rv_digest re) tok) (registration_tokens s) = Some t
      \<and> registration_usable (gd_now gd) t \<and> gd_client_id gd \<notin> c_id ` set (clients s))"
proof (cases "\<exists>tok rf h. admissible re gd catalog headers body_bytes tok rf h")
  case True
  then obtain tok rf h where adm: "admissible re gd catalog headers body_bytes tok rf h"
    by blast
  have uniq: "tok' = tok" "rf' = rf" "h' = h" if "admissible re gd catalog headers body_bytes tok' rf' h'" for tok' rf' h'
    using adm that by (auto simp: admissible_def split: if_splits)
  have "length (rf_client_name rf) \<le> 512"
    using adm validate_fields_Inr by (auto simp: admissible_def fields_ok_def)
  then have commits: "(\<exists>s'. register_client_dynamically (rv_digest re) (gd_at gd) (sha256_hex (rv_digest re) tok)
        (dynamic_client_row gd rf h) (gd_now gd) s = (Inr (), s')) \<longleftrightarrow>
      (\<exists>t. List.find (\<lambda>r. rg_token_hash r = sha256_hex (rv_digest re) tok) (registration_tokens s) = Some t
        \<and> registration_usable (gd_now gd) t \<and> gd_client_id gd \<notin> c_id ` set (clients s))"
    using c15_commits [of "dynamic_client_row gd rf h" "gd_now gd"] by simp
  have "(\<exists>resp s'. dynamic_register re gd catalog headers body_bytes s = (Inr (Created resp), s')) \<longleftrightarrow>
      (\<exists>s'. register_client_dynamically (rv_digest re) (gd_at gd) (sha256_hex (rv_digest re) tok)
        (dynamic_client_row gd rf h) (gd_now gd) s = (Inr (), s'))"
    unfolding dynamic_register_admissible [OF adm]
    by (auto simp: after_registration_def invalid_token_response_def split: sum.splits prod.splits store_error.splits)
  then show ?thesis
    using commits adm uniq by metis
next
  case False
  then show ?thesis
    using dynamic_register_refused [of re gd catalog headers body_bytes s] by (metis prod.inject)
qed

section \<open>Properties\<close>

text \<open>C12: A dynamically registered client is safe until an administrator enables it.  When the endpoint answers with
  a client, one well-formed bearer token was presented and a usable registration token with its digest was in the
  store, whose use is now counted; exactly one client was added, disabled, of third-party consent, with a secret hash
  exactly when it is confidential; its redirects are https targets, or numeric loopback targets of a public client; its
  grants and scopes are within what the server offers and go together.\<close>

theorem registered_client_sound:
  assumes "dynamic_register re gd catalog headers body_bytes s = (Inr (Created resp), s')"
  shows "\<exists>tok t rf h. extract_registration_bearer_token headers = Some tok
    \<and> t \<in> set (registration_tokens s) \<and> rg_token_hash t = sha256_hex (rv_digest re) tok \<and> registration_usable (gd_now gd) t
    \<and> registration_tokens s' = update_where (\<lambda>r. rg_id r = rg_id t) (spent_token (gd_now gd)) (registration_tokens s)
    \<and> clients s' = clients s @ [dynamic_client_row gd rf h]
    \<and> c_is_disabled (dynamic_client_row gd rf h) \<and> c_consent_policy (dynamic_client_row gd rf h) = FirstTime
    \<and> (h \<noteq> None \<longleftrightarrow> rf_auth_method rf \<noteq> ''none'')
    \<and> fields_ok (rv_web re) catalog rf"
proof -
  obtain tok rf h where adm: "admissible re gd catalog headers body_bytes tok rf h"
    using assms dynamic_register_refused [of re gd catalog headers body_bytes s] by fastforce
  have "after_registration re gd tok rf h s = (Inr (Created resp), s')"
    using assms dynamic_register_admissible [OF adm] by simp
  then obtain u where "register_client_dynamically (rv_digest re) (gd_at gd) (sha256_hex (rv_digest re) tok)
        (dynamic_client_row gd rf h) (gd_now gd) s = (Inr u, s')"
    by (auto simp: after_registration_def invalid_token_response_def split: sum.splits prod.splits store_error.splits)
  then obtain t where "t \<in> set (registration_tokens s)" "rg_token_hash t = sha256_hex (rv_digest re) tok"
    "registration_usable (gd_now gd) t" "clients s' = clients s @ [dynamic_client_row gd rf h]"
    "registration_tokens s' = update_where (\<lambda>r. rg_id r = rg_id t) (spent_token (gd_now gd)) (registration_tokens s)"
    by (rule c15_effect) simp_all
  moreover have "fields_ok (rv_web re) catalog rf" "extract_registration_bearer_token headers = Some tok"
    "h \<noteq> None \<longleftrightarrow> rf_auth_method rf \<noteq> ''none''"
    using adm validate_fields_Inr by (auto simp: admissible_def split: if_splits)
  ultimately show ?thesis
    by (metis dynamic_client_row_simps(5,6))
qed

text \<open>A refused registration spends nothing.  Whatever the endpoint answers instead of a client, the store is as
  it was: no use of the registration token is counted and nothing is recorded.\<close>

theorem refused_registration_spends_nothing:
  assumes "dynamic_register re gd catalog headers body_bytes s = (r, s')" "\<And>resp. r \<noteq> Inr (Created resp)"
  shows "s' = s"
proof (cases "\<exists>tok rf h. admissible re gd catalog headers body_bytes tok rf h")
  case True
  then obtain tok rf h where adm: "admissible re gd catalog headers body_bytes tok rf h"
    by blast
  show ?thesis
    using assms(1) unfolding dynamic_register_admissible [OF adm] by (rule after_registration_refused) (rule assms(2))
next
  case False
  then obtain r0 where "dynamic_register re gd catalog headers body_bytes s = (r0, s)"
    using dynamic_register_refused [of re gd catalog headers body_bytes s] by metis
  then show ?thesis
    using assms(1) by simp
qed

text \<open>Registration succeeds exactly when it should.  A client is created if and only if the request passes every
  rule (a secret that is needed can be hashed), the token whose digest matches is usable, and the fresh identifier is
  new; in particular the longest name that passes its rule also fits the audit record of the command.\<close>

theorem registration_succeeds_iff:
  "(\<exists>resp s'. dynamic_register re gd catalog headers body_bytes s = (Inr (Created resp), s')) \<longleftrightarrow>
    (\<exists>tok rf h t. admissible re gd catalog headers body_bytes tok rf h
      \<and> List.find (\<lambda>r. rg_token_hash r = sha256_hex (rv_digest re) tok) (registration_tokens s) = Some t
      \<and> registration_usable (gd_now gd) t \<and> gd_client_id gd \<notin> c_id ` set (clients s))"
  by (rule created_iff)

section \<open>A concrete registration\<close>

definition demo_registration_request :: registration_request where
  "demo_registration_request = \<lparr> rq_redirect_uris = [''https://app/cb''], rq_client_name = Some ''app'', rq_scope = Some ''openid'',
     rq_grant_types = None, rq_response_types = None, rq_token_endpoint_auth_method = Some ''none'', rq_logo_uri = None,
     rq_client_uri = None, rq_policy_uri = None, rq_tos_uri = None, rq_post_logout_redirect_uris = None \<rparr>"

definition demo_web :: web_env where
  "demo_web = \<lparr> url_parse = (\<lambda>s. Some \<lparr> url_scheme = ''https'', url_username = [], url_password = None, url_host = None,
      url_port = None, url_path = s, url_query = None, url_fragment = None \<rparr>), debug_str = (\<lambda>s. s) \<rparr>"

definition demo_registration_env :: registration_env where
  "demo_registration_env = \<lparr> rv_digest = demo_env, rv_web = demo_web, rv_password = demo_password,
     rv_stream = (\<lambda>b. MapAccess \<lparr> es_members = [], es_pending = None, es_error = None, es_position = [] \<rparr>),
     rv_request = (\<lambda>ms. Inr demo_registration_request) \<rparr>"

definition demo_registration_draws :: registration_draws where
  "demo_registration_draws = \<lparr> gd_secret = ''sec'', gd_salt = ''salt'', gd_now = 0, gd_client_id = ''c'', gd_at = 0 \<rparr>"

definition demo_bearer :: string where
  "demo_bearer = replicate 64 CHR ''a''"

lemma demo_fields_valid: "\<exists>rf. validate_fields demo_web [''openid''] demo_registration_request = Inr rf \<and> rf_auth_method rf = ''none''"
proof -
  have "well_formed_uri demo_web ''https://app/cb'' MAX_REDIRECT_URI_BYTES = Inr (the (url_parse demo_web ''https://app/cb''))"
    by (simp add: well_formed_uri_def MAX_REDIRECT_URI_BYTES_def has_explicit_default_port_def strip_prefix_def after_bracket_def
        ends_with_def suffix_def byte_def demo_web_def)
  then have "well_formed_shape demo_web ''https://app/cb'' = Inr Https"
    by (simp add: well_formed_shape_def demo_web_def)
  then have "derive_closed_profile demo_web ''none'' [''https://app/cb''] = Some (Inr PublicHttps)"
    by (simp add: derive_closed_profile_def MAX_REDIRECT_URIS_def)
  moreover have "str_trim ''app'' = ''app''" "utf8_chars ''app'' = [''a'', ''p'', ''p'']"
    by code_simp+
  then have "validate_client_name (Some ''app'') = Inr ''app''"
    by (simp add: validate_client_name_def MAX_CLIENT_NAME_BYTES_def MAX_CLIENT_NAME_SCALARS_def is_forbidden_name_character_def
        code_point_def byte_at_def byte_def Let_def)
  moreover have "split_on CHR '' '' ''openid'' = [''openid'']" "list_all is_scope_token_byte ''openid''"
    by code_simp+
  then have "validate_scope (Some ''openid'') [''openid''] = Inr [''openid'']"
    by (simp add: validate_scope_def MAX_SCOPE_TOTAL_BYTES_def MAX_SCOPE_TOKENS_def MAX_SCOPE_TOKEN_BYTES_def)
  ultimately show ?thesis
    by (simp add: validate_fields_def demo_registration_request_def validate_auth_method_def validate_post_logout_redirect_uris_def
        validate_grant_types_def validate_response_types_def check_grant_scope_coupling_def application_uris_def
        validate_application_uri_def sort_strings_def)
qed

definition demo_registrations :: store where
  "demo_registrations = empty_store\<lparr>registration_tokens := [\<lparr> rg_id = ''r'', rg_token_hash = sha256_hex demo_env demo_bearer,
     rg_max_uses = 1, rg_used_count = 0, rg_expires_at = None, rg_revoked_at = None, rg_note = None, rg_created_at = 0,
     rg_updated_at = 0 \<rparr>]\<rparr>"

lemma demo_bearer_presented: "extract_registration_bearer_token [Some (''Bearer '' @ demo_bearer)] = Some demo_bearer"
  by (simp add: extract_registration_bearer_token_def strip_prefix_def demo_bearer_def is_lower_hex_def byte_def list_all_iff)

lemma demo_admissible:
  "\<exists>rf. admissible demo_registration_env demo_registration_draws [''openid''] [Some (''Bearer '' @ demo_bearer)] ''body'' demo_bearer rf None"
proof -
  have "parse_envelope (rv_stream demo_registration_env) ''body'' = Inr []"
    by (simp add: parse_envelope_def demo_registration_env_def MAX_ENVELOPE_BYTES_def MAX_ENVELOPE_DEPTH_def duplicate_checked_object_def)
  moreover have "rv_request demo_registration_env [] = Inr demo_registration_request" "rv_web demo_registration_env = demo_web"
    by (simp_all add: demo_registration_env_def)
  ultimately show ?thesis
    using demo_bearer_presented demo_fields_valid unfolding admissible_def by auto
qed

lemma demo_registered:
  "\<exists>resp s'. dynamic_register demo_registration_env demo_registration_draws [''openid''] [Some (''Bearer '' @ demo_bearer)] ''body''
     demo_registrations = (Inr (Created resp), s')"
proof -
  obtain rf where "admissible demo_registration_env demo_registration_draws [''openid''] [Some (''Bearer '' @ demo_bearer)] ''body''
      demo_bearer rf None"
    using demo_admissible by blast
  moreover have "rv_digest demo_registration_env = demo_env" "gd_now demo_registration_draws = 0"
    by (simp_all add: demo_registration_env_def demo_registration_draws_def)
  then have "List.find (\<lambda>r. rg_token_hash r = sha256_hex (rv_digest demo_registration_env) demo_bearer)
      (registration_tokens demo_registrations) = Some (hd (registration_tokens demo_registrations))"
    "registration_usable (gd_now demo_registration_draws) (hd (registration_tokens demo_registrations))"
    by (simp_all add: demo_registrations_def registration_usable_def)
  moreover have "clients demo_registrations = []"
    by (simp add: demo_registrations_def empty_store_def)
  ultimately show ?thesis
    unfolding created_iff by (intro exI conjI) (assumption | simp)+
qed

theorem registered_client_sound_witness:
  "\<exists>resp s' c. dynamic_register demo_registration_env demo_registration_draws [''openid''] [Some (''Bearer '' @ demo_bearer)] ''body''
     demo_registrations = (Inr (Created resp), s') \<and> clients s' = [c] \<and> c_is_disabled c"
proof -
  obtain resp s' where run: "dynamic_register demo_registration_env demo_registration_draws [''openid'']
      [Some (''Bearer '' @ demo_bearer)] ''body'' demo_registrations = (Inr (Created resp), s')"
    using demo_registered by blast
  obtain rf h where "clients s' = clients demo_registrations @ [dynamic_client_row demo_registration_draws rf h]"
    using registered_client_sound [OF run] by blast
  then show ?thesis
    using run by (simp add: demo_registrations_def empty_store_def)
qed

theorem refused_registration_spends_nothing_witness:
  "\<exists>s'. dynamic_register demo_registration_env demo_registration_draws [''openid''] [] ''body'' demo_registrations
      = (Inr invalid_token_response, s') \<and> s' = demo_registrations"
proof -
  have "dynamic_register demo_registration_env demo_registration_draws [''openid''] [] ''body'' demo_registrations
      = (Inr invalid_token_response, demo_registrations)"
    by (simp add: dynamic_register_def extract_registration_bearer_token_def)
  then show ?thesis
    using refused_registration_spends_nothing [of demo_registration_env demo_registration_draws "[''openid'']" "[]" "''body''" demo_registrations
      "Inr invalid_token_response"] by (simp add: invalid_token_response_def)
qed

end
