(* ===== verification/Mfa.thy ===== *)
theory Mfa
  imports Login Totp Federation
begin

text \<open>
  The second factor (\<open>sui-id-core/src/authn/mfa.rs\<close>) and step-up (\<open>authn/step_up.rs\<close>): enrolling a TOTP
  secret with its recovery codes, completing a pending sign-in with a TOTP code or a recovery code, and
  proving a fresh factor in a running session.  As in \<open>Login\<close>, \<open>s0\<close> is the store a flow reads
  and \<open>s\<close> the one its command commits to.  The JSON form of the list of recovery hashes, base64url, HMAC
  and Argon2 are parameters; random bytes, nonces and salts are the draws of a call.
\<close>

record codes_json =
  cj_to_vec :: "string list \<Rightarrow> string option"
  cj_from_slice :: "string \<Rightarrow> string list option"

definition codes_json_ok :: "codes_json \<Rightarrow> bool" where
  "codes_json_ok cj = (\<forall>hs blob. cj_to_vec cj hs = Some blob \<longrightarrow> cj_from_slice cj blob = Some hs)"

record mfa_env =
  me_digest :: digest_env
  me_aead :: aead_env
  me_password :: password_env
  me_hmac :: "string \<Rightarrow> string \<Rightarrow> string"
  me_json :: codes_json
  me_base64url :: "string \<Rightarrow> string"
  me_max_lockout_secs :: int

section \<open>Enrolment\<close>

definition TOTP_SECRET_LEN :: nat where
  "TOTP_SECRET_LEN = 20"

definition RECOVERY_CODE_COUNT :: nat where
  "RECOVERY_CODE_COUNT = 8"

record enrollment_ticket =
  et_secret :: string
  et_otpauth_uri :: string

definition start_enrollment ::
  "mfa_env \<Rightarrow> string option \<Rightarrow> string \<Rightarrow> instant \<Rightarrow> string \<Rightarrow> uuid \<Rightarrow> string \<Rightarrow> store
    \<Rightarrow> (core_error + enrollment_ticket) \<times> store" where
  "start_enrollment me bytes nonce now issuer uid username s =
    (if (case totp_get uid s of None \<Rightarrow> False | Some t \<Rightarrow> ut_enabled t)
     then (Inl (Conflict ''MFA is already enabled; disable it before re-enrolling''), s)
     else (case bytes of
         None \<Rightarrow> (Inl Internal, s)
       | Some secret \<Rightarrow>
          (case with_tx (totp_upsert_pending (me_aead me) nonce uid secret now) s of
             (Inl e, s') \<Rightarrow> (Inl (Store e), s')
           | (Inr _, s') \<Rightarrow> (Inr \<lparr> et_secret = secret, et_otpauth_uri = otpauth_uri issuer username secret \<rparr>, s'))))"

text \<open>A code is the first 15 characters of the encoding of 12 random bytes, with a hyphen before the sixth and the eleventh.\<close>

definition generate_recovery_code :: "(string \<Rightarrow> string) \<Rightarrow> string option \<Rightarrow> core_error + string" where
  "generate_recovery_code base64url bytes =
    (case bytes of
       None \<Rightarrow> Inl Internal
     | Some b \<Rightarrow> Inr (concat (map (\<lambda>(i, c). if i = 5 \<or> i = 10 then ''-'' @ c else c)
         (enumerate 0 (take 15 (utf8_chars (base64url b)))))))"

fun generate_codes :: "(string \<Rightarrow> string) \<Rightarrow> string option list \<Rightarrow> core_error + string list" where
  "generate_codes base64url [] = Inr []"
| "generate_codes base64url (b # bs) =
    (case generate_recovery_code base64url b of
       Inl e \<Rightarrow> Inl e
     | Inr c \<Rightarrow> (case generate_codes base64url bs of Inl e \<Rightarrow> Inl e | Inr cs \<Rightarrow> Inr (c # cs)))"

fun hash_codes :: "password_env \<Rightarrow> (nat \<Rightarrow> string) \<Rightarrow> nat \<Rightarrow> string list \<Rightarrow> core_error + string list" where
  "hash_codes pe salt i [] = Inr []"
| "hash_codes pe salt i (c # cs) =
    (case hash_password pe (salt i) c of
       Inl e \<Rightarrow> Inl e
     | Inr h \<Rightarrow> (case hash_codes pe salt (Suc i) cs of Inl e \<Rightarrow> Inl e | Inr hs \<Rightarrow> Inr (h # hs)))"

text \<open>The random bytes of the \<open>i\<close>-th code (\<open>None\<close> when the source of entropy fails) and the salt of its hash.\<close>

record code_draws =
  cd_bytes :: "nat \<Rightarrow> string option"
  cd_salts :: "nat \<Rightarrow> string"
  cd_nonce :: string

text \<open>Generating, hashing and sealing a fresh set of recovery codes.\<close>

definition fresh_codes :: "mfa_env \<Rightarrow> code_draws \<Rightarrow> core_error + string list \<times> string" where
  "fresh_codes me cd =
    (case generate_codes (me_base64url me) (map (cd_bytes cd) [0..<RECOVERY_CODE_COUNT]) of
       Inl e \<Rightarrow> Inl e
     | Inr plain \<Rightarrow>
    (case hash_codes (me_password me) (cd_salts cd) 0 plain of
       Inl e \<Rightarrow> Inl e
     | Inr hashed \<Rightarrow>
    (case cj_to_vec (me_json me) hashed of
       None \<Rightarrow> Inl Internal
     | Some blob \<Rightarrow>
    (case seal_recovery_codes (me_aead me) (cd_nonce cd) blob of
       Inl e \<Rightarrow> Inl (Store e)
     | Inr sealed \<Rightarrow> Inr (plain, sealed)))))"

definition confirm_enrollment ::
  "mfa_env \<Rightarrow> code_draws \<Rightarrow> instant \<Rightarrow> instant \<Rightarrow> instant \<Rightarrow> uuid \<Rightarrow> 32 word \<Rightarrow> store \<Rightarrow> store
    \<Rightarrow> (core_error + string list) \<times> store" where
  "confirm_enrollment me cd now at t uid supplied_code s0 s =
    (case totp_get uid s0 of
       None \<Rightarrow> (Inl (BadRequest ''no pending TOTP enrolment''), s)
     | Some row \<Rightarrow>
        if ut_enabled row then (Inl (Conflict ''MFA is already enabled; nothing to confirm''), s)
        else
    (case decrypt_secret (me_aead me) row of
       Inl e \<Rightarrow> (Inl (Store e), s)
     | Inr secret \<Rightarrow>
    (case totp_verify (me_hmac me) secret (timestamp now) supplied_code (ut_last_used_step row) of
       None \<Rightarrow> (Inl (BadRequest ''verification code is incorrect''), s)
     | Some step \<Rightarrow>
    (case fresh_codes me cd of
       Inl e \<Rightarrow> (Inl e, s)
     | Inr (plain, sealed) \<Rightarrow>
    (case confirm_totp_enrollment (me_digest me) at uid sealed step t s of
       (Inl e, s') \<Rightarrow> (Inl (Store e), s')
     | (Inr _, s') \<Rightarrow> (Inr plain, s'))))))"

definition disable_mfa :: "mfa_env \<Rightarrow> instant \<Rightarrow> uuid \<Rightarrow> store \<Rightarrow> (core_error + unit) \<times> store" where
  "disable_mfa me at uid s =
    (case disable_totp (me_digest me) at uid s of
       (Inl StoreNotFound, s') \<Rightarrow> (Inl NotFound, s')
     | (Inl e, s') \<Rightarrow> (Inl (Store e), s')
     | (Inr _, s') \<Rightarrow> (Inr (), s'))"

definition regenerate_codes ::
  "mfa_env \<Rightarrow> code_draws \<Rightarrow> instant \<Rightarrow> uuid \<Rightarrow> store \<Rightarrow> store \<Rightarrow> (core_error + string list) \<times> store" where
  "regenerate_codes me cd at uid s0 s =
    (case totp_get uid s0 of
       None \<Rightarrow> (Inl NotFound, s)
     | Some row \<Rightarrow>
        if \<not> ut_enabled row then (Inl (BadRequest ''MFA is not enabled''), s)
        else
    (case fresh_codes me cd of
       Inl e \<Rightarrow> (Inl e, s)
     | Inr (plain, sealed) \<Rightarrow>
    (case regenerate_recovery_codes (me_digest me) at uid sealed s of
       (Inl e, s') \<Rightarrow> (Inl (Store e), s')
     | (Inr _, s') \<Rightarrow> (Inr plain, s'))))"

section \<open>Completing a sign-in\<close>

fun first_match :: "password_env \<Rightarrow> string \<Rightarrow> nat \<Rightarrow> string list \<Rightarrow> nat option" where
  "first_match pe candidate i [] = None"
| "first_match pe candidate i (h # hs) =
    (if is_ok (verify_password pe candidate h) then Some i else first_match pe candidate (Suc i) hs)"

definition match_recovery_code ::
  "mfa_env \<Rightarrow> string \<Rightarrow> user_totp_row \<Rightarrow> string \<Rightarrow> core_error + second_factor_proof option" where
  "match_recovery_code me nonce row candidate =
    (case decrypt_recovery_codes (me_aead me) row of
       Inl e \<Rightarrow> Inl (Store e)
     | Inr None \<Rightarrow> Inr None
     | Inr (Some blob) \<Rightarrow>
    (case ut_recovery_codes_enc row of
       None \<Rightarrow> Inr None
     | Some expected_sealed \<Rightarrow>
    (case cj_from_slice (me_json me) blob of
       None \<Rightarrow> Inl Internal
     | Some hashes \<Rightarrow>
    (case first_match (me_password me) candidate 0 hashes of
       None \<Rightarrow> Inr None
     | Some i \<Rightarrow>
    (case cj_to_vec (me_json me) (take i hashes @ drop (Suc i) hashes) of
       None \<Rightarrow> Inl Internal
     | Some new_blob \<Rightarrow>
    (case seal_recovery_codes (me_aead me) nonce new_blob of
       Inl e \<Rightarrow> Inl (Store e)
     | Inr new_sealed \<Rightarrow> Inr (Some (SfRecoveryCode expected_sealed new_sealed))))))))"

record second_draws =
  sd_check :: instant
  sd_code_at :: instant
  sd_fail :: instant
  sd_now :: instant
  sd_at :: instant
  sd_session_id :: uuid
  sd_nonce :: string

definition second_session :: "second_draws \<Rightarrow> uuid \<Rightarrow> auth_method \<Rightarrow> session_row" where
  "second_session sd uid method_used =
    \<lparr> s_id = sd_session_id sd, s_user_id = uid, s_expires_at = sd_now sd + hours SESSION_LIFETIME_HOURS,
      s_created_at = sd_now sd, s_revoked_at = None, s_auth_methods = [Pwd, method_used], s_last_step_up_at = None,
      s_last_used_at = None, s_last_step_up_method = None, s_step_up_failure_count = 0 \<rparr>"

definition mfa_complete ::
  "mfa_env \<Rightarrow> second_draws \<Rightarrow> uuid \<Rightarrow> uuid \<Rightarrow> auth_method \<Rightarrow> second_factor_proof \<Rightarrow> store \<Rightarrow> (core_error + session_row) \<times> store" where
  "mfa_complete me sd pid uid method_used prf s =
    (case complete_second_factor (me_digest me) (sd_at sd) pid (second_session sd uid method_used) prf s of
       (Inl StoreNotFound, s') \<Rightarrow> (Inl Unauthenticated, s')
     | (Inl e, s') \<Rightarrow> (Inl (Store e), s')
     | (Inr session, s') \<Rightarrow> (Inr session, s'))"

definition count_second_factor_failure ::
  "mfa_env \<Rightarrow> second_draws \<Rightarrow> uuid \<Rightarrow> store \<Rightarrow> (core_error + second_factor_failure_outcome) \<times> store" where
  "count_second_factor_failure me sd uid s =
    apfst lift_store (record_second_factor_failure (me_digest me) (sd_at sd) uid
      (\<lambda>n. lockout_backoff n (me_max_lockout_secs me)) (sd_fail sd) s)"

text \<open>What the user typed, as a proof: digits are a TOTP code, anything else a recovery code.\<close>

definition proof_of_code ::
  "mfa_env \<Rightarrow> second_draws \<Rightarrow> user_totp_row \<Rightarrow> string \<Rightarrow> core_error + second_factor_proof option \<times> auth_method" where
  "proof_of_code me sd row code_input =
    (let trimmed = str_trim code_input in
     case parse_unsigned 32 trimmed of
       Some digits \<Rightarrow>
        (case decrypt_secret (me_aead me) row of
           Inl e \<Rightarrow> Inl (Store e)
         | Inr secret \<Rightarrow>
            Inr (map_option SfTotp (totp_verify (me_hmac me) secret (timestamp (sd_code_at sd)) (of_nat digits)
              (ut_last_used_step row)), Totp))
     | None \<Rightarrow>
        (case match_recovery_code me (sd_nonce sd) row trimmed of
           Inl e \<Rightarrow> Inl e
         | Inr prf \<Rightarrow> Inr (prf, RecoveryCode)))"

definition verify_pending ::
  "mfa_env \<Rightarrow> second_draws \<Rightarrow> uuid \<Rightarrow> string \<Rightarrow> store \<Rightarrow> store \<Rightarrow> (core_error + session_row) \<times> store" where
  "verify_pending me sd pid code_input s0 s =
    (case pending_mfa_get pid s0 of
       None \<Rightarrow> (Inl Unauthenticated, s)
     | Some pending_row \<Rightarrow>
        if pm_expires_at pending_row < sd_check sd
        then (Inl Unauthenticated, snd (with_tx (pending_mfa_delete pid) s))
        else
    (case totp_get (pm_user_id pending_row) s0 of
       None \<Rightarrow> (Inl Unauthenticated, s)
     | Some row \<Rightarrow>
        if \<not> ut_enabled row then (Inl Unauthenticated, s)
        else
    (case proof_of_code me sd row code_input of
       Inl e \<Rightarrow> (Inl e, s)
     | Inr (None, _) \<Rightarrow>
        (case count_second_factor_failure me sd (pm_user_id pending_row) s of
           (Inl e, s') \<Rightarrow> (Inl e, s')
         | (Inr _, s') \<Rightarrow> (Inl InvalidCredentials, s'))
     | Inr (Some prf, method_used) \<Rightarrow> mfa_complete me sd pid (pm_user_id pending_row) method_used prf s)))"

definition verify_pending_webauthn ::
  "mfa_env \<Rightarrow> second_draws \<Rightarrow> uuid \<Rightarrow> uuid \<Rightarrow> store \<Rightarrow> (core_error + session_row) \<times> store" where
  "verify_pending_webauthn me sd pid uid = mfa_complete me sd pid uid Webauthn SfWebauthn"

definition count_recovery_codes_remaining :: "mfa_env \<Rightarrow> uuid \<Rightarrow> store \<Rightarrow> core_error + nat" where
  "count_recovery_codes_remaining me uid s =
    (case totp_get uid s of
       None \<Rightarrow> Inr 0
     | Some row \<Rightarrow>
    (case decrypt_recovery_codes (me_aead me) row of
       Inl e \<Rightarrow> Inl (Store e)
     | Inr None \<Rightarrow> Inr 0
     | Inr (Some blob) \<Rightarrow>
        (case cj_from_slice (me_json me) blob of None \<Rightarrow> Inl Internal | Some hashes \<Rightarrow> Inr (length hashes))))"

section \<open>Step-up\<close>

datatype step_up_decision = AllowAction | Challenge

definition user_has_mfa :: "uuid \<Rightarrow> store \<Rightarrow> bool" where
  "user_has_mfa uid s =
    ((case totp_get uid s of None \<Rightarrow> False | Some t \<Rightarrow> ut_enabled t) \<or> webauthn_has_any uid s)"

definition policy_for_session :: "instant \<Rightarrow> uuid \<Rightarrow> instant option \<Rightarrow> int \<Rightarrow> store \<Rightarrow> step_up_decision" where
  "policy_for_session now uid last_step_up_at freshness_secs s =
    (if \<not> user_has_mfa uid s then AllowAction
     else (case last_step_up_at of
         None \<Rightarrow> Challenge
       | Some t \<Rightarrow> if t \<ge> now - seconds freshness_secs then AllowAction else Challenge))"

definition step_up_complete ::
  "digest_env \<Rightarrow> instant \<Rightarrow> instant \<Rightarrow> uuid \<Rightarrow> uuid \<Rightarrow> step_up_proof \<Rightarrow> string \<Rightarrow> store \<Rightarrow> (core_error + unit) \<times> store" where
  "step_up_complete cx at now uid sid prf gate s =
    (case complete_step_up cx at uid sid prf gate now s of
       (Inl StoreNotFound, s') \<Rightarrow> (Inl Unauthenticated, s')
     | (Inl e, s') \<Rightarrow> (Inl (Store e), s')
     | (Inr _, s') \<Rightarrow> (Inr (), s'))"

definition verify_totp_code ::
  "mfa_env \<Rightarrow> instant \<Rightarrow> instant \<Rightarrow> instant \<Rightarrow> uuid \<Rightarrow> uuid \<Rightarrow> string \<Rightarrow> string \<Rightarrow> store \<Rightarrow> store \<Rightarrow> (core_error + unit) \<times> store" where
  "verify_totp_code me code_at now at uid sid code_input gate s0 s =
    (case totp_get uid s0 of
       None \<Rightarrow> (Inl InvalidCredentials, s)
     | Some row \<Rightarrow>
        if \<not> ut_enabled row then (Inl InvalidCredentials, s)
        else (case parse_unsigned 32 (str_trim code_input) of
            None \<Rightarrow> (Inl InvalidCredentials, s)
          | Some digits \<Rightarrow>
             (case decrypt_secret (me_aead me) row of
                Inl e \<Rightarrow> (Inl (Store e), s)
              | Inr secret \<Rightarrow>
                 (case totp_verify (me_hmac me) secret (timestamp code_at) (of_nat digits) (ut_last_used_step row) of
                    None \<Rightarrow> (Inl InvalidCredentials, s)
                  | Some step \<Rightarrow> step_up_complete (me_digest me) at now uid sid (SuTotp step) gate s))))"

text \<open>\<open>finish_webauthn\<close>: the parsing of the credential and \<open>webauthn::finish_authentication\<close> are parameters.\<close>

definition finish_webauthn ::
  "digest_env \<Rightarrow> bool \<Rightarrow> (store \<Rightarrow> (core_error + unit) \<times> store) \<Rightarrow> instant \<Rightarrow> instant \<Rightarrow> uuid \<Rightarrow> uuid \<Rightarrow> uuid \<Rightarrow> string \<Rightarrow> store
    \<Rightarrow> (core_error + unit) \<times> store" where
  "finish_webauthn cx parses finish_authentication at now uid sid pid gate s =
    (if \<not> parses then (Inl InvalidCredentials, s)
     else (case finish_authentication s of
         (Inr _, s') \<Rightarrow> step_up_complete cx at now uid sid (SuWebauthn pid) gate s'
       | (Inl (Store e), s') \<Rightarrow> (Inl (Store e), s')
       | (Inl Internal, s') \<Rightarrow> (Inl Internal, s')
       | (Inl _, s') \<Rightarrow> (Inl InvalidCredentials, s')))"

definition count_step_up_failure ::
  "digest_env \<Rightarrow> instant \<Rightarrow> instant \<Rightarrow> uuid \<Rightarrow> uuid \<Rightarrow> store \<Rightarrow> (core_error + step_up_failure_outcome) \<times> store" where
  "count_step_up_failure cx at now uid sid s = apfst lift_store (record_step_up_failure cx at uid sid now s)"

datatype first_factor_proof = LocalPassword | DirectoryPassword | ProofUnavailable

definition first_factor_proof_for :: "uuid \<Rightarrow> store \<Rightarrow> core_error + first_factor_proof" where
  "first_factor_proof_for uid s =
    (if link_list_for_user uid s \<noteq> [] then Inr ProofUnavailable
     else (case get_user uid s of
         Inl e \<Rightarrow> Inl (Store e)
       | Inr user \<Rightarrow> Inr (case u_source user of Local \<Rightarrow> LocalPassword | Ldap \<Rightarrow> DirectoryPassword)))"

definition verify_current_password :: "password_env \<Rightarrow> uuid \<Rightarrow> string \<Rightarrow> store \<Rightarrow> core_error + bool" where
  "verify_current_password pe uid password s =
    (case credential_get uid s of
       Inl StoreNotFound \<Rightarrow> Inr False
     | Inl e \<Rightarrow> Inl (Store e)
     | Inr cred \<Rightarrow> Inr (is_ok (verify_password pe password (cr_password_hash cred))))"

section \<open>What completing a sign-in commits\<close>

lemma second_session_simps [simp]:
  "s_user_id (second_session sd uid m) = uid" "s_created_at (second_session sd uid m) = sd_now sd"
  "s_id (second_session sd uid m) = sd_session_id sd" "s_auth_methods (second_session sd uid m) = [Pwd, m]"
  by (simp_all add: second_session_def)

lemma mfa_complete_Inr:
  assumes "mfa_complete me sd pid uid m prf s = (Inr session, s')"
  obtains v a t where "complete_second_factor_body pid (second_session sd uid m) prf s = Inr ((session, v), t)" "s' = t\<lparr>audit := a\<rparr>"
proof -
  have "complete_second_factor (me_digest me) (sd_at sd) pid (second_session sd uid m) prf s = (Inr session, s')"
    using assms by (auto simp: mfa_complete_def split: prod.splits sum.splits store_error.splits)
  then show thesis
    unfolding complete_second_factor_def by (rule l02.class_a_success) (use that in blast)
qed

lemma mfa_complete_Inl: "mfa_complete me sd pid uid m prf s = (Inl e, s') \<Longrightarrow> s' = s"
  unfolding mfa_complete_def complete_second_factor_def
  by (auto split: prod.splits sum.splits store_error.splits dest: l02.class_a_error)

lemma complete_body_session:
  assumes "complete_second_factor_body pid session p s = Inr ((session', v), s')"
  shows "session' = session\<lparr> s_last_step_up_at := (if sf_fresh p then Some (s_created_at session) else None) \<rparr>"
  using assms by (auto simp: complete_second_factor_body_def Let_def results)

text \<open>The three ways a pending sign-in can end.\<close>

lemma verify_pending_cases:
  assumes "verify_pending me sd pid code s0 s = (r, s')"
  obtains (completed) p row pr m where "pending_mfa_get pid s0 = Some p" "sd_check sd \<le> pm_expires_at p"
      "totp_get (pm_user_id p) s0 = Some row" "ut_enabled row" "proof_of_code me sd row code = Inr (Some pr, m)"
      "mfa_complete me sd pid (pm_user_id p) m pr s = (r, s')"
  | (refused) e where "r = Inl e" "user_totps s' = user_totps s" "sessions s' = sessions s"
proof -
  have drop: "user_totps (snd (with_tx (pending_mfa_delete pid) s)) = user_totps s"
    "sessions (snd (with_tx (pending_mfa_delete pid) s)) = sessions s"
    by (auto simp: with_tx_def pending_mfa_delete_def found_or_def split: sum.splits)
  have failure: "user_totps t = user_totps s \<and> sessions t = sessions s"
    if cnt: "count_second_factor_failure me sd uid s = (q, t)" for uid q t
  proof -
    let ?body = "record_second_factor_failure_body uid (\<lambda>n. lockout_backoff n (me_max_lockout_secs me)) (sd_fail sd)"
    have keep: "keeps user_totps ?body" "keeps sessions ?body"
      unfolding record_second_factor_failure_body_def user_ops by (intro frame; simp)+
    obtain q' where "record_second_factor_failure (me_digest me) (sd_at sd) uid
        (\<lambda>n. lockout_backoff n (me_max_lockout_secs me)) (sd_fail sd) s = (q', t)"
      using cnt by (auto simp: count_second_factor_failure_def apfst_def map_prod_def split: prod.splits)
    then show ?thesis
      unfolding record_second_factor_failure_def
      by (elim l07.class_a_store) (auto dest: keepsD [OF keep(1)] keepsD [OF keep(2)])
  qed
  show thesis
  proof (cases "pending_mfa_get pid s0")
    case None
    then show thesis
      using assms refused [of Unauthenticated] by (simp add: verify_pending_def)
  next
    case p: (Some p)
    show thesis
    proof (cases "pm_expires_at p < sd_check sd")
      case True
      then show thesis
        using assms p refused drop by (auto simp: verify_pending_def)
    next
      case alive: False
      show thesis
      proof (cases "\<exists>row. totp_get (pm_user_id p) s0 = Some row \<and> ut_enabled row")
        case False
        then show thesis
          using assms p alive refused by (cases "totp_get (pm_user_id p) s0") (auto simp: verify_pending_def)
      next
        case True
        then obtain row where row: "totp_get (pm_user_id p) s0 = Some row" "ut_enabled row"
          by blast
        consider (err) e where "proof_of_code me sd row code = Inl e"
          | (none) m where "proof_of_code me sd row code = Inr (None, m)"
          | (some) pr m where "proof_of_code me sd row code = Inr (Some pr, m)"
          by (cases "proof_of_code me sd row code") (auto, metis not_None_eq surj_pair)
        then show thesis
        proof cases
          case (err e)
          then show thesis
            using assms p alive row refused [of e] by (simp add: verify_pending_def)
        next
          case (none m)
          obtain q t where q: "count_second_factor_failure me sd (pm_user_id p) s = (q, t)"
            by fastforce
          then have "(\<exists>e. r = Inl e) \<and> s' = t"
            using assms p alive row none by (cases q) (auto simp: verify_pending_def)
          then show thesis
            using refused failure [OF q] by blast
        next
          case (some pr m)
          then show thesis
            using assms p alive row completed by (simp add: verify_pending_def)
        qed
      qed
    qed
  qed
qed

section \<open>Recovery codes run out\<close>

definition totps_keyed :: "store \<Rightarrow> bool" where
  "totps_keyed s = distinct (map ut_user_id (user_totps s))"

text \<open>The recovery hashes a row of the table holds.\<close>

definition row_hashes :: "mfa_env \<Rightarrow> user_totp_row \<Rightarrow> string list" where
  "row_hashes me row =
    (case decrypt_recovery_codes (me_aead me) row of
       Inr (Some blob) \<Rightarrow> (case cj_from_slice (me_json me) blob of None \<Rightarrow> [] | Some hashes \<Rightarrow> hashes)
     | _ \<Rightarrow> [])"

definition stored_hashes :: "mfa_env \<Rightarrow> uuid \<Rightarrow> store \<Rightarrow> string list" where
  "stored_hashes me uid s = (case totp_get uid s of None \<Rightarrow> [] | Some row \<Rightarrow> row_hashes me row)"

lemma row_hashes_cong: "ut_recovery_codes_enc r = ut_recovery_codes_enc q \<Longrightarrow> row_hashes me r = row_hashes me q"
  by (simp add: row_hashes_def decrypt_recovery_codes_def)

lemma first_match_Some: "first_match pe c i hs = Some j \<Longrightarrow> i \<le> j \<and> j < i + length hs \<and> is_ok (verify_password pe c (hs ! (j - i)))"
proof (induction hs arbitrary: i)
  case (Cons h hs)
  show ?case
  proof (cases "is_ok (verify_password pe c h)")
    case False
    then have "Suc i \<le> j" "j < Suc i + length hs" "is_ok (verify_password pe c (hs ! (j - Suc i)))"
      using Cons.IH [of "Suc i"] Cons.prems by auto
    then show ?thesis
      by (simp add: nth_Cons' Suc_diff_le)
  qed (use Cons.prems in auto)
qed simp

lemma first_match_None: "first_match pe c i hs = None \<longleftrightarrow> (\<forall>h \<in> set hs. \<not> is_ok (verify_password pe c h))"
  by (induction hs arbitrary: i) auto

lemma match_recovery_code_Some:
  assumes "match_recovery_code me nonce row c = Inr (Some pr)" "aead_ok (me_aead me)" "codes_json_ok (me_json me)"
    and "length nonce = NONCE_LEN"
  obtains expected new i where "pr = SfRecoveryCode expected new" "ut_recovery_codes_enc row = Some expected"
    "i < length (row_hashes me row)" "is_ok (verify_password (me_password me) c (row_hashes me row ! i))"
    "\<And>r. ut_recovery_codes_enc r = Some new \<Longrightarrow> row_hashes me r = take i (row_hashes me row) @ drop (Suc i) (row_hashes me row)"
proof -
  obtain blob expected hashes i new_blob new where blob: "decrypt_recovery_codes (me_aead me) row = Inr (Some blob)"
    and e: "ut_recovery_codes_enc row = Some expected" and h: "cj_from_slice (me_json me) blob = Some hashes"
    and i: "first_match (me_password me) c 0 hashes = Some i"
    and nb: "cj_to_vec (me_json me) (take i hashes @ drop (Suc i) hashes) = Some new_blob"
    and n: "seal_recovery_codes (me_aead me) nonce new_blob = Inr new" and pr: "pr = SfRecoveryCode expected new"
    using assms(1) by (auto simp: match_recovery_code_def split: sum.splits option.splits)
  have row: "row_hashes me row = hashes"
    using blob h by (simp add: row_hashes_def)
  have "row_hashes me r = take i hashes @ drop (Suc i) hashes" if "ut_recovery_codes_enc r = Some new" for r
    using that open_seal [OF assms(2,4), of "master_key (me_aead me)" new_blob RECOVERY_AAD new] n nb assms(3)
    by (simp add: row_hashes_def decrypt_recovery_codes_def seal_recovery_codes_def codes_json_ok_def)
  then show thesis
    using that [OF pr e, of i] row first_match_Some [OF i] by simp
qed

lemma totp_get_update:
  assumes "\<And>t. ut_user_id (f t) = ut_user_id t"
  shows "totp_get uid (s\<lparr>user_totps := update_where p f (user_totps s)\<rparr>)
    = map_option (\<lambda>t. if p t then f t else t) (totp_get uid s)"
  using assms by (simp add: totp_get_def find_update_where)

lemma totp_get_cong: "user_totps t = user_totps s \<Longrightarrow> totp_get uid t = totp_get uid s"
  by (simp add: totp_get_def)

text \<open>Completing a sign-in with a recovery code takes one hash out of the user's list; with a TOTP code it leaves all lists.\<close>

lemma complete_body_totps:
  assumes "complete_second_factor_body pid session p s = Inr (v, s')"
  shows "case p of
      SfTotp step \<Rightarrow> user_totps s' = update_where (\<lambda>t. ut_user_id t = s_user_id session \<and> ut_enabled t \<and> ut_last_used_step t < step)
        (\<lambda>t. t\<lparr> ut_last_used_step := step \<rparr>) (user_totps s)
    | SfRecoveryCode expected new \<Rightarrow>
        (\<exists>t \<in> set (user_totps s). ut_user_id t = s_user_id session \<and> ut_enabled t \<and> ut_recovery_codes_enc t = Some expected)
        \<and> user_totps s' = update_where (\<lambda>t. ut_user_id t = s_user_id session \<and> ut_enabled t \<and> ut_recovery_codes_enc t = Some expected)
          (\<lambda>t. t\<lparr> ut_recovery_codes_enc := Some new \<rparr>) (user_totps s)
    | SfWebauthn \<Rightarrow> user_totps s' = user_totps s"
proof -
  let ?sp = "s\<lparr>login_pending_mfas := delete_where (pending_live pid (s_user_id session) (s_created_at session)) (login_pending_mfas s)\<rparr>"
  obtain sg where g: "sf_guard (s_user_id session) p ?sp = Inr ((), sg)" and s': "user_totps s' = user_totps sg"
    using assms by (rule second_factor_body_success) blast
  show ?thesis
    using g s'
    by (cases p) (auto simp: results advance_last_used_step_within_tx_def swap_recovery_codes_within_tx_def)
qed

section \<open>A completed sign-in\<close>

lemma match_recovery_code_proof:
  assumes "match_recovery_code me nonce row c = Inr (Some pr)"
  obtains expected new h where "pr = SfRecoveryCode expected new" "ut_recovery_codes_enc row = Some expected"
    "h \<in> set (row_hashes me row)" "is_ok (verify_password (me_password me) c h)"
proof -
  obtain blob expected hashes i new where blob: "decrypt_recovery_codes (me_aead me) row = Inr (Some blob)"
    and e: "ut_recovery_codes_enc row = Some expected" and h: "cj_from_slice (me_json me) blob = Some hashes"
    and i: "first_match (me_password me) c 0 hashes = Some i" and pr: "pr = SfRecoveryCode expected new"
    using assms by (auto simp: match_recovery_code_def split: sum.splits option.splits)
  have "row_hashes me row = hashes"
    using blob h by (simp add: row_hashes_def)
  then show thesis
    using that [OF pr e, of "hashes ! i"] first_match_Some [OF i] by simp
qed

lemma totp_verify_Some:
  assumes "totp_verify hmac secret t supplied last_step = Some step"
  shows "code_for_step hmac secret step = supplied" "\<bar>step - t div STEP_SECS\<bar> \<le> 1" "last_step < step"
  using assms totp_try_Some [of hmac secret "t div STEP_SECS" supplied last_step "[-1, 0, 1]" step]
  by (auto simp: totp_verify_def simp del: totp_try.simps split: if_splits)

fun method_of_proof :: "second_factor_proof \<Rightarrow> auth_method" where
  "method_of_proof (SfTotp step) = Totp"
| "method_of_proof (SfRecoveryCode expected new) = RecoveryCode"
| "method_of_proof SfWebauthn = Webauthn"

text \<open>What a typed code has to be for a user's row, by the way the session says it was proved.\<close>

definition code_proves :: "mfa_env \<Rightarrow> second_draws \<Rightarrow> user_totp_row \<Rightarrow> string \<Rightarrow> second_factor_proof \<Rightarrow> bool" where
  "code_proves me sd row code pr =
    (case pr of
       SfTotp step \<Rightarrow>
        (\<exists>digits secret. parse_unsigned 32 (str_trim code) = Some digits \<and> decrypt_secret (me_aead me) row = Inr secret \<and>
          code_for_step (me_hmac me) secret step = of_nat digits \<and> \<bar>step - timestamp (sd_code_at sd) div STEP_SECS\<bar> \<le> 1)
     | SfRecoveryCode expected new \<Rightarrow>
        ut_recovery_codes_enc row = Some expected \<and>
        (\<exists>h \<in> set (row_hashes me row). is_ok (verify_password (me_password me) (str_trim code) h))
     | SfWebauthn \<Rightarrow> False)"

lemma proof_of_code_Some:
  assumes "proof_of_code me sd row code = Inr (Some pr, m)"
  shows "code_proves me sd row code pr" "m = method_of_proof pr"
proof -
  have "code_proves me sd row code pr \<and> m = method_of_proof pr"
  proof (cases "parse_unsigned 32 (str_trim code)")
    case None
    then have "match_recovery_code me (sd_nonce sd) row (str_trim code) = Inr (Some pr)" and m: "m = RecoveryCode"
      using assms by (auto simp: proof_of_code_def Let_def split: sum.splits)
    then show ?thesis
      by (elim match_recovery_code_proof) (auto simp: code_proves_def m)
  next
    case (Some digits)
    then obtain secret step where "decrypt_secret (me_aead me) row = Inr secret" "pr = SfTotp step" "m = Totp"
      "totp_verify (me_hmac me) secret (timestamp (sd_code_at sd)) (of_nat digits) (ut_last_used_step row) = Some step"
      using assms by (auto simp: proof_of_code_def Let_def split: sum.splits)
    then show ?thesis
      using Some totp_verify_Some by (simp add: code_proves_def)
  qed
  then show "code_proves me sd row code pr" "m = method_of_proof pr"
    by simp_all
qed

text \<open>C26: A pending sign-in becomes a session only for a code that proves the second factor.  When
  \<open>verify_pending\<close> returns a session, the pending row it read had not expired and was still live when the
  command committed, the user may sign in at that moment, and the user's TOTP enrolment is enabled.  The
  session carries \<open>pwd\<close> and the method used: with a TOTP code, the digits are the code of a step within one
  of the current step, a step no enabled enrolment had spent before and every one has spent after, and the
  session is stepped up; with a recovery code, the text verifies against a stored hash of a row that still
  holds the list that was read, and the session is not stepped up.
\<close>

theorem second_factor_sound:
  assumes "verify_pending me sd pid code s0 s = (Inr session, s')"
  shows "\<exists>p row pr u. pending_mfa_get pid s0 = Some p \<and> sd_check sd \<le> pm_expires_at p
    \<and> totp_get (pm_user_id p) s0 = Some row \<and> ut_enabled row \<and> code_proves me sd row code pr
    \<and> (\<exists>r \<in> set (login_pending_mfas s). pending_live pid (pm_user_id p) (sd_now sd) r)
    \<and> List.find (by_user_id (pm_user_id p)) (users s) = Some u \<and> may_sign_in (sd_now sd) u
    \<and> session = (second_session sd (pm_user_id p) (method_of_proof pr))
        \<lparr> s_last_step_up_at := (case pr of SfTotp step \<Rightarrow> Some (sd_now sd) | _ \<Rightarrow> None) \<rparr>
    \<and> (case pr of
         SfTotp step \<Rightarrow> \<not> totp_spent (pm_user_id p, step) s \<and> totp_spent (pm_user_id p, step) s'
       | SfRecoveryCode expected new \<Rightarrow>
          (\<exists>t \<in> set (user_totps s). ut_user_id t = pm_user_id p \<and> ut_enabled t \<and> ut_recovery_codes_enc t = Some expected)
       | SfWebauthn \<Rightarrow> False)"
  using assms
proof (cases rule: verify_pending_cases)
  case (completed p row pr m)
  note code = proof_of_code_Some [OF completed(5)]
  obtain v a t where body: "complete_second_factor_body pid (second_session sd (pm_user_id p) m) pr s = Inr ((session, v), t)"
    and s': "s' = t\<lparr>audit := a\<rparr>"
    using completed(6) by (rule mfa_complete_Inr)
  obtain u where u: "\<exists>r \<in> set (login_pending_mfas s). pending_live pid (pm_user_id p) (sd_now sd) r"
    "List.find (by_user_id (pm_user_id p)) (users s) = Some u" "may_sign_in (sd_now sd) u"
    using body by (rule second_factor_body_success) simp
  note ses = complete_body_session [OF body]
  have pr: "case pr of
         SfTotp step \<Rightarrow> \<not> totp_spent (pm_user_id p, step) s \<and> totp_spent (pm_user_id p, step) s'
       | SfRecoveryCode expected new \<Rightarrow>
          (\<exists>t \<in> set (user_totps s). ut_user_id t = pm_user_id p \<and> ut_enabled t \<and> ut_recovery_codes_enc t = Some expected)
       | SfWebauthn \<Rightarrow> False"
    using code(1) l02_totp(2) [OF body] complete_body_totps [OF body] totp_spent_cong [of s' t]
    by (cases pr) (auto simp: s' code_proves_def)
  have "session = (second_session sd (pm_user_id p) (method_of_proof pr))
        \<lparr> s_last_step_up_at := (case pr of SfTotp step \<Rightarrow> Some (sd_now sd) | _ \<Rightarrow> None) \<rparr>"
    using ses code by (cases pr) (auto simp: code_proves_def)
  then show ?thesis
    using completed(1-4) code(1) u pr by blast
qed simp

section \<open>Counting recovery codes\<close>

definition spends_code :: "uuid \<Rightarrow> core_error + session_row \<Rightarrow> bool" where
  "spends_code uid r = (\<exists>ses. r = Inr ses \<and> s_user_id ses = uid \<and> RecoveryCode \<in> set (s_auth_methods ses))"

lemma totp_get_keyed:
  assumes "totps_keyed s" "row \<in> set (user_totps s)"
  shows "totp_get (ut_user_id row) s = Some row"
proof (cases "totp_get (ut_user_id row) s")
  case None
  then show ?thesis
    using assms(2) by (auto simp: totp_get_def find_None_iff)
next
  case (Some q)
  then have "q \<in> set (user_totps s)" "ut_user_id q = ut_user_id row"
    by (auto simp: totp_get_def dest!: find_Some_in)
  then have "q = row"
    using assms by (auto simp: totps_keyed_def distinct_map inj_on_def)
  then show ?thesis
    using Some by simp
qed

lemma totps_keyed_update:
  assumes "totps_keyed s" "user_totps s' = update_where p f (user_totps s)" "\<And>t. ut_user_id (f t) = ut_user_id t"
  shows "totps_keyed s'"
  using assms by (simp add: totps_keyed_def map_update_where)

lemma stored_hashes_cong: "user_totps t = user_totps s \<Longrightarrow> stored_hashes me uid t = stored_hashes me uid s"
  by (simp add: stored_hashes_def totp_get_def)

text \<open>One committed completion, by the proof it was given.\<close>

lemma complete_hashes:
  assumes "complete_second_factor_body pid (second_session sd v m) pr s = Inr (x, s')" "totps_keyed s"
    and "proof_of_code me sd row code = Inr (Some pr, m)" "aead_ok (me_aead me)" "codes_json_ok (me_json me)"
    and "length (sd_nonce sd) = NONCE_LEN"
  shows "totps_keyed s'"
    and "length (stored_hashes me uid s) = length (stored_hashes me uid s') + (if v = uid \<and> m = RecoveryCode then 1 else 0)"
proof -
  note tot = complete_body_totps [OF assms(1)] and code = proof_of_code_Some [OF assms(3)]
  have get: "totp_get uid s' = totp_get uid (s\<lparr>user_totps := user_totps s'\<rparr>)"
    by (simp add: totp_get_def)
  have "totps_keyed s' \<and>
    length (stored_hashes me uid s) = length (stored_hashes me uid s') + (if v = uid \<and> m = RecoveryCode then 1 else 0)"
  proof (cases pr)
    case (SfTotp step)
    have "row_hashes me (t\<lparr> ut_last_used_step := step \<rparr>) = row_hashes me t" for t
      by (rule row_hashes_cong) simp
    then have "stored_hashes me uid s' = stored_hashes me uid s"
      using tot get totp_get_update [where f = "\<lambda>t. t\<lparr> ut_last_used_step := step \<rparr>" and s = s and uid = uid]
      by (auto simp: SfTotp stored_hashes_def split: option.splits)
    then show ?thesis
      using tot code assms(2) totps_keyed_update [of s s'] by (simp add: SfTotp)
  next
    case (SfRecoveryCode expected new)
    let ?p = "\<lambda>t. ut_user_id t = v \<and> ut_enabled t \<and> ut_recovery_codes_enc t = Some expected"
    let ?f = "\<lambda>t. t\<lparr> ut_recovery_codes_enc := Some new \<rparr>"
    obtain q where q: "q \<in> set (user_totps s)" "?p q" and upd: "user_totps s' = update_where ?p ?f (user_totps s)"
      using tot by (auto simp: SfRecoveryCode)
    have keyed: "totps_keyed s'"
      by (rule totps_keyed_update [OF assms(2) upd]) simp
    have got: "totp_get uid s' = map_option (\<lambda>t. if ?p t then ?f t else t) (totp_get uid s)"
      unfolding get upd by (rule totp_get_update) simp
    have m: "m = RecoveryCode"
      using code by (simp add: SfRecoveryCode)
    show ?thesis
    proof (cases "v = uid")
      case False
      then have "totp_get uid s' = totp_get uid s"
        unfolding got by (cases "totp_get uid s") (auto simp: totp_get_def dest!: find_Some_in)
      then show ?thesis
        using keyed False by (simp add: stored_hashes_def)
    next
      case True
      have "match_recovery_code me (sd_nonce sd) row (str_trim code) = Inr (Some pr)"
        using assms(3) m by (auto simp: proof_of_code_def Let_def split: sum.splits option.splits)
      then obtain i where e: "ut_recovery_codes_enc row = Some expected" and i: "i < length (row_hashes me row)"
        and new: "\<And>r. ut_recovery_codes_enc r = Some new \<Longrightarrow> row_hashes me r = take i (row_hashes me row) @ drop (Suc i) (row_hashes me row)"
        using assms(4-6) by (rule match_recovery_code_Some) (auto simp: SfRecoveryCode)
      have sq: "totp_get uid s = Some q"
        using totp_get_keyed [OF assms(2) q(1)] q(2) True by simp
      have "row_hashes me q = row_hashes me row"
        using e q(2) by (intro row_hashes_cong) simp
      moreover have "row_hashes me (?f q) = take i (row_hashes me row) @ drop (Suc i) (row_hashes me row)"
        by (rule new) simp
      ultimately show ?thesis
        using keyed True m i q(2) sq got by (simp add: stored_hashes_def)
    qed
  next
    case SfWebauthn
    then show ?thesis
      using code by (simp add: code_proves_def)
  qed
  then show "totps_keyed s'"
    "length (stored_hashes me uid s) = length (stored_hashes me uid s') + (if v = uid \<and> m = RecoveryCode then 1 else 0)"
    by simp_all
qed

lemma verify_pending_hashes:
  assumes "verify_pending me sd pid code s0 s = (r, s')" "totps_keyed s" "aead_ok (me_aead me)" "codes_json_ok (me_json me)"
    and "length (sd_nonce sd) = NONCE_LEN"
  shows "totps_keyed s' \<and> length (stored_hashes me uid s) = length (stored_hashes me uid s') + (if spends_code uid r then 1 else 0)"
  using assms(1)
proof (cases rule: verify_pending_cases)
  case (completed p row pr m)
  show ?thesis
  proof (cases r)
    case (Inl e)
    then show ?thesis
      using mfa_complete_Inl [of me sd pid "pm_user_id p" m pr s e s'] completed(6) assms(2) by (auto simp: spends_code_def)
  next
    case (Inr ses)
    obtain v a t where body: "complete_second_factor_body pid (second_session sd (pm_user_id p) m) pr s = Inr ((ses, v), t)"
      and s': "s' = t\<lparr>audit := a\<rparr>"
      using completed(6) unfolding Inr by (rule mfa_complete_Inr)
    have ses: "s_user_id ses = pm_user_id p" "s_auth_methods ses = [Pwd, m]"
      using complete_body_session [OF body] by simp_all
    show ?thesis
      using complete_hashes(1) [OF body assms(2) completed(5) assms(3-5)]
        complete_hashes(2) [OF body assms(2) completed(5) assms(3-5), of uid] ses stored_hashes_cong [of s' t me uid]
      by (auto simp: s' spends_code_def Inr totps_keyed_def)
  qed
next
  case (refused e)
  then show ?thesis
    using assms(2) stored_hashes_cong [of s' s me uid] by (simp add: spends_code_def totps_keyed_def)
qed

text \<open>
  Traffic around one user's recovery codes: sign-ins completed with any code and any draws, each reading a
  store \<open>s0\<close> that may be stale, between other work that leaves the user's list alone.  The count is that of
  the sessions the user's recovery codes opened.
\<close>

inductive recovery_traffic :: "mfa_env \<Rightarrow> uuid \<Rightarrow> store \<Rightarrow> nat \<Rightarrow> store \<Rightarrow> bool" for me uid s where
  start: "recovery_traffic me uid s 0 s"
| attempt: "recovery_traffic me uid s n t \<Longrightarrow> length (sd_nonce sd) = NONCE_LEN \<Longrightarrow>
    verify_pending me sd pid code s0 t = (r, t') \<Longrightarrow>
    recovery_traffic me uid s (n + (if spends_code uid r then 1 else 0)) t'"
| elsewhere: "recovery_traffic me uid s n t \<Longrightarrow> totps_keyed t' \<Longrightarrow>
    stored_hashes me uid t' = stored_hashes me uid t \<Longrightarrow> recovery_traffic me uid s n t'"

text \<open>C28: Recovery codes run out.  However sign-ins interleave, and however stale the row each of them read, the
  sessions opened with a user's recovery codes and the codes still stored add up to the codes there were: no
  code opens two sessions, and no more sessions are opened than codes were stored.
\<close>

theorem recovery_codes_run_out:
  assumes "recovery_traffic me uid s n t" "totps_keyed s" "aead_ok (me_aead me)" "codes_json_ok (me_json me)"
  shows "n + length (stored_hashes me uid t) = length (stored_hashes me uid s)"
proof -
  have "totps_keyed t \<and> n + length (stored_hashes me uid t) = length (stored_hashes me uid s)"
    using assms(1)
  proof induction
    case start
    then show ?case
      using assms(2) by simp
  next
    case (attempt n t sd pid code s0 r t')
    then show ?case
      using verify_pending_hashes [OF attempt(3) _ assms(3,4) attempt(2), of uid] by auto
  qed simp
  then show ?thesis
    by simp
qed

section \<open>Enrolment gives a working factor\<close>

lemma hash_codes_Inr:
  "hash_codes pe salt i cs = Inr hs \<Longrightarrow> list_all2 (\<lambda>c h. \<exists>salt. hash_password pe salt c = Inr h) cs hs"
  by (induction pe salt i cs arbitrary: hs rule: hash_codes.induct) (auto split: sum.splits)

lemma generate_codes_length: "generate_codes f bs = Inr cs \<Longrightarrow> length cs = length bs"
  by (induction bs arbitrary: cs) (auto split: sum.splits)

lemma first_match_hashed:
  assumes "password_env_ok pe" "list_all2 (\<lambda>c h. \<exists>salt. hash_password pe salt c = Inr h) cs hs" "c \<in> set cs"
  shows "first_match pe c i hs \<noteq> None"
proof -
  obtain k where k: "k < length cs" "c = cs ! k"
    using assms(3) by (auto simp: in_set_conv_nth)
  then obtain salt where "hash_password pe salt c = Inr (hs ! k)" "k < length hs"
    using list_all2_nthD [OF assms(2) k(1)] list_all2_lengthD [OF assms(2)] by auto
  then obtain h where "h \<in> set hs" "hash_password pe salt c = Inr h"
    using nth_mem by blast
  then have "is_ok (verify_password pe c h)"
    using verify_hashed [OF assms(1), of salt c h c] by simp
  then show ?thesis
    unfolding first_match_None using \<open>h \<in> set hs\<close> by blast
qed

text \<open>What a sealed fresh list of codes holds.\<close>

lemma fresh_codes_Inr:
  assumes "fresh_codes me cd = Inr (plain, sealed)" "aead_ok (me_aead me)" "codes_json_ok (me_json me)"
    and "length (cd_nonce cd) = NONCE_LEN" "ut_recovery_codes_enc row = Some sealed"
  shows "list_all2 (\<lambda>c h. \<exists>salt. hash_password (me_password me) salt c = Inr h) plain (row_hashes me row)"
    and "\<exists>blob. decrypt_recovery_codes (me_aead me) row = Inr (Some blob) \<and> cj_from_slice (me_json me) blob = Some (row_hashes me row)"
    and "length plain = RECOVERY_CODE_COUNT"
proof -
  show "length plain = RECOVERY_CODE_COUNT"
    using assms(1) by (auto simp: fresh_codes_def split: sum.splits option.splits dest!: generate_codes_length)
  obtain hashed blob where h: "hash_codes (me_password me) (cd_salts cd) 0 plain = Inr hashed"
    and b: "cj_to_vec (me_json me) hashed = Some blob" and sl: "seal_recovery_codes (me_aead me) (cd_nonce cd) blob = Inr sealed"
    using assms(1) by (auto simp: fresh_codes_def split: sum.splits option.splits)
  have d: "decrypt_recovery_codes (me_aead me) row = Inr (Some blob)" "cj_from_slice (me_json me) blob = Some hashed"
    using open_seal [OF assms(2,4), of "master_key (me_aead me)" blob RECOVERY_AAD sealed] b sl assms(3,5)
    by (simp_all add: decrypt_recovery_codes_def seal_recovery_codes_def codes_json_ok_def)
  then have "row_hashes me row = hashed"
    by (simp add: row_hashes_def)
  then show "list_all2 (\<lambda>c h. \<exists>salt. hash_password (me_password me) salt c = Inr h) plain (row_hashes me row)"
    "\<exists>blob. decrypt_recovery_codes (me_aead me) row = Inr (Some blob) \<and> cj_from_slice (me_json me) blob = Some (row_hashes me row)"
    using hash_codes_Inr [OF h] d by simp_all
qed

lemma start_enrollment_Inr:
  assumes "start_enrollment me bytes nonce now issuer uid username s = (Inr ticket, s')" "aead_ok (me_aead me)"
    and "length nonce = NONCE_LEN"
  obtains row where "totp_get uid s' = Some row" "\<not> ut_enabled row" "ut_last_used_step row = 0"
    "decrypt_secret (me_aead me) row = Inr (et_secret ticket)"
proof -
  obtain secret enc where enc: "seal (me_aead me) (master_key (me_aead me)) nonce secret TOTP_AAD = Inr enc"
    and t: "et_secret ticket = secret" and s': "user_totps s' = delete_where (\<lambda>t. ut_user_id t = uid) (user_totps s) @
      [\<lparr> ut_user_id = uid, ut_secret_enc = enc, ut_enabled = False, ut_recovery_codes_enc = None,
         ut_last_used_step = 0, ut_created_at = now, ut_confirmed_at = None \<rparr>]"
    using assms(1)
    by (auto simp: start_enrollment_def with_tx_def totp_upsert_pending_def split: if_splits option.splits sum.splits)
  have "totp_get uid s' = Some \<lparr> ut_user_id = uid, ut_secret_enc = enc, ut_enabled = False, ut_recovery_codes_enc = None,
         ut_last_used_step = 0, ut_created_at = now, ut_confirmed_at = None \<rparr>"
    unfolding totp_get_def s' by (subst find_appended) (auto simp: delete_where_def)
  then show thesis
    using open_seal [OF assms(2,3) enc] t that by (simp add: decrypt_secret_def)
qed

lemma confirm_enrollment_Inr:
  assumes "confirm_enrollment me cd now at t uid code s0 s = (Inr plain, s')" "totp_get uid s = totp_get uid s0"
  obtains row secret step sealed where "totp_get uid s0 = Some row" "decrypt_secret (me_aead me) row = Inr secret"
    "totp_verify (me_hmac me) secret (timestamp now) code (ut_last_used_step row) = Some step"
    "fresh_codes me cd = Inr (plain, sealed)"
    "totp_get uid s' = Some (row\<lparr> ut_enabled := True, ut_recovery_codes_enc := Some sealed, ut_confirmed_at := Some t,
        ut_last_used_step := step \<rparr>)"
proof -
  obtain row secret step sealed w where r: "totp_get uid s0 = Some row" "\<not> ut_enabled row"
    "decrypt_secret (me_aead me) row = Inr secret"
    "totp_verify (me_hmac me) secret (timestamp now) code (ut_last_used_step row) = Some step"
    "fresh_codes me cd = Inr (plain, sealed)"
    and run: "confirm_totp_enrollment (me_digest me) at uid sealed step t s = (Inr w, s')"
    using assms(1)
    by (auto simp: confirm_enrollment_def split: if_splits option.splits sum.splits prod.splits)
  obtain v a s1 where body: "confirm_totp_enrollment_body uid sealed step t s = Inr ((w, v), s1)" and s': "s' = s1\<lparr>audit := a\<rparr>"
    using run unfolding confirm_totp_enrollment_def by (rule u12.class_a_success)
  let ?f = "\<lambda>t'. t'\<lparr> ut_enabled := True, ut_recovery_codes_enc := Some sealed, ut_confirmed_at := Some t, ut_last_used_step := step \<rparr>"
  have "s1 = s\<lparr>user_totps := update_where (\<lambda>t. ut_user_id t = uid \<and> \<not> ut_enabled t) ?f (user_totps s)\<rparr>"
    using body by (auto simp: confirm_totp_enrollment_body_def confirm_with_recovery_within_tx_def update_totp_def results)
  then have "totp_get uid s' = totp_get uid (s\<lparr>user_totps := update_where (\<lambda>t. ut_user_id t = uid \<and> \<not> ut_enabled t) ?f (user_totps s)\<rparr>)"
    by (simp add: s' totp_get_def)
  also have "\<dots> = map_option (\<lambda>t. if ut_user_id t = uid \<and> \<not> ut_enabled t then ?f t else t) (totp_get uid s)"
    by (rule totp_get_update) simp
  finally have "totp_get uid s' = Some (?f row)"
    using r(1,2) assms(2) by (auto simp: totp_get_def dest!: find_Some_in)
  then show thesis
    using that r by blast
qed

text \<open>Enrolment gives a working second factor.  When a started enrolment is confirmed, the code typed was that of
  a step within one of the current step under the secret on the ticket, the user's TOTP factor is on with that
  secret sealed in its row and that step spent, and each recovery code that was shown verifies against the
  stored list, which holds one hash per code and counts as many remaining codes.
\<close>

theorem enrolment_gives_working_factor:
  assumes "start_enrollment me bytes nonce now issuer uid username s = (Inr ticket, s1)"
    and "confirm_enrollment me cd now' at t uid code s1 s1 = (Inr plain, s2)"
    and "length nonce = NONCE_LEN" "length (cd_nonce cd) = NONCE_LEN"
    and "aead_ok (me_aead me)" "codes_json_ok (me_json me)" "password_env_ok (me_password me)"
  shows "\<exists>row step. totp_get uid s2 = Some row \<and> is_mfa_enabled uid s2
    \<and> decrypt_secret (me_aead me) row = Inr (et_secret ticket)
    \<and> code_for_step (me_hmac me) (et_secret ticket) step = code \<and> \<bar>step - timestamp now' div STEP_SECS\<bar> \<le> 1
    \<and> ut_last_used_step row = step
    \<and> list_all (\<lambda>c. first_match (me_password me) c 0 (stored_hashes me uid s2) \<noteq> None) plain
    \<and> length plain = RECOVERY_CODE_COUNT \<and> count_recovery_codes_remaining me uid s2 = Inr RECOVERY_CODE_COUNT"
proof -
  obtain pend where p: "totp_get uid s1 = Some pend" "\<not> ut_enabled pend"
    "decrypt_secret (me_aead me) pend = Inr (et_secret ticket)"
    using start_enrollment_Inr [OF assms(1,5,3)] by blast
  obtain secret step sealed where c: "decrypt_secret (me_aead me) pend = Inr secret"
    "totp_verify (me_hmac me) secret (timestamp now') code (ut_last_used_step pend) = Some step"
    "fresh_codes me cd = Inr (plain, sealed)"
    and get: "totp_get uid s2 = Some (pend\<lparr> ut_enabled := True, ut_recovery_codes_enc := Some sealed, ut_confirmed_at := Some t,
        ut_last_used_step := step \<rparr>)" (is "_ = Some ?row")
    by (rule confirm_enrollment_Inr [OF assms(2) refl]) (use p(1) in simp)
  have hashes: "list_all2 (\<lambda>c h. \<exists>salt. hash_password (me_password me) salt c = Inr h) plain (row_hashes me ?row)"
    by (rule fresh_codes_Inr(1) [OF c(3) assms(5,6,4)]) simp
  then have "list_all (\<lambda>c. first_match (me_password me) c 0 (stored_hashes me uid s2) \<noteq> None) plain"
    using first_match_hashed [OF assms(7) hashes] by (simp add: list_all_iff stored_hashes_def get)
  moreover have "decrypt_secret (me_aead me) ?row = Inr (et_secret ticket)"
    using p(3) by (simp add: decrypt_secret_def)
  moreover have "is_mfa_enabled uid s2"
    by (simp add: is_mfa_enabled_def get)
  moreover have "length plain = RECOVERY_CODE_COUNT"
    by (rule fresh_codes_Inr(3) [OF c(3) assms(5,6,4), of ?row]) simp
  moreover from this have "count_recovery_codes_remaining me uid s2 = Inr RECOVERY_CODE_COUNT"
    using list_all2_lengthD [OF hashes] fresh_codes_Inr(2) [OF c(3) assms(5,6,4), of ?row]
    by (auto simp: count_recovery_codes_remaining_def get)
  ultimately show ?thesis
    using get totp_verify_Some [OF c(2)] c(1) p(3) by (intro exI [of _ ?row] exI [of _ step]) simp
qed

section \<open>A concrete environment\<close>

text \<open>A list of strings as one string: each character behind a \<open>c\<close>, each end of a string an \<open>e\<close>.\<close>

definition demo_to_vec :: "string list \<Rightarrow> string" where
  "demo_to_vec hs = concat (map (\<lambda>h. concat (map (\<lambda>c. [CHR ''c'', c]) h) @ ''e'') hs)"

fun demo_from_slice :: "string \<Rightarrow> string \<Rightarrow> string list option" where
  "demo_from_slice cur [] = Some []"
| "demo_from_slice cur (x # xs) =
    (if x = CHR ''e'' then map_option (Cons cur) (demo_from_slice [] xs)
     else (case xs of [] \<Rightarrow> None | c # ys \<Rightarrow> demo_from_slice (cur @ [c]) ys))"

definition demo_codes_json :: codes_json where
  "demo_codes_json = \<lparr> cj_to_vec = (\<lambda>hs. Some (demo_to_vec hs)), cj_from_slice = demo_from_slice [] \<rparr>"

lemma demo_from_word: "demo_from_slice cur (concat (map (\<lambda>c. [CHR ''c'', c]) h) @ CHR ''e'' # rest) =
    map_option (Cons (cur @ h)) (demo_from_slice [] rest)"
  by (induction h arbitrary: cur) simp_all

lemma demo_codes_json_ok: "codes_json_ok demo_codes_json"
proof -
  have "demo_from_slice [] (demo_to_vec hs) = Some hs" for hs
    by (induction hs) (simp_all add: demo_to_vec_def demo_from_word)
  then show ?thesis
    by (auto simp: codes_json_ok_def demo_codes_json_def)
qed

definition demo_mfa_env :: mfa_env where
  "demo_mfa_env = \<lparr> me_digest = demo_env, me_aead = demo_aead, me_password = demo_password, me_hmac = demo_hmac,
     me_json = demo_codes_json, me_base64url = (\<lambda>b. b), me_max_lockout_secs = 172800 \<rparr>"

definition demo_row_codes :: string where
  "demo_row_codes = (case seal_recovery_codes demo_aead (replicate NONCE_LEN CHR ''n'') (demo_to_vec [''x$k1'', ''x$k2'']) of
     Inl e \<Rightarrow> [] | Inr c \<Rightarrow> c)"

definition demo_totp_row :: user_totp_row where
  "demo_totp_row = \<lparr> ut_user_id = ''u1'', ut_secret_enc = [], ut_enabled = True, ut_recovery_codes_enc = Some demo_row_codes,
       ut_last_used_step = 6, ut_created_at = 0, ut_confirmed_at = Some 0 \<rparr>"

definition demo_mfa :: store where
  "demo_mfa = demo_sign_in\<lparr>user_totps := [demo_totp_row]\<rparr>"

definition demo_second_draws :: second_draws where
  "demo_second_draws = \<lparr> sd_check = 1, sd_code_at = 1, sd_fail = 1, sd_now = 1, sd_at = 1, sd_session_id = ''s9'',
     sd_nonce = replicate NONCE_LEN CHR ''n'' \<rparr>"

lemma checked_L02:
  assumes "m < 10 ^ 18"
  shows "checked_attributes (L02_event uid (sf_method p) (int m)) = Inr [(''method'', sf_method p), (''evicted'', dec_int (int m))]"
  using length_dec_int_bound [of 18 "int m"] assms unfolding L02_event_def
  by (cases p) (auto intro!: checked_ok_event simp: attribute_bounds)

lemma second_factor_commits:
  assumes "length (sessions s) < 10 ^ 9 - 1" "List.find (by_user_id (s_user_id session)) (users s) = Some u"
    and "may_sign_in (s_created_at session) u" "s_id session \<notin> s_id ` set (sessions s)"
    and "affected (pending_live pid (s_user_id session) (s_created_at session)) (login_pending_mfas s) \<noteq> 0"
    and "sf_guard (s_user_id session) p
      (s\<lparr>login_pending_mfas := delete_where (pending_live pid (s_user_id session) (s_created_at session)) (login_pending_mfas s)\<rparr>)
      = Inr ((), sg)"
  shows "\<exists>ses s'. complete_second_factor cx at pid session p s = (Inr ses, s')"
proof -
  let ?uid = "s_user_id session" and ?now = "s_created_at session"
  let ?ses = "session\<lparr> s_last_step_up_at := (if sf_fresh p then Some ?now else None) \<rparr>"
  have keep: "users sg = users s" "sessions sg = sessions s"
    using keepsD [where m = "sf_guard ?uid p" and part = users, OF keeps_sf_guard assms(6)]
      keepsD [where m = "sf_guard ?uid p" and part = sessions, OF keeps_sf_guard assms(6)] by simp_all
  have "\<exists>s1. record_password_login_within_tx ?uid ?now sg = Inr ((), s1)"
    using assms(2,3) keep record_password_login_Inr_iff by metis
  then obtain s1 where s1: "record_password_login_within_tx ?uid ?now sg = Inr ((), s1)"
    by blast
  have "sessions s1 = sessions s"
    using s1 keep by (auto simp: record_password_login_Inr_iff)
  then obtain s2 where login: "record_second_factor_login_within_tx ?uid ?now sg = Inr ((), s2)" and s2: "sessions s2 = sessions s"
    using s1 by (simp add: record_second_factor_login_within_tx_def update_user_def)
  obtain s3 where ins: "session_insert_within_tx ?ses s2 = Inr ((), s3)" and s3: "length (sessions s3) < 10 ^ 9"
    using assms(1,4) s2 by (simp add: results)
  obtain s4 where mth: "(if sf_fresh p then set_step_up_method_within_tx (s_id ?ses) (sf_method p) else tx_return ()) s3 = Inr ((), s4)"
    and s4: "length (sessions s4) < 10 ^ 9"
    using s3 by (cases "sf_fresh p") (simp_all add: set_step_up_method_within_tx_def update_sessions_def)
  obtain m t where "evict_over_cap_within_tx ?uid ?now s4 = Inr (int m, t)" and m: "m < 10 ^ 18"
    using s4 by (rule evict_total)
  then have "complete_second_factor_body pid session p s = Inr ((?ses, L02_event ?uid (sf_method p) (int m)), t)"
    using assms(5,6) login ins mth
    by (simp add: complete_second_factor_body_def Let_def pending_mfa_consume_within_tx_def found_or_def tx_bind_def)
  from l02.class_a_commit [OF this checked_L02 [OF m]] show ?thesis
    by (simp add: complete_second_factor_def)
qed

lemma demo_mfa_fields [simp]:
  "me_digest demo_mfa_env = demo_env" "me_aead demo_mfa_env = demo_aead" "me_password demo_mfa_env = demo_password"
  "me_hmac demo_mfa_env = demo_hmac" "me_json demo_mfa_env = demo_codes_json"
  "sd_nonce demo_second_draws = replicate NONCE_LEN CHR ''n''" "sd_now demo_second_draws = 1" "sd_check demo_second_draws = 1"
  "sd_session_id demo_second_draws = ''s9''"
  by (simp_all add: demo_mfa_env_def demo_second_draws_def)

lemma demo_seal_any: "\<exists>c. seal_recovery_codes demo_aead n m = Inr c"
  by (simp add: seal_recovery_codes_def seal_def demo_aead_def)

lemma demo_text: "parse_unsigned 32 (str_trim ''k1'') = None" "str_trim ''k1'' = ''k1''"
  by code_simp+

lemma demo_first: "first_match demo_password ''k1'' 0 [''x$k1'', ''x$k2''] = Some 0"
  by code_simp

lemma demo_row_blob: "decrypt_recovery_codes demo_aead demo_totp_row = Inr (Some (demo_to_vec [''x$k1'', ''x$k2'']))"
proof -
  obtain c where c: "seal_recovery_codes demo_aead (replicate NONCE_LEN CHR ''n'') (demo_to_vec [''x$k1'', ''x$k2'']) = Inr c"
    using demo_seal_any by blast
  then show ?thesis
    using open_seal [OF demo_aead_ok, of "replicate NONCE_LEN CHR ''n''"]
    by (simp add: decrypt_recovery_codes_def demo_totp_row_def demo_row_codes_def seal_recovery_codes_def)
qed

lemma demo_row_list:
  "cj_from_slice demo_codes_json (demo_to_vec hs) = Some hs" "cj_to_vec demo_codes_json hs = Some (demo_to_vec hs)"
  "ut_recovery_codes_enc demo_totp_row = Some demo_row_codes"
  using demo_codes_json_ok by (simp_all add: codes_json_ok_def demo_codes_json_def demo_totp_row_def)

lemma demo_code: "\<exists>new. proof_of_code demo_mfa_env demo_second_draws demo_totp_row ''k1''
    = Inr (Some (SfRecoveryCode demo_row_codes new), RecoveryCode)"
proof -
  obtain c where "seal_recovery_codes demo_aead (replicate NONCE_LEN CHR ''n'') (demo_to_vec [''x$k2'']) = Inr c"
    using demo_seal_any by blast
  then have "match_recovery_code demo_mfa_env (replicate NONCE_LEN CHR ''n'') demo_totp_row ''k1'' = Inr (Some (SfRecoveryCode demo_row_codes c))"
    using demo_row_blob demo_first
    by (simp add: match_recovery_code_def demo_row_list del: first_match.simps)
  then show ?thesis
    using demo_text by (simp add: proof_of_code_def Let_def)
qed

lemma demo_mfa_reads:
  "pending_mfa_get ''p1'' demo_mfa = Some \<lparr> pm_id = ''p1'', pm_user_id = ''u1'', pm_expires_at = seconds 300, pm_created_at = 0 \<rparr>"
  "totp_get ''u1'' demo_mfa = Some demo_totp_row" "ut_enabled demo_totp_row" "totps_keyed demo_mfa" "user_totps demo_mfa = [demo_totp_row]"
  by (simp_all add: pending_mfa_get_def totp_get_def demo_mfa_def demo_totp_row_def totps_keyed_def demo_sign_in_simps)

lemma demo_recovers:
  obtains session s' where "verify_pending demo_mfa_env demo_second_draws ''p1'' ''k1'' demo_mfa demo_mfa = (Inr session, s')"
    "s_user_id session = ''u1''" "s_auth_methods session = [Pwd, RecoveryCode]"
proof -
  obtain new where new: "proof_of_code demo_mfa_env demo_second_draws demo_totp_row ''k1''
    = Inr (Some (SfRecoveryCode demo_row_codes new), RecoveryCode)"
    using demo_code by blast
  let ?ses = "second_session demo_second_draws ''u1'' RecoveryCode"
  let ?live = "pending_live ''p1'' ''u1'' 1"
  have user: "List.find (by_user_id ''u1'') (users demo_mfa) = Some (demo_user ''u1'' User)" "may_sign_in 1 (demo_user ''u1'' User)"
    "length (sessions demo_mfa) < 10 ^ 9 - 1" "''s9'' \<notin> s_id ` set (sessions demo_mfa)"
    by (simp_all add: demo_mfa_def demo_sign_in_simps by_user_id_def may_sign_in_def user_active_def locked_at_def)
  have pend: "affected ?live (login_pending_mfas demo_mfa) \<noteq> 0"
    by (simp add: demo_mfa_def demo_sign_in_simps affected_def pending_live_def seconds_def nanos_def)
  have "\<exists>sg. sf_guard ''u1'' (SfRecoveryCode demo_row_codes new)
      (demo_mfa\<lparr>login_pending_mfas := delete_where ?live (login_pending_mfas demo_mfa)\<rparr>) = Inr ((), sg)"
    using demo_mfa_reads(5)
    by (simp add: swap_recovery_codes_within_tx_def update_totp_def found_or_def affected_def) (simp add: demo_totp_row_def)
  then obtain sg where "sf_guard ''u1'' (SfRecoveryCode demo_row_codes new)
      (demo_mfa\<lparr>login_pending_mfas := delete_where ?live (login_pending_mfas demo_mfa)\<rparr>) = Inr ((), sg)"
    by blast
  then obtain session s' where "mfa_complete demo_mfa_env demo_second_draws ''p1'' ''u1'' RecoveryCode (SfRecoveryCode demo_row_codes new) demo_mfa
      = (Inr session, s')"
    using second_factor_commits [of demo_mfa ?ses "demo_user ''u1'' User" "''p1''" "SfRecoveryCode demo_row_codes new" sg
        demo_env "sd_at demo_second_draws"] user pend
    by (auto simp: mfa_complete_def)
  moreover from this obtain v a t
    where "complete_second_factor_body ''p1'' ?ses (SfRecoveryCode demo_row_codes new) demo_mfa = Inr ((session, v), t)"
    by (rule mfa_complete_Inr)
  then have "session = ?ses\<lparr> s_last_step_up_at := None \<rparr>"
    using complete_body_session by fastforce
  ultimately show thesis
    using that new demo_mfa_reads(1-3) by (simp add: verify_pending_def seconds_def nanos_def)
qed

theorem second_factor_sound_witness:
  "\<exists>session s'. verify_pending demo_mfa_env demo_second_draws ''p1'' ''k1'' demo_mfa demo_mfa = (Inr session, s')
    \<and> (\<exists>pr. code_proves demo_mfa_env demo_second_draws demo_totp_row ''k1'' pr
        \<and> s_auth_methods session = [Pwd, method_of_proof pr] \<and> s_user_id session = ''u1'')"
proof -
  obtain session s' where run: "verify_pending demo_mfa_env demo_second_draws ''p1'' ''k1'' demo_mfa demo_mfa = (Inr session, s')"
    by (rule demo_recovers)
  obtain p row pr where p: "pending_mfa_get ''p1'' demo_mfa = Some p" "totp_get (pm_user_id p) demo_mfa = Some row"
    "code_proves demo_mfa_env demo_second_draws row ''k1'' pr"
    and ses: "session = (second_session demo_second_draws (pm_user_id p) (method_of_proof pr))
        \<lparr> s_last_step_up_at := (case pr of SfTotp step \<Rightarrow> Some (sd_now demo_second_draws) | _ \<Rightarrow> None) \<rparr>"
    using second_factor_sound [OF run] by blast
  have "pm_user_id p = ''u1''" "row = demo_totp_row"
    using p(1,2) demo_mfa_reads(1,2) by auto
  then show ?thesis
    using run p(3) ses by (intro exI [of _ session] exI [of _ s'] conjI exI [of _ pr]) simp_all
qed

theorem recovery_codes_run_out_witness:
  "\<exists>t. recovery_traffic demo_mfa_env ''u1'' demo_mfa 1 t
    \<and> 1 + length (stored_hashes demo_mfa_env ''u1'' t) = length [''x$k1'', ''x$k2'']"
proof -
  obtain session t where run: "verify_pending demo_mfa_env demo_second_draws ''p1'' ''k1'' demo_mfa demo_mfa = (Inr session, t)"
    "s_user_id session = ''u1''" "s_auth_methods session = [Pwd, RecoveryCode]"
    by (rule demo_recovers)
  have "recovery_traffic demo_mfa_env ''u1'' demo_mfa (0 + (if spends_code ''u1'' (Inr session) then 1 else 0)) t"
    by (rule recovery_traffic.attempt [OF recovery_traffic.start _ run(1)]) simp
  then have traffic: "recovery_traffic demo_mfa_env ''u1'' demo_mfa 1 t"
    using run(2,3) by (simp add: spends_code_def)
  have "stored_hashes demo_mfa_env ''u1'' demo_mfa = [''x$k1'', ''x$k2'']"
    using demo_row_blob by (simp add: stored_hashes_def demo_mfa_reads(2) row_hashes_def demo_row_list)
  then show ?thesis
    using traffic recovery_codes_run_out [OF traffic demo_mfa_reads(4)] demo_aead_ok demo_codes_json_ok by auto
qed

definition demo_code_draws :: code_draws where
  "demo_code_draws = \<lparr> cd_bytes = (\<lambda>i. Some ''abcdefghijklmnop''), cd_salts = (\<lambda>i. ''x''), cd_nonce = replicate NONCE_LEN CHR ''n'' \<rparr>"

lemma demo_code_text: "generate_recovery_code (\<lambda>b. b) (Some ''abcdefghijklmnop'') = Inr ''abcde-fghij-klmno''"
  by code_simp

lemma demo_code_at: "totp_verify demo_hmac ''secret'' 60 0 0 = Some 1"
  by code_simp

lemma demo_hash_codes: "hash_codes demo_password (cd_salts demo_code_draws) i cs = Inr (map (\<lambda>c. CHR ''x'' # CHR ''$'' # c) cs)"
  by (induction cs arbitrary: i) (simp_all add: demo_code_draws_def hash_password_def demo_password_def)

lemma demo_generate_codes:
  "generate_codes (me_base64url demo_mfa_env) (map (cd_bytes demo_code_draws) js) = Inr (map (\<lambda>_. ''abcde-fghij-klmno'') js)"
  using demo_code_text by (induction js) (simp_all add: demo_code_draws_def demo_mfa_env_def)

lemma demo_fresh_codes: "\<exists>sealed. fresh_codes demo_mfa_env demo_code_draws = Inr (map (\<lambda>_. ''abcde-fghij-klmno'') [0..<RECOVERY_CODE_COUNT], sealed)"
proof -
  let ?plain = "map (\<lambda>_. ''abcde-fghij-klmno'') [0..<RECOVERY_CODE_COUNT]"
  obtain c where "seal_recovery_codes demo_aead (cd_nonce demo_code_draws) (demo_to_vec (map (\<lambda>c. CHR ''x'' # CHR ''$'' # c) ?plain)) = Inr c"
    using demo_seal_any by blast
  then show ?thesis
    unfolding fresh_codes_def demo_generate_codes by (simp add: demo_hash_codes demo_row_list)
qed

lemma demo_start:
  obtains ticket s1 where "start_enrollment demo_mfa_env (Some ''secret'') (replicate NONCE_LEN CHR ''n'') 0 ''i'' ''u1'' ''u1'' demo_login = (Inr ticket, s1)"
    "et_secret ticket = ''secret''"
proof -
  obtain c where "seal demo_aead (master_key demo_aead) (replicate NONCE_LEN CHR ''n'') ''secret'' TOTP_AAD = Inr c"
    by (simp add: seal_def demo_aead_def)
  then show thesis
    using that
    by (simp add: start_enrollment_def totp_get_def with_tx_def totp_upsert_pending_def demo_login_simps)
qed

lemma demo_confirm:
  assumes "totp_get ''u1'' s = Some row" "\<not> ut_enabled row" "decrypt_secret demo_aead row = Inr ''secret''" "ut_last_used_step row = 0"
  shows "\<exists>plain s'. confirm_enrollment demo_mfa_env demo_code_draws (seconds 60) 0 0 ''u1'' 0 s s = (Inr plain, s')"
proof -
  obtain plain sealed where f: "fresh_codes demo_mfa_env demo_code_draws = Inr (plain, sealed)"
    using demo_fresh_codes by blast
  have t: "timestamp (seconds 60) = 60"
    by (simp add: timestamp_def seconds_def nanos_def)
  have "row \<in> set (user_totps s)" "ut_user_id row = ''u1''"
    using assms(1) by (auto simp: totp_get_def dest!: find_Some_in)
  then have "affected (\<lambda>t. ut_user_id t = ''u1'' \<and> \<not> ut_enabled t) (user_totps s) \<noteq> 0"
    using assms(2) by (auto simp: affected_def filter_empty_conv)
  then obtain s1 where body: "confirm_totp_enrollment_body ''u1'' sealed 1 0 s = Inr (((), factor_added_event ''u1'' AddedTotp), s1)"
    by (simp add: confirm_totp_enrollment_body_def confirm_with_recovery_within_tx_def update_totp_def found_or_def tx_bind_def)
  obtain attrs where "checked_attributes (factor_added_event ''u1'' AddedTotp) = Inr attrs"
    by (simp add: factor_added_event_def checked_ok_event attribute_bounds)
  then show ?thesis
    using u12.class_a_commit [OF body] assms f t demo_code_at by (simp add: confirm_enrollment_def confirm_totp_enrollment_def)
qed

theorem enrolment_gives_working_factor_witness:
  "\<exists>ticket s1 plain s2. start_enrollment demo_mfa_env (Some ''secret'') (replicate NONCE_LEN CHR ''n'') 0 ''i'' ''u1'' ''u1'' demo_login = (Inr ticket, s1)
    \<and> confirm_enrollment demo_mfa_env demo_code_draws (seconds 60) 0 0 ''u1'' 0 s1 s1 = (Inr plain, s2)
    \<and> is_mfa_enabled ''u1'' s2 \<and> count_recovery_codes_remaining demo_mfa_env ''u1'' s2 = Inr 8"
proof -
  obtain ticket s1 where st: "start_enrollment demo_mfa_env (Some ''secret'') (replicate NONCE_LEN CHR ''n'') 0 ''i'' ''u1'' ''u1'' demo_login = (Inr ticket, s1)"
    and sec: "et_secret ticket = ''secret''"
    by (rule demo_start)
  obtain row where "totp_get ''u1'' s1 = Some row" "\<not> ut_enabled row" "ut_last_used_step row = 0"
    "decrypt_secret demo_aead row = Inr ''secret''"
    using start_enrollment_Inr [OF st] demo_aead_ok sec by auto
  then obtain plain s2 where cf: "confirm_enrollment demo_mfa_env demo_code_draws (seconds 60) 0 0 ''u1'' 0 s1 s1 = (Inr plain, s2)"
    using demo_confirm by blast
  have "is_mfa_enabled ''u1'' s2 \<and> count_recovery_codes_remaining demo_mfa_env ''u1'' s2 = Inr 8"
    using enrolment_gives_working_factor [OF st cf] demo_aead_ok demo_codes_json_ok demo_password_ok
    by (auto simp: demo_code_draws_def RECOVERY_CODE_COUNT_def)
  then show ?thesis
    using st cf by blast
qed

end
