(* ===== verification/Passkeys.thy ===== *)
theory Passkeys
  imports Mfa Authorize
begin

text \<open>
  Passkeys: the rest of \<open>repos/user_webauthn_credentials.rs\<close> and \<open>repos/webauthn_pending.rs\<close>, the ceremonies of
  \<open>sui-id-core/src/authn/webauthn.rs\<close>, step-up by passkey (\<open>authn/step_up.rs\<close>) and the sign-in handlers
  (\<open>sui-id/src/http/handlers/admin/webauthn.rs\<close>).  The crate \<open>webauthn-rs\<close> is a parameter: its values are opaque to
  the program and stand here as byte strings, its functions, with serde on its types, are the fields of
  \<open>webauthn_lib\<close>, and the randomness of a challenge is an argument.  As in \<open>Mfa\<close>, \<open>s0\<close> is the store a flow reads
  and \<open>s\<close> the one it writes to; what other connections do between two writes is the argument \<open>other\<close>.
\<close>

section \<open>The library\<close>

type_synonym webauthn = string
type_synonym passkey = string
type_synonym auth_result = string

text \<open>A challenge is given by what serde makes of it.\<close>

record webauthn_lib =
  wl_host_str :: "url \<Rightarrow> string option"
  wl_new :: "string \<Rightarrow> url \<Rightarrow> webauthn option"
  wl_start_registration :: "webauthn \<Rightarrow> string \<Rightarrow> uuid \<Rightarrow> string \<Rightarrow> string \<Rightarrow> string list option \<Rightarrow> (string option \<times> string) option"
  wl_finish_registration :: "webauthn \<Rightarrow> string \<Rightarrow> string \<Rightarrow> passkey option"
  wl_start_authentication :: "webauthn \<Rightarrow> string \<Rightarrow> passkey list \<Rightarrow> string + string option \<times> string"
  wl_finish_authentication :: "webauthn \<Rightarrow> string \<Rightarrow> string \<Rightarrow> auth_result option"
  wl_cred_id :: "passkey \<Rightarrow> string"
  wl_result_cred_id :: "auth_result \<Rightarrow> string"
  wl_update_credential :: "passkey \<Rightarrow> auth_result \<Rightarrow> passkey"
  wl_passkey_to_vec :: "passkey \<Rightarrow> string option"
  wl_passkey_from_slice :: "string \<Rightarrow> passkey option"
  wl_reg_state_to_json :: "string \<Rightarrow> string option"
  wl_reg_state_from_json :: "string \<Rightarrow> string option"
  wl_auth_state_to_json :: "string \<Rightarrow> string option"
  wl_auth_state_from_json :: "string \<Rightarrow> string option"
  wl_credential_from_json :: "string \<Rightarrow> string option"

text \<open>What the program relies on: a passkey is read back as it was written, and updating one keeps its id.\<close>

definition webauthn_lib_ok :: "webauthn_lib \<Rightarrow> bool" where
  "webauthn_lib_ok wl =
    ((\<forall>p blob. wl_passkey_to_vec wl p = Some blob \<longrightarrow> wl_passkey_from_slice wl blob = Some p)
     \<and> (\<forall>p r. wl_cred_id wl (wl_update_credential wl p r) = wl_cred_id wl p))"

text \<open>\<open>Url::host_str\<close> gives an IPv6 address between brackets.\<close>

definition host_str_ok :: "webauthn_lib \<Rightarrow> bool" where
  "host_str_ok wl = (\<forall>u ip. url_host u = Some (HostIpv6 ip) \<longrightarrow> (\<exists>t. wl_host_str wl u = Some (''['' @ t)))"

section \<open>Stored passkeys and ceremonies\<close>

definition PASSKEY_AAD :: string where
  "PASSKEY_AAD = ''sui-id/user_webauthn_credentials/passkey/v1''"

definition passkey_list_for_user :: "uuid \<Rightarrow> store \<Rightarrow> user_webauthn_credential_row list" where
  "passkey_list_for_user uid s = sort_key wc_created_at (filter (\<lambda>c. wc_user_id c = uid) (webauthn_credentials s))"

definition passkey_count_for_user :: "uuid \<Rightarrow> store \<Rightarrow> nat" where
  "passkey_count_for_user uid s = affected (\<lambda>c. wc_user_id c = uid) (webauthn_credentials s)"

definition find_by_credential_id :: "string \<Rightarrow> store \<Rightarrow> user_webauthn_credential_row option" where
  "find_by_credential_id cid s = List.find (\<lambda>c. wc_credential_id c = cid) (webauthn_credentials s)"

definition seal_passkey :: "aead_env \<Rightarrow> string \<Rightarrow> string \<Rightarrow> store_error + string" where
  "seal_passkey ae nonce passkey_json_plain = seal ae (master_key ae) nonce passkey_json_plain PASSKEY_AAD"

definition decrypt_passkey :: "aead_env \<Rightarrow> user_webauthn_credential_row \<Rightarrow> store_error + string" where
  "decrypt_passkey ae row = open_sealed ae (master_key ae) (wc_passkey_enc row) PASSKEY_AAD"

definition update_passkey :: "aead_env \<Rightarrow> string \<Rightarrow> instant \<Rightarrow> uuid \<Rightarrow> string \<Rightarrow> unit tx" where
  "update_passkey ae nonce now wid passkey_json_plain s =
    (case seal_passkey ae nonce passkey_json_plain of
       Inl e \<Rightarrow> Inl e
     | Inr enc \<Rightarrow>
        found_or StoreNotFound (affected (\<lambda>c. wc_id c = wid) (webauthn_credentials s))
          (s\<lparr>webauthn_credentials := update_where (\<lambda>c. wc_id c = wid)
             (\<lambda>c. c\<lparr> wc_passkey_enc := enc, wc_last_used_at := Some now \<rparr>) (webauthn_credentials s)\<rparr>))"

definition webauthn_pending_insert :: "webauthn_pending_row \<Rightarrow> unit tx" where
  "webauthn_pending_insert row s =
    (if list_ex (\<lambda>r. wp_id r = wp_id row) (webauthn_pendings s)
     then Inl (Db ''UNIQUE constraint failed: webauthn_pending.id'')
     else Inr ((), s\<lparr>webauthn_pendings := webauthn_pendings s @ [row]\<rparr>))"

definition webauthn_pending_get :: "uuid \<Rightarrow> store \<Rightarrow> webauthn_pending_row option" where
  "webauthn_pending_get wid s = List.find (\<lambda>r. wp_id r = wid) (webauthn_pendings s)"

definition webauthn_pending_delete :: "uuid \<Rightarrow> unit tx" where
  "webauthn_pending_delete wid s =
    found_or StoreNotFound (affected (\<lambda>r. wp_id r = wid) (webauthn_pendings s))
      (s\<lparr>webauthn_pendings := delete_where (\<lambda>r. wp_id r = wid) (webauthn_pendings s)\<rparr>)"

definition webauthn_pending_purge_expired :: "instant \<Rightarrow> nat tx" where
  "webauthn_pending_purge_expired now s =
    Inr (affected (\<lambda>r. wp_expires_at r < now) (webauthn_pendings s),
      s\<lparr>webauthn_pendings := delete_where (\<lambda>r. wp_expires_at r < now) (webauthn_pendings s)\<rparr>)"

section \<open>The relying party\<close>

definition webauthn_build :: "webauthn_lib \<Rightarrow> web_env \<Rightarrow> string \<Rightarrow> core_error + webauthn" where
  "webauthn_build wl we issuer_url =
    (case url_parse we issuer_url of
       None \<Rightarrow> Inl Internal
     | Some parsed \<Rightarrow>
    (case wl_host_str wl parsed of
       None \<Rightarrow> Inl Internal
     | Some host \<Rightarrow>
        let scheme = url_scheme parsed;
            is_localhost = (host \<in> {''localhost'', ''127.0.0.1'', ''::1''}) in
        if scheme \<noteq> ''https'' \<and> \<not> (scheme = ''http'' \<and> is_localhost)
        then Inl (ConfigError (''WebAuthn requires https, or http on localhost; got '' @ scheme @ ''://'' @ host @ '' ''
          @ [CHR 0xE2, CHR 0x80, CHR 0x94]
          @ '' update server.public_url to an https URL (or use http://localhost for local development)''))
        else
    (case url_parse we (scheme @ ''://'' @ host
        @ (case url_port parsed of None \<Rightarrow> [] | Some port \<Rightarrow> '':'' @ dec (unat port))) of
       None \<Rightarrow> Inl Internal
     | Some origin \<Rightarrow> (case wl_new wl host origin of None \<Rightarrow> Inl Internal | Some w \<Rightarrow> Inr w))))"

record passkey_env =
  pk_lib :: webauthn_lib
  pk_web :: web_env
  pk_digest :: digest_env
  pk_aead :: aead_env

record passkey_draws =
  pd_random :: string
  pd_check :: instant
  pd_now :: instant
  pd_id :: uuid
  pd_nonce :: string
  pd_at :: instant

definition PASSKEY_PENDING_TTL_SECS :: int where
  "PASSKEY_PENDING_TTL_SECS = 5 * 60"

definition pending_ceremony :: "passkey_draws \<Rightarrow> webauthn_pending_kind \<Rightarrow> uuid \<Rightarrow> string \<Rightarrow> webauthn_pending_row" where
  "pending_ceremony pd kind uid state_json =
    \<lparr> wp_id = pd_id pd, wp_kind = kind, wp_user_id = Some uid, wp_state_json = state_json,
      wp_expires_at = pd_now pd + seconds PASSKEY_PENDING_TTL_SECS, wp_created_at = pd_now pd \<rparr>"

text \<open>The end of both starts: the ceremony is stored before the challenge is encoded.\<close>

definition store_ceremony ::
  "passkey_draws \<Rightarrow> webauthn_pending_kind \<Rightarrow> uuid \<Rightarrow> string option \<Rightarrow> string option \<Rightarrow> store \<Rightarrow> (core_error + string \<times> uuid) \<times> store" where
  "store_ceremony pd kind uid state_json challenge s =
    (case state_json of
       None \<Rightarrow> (Inl Internal, s)
     | Some js \<Rightarrow>
    (case with_tx (webauthn_pending_insert (pending_ceremony pd kind uid js)) s of
       (Inl e, s') \<Rightarrow> (Inl (Store e), s')
     | (Inr _, s') \<Rightarrow> (case challenge of None \<Rightarrow> (Inl Internal, s') | Some c \<Rightarrow> (Inr (c, pd_id pd), s'))))"

section \<open>Registration\<close>

definition start_registration ::
  "passkey_env \<Rightarrow> passkey_draws \<Rightarrow> string \<Rightarrow> uuid \<Rightarrow> store \<Rightarrow> store \<Rightarrow> (core_error + string \<times> uuid) \<times> store" where
  "start_registration pk pd issuer_url uid s0 s =
    (case webauthn_build (pk_lib pk) (pk_web pk) issuer_url of
       Inl e \<Rightarrow> (Inl e, s)
     | Inr w \<Rightarrow>
    (case get_user uid s0 of
       Inl StoreNotFound \<Rightarrow> (Inl NotFound, s)
     | Inl e \<Rightarrow> (Inl (Store e), s)
     | Inr user \<Rightarrow>
        let display = (case u_display_name user of Some d \<Rightarrow> d | None \<Rightarrow> u_username user);
            known = map wc_credential_id (passkey_list_for_user uid s0) in
    (case wl_start_registration (pk_lib pk) w (pd_random pd) (u_user_uuid user) (u_username user) display
        (if known = [] then None else Some known) of
       None \<Rightarrow> (Inl Internal, s)
     | Some (ccr, reg_state) \<Rightarrow>
        store_ceremony pd KindRegister uid (wl_reg_state_to_json (pk_lib pk) reg_state) ccr s)))"

definition passkey_row :: "passkey_draws \<Rightarrow> uuid \<Rightarrow> string \<Rightarrow> string \<Rightarrow> string \<Rightarrow> user_webauthn_credential_row" where
  "passkey_row pd uid credential_id sealed nickname =
    \<lparr> wc_id = pd_id pd, wc_user_id = uid, wc_credential_id = credential_id, wc_passkey_enc = sealed,
      wc_nickname = (if str_trim nickname = [] then ''Passkey'' else str_trim nickname),
      wc_created_at = pd_now pd, wc_last_used_at = None \<rparr>"

definition finish_registration ::
  "passkey_env \<Rightarrow> passkey_draws \<Rightarrow> string \<Rightarrow> uuid \<Rightarrow> uuid \<Rightarrow> string \<Rightarrow> string \<Rightarrow> store \<Rightarrow> store
    \<Rightarrow> (core_error + user_webauthn_credential_row) \<times> store" where
  "finish_registration pk pd issuer_url pending_id uid nickname credential s0 s =
    (case webauthn_build (pk_lib pk) (pk_web pk) issuer_url of
       Inl e \<Rightarrow> (Inl e, s)
     | Inr w \<Rightarrow>
    (case webauthn_pending_get pending_id s0 of
       None \<Rightarrow> (Inl Unauthenticated, s)
     | Some pending_row \<Rightarrow>
        if wp_expires_at pending_row < pd_check pd \<or> wp_kind pending_row \<noteq> KindRegister \<or> wp_user_id pending_row \<noteq> Some uid
        then (Inl Unauthenticated, snd (with_tx (webauthn_pending_delete pending_id) s))
        else
    (case wl_reg_state_from_json (pk_lib pk) (wp_state_json pending_row) of
       None \<Rightarrow> (Inl Internal, s)
     | Some reg_state \<Rightarrow>
    (case wl_finish_registration (pk_lib pk) w credential reg_state of
       None \<Rightarrow> (Inl (BadRequest ''WebAuthn registration verification failed''), s)
     | Some pkey \<Rightarrow>
    (case wl_passkey_to_vec (pk_lib pk) pkey of
       None \<Rightarrow> (Inl Internal, s)
     | Some passkey_json \<Rightarrow>
    (case seal_passkey (pk_aead pk) (pd_nonce pd) passkey_json of
       Inl e \<Rightarrow> (Inl (Store e), s)
     | Inr sealed \<Rightarrow>
        let row = passkey_row pd uid (wl_cred_id (pk_lib pk) pkey) sealed nickname in
    (case register_passkey (pk_digest pk) (pd_at pd) row s of
       (Inl e, s') \<Rightarrow> (Inl (Store e), s')
     | (Inr _, s') \<Rightarrow> (Inr row, snd (with_tx (webauthn_pending_delete pending_id) s')))))))))"

section \<open>Authentication\<close>

text \<open>The passkeys of a list of rows, in order, up to the first that does not open or does not parse.\<close>

fun open_passkeys :: "passkey_env \<Rightarrow> user_webauthn_credential_row list \<Rightarrow> store_error option + passkey list" where
  "open_passkeys pk [] = Inr []"
| "open_passkeys pk (c # cs) =
    (case decrypt_passkey (pk_aead pk) c of
       Inl e \<Rightarrow> Inl (Some e)
     | Inr blob \<Rightarrow>
    (case wl_passkey_from_slice (pk_lib pk) blob of
       None \<Rightarrow> Inl None
     | Some p \<Rightarrow> (case open_passkeys pk cs of Inl e \<Rightarrow> Inl e | Inr ps \<Rightarrow> Inr (p # ps))))"

definition start_authentication ::
  "passkey_env \<Rightarrow> passkey_draws \<Rightarrow> string \<Rightarrow> uuid \<Rightarrow> webauthn_pending_kind \<Rightarrow> store \<Rightarrow> store
    \<Rightarrow> (core_error + string \<times> uuid) \<times> store" where
  "start_authentication pk pd issuer_url uid kind s0 s =
    (case webauthn_build (pk_lib pk) (pk_web pk) issuer_url of
       Inl e \<Rightarrow> (Inl e, s)
     | Inr w \<Rightarrow>
        let creds = passkey_list_for_user uid s0 in
        if creds = [] then (Inl (BadRequest ''no WebAuthn credentials enrolled for this user''), s)
        else
    (case open_passkeys pk creds of
       Inl (Some e) \<Rightarrow> (Inl (Store e), s)
     | Inl None \<Rightarrow> (Inl Internal, s)
     | Inr passkeys \<Rightarrow>
    (case wl_start_authentication (pk_lib pk) w (pd_random pd) passkeys of
       Inl _ \<Rightarrow> (Inl Internal, s)
     | Inr (rcr, auth_state) \<Rightarrow> store_ceremony pd kind uid (wl_auth_state_to_json (pk_lib pk) auth_state) rcr s)))"

definition finish_authentication ::
  "passkey_env \<Rightarrow> passkey_draws \<Rightarrow> string \<Rightarrow> uuid \<Rightarrow> uuid \<Rightarrow> webauthn_pending_kind \<Rightarrow> string \<Rightarrow> store \<Rightarrow> store
    \<Rightarrow> (core_error + unit) \<times> store" where
  "finish_authentication pk pd issuer_url pending_id expected_user_id expected_kind credential s0 s =
    (case webauthn_build (pk_lib pk) (pk_web pk) issuer_url of
       Inl e \<Rightarrow> (Inl e, s)
     | Inr w \<Rightarrow>
    (case webauthn_pending_get pending_id s0 of
       None \<Rightarrow> (Inl Unauthenticated, s)
     | Some pending_row \<Rightarrow>
        if wp_kind pending_row \<noteq> expected_kind \<or> wp_user_id pending_row \<noteq> Some expected_user_id then (Inl Unauthenticated, s)
        else if wp_expires_at pending_row < pd_check pd
        then (Inl Unauthenticated, snd (with_tx (webauthn_pending_delete pending_id) s))
        else
    (case wl_auth_state_from_json (pk_lib pk) (wp_state_json pending_row) of
       None \<Rightarrow> (Inl Internal, s)
     | Some auth_state \<Rightarrow>
    (case wl_finish_authentication (pk_lib pk) w credential auth_state of
       None \<Rightarrow> (Inl Unauthenticated, s)
     | Some result \<Rightarrow>
    (case find_by_credential_id (wl_result_cred_id (pk_lib pk) result) s0 of
       None \<Rightarrow> (Inl Unauthenticated, s)
     | Some row \<Rightarrow>
        if wc_user_id row \<noteq> expected_user_id then (Inl Unauthenticated, s)
        else
    (case decrypt_passkey (pk_aead pk) row of
       Inl e \<Rightarrow> (Inl (Store e), s)
     | Inr blob \<Rightarrow>
    (case wl_passkey_from_slice (pk_lib pk) blob of
       None \<Rightarrow> (Inl Internal, s)
     | Some pkey \<Rightarrow>
    (case wl_passkey_to_vec (pk_lib pk) (wl_update_credential (pk_lib pk) pkey result) of
       None \<Rightarrow> (Inl Internal, s)
     | Some new_blob \<Rightarrow>
    (case with_tx (update_passkey (pk_aead pk) (pd_nonce pd) (pd_now pd) (wc_id row) new_blob) s of
       (Inl e, s') \<Rightarrow> (Inl (Store e), s')
     | (Inr _, s') \<Rightarrow>
        (Inr (), if expected_kind \<noteq> KindStepUp then snd (with_tx (webauthn_pending_delete pending_id) s') else s'))))))))))"

section \<open>Management\<close>

definition passkey_delete :: "passkey_env \<Rightarrow> instant \<Rightarrow> uuid \<Rightarrow> uuid \<Rightarrow> store \<Rightarrow> (core_error + unit) \<times> store" where
  "passkey_delete pk at uid wid s =
    (case delete_passkey (pk_digest pk) at uid wid s of
       (Inl StoreNotFound, s') \<Rightarrow> (Inl NotFound, s')
     | (Inl e, s') \<Rightarrow> (Inl (Store e), s')
     | (Inr _, s') \<Rightarrow> (Inr (), s'))"

definition passkey_rename :: "passkey_env \<Rightarrow> instant \<Rightarrow> uuid \<Rightarrow> uuid \<Rightarrow> string \<Rightarrow> store \<Rightarrow> (core_error + unit) \<times> store" where
  "passkey_rename pk at uid wid new_nickname s =
    (case rename_passkey (pk_digest pk) at uid wid new_nickname s of
       (Inl StoreNotFound, s') \<Rightarrow> (Inl NotFound, s')
     | (Inl e, s') \<Rightarrow> (Inl (Store e), s')
     | (Inr _, s') \<Rightarrow> (Inr (), s'))"

record credential_descriptor =
  cd_id :: uuid
  cd_nickname :: string
  cd_created_at :: instant
  cd_last_used_at :: "instant option"

definition passkey_descriptors :: "uuid \<Rightarrow> store \<Rightarrow> credential_descriptor list" where
  "passkey_descriptors uid s =
    map (\<lambda>r. \<lparr> cd_id = wc_id r, cd_nickname = wc_nickname r, cd_created_at = wc_created_at r,
      cd_last_used_at = wc_last_used_at r \<rparr>) (passkey_list_for_user uid s)"

definition has_credentials :: "uuid \<Rightarrow> store \<Rightarrow> bool" where
  "has_credentials uid s = (passkey_count_for_user uid s > 0)"

section \<open>Step-up\<close>

definition start_webauthn_step_up ::
  "passkey_env \<Rightarrow> passkey_draws \<Rightarrow> string \<Rightarrow> uuid \<Rightarrow> store \<Rightarrow> store \<Rightarrow> (core_error + string \<times> uuid) \<times> store" where
  "start_webauthn_step_up pk pd issuer_url uid = start_authentication pk pd issuer_url uid KindStepUp"

text \<open>\<open>step_up::finish_webauthn\<close> on the ceremony of this theory.\<close>

definition passkey_step_up ::
  "passkey_env \<Rightarrow> passkey_draws \<Rightarrow> instant \<Rightarrow> string \<Rightarrow> uuid \<Rightarrow> uuid \<Rightarrow> uuid \<Rightarrow> string \<Rightarrow> string \<Rightarrow> (store \<Rightarrow> store) \<Rightarrow> store \<Rightarrow> store
    \<Rightarrow> (core_error + unit) \<times> store" where
  "passkey_step_up pk pd now issuer_url uid sid pending_id credential_json gate other s0 s =
    finish_webauthn (pk_digest pk) (wl_credential_from_json (pk_lib pk) credential_json \<noteq> None)
      (\<lambda>s. apsnd other (finish_authentication pk pd issuer_url pending_id uid KindStepUp
        (the (wl_credential_from_json (pk_lib pk) credential_json)) s0 s))
      (pd_at pd) now uid sid pending_id gate s"

section \<open>Signing in\<close>

text \<open>
  The handlers behind the rate limit, with what the cookies parse to.  \<open>Refused\<close> is the uniform answer (a redirect to
  the sign-in page) with the error that is logged, if any.  The challenge, which serde has just written, is not parsed
  again for the answer.
\<close>

definition webauthn_auth_start ::
  "passkey_env \<Rightarrow> passkey_draws \<Rightarrow> string \<Rightarrow> bool \<Rightarrow> uuid option \<Rightarrow> store \<Rightarrow> store \<Rightarrow> (core_error + string \<times> uuid) \<times> store" where
  "webauthn_auth_start pk pd issuer csrf_ok pending_mfa s0 s =
    (if \<not> csrf_ok then (Inl Forbidden, s)
     else
    (case pending_mfa of
       None \<Rightarrow> (Inl Unauthenticated, s)
     | Some pid \<Rightarrow>
    (case pending_mfa_get pid s0 of
       None \<Rightarrow> (Inl Unauthenticated, s)
     | Some p \<Rightarrow>
        if pm_expires_at p < pd_check pd then (Inl Unauthenticated, s)
        else start_authentication pk pd issuer (pm_user_id p) KindAuthenticate s0 s)))"

datatype passkey_answer = RateLimited | Refused "core_error option" | SignedInAs session_row

definition webauthn_auth_complete ::
  "passkey_env \<Rightarrow> mfa_env \<Rightarrow> passkey_draws \<Rightarrow> second_draws \<Rightarrow> string \<Rightarrow> bool \<Rightarrow> bool \<Rightarrow> uuid option \<Rightarrow> uuid option \<Rightarrow> string
    \<Rightarrow> (store \<Rightarrow> store) \<Rightarrow> store \<Rightarrow> store \<Rightarrow> passkey_answer \<times> store" where
  "webauthn_auth_complete pk me pd sd issuer limited csrf_ok pending_mfa ceremony credential_json other s0 s =
    (if limited then (RateLimited, s)
     else if \<not> csrf_ok then (Refused None, s)
     else
    (case pending_mfa of
       None \<Rightarrow> (Refused None, s)
     | Some pending_mfa_id \<Rightarrow>
    (case ceremony of
       None \<Rightarrow> (Refused None, s)
     | Some webauthn_pending_id \<Rightarrow>
    (case pending_mfa_get pending_mfa_id s0 of
       None \<Rightarrow> (Refused None, s)
     | Some p \<Rightarrow>
        if pm_expires_at p < sd_check sd then (Refused None, s)
        else
    (case wl_credential_from_json (pk_lib pk) credential_json of
       None \<Rightarrow> (Refused None, s)
     | Some credential \<Rightarrow>
    (case finish_authentication pk pd issuer webauthn_pending_id (pm_user_id p) KindAuthenticate credential s0 s of
       (Inl (Store e), s') \<Rightarrow> (Refused (Some (Store e)), s')
     | (Inl Internal, s') \<Rightarrow> (Refused (Some Internal), s')
     | (Inl _, s') \<Rightarrow>
        (case count_second_factor_failure me sd (pm_user_id p) (other s') of
           (Inl e, s'') \<Rightarrow> (Refused (Some e), s'')
         | (Inr _, s'') \<Rightarrow> (Refused None, s''))
     | (Inr _, s') \<Rightarrow>
        (case verify_pending_webauthn me sd pending_mfa_id (pm_user_id p) (other s') of
           (Inr session, s'') \<Rightarrow> (SignedInAs session, s'')
         | (Inl Unauthenticated, s'') \<Rightarrow> (Refused None, s'')
         | (Inl e, s'') \<Rightarrow> (Refused (Some e), s''))))))))"


section \<open>What a finished ceremony proves\<close>

text \<open>The browser's assertion answers a ceremony of this kind that this user began, with a passkey of this user.\<close>

definition verified_assertion ::
  "passkey_env \<Rightarrow> string \<Rightarrow> uuid \<Rightarrow> uuid \<Rightarrow> webauthn_pending_kind \<Rightarrow> instant \<Rightarrow> string \<Rightarrow> store \<Rightarrow> bool" where
  "verified_assertion pk issuer_url wid uid kind check credential s0 =
    (\<exists>w c st res row. webauthn_build (pk_lib pk) (pk_web pk) issuer_url = Inr w
      \<and> webauthn_pending_get wid s0 = Some c \<and> wp_kind c = kind \<and> wp_user_id c = Some uid \<and> check \<le> wp_expires_at c
      \<and> wl_auth_state_from_json (pk_lib pk) (wp_state_json c) = Some st
      \<and> wl_finish_authentication (pk_lib pk) w credential st = Some res
      \<and> find_by_credential_id (wl_result_cred_id (pk_lib pk) res) s0 = Some row \<and> wc_user_id row = uid)"

lemma same_pendings: "\<exists>x. s = s\<lparr>webauthn_pendings := x\<rparr>"
  by (rule exI [of _ "webauthn_pendings s"]) simp

lemma webauthn_pending_delete_store:
  "\<exists>x. snd (with_tx (webauthn_pending_delete wid) s) = s\<lparr>webauthn_pendings := x\<rparr>"
  using same_pendings [of s] by (auto simp: with_tx_def webauthn_pending_delete_def found_or_def)

text \<open>The new row of the passkey: its old blob with the counter of the assertion, resealed.\<close>

definition advanced_passkey :: "passkey_env \<Rightarrow> passkey_draws \<Rightarrow> uuid \<Rightarrow> store \<Rightarrow> store \<Rightarrow> store \<Rightarrow> bool" where
  "advanced_passkey pk pd uid s0 s s' =
    (\<exists>row blob pkey res new_blob enc x. row \<in> set (webauthn_credentials s0) \<and> wc_user_id row = uid
      \<and> decrypt_passkey (pk_aead pk) row = Inr blob \<and> wl_passkey_from_slice (pk_lib pk) blob = Some pkey
      \<and> wl_passkey_to_vec (pk_lib pk) (wl_update_credential (pk_lib pk) pkey res) = Some new_blob
      \<and> seal_passkey (pk_aead pk) (pd_nonce pd) new_blob = Inr enc
      \<and> s' = s\<lparr>webauthn_credentials := update_where (\<lambda>c. wc_id c = wc_id row)
          (\<lambda>c. c\<lparr> wc_passkey_enc := enc, wc_last_used_at := Some (pd_now pd) \<rparr>) (webauthn_credentials s),
          webauthn_pendings := x\<rparr>)"

lemma finish_authentication_cases:
  assumes "finish_authentication pk pd issuer_url wid uid kind credential s0 s = (r, s')"
  obtains (verified) "r = Inr ()" "verified_assertion pk issuer_url wid uid kind (pd_check pd) credential s0"
      "advanced_passkey pk pd uid s0 s s'"
  | (refused) e x where "r = Inl e" "s' = s\<lparr>webauthn_pendings := x\<rparr>"
proof (cases "\<exists>e. r = Inl e")
  case True
  then obtain e where "r = Inl e"
    by blast
  moreover have "\<exists>x. s' = s\<lparr>webauthn_pendings := x\<rparr>"
  proof -
    obtain x where "snd (with_tx (webauthn_pending_delete wid) s) = s\<lparr>webauthn_pendings := x\<rparr>"
      using webauthn_pending_delete_store by blast
    then have "s' = s \<or> s' = s\<lparr>webauthn_pendings := x\<rparr>"
      using assms \<open>r = Inl e\<close> by (auto simp: finish_authentication_def with_tx_Inl_iff split: sum.splits option.splits if_splits prod.splits)
    then show ?thesis
      using same_pendings [of s] by blast
  qed
  ultimately show thesis
    using refused by blast
next
  case False
  then have r: "r = Inr ()"
    by (cases r) auto
  obtain w c st res row blob pkey new_blob t where
    v: "webauthn_build (pk_lib pk) (pk_web pk) issuer_url = Inr w" "webauthn_pending_get wid s0 = Some c"
      "wp_kind c = kind" "wp_user_id c = Some uid" "pd_check pd \<le> wp_expires_at c"
      "wl_auth_state_from_json (pk_lib pk) (wp_state_json c) = Some st"
      "wl_finish_authentication (pk_lib pk) w credential st = Some res"
      "find_by_credential_id (wl_result_cred_id (pk_lib pk) res) s0 = Some row" "wc_user_id row = uid"
    and p: "decrypt_passkey (pk_aead pk) row = Inr blob" "wl_passkey_from_slice (pk_lib pk) blob = Some pkey"
      "wl_passkey_to_vec (pk_lib pk) (wl_update_credential (pk_lib pk) pkey res) = Some new_blob"
      "with_tx (update_passkey (pk_aead pk) (pd_nonce pd) (pd_now pd) (wc_id row) new_blob) s = (Inr (), t)"
    and s': "s' = (if kind \<noteq> KindStepUp then snd (with_tx (webauthn_pending_delete wid) t) else t)"
    using assms unfolding r finish_authentication_def
    by (auto simp: not_less split: sum.splits option.splits if_splits prod.splits)
  have "row \<in> set (webauthn_credentials s0)"
    using v(8) find_Some_in by (fastforce simp: find_by_credential_id_def)
  moreover obtain x where "snd (with_tx (webauthn_pending_delete wid) t) = t\<lparr>webauthn_pendings := x\<rparr>"
    using webauthn_pending_delete_store by blast
  then have "\<exists>x. s' = t\<lparr>webauthn_pendings := x\<rparr>"
    using same_pendings [of t] unfolding s' by (cases "kind \<noteq> KindStepUp") auto
  moreover obtain enc where "seal_passkey (pk_aead pk) (pd_nonce pd) new_blob = Inr enc"
    "t = s\<lparr>webauthn_credentials := update_where (\<lambda>c. wc_id c = wc_id row)
          (\<lambda>c. c\<lparr> wc_passkey_enc := enc, wc_last_used_at := Some (pd_now pd) \<rparr>) (webauthn_credentials s)\<rparr>"
    using p(4) by (auto simp: results update_passkey_def split: sum.splits)
  ultimately have "advanced_passkey pk pd uid s0 s s'"
    using v(9) p(1-3) unfolding advanced_passkey_def by fastforce
  moreover have "verified_assertion pk issuer_url wid uid kind (pd_check pd) credential s0"
    using v unfolding verified_assertion_def by blast
  ultimately show thesis
    using verified r by blast
qed


section \<open>Signing in and stepping up\<close>

lemma verified_assertion_Inr:
  assumes "finish_authentication pk pd issuer_url wid uid kind credential s0 s = (Inr u, s')"
  shows "verified_assertion pk issuer_url wid uid kind (pd_check pd) credential s0"
  using assms by (cases rule: finish_authentication_cases) simp_all

text \<open>C13: A passkey sign-in is complete.  When the handler answers with a session, the pending sign-in of the cookie had
  not expired when it was read and was still live when the session was committed; the ceremony of the other cookie was
  begun for signing in by the same user and had not expired; the library accepted the browser's assertion for the
  state of exactly that ceremony, with a passkey registered to that user; and the user may sign in at that moment.
  The session is this user's, of password and passkey, and counts as stepped up.\<close>

theorem passkey_sign_in_sound:
  assumes "webauthn_auth_complete pk me pd sd issuer limited csrf_ok pending_mfa ceremony credential_json other s0 s
      = (SignedInAs session, s')"
  shows "\<not> limited \<and> csrf_ok \<and> (\<exists>pid wid p credential u s1. pending_mfa = Some pid \<and> ceremony = Some wid
    \<and> pending_mfa_get pid s0 = Some p \<and> sd_check sd \<le> pm_expires_at p
    \<and> wl_credential_from_json (pk_lib pk) credential_json = Some credential
    \<and> verified_assertion pk issuer wid (pm_user_id p) KindAuthenticate (pd_check pd) credential s0
    \<and> advanced_passkey pk pd (pm_user_id p) s0 s s1
    \<and> (\<exists>r \<in> set (login_pending_mfas (other s1)). pending_live pid (pm_user_id p) (sd_now sd) r)
    \<and> List.find (by_user_id (pm_user_id p)) (users (other s1)) = Some u \<and> may_sign_in (sd_now sd) u
    \<and> session = (second_session sd (pm_user_id p) Webauthn)\<lparr> s_last_step_up_at := Some (sd_now sd) \<rparr>)"
proof -
  obtain pid wid p credential s1 v where h: "\<not> limited" "csrf_ok" "pending_mfa = Some pid" "ceremony = Some wid"
    "pending_mfa_get pid s0 = Some p" "sd_check sd \<le> pm_expires_at p"
    "wl_credential_from_json (pk_lib pk) credential_json = Some credential"
    and fin: "finish_authentication pk pd issuer wid (pm_user_id p) KindAuthenticate credential s0 s = (Inr v, s1)"
    and ses: "verify_pending_webauthn me sd pid (pm_user_id p) (other s1) = (Inr session, s')"
    using assms unfolding webauthn_auth_complete_def
    by (auto simp: not_less split: sum.splits option.splits if_splits prod.splits core_error.splits)
  have adv: "advanced_passkey pk pd (pm_user_id p) s0 s s1"
    using fin by (cases rule: finish_authentication_cases) simp_all
  obtain x a t where body: "complete_second_factor_body pid (second_session sd (pm_user_id p) Webauthn) SfWebauthn (other s1)
      = Inr ((session, x), t)" "s' = t\<lparr>audit := a\<rparr>"
    using ses unfolding verify_pending_webauthn_def by (rule mfa_complete_Inr)
  obtain u where "\<exists>r \<in> set (login_pending_mfas (other s1)). pending_live pid (pm_user_id p) (sd_now sd) r"
    "List.find (by_user_id (pm_user_id p)) (users (other s1)) = Some u" "may_sign_in (sd_now sd) u"
    using body(1) by (rule second_factor_body_success) simp
  moreover have "session = (second_session sd (pm_user_id p) Webauthn)\<lparr> s_last_step_up_at := Some (sd_now sd) \<rparr>"
    using complete_body_session [OF body(1)] by simp
  ultimately show ?thesis
    using h verified_assertion_Inr [OF fin] adv by blast
qed

text \<open>C14: A step-up by passkey is bound to its ceremony and to its session.  When it succeeds, the library accepted the
  assertion for a ceremony the user had begun to step up, unexpired, with a passkey of the user; the ceremony was
  still there when the command ran and is spent by it; the session was a live one of the user and is marked as
  stepped up at that moment.  A ceremony begun for signing in never steps up a session.\<close>

theorem passkey_step_up_sound:
  assumes "passkey_step_up pk pd now issuer_url uid sid wid credential_json gate other s0 s = (Inr u, s')"
  shows "\<exists>credential s1. wl_credential_from_json (pk_lib pk) credential_json = Some credential
    \<and> verified_assertion pk issuer_url wid uid KindStepUp (pd_check pd) credential s0
    \<and> advanced_passkey pk pd uid s0 s s1
    \<and> session_live sid uid now (other s1)
    \<and> (\<exists>r \<in> set (webauthn_pendings (other s1)). ceremony_live wid uid now r)
    \<and> \<not> (\<exists>r \<in> set (webauthn_pendings s'). ceremony_live wid uid now r)
    \<and> (\<exists>r \<in> set (sessions s'). s_id r = sid \<and> s_last_step_up_at r = Some now)"
proof -
  obtain credential s1 v where cred: "wl_credential_from_json (pk_lib pk) credential_json = Some credential"
    and fin: "finish_authentication pk pd issuer_url wid uid KindStepUp credential s0 s = (Inr v, s1)"
    and com: "step_up_complete (pk_digest pk) (pd_at pd) now uid sid (SuWebauthn wid) gate (other s1) = (Inr u, s')"
    using assms unfolding passkey_step_up_def finish_webauthn_def
    by (auto simp: apsnd_def map_prod_def split: sum.splits option.splits if_splits prod.splits core_error.splits)
  have "complete_step_up (pk_digest pk) (pd_at pd) uid sid (SuWebauthn wid) gate now (other s1) = (Inr (), s')"
    using com by (auto simp: step_up_complete_def split: sum.splits prod.splits store_error.splits)
  then obtain ev t a where body: "complete_step_up_body uid sid (SuWebauthn wid) gate now (other s1) = Inr (((), ev), t)"
    and s': "s' = t\<lparr>audit := a\<rparr>"
    unfolding complete_step_up_def by (rule l05.class_a_success) (metis unit.exhaust)
  have live: "session_live sid uid now (other s1)" "\<exists>r \<in> set (webauthn_pendings (other s1)). ceremony_live wid uid now r"
    using body by (auto simp: complete_step_up_body_def require_live_session_within_tx_def results split: if_splits)
  have "webauthn_pendings t = delete_where (ceremony_live wid uid now) (webauthn_pendings (other s1))"
    "sessions t = update_where (by_session_id sid) (\<lambda>r. r\<lparr> s_last_step_up_at := Some now,
        s_last_step_up_method := Some ''webauthn'', s_step_up_failure_count := 0 \<rparr>) (sessions (other s1))"
    using body by (auto simp: complete_step_up_body_def require_live_session_within_tx_def record_step_up_within_tx_def
        update_sessions_def results split: if_splits)
  moreover obtain r where r: "r \<in> set (sessions (other s1))" "by_session_id sid r"
    using live(1) find_Some_in by (fastforce simp: session_live_def get_with_user_active_def split: sum.splits option.splits)
  ultimately have "\<not> (\<exists>r \<in> set (webauthn_pendings s'). ceremony_live wid uid now r)"
    "r\<lparr> s_last_step_up_at := Some now, s_last_step_up_method := Some ''webauthn'', s_step_up_failure_count := 0 \<rparr> \<in> set (sessions s')"
    using image_eqI [OF _ r(1)] r(2) by (auto simp: s' delete_where_def set_update_where)
  then have "\<not> (\<exists>r \<in> set (webauthn_pendings s'). ceremony_live wid uid now r)"
    "\<exists>r \<in> set (sessions s'). s_id r = sid \<and> s_last_step_up_at r = Some now"
    using r(2) by (blast, intro bexI) (auto simp: by_session_id_def)
  moreover have "advanced_passkey pk pd uid s0 s s1"
    using fin by (cases rule: finish_authentication_cases) simp_all
  ultimately show ?thesis
    using cred verified_assertion_Inr [OF fin] live by blast
qed

section \<open>The transport rule\<close>

text \<open>C37: Over plain HTTP the ceremonies run on no IPv6 address.  The documented exceptions to HTTPS are \<open>localhost\<close>,
  \<open>127.0.0.1\<close> and \<open>::1\<close>; but the host of an IPv6 URL is written between brackets and is compared with \<open>::1\<close>
  without them, so an issuer on \<open>http://[::1]\<close> is refused like any other.\<close>

theorem ipv6_loopback_refused:
  assumes "host_str_ok wl" "url_parse we issuer_url = Some u" "url_scheme u = ''http''" "url_host u = Some (HostIpv6 1)"
  shows "\<exists>t. webauthn_build wl we issuer_url = Inl (ConfigError t)"
proof -
  obtain t where "wl_host_str wl u = Some (''['' @ t)"
    using assms(1,4) by (auto simp: host_str_ok_def)
  then show ?thesis
    using assms(2,3) by (simp add: webauthn_build_def)
qed


section \<open>Passkeys stay readable\<close>

definition passkey_ok :: "passkey_env \<Rightarrow> user_webauthn_credential_row \<Rightarrow> bool" where
  "passkey_ok pk c =
    (\<exists>blob p. decrypt_passkey (pk_aead pk) c = Inr blob \<and> wl_passkey_from_slice (pk_lib pk) blob = Some p
      \<and> wl_cred_id (pk_lib pk) p = wc_credential_id c)"

text \<open>
  A history of the table of passkeys, latest store first.  A flow may read any store there has been and writes to the
  latest; the id of a new row is fresh, and a nonce has its length.  \<open>other\<close> is everything that at most removes rows, such as a reset by an administrator.
\<close>

inductive passkey_history :: "passkey_env \<Rightarrow> store list \<Rightarrow> bool" for pk where
  empty: "webauthn_credentials s = [] \<Longrightarrow> passkey_history pk [s]"
| registered: "\<lbrakk> passkey_history pk (s # h); s0 \<in> set (s # h); length (pd_nonce pd) = NONCE_LEN;
    \<And>t. t \<in> set (s # h) \<Longrightarrow> pd_id pd \<notin> wc_id ` set (webauthn_credentials t);
    finish_registration pk pd issuer wid uid nickname credential s0 s = (r, s') \<rbrakk> \<Longrightarrow> passkey_history pk (s' # s # h)"
| authenticated: "\<lbrakk> passkey_history pk (s # h); s0 \<in> set (s # h); length (pd_nonce pd) = NONCE_LEN;
    finish_authentication pk pd issuer wid uid kind credential s0 s = (r, s') \<rbrakk> \<Longrightarrow> passkey_history pk (s' # s # h)"
| deleted: "\<lbrakk> passkey_history pk (s # h); passkey_delete pk at uid wid s = (r, s') \<rbrakk> \<Longrightarrow> passkey_history pk (s' # s # h)"
| renamed: "\<lbrakk> passkey_history pk (s # h); passkey_rename pk at uid wid nickname s = (r, s') \<rbrakk> \<Longrightarrow> passkey_history pk (s' # s # h)"
| other: "\<lbrakk> passkey_history pk (s # h); set (webauthn_credentials s') \<subseteq> set (webauthn_credentials s) \<rbrakk> \<Longrightarrow> passkey_history pk (s' # s # h)"

text \<open>The invariant: every passkey there has been could be read, and an id always named the same credential.\<close>

definition passkey_rows :: "store list \<Rightarrow> user_webauthn_credential_row set" where
  "passkey_rows h = (\<Union>t \<in> set h. set (webauthn_credentials t))"

definition passkeys_ok :: "passkey_env \<Rightarrow> user_webauthn_credential_row set \<Rightarrow> bool" where
  "passkeys_ok pk R =
    ((\<forall>c \<in> R. passkey_ok pk c) \<and> (\<forall>c \<in> R. \<forall>c' \<in> R. wc_id c = wc_id c' \<longrightarrow> wc_credential_id c = wc_credential_id c'))"

lemma passkeys_ok_row: "passkeys_ok pk R \<Longrightarrow> c \<in> R \<Longrightarrow> passkey_ok pk c"
  unfolding passkeys_ok_def by blast

lemma passkeys_ok_id:
  "passkeys_ok pk R \<Longrightarrow> c \<in> R \<Longrightarrow> c' \<in> R \<Longrightarrow> wc_id c = wc_id c' \<Longrightarrow> wc_credential_id c = wc_credential_id c'"
  unfolding passkeys_ok_def by blast

lemma passkeys_okI:
  assumes "\<And>c. c \<in> R \<Longrightarrow> passkey_ok pk c"
    and "\<And>c c'. c \<in> R \<Longrightarrow> c' \<in> R \<Longrightarrow> wc_id c = wc_id c' \<Longrightarrow> wc_credential_id c = wc_credential_id c'"
  shows "passkeys_ok pk R"
  unfolding passkeys_ok_def using assms by blast

lemma passkeys_ok_extend:
  assumes "passkeys_ok pk R" "\<And>c. c \<in> R' \<Longrightarrow> passkey_ok pk c"
    and "\<And>c. c \<in> R' \<Longrightarrow> \<exists>c0 \<in> R. wc_id c = wc_id c0 \<and> wc_credential_id c = wc_credential_id c0"
  shows "passkeys_ok pk (R' \<union> R)"
proof -
  have origin: "\<exists>c0 \<in> R. wc_id c = wc_id c0 \<and> wc_credential_id c = wc_credential_id c0" if "c \<in> R' \<union> R" for c
    using that assms(3) by blast
  have "wc_credential_id c = wc_credential_id c'" if rows: "c \<in> R' \<union> R" "c' \<in> R' \<union> R" "wc_id c = wc_id c'" for c c'
  proof -
    obtain c0 c1 where "c0 \<in> R" "wc_id c = wc_id c0" "wc_credential_id c = wc_credential_id c0"
      "c1 \<in> R" "wc_id c' = wc_id c1" "wc_credential_id c' = wc_credential_id c1"
      using origin [OF rows(1)] origin [OF rows(2)] by blast
    then show ?thesis
      using passkeys_ok_id [OF assms(1), of c0 c1] rows(3) by simp
  qed
  moreover have "passkey_ok pk c" if "c \<in> R' \<union> R" for c
    using that assms(2) passkeys_ok_row [OF assms(1)] by blast
  ultimately show ?thesis
    by (intro passkeys_okI)
qed

lemma passkeys_ok_fresh:
  assumes "passkeys_ok pk R" "passkey_ok pk c" "wc_id c \<notin> wc_id ` R"
  shows "passkeys_ok pk (insert c R)"
proof (rule passkeys_okI)
  show "passkey_ok pk d" if "d \<in> insert c R" for d
    using that assms(2) passkeys_ok_row [OF assms(1)] by blast
  show "wc_credential_id d = wc_credential_id d'" if "d \<in> insert c R" "d' \<in> insert c R" "wc_id d = wc_id d'" for d d'
  proof (cases "d = d'")
    case False
    have "d \<in> R" "d' \<in> R"
      using False that assms(3) imageI [of d R wc_id] imageI [of d' R wc_id] by auto
    then show ?thesis
      using passkeys_ok_id [OF assms(1)] that(3) by blast
  qed simp
qed

lemma sealed_passkey_ok:
  assumes "webauthn_lib_ok (pk_lib pk)" "aead_ok (pk_aead pk)" "length nonce = NONCE_LEN"
    and "wl_passkey_to_vec (pk_lib pk) p = Some blob" "seal_passkey (pk_aead pk) nonce blob = Inr enc"
    and "wc_passkey_enc c = enc" "wc_credential_id c = wl_cred_id (pk_lib pk) p"
  shows "passkey_ok pk c"
  using assms open_seal [OF assms(2,3)] by (auto simp: passkey_ok_def decrypt_passkey_def seal_passkey_def webauthn_lib_ok_def)

lemma finish_registration_cases:
  assumes "finish_registration pk pd issuer wid uid nickname credential s0 s = (r, s')"
  obtains (same) "webauthn_credentials s' = webauthn_credentials s" "\<And>row. r \<noteq> Inr row"
  | (added) p blob enc where "wl_passkey_to_vec (pk_lib pk) p = Some blob" "seal_passkey (pk_aead pk) (pd_nonce pd) blob = Inr enc"
      "webauthn_credentials s' = webauthn_credentials s @ [passkey_row pd uid (wl_cred_id (pk_lib pk) p) enc nickname]"
      "r = Inr (passkey_row pd uid (wl_cred_id (pk_lib pk) p) enc nickname)"
proof -
  have drop: "webauthn_credentials (snd (with_tx (webauthn_pending_delete wid) t)) = webauthn_credentials t" for t
    using webauthn_pending_delete_store [of wid t] by auto
  have reg_err: "register_passkey (pk_digest pk) (pd_at pd) row s = (Inl e, t) \<Longrightarrow> t = s" for row e t
    unfolding register_passkey_def using u15.class_a_error by blast
  have reg: "webauthn_credentials t = webauthn_credentials s @ [row]"
    if run: "register_passkey (pk_digest pk) (pd_at pd) row s = (Inr u, t)" for row u t
    using run unfolding register_passkey_def
    by (rule u15.class_a_success) (auto simp: register_passkey_body_def webauthn_create_within_tx_def results split: if_splits)
  show thesis
  proof (cases "\<exists>row. r = Inr row")
    case False
    then have "webauthn_credentials s' = webauthn_credentials s"
      using assms by (auto simp: finish_registration_def drop Let_def dest: reg_err split: sum.splits option.splits if_splits prod.splits)
    then show thesis
      using False by (intro same) blast+
  next
    case True
    then obtain row where r: "r = Inr row"
      by blast
    obtain p blob enc t u where "wl_passkey_to_vec (pk_lib pk) p = Some blob" "seal_passkey (pk_aead pk) (pd_nonce pd) blob = Inr enc"
      "row = passkey_row pd uid (wl_cred_id (pk_lib pk) p) enc nickname"
      "register_passkey (pk_digest pk) (pd_at pd) row s = (Inr u, t)" "s' = snd (with_tx (webauthn_pending_delete wid) t)"
      using assms unfolding r finish_registration_def Let_def
      by (auto split: sum.splits option.splits if_splits prod.splits)
    then show thesis
      using added r drop reg by metis
  qed
qed


lemma passkey_rows_Cons: "passkey_rows (s # h) = set (webauthn_credentials s) \<union> passkey_rows h"
  by (simp add: passkey_rows_def)

text \<open>Rows of the latest store, up to what says nothing about the passkey.\<close>

lemma passkeys_ok_same:
  assumes "passkeys_ok pk (passkey_rows (s # h))"
    and "\<And>c. c \<in> set (webauthn_credentials s') \<Longrightarrow> \<exists>c0 \<in> set (webauthn_credentials s). wc_id c = wc_id c0
      \<and> wc_credential_id c = wc_credential_id c0 \<and> wc_passkey_enc c = wc_passkey_enc c0"
  shows "passkeys_ok pk (passkey_rows (s' # s # h))"
proof -
  have "passkey_ok pk c \<and> (\<exists>c0 \<in> passkey_rows (s # h). wc_id c = wc_id c0 \<and> wc_credential_id c = wc_credential_id c0)"
    if c: "c \<in> set (webauthn_credentials s')" for c
  proof -
    obtain c0 where "c0 \<in> passkey_rows (s # h)" "wc_id c = wc_id c0" "wc_credential_id c = wc_credential_id c0"
      "wc_passkey_enc c = wc_passkey_enc c0"
      using assms(2) [OF c] by (auto simp: passkey_rows_Cons)
    then show ?thesis
      using passkeys_ok_row [OF assms(1), of c0] by (auto simp: passkey_ok_def decrypt_passkey_def)
  qed
  then show ?thesis
    using passkeys_ok_extend [OF assms(1), of "set (webauthn_credentials s')"] by (simp add: passkey_rows_Cons [of s'])
qed

lemma authenticated_passkeys_ok:
  assumes "webauthn_lib_ok (pk_lib pk)" "aead_ok (pk_aead pk)" "length (pd_nonce pd) = NONCE_LEN"
    and "passkeys_ok pk (passkey_rows (s # h))" "s0 \<in> set (s # h)" "advanced_passkey pk pd uid s0 s s'"
  shows "passkeys_ok pk (passkey_rows (s' # s # h))"
proof -
  let ?R = "passkey_rows (s # h)"
  obtain row blob pkey res new_blob enc x where row0: "row \<in> set (webauthn_credentials s0)" and row1: "decrypt_passkey (pk_aead pk) row = Inr blob"
      "wl_passkey_from_slice (pk_lib pk) blob = Some pkey"
    and new: "wl_passkey_to_vec (pk_lib pk) (wl_update_credential (pk_lib pk) pkey res) = Some new_blob"
      "seal_passkey (pk_aead pk) (pd_nonce pd) new_blob = Inr enc"
    and upd: "s' = s\<lparr>webauthn_credentials := update_where (\<lambda>c. wc_id c = wc_id row)
          (\<lambda>c. c\<lparr> wc_passkey_enc := enc, wc_last_used_at := Some (pd_now pd) \<rparr>) (webauthn_credentials s),
          webauthn_pendings := x\<rparr>"
    using assms(6) unfolding advanced_passkey_def by blast
  have s': "webauthn_credentials s' = update_where (\<lambda>c. wc_id c = wc_id row)
          (\<lambda>c. c\<lparr> wc_passkey_enc := enc, wc_last_used_at := Some (pd_now pd) \<rparr>) (webauthn_credentials s)"
    using upd by simp
  have row: "row \<in> ?R" "decrypt_passkey (pk_aead pk) row = Inr blob" "wl_passkey_from_slice (pk_lib pk) blob = Some pkey"
    using row0 row1 assms(5) by (auto simp: passkey_rows_def)
  have pkey: "wl_cred_id (pk_lib pk) (wl_update_credential (pk_lib pk) pkey res) = wc_credential_id row"
    using assms(1) passkeys_ok_row [OF assms(4) row(1)] row(2,3) by (auto simp: passkey_ok_def webauthn_lib_ok_def)
  have "passkey_ok pk c \<and> (\<exists>c0 \<in> ?R. wc_id c = wc_id c0 \<and> wc_credential_id c = wc_credential_id c0)"
    if c: "c \<in> set (webauthn_credentials s')" for c
  proof -
    obtain c0 where c0: "c0 \<in> ?R" "c = (if wc_id c0 = wc_id row
        then c0\<lparr> wc_passkey_enc := enc, wc_last_used_at := Some (pd_now pd) \<rparr> else c0)"
      using c unfolding s' set_update_where passkey_rows_Cons by blast
    show ?thesis
    proof (cases "wc_id c0 = wc_id row")
      case True
      then have "wc_credential_id c0 = wc_credential_id row"
        using passkeys_ok_id [OF assms(4) c0(1) row(1)] by simp
      then have "passkey_ok pk c"
        using sealed_passkey_ok [OF assms(1-3) new, of c] True c0(2) pkey by simp
      then show ?thesis
        using c0 True by (intro conjI bexI [of _ c0]) auto
    next
      case False
      then show ?thesis
        using c0 passkeys_ok_row [OF assms(4) c0(1)] by auto
    qed
  qed
  then show ?thesis
    using passkeys_ok_extend [OF assms(4), of "set (webauthn_credentials s')"] by (simp add: passkey_rows_Cons [of s'])
qed

lemma registered_passkeys_ok:
  assumes "webauthn_lib_ok (pk_lib pk)" "aead_ok (pk_aead pk)" "length (pd_nonce pd) = NONCE_LEN"
    and "passkeys_ok pk (passkey_rows (s # h))" "pd_id pd \<notin> wc_id ` passkey_rows (s # h)"
    and "finish_registration pk pd issuer wid uid nickname credential s0 s = (r, s')"
  shows "passkeys_ok pk (passkey_rows (s' # s # h))"
  using assms(6)
proof (cases rule: finish_registration_cases)
  case same
  then show ?thesis
    by (intro passkeys_ok_same [OF assms(4)]) auto
next
  case (added p blob enc)
  let ?row = "passkey_row pd uid (wl_cred_id (pk_lib pk) p) enc nickname"
  have "passkey_ok pk ?row" "wc_id ?row = pd_id pd"
    using sealed_passkey_ok [OF assms(1-3) added(1,2), of ?row] by (simp_all add: passkey_row_def)
  then have "passkeys_ok pk (insert ?row (passkey_rows (s # h)))"
    using passkeys_ok_fresh [OF assms(4)] assms(5) by simp
  then show ?thesis
    by (simp add: passkey_rows_Cons added(3))
qed

lemma passkey_delete_rows:
  assumes "passkey_delete pk at uid wid s = (r, s')"
  shows "set (webauthn_credentials s') \<subseteq> set (webauthn_credentials s)"
proof -
  obtain r' where "class_a (pk_digest pk) at (Some uid) (delete_passkey_body uid wid) s = (r', s')"
    using assms by (auto simp: passkey_delete_def delete_passkey_def split: prod.splits sum.splits store_error.splits)
  then show ?thesis
    by (rule u16.class_a_store) (auto simp: delete_passkey_body_def webauthn_delete_within_tx_def results Let_def tables)
qed

lemma passkey_rename_rows:
  assumes "passkey_rename pk at uid wid nickname s = (r, s')" "c \<in> set (webauthn_credentials s')"
  shows "\<exists>c0 \<in> set (webauthn_credentials s). wc_id c = wc_id c0 \<and> wc_credential_id c = wc_credential_id c0
    \<and> wc_passkey_enc c = wc_passkey_enc c0"
proof -
  obtain r' where "class_a (pk_digest pk) at (Some uid) (rename_passkey_body uid wid nickname) s = (r', s')"
    using assms(1) by (auto simp: passkey_rename_def rename_passkey_def split: prod.splits sum.splits store_error.splits)
  then show ?thesis
  proof (cases rule: u17.class_a_store)
    case (committed v t a)
    then have "webauthn_credentials s' = update_where (\<lambda>c. wc_id c = wid \<and> wc_user_id c = uid)
        (\<lambda>c. c\<lparr> wc_nickname := nickname \<rparr>) (webauthn_credentials s)"
      by (auto simp: rename_passkey_body_def update_nickname_within_tx_def results Let_def)
    then obtain c0 where "c0 \<in> set (webauthn_credentials s)"
      "c = (if wc_id c0 = wid \<and> wc_user_id c0 = uid then c0\<lparr> wc_nickname := nickname \<rparr> else c0)"
      using assms(2) by (auto simp: set_update_where)
    then show ?thesis
      by (intro bexI [of _ c0]) auto
  qed (use assms(2) in blast)
qed

lemma passkey_history_ok:
  assumes "passkey_history pk h" "webauthn_lib_ok (pk_lib pk)" "aead_ok (pk_aead pk)"
  shows "passkeys_ok pk (passkey_rows h)"
  using assms(1)
proof (induction rule: passkey_history.induct)
  case (empty s)
  then show ?case
    by (simp add: passkeys_ok_def passkey_rows_def)
next
  case (registered s h s0 pd issuer wid uid nickname credential r s')
  have "pd_id pd \<notin> wc_id ` passkey_rows (s # h)"
    using registered.hyps(4) by (auto simp: passkey_rows_def)
  then show ?case
    using registered_passkeys_ok [OF assms(2,3) registered.hyps(3) registered.IH] registered.hyps(5) by blast
next
  case (authenticated s h s0 pd issuer wid uid kind credential r s')
  from authenticated.hyps(4) show ?case
  proof (cases rule: finish_authentication_cases)
    case verified
    then show ?thesis
      using authenticated_passkeys_ok [OF assms(2,3) authenticated.hyps(3) authenticated.IH authenticated.hyps(2)] by blast
  next
    case (refused e x)
    then show ?thesis
      by (intro passkeys_ok_same [OF authenticated.IH]) auto
  qed
next
  case (deleted s h at uid wid r s')
  then show ?case
    using passkey_delete_rows by (intro passkeys_ok_same [OF deleted.IH]) blast
next
  case (renamed s h at uid wid nickname r s')
  then show ?case
    using passkey_rename_rows by (intro passkeys_ok_same [OF renamed.IH])
next
  case (other s h s')
  then show ?case
    by (intro passkeys_ok_same [OF other.IH]) auto
qed

lemma open_passkeys_ok:
  assumes "\<And>c. c \<in> set cs \<Longrightarrow> passkey_ok pk c"
  shows "\<exists>ps. open_passkeys pk cs = Inr ps \<and> map (wl_cred_id (pk_lib pk)) ps = map wc_credential_id cs"
  using assms
proof (induction cs)
  case (Cons c cs)
  then obtain ps where "open_passkeys pk cs = Inr ps" "map (wl_cred_id (pk_lib pk)) ps = map wc_credential_id cs"
    by auto
  then show ?case
    using Cons.prems [of c] by (auto simp: passkey_ok_def)
qed simp

text \<open>C15: A registered passkey stays usable.  Along every history of registrations, sign-ins, step-ups, deletions and
  renamings, in which each flow may have read an earlier state than the one it writes to, every stored passkey opens
  under the master key, parses, and is the passkey of the credential it is stored for; so beginning a ceremony offers
  the library exactly the credentials of the user, in the order of their registration.\<close>

theorem passkeys_stay_readable:
  assumes "passkey_history pk (s # h)" "webauthn_lib_ok (pk_lib pk)" "aead_ok (pk_aead pk)"
  shows "(\<forall>c \<in> set (webauthn_credentials s). passkey_ok pk c)
    \<and> (\<exists>ps. open_passkeys pk (passkey_list_for_user uid s) = Inr ps
        \<and> map (wl_cred_id (pk_lib pk)) ps = map wc_credential_id (passkey_list_for_user uid s))"
proof -
  have "passkey_ok pk c" if "c \<in> set (webauthn_credentials s)" for c
    using passkeys_ok_row [OF passkey_history_ok [OF assms]] that by (simp add: passkey_rows_Cons)
  moreover have "\<exists>ps. open_passkeys pk (passkey_list_for_user uid s) = Inr ps
        \<and> map (wl_cred_id (pk_lib pk)) ps = map wc_credential_id (passkey_list_for_user uid s)"
    using calculation by (intro open_passkeys_ok) (auto simp: passkey_list_for_user_def)
  ultimately show ?thesis
    by blast
qed


section \<open>Concrete ceremonies\<close>

text \<open>A library with one passkey, which accepts every assertion.\<close>

definition demo_webauthn :: webauthn_lib where
  "demo_webauthn = \<lparr> wl_host_str = (\<lambda>u. case url_host u of Some (HostIpv6 ip) \<Rightarrow> Some ''[::1]'' | _ \<Rightarrow> Some ''h''),
     wl_new = (\<lambda>rp origin. Some ''w''), wl_start_registration = (\<lambda>w rnd uid name display known. Some (Some ''c'', ''st'')),
     wl_finish_registration = (\<lambda>w credential st. Some ''pk''), wl_start_authentication = (\<lambda>w rnd ps. Inr (Some ''c'', ''st'')),
     wl_finish_authentication = (\<lambda>w credential st. Some ''res''), wl_cred_id = (\<lambda>p. ''cid''), wl_result_cred_id = (\<lambda>r. ''cid''),
     wl_update_credential = (\<lambda>p r. p), wl_passkey_to_vec = Some, wl_passkey_from_slice = Some, wl_reg_state_to_json = Some,
     wl_reg_state_from_json = Some, wl_auth_state_to_json = Some, wl_auth_state_from_json = Some, wl_credential_from_json = Some \<rparr>"

definition demo_site :: "string \<Rightarrow> url_host \<Rightarrow> web_env" where
  "demo_site scheme host = \<lparr> url_parse = (\<lambda>s. Some \<lparr> url_scheme = scheme, url_username = [], url_password = None, url_host = Some host,
      url_port = None, url_path = s, url_query = None, url_fragment = None \<rparr>), debug_str = (\<lambda>s. s) \<rparr>"

definition demo_passkey_env :: passkey_env where
  "demo_passkey_env = \<lparr> pk_lib = demo_webauthn, pk_web = demo_site ''https'' (HostDomain ''h''), pk_digest = demo_env, pk_aead = demo_aead \<rparr>"

definition demo_passkey_draws :: passkey_draws where
  "demo_passkey_draws = \<lparr> pd_random = [], pd_check = 1, pd_now = 1, pd_id = ''w1'', pd_nonce = replicate NONCE_LEN CHR ''n'', pd_at = 1 \<rparr>"

definition demo_credential :: user_webauthn_credential_row where
  "demo_credential = \<lparr> wc_id = ''w0'', wc_user_id = ''u1'', wc_credential_id = ''cid'',
     wc_passkey_enc = replicate NONCE_LEN CHR ''n'' @ ''pk'' @ replicate 16 CHR ''t'', wc_nickname = ''Passkey'', wc_created_at = 0,
     wc_last_used_at = None \<rparr>"

definition demo_ceremony :: "webauthn_pending_kind \<Rightarrow> webauthn_pending_row" where
  "demo_ceremony kind = \<lparr> wp_id = ''c1'', wp_kind = kind, wp_user_id = Some ''u1'', wp_state_json = ''st'', wp_expires_at = 5, wp_created_at = 0 \<rparr>"

definition demo_passkeys :: "webauthn_pending_kind \<Rightarrow> store" where
  "demo_passkeys kind = demo_sign_in\<lparr> webauthn_credentials := [demo_credential], webauthn_pendings := [demo_ceremony kind] \<rparr>"

lemma demo_webauthn_ok: "webauthn_lib_ok demo_webauthn" "host_str_ok demo_webauthn"
  by (simp_all add: webauthn_lib_ok_def host_str_ok_def demo_webauthn_def)

lemma demo_passkey_fields [simp]:
  "pk_lib demo_passkey_env = demo_webauthn" "pk_digest demo_passkey_env = demo_env" "pk_aead demo_passkey_env = demo_aead"
  "pd_nonce demo_passkey_draws = replicate NONCE_LEN CHR ''n''" "pd_check demo_passkey_draws = 1" "pd_now demo_passkey_draws = 1"
  "pd_id demo_passkey_draws = ''w1''" "pd_at demo_passkey_draws = 1"
  by (simp_all add: demo_passkey_env_def demo_passkey_draws_def)

lemma demo_build: "webauthn_build demo_webauthn (pk_web demo_passkey_env) i = Inr ''w''"
  by (simp add: webauthn_build_def demo_webauthn_def demo_passkey_env_def demo_site_def Let_def)

lemma demo_finished:
  obtains x y where "finish_authentication demo_passkey_env demo_passkey_draws ''i'' ''c1'' ''u1'' kind ''cr'' (demo_passkeys kind) (demo_passkeys kind)
    = (Inr (), (demo_passkeys kind)\<lparr>webauthn_credentials := x, webauthn_pendings := y\<rparr>)"
    "kind = KindStepUp \<Longrightarrow> y = [demo_ceremony kind]"
proof -
  have rd: "webauthn_pending_get ''c1'' (demo_passkeys kind) = Some (demo_ceremony kind)"
    "find_by_credential_id ''cid'' (demo_passkeys kind) = Some demo_credential"
    by (simp_all add: webauthn_pending_get_def find_by_credential_id_def demo_passkeys_def demo_ceremony_def demo_credential_def)
  have op: "decrypt_passkey demo_aead demo_credential = Inr ''pk''"
    by (simp add: decrypt_passkey_def open_sealed_def demo_aead_def demo_credential_def NONCE_LEN_def)
  have "\<exists>x. with_tx (update_passkey demo_aead (replicate NONCE_LEN CHR ''n'') 1 ''w0'' ''pk'') (demo_passkeys kind)
      = (Inr (), (demo_passkeys kind)\<lparr>webauthn_credentials := x\<rparr>)"
    by (simp add: with_tx_def update_passkey_def seal_passkey_def seal_def demo_aead_def found_or_def affected_def
        demo_passkeys_def demo_credential_def) (rule exI, rule refl)
  then obtain x where upd: "with_tx (update_passkey demo_aead (replicate NONCE_LEN CHR ''n'') 1 ''w0'' ''pk'') (demo_passkeys kind)
      = (Inr (), (demo_passkeys kind)\<lparr>webauthn_credentials := x\<rparr>)"
    by blast
  have cer: "wp_kind (demo_ceremony kind) = kind" "wp_user_id (demo_ceremony kind) = Some ''u1''" "wp_expires_at (demo_ceremony kind) = 5"
    "wc_user_id demo_credential = ''u1''" "wc_id demo_credential = ''w0''" "wl_result_cred_id demo_webauthn r = ''cid''"
    "wl_auth_state_from_json demo_webauthn = Some" "wl_finish_authentication demo_webauthn w c st = Some ''res''"
    "wl_passkey_from_slice demo_webauthn = Some" "wl_passkey_to_vec demo_webauthn = Some" "wl_update_credential demo_webauthn p r = p" for r w c st p
    by (simp_all add: demo_ceremony_def demo_credential_def demo_webauthn_def)
  let ?t = "(demo_passkeys kind)\<lparr>webauthn_credentials := x\<rparr>"
  have run: "finish_authentication demo_passkey_env demo_passkey_draws ''i'' ''c1'' ''u1'' kind ''cr'' (demo_passkeys kind) (demo_passkeys kind)
    = (Inr (), if kind \<noteq> KindStepUp then snd (with_tx (webauthn_pending_delete ''c1'') ?t) else ?t)"
    using demo_build rd op upd by (simp add: finish_authentication_def cer)
  have same: "?t = (demo_passkeys kind)\<lparr>webauthn_credentials := x, webauthn_pendings := [demo_ceremony kind]\<rparr>"
    by (simp add: demo_passkeys_def)
  show thesis
  proof (cases "kind = KindStepUp")
    case True
    then show thesis
      using that run same by simp
  next
    case False
    obtain y where "snd (with_tx (webauthn_pending_delete ''c1'') ?t) = ?t\<lparr>webauthn_pendings := y\<rparr>"
      using webauthn_pending_delete_store by blast
    then show thesis
      using that [of y x] False run by simp
  qed
qed

theorem passkey_sign_in_sound_witness:
  "\<exists>session s'. webauthn_auth_complete demo_passkey_env demo_mfa_env demo_passkey_draws demo_second_draws ''i'' False True (Some ''p1'')
      (Some ''c1'') ''cr'' (\<lambda>s. s) (demo_passkeys KindAuthenticate) (demo_passkeys KindAuthenticate) = (SignedInAs session, s')
    \<and> s_user_id session = ''u1'' \<and> s_auth_methods session = [Pwd, Webauthn]"
proof -
  let ?s = "demo_passkeys KindAuthenticate"
  obtain x y where fin: "finish_authentication demo_passkey_env demo_passkey_draws ''i'' ''c1'' ''u1'' KindAuthenticate ''cr'' ?s ?s
    = (Inr (), ?s\<lparr>webauthn_credentials := x, webauthn_pendings := y\<rparr>)"
    by (rule demo_finished)
  let ?t = "?s\<lparr>webauthn_credentials := x, webauthn_pendings := y\<rparr>"
  let ?ses = "second_session demo_second_draws ''u1'' Webauthn"
  have user: "List.find (by_user_id ''u1'') (users ?t) = Some (demo_user ''u1'' User)" "may_sign_in 1 (demo_user ''u1'' User)"
    "length (sessions ?t) < 10 ^ 9 - 1" "''s9'' \<notin> s_id ` set (sessions ?t)"
    by (simp_all add: demo_passkeys_def demo_sign_in_simps by_user_id_def may_sign_in_def user_active_def locked_at_def)
  have pend: "affected (pending_live ''p1'' ''u1'' 1) (login_pending_mfas ?t) \<noteq> 0"
    by (simp add: demo_passkeys_def demo_sign_in_simps affected_def pending_live_def seconds_def nanos_def)
  obtain session s' where "complete_second_factor demo_env (sd_at demo_second_draws) ''p1'' ?ses SfWebauthn ?t = (Inr session, s')"
    using second_factor_commits [of ?t ?ses "demo_user ''u1'' User" "''p1''" SfWebauthn _ demo_env "sd_at demo_second_draws"] user pend
    by fastforce
  then have com: "verify_pending_webauthn demo_mfa_env demo_second_draws ''p1'' ''u1'' ?t = (Inr session, s')"
    by (simp add: verify_pending_webauthn_def mfa_complete_def)
  have get: "pending_mfa_get ''p1'' ?s = Some \<lparr> pm_id = ''p1'', pm_user_id = ''u1'', pm_expires_at = seconds 300, pm_created_at = 0 \<rparr>"
    "wl_credential_from_json demo_webauthn ''cr'' = Some ''cr''"
    by (simp_all add: pending_mfa_get_def demo_passkeys_def demo_sign_in_simps demo_webauthn_def)
  then have run: "webauthn_auth_complete demo_passkey_env demo_mfa_env demo_passkey_draws demo_second_draws ''i'' False True (Some ''p1'')
      (Some ''c1'') ''cr'' (\<lambda>s. s) ?s ?s = (SignedInAs session, s')"
    using fin com by (simp add: webauthn_auth_complete_def seconds_def nanos_def)
  obtain p where "pending_mfa_get ''p1'' ?s = Some p"
    and ses: "session = (second_session demo_second_draws (pm_user_id p) Webauthn)\<lparr> s_last_step_up_at := Some (sd_now demo_second_draws) \<rparr>"
    using passkey_sign_in_sound [OF run] by blast
  then have "pm_user_id p = ''u1''"
    using get(1) by auto
  then show ?thesis
    using run by (intro exI [of _ session] exI [of _ s']) (simp add: ses)
qed

theorem passkey_step_up_sound_witness:
  "\<exists>s'. passkey_step_up demo_passkey_env demo_passkey_draws 1 ''i'' ''u1'' ''s2'' ''c1'' ''cr'' ''/admin'' (\<lambda>s. s)
      (demo_passkeys KindStepUp) (demo_passkeys KindStepUp) = (Inr (), s')
    \<and> (\<exists>r \<in> set (sessions s'). s_id r = ''s2'' \<and> s_last_step_up_at r = Some 1)"
proof -
  let ?s = "demo_passkeys KindStepUp"
  obtain x y where fin: "finish_authentication demo_passkey_env demo_passkey_draws ''i'' ''c1'' ''u1'' KindStepUp ''cr'' ?s ?s
    = (Inr (), ?s\<lparr>webauthn_credentials := x, webauthn_pendings := y\<rparr>)" and y: "y = [demo_ceremony KindStepUp]"
    by (rule demo_finished [of KindStepUp]) simp
  let ?t = "?s\<lparr>webauthn_credentials := x, webauthn_pendings := y\<rparr>"
  have live: "session_live ''s2'' ''u1'' 1 ?t"
    by (simp add: session_live_def get_with_user_active_def demo_passkeys_def demo_sign_in_simps by_session_id_def by_user_id_def
        user_active_def seconds_def nanos_def)
  have "\<exists>s1. consume_step_up_within_tx ''c1'' ''u1'' 1 ?t = Inr ((), s1)"
    using y by (simp add: results ceremony_live_def demo_ceremony_def)
  then obtain s2 where "complete_step_up_body ''u1'' ''s2'' (SuWebauthn ''c1'') ''/admin'' 1 ?t
      = Inr (((), L05_event ''u1'' ''webauthn'' ''/admin''), s2)"
    using live by (auto simp: complete_step_up_body_def require_live_session_within_tx_def record_step_up_within_tx_def
        update_sessions_def tx_bind_def)
  moreover have "checked_attributes (L05_event ''u1'' ''webauthn'' ''/admin'') = Inr [(''method'', ''webauthn''), (''gate'', ''/admin'')]"
    unfolding L05_event_def
    by (simp add: truncate_utf8_def STEP_UP_GATE_ATTRIBUTE_BYTES_def, intro checked_ok_event) (simp_all add: attribute_bounds)
  ultimately obtain s' where "complete_step_up demo_env 1 ''u1'' ''s2'' (SuWebauthn ''c1'') ''/admin'' 1 ?t = (Inr (), s')"
    using l05.class_a_commit by (simp add: complete_step_up_def)
  moreover have "wl_credential_from_json demo_webauthn ''cr'' = Some ''cr''"
    by (simp add: demo_webauthn_def)
  ultimately have run: "passkey_step_up demo_passkey_env demo_passkey_draws 1 ''i'' ''u1'' ''s2'' ''c1'' ''cr'' ''/admin'' (\<lambda>s. s) ?s ?s
      = (Inr (), s')"
    using fin by (simp add: passkey_step_up_def finish_webauthn_def step_up_complete_def)
  then show ?thesis
    using passkey_step_up_sound [OF run] by blast
qed

theorem ipv6_loopback_refused_witness:
  "\<exists>t. webauthn_build demo_webauthn (demo_site ''http'' (HostIpv6 1)) ''http://[::1]:8080'' = Inl (ConfigError t)"
  using ipv6_loopback_refused [OF demo_webauthn_ok(2), of "demo_site ''http'' (HostIpv6 1)" "''http://[::1]:8080''"]
  by (simp add: demo_site_def)

lemma demo_registration:
  obtains s' where "finish_registration demo_passkey_env demo_passkey_draws ''i'' ''c1'' ''u1'' [] ''cr''
      (demo_sign_in\<lparr>webauthn_pendings := [demo_ceremony KindRegister]\<rparr>) (demo_sign_in\<lparr>webauthn_pendings := [demo_ceremony KindRegister]\<rparr>)
      = (Inr (passkey_row demo_passkey_draws ''u1'' ''cid'' (replicate NONCE_LEN CHR ''n'' @ ''pk'' @ replicate 16 CHR ''t'') []), s')"
proof -
  let ?s = "demo_sign_in\<lparr>webauthn_pendings := [demo_ceremony KindRegister]\<rparr>"
  let ?row = "passkey_row demo_passkey_draws ''u1'' ''cid'' (replicate NONCE_LEN CHR ''n'' @ ''pk'' @ replicate 16 CHR ''t'') []"
  have "\<exists>t. register_passkey_body ?row ?s = Inr (((), factor_added_event ''u1'' AddedWebauthn), t)"
    by (simp add: register_passkey_body_def webauthn_create_within_tx_def tx_bind_def demo_sign_in_simps passkey_row_def)
  moreover have "checked_attributes (factor_added_event ''u1'' AddedWebauthn) = Inr [(''method'', ''webauthn'')]"
    unfolding factor_added_event_def by (simp, intro checked_ok_event) (simp_all add: attribute_bounds)
  ultimately obtain t where reg: "register_passkey demo_env 1 ?row ?s = (Inr (), t)"
    using u15.class_a_commit unfolding register_passkey_def by blast
  have "webauthn_pending_get ''c1'' ?s = Some (demo_ceremony KindRegister)"
    by (simp add: webauthn_pending_get_def demo_ceremony_def)
  moreover have "seal_passkey demo_aead (replicate NONCE_LEN CHR ''n'') ''pk'' = Inr (replicate NONCE_LEN CHR ''n'' @ ''pk'' @ replicate 16 CHR ''t'')"
    by (simp add: seal_passkey_def seal_def demo_aead_def)
  moreover have "wp_kind (demo_ceremony KindRegister) = KindRegister" "wp_user_id (demo_ceremony KindRegister) = Some ''u1''"
    "wp_expires_at (demo_ceremony KindRegister) = 5" "wl_reg_state_from_json demo_webauthn = Some"
    "wl_finish_registration demo_webauthn w c st = Some ''pk''" "wl_passkey_to_vec demo_webauthn = Some" "wl_cred_id demo_webauthn p = ''cid''"
    for w c st p
    by (simp_all add: demo_ceremony_def demo_webauthn_def)
  ultimately show thesis
    using demo_build reg by (intro that) (simp add: finish_registration_def Let_def)
qed

theorem passkeys_stay_readable_witness:
  "\<exists>s h. passkey_history demo_passkey_env (s # h) \<and> webauthn_credentials s \<noteq> []
    \<and> (\<forall>c \<in> set (webauthn_credentials s). passkey_ok demo_passkey_env c)"
proof -
  let ?s = "demo_sign_in\<lparr>webauthn_pendings := [demo_ceremony KindRegister]\<rparr>"
  obtain s' where run: "finish_registration demo_passkey_env demo_passkey_draws ''i'' ''c1'' ''u1'' [] ''cr'' ?s ?s
      = (Inr (passkey_row demo_passkey_draws ''u1'' ''cid'' (replicate NONCE_LEN CHR ''n'' @ ''pk'' @ replicate 16 CHR ''t'') []), s')"
    by (rule demo_registration)
  have none: "webauthn_credentials ?s = []"
    by (simp add: demo_sign_in_simps)
  have hist: "passkey_history demo_passkey_env [s', ?s]"
    by (rule passkey_history.registered [OF passkey_history.empty [OF none] _ _ _ run]) (simp_all add: none)
  moreover from run have "webauthn_credentials s' \<noteq> []"
  proof (cases rule: finish_registration_cases)
    case same
    then show ?thesis
      by blast
  qed simp
  ultimately show ?thesis
    using passkeys_stay_readable [OF hist] demo_webauthn_ok(1) demo_aead_ok by auto
qed

end
