(* ===== verification/Spec2Isabelle.thy ===== *)
theory Spec2Isabelle
  imports Core_Errors Totp Token_Traffic Command_History Federated_Traffic Forgot_Password Federated_Callback Dynamic_Registration Passkeys
begin

text \<open>
  A verification development for sui-id, a self-hosted OpenID Connect provider written in Rust.  The sources are
  under \<open>src/crates\<close>: \<open>sui-id-shared\<close> (identifiers, authentication methods, digests), \<open>sui-id-store\<close>
  (the SQLite store: row types, repositories, and the audited commands of \<open>commands.rs\<close>), \<open>sui-id-core\<close>
  (the flows: sign-in, second factor, OIDC, account recovery, mail, settings), \<open>sui-id-i18n\<close> and
  \<open>sui-id-web\<close> (texts and pages) and \<open>sui-id\<close> (the HTTP server, its upstream validators and the command
  line).  This theory imports the library, states the properties that span several components, and documents
  the whole.

  \<^bold>\<open>How the program works.\<close>  A flow of the core crate reads rows, checks them, and commits its effect by one
  command of the store.  A command runs in one transaction: its closure reads and writes tables through
  functions named \<open>..._within_tx\<close> and returns a sealed audit event; the runner appends the event's row to the
  hash-chained audit log and commits both, or neither.  Flows on different connections interleave between their
  reads and their commands, so a command re-checks in its transaction what must still hold.

  \<^bold>\<open>How it is modelled.\<close>
  \<^item> A \<open>&str\<close> or byte string is the list of its bytes, an identifier its text, a \<open>DateTime<Utc>\<close> an integer
    number of nanoseconds, an \<open>i64\<close> an \<open>int\<close> where the code keeps it far from its bounds, a \<open>u32\<close> or
    \<open>u64\<close> that is shifted or wraps a \<open>word\<close>.
  \<^item> The database is one record \<open>store\<close> with a list of rows per table (\<open>Store_Model\<close>); rows are records
    with the fields of \<open>models.rs\<close>.  An SQL statement is \<open>update_where\<close>, \<open>delete_where\<close>, \<open>affected\<close> or
    \<open>List.find\<close> over those lists; a key constraint is a check in the insert.
  \<^item> A function inside a transaction is a \<open>'a tx\<close>, \<open>store \<Rightarrow> store_error + 'a \<times> store\<close>, composed by \<open>tx_bind\<close>;
    the runner is \<open>class_a\<close>, which returns the old store on every error.  Each command has its closure as
    \<open>..._body\<close> and the command itself under the name of the source.
  \<^item> A flow is a function to a result and a store.  Where it reads before it commits, it takes two stores: \<open>s0\<close>,
    what it read, and \<open>s\<close>, what its command runs on.  Theorems that do not relate the two hold for every
    interleaving.  The exchanges of the token endpoint are values of type \<open>flow\<close> with one step per database call, so
    that any number of them can overlap; \<open>solo\<close> runs one undisturbed, and the functions named like the source
    (\<open>exchange_code\<close>, \<open>exchange_refresh\<close>, ...) are these runs.  The clock reads, random bytes, nonces, salts and fresh
    identifiers of a call are arguments or fields of a record of draws, in the order of the code.
  \<^item> Errors are the datatypes of \<open>Core_Errors\<close>; every early return is a branch.  A loop whose end is not
    evident is a \<open>partial_function (option)\<close> (the outbox and forgot-password workers, the password generator,
    key drawing), and that it ends is proved.  No definition uses fuel.
  \<^item> Code outside the repository is a parameter: digests, AEAD, Ed25519, HMAC, Argon2, base64url, serde's JSON, URL
    parsing, the SMTP relay, the breach service.  What the program relies on is a named hypothesis (\<open>digest_env_ok\<close>,
    \<open>aead_ok\<close>, \<open>jwt_env_ok\<close>, \<open>claims_json_ok\<close>, \<open>password_env_ok\<close>, \<open>hmac_ok\<close>, \<open>codec_ok\<close>, \<open>change_codec_ok\<close>,
    \<open>codes_json_ok\<close>, \<open>decode_ok\<close>, \<open>webauthn_lib_ok\<close>, \<open>host_str_ok\<close>), each met by a concrete instance (\<open>demo_...\<close>) that the examples run on.

  \<^bold>\<open>The library.\<close>  \<open>Sui_Prelude\<close> holds the types, the list operations behind SQL statements and the collections
  \<open>results\<close> (inverting computations) and \<open>frame\<close> (what an operation leaves alone); \<open>Rust_Str\<close> the part of
  \<open>str\<close> the code uses, with UTF-8.  \<open>Store_Model\<close> states the contract of a command as the locale
  \<open>command_body\<close> (the closure never touches the audit log), derives \<open>audited_command\<close> from it (a command adds
  exactly one chained row when it succeeds and changes nothing when it fails), and every command's body is an
  interpretation in the theory that defines it (\<open>u01\<close>, \<open>l02\<close>, \<open>c15\<close>, ..., after the ids of \<open>registry.rs\<close>).
  \<open>One_Shot\<close> is the contract of anything that can be used once; authorization codes, refresh tokens, reset links,
  TOTP steps, federated attempts and pending settings changes are its interpretations.  \<open>Flows\<close> has the
  flows that overlap and the locale \<open>shared_invariant\<close>: what each flow of a pool keeps, so that its answers can be
  relied on; \<open>Token_Traffic\<close> interprets it on the token endpoint.  \<open>mail_sender\<close> in \<open>Forgot_Password\<close> is what the
  flow needs of a mailer, met by the outbox and by direct SMTP.

  \<^bold>\<open>Theories and sources.\<close>
  \<^item> \<open>Core_Errors\<close>: \<open>errors.rs\<close> of the three crates.  \<open>Auth_Method\<close>, \<open>Authz\<close>: \<open>auth_method.rs\<close>,
    \<open>identity/authz.rs\<close>, \<open>identity/actor.rs\<close>; a capability is only handed out by an authorization decision.
  \<^item> \<open>Audit_Note\<close>, \<open>Audit_Chain\<close>: attributes and notes of \<open>registry.rs\<close>, the chain of \<open>repos/audit.rs\<close> and its
    verifier; notes parse back, the verifier accepts exactly unbroken chains and a change is noticed.
  \<^item> \<open>Crypto\<close>, \<open>Users\<close>, \<open>Sessions\<close>, \<open>Factors\<close>, \<open>Auth_Codes\<close>, \<open>Refresh_Tokens\<close>, \<open>Signing_Keys\<close>,
    \<open>Clients\<close>, \<open>Settings\<close>: \<open>crypto.rs\<close>, \<open>secrets.rs\<close> and the repositories of the same names, with their
    commands.  Codes and tokens are used once, a token family has one active member and reuse closes it, key
    rotation refines a ring of keys.
  \<^item> \<open>Accounts\<close>, \<open>Recovery\<close>, \<open>Self_Service\<close>, \<open>Sign_In\<close>, \<open>Setup\<close>: the commands of \<open>commands.rs\<close> on
    accounts (U01 to U08), passwords and recovery links (U09, U10, U37), own factors, sessions and consents (U12 to
    U21), sign-in and step-up (L01, L02, L05 to L07) and first-run setup (S10) with \<open>setup.rs\<close> and \<open>security.rs\<close>.
  \<^item> \<open>Passwords\<close>, \<open>Totp\<close>, \<open>Login\<close>, \<open>Mfa\<close>: \<open>authn/password.rs\<close>, \<open>totp.rs\<close>, \<open>session.rs\<close>, \<open>mfa.rs\<close> and
    \<open>step_up.rs\<close>.  A sign-in is sound, its refusals look alike, guesses made one after the other are spaced by the
    lockout, recovery codes run out.  A path that hashes returns the hashes it verified against, because their number is its cost.
  \<^item> \<open>Jwt\<close>, \<open>Oidc_Tokens\<close>, \<open>Authorize\<close>, \<open>Token_Endpoint\<close>, \<open>Token_Grants\<close>, \<open>Token_Traffic\<close>:
    \<open>oidc/jwt.rs\<close>, \<open>tokens.rs\<close> and \<open>authorize.rs\<close>, what a grant guarantees when it runs undisturbed, and overlapping
    exchanges: one that begins after the account was disabled yields nothing, one that is past its account check
    still yields a lasting refresh token (a defect, see \<open>exchange_outlives_deactivation\<close>).
  \<^item> \<open>Federation\<close>, \<open>Federated_Mfa\<close>, \<open>Federated_Traffic\<close>: upstream providers, links, sign-in attempts, the
    second-factor continuation and its ceremony, and histories of them.
  \<^item> \<open>Json_Doc\<close>, \<open>Jwks\<close>, \<open>Discovery\<close>, \<open>Id_Token\<close>, \<open>Upstream_Identity\<close>, \<open>Federated_Callback\<close>:
    the documents of an upstream provider (\<open>http/json_shape.rs\<close>, \<open>response_bounds.rs\<close>, \<open>jwks.rs\<close>, \<open>discovery.rs\<close>,
    \<open>id_token.rs\<close> and the claim modules) and the handlers of \<open>handlers/federation.rs\<close>.  A token is accepted only under
    the provider's own key for an allowed algorithm, a callback signs in only the verified identity, and a claimed
    attempt is always settled.  What other connections do between the database calls of a handler is the argument
    \<open>other\<close>, indexed by the call; the theorems hold for all of them.
  \<^item> \<open>Dynamic_Registration\<close>: \<open>http/dynamic_registration_validation.rs\<close> and \<open>handlers/dynamic_register.rs\<close>.  A client
    that registers itself is disabled, within the rules of every field, and has spent a use of a registration token;
    a refused request changes nothing.
  \<^item> \<open>Passkeys\<close>: \<open>authn/webauthn.rs\<close>, the passkey half of \<open>step_up.rs\<close>, \<open>handlers/admin/webauthn.rs\<close> and their
    repositories.  A sign-in or step-up needs a verified assertion for a ceremony of its own kind and user, and stored
    passkeys stay readable along every history.
  \<^item> \<open>Outbox\<close>, \<open>Pending_Change\<close>, \<open>Locales\<close>, \<open>Forgot_Password\<close>: \<open>communication/mail\<close> and its outbox,
    \<open>settings/pending_change.rs\<close>, \<open>i18n\<close>, \<open>account/forgot_password.rs\<close> with \<open>events.rs\<close> and \<open>hibp.rs\<close>.
  \<^item> \<open>Command_History\<close>: the commands as one datatype and histories of them.

  \<^bold>\<open>What is not modelled\<close>, and why: the HTML pages and the string tables (no logic of their own); the HTTP handlers
  other than those named above, the router and cookies (they translate requests to the flows); the command line, configuration, startup and
  backup (process and file I/O); migrations and the connection layer (SQL text and the SQLite engine: the model
  starts from the tables they produce); the LDAP directory source (the protocol is the \<open>ldap3\<close> crate's); the
  cryptography of WebAuthn (\<open>webauthn-rs\<close> is a parameter); the verifier in front of the federated second factor
  (\<open>authn/federated_mfa.rs\<close>: the command behind it is modelled); introspection and revocation endpoints
  (\<open>oidc/oauth_token.rs\<close>) and the rendering of the published metadata; the caches of upstream documents; the
  re-sealing of rows in a master-key rotation; metrics, dashboards and in-process caches (no authority).  Rate limits of the HTTP layer are counted per process
  and are not part of the bounds proved here, which come from the store alone.  \<open>tracing\<close> output has no model.
  Best-effort writes whose error the code drops are taken to reach the disk.
\<close>

section \<open>Concrete states\<close>

definition demo_full :: store where
  "demo_full = demo_accounts\<lparr> users := users demo_accounts @ [demo_user ''u2'' User], clients := clients demo_issuer,
     signing_keys := signing_keys demo_issuer, auth_codes := [demo_issued],
     refresh_tokens := [demo_presented, demo_token\<lparr>rt_id := ''t9'', rt_user_id := ''u2'', rt_family_id := ''t9''\<rparr>] \<rparr>"

lemma demo_hashes: "refresh_token_hash demo_env ''raw1'' \<noteq> ''h1''" "refresh_token_hash demo_env ''raw2'' \<noteq> ''h1''"
  "refresh_token_hash demo_env ''raw3'' \<noteq> ''h1''"
  "refresh_token_hash demo_env ''raw1'' \<noteq> refresh_token_hash demo_env ''raw2''"
  "refresh_token_hash demo_env ''raw1'' \<noteq> refresh_token_hash demo_env ''raw3''"
  "refresh_token_hash demo_env ''raw2'' \<noteq> refresh_token_hash demo_env ''raw3''"
  by (simp_all add: refresh_token_hash_def demo_env_def take_Cons')

lemma demo_full_keyed: "tokens_keyed (refresh_tokens demo_full)" "codes_keyed demo_full" "all_hashed tgt demo_full"
  "hashes_of ''u2'' demo_full = {''h1''}"
  using demo_hashes
  by (auto simp: codes_keyed_def demo_full_def tokens_keyed_def hashes_unique_def at_most_one_def all_hashed_def
      demo_presented_def demo_token_def hashes_of_def)

lemma demo_full_evidence:
  "session_step_up_evidence_within_tx ''s1'' ''root'' 0 (demo_full\<lparr>auth_codes := cs\<rparr>)
    = Inr (NotRequired, demo_full\<lparr>auth_codes := cs\<rparr>)"
  by (simp add: session_step_up_evidence_within_tx_def require_live_session_within_tx_def has_second_factor_def
      session_live_def get_with_user_active_def demo_full_def demo_accounts_simps by_session_id_def by_user_id_def
      user_active_def seconds_def nanos_def)

lemma demo_full_disable:
  assumes "uid = ''u1'' \<or> uid = ''u2''"
  shows "\<exists>s'. disable_user demo_env 0 ''root'' ''s1'' uid None 0 0 (demo_full\<lparr>auth_codes := cs\<rparr>) = (Inr (), s')"
proof -
  have upd: "\<exists>s1. update_existing_user uid f (demo_full\<lparr>auth_codes := cs\<rparr>) = Inr ((), s1)" for f
    using assms by (auto simp: results demo_full_def demo_accounts_simps)
  have "checked_attributes (U02_event uid None NotRequired) = Inr [(''step_up'', as_attribute NotRequired)]"
    unfolding U02_event_def by (simp add: opt_attr_def, intro checked_ok_event) (simp_all add: attribute_bounds)
  moreover obtain s1 where "disable_user_body ''root'' ''s1'' uid None 0 0 (demo_full\<lparr>auth_codes := cs\<rparr>)
      = Inr (((), U02_event uid None NotRequired), s1)"
    using demo_full_evidence [of cs] upd [of "\<lambda>u. u\<lparr> u_is_disabled := True, u_updated_at := 0 \<rparr>"]
    by (auto simp: disable_user_body_def set_disabled_within_tx_def cut_access_eq)
  ultimately show ?thesis
    unfolding disable_user_def by (intro exI) (rule u02.class_a_commit)
qed

lemma demo_full_user: "get_user ''u1'' demo_full = Inr (demo_user ''u1'' User)"
  by (simp add: get_user_def demo_full_def demo_accounts_def by_user_id_def demo_user_def)

lemma demo_full_exchange:
  obtains ts s' r where "exchange_code demo_oidc demo_draws demo_ctx (demo_request ''v'') demo_full = (Inr ts, s')"
    "ts_user_id ts = Some ''u1''" "ts_refresh_token ts = ''raw2''" "refresh_tokens s' = refresh_tokens demo_full @ [r]"
    "issued_refresh_row demo_oidc demo_draws (new_refresh_row demo_draws demo_ctx ''u1'' ''c1'' ''openid'' [Pwd] ''t2'') r"
  by (rule demo_exchange_at [OF demo_full_keyed(2) _ demo_full_user])
    (use demo_hashes that in \<open>auto simp: demo_full_def demo_presented_def demo_token_def\<close>)

lemma demo_full_disabled:
  assumes "disable_user demo_env 0 ''root'' ''s1'' ''u2'' None 0 0 demo_full = (Inr (), s')"
  obtains us a where "s' = (after_cut ''u2'' 0 demo_full)\<lparr>users := us, audit := a\<rparr>"
    "get_user ''u1'' s' = Inr (demo_user ''u1'' User)"
proof -
  have "users (rest_of ''u2'' s') = users (rest_of ''u2'' demo_full)"
    using deactivation_cuts_access [OF disjI1 [OF assms]] by simp
  then have "filter (\<lambda>u. u_id u \<noteq> ''u2'') (users s') = filter (\<lambda>u. u_id u \<noteq> ''u2'') (users demo_full)"
    by (simp add: rest_of_def)
  moreover have "List.find (by_user_id ''u1'') (users s') = List.find (by_user_id ''u1'') (filter (\<lambda>u. u_id u \<noteq> ''u2'') (users s'))"
    by (rule find_filter_implied [symmetric]) (auto simp: by_user_id_def)
  ultimately have "get_user ''u1'' s' = Inr (demo_user ''u1'' User)"
    by (simp add: get_user_def demo_full_def demo_accounts_def by_user_id_def demo_user_def)
  moreover obtain us a where "s' = (after_cut ''u2'' 0 demo_full)\<lparr>users := us, audit := a\<rparr>"
    using disjI1 [OF assms] by (rule deactivation_success)
  ultimately show thesis
    by (rule that [rotated])
qed

section \<open>Properties across components\<close>

text \<open>C1: A user whose account was disabled or deleted gets no more tokens from any exchange that begins afterwards.
  Once the command has succeeded, let any number of code and refresh exchanges arrive, by any client, overlapping in
  any way (each makes its database calls one by one and the others commit between them) while the rest of the server
  does anything short of enabling the account again or adding refresh tokens: no exchange is answered with a token set
  for that user.  The user's refresh tokens have their hash column filled, and the random value of a new token does
  not repeat one of them.\<close>

theorem deactivated_user_gets_no_tokens:
  assumes "tokens_keyed (refresh_tokens s)" "all_hashed tgt s"
    and "disable_user cx at admin sid tgt reason t now s = (Inr (), s')
      \<or> delete_user cx at admin sid tgt reason t now s = (Inr (), s')"
    and "pool (elsewhere tgt) (token_requests oe (hashes_of tgt s)) s' flows s''"
    and "Finished (Inr ts) \<in> set flows"
  shows "ts_user_id ts \<noteq> Some tgt"
proof -
  obtain us a where s': "s' = (after_cut tgt now s)\<lparr>users := us, audit := a\<rparr>"
    and off: "\<forall>u \<in> set us. u_id u = tgt \<longrightarrow> \<not> user_active u"
    using assms(3) by (rule deactivation_success)
  have "shut_out tgt (hashes_of tgt s) s'"
    unfolding s' by (rule shut_out_after_cut [OF assms(1,2) off])
  from deactivated.pool_answers [OF assms(4) this assms(5)] show ?thesis
    by simp
qed

theorem deactivated_user_gets_no_tokens_witness:
  "\<exists>s' s'' ts. disable_user demo_env 0 ''root'' ''s1'' ''u2'' None 0 0 demo_full = (Inr (), s')
    \<and> pool (elsewhere ''u2'') (token_requests demo_oidc {''h1''}) s'
        [exchange_refresh_flow demo_oidc demo_draws demo_ctx demo_refresh_request, Finished (Inr ts)] s''
    \<and> ts_user_id ts \<noteq> Some ''u2''"
proof -
  obtain s' where off: "disable_user demo_env 0 ''root'' ''s1'' ''u2'' None 0 0 demo_full = (Inr (), s')"
    using demo_full_disable [of "''u2''" "auth_codes demo_full"] by auto
  obtain us a where s': "s' = (after_cut ''u2'' 0 demo_full)\<lparr>users := us, audit := a\<rparr>" "get_user ''u1'' s' = Inr (demo_user ''u1'' User)"
    using off by (rule demo_full_disabled)
  have parts: "refresh_tokens s' = [demo_presented, rt_revoke 0 (demo_token\<lparr>rt_id := ''t9'', rt_user_id := ''u2'', rt_family_id := ''t9''\<rparr>)]"
    "auth_codes s' = [demo_issued]" "clients s' = clients demo_issuer" "signing_keys s' = signing_keys demo_issuer"
    by (simp_all add: s'(1) after_cut_def demo_full_def update_where_def demo_presented_def demo_token_def rt_active_def
        demo_issued_def issued_code_def)
  obtain ts s'' where run: "exchange_code demo_oidc demo_draws demo_ctx (demo_request ''v'') s' = (Inr ts, s'')"
    by (rule demo_exchange_at [OF _ _ s'(2) parts(3,4)])
      (use demo_hashes in \<open>auto simp: parts codes_keyed_def demo_presented_def demo_token_def\<close>)
  have arrivals: "exchange_refresh_flow demo_oidc demo_draws demo_ctx demo_refresh_request \<in> token_requests demo_oidc {''h1''}"
    "exchange_code_flow demo_oidc demo_draws demo_ctx (demo_request ''v'') \<in> token_requests demo_oidc {''h1''}"
    using demo_hashes(2) by (auto simp: demo_draws_def intro!: token_requests_intros)
  have "pool (elsewhere ''u2'') (token_requests demo_oidc {''h1''}) s'
      ([exchange_refresh_flow demo_oidc demo_draws demo_ctx demo_refresh_request] @ [Finished (Inr ts)]) s''"
    using pool_arrive [OF pool_begin arrivals(1), of "elsewhere ''u2''" s'] run [unfolded exchange_code_def]
    by (intro pool_solo [OF _ arrivals(2)]) simp_all
  then show ?thesis
    using deactivated_user_gets_no_tokens [OF demo_full_keyed(1,3) disjI1 [OF off], of demo_oidc _ s'' ts] off
    by (intro exI [of _ s'] exI [of _ s''] exI [of _ ts]) (simp add: demo_full_keyed(4))
qed

text \<open>C27: The account check of a code exchange and its issuing are separate database calls, and nothing repeats the
  check.  When a code exchange that would succeed has made its first three calls (client, code, user) and the account is
  disabled or deleted at that moment, the exchange still answers with the same tokens, and the refresh token it
  stores is active although the account is not: the cut of the access came before it.\<close>

theorem exchange_outlives_deactivation:
  assumes "codes_keyed s" "exchange_code oe dr ctx req s = (Inr ts, s0)" "ts_user_id ts = Some tgt"
    and "advance 3 (exchange_code_flow oe dr ctx req) s = (rest, s1)"
    and "disable_user cx at admin sid tgt reason t now s1 = (Inr (), s2)
      \<or> delete_user cx at admin sid tgt reason t now s1 = (Inr (), s2)"
  shows "\<exists>s3 r. solo rest s2 = (Inr ts, s3)
    \<and> (\<forall>u \<in> set (users s3). u_id u = tgt \<longrightarrow> \<not> user_active u)
    \<and> refresh_tokens s0 = refresh_tokens s @ [r] \<and> refresh_tokens s3 = refresh_tokens s2 @ [r]
    \<and> rt_user_id r = tgt \<and> rt_active r
    \<and> rt_token_hash r = Some (refresh_token_hash (oe_digest oe) (ts_refresh_token ts))"
proof -
  obtain row :: authorization_code_row and u where u: "ts_user_id ts = Some (u_id u)"
    and three: "advance 3 (exchange_code_flow oe dr ctx req) s = (issue_for_flow oe dr ctx (u_id u) (cr_client_id req)
       (ac_scope row) (authorization_code_row.ac_nonce row) (ac_auth_methods row) (user_email_pair u),
      after_consume (code_hash_of (oe_digest oe) (cr_code req)) (xd_consume_at dr) s)"
    and issue: "issue_for oe dr ctx (u_id u) (cr_client_id req) (ac_scope row) (authorization_code_row.ac_nonce row) (ac_auth_methods row)
      (user_email_pair u) (after_consume (code_hash_of (oe_digest oe) (cr_code req)) (xd_consume_at dr) s) = (Inr ts, s0)"
    using assms(1,2) by (rule advance_checked)
  obtain us a where s2: "s2 = (after_cut tgt now s1)\<lparr>users := us, audit := a\<rparr>"
    and off: "\<forall>u \<in> set us. u_id u = tgt \<longrightarrow> \<not> user_active u"
    using assms(5) by (rule deactivation_success)
  have s1: "s1 = after_consume (code_hash_of (oe_digest oe) (cr_code req)) (xd_consume_at dr) s"
    and rest: "rest = issue_for_flow oe dr ctx (u_id u) (cr_client_id req)
       (ac_scope row) (authorization_code_row.ac_nonce row) (ac_auth_methods row) (user_email_pair u)"
    using three assms(4) by simp_all
  have "signing_keys s2 = signing_keys s1" "\<And>row. fresh_row row (refresh_tokens s2) = fresh_row row (refresh_tokens s1)"
    by (simp_all add: s2 after_cut_def)
  from issue_for_elsewhere [OF issue [folded s1] this]
  obtain r where r: "issued_refresh_row oe dr (new_refresh_row dr ctx (u_id u) (cr_client_id req) (ac_scope row)
      (ac_auth_methods row) (xd_token_id dr)) r" "ts_refresh_token ts = xd_raw dr"
    "solo rest s2 = (Inr ts, s2\<lparr>refresh_tokens := refresh_tokens s2 @ [r]\<rparr>)"
    by (auto simp: rest issue_for_def)
  have "refresh_tokens s0 = refresh_tokens s @ [r]"
    using issue by (rule issue_for_Inr) (use issued_refresh_row_unique [OF r(1)] in auto)
  then show ?thesis
    using r off u assms(3)
    by (intro exI [of _ "s2\<lparr>refresh_tokens := refresh_tokens s2 @ [r]\<rparr>"] exI [of _ r])
      (auto simp: s2 issued_refresh_row_def new_refresh_row_def rt_active_def)
qed

theorem exchange_outlives_deactivation_witness:
  "\<exists>ts s0 rest s1 s2 s3 ts' s4.
    exchange_code demo_oidc demo_draws demo_ctx (demo_request ''v'') demo_full = (Inr ts, s0) \<and> ts_user_id ts = Some ''u1''
    \<and> advance 3 (exchange_code_flow demo_oidc demo_draws demo_ctx (demo_request ''v'')) demo_full = (rest, s1)
    \<and> disable_user demo_env 0 ''root'' ''s1'' ''u1'' None 0 0 s1 = (Inr (), s2)
    \<and> solo rest s2 = (Inr ts, s3) \<and> (\<forall>u \<in> set (users s3). u_id u = ''u1'' \<longrightarrow> \<not> user_active u)
    \<and> exchange_refresh demo_oidc (demo_draws_of ''t3'' ''raw3'') demo_ctx
        (demo_refresh_request\<lparr>rr_refresh_token := ts_refresh_token ts\<rparr>) s3 = (Inr ts', s4)
    \<and> ts_user_id ts' = Some ''u1''"
proof -
  obtain ts s0 q where run: "exchange_code demo_oidc demo_draws demo_ctx (demo_request ''v'') demo_full = (Inr ts, s0)"
    and ts: "ts_user_id ts = Some ''u1''" "ts_refresh_token ts = ''raw2''" and s0: "refresh_tokens s0 = refresh_tokens demo_full @ [q]"
    and q: "issued_refresh_row demo_oidc demo_draws (new_refresh_row demo_draws demo_ctx ''u1'' ''c1'' ''openid'' [Pwd] ''t2'') q"
    by (rule demo_full_exchange)
  obtain row :: authorization_code_row and u where three: "advance 3 (exchange_code_flow demo_oidc demo_draws demo_ctx
      (demo_request ''v'')) demo_full = (issue_for_flow demo_oidc demo_draws demo_ctx (u_id u) (cr_client_id (demo_request ''v''))
       (ac_scope row) (authorization_code_row.ac_nonce row) (ac_auth_methods row) (user_email_pair u),
      after_consume (code_hash_of (oe_digest demo_oidc) (cr_code (demo_request ''v''))) (xd_consume_at demo_draws) demo_full)"
      (is "_ = (?rest, ?s1)")
    using demo_full_keyed(2) run by (rule advance_checked)
  obtain s2 where off: "disable_user demo_env 0 ''root'' ''s1'' ''u1'' None 0 0 ?s1 = (Inr (), s2)"
    unfolding after_consume_def using demo_full_disable [of "''u1''"] by auto
  obtain s3 r where s3: "solo ?rest s2 = (Inr ts, s3)" "\<forall>u \<in> set (users s3). u_id u = ''u1'' \<longrightarrow> \<not> user_active u"
    "refresh_tokens s0 = refresh_tokens demo_full @ [r]" "refresh_tokens s3 = refresh_tokens s2 @ [r]" "rt_active r"
    using exchange_outlives_deactivation [OF demo_full_keyed(2) run ts(1) three disjI1 [OF off]] by auto
  have r: "r = q"
    using s0 s3(3) by simp
  obtain us a where s2: "s2 = (after_cut ''u1'' 0 ?s1)\<lparr>users := us, audit := a\<rparr>"
    using disjI1 [OF off] by (rule deactivation_success)
  have s3': "clients s3 = clients s2" "signing_keys s3 = signing_keys s2"
    using s3(1) [folded issue_for_def] by (rule issue_for_Inr, simp)+
  note row = q [unfolded issued_refresh_row_def new_refresh_row_def demo_draws_def]
  have old: "refresh_tokens s2 = [rt_revoke 0 demo_presented, demo_token\<lparr>rt_id := ''t9'', rt_user_id := ''u2'', rt_family_id := ''t9''\<rparr>]"
    by (simp add: s2 after_cut_def demo_full_def update_where_def demo_presented_def demo_token_def rt_active_def)
  have "\<exists>ts' s4. exchange_refresh demo_oidc (demo_draws_of ''t3'' ''raw3'') demo_ctx (demo_refresh_request\<lparr>rr_refresh_token := ''raw2''\<rparr>) s3
      = (Inr ts', s4) \<and> ts_user_id ts' = Some ''u1''"
  proof (rule demo_refresh_at [of _ r])
    show "tokens_keyed (refresh_tokens s3)"
      using row demo_hashes by (auto simp: s3(4) old r tokens_keyed_def hashes_unique_def at_most_one_def demo_presented_def demo_token_def)
    show "clients s3 = clients demo_issuer" "signing_keys s3 = signing_keys demo_issuer"
      by (simp_all add: s3' s2 after_cut_def demo_full_def)
  qed (use row demo_hashes s3(5) in \<open>auto simp: s3(4) old r demo_presented_def demo_token_def demo_ctx_def default_lifetimes_def seconds_def nanos_def\<close>)
  then obtain ts' s4 where again: "exchange_refresh demo_oidc (demo_draws_of ''t3'' ''raw3'') demo_ctx
      (demo_refresh_request\<lparr>rr_refresh_token := ''raw2''\<rparr>) s3 = (Inr ts', s4)" "ts_user_id ts' = Some ''u1''"
    by blast
  show ?thesis
    by (intro exI [of _ ts] exI [of _ s0] exI [of _ ?rest] exI [of _ ?s1] exI [of _ s2] exI [of _ s3] exI [of _ ts']
        exI [of _ s4] conjI run ts(1) three off s3(1,2) again(2)) (simp add: ts(2) again(1))
qed

text \<open>C4: Accountability.  Along every history of the store's audited commands (account, credential,
  client, key, sign-in and token commands, succeeding or failing, in any order) the audit log only
  grows, by exactly one row per command that succeeded, and stays intact: the chain verifier never
  reports a break, whatever its limit.\<close>

theorem audit_log_complete:
  assumes "digest_env_ok cx" "intact cx (audit s)" "history cx s n s'"
  shows "intact cx (audit s') \<and> (\<exists>es. entries (audit s') = entries (audit s) @ es \<and> length es = n)
    \<and> broken_at_seq (verify_chain_tail cx (audit s') limit) = None"
  using history_log [OF assms(3,1,2)] verify_intact by (auto simp: intact_def)

theorem audit_log_complete_witness:
  "\<exists>s'. history demo_env demo_full 1 s' \<and> length (entries (audit s')) = 1
    \<and> broken_at_seq (verify_chain_tail demo_env (audit s') 10) = None"
proof -
  obtain s' where "disable_user demo_env 0 ''root'' ''s1'' ''u1'' None 0 0 demo_full = (Inr (), s')"
    using demo_full_disable [of "''u1''" "auth_codes demo_full"] by auto
  then have "acked (disable_user demo_env 0 ''root'' ''s1'' ''u1'' None 0 0) demo_full = (Inr (), s')"
    by (simp add: acked_def)
  from history.execute [OF history.begin_history command.U02 this] have h: "history demo_env demo_full 1 s'"
    by simp
  have empty: "audit demo_full = \<lparr> entries = [], autoinc = 0 \<rparr>"
    by (simp add: demo_full_def demo_accounts_simps)
  then have "intact demo_env (audit demo_full)"
    by simp
  then show ?thesis
    using audit_log_complete [OF demo_env_ok _ h] h empty by auto
qed

end
